(* ===== verification/Prelude.thy ===== *)
theory Prelude
  imports Main "HOL-Library.Word" "HOL-Library.AList"
begin

text \<open>
  The prelude of the development: the fragment of JavaScript that the Review Tunnel sources
  use everywhere, and the generic lemmas the component theories share.

  \<^item> Numbers. A JavaScript number that a guard such as \<^verbatim>\<open>Number.isInteger\<close> inspects is a
    \<open>number\<close>: \<open>Integral i\<close> for an integral value, \<open>NonIntegral\<close> for every other one (a fraction, an
    infinity or NaN), on which all integrality guards fail. Numbers that have passed such a
    guard, counters and millisecond timestamps are \<open>int\<close>.
  \<^item> Strings are \<open>string\<close>: a list of UTF-16 code units below 256, on which
    \<^verbatim>\<open>toLowerCase\<close>, \<^verbatim>\<open>trim\<close>, \<^verbatim>\<open>split\<close> and the regular expressions of the sources are exact.
  \<^item> A JavaScript \<^verbatim>\<open>Map\<close> is an association list in insertion order: \<^verbatim>\<open>set\<close> overwrites in place
    or appends, \<^verbatim>\<open>delete\<close> removes, iteration follows the list.
  \<^item> A method that may throw returns \<open>'e + 'a\<close>, or a pair with the state the object is left in.
\<close>

named_theorems jsmap_simps "equations for JavaScript maps as association lists"
named_theorems guard_simps "equations for the numeric guards"

section \<open>Numbers and their guards\<close>

datatype number = Integral int | NonIntegral

definition MAX_SAFE_INTEGER :: int where
  "MAX_SAFE_INTEGER = 9007199254740991"

fun isInteger :: "number \<Rightarrow> bool" where
  "isInteger (Integral i) = True"
| "isInteger NonIntegral = False"

fun isSafeInteger :: "number \<Rightarrow> bool" where
  "isSafeInteger (Integral i) = (\<bar>i\<bar> \<le> MAX_SAFE_INTEGER)"
| "isSafeInteger NonIntegral = False"

text \<open>The integer behind a number that passed a guard; guards are always checked first.\<close>

fun to_int :: "number \<Rightarrow> int" where
  "to_int (Integral i) = i"
| "to_int NonIntegral = 0"

text \<open>
  The integrality guards of the sources, \<^verbatim>\<open>isInteger(v) && lo <= v && v <= hi\<close>, with a result
  that hands on the integer.
\<close>

definition int_between :: "int \<Rightarrow> int \<Rightarrow> number \<Rightarrow> bool" where
  "int_between lo hi v = (isInteger v \<and> lo \<le> to_int v \<and> to_int v \<le> hi)"

definition positive_int :: "number \<Rightarrow> bool" where
  "positive_int v = (isInteger v \<and> to_int v > 0)"

definition positive_safe_int :: "number \<Rightarrow> bool" where
  "positive_safe_int v = (isSafeInteger v \<and> to_int v > 0)"

lemma int_between_Int [guard_simps]: "int_between lo hi (Integral i) = (lo \<le> i \<and> i \<le> hi)"
  by (simp add: int_between_def)

lemma int_between_NonIntegral [guard_simps]: "\<not> int_between lo hi NonIntegral"
  by (simp add: int_between_def)

lemma positive_int_Int [guard_simps]: "positive_int (Integral i) = (0 < i)"
  by (simp add: positive_int_def)

lemma positive_int_NonIntegral [guard_simps]: "\<not> positive_int NonIntegral"
  by (simp add: positive_int_def)

lemma positive_safe_int_Int [guard_simps]:
  "positive_safe_int (Integral i) = (0 < i \<and> i \<le> MAX_SAFE_INTEGER)"
  by (auto simp add: positive_safe_int_def MAX_SAFE_INTEGER_def)

lemma positive_safe_int_NonIntegral [guard_simps]: "\<not> positive_safe_int NonIntegral"
  by (simp add: positive_safe_int_def)

lemma positive_intD: "positive_int v \<Longrightarrow> v = Integral (to_int v) \<and> 0 < to_int v"
  by (cases v) (auto simp: guard_simps)

lemma positive_safe_intD: "positive_safe_int v \<Longrightarrow> v = Integral (to_int v) \<and> 0 < to_int v"
  by (cases v) (auto simp: guard_simps)

lemma int_betweenD: "int_between lo hi v \<Longrightarrow> v = Integral (to_int v) \<and> lo \<le> to_int v \<and> to_int v \<le> hi"
  by (cases v) (auto simp: guard_simps)

section \<open>JavaScript maps as association lists\<close>

type_synonym ('k, 'v) jsmap = "('k \<times> 'v) list"

abbreviation map_get :: "('k, 'v) jsmap \<Rightarrow> 'k \<Rightarrow> 'v option" where
  "map_get m k \<equiv> map_of m k"

abbreviation map_has :: "('k, 'v) jsmap \<Rightarrow> 'k \<Rightarrow> bool" where
  "map_has m k \<equiv> map_of m k \<noteq> None"

abbreviation map_set :: "('k, 'v) jsmap \<Rightarrow> 'k \<Rightarrow> 'v \<Rightarrow> ('k, 'v) jsmap" where
  "map_set m k v \<equiv> AList.update k v m"

abbreviation map_delete :: "('k, 'v) jsmap \<Rightarrow> 'k \<Rightarrow> ('k, 'v) jsmap" where
  "map_delete m k \<equiv> AList.delete k m"

abbreviation map_keys :: "('k, 'v) jsmap \<Rightarrow> 'k list" where
  "map_keys m \<equiv> map fst m"

abbreviation map_values :: "('k, 'v) jsmap \<Rightarrow> 'v list" where
  "map_values m \<equiv> map snd m"

abbreviation map_size :: "('k, 'v) jsmap \<Rightarrow> int" where
  "map_size m \<equiv> int (length m)"

text \<open>A loop that deletes the entries for which a test holds keeps the others in order.\<close>

definition map_delete_if :: "('v \<Rightarrow> bool) \<Rightarrow> ('k, 'v) jsmap \<Rightarrow> ('k, 'v) jsmap" where
  "map_delete_if P m = filter (\<lambda>(k, v). \<not> P v) m"

text \<open>The representation invariant: every key occurs once.\<close>

abbreviation wf_map :: "('k, 'v) jsmap \<Rightarrow> bool" where
  "wf_map m \<equiv> distinct (map fst m)"

lemma wf_map_set [simp]: "wf_map m \<Longrightarrow> wf_map (map_set m k v)"
  by (rule distinct_update)

lemma wf_map_delete [simp]: "wf_map m \<Longrightarrow> wf_map (map_delete m k)"
  by (rule distinct_delete)

lemma wf_map_filter [simp]: "wf_map m \<Longrightarrow> wf_map (filter P m)"
  by (induction m) auto

lemma wf_map_delete_if [simp]: "wf_map m \<Longrightarrow> wf_map (map_delete_if P m)"
  by (simp add: map_delete_if_def)

lemma map_get_set [jsmap_simps]: "map_get (map_set m k v) j = (if j = k then Some v else map_get m j)"
  by (simp add: update_conv')

lemma map_get_delete [jsmap_simps]: "map_get (map_delete m k) j = (if j = k then None else map_get m j)"
  by (simp add: delete_conv')

lemma map_get_filter:
  "wf_map m \<Longrightarrow>
   map_get (filter P m) k =
     (case map_get m k of None \<Rightarrow> None | Some v \<Rightarrow> if P (k, v) then Some v else None)"
proof (induction m)
  case Nil
  then show ?case by simp
next
  case (Cons p m)
  obtain j w where p: "p = (j, w)" by (cases p)
  have "k = j \<Longrightarrow> map_get m k = None"
    using Cons.prems p by (simp add: map_of_eq_None_iff)
  with Cons p show ?case by (auto split: option.splits)
qed

lemma map_get_delete_if [jsmap_simps]:
  "wf_map m \<Longrightarrow>
   map_get (map_delete_if P m) k =
     (case map_get m k of None \<Rightarrow> None | Some v \<Rightarrow> if P v then None else Some v)"
  by (simp add: map_delete_if_def map_get_filter split: option.splits)

lemma map_get_in_values: "map_get m k = Some v \<Longrightarrow> v \<in> set (map_values m)"
  by (force dest: map_of_SomeD)

lemma map_values_get: "wf_map m \<Longrightarrow> v \<in> set (map_values m) \<Longrightarrow> \<exists>k. map_get m k = Some v"
  by auto

lemma map_get_iff: "wf_map m \<Longrightarrow> map_get m k = Some v \<longleftrightarrow> (k, v) \<in> set m"
  by simp

lemma in_map_set: "wf_map m \<Longrightarrow> (j, w) \<in> set (map_set m k v) \<longleftrightarrow>
    (if j = k then w = v else (j, w) \<in> set m)"
  using map_get_iff [of "map_set m k v" j w] map_get_iff [of m j w] wf_map_set [of m k v]
  by (auto simp: map_get_set split: if_splits)

lemma in_map_delete: "(j, w) \<in> set (map_delete m k) \<longleftrightarrow> j \<noteq> k \<and> (j, w) \<in> set m"
  by (induction m) auto

lemma in_map_delete_if: "(j, w) \<in> set (map_delete_if P m) \<longleftrightarrow> (j, w) \<in> set m \<and> \<not> P w"
  by (auto simp: map_delete_if_def)

lemma length_map_set: "length (map_set m k v) = (if map_has m k then length m else Suc (length m))"
  by (induction m) auto

lemma length_map_delete_le: "length (map_delete m k) \<le> length m"
  by (induction m) auto

lemma length_map_delete_less: "map_get m k = Some v \<Longrightarrow> length (map_delete m k) < length m"
proof (induction m)
  case Nil
  then show ?case by simp
next
  case (Cons p m)
  then show ?case using length_map_delete_le [of k m] by (auto simp: le_imp_less_Suc split: if_splits)
qed

lemma length_map_delete_if_le: "length (map_delete_if P m) \<le> length m"
  by (simp add: map_delete_if_def)

lemma map_delete_absent: "map_get m k = None \<Longrightarrow> map_delete m k = m"
  by (simp add: map_of_eq_None_iff delete_notin_dom)

section \<open>Sums over the values of a map\<close>

definition sum_values :: "('v \<Rightarrow> int) \<Rightarrow> ('k, 'v) jsmap \<Rightarrow> int" where
  "sum_values f m = sum_list (map f (map_values m))"

lemma sum_values_Nil [simp]: "sum_values f [] = 0"
  by (simp add: sum_values_def)

lemma sum_values_Cons: "sum_values f (p # m) = f (snd p) + sum_values f m"
  by (simp add: sum_values_def)

lemma sum_values_set_new [jsmap_simps]:
  "map_get m k = None \<Longrightarrow> sum_values f (map_set m k v) = sum_values f m + f v"
  by (induction m) (auto simp: sum_values_Cons)

lemma sum_values_set_old [jsmap_simps]:
  "map_get m k = Some u \<Longrightarrow> sum_values f (map_set m k v) = sum_values f m + f v - f u"
  by (induction m) (auto simp: sum_values_Cons)

lemma sum_values_delete [jsmap_simps]:
  "wf_map m \<Longrightarrow> map_get m k = Some u \<Longrightarrow> sum_values f (map_delete m k) = sum_values f m - f u"
proof (induction m)
  case Nil
  then show ?case by simp
next
  case (Cons p m)
  obtain j w where p: "p = (j, w)" by (cases p)
  show ?case
  proof (cases "j = k")
    case True
    with Cons.prems p have "map_get m k = None" by (simp add: map_of_eq_None_iff)
    with Cons.prems True p show ?thesis by (simp add: map_delete_absent sum_values_Cons)
  next
    case False
    with Cons p show ?thesis by (simp add: sum_values_Cons)
  qed
qed

lemma sum_values_nonneg: "(\<And>v. v \<in> set (map_values m) \<Longrightarrow> 0 \<le> f v) \<Longrightarrow> 0 \<le> sum_values f m"
  by (induction m) (auto simp: sum_values_Cons)

lemma sum_values_ge_member:
  "(\<And>v. v \<in> set (map_values m) \<Longrightarrow> 0 \<le> f v) \<Longrightarrow> map_get m k = Some v \<Longrightarrow> f v \<le> sum_values f m"
proof (induction m)
  case Nil
  then show ?case by simp
next
  case (Cons p m)
  then have "0 \<le> sum_values f m" by (intro sum_values_nonneg) auto
  with Cons show ?case by (force simp: sum_values_Cons split: if_splits)
qed

section \<open>Option and result helpers\<close>

fun is_ok :: "'e + 'a \<Rightarrow> bool" where
  "is_ok (Inl e) = False"
| "is_ok (Inr a) = True"

fun result_bind :: "'e + 'a \<Rightarrow> ('a \<Rightarrow> 'e + 'b) \<Rightarrow> 'e + 'b" where
  "result_bind (Inl e) f = Inl e"
| "result_bind (Inr a) f = f a"

lemma result_bind_Inr: "result_bind r f = Inr b \<longleftrightarrow> (\<exists>a. r = Inr a \<and> f a = Inr b)"
  by (cases r) auto

lemma result_bind_Inl: "result_bind r f = Inl e \<longleftrightarrow> r = Inl e \<or> (\<exists>a. r = Inr a \<and> f a = Inl e)"
  by (cases r) auto

section \<open>Machines and their invariants\<close>

text \<open>
  A component with state is a step function over its operations, run over a list of them. An
  operation that throws is a step too: it leaves the state the source leaves behind. The interface
  below is what every such component promises, an invariant that holds at the start and that each
  operation keeps; its client lemmas lift the invariant to whole runs.
\<close>

definition run_machine :: "('s \<Rightarrow> 'op \<Rightarrow> 's) \<Rightarrow> 's \<Rightarrow> 'op list \<Rightarrow> 's" where
  "run_machine step s ops = foldl step s ops"

lemma run_machine_Nil [simp]: "run_machine step s [] = s"
  by (simp add: run_machine_def)

lemma run_machine_Cons [simp]: "run_machine step s (x # ops) = run_machine step (step s x) ops"
  by (simp add: run_machine_def)

lemma run_machine_append: "run_machine step s (xs @ ys) = run_machine step (run_machine step s xs) ys"
  by (simp add: run_machine_def)

locale invariant_machine =
  fixes init :: "'s \<Rightarrow> bool"
    and step :: "'s \<Rightarrow> 'op \<Rightarrow> 's"
    and inv :: "'s \<Rightarrow> bool"
  assumes init_inv: "init s \<Longrightarrow> inv s"
    and step_inv: "inv s \<Longrightarrow> inv (step s x)"
begin

lemma run_keeps_inv: "inv s \<Longrightarrow> inv (run_machine step s ops)"
  by (induction ops arbitrary: s) (simp_all add: step_inv)

lemma run_inv: "init s \<Longrightarrow> inv (run_machine step s ops)"
  by (simp add: init_inv run_keeps_inv)

lemma run_measure_mono:
  fixes f :: "'s \<Rightarrow> 'b :: preorder"
  assumes "\<And>s x. inv s \<Longrightarrow> f s \<le> f (step s x)" "inv s"
  shows "f s \<le> f (run_machine step s ops)"
  using assms(2)
proof (induction ops arbitrary: s)
  case Nil
  then show ?case by simp
next
  case (Cons x ops)
  have "f s \<le> f (step s x)" using Cons.prems by (rule assms(1))
  also have "\<dots> \<le> f (run_machine step (step s x) ops)"
    using Cons.prems by (intro Cons.IH step_inv)
  finally show ?case by simp
qed

lemma run_relation:
  assumes "\<And>s. R s s" "\<And>a b c. R a b \<Longrightarrow> R b c \<Longrightarrow> R a c" "\<And>s x. inv s \<Longrightarrow> R s (step s x)" "inv s"
  shows "R s (run_machine step s ops)"
  using assms(4)
proof (induction ops arbitrary: s)
  case (Cons x ops)
  then have "R (step s x) (run_machine step (step s x) ops)" by (blast intro: step_inv)
  with assms(3) [OF Cons.prems] show ?case by (simp add: assms(2) [of s "step s x"])
qed (simp add: assms(1))

lemma run_keeps_constant:
  assumes "\<And>s x. inv s \<Longrightarrow> f (step s x) = f s" "inv s"
  shows "f (run_machine step s ops) = f s"
  using assms(2) by (induction ops arbitrary: s) (simp_all add: assms(1) step_inv)

end

end
