(* ===== verification/SessionState.thy ===== *)
theory SessionState
  imports Prelude
begin

text \<open>
  The lifecycle of a tunnel session, \<^verbatim>\<open>packages/protocol/src/session-policy.ts\<close> and
  \<^verbatim>\<open>session-state.ts\<close>: the policy and its deadlines, the state machine \<^verbatim>\<open>transitionSession\<close> with the
  expiry that precedes every event, and its three error codes. The lemmas show that reachable states
  are well formed, that carrier generations are never reused, that no live state outlives the maximum
  lifetime, and that the machine refines a small phase diagram.
\<close>

section \<open>Policy\<close>

record sessionPolicy =
  maxTtlMs :: int
  idleTimeoutMs :: int
  reconnectGraceMs :: int

definition DEFAULT_SESSION_POLICY :: sessionPolicy where
  "DEFAULT_SESSION_POLICY =
    \<lparr>maxTtlMs = 8 * (60 * 60000), idleTimeoutMs = 30 * 60000, reconnectGraceMs = 2 * 60000\<rparr>"

datatype sessionTransitionErrorCode =
    INVALID_TRANSITION | RESUME_IN_PROGRESS | STALE_RESUME_ATTEMPT

datatype sessionError = SessionTransitionError sessionTransitionErrorCode | RangeError

definition getSessionDeadline :: "int \<Rightarrow> int \<Rightarrow> int \<Rightarrow> sessionPolicy \<Rightarrow> sessionError + int" where
  "getSessionDeadline activatedAt lastStreamClosedAt activeStreamCount policy =
    (if activeStreamCount < 0 then Inl RangeError
     else let maxDeadline = activatedAt + maxTtlMs policy in
       if activeStreamCount > 0 then Inr maxDeadline
       else Inr (min maxDeadline (lastStreamClosedAt + idleTimeoutMs policy)))"

definition isResumeAllowed :: "int \<Rightarrow> int \<Rightarrow> sessionPolicy \<Rightarrow> bool" where
  "isResumeAllowed now disconnectedAt policy =
    (now \<ge> disconnectedAt \<and> now \<le> disconnectedAt + reconnectGraceMs policy)"

section \<open>States and events\<close>

datatype closeReason = USER_REQUEST | MAX_TTL | IDLE_TIMEOUT | RECONNECT_TIMEOUT

record activeState =
  activatedAt :: int
  generation :: int
  activeStreamCount :: int
  lastStreamClosedAt :: int

record reconnectingState =
  r_activatedAt :: int
  r_generation :: int
  disconnectedAt :: int
  r_lastStreamClosedAt :: int
  candidateAttemptId :: "string option"
  candidateGeneration :: "int option"
  lastIssuedGeneration :: "int option"

datatype sessionState =
    CREATING
  | ACTIVE activeState
  | RECONNECTING reconnectingState
  | EXPIRED closeReason int
  | CLOSED closeReason int

datatype sessionEvent =
    ACTIVATE int
  | STREAM_OPEN int
  | STREAM_CLOSED int
  | CARRIER_LOST int
  | START_RESUME int string
  | RESUME_FAILED int string
  | RESUME_COMMITTED int string
  | TICK int
  | CLOSE int

fun event_now :: "sessionEvent \<Rightarrow> int" where
  "event_now (ACTIVATE n) = n"
| "event_now (STREAM_OPEN n) = n"
| "event_now (STREAM_CLOSED n) = n"
| "event_now (CARRIER_LOST n) = n"
| "event_now (START_RESUME n _) = n"
| "event_now (RESUME_FAILED n _) = n"
| "event_now (RESUME_COMMITTED n _) = n"
| "event_now (TICK n) = n"
| "event_now (CLOSE n) = n"

definition INITIAL_SESSION_STATE :: sessionState where
  "INITIAL_SESSION_STATE = CREATING"

section \<open>Transitions\<close>

abbreviation invalid :: "sessionError + sessionState" where
  "invalid \<equiv> Inl (SessionTransitionError INVALID_TRANSITION)"

text \<open>The two expiry checks return the expired state, or nothing when the session lives on.\<close>

definition expireActiveIfNeeded ::
    "activeState \<Rightarrow> int \<Rightarrow> sessionPolicy \<Rightarrow> sessionError + sessionState" where
  "expireActiveIfNeeded st now policy =
    (if now \<ge> activatedAt st + maxTtlMs policy then Inr (EXPIRED MAX_TTL now)
     else case getSessionDeadline (activatedAt st) (lastStreamClosedAt st) (activeStreamCount st) policy of
       Inl e \<Rightarrow> Inl e
     | Inr deadline \<Rightarrow> if now \<ge> deadline then Inr (EXPIRED IDLE_TIMEOUT now) else Inr (ACTIVE st))"

definition reconnectExpired :: "int \<Rightarrow> sessionState" where
  "reconnectExpired now = EXPIRED RECONNECT_TIMEOUT now"

definition expireReconnectIfNeeded ::
    "reconnectingState \<Rightarrow> int \<Rightarrow> sessionPolicy \<Rightarrow> sessionState" where
  "expireReconnectIfNeeded st now policy =
    (if now \<ge> r_activatedAt st + maxTtlMs policy then EXPIRED MAX_TTL now
     else if isResumeAllowed now (disconnectedAt st) policy then RECONNECTING st
     else reconnectExpired now)"

definition withoutCandidate :: "reconnectingState \<Rightarrow> sessionState" where
  "withoutCandidate st = RECONNECTING (st\<lparr>candidateAttemptId := None, candidateGeneration := None\<rparr>)"

fun transitionActive :: "activeState \<Rightarrow> sessionEvent \<Rightarrow> sessionError + sessionState" where
  "transitionActive st (STREAM_OPEN _) =
     Inr (ACTIVE (st\<lparr>activeStreamCount := activeStreamCount st + 1\<rparr>))"
| "transitionActive st (STREAM_CLOSED now) =
     (if activeStreamCount st = 0 then invalid
      else Inr (ACTIVE (st\<lparr>activeStreamCount := activeStreamCount st - 1,
        lastStreamClosedAt := (if activeStreamCount st = 1 then now else lastStreamClosedAt st)\<rparr>)))"
| "transitionActive st (CARRIER_LOST now) =
     Inr (RECONNECTING \<lparr>r_activatedAt = activatedAt st, r_generation = generation st,
       disconnectedAt = now, r_lastStreamClosedAt = now, candidateAttemptId = None,
       candidateGeneration = None, lastIssuedGeneration = None\<rparr>)"
| "transitionActive st (TICK _) = Inr (ACTIVE st)"
| "transitionActive st _ = invalid"

definition nextCandidateGeneration :: "reconnectingState \<Rightarrow> int" where
  "nextCandidateGeneration st =
    (case lastIssuedGeneration st of Some g \<Rightarrow> g | None \<Rightarrow> r_generation st) + 1"

fun transitionReconnecting :: "reconnectingState \<Rightarrow> sessionEvent \<Rightarrow> sessionError + sessionState" where
  "transitionReconnecting st (START_RESUME _ attemptId) =
     (if candidateAttemptId st \<noteq> None then Inl (SessionTransitionError RESUME_IN_PROGRESS)
      else Inr (RECONNECTING (st\<lparr>candidateAttemptId := Some attemptId,
        candidateGeneration := Some (nextCandidateGeneration st),
        lastIssuedGeneration := Some (nextCandidateGeneration st)\<rparr>)))"
| "transitionReconnecting st (RESUME_FAILED _ attemptId) =
     (if candidateAttemptId st \<noteq> Some attemptId then Inl (SessionTransitionError STALE_RESUME_ATTEMPT)
      else Inr (withoutCandidate st))"
| "transitionReconnecting st (RESUME_COMMITTED _ attemptId) =
     (if candidateAttemptId st \<noteq> Some attemptId then Inl (SessionTransitionError STALE_RESUME_ATTEMPT)
      else Inr (ACTIVE \<lparr>activatedAt = r_activatedAt st,
        generation = (case candidateGeneration st of Some g \<Rightarrow> g | None \<Rightarrow> r_generation st + 1),
        activeStreamCount = 0, lastStreamClosedAt = r_lastStreamClosedAt st\<rparr>))"
| "transitionReconnecting st (TICK _) = Inr (RECONNECTING st)"
| "transitionReconnecting st _ = invalid"

text \<open>The event handling after the expiry checks, in the order of the source.\<close>

fun transitionLive :: "sessionState \<Rightarrow> sessionEvent \<Rightarrow> sessionError + sessionState" where
  "transitionLive st (CLOSE now) = Inr (CLOSED USER_REQUEST now)"
| "transitionLive CREATING (ACTIVATE now) =
     Inr (ACTIVE \<lparr>activatedAt = now, generation = 1, activeStreamCount = 0, lastStreamClosedAt = now\<rparr>)"
| "transitionLive CREATING _ = invalid"
| "transitionLive (ACTIVE st) ev = transitionActive st ev"
| "transitionLive (RECONNECTING st) ev = transitionReconnecting st ev"
| "transitionLive _ _ = invalid"

definition transitionSession ::
    "sessionState \<Rightarrow> sessionEvent \<Rightarrow> sessionPolicy \<Rightarrow> sessionError + sessionState" where
  "transitionSession state event policy =
    (case state of
       EXPIRED _ _ \<Rightarrow> invalid
     | CLOSED _ _ \<Rightarrow> invalid
     | ACTIVE st \<Rightarrow>
         (case expireActiveIfNeeded st (event_now event) policy of
            Inl e \<Rightarrow> Inl e
          | Inr (EXPIRED r t) \<Rightarrow> Inr (EXPIRED r t)
          | Inr _ \<Rightarrow> transitionLive state event)
     | RECONNECTING st \<Rightarrow>
         (case expireReconnectIfNeeded st (event_now event) policy of
            EXPIRED r t \<Rightarrow> Inr (EXPIRED r t)
          | _ \<Rightarrow> transitionLive state event)
     | CREATING \<Rightarrow> transitionLive state event)"

section \<open>Well-formed states\<close>

fun session_inv :: "sessionState \<Rightarrow> bool" where
  "session_inv (ACTIVE st) = (activeStreamCount st \<ge> 0 \<and> generation st \<ge> 1)"
| "session_inv (RECONNECTING st) =
     (r_generation st \<ge> 1 \<and>
      (candidateAttemptId st = None \<longleftrightarrow> candidateGeneration st = None) \<and>
      (candidateGeneration st \<noteq> None \<longrightarrow> candidateGeneration st = lastIssuedGeneration st) \<and>
      (case lastIssuedGeneration st of None \<Rightarrow> True | Some g \<Rightarrow> r_generation st < g))"
| "session_inv _ = True"

text \<open>The callers keep the old state when the transition throws.\<close>

definition session_step :: "sessionPolicy \<Rightarrow> sessionState \<Rightarrow> sessionEvent \<Rightarrow> sessionState" where
  "session_step policy s ev = (case transitionSession s ev policy of Inl _ \<Rightarrow> s | Inr s' \<Rightarrow> s')"

lemma expireActiveIfNeeded_eq:
  "activeStreamCount st \<ge> 0 \<Longrightarrow> expireActiveIfNeeded st now policy =
    Inr (if now \<ge> activatedAt st + maxTtlMs policy then EXPIRED MAX_TTL now
         else if activeStreamCount st = 0 \<and> now \<ge> lastStreamClosedAt st + idleTimeoutMs policy
         then EXPIRED IDLE_TIMEOUT now else ACTIVE st)"
  by (auto simp: expireActiveIfNeeded_def getSessionDeadline_def Let_def)

text \<open>
  Every transition of a well-formed state is either an expiry at the event's time or the event's own
  handling, the latter only while the maximum lifetime has not passed.
\<close>

fun within_ttl :: "sessionPolicy \<Rightarrow> int \<Rightarrow> sessionState \<Rightarrow> bool" where
  "within_ttl policy now (ACTIVE st) = (now < activatedAt st + maxTtlMs policy)"
| "within_ttl policy now (RECONNECTING st) = (now < r_activatedAt st + maxTtlMs policy)"
| "within_ttl policy now _ = True"

fun terminal :: "sessionState \<Rightarrow> bool" where
  "terminal (EXPIRED _ _) = True"
| "terminal (CLOSED _ _) = True"
| "terminal _ = False"

lemma transitionSession_cases:
  assumes "session_inv s"
  shows "(\<exists>r. transitionSession s ev policy = Inr (EXPIRED r (event_now ev)) \<and> r \<noteq> USER_REQUEST) \<or>
    transitionSession s ev policy = transitionLive s ev \<and> within_ttl policy (event_now ev) s \<or>
    terminal s \<and> transitionSession s ev policy = invalid"
proof (cases s)
  case (ACTIVE st)
  with assms show ?thesis by (auto simp: transitionSession_def expireActiveIfNeeded_eq)
next
  case (RECONNECTING st)
  then show ?thesis
    by (auto simp: transitionSession_def expireReconnectIfNeeded_def reconnectExpired_def)
qed (simp_all add: transitionSession_def)

section \<open>Reachable states\<close>

fun highest_generation :: "sessionState \<Rightarrow> int" where
  "highest_generation (ACTIVE st) = generation st"
| "highest_generation (RECONNECTING st) =
     (case lastIssuedGeneration st of Some g \<Rightarrow> g | None \<Rightarrow> r_generation st)"
| "highest_generation _ = 0"

lemma transitionLive_inv: "session_inv s \<Longrightarrow> transitionLive s ev = Inr s' \<Longrightarrow> session_inv s'"
  by (cases "(s, ev)" rule: transitionLive.cases; cases ev)
    (auto simp: withoutCandidate_def nextCandidateGeneration_def split: if_splits option.splits)

lemma transitionSession_inv:
  assumes "session_inv s" "transitionSession s ev policy = Inr s'"
  shows "session_inv s'"
  using transitionSession_cases [OF assms(1), of ev policy] assms transitionLive_inv by auto

lemma session_step_inv: "session_inv s \<Longrightarrow> session_inv (session_step policy s ev)"
  by (auto simp: session_step_def dest: transitionSession_inv split: sum.splits)

interpretation session: invariant_machine "\<lambda>s. s = INITIAL_SESSION_STATE" "session_step policy" session_inv
  for policy
  by unfold_locales (simp_all add: INITIAL_SESSION_STATE_def session_step_inv)

text \<open>The generation a successful event hands out: the first one, and one per resume attempt.\<close>

definition issued_generation :: "sessionPolicy \<Rightarrow> sessionState \<Rightarrow> sessionEvent \<Rightarrow> int list" where
  "issued_generation policy s ev =
    (case transitionSession s ev policy of
       Inr (ACTIVE st) \<Rightarrow> (if s = CREATING then [generation st] else [])
     | Inr (RECONNECTING st) \<Rightarrow>
         (case ev of
            START_RESUME _ _ \<Rightarrow> (case candidateGeneration st of Some g \<Rightarrow> [g] | None \<Rightarrow> [])
          | _ \<Rightarrow> [])
     | _ \<Rightarrow> [])"

fun issued_generations :: "sessionPolicy \<Rightarrow> sessionState \<Rightarrow> sessionEvent list \<Rightarrow> int list" where
  "issued_generations policy s [] = []"
| "issued_generations policy s (ev # evs) =
     issued_generation policy s ev @ issued_generations policy (session_step policy s ev) evs"

lemma issued_generation_step:
  assumes "session_inv s" "\<not> terminal (session_step policy s ev)"
  shows "(case issued_generation policy s ev of
     [] \<Rightarrow> highest_generation (session_step policy s ev) = highest_generation s
   | g # gs \<Rightarrow> gs = [] \<and> g = highest_generation s + 1 \<and>
       highest_generation (session_step policy s ev) = g)"
  using transitionSession_cases [OF assms(1), of ev policy] assms
  by (cases "(s, ev)" rule: transitionLive.cases; cases ev)
    (auto simp: issued_generation_def session_step_def withoutCandidate_def nextCandidateGeneration_def
      split: if_splits option.splits)

lemma terminal_absorbs: "terminal s \<Longrightarrow> transitionSession s ev policy = invalid"
  by (cases s) (simp_all add: transitionSession_def)

lemma terminal_issues_nothing: "terminal s \<Longrightarrow> issued_generations policy s evs = []"
  by (induction evs) (simp_all add: issued_generation_def session_step_def terminal_absorbs)

lemma expiry_issues_nothing: "terminal (session_step policy s ev) \<Longrightarrow> issued_generation policy s ev = []"
  by (auto simp: issued_generation_def session_step_def split: sum.splits sessionState.splits)

lemma issued_generations_upto:
  assumes "session_inv s" "\<not> terminal s"
  shows "issued_generations policy s evs =
    [highest_generation s + 1..highest_generation s + int (length (issued_generations policy s evs))]"
  using assms
proof (induction evs arbitrary: s)
  case Nil
  then show ?case by simp
next
  case (Cons ev evs)
  let ?s = "session_step policy s ev"
  show ?case
  proof (cases "terminal ?s")
    case True
    then show ?thesis by (simp add: terminal_issues_nothing expiry_issues_nothing)
  next
    case False
    with Cons.IH Cons.prems have IH: "issued_generations policy ?s evs =
      [highest_generation ?s + 1..highest_generation ?s + int (length (issued_generations policy ?s evs))]"
      by (simp add: session_step_inv)
    with issued_generation_step [OF Cons.prems(1) False] show ?thesis
      by (cases "issued_generation policy s ev") 
        (auto simp: upto.simps [of "highest_generation s + 1"] add.assoc)
  qed
qed

text \<open>
  C17. Carrier generations are never reused. Along any sequence of events from the initial state, the
  generations handed out (the first activation, then one per accepted resume attempt, whether that
  attempt later fails or commits) are exactly 1, 2, 3, \<dots> in this order.
\<close>

theorem generations_consecutive:
  "issued_generations policy INITIAL_SESSION_STATE evs =
    [1..int (length (issued_generations policy INITIAL_SESSION_STATE evs))]"
  using issued_generations_upto [of INITIAL_SESSION_STATE policy evs]
  by (simp add: INITIAL_SESSION_STATE_def)

lemma terminal_iff_phase: "terminal s \<longleftrightarrow> (\<exists>r t. s = EXPIRED r t \<or> s = CLOSED r t)"
  by (cases s) simp_all

fun session_activatedAt :: "sessionState \<Rightarrow> int option" where
  "session_activatedAt (ACTIVE st) = Some (activatedAt st)"
| "session_activatedAt (RECONNECTING st) = Some (r_activatedAt st)"
| "session_activatedAt _ = None"

lemma session_step_ttl:
  assumes "session_inv s" "0 < maxTtlMs policy" "session_activatedAt (session_step policy s ev) = Some a"
  shows "event_now ev < a + maxTtlMs policy"
  using transitionSession_cases [OF assms(1), of ev policy] assms
  by (cases "(s, ev)" rule: transitionLive.cases; cases ev)
    (auto simp: session_step_def withoutCandidate_def terminal_iff_phase split: if_splits)

text \<open>
  No session outlives its maximum lifetime. Whatever happened before, a session that is still
  active or reconnecting after an event at time t was activated less than the maximum lifetime
  before t: the deadline check runs before every event, a close request included.
\<close>

theorem live_session_within_ttl:
  assumes "0 < maxTtlMs policy"
    and "session_activatedAt
      (session_step policy (run_machine (session_step policy) INITIAL_SESSION_STATE evs) ev) = Some a"
  shows "event_now ev < a + maxTtlMs policy"
  by (rule session_step_ttl [OF session.run_inv assms]) simp

theorem live_session_within_ttl_witness:
  "event_now (TICK 1799999) < 0 + maxTtlMs DEFAULT_SESSION_POLICY"
  by (rule live_session_within_ttl [where evs = "[ACTIVATE 0]"])
    (simp_all add: DEFAULT_SESSION_POLICY_def INITIAL_SESSION_STATE_def session_step_def
      transitionSession_def expireActiveIfNeeded_eq)

section \<open>The phase diagram\<close>

text \<open>
  The contract of the lifecycle without its clocks: how many streams are open, and whether a resume
  attempt is under way and which.
\<close>

datatype phase = PCreating | PActive nat | PReconnecting "string option" | PEnded

inductive phase_step :: "phase \<Rightarrow> sessionEvent \<Rightarrow> phase \<Rightarrow> bool" where
  activate: "phase_step PCreating (ACTIVATE t) (PActive 0)"
| stream_open: "phase_step (PActive n) (STREAM_OPEN t) (PActive (Suc n))"
| stream_closed: "phase_step (PActive (Suc n)) (STREAM_CLOSED t) (PActive n)"
| carrier_lost: "phase_step (PActive n) (CARRIER_LOST t) (PReconnecting None)"
| start_resume: "phase_step (PReconnecting None) (START_RESUME t a) (PReconnecting (Some a))"
| resume_failed: "phase_step (PReconnecting (Some a)) (RESUME_FAILED t a) (PReconnecting None)"
| resume_committed: "phase_step (PReconnecting (Some a)) (RESUME_COMMITTED t a) (PActive 0)"
| tick_active: "phase_step (PActive n) (TICK t) (PActive n)"
| tick_reconnecting: "phase_step (PReconnecting c) (TICK t) (PReconnecting c)"
| close: "p \<noteq> PEnded \<Longrightarrow> phase_step p (CLOSE t) PEnded"
| expire_active: "phase_step (PActive n) ev PEnded"
| expire_reconnecting: "phase_step (PReconnecting c) ev PEnded"

inductive_cases phase_step_ended: "phase_step PEnded ev p"
inductive_simps phase_step_commit: "phase_step p (RESUME_COMMITTED t a) (PActive n)"

fun phase_of :: "sessionState \<Rightarrow> phase" where
  "phase_of CREATING = PCreating"
| "phase_of (ACTIVE st) = PActive (nat (activeStreamCount st))"
| "phase_of (RECONNECTING st) = PReconnecting (candidateAttemptId st)"
| "phase_of _ = PEnded"

lemma phase_of_ended: "phase_of s = PEnded \<longleftrightarrow> terminal s"
  by (cases s) simp_all

lemma transitionLive_phase:
  "session_inv s \<Longrightarrow> transitionLive s ev = Inr s' \<Longrightarrow> \<not> terminal s \<Longrightarrow> phase_step (phase_of s) ev (phase_of s')"
  by (cases "(s, ev)" rule: transitionLive.cases; cases ev)
    (auto simp: withoutCandidate_def phase_step.simps phase_of_ended Suc_nat_eq_nat_zadd1
      add.commute split: if_splits)

lemma creating_never_expires: "transitionSession CREATING ev policy \<noteq> Inr (EXPIRED r t)"
  by (cases ev) (simp_all add: transitionSession_def)

text \<open>
  C25. The lifecycle implements its phase diagram. Every transition that returns, from a state reached
  by any sequence of events, is a step of the diagram with the same event: at most one resume
  attempt is current, only that attempt can fail or commit, a commit starts with no stream open, and
  nothing leaves an ended session. The stream counter check of the deadline never throws.
\<close>

theorem lifecycle_refines_phases:
  assumes "s = run_machine (session_step policy) INITIAL_SESSION_STATE evs"
  shows "transitionSession s ev policy \<noteq> Inl RangeError \<and>
    (transitionSession s ev policy = Inr s' \<longrightarrow> phase_step (phase_of s) ev (phase_of s'))"
proof -
  have inv: "session_inv s" using assms session.run_inv by simp
  have live: "transitionLive s ev \<noteq> Inl RangeError"
    by (cases "(s, ev)" rule: transitionLive.cases; cases ev) (auto split: if_splits)
  from transitionSession_cases [OF inv, of ev policy] show ?thesis
  proof (elim disjE exE conjE)
    fix r
    assume expired: "transitionSession s ev policy = Inr (EXPIRED r (event_now ev))"
    then have "\<not> terminal s" using terminal_absorbs [of s ev policy] by auto
    moreover have "s \<noteq> CREATING" using expired creating_never_expires by metis
    ultimately show ?thesis using expired by (cases s) (auto intro: phase_step.intros)
  next
    assume eq: "transitionSession s ev policy = transitionLive s ev"
    then have "terminal s \<Longrightarrow> transitionLive s ev = invalid" using terminal_absorbs by metis
    then have "transitionLive s ev = Inr s' \<Longrightarrow> phase_step (phase_of s) ev (phase_of s')"
      using transitionLive_phase [OF inv] by force
    with live eq show ?thesis by simp
  qed simp
qed

theorem lifecycle_refines_phases_witness:
  "phase_step (PReconnecting (Some ''a'')) (RESUME_COMMITTED 7 ''a'') (PActive 0)"
proof -
  let ?p = DEFAULT_SESSION_POLICY
  let ?evs = "[ACTIVATE 0, STREAM_OPEN 1, CARRIER_LOST 5, START_RESUME 6 ''a'']"
  let ?s = "RECONNECTING \<lparr>r_activatedAt = 0, r_generation = 1, disconnectedAt = 5,
    r_lastStreamClosedAt = 5, candidateAttemptId = Some ''a'', candidateGeneration = Some 2,
    lastIssuedGeneration = Some 2\<rparr>"
  have run: "?s = run_machine (session_step ?p) INITIAL_SESSION_STATE ?evs"
    by (simp add: INITIAL_SESSION_STATE_def session_step_def transitionSession_def
        DEFAULT_SESSION_POLICY_def expireActiveIfNeeded_eq expireReconnectIfNeeded_def
        isResumeAllowed_def nextCandidateGeneration_def)
  have "transitionSession ?s (RESUME_COMMITTED 7 ''a'') ?p =
      Inr (ACTIVE \<lparr>activatedAt = 0, generation = 2, activeStreamCount = 0, lastStreamClosedAt = 5\<rparr>)"
    by (simp add: transitionSession_def DEFAULT_SESSION_POLICY_def expireReconnectIfNeeded_def
        isResumeAllowed_def)
  with lifecycle_refines_phases [OF run, of "RESUME_COMMITTED 7 ''a''"] show ?thesis by fastforce
qed

end
