(* ===== verification/Bytes.thy ===== *)
theory Bytes
  imports Prelude
begin

text \<open>
  Byte arrays as the protocol sources use them: a \<^verbatim>\<open>Uint8Array\<close> is a list of bytes (\<open>8 word\<close>), and
  the \<^verbatim>\<open>DataView\<close> accessors read and write big-endian unsigned integers. The writers truncate like
  the JavaScript ones (\<open>word_of_int\<close> wraps modulo 256 per byte). The lemmas are the round trips of
  the accessors and the reading of a field after a write elsewhere.
\<close>

type_synonym byte = "8 word"

definition byte_of_int :: "int \<Rightarrow> byte" where
  "byte_of_int v = word_of_int v"

text \<open>\<^verbatim>\<open>array.set(source, offset)\<close> within the bounds of the array.\<close>

definition bytes_set :: "byte list \<Rightarrow> nat \<Rightarrow> byte list \<Rightarrow> byte list" where
  "bytes_set out offset src = take offset out @ src @ drop (offset + length src) out"

definition uint16_bytes :: "int \<Rightarrow> byte list" where
  "uint16_bytes v = [byte_of_int (v div 256), byte_of_int v]"

definition uint32_bytes :: "int \<Rightarrow> byte list" where
  "uint32_bytes v =
     [byte_of_int (v div 16777216), byte_of_int (v div 65536), byte_of_int (v div 256), byte_of_int v]"

definition setUint8 :: "byte list \<Rightarrow> nat \<Rightarrow> int \<Rightarrow> byte list" where
  "setUint8 out offset v = bytes_set out offset [byte_of_int v]"

definition setUint16 :: "byte list \<Rightarrow> nat \<Rightarrow> int \<Rightarrow> byte list" where
  "setUint16 out offset v = bytes_set out offset (uint16_bytes v)"

definition setUint32 :: "byte list \<Rightarrow> nat \<Rightarrow> int \<Rightarrow> byte list" where
  "setUint32 out offset v = bytes_set out offset (uint32_bytes v)"

definition getUint8 :: "byte list \<Rightarrow> nat \<Rightarrow> int" where
  "getUint8 bs i = uint (bs ! i)"

text \<open>One step of reading a big-endian value: the bytes so far, and the next byte.\<close>

definition shift_in :: "int \<Rightarrow> int \<Rightarrow> int" where
  "shift_in v d = v * 256 + d"

definition getUint16 :: "byte list \<Rightarrow> nat \<Rightarrow> int" where
  "getUint16 bs i = shift_in (getUint8 bs i) (getUint8 bs (i + 1))"

definition getUint32 :: "byte list \<Rightarrow> nat \<Rightarrow> int" where
  "getUint32 bs i =
     shift_in (shift_in (shift_in (getUint8 bs i) (getUint8 bs (i + 1))) (getUint8 bs (i + 2)))
       (getUint8 bs (i + 3))"

lemmas byte_accessors = setUint8_def setUint16_def setUint32_def getUint8_def getUint16_def getUint32_def

text \<open>Consecutive writes into a zeroed array append to what has been written.\<close>

lemma bytes_set_zeros:
  assumes "length xs = offset" "length src \<le> n"
  shows "bytes_set (xs @ replicate n 0) offset src = (xs @ src) @ replicate (n - length src) 0"
  using assms by (simp add: bytes_set_def)

section \<open>Single bytes\<close>

lemma uint_byte_of_int: "uint (byte_of_int v) = v mod 256"
  by (simp add: byte_of_int_def uint_word_of_int)

lemma byte_of_int_uint [simp]: "byte_of_int (uint b) = b"
  by (simp add: byte_of_int_def)

lemma byte_of_int_eqI: "v mod 256 = uint b \<Longrightarrow> byte_of_int v = b"
  by (metis byte_of_int_uint uint_byte_of_int word_eq_iff_unsigned)

lemma byte_bounds: "0 \<le> uint (b :: byte)" "uint (b :: byte) < 256"
  using uint_lt2p [of b] by simp_all

section \<open>Round trips of the multi-byte accessors\<close>

lemma shift_in_div: "0 \<le> d \<Longrightarrow> d < 256 \<Longrightarrow> shift_in v d div 256 = v"
  by (simp add: shift_in_def)

lemma shift_in_mod: "0 \<le> d \<Longrightarrow> d < 256 \<Longrightarrow> shift_in v d mod 256 = d"
  by (simp add: shift_in_def mod_pos_pos_trivial)

lemma shift_in_split: "shift_in (v div 256) (v mod 256) = v"
  by (simp add: shift_in_def)

lemma div_65536: "(v :: int) div 65536 = v div 256 div 256"
  using zdiv_zmult2_eq [of 256 v 256] by simp

lemma div_16777216: "(v :: int) div 16777216 = v div 256 div 256 div 256"
  using zdiv_zmult2_eq [of 256 v 65536] zdiv_zmult2_eq [of 256 "v div 256" 256] by (simp add: div_65536)

lemma uint16_value:
  fixes v :: int
  assumes "0 \<le> v" "v < 65536"
  shows "shift_in (v div 256 mod 256) (v mod 256) = v"
proof -
  have "0 \<le> v div 256" "v div 256 < 256" using assms by linarith+
  then have "v div 256 mod 256 = v div 256" by (rule mod_pos_pos_trivial)
  then show ?thesis by (simp add: shift_in_split)
qed

lemma uint32_value:
  fixes v :: int
  assumes "0 \<le> v" "v < 4294967296"
  shows "shift_in (shift_in (shift_in (v div 16777216 mod 256) (v div 65536 mod 256)) (v div 256 mod 256))
    (v mod 256) = v"
proof -
  have "0 \<le> v div 16777216" "v div 16777216 < 256" using assms by linarith+
  then have "v div 16777216 mod 256 = v div 16777216" by (rule mod_pos_pos_trivial)
  then show ?thesis by (simp add: div_65536 div_16777216 shift_in_split)
qed

lemma shift_in_byte:
  "shift_in v (uint (b :: byte)) div 256 = v"
  "byte_of_int (shift_in v (uint b)) = b"
  using byte_bounds [of b] by (simp_all add: shift_in_div shift_in_mod byte_of_int_eqI)

lemma uint16_bytes_of_value: "uint16_bytes (shift_in (uint a) (uint b)) = [a, b]"
  by (simp add: uint16_bytes_def shift_in_byte)

lemma uint32_bytes_of_value:
  "uint32_bytes (shift_in (shift_in (shift_in (uint a) (uint b)) (uint c)) (uint d)) = [a, b, c, d]"
  by (simp add: uint32_bytes_def div_65536 div_16777216 shift_in_byte)

lemma length_uint_bytes [simp]: "length (uint16_bytes v) = 2" "length (uint32_bytes v) = 4"
  by (simp_all add: uint16_bytes_def uint32_bytes_def)

section \<open>Reading a concatenation\<close>

lemma nth_skip: "(xs @ ys) ! (length xs + i) = ys ! i"
  by (simp add: nth_append)

lemma getUint32_bytes:
  assumes "0 \<le> v" "v < 4294967296" "length xs = i"
  shows "getUint32 (xs @ uint32_bytes v @ ys) i = v"
proof -
  let ?bs = "xs @ uint32_bytes v @ ys"
  have skip: "?bs ! (i + k) = (uint32_bytes v @ ys) ! k" for k
    using assms(3) by (simp add: nth_append)
  have "getUint8 ?bs i = v div 16777216 mod 256" "getUint8 ?bs (i + 1) = v div 65536 mod 256"
    "getUint8 ?bs (i + 2) = v div 256 mod 256" "getUint8 ?bs (i + 3) = v mod 256"
    using skip [of 0] skip [of 1] skip [of 2] skip [of 3]
    by (simp_all add: getUint8_def uint32_bytes_def uint_byte_of_int)
  then show ?thesis
    unfolding getUint32_def by (simp only: uint32_value [OF assms(1,2)])
qed

lemma getUint16_bytes:
  assumes "0 \<le> v" "v < 65536" "length xs = i"
  shows "getUint16 (xs @ uint16_bytes v @ ys) i = v"
proof -
  have "(xs @ uint16_bytes v @ ys) ! (i + k) = (uint16_bytes v @ ys) ! k" for k
    using assms(3) by (simp add: nth_append)
  from this [of 0] this [of 1] show ?thesis
    using uint16_value [OF assms(1,2)]
    by (simp add: getUint16_def getUint8_def uint16_bytes_def uint_byte_of_int)
qed

lemma getUint8_byte:
  "0 \<le> v \<Longrightarrow> v < 256 \<Longrightarrow> length xs = i \<Longrightarrow> getUint8 (xs @ byte_of_int v # ys) i = v"
  by (auto simp: getUint8_def nth_append uint_byte_of_int)

lemma uint32_bytes_get:
  assumes "i + 4 \<le> length bs"
  shows "uint32_bytes (getUint32 bs i) = take 4 (drop i bs)"
proof -
  have "take 4 (drop i bs) = [bs ! i, bs ! (i + 1), bs ! (i + 2), bs ! (i + 3)]"
    using assms by (intro nth_equalityI) (auto simp: nth_Cons' numeral_eq_Suc less_Suc_eq)
  then show ?thesis by (simp add: getUint32_def getUint8_def uint32_bytes_of_value)
qed

lemma uint16_bytes_get:
  assumes "i + 2 \<le> length bs"
  shows "uint16_bytes (getUint16 bs i) = take 2 (drop i bs)"
proof -
  have "take 2 (drop i bs) = [bs ! i, bs ! (i + 1)]"
    using assms by (intro nth_equalityI) (auto simp: nth_Cons' numeral_eq_Suc less_Suc_eq)
  then show ?thesis by (simp add: getUint16_def getUint8_def uint16_bytes_of_value)
qed

lemma getUint_bounds:
  "0 \<le> getUint8 bs i" "getUint8 bs i < 256"
  "0 \<le> getUint16 bs i" "getUint16 bs i < 65536"
  "0 \<le> getUint32 bs i" "getUint32 bs i < 4294967296"
  using byte_bounds [of "bs ! i"] byte_bounds [of "bs ! (i + 1)"] byte_bounds [of "bs ! (i + 2)"]
    byte_bounds [of "bs ! (i + 3)"]
  by (simp_all add: getUint8_def getUint16_def getUint32_def shift_in_def)

end
