(* ===== verification/Envelope.thy ===== *)
theory Envelope
  imports Bytes
begin

text \<open>
  The carrier frame codec, \<^verbatim>\<open>packages/protocol/src/envelope.ts\<close>: the frame types, the sixteen-byte
  header, \<^verbatim>\<open>encodeEnvelope\<close> with its range checks and \<^verbatim>\<open>decodeEnvelope\<close> with its nine error codes in
  the order in which they are raised. The lemmas give the byte layout of an encoded frame, the two
  round trips, and the facts every decoded frame satisfies.
\<close>

section \<open>Frame types\<close>

datatype frameType =
    Ping | Pong | Hello | SessionProvisioned | SessionConfig | ConfigApplied | SessionActive
  | OpenProbe | ConnectionError | OpenHttp | ResponseHeaders | Data | EndStream | WindowUpdate
  | ResetStream | CloseSession

fun frameCode :: "frameType \<Rightarrow> int" where
  "frameCode Ping = 1"
| "frameCode Pong = 2"
| "frameCode Hello = 3"
| "frameCode SessionProvisioned = 4"
| "frameCode SessionConfig = 5"
| "frameCode ConfigApplied = 6"
| "frameCode SessionActive = 7"
| "frameCode OpenProbe = 8"
| "frameCode ConnectionError = 9"
| "frameCode OpenHttp = 10"
| "frameCode ResponseHeaders = 11"
| "frameCode Data = 12"
| "frameCode EndStream = 13"
| "frameCode WindowUpdate = 14"
| "frameCode ResetStream = 15"
| "frameCode CloseSession = 20"

definition FrameType_values :: "frameType list" where
  "FrameType_values =
    [Ping, Pong, Hello, SessionProvisioned, SessionConfig, ConfigApplied, SessionActive, OpenProbe,
     ConnectionError, OpenHttp, ResponseHeaders, Data, EndStream, WindowUpdate, ResetStream,
     CloseSession]"

text \<open>\<^verbatim>\<open>Object.values(FrameType).includes(type)\<close>, returning the frame type behind the code.\<close>

definition frameType_of_code :: "int \<Rightarrow> frameType option" where
  "frameType_of_code c = find (\<lambda>t. frameCode t = c) FrameType_values"

definition CONTROL_FRAME_TYPES :: "frameType list" where
  "CONTROL_FRAME_TYPES =
    [Ping, Pong, Hello, SessionProvisioned, SessionConfig, ConfigApplied, SessionActive,
     ConnectionError, CloseSession]"

definition EMPTY_PAYLOAD_FRAME_TYPES :: "frameType list" where
  "EMPTY_PAYLOAD_FRAME_TYPES = [Ping, Pong, EndStream, CloseSession]"

section \<open>Envelopes and their errors\<close>

definition MAGIC :: "byte list" where
  "MAGIC = [0x52, 0x54]"

definition HEADER_BYTES :: nat where
  "HEADER_BYTES = 16"

definition PROTOCOL_VERSION :: int where
  "PROTOCOL_VERSION = 1"

definition MAX_ENVELOPE_PAYLOAD_BYTES :: int where
  "MAX_ENVELOPE_PAYLOAD_BYTES = 0xffff"

record envelopeInput =
  envType :: frameType
  envFlags :: number
  envGeneration :: number
  envStreamId :: number
  envPayload :: "byte list"

record envelope = envelopeInput +
  envVersion :: int

datatype envelopeRangeError =
    FlagsNotByte | FlagsUndefined | GenerationNotUint32 | StreamIdNotUint32
  | ControlFrameStreamId | StreamFrameStreamId | PayloadMustBeEmpty | PayloadTooLarge

datatype envelopeDecodeErrorCode =
    FRAME_TOO_SHORT | MAGIC_INVALID | VERSION_UNSUPPORTED | FRAME_TYPE_UNKNOWN | FLAGS_UNSUPPORTED
  | RESERVED_NONZERO | LENGTH_MISMATCH | PAYLOAD_UNEXPECTED | STREAM_ID_INVALID

fun assertStreamId :: "frameType \<Rightarrow> int \<Rightarrow> envelopeRangeError + unit" where
  "assertStreamId t streamId =
    (let isControlFrame = t \<in> set CONTROL_FRAME_TYPES in
     if isControlFrame \<and> streamId \<noteq> 0 then Inl ControlFrameStreamId
     else if \<not> isControlFrame \<and> streamId = 0 then Inl StreamFrameStreamId
     else Inr ())"

definition assertUnsignedByte :: "number \<Rightarrow> bool" where
  "assertUnsignedByte v = int_between 0 0xff v"

definition assertUint32 :: "number \<Rightarrow> bool" where
  "assertUint32 v = int_between 0 0xffffffff v"

section \<open>Encoding\<close>

definition write_frame :: "int \<Rightarrow> int \<Rightarrow> int \<Rightarrow> int \<Rightarrow> byte list \<Rightarrow> byte list" where
  "write_frame t flags generation streamId payload =
    (let output = replicate (HEADER_BYTES + length payload) 0;
         output = bytes_set output 0 MAGIC;
         output = setUint8 output 2 PROTOCOL_VERSION;
         output = setUint8 output 3 t;
         output = setUint8 output 4 flags;
         output = setUint8 output 5 0;
         output = setUint32 output 6 generation;
         output = setUint32 output 10 streamId;
         output = setUint16 output 14 (int (length payload))
     in bytes_set output HEADER_BYTES payload)"

definition encodeEnvelope :: "'a envelopeInput_scheme \<Rightarrow> envelopeRangeError + byte list" where
  "encodeEnvelope input =
    (if \<not> assertUnsignedByte (envFlags input) then Inl FlagsNotByte
     else if envFlags input \<noteq> Integral 0 then Inl FlagsUndefined
     else if \<not> assertUint32 (envGeneration input) then Inl GenerationNotUint32
     else if \<not> assertUint32 (envStreamId input) then Inl StreamIdNotUint32
     else case assertStreamId (envType input) (to_int (envStreamId input)) of
       Inl e \<Rightarrow> Inl e
     | Inr _ \<Rightarrow>
         if envType input \<in> set EMPTY_PAYLOAD_FRAME_TYPES \<and> envPayload input \<noteq> []
         then Inl PayloadMustBeEmpty
         else if int (length (envPayload input)) > MAX_ENVELOPE_PAYLOAD_BYTES then Inl PayloadTooLarge
         else Inr (write_frame (frameCode (envType input)) (to_int (envFlags input))
                (to_int (envGeneration input)) (to_int (envStreamId input)) (envPayload input)))"

section \<open>Decoding\<close>

definition decodeEnvelope :: "byte list \<Rightarrow> envelopeDecodeErrorCode + envelope" where
  "decodeEnvelope input =
    (if length input < HEADER_BYTES then Inl FRAME_TOO_SHORT
     else if getUint8 input 0 \<noteq> uint (MAGIC ! 0) \<or> getUint8 input 1 \<noteq> uint (MAGIC ! 1)
     then Inl MAGIC_INVALID
     else if getUint8 input 2 \<noteq> PROTOCOL_VERSION then Inl VERSION_UNSUPPORTED
     else case frameType_of_code (getUint8 input 3) of
       None \<Rightarrow> Inl FRAME_TYPE_UNKNOWN
     | Some t \<Rightarrow>
         if getUint8 input 4 \<noteq> 0 then Inl FLAGS_UNSUPPORTED
         else if getUint8 input 5 \<noteq> 0 then Inl RESERVED_NONZERO
         else
           let generation = getUint32 input 6; streamId = getUint32 input 10;
               payloadLength = getUint16 input 14
           in if int (length input) \<noteq> int HEADER_BYTES + payloadLength then Inl LENGTH_MISMATCH
              else case assertStreamId t streamId of
                Inl _ \<Rightarrow> Inl STREAM_ID_INVALID
              | Inr _ \<Rightarrow>
                  if t \<in> set EMPTY_PAYLOAD_FRAME_TYPES \<and> payloadLength \<noteq> 0
                  then Inl PAYLOAD_UNEXPECTED
                  else Inr \<lparr>envType = t, envFlags = Integral (getUint8 input 4),
                    envGeneration = Integral generation, envStreamId = Integral streamId,
                    envPayload = drop HEADER_BYTES input, envVersion = getUint8 input 2\<rparr>)"

lemmas envelope_constants = HEADER_BYTES_def MAGIC_def PROTOCOL_VERSION_def
  MAX_ENVELOPE_PAYLOAD_BYTES_def

section \<open>Frame type codes\<close>

lemma frameType_of_code_frameCode [simp]: "frameType_of_code (frameCode t) = Some t"
  by (cases t) (simp_all add: frameType_of_code_def FrameType_values_def)

lemma frameType_of_code_Some: "frameType_of_code c = Some t \<Longrightarrow> frameCode t = c"
  by (auto simp: frameType_of_code_def find_Some_iff)

lemma frameCode_bounds: "0 < frameCode t" "frameCode t < 256"
  by (cases t; simp)+

section \<open>The layout of a frame\<close>

definition frame_layout :: "int \<Rightarrow> int \<Rightarrow> int \<Rightarrow> int \<Rightarrow> byte list \<Rightarrow> byte list" where
  "frame_layout t flags generation streamId payload =
    [0x52, 0x54, 1, byte_of_int t, byte_of_int flags, 0] @ uint32_bytes generation
      @ uint32_bytes streamId @ uint16_bytes (int (length payload)) @ payload"

lemma write_frame_layout: "write_frame t flags generation streamId payload
    = frame_layout t flags generation streamId payload"
proof -
  have zero: "replicate (16 + n) (0 :: byte) = [] @ replicate (16 + n) 0" for n by simp
  have one: "byte_of_int 1 = 1" "byte_of_int 0 = 0" by (simp_all add: byte_of_int_def)
  show ?thesis
    unfolding write_frame_def Let_def envelope_constants byte_accessors
    by (subst zero)
      (simp add: bytes_set_zeros one del: append_assoc append_Nil replicate_Suc,
       simp add: frame_layout_def)
qed

lemma length_frame_layout:
  "length (frame_layout t flags generation streamId payload) = 16 + length payload"
  by (simp add: frame_layout_def)

text \<open>The fields a reader finds in a frame whose values are in range.\<close>

lemma frame_layout_header:
  fixes t flags :: int
  assumes "0 \<le> t" "t < 256" "0 \<le> flags" "flags < 256"
  shows "getUint8 (frame_layout t flags g sid p) 0 = 0x52"
    and "getUint8 (frame_layout t flags g sid p) 1 = 0x54"
    and "getUint8 (frame_layout t flags g sid p) 2 = 1"
    and "getUint8 (frame_layout t flags g sid p) 3 = t"
    and "getUint8 (frame_layout t flags g sid p) 4 = flags"
    and "getUint8 (frame_layout t flags g sid p) 5 = 0"
  using assms by (simp_all add: getUint8_def frame_layout_def uint_byte_of_int)

lemma frame_layout_fields:
  assumes "0 \<le> g" "g < 4294967296" "0 \<le> sid" "sid < 4294967296" "length p < 65536"
  shows "getUint32 (frame_layout t flags g sid p) 6 = g"
    and "getUint32 (frame_layout t flags g sid p) 10 = sid"
    and "getUint16 (frame_layout t flags g sid p) 14 = int (length p)"
    and "drop 16 (frame_layout t flags g sid p) = p"
proof -
  let ?h = "[0x52, 0x54, 1, byte_of_int t, byte_of_int flags, 0]"
  show "getUint32 (frame_layout t flags g sid p) 6 = g"
    unfolding frame_layout_def using assms by (intro getUint32_bytes) simp_all
  show "getUint32 (frame_layout t flags g sid p) 10 = sid"
    using assms getUint32_bytes [of sid "?h @ uint32_bytes g" 10] by (simp add: frame_layout_def)
  show "getUint16 (frame_layout t flags g sid p) 14 = int (length p)"
    using assms getUint16_bytes [of "int (length p)" "?h @ uint32_bytes g @ uint32_bytes sid" 14]
    by (simp add: frame_layout_def)
  show "drop 16 (frame_layout t flags g sid p) = p"
    by (simp add: frame_layout_def)
qed

text \<open>Conversely, a byte string with those header bytes is the frame of the fields read from it.\<close>

lemma frame_layout_of_fields:
  assumes len: "16 \<le> length bs" "int (length bs) = 16 + getUint16 bs 14"
    and header: "getUint8 bs 0 = 0x52" "getUint8 bs 1 = 0x54" "getUint8 bs 2 = 1" "getUint8 bs 3 = t"
      "getUint8 bs 4 = flags" "getUint8 bs 5 = 0"
  shows "frame_layout t flags (getUint32 bs 6) (getUint32 bs 10) (drop 16 bs) = bs"
proof -
  have byte: "bs ! i = byte_of_int v" if "getUint8 bs i = v" for i v
    using that byte_of_int_uint [of "bs ! i"] by (simp add: getUint8_def)
  have "take 6 bs = [bs ! 0, bs ! 1, bs ! 2, bs ! 3, bs ! 4, bs ! 5]"
    using len by (intro nth_equalityI) (auto simp: nth_Cons' numeral_eq_Suc less_Suc_eq)
  also have "\<dots> = [0x52, 0x54, 1, byte_of_int t, byte_of_int flags, 0]"
    using header by (simp add: byte) (simp add: byte_of_int_def)
  finally have head: "take 6 bs = [0x52, 0x54, 1, byte_of_int t, byte_of_int flags, 0]" .
  have "take 16 bs = take 6 bs @ take 4 (drop 6 bs) @ take 4 (drop 10 bs) @ take 2 (drop 14 bs)"
    using take_add [of 6 4 bs] take_add [of 10 4 bs] take_add [of 14 2 bs] by simp
  then have "bs = take 6 bs @ take 4 (drop 6 bs) @ take 4 (drop 10 bs) @ take 2 (drop 14 bs) @ drop 16 bs"
    using append_take_drop_id [of 16 bs] by simp
  moreover have "uint16_bytes (int (length (drop 16 bs))) = take 2 (drop 14 bs)"
    using len uint16_bytes_get [of 14 bs] by simp
  moreover have "uint32_bytes (getUint32 bs 6) = take 4 (drop 6 bs)"
    "uint32_bytes (getUint32 bs 10) = take 4 (drop 10 bs)"
    using len by (simp_all add: uint32_bytes_get)
  ultimately show ?thesis
    unfolding frame_layout_def using head by argo
qed

section \<open>What a successful encoding and a successful decoding mean\<close>

lemma encodeEnvelope_Inr:
  "encodeEnvelope input = Inr bs \<longleftrightarrow>
    (\<exists>g sid. envFlags input = Integral 0 \<and> envGeneration input = Integral g \<and>
      envStreamId input = Integral sid \<and> 0 \<le> g \<and> g < 4294967296 \<and> 0 \<le> sid \<and> sid < 4294967296 \<and>
      assertStreamId (envType input) sid = Inr () \<and>
      \<not> (envType input \<in> set EMPTY_PAYLOAD_FRAME_TYPES \<and> envPayload input \<noteq> []) \<and>
      length (envPayload input) < 65536 \<and>
      bs = frame_layout (frameCode (envType input)) 0 g sid (envPayload input))"
  by (cases "envGeneration input"; cases "envStreamId input"; cases "envFlags input")
    (auto simp: encodeEnvelope_def assertUint32_def assertUnsignedByte_def guard_simps
      write_frame_layout MAX_ENVELOPE_PAYLOAD_BYTES_def split: sum.splits if_splits
      simp del: assertStreamId.simps)

lemma decodeEnvelope_Inr:
  "decodeEnvelope bs = Inr env \<longleftrightarrow>
    (\<exists>t. 16 \<le> length bs \<and> int (length bs) = 16 + getUint16 bs 14 \<and>
      getUint8 bs 0 = 0x52 \<and> getUint8 bs 1 = 0x54 \<and> getUint8 bs 2 = 1 \<and>
      getUint8 bs 3 = frameCode t \<and> getUint8 bs 4 = 0 \<and> getUint8 bs 5 = 0 \<and>
      assertStreamId t (getUint32 bs 10) = Inr () \<and>
      \<not> (t \<in> set EMPTY_PAYLOAD_FRAME_TYPES \<and> drop 16 bs \<noteq> []) \<and>
      env = \<lparr>envType = t, envFlags = Integral 0, envGeneration = Integral (getUint32 bs 6),
        envStreamId = Integral (getUint32 bs 10), envPayload = drop 16 bs, envVersion = 1\<rparr>)"
  (is "_ = ?rhs")
proof
  assume ok: "decodeEnvelope bs = Inr env"
  then obtain t where t: "frameType_of_code (getUint8 bs 3) = Some t"
    by (auto simp: decodeEnvelope_def split: if_splits option.splits)
  with ok frameType_of_code_Some [OF t] show ?rhs
    by (intro exI [of _ t])
      (auto simp: decodeEnvelope_def envelope_constants Let_def split: if_splits sum.splits
        simp del: assertStreamId.simps)
next
  assume ?rhs
  then show "decodeEnvelope bs = Inr env"
    by (auto simp: decodeEnvelope_def envelope_constants Let_def simp del: assertStreamId.simps)
qed

lemma decode_encoded:
  assumes "encodeEnvelope input = Inr bs"
  shows "decodeEnvelope bs = Inr \<lparr>envType = envType input, envFlags = envFlags input,
    envGeneration = envGeneration input, envStreamId = envStreamId input,
    envPayload = envPayload input, envVersion = PROTOCOL_VERSION\<rparr>"
proof -
  from assms obtain g sid where
    input: "envFlags input = Integral 0" "envGeneration input = Integral g"
      "envStreamId input = Integral sid"
    and range: "0 \<le> g" "g < 4294967296" "0 \<le> sid" "sid < 4294967296" "length (envPayload input) < 65536"
    and ok: "assertStreamId (envType input) sid = Inr ()"
      "\<not> (envType input \<in> set EMPTY_PAYLOAD_FRAME_TYPES \<and> envPayload input \<noteq> [])"
    and bs: "bs = frame_layout (frameCode (envType input)) 0 g sid (envPayload input)"
    unfolding encodeEnvelope_Inr by auto
  note header = frame_layout_header [of "frameCode (envType input)" 0 g sid "envPayload input"]
  show ?thesis
    unfolding decodeEnvelope_Inr bs using ok input frameCode_bounds [of "envType input"]
    by (intro exI [of _ "envType input"])
      (simp add: frame_layout_fields [OF range] length_frame_layout header PROTOCOL_VERSION_def
        del: assertStreamId.simps One_nat_def)
qed

text \<open>
  C18. Encoding then decoding a frame returns the frame. Whenever \<^verbatim>\<open>encodeEnvelope\<close> accepts an input,
  \<^verbatim>\<open>decodeEnvelope\<close> accepts its bytes and returns the same type, flags, generation, stream id and
  payload, with the protocol version added.
\<close>

theorem encode_decode_roundtrip:
  assumes "encodeEnvelope input = Inr bs"
  shows "decodeEnvelope bs = Inr \<lparr>envType = envType input, envFlags = envFlags input,
    envGeneration = envGeneration input, envStreamId = envStreamId input,
    envPayload = envPayload input, envVersion = PROTOCOL_VERSION\<rparr>"
  using assms by (rule decode_encoded)

theorem encode_decode_roundtrip_witness:
  "\<exists>bs. encodeEnvelope \<lparr>envType = Data, envFlags = Integral 0, envGeneration = Integral 70000,
      envStreamId = Integral 3, envPayload = [1, 255]\<rparr> = Inr bs \<and>
    decodeEnvelope bs = Inr \<lparr>envType = Data, envFlags = Integral 0, envGeneration = Integral 70000,
      envStreamId = Integral 3, envPayload = [1, 255], envVersion = PROTOCOL_VERSION\<rparr>"
proof -
  let ?input = "\<lparr>envType = Data, envFlags = Integral 0, envGeneration = Integral 70000,
      envStreamId = Integral 3, envPayload = [1, 255]\<rparr>"
  have ok: "encodeEnvelope ?input = Inr (frame_layout 12 0 70000 3 [1, 255])"
    by (simp add: encodeEnvelope_Inr CONTROL_FRAME_TYPES_def EMPTY_PAYLOAD_FRAME_TYPES_def)
  show ?thesis using ok encode_decode_roundtrip [OF ok] by simp
qed

text \<open>
  C19. Decoding is canonical. Whenever \<^verbatim>\<open>decodeEnvelope\<close> accepts a byte string, encoding the decoded
  frame reproduces exactly that byte string: no two byte strings decode to the same frame, and the
  decoder accepts nothing the encoder could not have produced.
\<close>

theorem decode_encode_canonical:
  assumes "decodeEnvelope bs = Inr env"
  shows "encodeEnvelope env = Inr bs"
proof -
  from assms obtain t where
    len: "16 \<le> length bs" "int (length bs) = 16 + getUint16 bs 14"
    and header: "getUint8 bs 0 = 0x52" "getUint8 bs 1 = 0x54" "getUint8 bs 2 = 1"
      "getUint8 bs 3 = frameCode t" "getUint8 bs 4 = 0" "getUint8 bs 5 = 0"
    and ok: "assertStreamId t (getUint32 bs 10) = Inr ()"
      "\<not> (t \<in> set EMPTY_PAYLOAD_FRAME_TYPES \<and> drop 16 bs \<noteq> [])"
    and env: "env = \<lparr>envType = t, envFlags = Integral 0, envGeneration = Integral (getUint32 bs 6),
        envStreamId = Integral (getUint32 bs 10), envPayload = drop 16 bs, envVersion = 1\<rparr>"
    unfolding decodeEnvelope_Inr by auto
  have "length (drop 16 bs) < 65536" using len getUint_bounds(4) [of bs 14] by simp
  then show ?thesis
    unfolding encodeEnvelope_Inr env using ok getUint_bounds(5,6)
    by (simp add: frame_layout_of_fields [OF len header] del: assertStreamId.simps)
qed

theorem decode_encode_canonical_witness:
  "encodeEnvelope \<lparr>envType = Ping, envFlags = Integral 0, envGeneration = Integral 258,
      envStreamId = Integral 0, envPayload = [], envVersion = 1\<rparr>
    = Inr [0x52, 0x54, 1, 1, 0, 0, 0, 0, 1, 2, 0, 0, 0, 0, 0, 0]"
proof -
  have "decodeEnvelope [0x52, 0x54, 1, 1, 0, 0, 0, 0, 1, 2, 0, 0, 0, 0, 0, 0]
      = Inr \<lparr>envType = Ping, envFlags = Integral 0, envGeneration = Integral 258,
          envStreamId = Integral 0, envPayload = [], envVersion = 1\<rparr>"
    by (simp add: decodeEnvelope_Inr getUint8_def getUint16_def getUint32_def shift_in_def
        CONTROL_FRAME_TYPES_def EMPTY_PAYLOAD_FRAME_TYPES_def)
  then show ?thesis by (rule decode_encode_canonical)
qed

end
