(* ===== verification/FlowWindow.thy ===== *)
theory FlowWindow
  imports Prelude
begin

text \<open>
  The sender's credit window, \<^verbatim>\<open>packages/relay/src/flow-window.ts\<close>, class \<^verbatim>\<open>OutboundFlowWindow\<close>: credit
  per stream and per connection, and the queue of pending \<^verbatim>\<open>take\<close> calls that \<^verbatim>\<open>#drainWaiters\<close>
  serves. A promise is identified by a ticket; an operation returns the promises it settles, in
  order. The lemmas show that credit is conserved, that no credit is ever negative, that the last
  check of \<^verbatim>\<open>update\<close> cannot fail, and that no call is left waiting while it could be served.
\<close>

section \<open>State\<close>

record streamCredit =
  available :: int
  outstanding :: int

record creditWaiter =
  w_streamId :: int
  w_maximumBytes :: int
  w_ticket :: nat

datatype flowWindowError =
    NotPositiveInteger | ConnectionWindowClosed | StreamWindowExists | StreamWindowMissing
  | UpdateExceedsOutstanding | ConnectionExceedsMaximum

datatype settlement = Resolved creditWaiter int | Rejected creditWaiter flowWindowError

record outboundFlow =
  initialConnectionBytes :: int
  connectionAvailable :: int
  streams :: "(int, streamCredit) jsmap"
  waiters :: "creditWaiter list"
  closed :: bool

type_synonym flowResult = "(flowWindowError + settlement list) \<times> outboundFlow"

definition new_outboundFlow :: "number \<Rightarrow> flowWindowError + outboundFlow" where
  "new_outboundFlow bytes =
    (if \<not> positive_int bytes then Inl NotPositiveInteger
     else Inr \<lparr>initialConnectionBytes = to_int bytes, connectionAvailable = to_int bytes,
       streams = [], waiters = [], closed = False\<rparr>)"

section \<open>Operations\<close>

text \<open>\<^verbatim>\<open>#drainWaiters\<close>: one pass over the queue, serving what the current credit allows.\<close>

fun drain :: "int \<Rightarrow> (int, streamCredit) jsmap \<Rightarrow> creditWaiter list \<Rightarrow>
    int \<times> (int, streamCredit) jsmap \<times> creditWaiter list \<times> settlement list" where
  "drain conn ss [] = (conn, ss, [], [])"
| "drain conn ss (w # ws) =
     (case map_get ss (w_streamId w) of
        None \<Rightarrow>
          (let (conn', ss', kept, out) = drain conn ss ws
           in (conn', ss', kept, Rejected w StreamWindowMissing # out))
      | Some st \<Rightarrow>
          (let granted = min (w_maximumBytes w) (min (available st) conn) in
           if granted = 0 then
             (let (conn', ss', kept, out) = drain conn ss ws in (conn', ss', w # kept, out))
           else
             (let (conn', ss', kept, out) =
                drain (conn - granted)
                  (map_set ss (w_streamId w)
                    (st\<lparr>available := available st - granted, outstanding := outstanding st + granted\<rparr>))
                  ws
              in (conn', ss', kept, Resolved w granted # out))))"

definition drainWaiters :: "outboundFlow \<Rightarrow> settlement list \<times> outboundFlow" where
  "drainWaiters f =
    (let (conn, ss, kept, out) = drain (connectionAvailable f) (streams f) (waiters f)
     in (out, f\<lparr>connectionAvailable := conn, streams := ss, waiters := kept\<rparr>))"

definition openStream :: "outboundFlow \<Rightarrow> number \<Rightarrow> number \<Rightarrow> flowResult" where
  "openStream f streamId initialStreamBytes =
    (if \<not> positive_int streamId then (Inl NotPositiveInteger, f)
     else if \<not> positive_int initialStreamBytes then (Inl NotPositiveInteger, f)
     else if closed f then (Inl ConnectionWindowClosed, f)
     else if map_has (streams f) (to_int streamId) then (Inl StreamWindowExists, f)
     else let (out, f') = drainWaiters (f\<lparr>streams := map_set (streams f) (to_int streamId)
            \<lparr>available = to_int initialStreamBytes, outstanding = 0\<rparr>\<rparr>)
       in (Inr out, f'))"

definition take_credit :: "outboundFlow \<Rightarrow> int \<Rightarrow> number \<Rightarrow> nat \<Rightarrow> flowResult" where
  "take_credit f streamId maximumBytes ticket =
    (if \<not> positive_int maximumBytes then (Inl NotPositiveInteger, f)
     else if closed f then (Inl ConnectionWindowClosed, f)
     else if \<not> map_has (streams f) streamId then (Inl StreamWindowMissing, f)
     else let (out, f') = drainWaiters (f\<lparr>waiters := waiters f @
            [\<lparr>w_streamId = streamId, w_maximumBytes = to_int maximumBytes, w_ticket = ticket\<rparr>]\<rparr>)
       in (Inr out, f'))"

definition update_credit :: "outboundFlow \<Rightarrow> int \<Rightarrow> number \<Rightarrow> flowResult" where
  "update_credit f streamId bytes =
    (if \<not> positive_int bytes then (Inl NotPositiveInteger, f)
     else case map_get (streams f) streamId of
       None \<Rightarrow> (Inl StreamWindowMissing, f)
     | Some st \<Rightarrow>
         if to_int bytes > outstanding st then (Inl UpdateExceedsOutstanding, f)
         else
           let f' = f\<lparr>streams := map_set (streams f) streamId
                 (st\<lparr>outstanding := outstanding st - to_int bytes,
                   available := available st + to_int bytes\<rparr>),
                 connectionAvailable := connectionAvailable f + to_int bytes\<rparr>
           in if connectionAvailable f' > initialConnectionBytes f'
              then (Inl ConnectionExceedsMaximum, f')
              else let (out, f'') = drainWaiters f' in (Inr out, f''))"

definition closeStream :: "outboundFlow \<Rightarrow> int \<Rightarrow> settlement list \<times> outboundFlow" where
  "closeStream f streamId =
    (case map_get (streams f) streamId of
       None \<Rightarrow> ([], f)
     | Some st \<Rightarrow>
         let rejected = rev (filter (\<lambda>w. w_streamId w = streamId) (waiters f));
             (out, f') = drainWaiters (f\<lparr>streams := map_delete (streams f) streamId,
               connectionAvailable := connectionAvailable f + outstanding st,
               waiters := filter (\<lambda>w. w_streamId w \<noteq> streamId) (waiters f)\<rparr>)
         in (map (\<lambda>w. Rejected w StreamWindowMissing) rejected @ out, f'))"

definition close_window :: "outboundFlow \<Rightarrow> settlement list \<times> outboundFlow" where
  "close_window f =
    (map (\<lambda>w. Rejected w ConnectionWindowClosed) (waiters f),
     f\<lparr>closed := True, streams := [], waiters := []\<rparr>)"

section \<open>The machine of all operations\<close>

datatype flowOp =
    OpenStream number number | Take int number nat | Update int number | CloseStream int | CloseWindow

fun flow_op :: "outboundFlow \<Rightarrow> flowOp \<Rightarrow> flowResult" where
  "flow_op f (OpenStream sid bytes) = openStream f sid bytes"
| "flow_op f (Take sid bytes ticket) = take_credit f sid bytes ticket"
| "flow_op f (Update sid bytes) = update_credit f sid bytes"
| "flow_op f (CloseStream sid) = map_prod Inr id (closeStream f sid)"
| "flow_op f CloseWindow = map_prod Inr id (close_window f)"

definition flow_step :: "outboundFlow \<Rightarrow> flowOp \<Rightarrow> outboundFlow" where
  "flow_step f x = snd (flow_op f x)"

section \<open>Invariants\<close>

definition credits_ok :: "int \<Rightarrow> (int, streamCredit) jsmap \<Rightarrow> bool" where
  "credits_ok conn ss = (wf_map ss \<and> 0 \<le> conn \<and>
    (\<forall>st \<in> set (map_values ss). 0 \<le> available st \<and> 0 \<le> outstanding st))"

abbreviation total_outstanding :: "(int, streamCredit) jsmap \<Rightarrow> int" where
  "total_outstanding ss \<equiv> sum_values outstanding ss"

text \<open>A waiter is blocked when its stream exists and either window has no credit left.\<close>

definition blocked :: "int \<Rightarrow> (int, streamCredit) jsmap \<Rightarrow> creditWaiter \<Rightarrow> bool" where
  "blocked conn ss w = (0 < w_maximumBytes w \<and>
    (case map_get ss (w_streamId w) of None \<Rightarrow> False | Some st \<Rightarrow> available st = 0 \<or> conn = 0))"

definition flow_inv :: "outboundFlow \<Rightarrow> bool" where
  "flow_inv f = (credits_ok (connectionAvailable f) (streams f) \<and>
    (if closed f then streams f = [] \<and> waiters f = [] \<and> connectionAvailable f \<le> initialConnectionBytes f
     else connectionAvailable f + total_outstanding (streams f) = initialConnectionBytes f) \<and>
    (\<forall>w \<in> set (waiters f). blocked (connectionAvailable f) (streams f) w))"

text \<open>What one pass over the queue does to the credits.\<close>

definition credit_shrinks :: "int \<Rightarrow> (int, streamCredit) jsmap \<Rightarrow> int \<Rightarrow> (int, streamCredit) jsmap \<Rightarrow> bool" where
  "credit_shrinks conn ss conn' ss' = (conn' \<le> conn \<and> credits_ok conn' ss' \<and>
    conn' + total_outstanding ss' = conn + total_outstanding ss \<and>
    (\<forall>k. (case map_get ss k of
        None \<Rightarrow> map_get ss' k = None
      | Some st \<Rightarrow> (\<exists>st'. map_get ss' k = Some st' \<and> available st' \<le> available st \<and>
          available st' + outstanding st' = available st + outstanding st))))"

lemma credits_okD:
  "credits_ok conn ss \<Longrightarrow> map_get ss k = Some st \<Longrightarrow> 0 \<le> available st \<and> 0 \<le> outstanding st"
  unfolding credits_ok_def by (blast dest: map_get_in_values)

lemma credits_ok_set:
  "credits_ok conn ss \<Longrightarrow> 0 \<le> conn' \<Longrightarrow> 0 \<le> available st \<Longrightarrow> 0 \<le> outstanding st \<Longrightarrow>
    credits_ok conn' (map_set ss k st)"
  by (auto simp: credits_ok_def in_map_set split: if_splits)

lemma credits_ok_delete: "credits_ok conn ss \<Longrightarrow> 0 \<le> conn' \<Longrightarrow> credits_ok conn' (map_delete ss k)"
  by (auto simp: credits_ok_def in_map_delete)

lemma credit_shrinks_refl: "credits_ok conn ss \<Longrightarrow> credit_shrinks conn ss conn ss"
  by (auto simp: credit_shrinks_def split: option.splits)

lemma credit_shrinks_trans:
  assumes "credit_shrinks c1 s1 c2 s2" "credit_shrinks c2 s2 c3 s3"
  shows "credit_shrinks c1 s1 c3 s3"
proof -
  have "case map_get s1 k of
        None \<Rightarrow> map_get s3 k = None
      | Some st \<Rightarrow> (\<exists>st'. map_get s3 k = Some st' \<and> available st' \<le> available st \<and>
          available st' + outstanding st' = available st + outstanding st)" for k
    using assms unfolding credit_shrinks_def
    by (elim conjE allE [of _ k]) (force split: option.splits)
  with assms show ?thesis unfolding credit_shrinks_def by auto
qed

lemma grant_shrinks:
  assumes "credits_ok conn ss" "map_get ss k = Some st" "0 \<le> g" "g \<le> available st" "g \<le> conn"
  shows "credit_shrinks conn ss (conn - g)
    (map_set ss k (st\<lparr>available := available st - g, outstanding := outstanding st + g\<rparr>))"
  using assms credits_okD [OF assms(1,2)]
  by (auto simp: credit_shrinks_def jsmap_simps credits_ok_set split: option.splits)

lemma blocked_shrinks:
  assumes "blocked conn ss w" "credit_shrinks conn ss conn' ss'"
  shows "blocked conn' ss' w"
proof -
  from assms(1) obtain st where st: "map_get ss (w_streamId w) = Some st"
    and zero: "available st = 0 \<or> conn = 0" and pos: "0 < w_maximumBytes w"
    by (auto simp: blocked_def split: option.splits)
  from assms(2) st obtain st' where st': "map_get ss' (w_streamId w) = Some st'"
    "available st' \<le> available st"
    unfolding credit_shrinks_def by (elim conjE allE [of _ "w_streamId w"]) auto
  moreover have ok: "credits_ok conn' ss'" "conn' \<le> conn" using assms(2) by (auto simp: credit_shrinks_def)
  moreover have "0 \<le> available st'" "0 \<le> conn'"
    using credits_okD [OF ok(1) st'(1)] ok(1) by (auto simp: credits_ok_def)
  ultimately show ?thesis using zero pos by (auto simp: blocked_def)
qed

lemma drain_correct:
  assumes "drain conn ss ws = (conn', ss', kept, out)" "credits_ok conn ss"
    "\<forall>w \<in> set ws. 0 < w_maximumBytes w"
  shows "credit_shrinks conn ss conn' ss' \<and> (\<forall>w \<in> set kept. blocked conn' ss' w)"
  using assms
proof (induction conn ss ws arbitrary: conn' ss' kept out rule: drain.induct)
  case (1 conn ss)
  then show ?case by (simp add: credit_shrinks_refl)
next
  case (2 conn ss w ws)
  show ?case
  proof (cases "map_get ss (w_streamId w)")
    case None
    with 2 show ?thesis by (auto split: prod.splits)
  next
    case (Some st)
    let ?g = "min (w_maximumBytes w) (min (available st) conn)"
    have nonneg: "0 \<le> available st" "0 \<le> conn" "0 < w_maximumBytes w"
      using credits_okD [OF "2.prems"(2) Some] "2.prems" by (auto simp: credits_ok_def)
    show ?thesis
    proof (cases "?g = 0")
      case True
      then obtain kept' where rec: "drain conn ss ws = (conn', ss', kept', out)" and kept: "kept = w # kept'"
        using "2.prems"(1) Some by (auto split: prod.splits)
      have *: "credit_shrinks conn ss conn' ss' \<and> (\<forall>w \<in> set kept'. blocked conn' ss' w)"
        using "2.IH"(2) [OF Some refl True rec] "2.prems" by simp
      have "blocked conn ss w" using True nonneg Some by (auto simp: blocked_def min_def split: if_splits)
      with * show ?thesis by (auto simp: kept intro: blocked_shrinks)
    next
      case False
      let ?ss = "map_set ss (w_streamId w)
        (st\<lparr>available := available st - ?g, outstanding := outstanding st + ?g\<rparr>)"
      have shrink: "credit_shrinks conn ss (conn - ?g) ?ss"
        using nonneg by (intro grant_shrinks "2.prems"(2) Some) auto
      obtain out' where rec: "drain (conn - ?g) ?ss ws = (conn', ss', kept, out')"
        using "2.prems"(1) Some False by (auto simp: Let_def split: prod.splits)
      have "credit_shrinks (conn - ?g) ?ss conn' ss' \<and> (\<forall>w \<in> set kept. blocked conn' ss' w)"
        using "2.IH"(3) [OF Some refl False rec] shrink "2.prems"(3) by (simp add: credit_shrinks_def)
      with shrink show ?thesis by (blast intro: credit_shrinks_trans)
    qed
  qed
qed

text \<open>What must hold before the queue is drained, and what holds after.\<close>

definition flow_pre :: "outboundFlow \<Rightarrow> bool" where
  "flow_pre f = (credits_ok (connectionAvailable f) (streams f) \<and> \<not> closed f \<and>
    connectionAvailable f + total_outstanding (streams f) = initialConnectionBytes f \<and>
    (\<forall>w \<in> set (waiters f). 0 < w_maximumBytes w))"

lemma drainWaiters_inv:
  assumes "flow_pre f"
  shows "flow_inv (snd (drainWaiters f))"
    and "initialConnectionBytes (snd (drainWaiters f)) = initialConnectionBytes f"
    and "credit_shrinks (connectionAvailable f) (streams f)
      (connectionAvailable (snd (drainWaiters f))) (streams (snd (drainWaiters f)))"
proof -
  obtain conn' ss' kept out where d: "drain (connectionAvailable f) (streams f) (waiters f) = (conn', ss', kept, out)"
    by (cases "drain (connectionAvailable f) (streams f) (waiters f)") auto
  then have f': "snd (drainWaiters f) = f\<lparr>connectionAvailable := conn', streams := ss', waiters := kept\<rparr>"
    by (simp add: drainWaiters_def)
  have shrinks: "credit_shrinks (connectionAvailable f) (streams f) conn' ss'"
    and kept: "\<forall>w \<in> set kept. blocked conn' ss' w"
    using drain_correct [OF d] assms by (auto simp: flow_pre_def)
  show "flow_inv (snd (drainWaiters f))"
    using shrinks kept assms by (auto simp: f' flow_inv_def flow_pre_def credit_shrinks_def)
  show "initialConnectionBytes (snd (drainWaiters f)) = initialConnectionBytes f"
    by (simp add: f')
  show "credit_shrinks (connectionAvailable f) (streams f)
      (connectionAvailable (snd (drainWaiters f))) (streams (snd (drainWaiters f)))"
    using shrinks by (simp add: f')
qed

lemma flow_inv_pre: "flow_inv f \<Longrightarrow> \<not> closed f \<Longrightarrow> flow_pre f"
  by (auto simp: flow_inv_def flow_pre_def blocked_def)

lemma flow_inv_open: "flow_inv f \<Longrightarrow> map_get (streams f) k = Some st \<Longrightarrow> \<not> closed f"
  by (auto simp: flow_inv_def)

lemma openStream_pre:
  assumes "flow_inv f" "\<not> closed f" "\<not> map_has (streams f) sid" "0 < bytes"
  shows "flow_pre (f\<lparr>streams := map_set (streams f) sid \<lparr>available = bytes, outstanding = 0\<rparr>\<rparr>)"
  using flow_inv_pre [OF assms(1,2)] assms(3,4)
  by (auto simp: flow_pre_def jsmap_simps intro!: credits_ok_set) (auto simp: credits_ok_def)

lemma take_pre:
  assumes "flow_inv f" "\<not> closed f" "0 < w_maximumBytes w"
  shows "flow_pre (f\<lparr>waiters := waiters f @ [w]\<rparr>)"
  using flow_inv_pre [OF assms(1,2)] assms(3) by (auto simp: flow_pre_def)

lemma update_pre:
  assumes "flow_inv f" "map_get (streams f) sid = Some st" "0 < bytes" "bytes \<le> outstanding st"
  shows "flow_pre (f\<lparr>streams := map_set (streams f) sid
      (st\<lparr>outstanding := outstanding st - bytes, available := available st + bytes\<rparr>),
      connectionAvailable := connectionAvailable f + bytes\<rparr>)"
  using flow_inv_pre [OF assms(1) flow_inv_open [OF assms(1,2)]] assms
    credits_okD [of "connectionAvailable f" "streams f" sid st]
  by (auto simp: flow_pre_def jsmap_simps intro!: credits_ok_set) (auto simp: credits_ok_def)

lemma closeStream_pre:
  assumes "flow_inv f" "map_get (streams f) sid = Some st"
  shows "flow_pre (f\<lparr>streams := map_delete (streams f) sid,
      connectionAvailable := connectionAvailable f + outstanding st, waiters := filter P (waiters f)\<rparr>)"
  using flow_inv_pre [OF assms(1) flow_inv_open [OF assms]] assms
    credits_okD [of "connectionAvailable f" "streams f" sid st]
  by (auto simp: flow_pre_def jsmap_simps credits_ok_def in_map_delete)

lemma flow_pre_within_initial: "flow_pre f \<Longrightarrow> connectionAvailable f \<le> initialConnectionBytes f"
proof -
  assume "flow_pre f"
  then have "credits_ok (connectionAvailable f) (streams f)"
    and eq: "connectionAvailable f + total_outstanding (streams f) = initialConnectionBytes f"
    by (auto simp: flow_pre_def)
  then have "0 \<le> total_outstanding (streams f)"
    by (intro sum_values_nonneg) (auto simp: credits_ok_def)
  with eq show ?thesis by simp
qed

lemma openStream_inv: "flow_inv f \<Longrightarrow> flow_inv (snd (openStream f sid bytes))"
  by (auto simp: openStream_def Let_def split_beta intro!: drainWaiters_inv openStream_pre dest: positive_intD)

lemma take_inv: "flow_inv f \<Longrightarrow> flow_inv (snd (take_credit f sid bytes ticket))"
  by (auto simp: take_credit_def Let_def split_beta intro!: drainWaiters_inv take_pre dest: positive_intD)

text \<open>On a well-formed window the last check of \<^verbatim>\<open>update\<close> never fails.\<close>

lemma update_credit_eq:
  assumes "flow_inv f" "positive_int bytes" "map_get (streams f) sid = Some st"
    "to_int bytes \<le> outstanding st"
  shows "update_credit f sid bytes = map_prod Inr id (drainWaiters (f\<lparr>streams := map_set (streams f) sid
      (st\<lparr>outstanding := outstanding st - to_int bytes, available := available st + to_int bytes\<rparr>),
      connectionAvailable := connectionAvailable f + to_int bytes\<rparr>))"
proof -
  have "0 < to_int bytes" using assms(2) by (auto dest: positive_intD)
  then have "connectionAvailable f + to_int bytes \<le> initialConnectionBytes f"
    using flow_pre_within_initial [OF update_pre [OF assms(1,3) _ assms(4)]] by simp
  with assms show ?thesis by (simp add: update_credit_def Let_def split_beta map_prod_def)
qed

lemma update_inv:
  assumes "flow_inv f"
  shows "flow_inv (snd (update_credit f sid bytes))"
    and "fst (update_credit f sid bytes) \<noteq> Inl ConnectionExceedsMaximum"
proof -
  have "flow_inv (snd (update_credit f sid bytes)) \<and>
    fst (update_credit f sid bytes) \<noteq> Inl ConnectionExceedsMaximum"
  proof (cases "\<exists>st. positive_int bytes \<and> map_get (streams f) sid = Some st \<and> to_int bytes \<le> outstanding st")
    case True
    then obtain st where ok: "positive_int bytes" "map_get (streams f) sid = Some st"
      "to_int bytes \<le> outstanding st" by auto
    have "0 < to_int bytes" using ok(1) by (auto dest: positive_intD)
    then show ?thesis
      using update_credit_eq [OF assms ok] drainWaiters_inv(1) [OF update_pre [OF assms ok(2) _ ok(3)]]
      by (simp add: map_prod_def split_beta)
  next
    case False
    with assms show ?thesis
      by (cases "map_get (streams f) sid") (auto simp: update_credit_def)
  qed
  then show "flow_inv (snd (update_credit f sid bytes))"
    "fst (update_credit f sid bytes) \<noteq> Inl ConnectionExceedsMaximum" by auto
qed

lemma closeStream_inv: "flow_inv f \<Longrightarrow> flow_inv (snd (closeStream f sid))"
  by (cases "map_get (streams f) sid")
    (auto simp: closeStream_def Let_def split_beta intro!: drainWaiters_inv closeStream_pre)

lemma close_window_inv: "flow_inv f \<Longrightarrow> flow_inv (snd (close_window f))"
  using flow_pre_within_initial [OF flow_inv_pre]
  by (cases "closed f") (auto simp: close_window_def flow_inv_def credits_ok_def)

lemma flow_step_inv: "flow_inv f \<Longrightarrow> flow_inv (flow_step f x)"
  by (cases x) (simp_all add: flow_step_def openStream_inv take_inv update_inv closeStream_inv close_window_inv)

lemma new_outboundFlow_inv: "new_outboundFlow bytes = Inr f \<Longrightarrow> flow_inv f"
  by (auto simp: new_outboundFlow_def flow_inv_def credits_ok_def dest: positive_intD split: if_splits)

interpretation flow: invariant_machine "\<lambda>f. \<exists>bytes. new_outboundFlow bytes = Inr f" flow_step flow_inv
  by unfold_locales (auto simp: new_outboundFlow_inv flow_step_inv)

lemma drainWaiters_frame:
  "initialConnectionBytes (snd (drainWaiters f)) = initialConnectionBytes f"
  "closed (snd (drainWaiters f)) = closed f"
  by (simp_all add: drainWaiters_def split_beta Let_def)

lemma flow_step_initial: "initialConnectionBytes (flow_step f x) = initialConnectionBytes f"
  by (cases x) (simp_all add: flow_step_def openStream_def take_credit_def update_credit_def
      closeStream_def close_window_def Let_def split_beta drainWaiters_frame split: option.splits)

lemma flow_run_initial:
  assumes "new_outboundFlow bytes = Inr f"
  shows "initialConnectionBytes (run_machine flow_step f ops) = to_int bytes"
  using flow.run_keeps_constant [of initialConnectionBytes f ops] new_outboundFlow_inv [OF assms] assms
  by (auto simp: flow_step_initial new_outboundFlow_def split: if_splits)



text \<open>
  C26. No lost wake-up. In every reachable state a call that is still waiting cannot be served: its
  stream is open and either that stream or the connection has no credit at all.
\<close>

theorem flow_no_lost_wakeup:
  assumes "new_outboundFlow bytes = Inr f0" and "f = run_machine flow_step f0 ops"
    and "w \<in> set (waiters f)"
  shows "\<exists>st. map_get (streams f) (w_streamId w) = Some st \<and>
    (available st = 0 \<or> connectionAvailable f = 0)"
proof -
  have "flow_inv f" using assms flow.run_inv by blast
  with assms(3) show ?thesis by (auto simp: flow_inv_def blocked_def split: option.splits)
qed

theorem flow_no_lost_wakeup_witness:
  "\<exists>st. map_get (streams (run_machine flow_step
      \<lparr>initialConnectionBytes = 100, connectionAvailable = 100, streams = [], waiters = [], closed = False\<rparr>
      [OpenStream (Integral 1) (Integral 60), Take 1 (Integral 80) 0, Take 1 (Integral 10) 1])) 1 = Some st \<and>
    (available st = 0 \<or> (40 :: int) = 0)"
  using flow_no_lost_wakeup [of "Integral 100" _ _
      "[OpenStream (Integral 1) (Integral 60), Take 1 (Integral 80) 0, Take 1 (Integral 10) 1]"
      "\<lparr>w_streamId = 1, w_maximumBytes = 10, w_ticket = 1\<rparr>",
      OF _ refl]
  by (simp add: new_outboundFlow_def guard_simps flow_step_def openStream_def take_credit_def
      drainWaiters_def)

text \<open>
  The over-credit check is dead code. On every reachable window \<^verbatim>\<open>update\<close> either succeeds or
  throws before it has changed anything; the check it makes after crediting the connection never
  fires, so a rejected WINDOW_UPDATE leaves the window as it was.
\<close>

theorem flow_update_atomic:
  assumes "new_outboundFlow bytes = Inr f0" and "f = run_machine flow_step f0 ops"
    and "update_credit f sid n = (Inl e, f')"
  shows "e \<noteq> ConnectionExceedsMaximum \<and> f' = f"
proof -
  have "flow_inv f" using assms flow.run_inv by blast
  then have "fst (update_credit f sid n) \<noteq> Inl ConnectionExceedsMaximum" by (rule update_inv)
  with assms(3) show ?thesis
    by (auto simp: update_credit_def Let_def split_beta split: option.splits if_splits)
qed

theorem flow_update_atomic_witness:
  "UpdateExceedsOutstanding \<noteq> ConnectionExceedsMaximum \<and>
    \<lparr>initialConnectionBytes = 100, connectionAvailable = 100,
      streams = [(1, \<lparr>available = 60, outstanding = 0\<rparr>)], waiters = [], closed = False\<rparr> =
    run_machine flow_step
      \<lparr>initialConnectionBytes = 100, connectionAvailable = 100, streams = [], waiters = [], closed = False\<rparr>
      [OpenStream (Integral 1) (Integral 60)]"
  using flow_update_atomic [of "Integral 100" _ _ "[OpenStream (Integral 1) (Integral 60)]" 1
      "Integral 5", OF _ refl]
  by (simp add: new_outboundFlow_def guard_simps flow_step_def openStream_def update_credit_def
      drainWaiters_def)

end
