(* ===== verification/Carrier.thy ===== *)
theory Carrier
  imports Envelope FlowWindow
begin

text \<open>
  Sending on the carrier, \<^verbatim>\<open>packages/relay/src/carrier.ts\<close>. The socket is a third-party object: what a
  call observes of it, whether it is open, how much it buffers and the error its \<^verbatim>\<open>send\<close> callback
  reports, is a record handed to the model. \<^verbatim>\<open>sendFlowControlledData\<close> awaits the flow window once per
  round; the outcomes of the awaits so far are a list, and a run whose list ends before the data is
  sent is still waiting.
\<close>

definition MAX_DATA_CHUNK_BYTES :: int where
  "MAX_DATA_CHUNK_BYTES = 32 * 1024"

definition MAX_CARRIER_BUFFERED_BYTES :: int where
  "MAX_CARRIER_BUFFERED_BYTES = 1024 * 1024"

definition INITIAL_STREAM_WINDOW_BYTES :: int where
  "INITIAL_STREAM_WINDOW_BYTES = 64 * 1024"

definition INITIAL_CONNECTION_WINDOW_BYTES :: int where
  "INITIAL_CONNECTION_WINDOW_BYTES = 256 * 1024"

record carrierSocket =
  readyState :: int
  bufferedAmount :: int
  sendError :: "string option"

record carrierInput =
  ci_type :: frameType
  ci_flags :: "number option"
  ci_generation :: number
  ci_streamId :: number
  ci_payload :: "byte list option"

datatype carrierError =
    CarrierNotOpen
  | EnvelopeRejected envelopeRangeError
  | BufferedLimitExceeded
  | SocketError string
  | TakeRejected flowWindowError

definition sendCarrierFrame :: "carrierSocket \<Rightarrow> carrierInput \<Rightarrow> carrierError + byte list" where
  "sendCarrierFrame socket input =
    (if readyState socket \<noteq> 1 then Inl CarrierNotOpen
     else case encodeEnvelope \<lparr>envType = ci_type input,
         envFlags = (case ci_flags input of Some f \<Rightarrow> f | None \<Rightarrow> Integral 0),
         envGeneration = ci_generation input, envStreamId = ci_streamId input,
         envPayload = (case ci_payload input of Some p \<Rightarrow> p | None \<Rightarrow> [])\<rparr> of
       Inl e \<Rightarrow> Inl (EnvelopeRejected e)
     | Inr encoded \<Rightarrow>
         if bufferedAmount socket + int (length encoded) > MAX_CARRIER_BUFFERED_BYTES
         then Inl BufferedLimitExceeded
         else case sendError socket of Some e \<Rightarrow> Inl (SocketError e) | None \<Rightarrow> Inr encoded)"

text \<open>How far a call of \<^verbatim>\<open>sendFlowControlledData\<close> got, with the frames it put on the carrier.\<close>

datatype sendProgress =
    Sent "byte list list"
  | Waiting "byte list list"
  | Failed "byte list list" carrierError

fun progress_frames :: "sendProgress \<Rightarrow> byte list list" where
  "progress_frames (Sent fs) = fs"
| "progress_frames (Waiting fs) = fs"
| "progress_frames (Failed fs e) = fs"

definition data_input :: "number \<Rightarrow> number \<Rightarrow> byte list \<Rightarrow> carrierInput" where
  "data_input generation streamId payload =
    \<lparr>ci_type = Data, ci_flags = None, ci_generation = generation, ci_streamId = streamId,
     ci_payload = Some payload\<rparr>"

text \<open>
  One round per outcome of \<^verbatim>\<open>window.take\<close>, with the socket as it is when the frame is sent;
  \<^verbatim>\<open>subarray(offset, offset + bytes)\<close> is what follows the offset, cut to the granted size.
\<close>

fun send_rounds ::
    "number \<Rightarrow> number \<Rightarrow> byte list \<Rightarrow> (flowWindowError + nat) list \<Rightarrow> carrierSocket list \<Rightarrow> nat \<Rightarrow>
     byte list list \<Rightarrow> sendProgress" where
  "send_rounds generation streamId chunk takes sockets offset sent =
    (if offset < length chunk then
       (case takes of
          [] \<Rightarrow> Waiting sent
        | Inl e # _ \<Rightarrow> Failed sent (TakeRejected e)
        | Inr bytes # takes' \<Rightarrow>
            (case sockets of
               [] \<Rightarrow> Waiting sent
             | socket # sockets' \<Rightarrow>
                 (case sendCarrierFrame socket (data_input generation streamId (take bytes (drop offset chunk))) of
                    Inl e \<Rightarrow> Failed sent e
                  | Inr frame \<Rightarrow>
                      send_rounds generation streamId chunk takes' sockets' (offset + bytes) (sent @ [frame]))))
     else Sent sent)"

declare send_rounds.simps [simp del]

definition sendFlowControlledData ::
    "carrierSocket list \<Rightarrow> (flowWindowError + nat) list \<Rightarrow> number \<Rightarrow> number \<Rightarrow> byte list \<Rightarrow> sendProgress" where
  "sendFlowControlledData sockets takes generation streamId chunk =
    send_rounds generation streamId chunk takes sockets 0 []"

text \<open>What the \<open>k\<close>-th round asks the window for.\<close>

definition take_request :: "byte list \<Rightarrow> nat \<Rightarrow> int" where
  "take_request chunk offset = min MAX_DATA_CHUNK_BYTES (int (length chunk) - int offset)"

section \<open>The window's side of the contract\<close>

text \<open>
  The contract of the awaited \<^verbatim>\<open>take\<close>: a grant is positive and at most what was asked for. The window
  keeps it: every settlement of a waiter of a reachable window is within the waiter's request.
\<close>

fun settlement_ok :: "settlement \<Rightarrow> bool" where
  "settlement_ok (Resolved w g) = (0 < g \<and> g \<le> w_maximumBytes w)"
| "settlement_ok (Rejected w e) = True"

lemma drain_settlements:
  assumes "drain conn ss ws = (conn', ss', kept, out)" "credits_ok conn ss" "\<forall>w \<in> set ws. 0 < w_maximumBytes w"
  shows "\<forall>x \<in> set out. settlement_ok x"
  using assms
proof (induction conn ss ws arbitrary: conn' ss' kept out rule: drain.induct)
  case (2 conn ss w ws)
  show ?case
  proof (cases "map_get ss (w_streamId w)")
    case None
    with 2 show ?thesis by (auto split: prod.splits)
  next
    case (Some st)
    let ?g = "min (w_maximumBytes w) (min (available st) conn)"
    have nonneg: "0 \<le> available st" "0 \<le> conn" "0 < w_maximumBytes w"
      using credits_okD [OF "2.prems"(2) Some] "2.prems" by (auto simp: credits_ok_def)
    show ?thesis
    proof (cases "?g = 0")
      case True
      then obtain kept' where rec: "drain conn ss ws = (conn', ss', kept', out)"
        using "2.prems"(1) Some by (auto split: prod.splits)
      then show ?thesis using "2.IH"(2) [OF Some refl True rec] "2.prems" by simp
    next
      case False
      let ?ss = "map_set ss (w_streamId w)
        (st\<lparr>available := available st - ?g, outstanding := outstanding st + ?g\<rparr>)"
      obtain out' where rec: "drain (conn - ?g) ?ss ws = (conn', ss', kept, out')" "out = Resolved w ?g # out'"
        using "2.prems"(1) Some False by (auto simp: Let_def split: prod.splits)
      have "credits_ok (conn - ?g) ?ss"
        using grant_shrinks [OF "2.prems"(2) Some, of ?g] nonneg by (simp add: credit_shrinks_def)
      then have "\<forall>x \<in> set out'. settlement_ok x"
        using "2.IH"(3) [OF Some refl False rec(1)] "2.prems"(3) by simp
      with nonneg False show ?thesis by (auto simp: rec(2))
    qed
  qed
qed simp

section \<open>What is on the carrier\<close>

lemma sendCarrierFrame_Inr:
  assumes "sendCarrierFrame socket (data_input g s p) = Inr frame"
  shows "encodeEnvelope \<lparr>envType = Data, envFlags = Integral 0, envGeneration = g, envStreamId = s, envPayload = p\<rparr>
      = Inr frame"
  using assms by (auto simp: sendCarrierFrame_def data_input_def split: if_splits sum.splits option.splits)

definition frame_payload :: "byte list \<Rightarrow> byte list" where
  "frame_payload frame = (case decodeEnvelope frame of Inl e \<Rightarrow> [] | Inr env \<Rightarrow> envPayload env)"

definition data_frame_of :: "number \<Rightarrow> number \<Rightarrow> byte list \<Rightarrow> bool" where
  "data_frame_of g s frame = (case decodeEnvelope frame of
     Inl e \<Rightarrow> False
   | Inr env \<Rightarrow> envType env = Data \<and> envGeneration env = g \<and> envStreamId env = s)"

lemma sent_frame:
  assumes "sendCarrierFrame socket (data_input g s p) = Inr frame"
  shows "data_frame_of g s frame" "frame_payload frame = p"
  using decode_encoded [OF sendCarrierFrame_Inr [OF assms]] by (simp_all add: data_frame_of_def frame_payload_def)

text \<open>A prefix of the chunk is on the carrier, in order and once, at every moment of the loop.\<close>

lemma send_rounds_prefix:
  assumes "concat (map frame_payload sent) = take offset chunk" "\<forall>f \<in> set sent. data_frame_of g s f"
  shows "let fs = progress_frames (send_rounds g s chunk takes sockets offset sent) in
    (\<forall>f \<in> set fs. data_frame_of g s f) \<and>
    concat (map frame_payload fs) = take (length (concat (map frame_payload fs))) chunk"
  using assms
proof (induction g s chunk takes sockets offset sent rule: send_rounds.induct)
  case (1 g s chunk takes sockets offset sent)
  note IH = 1(1) and unfold = send_rounds.simps [of g s chunk takes sockets offset sent]
  show ?case
  proof (cases "offset < length chunk")
    case more: True
    show ?thesis
    proof (cases takes)
      case (Cons t takes')
      show ?thesis
      proof (cases t)
        case (Inr n)
        show ?thesis
        proof (cases sockets)
          case socks: (Cons socket sockets')
          show ?thesis
          proof (cases "sendCarrierFrame socket (data_input g s (take n (drop offset chunk)))")
            case frame: (Inr frame)
            have "concat (map frame_payload (sent @ [frame])) = take (offset + n) chunk"
              using 1(2) sent_frame [OF frame] more by (simp add: take_add)
            moreover have "\<forall>f \<in> set (sent @ [frame]). data_frame_of g s f" using 1(3) sent_frame [OF frame] by simp
            moreover have "send_rounds g s chunk takes sockets offset sent =
                send_rounds g s chunk takes' sockets' (offset + n) (sent @ [frame])"
              unfolding unfold using more Cons Inr socks frame by simp
            ultimately show ?thesis using IH [OF more Cons Inr socks frame] by simp
          qed (use 1(2,3) arg_cong [OF unfold, of progress_frames] more Cons Inr socks in simp)
        qed (use 1(2,3) arg_cong [OF unfold, of progress_frames] more Cons Inr in simp)
      qed (use 1(2,3) arg_cong [OF unfold, of progress_frames] more Cons in simp)
    qed (use 1(2,3) arg_cong [OF unfold, of progress_frames] more in simp)
  qed (use 1(2,3) arg_cong [OF unfold, of progress_frames] in simp)
qed

lemma send_rounds_Sent_step:
  assumes "send_rounds g s chunk takes sockets offset sent = Sent fs" "offset < length chunk"
  shows "\<exists>n takes' socket sockets' frame. takes = Inr n # takes' \<and> sockets = socket # sockets' \<and>
    sendCarrierFrame socket (data_input g s (take n (drop offset chunk))) = Inr frame \<and>
    send_rounds g s chunk takes' sockets' (offset + n) (sent @ [frame]) = Sent fs"
  using assms unfolding send_rounds.simps [of g s chunk takes sockets offset sent]
  by (auto split: list.splits sum.splits)

lemma send_rounds_Sent:
  assumes "send_rounds g s chunk takes sockets offset sent = Sent fs"
    "concat (map frame_payload sent) = take offset chunk"
  shows "concat (map frame_payload fs) = chunk"
  using assms
proof (induction takes arbitrary: sockets offset sent)
  case Nil
  then have "\<not> offset < length chunk" using send_rounds_Sent_step by blast
  with Nil show ?case by (simp add: send_rounds.simps [of g s chunk])
next
  case (Cons t takes)
  show ?case
  proof (cases "offset < length chunk")
    case True
    with send_rounds_Sent_step [OF Cons.prems(1)] obtain n socket sockets' frame where
      step: "sendCarrierFrame socket (data_input g s (take n (drop offset chunk))) = Inr frame"
        "send_rounds g s chunk takes sockets' (offset + n) (sent @ [frame]) = Sent fs"
      by blast
    show ?thesis
      by (rule Cons.IH [OF step(2)]) (use Cons.prems(2) sent_frame [OF step(1)] in \<open>simp add: take_add\<close>)
  next
    case False
    with Cons.prems show ?thesis by (simp add: send_rounds.simps [of g s chunk])
  qed
qed

text \<open>
  Progress: when every await of the window grants something within the request and every socket
  accepts, the loop ends after at most as many rounds as there are bytes.
\<close>

definition socket_accepts :: "carrierSocket \<Rightarrow> bool" where
  "socket_accepts socket = (readyState socket = 1 \<and> sendError socket = None \<and>
    bufferedAmount socket + int HEADER_BYTES + MAX_DATA_CHUNK_BYTES \<le> MAX_CARRIER_BUFFERED_BYTES)"

lemma sendCarrierFrame_ok:
  assumes "socket_accepts socket" "int_between 0 0xffffffff g" "int_between 1 0xffffffff s"
    "int (length p) \<le> MAX_DATA_CHUNK_BYTES"
  shows "\<exists>frame. sendCarrierFrame socket (data_input g s p) = Inr frame"
proof -
  obtain i j where g: "g = Integral i" "0 \<le> i" "i < 4294967296" and s: "s = Integral j" "0 < j" "j < 4294967296"
    using assms(2,3) by (cases g; cases s) (auto simp: guard_simps)
  have "encodeEnvelope \<lparr>envType = Data, envFlags = Integral 0, envGeneration = g, envStreamId = s, envPayload = p\<rparr>
      = Inr (frame_layout 12 0 i j p)"
    using g s assms(4)
    by (simp add: encodeEnvelope_Inr CONTROL_FRAME_TYPES_def EMPTY_PAYLOAD_FRAME_TYPES_def MAX_DATA_CHUNK_BYTES_def)
  moreover have "int (length (frame_layout 12 0 i j p)) \<le> int HEADER_BYTES + MAX_DATA_CHUNK_BYTES"
    using assms(4) by (simp add: length_frame_layout HEADER_BYTES_def)
  ultimately show ?thesis
    using assms(1) by (simp add: sendCarrierFrame_def data_input_def socket_accepts_def)
qed

text \<open>The awaits all grant something, within what the loop asks for at its current offset.\<close>

fun grants_ok :: "byte list \<Rightarrow> nat \<Rightarrow> (flowWindowError + nat) list \<Rightarrow> bool" where
  "grants_ok chunk offset [] = True"
| "grants_ok chunk offset (Inl e # takes) = False"
| "grants_ok chunk offset (Inr n # takes) = (offset < length chunk \<longrightarrow>
     0 < n \<and> int n \<le> take_request chunk offset \<and> grants_ok chunk (offset + n) takes)"

lemma send_rounds_progress:
  assumes "grants_ok chunk offset takes" "\<forall>socket \<in> set sockets. socket_accepts socket"
    "length chunk - offset \<le> length takes" "length chunk - offset \<le> length sockets"
    "int_between 0 0xffffffff g" "int_between 1 0xffffffff s"
  shows "\<exists>fs. send_rounds g s chunk takes sockets offset sent = Sent fs"
  using assms
proof (induction takes arbitrary: sockets offset sent)
  case Nil
  then show ?case by (simp add: send_rounds.simps [of g s chunk])
next
  case (Cons t takes)
  show ?case
  proof (cases "offset < length chunk")
    case more: True
    with Cons.prems obtain n where n: "t = Inr n" "0 < n" "int n \<le> take_request chunk offset"
      "grants_ok chunk (offset + n) takes" by (cases t) auto
    from more Cons.prems(4) obtain socket sockets' where socks: "sockets = socket # sockets'"
      by (cases sockets) auto
    have len: "int (length (take n (drop offset chunk))) \<le> MAX_DATA_CHUNK_BYTES"
      using n(3) by (auto simp: take_request_def min_def split: if_splits)
    have accepts: "socket_accepts socket" using Cons.prems(2) socks by simp
    obtain frame where frame: "sendCarrierFrame socket (data_input g s (take n (drop offset chunk))) = Inr frame"
      using sendCarrierFrame_ok [OF accepts Cons.prems(5,6) len] by blast
    have "\<exists>fs. send_rounds g s chunk takes sockets' (offset + n) (sent @ [frame]) = Sent fs"
      by (rule Cons.IH) (use n socks Cons.prems in auto)
    with more n socks frame show ?thesis by (simp add: send_rounds.simps [of g s chunk])
  qed (simp add: send_rounds.simps [of g s chunk])
qed

section \<open>Properties\<close>

text \<open>
  C27. Body data is chunked without loss. Whatever the awaits of the flow window and the socket do,
  the frames that \<^verbatim>\<open>sendFlowControlledData\<close> has put on the carrier all decode to DATA frames of its
  stream and generation, and their payloads in order are a prefix of the chunk; when the call
  returns, they are the whole chunk.
\<close>

theorem send_data_reassembles:
  "let r = sendFlowControlledData sockets takes g s chunk; payloads = concat (map frame_payload (progress_frames r)) in
    list_all (data_frame_of g s) (progress_frames r) \<and>
    payloads = take (length payloads) chunk \<and>
    (case r of Sent fs \<Rightarrow> payloads = chunk | _ \<Rightarrow> True)"
proof -
  note p = send_rounds_prefix [of "[]" 0 chunk g s takes sockets]
  show ?thesis
  proof (cases "sendFlowControlledData sockets takes g s chunk")
    case (Sent fs)
    then show ?thesis
      using p send_rounds_Sent [of g s chunk takes sockets 0 "[]" fs]
      by (simp add: sendFlowControlledData_def list_all_iff Let_def)
  qed (use p in \<open>simp_all add: sendFlowControlledData_def list_all_iff Let_def\<close>)
qed

text \<open>
  C28. Sending makes progress. If every await of the window grants a positive amount within the
  request, as \<^verbatim>\<open>drainWaiters\<close> does, and the socket is open, not failing and has room for one more
  frame, then the call returns after at most as many rounds as the chunk has bytes, with the whole
  chunk sent.
\<close>

theorem send_data_returns:
  assumes "grants_ok chunk 0 takes" and "list_all socket_accepts sockets"
    and "length chunk \<le> length takes" and "length chunk \<le> length sockets"
    and "int_between 0 0xffffffff g" and "int_between 1 0xffffffff s"
  shows "\<exists>fs. sendFlowControlledData sockets takes g s chunk = Sent fs \<and> concat (map frame_payload fs) = chunk"
proof -
  obtain fs where fs: "send_rounds g s chunk takes sockets 0 [] = Sent fs"
    using send_rounds_progress [of chunk 0 takes sockets g s "[]"] assms by (auto simp: list_all_iff)
  with send_rounds_Sent [OF fs] show ?thesis by (simp add: sendFlowControlledData_def)
qed

theorem send_data_returns_witness:
  "\<exists>fs. sendFlowControlledData
      (replicate 3 \<lparr>readyState = 1, bufferedAmount = 0, sendError = None\<rparr>) [Inr 2, Inr 1, Inr 1]
      (Integral 1) (Integral 5) [7, 8, 9] = Sent fs \<and> concat (map frame_payload fs) = [7, 8, 9]"
  by (rule send_data_returns)
    (simp_all add: numeral_3_eq_3 socket_accepts_def take_request_def MAX_DATA_CHUNK_BYTES_def MAX_CARRIER_BUFFERED_BYTES_def
      HEADER_BYTES_def int_between_Int)

end
