(* ===== verification/RetiredData.thy ===== *)
theory RetiredData
  imports Prelude
begin

text \<open>
  The allowance for DATA that arrives after its stream was reset locally,
  \<^verbatim>\<open>packages/relay/src/retired-data-budget.ts\<close>, class \<^verbatim>\<open>RetiredDataBudget\<close>: a connection-wide budget of
  bytes and frames, and a bounded map of per-stream allowances that evicts its oldest entry. The
  lemmas bound what a peer can send into reset streams over the life of a connection.
\<close>

record retiredBudget =
  maximumBytes :: int
  maximumTrackedStreams :: int
  remainingBytes :: int
  streamBytes :: "(int, int) jsmap"
  remainingFrames :: int

datatype retiredError = RetiredRangeError | FrameBudgetExhausted | ByteBudgetExhausted

definition new_retiredBudget :: "number \<Rightarrow> number \<Rightarrow> retiredError + retiredBudget" where
  "new_retiredBudget bytes frames =
    (if \<not> positive_safe_int bytes then Inl RetiredRangeError
     else if \<not> positive_safe_int frames then Inl RetiredRangeError
     else Inr \<lparr>maximumBytes = to_int bytes, maximumTrackedStreams = to_int frames,
       remainingBytes = to_int bytes, streamBytes = [], remainingFrames = to_int frames\<rparr>)"

definition allow :: "retiredBudget \<Rightarrow> number \<Rightarrow> number \<Rightarrow> (retiredError + unit) \<times> retiredBudget" where
  "allow b streamId bytes =
    (if \<not> positive_safe_int streamId then (Inl RetiredRangeError, b)
     else if \<not> isSafeInteger bytes \<or> to_int bytes < 0 then (Inl RetiredRangeError, b)
     else if to_int bytes = 0 \<or> remainingFrames b = 0 \<or> remainingBytes b = 0 \<or>
       map_has (streamBytes b) (to_int streamId) then (Inr (), b)
     else
       let tracked = (if map_size (streamBytes b) \<ge> maximumTrackedStreams b
             then (case map_keys (streamBytes b) of
                 [] \<Rightarrow> streamBytes b
               | oldest # _ \<Rightarrow> map_delete (streamBytes b) oldest)
             else streamBytes b)
       in (Inr (), b\<lparr>streamBytes := map_set tracked (to_int streamId) (min (to_int bytes) (maximumBytes b))\<rparr>))"

definition consume_retired ::
    "retiredBudget \<Rightarrow> number \<Rightarrow> number \<Rightarrow> (retiredError + unit) \<times> retiredBudget" where
  "consume_retired b streamId bytes =
    (if \<not> positive_safe_int streamId then (Inl RetiredRangeError, b)
     else if \<not> positive_safe_int bytes then (Inl RetiredRangeError, b)
     else if remainingFrames b = 0 then (Inl FrameBudgetExhausted, b)
     else
       let availableBytes = (case map_get (streamBytes b) (to_int streamId) of Some n \<Rightarrow> n | None \<Rightarrow> 0) in
       if to_int bytes > availableBytes \<or> to_int bytes > remainingBytes b then (Inl ByteBudgetExhausted, b)
       else
         let frames = remainingFrames b - 1;
             left = remainingBytes b - to_int bytes;
             remaining = availableBytes - to_int bytes;
             tracked = map_delete (streamBytes b) (to_int streamId);
             tracked = (if frames = 0 \<or> left = 0 then []
               else if remaining > 0 then map_set tracked (to_int streamId) remaining
               else tracked)
         in (Inr (), b\<lparr>remainingFrames := frames, remainingBytes := left, streamBytes := tracked\<rparr>))"

datatype retiredOp = Allow number number | Consume number number

fun retired_op :: "retiredBudget \<Rightarrow> retiredOp \<Rightarrow> (retiredError + unit) \<times> retiredBudget" where
  "retired_op b (Allow sid n) = allow b sid n"
| "retired_op b (Consume sid n) = consume_retired b sid n"

definition retired_step :: "retiredBudget \<Rightarrow> retiredOp \<Rightarrow> retiredBudget" where
  "retired_step b x = snd (retired_op b x)"

section \<open>Invariant\<close>

definition retired_inv :: "retiredBudget \<Rightarrow> bool" where
  "retired_inv b = (wf_map (streamBytes b) \<and> 0 < maximumBytes b \<and> 0 < maximumTrackedStreams b \<and>
    0 \<le> remainingBytes b \<and> remainingBytes b \<le> maximumBytes b \<and>
    0 \<le> remainingFrames b \<and> remainingFrames b \<le> maximumTrackedStreams b \<and>
    map_size (streamBytes b) \<le> maximumTrackedStreams b \<and>
    (\<forall>n \<in> set (map_values (streamBytes b)). 0 < n \<and> n \<le> maximumBytes b))"

lemma length_map_delete_hd:
  "wf_map m \<Longrightarrow> map_keys m = k # ks \<Longrightarrow> Suc (length (map_delete m k)) = length m"
  by (cases m) auto

lemma tracked_room:
  assumes "wf_map m" "map_size m \<le> limit" "0 < limit"
  shows "map_size (if map_size m \<ge> limit
      then (case map_keys m of [] \<Rightarrow> m | oldest # _ \<Rightarrow> map_delete m oldest) else m) < limit"
  using assms length_map_delete_hd [of m] by (auto split: list.splits)

lemma allow_ok:
  "positive_safe_int sid \<Longrightarrow> 0 \<le> n \<Longrightarrow> n \<le> MAX_SAFE_INTEGER \<Longrightarrow> fst (allow b sid (Integral n)) = Inr ()"
  by (simp add: allow_def Let_def)

lemma allow_inv: "retired_inv b \<Longrightarrow> retired_inv (snd (allow b sid n))"
proof -
  assume inv: "retired_inv b"
  let ?m = "if map_size (streamBytes b) \<ge> maximumTrackedStreams b
    then (case map_keys (streamBytes b) of [] \<Rightarrow> streamBytes b
      | oldest # _ \<Rightarrow> map_delete (streamBytes b) oldest) else streamBytes b"
  have room: "map_size ?m < maximumTrackedStreams b"
    using inv by (intro tracked_room) (auto simp: retired_inv_def)
  have wf: "wf_map ?m" and sub: "set ?m \<subseteq> set (streamBytes b)"
    using inv by (auto simp: retired_inv_def in_map_delete split: list.splits)
  have "retired_inv (b\<lparr>streamBytes := map_set ?m (to_int sid) (min (to_int n) (maximumBytes b))\<rparr>)"
    if "0 < to_int n"
    using inv room wf sub that
    by (auto simp: retired_inv_def length_map_set in_map_set split del: if_split split: if_splits)
  with inv show ?thesis
    unfolding allow_def Let_def by auto
qed

text \<open>An accepted late frame: it was covered by the stream's allowance and by both budgets.\<close>

lemma consume_retired_Inr:
  assumes "consume_retired b sid n = (Inr (), b')"
  obtains bytes left tracked where "n = Integral bytes" "0 < bytes" "bytes \<le> remainingBytes b"
    "remainingFrames b \<noteq> 0" "map_get (streamBytes b) (to_int sid) = Some left" "bytes \<le> left"
    "tracked = [] \<or> tracked = map_delete (streamBytes b) (to_int sid) \<or>
      left - bytes > 0 \<and> tracked = map_set (map_delete (streamBytes b) (to_int sid)) (to_int sid) (left - bytes)"
    "b' = b\<lparr>remainingFrames := remainingFrames b - 1, remainingBytes := remainingBytes b - bytes,
      streamBytes := tracked\<rparr>"
proof -
  from assms have pos: "positive_safe_int n" by (auto simp: consume_retired_def split: if_splits)
  then obtain bytes where n: "n = Integral bytes" "0 < bytes" by (metis positive_safe_intD)
  from assms n show ?thesis
    by (cases "map_get (streamBytes b) (to_int sid)")
      (auto simp: consume_retired_def Let_def intro: that split: if_splits)
qed

lemma consume_retired_Inl: "consume_retired b sid n = (Inl e, b') \<Longrightarrow> b' = b"
  by (auto simp: consume_retired_def Let_def split: if_splits)

lemma consume_retired_inv: "retired_inv b \<Longrightarrow> retired_inv (snd (consume_retired b sid n))"
proof (cases "consume_retired b sid n")
  case (Pair r b')
  assume inv: "retired_inv b"
  show ?thesis
  proof (cases r)
    case (Inl e)
    with Pair inv show ?thesis by (auto dest: consume_retired_Inl)
  next
    case (Inr u)
    with Pair have "consume_retired b sid n = (Inr (), b')" by simp
    then obtain bytes left tracked where pos: "0 < bytes" "bytes \<le> remainingBytes b" "remainingFrames b \<noteq> 0"
      and left: "map_get (streamBytes b) (to_int sid) = Some left" "bytes \<le> left"
      and tracked: "tracked = [] \<or> tracked = map_delete (streamBytes b) (to_int sid) \<or>
        left - bytes > 0 \<and> tracked = map_set (map_delete (streamBytes b) (to_int sid)) (to_int sid) (left - bytes)"
      and b': "b' = b\<lparr>remainingFrames := remainingFrames b - 1, remainingBytes := remainingBytes b - bytes,
        streamBytes := tracked\<rparr>"
      by (rule consume_retired_Inr)
    have "length (map_delete (streamBytes b) (to_int sid)) < length (streamBytes b)"
      using left(1) by (simp add: length_map_delete_less)
    then have size: "length tracked \<le> length (streamBytes b)"
      using tracked by (auto simp: length_map_set jsmap_simps)
    have "left \<le> maximumBytes b" using inv map_get_in_values [OF left(1)] by (auto simp: retired_inv_def)
    then have "\<forall>v \<in> set (map_values tracked). 0 < v \<and> v \<le> maximumBytes b"
      using tracked inv pos by (auto simp: retired_inv_def in_map_set in_map_delete split: if_splits)
    moreover have "wf_map tracked" using tracked inv by (auto simp: retired_inv_def)
    ultimately show ?thesis
      using inv pos size Pair by (auto simp: retired_inv_def b')
  qed
qed

lemma retired_step_inv: "retired_inv b \<Longrightarrow> retired_inv (retired_step b x)"
  by (cases x) (simp_all add: retired_step_def allow_inv consume_retired_inv)

lemma new_retiredBudget_inv: "new_retiredBudget bytes frames = Inr b \<Longrightarrow> retired_inv b"
  by (auto simp: new_retiredBudget_def retired_inv_def dest: positive_safe_intD split: if_splits)

interpretation retired: invariant_machine
  "\<lambda>b. \<exists>bytes frames. new_retiredBudget bytes frames = Inr b" retired_step retired_inv
  by unfold_locales (auto simp: new_retiredBudget_inv retired_step_inv)

text \<open>The sizes of the late frames that were accepted during a run.\<close>

fun accepted_bytes :: "retiredBudget \<Rightarrow> retiredOp list \<Rightarrow> int list" where
  "accepted_bytes b [] = []"
| "accepted_bytes b (Consume sid n # ops) =
     (if fst (consume_retired b sid n) = Inr () then [to_int n] else [])
       @ accepted_bytes (retired_step b (Consume sid n)) ops"
| "accepted_bytes b (x # ops) = accepted_bytes (retired_step b x) ops"

lemma allow_frame:
  "remainingBytes (snd (allow b sid n)) = remainingBytes b"
  "remainingFrames (snd (allow b sid n)) = remainingFrames b"
  by (simp_all add: allow_def Let_def)

lemma accepted_bytes_run:
  "sum_list (accepted_bytes b ops) = remainingBytes b - remainingBytes (run_machine retired_step b ops) \<and>
   int (length (accepted_bytes b ops)) = remainingFrames b - remainingFrames (run_machine retired_step b ops)"
proof (induction ops arbitrary: b)
  case Nil
  then show ?case by simp
next
  case (Cons x ops)
  show ?case
  proof (cases x)
    case (Allow sid n)
    with Cons show ?thesis by (simp add: retired_step_def allow_frame)
  next
    case (Consume sid n)
    obtain r b' where c: "consume_retired b sid n = (r, b')" by fastforce
    show ?thesis
    proof (cases r)
      case (Inl e)
      with c Consume Cons show ?thesis by (auto simp: retired_step_def dest: consume_retired_Inl)
    next
      case (Inr u)
      with c have "consume_retired b sid n = (Inr (), b')" by simp
      then show ?thesis
        by (rule consume_retired_Inr) (use c Inr Consume Cons in \<open>simp add: retired_step_def\<close>)
    qed
  qed
qed

text \<open>
  A peer can push only a bounded amount into reset streams. Over the whole life of a connection,
  however streams are retired and late frames arrive, the accepted late frames are at most the frame
  budget in number and at most the byte budget in total, and the allowance table never holds more
  entries than the frame budget.
\<close>

theorem retired_data_bounded:
  assumes "new_retiredBudget bytes frames = Inr b"
  shows "sum_list (accepted_bytes b ops) \<le> to_int bytes \<and>
    int (length (accepted_bytes b ops)) \<le> to_int frames \<and>
    map_size (streamBytes (run_machine retired_step b ops)) \<le> maximumTrackedStreams (run_machine retired_step b ops)"
proof -
  have "retired_inv (run_machine retired_step b ops)" using assms retired.run_inv by blast
  with accepted_bytes_run [of b ops] assms show ?thesis
    by (auto simp: retired_inv_def new_retiredBudget_def split: if_splits)
qed

theorem retired_data_bounded_witness:
  "\<exists>b. new_retiredBudget (Integral 10) (Integral 2) = Inr b \<and>
    accepted_bytes b [Allow (Integral 1) (Integral 8), Consume (Integral 1) (Integral 3),
      Consume (Integral 1) (Integral 9)] = [3] \<and>
    sum_list (accepted_bytes b [Allow (Integral 1) (Integral 8), Consume (Integral 1) (Integral 3),
      Consume (Integral 1) (Integral 9)]) \<le> 10"
proof -
  let ?b = "\<lparr>maximumBytes = 10, maximumTrackedStreams = 2, remainingBytes = 10, streamBytes = [], remainingFrames = 2\<rparr>"
  let ?ops = "[Allow (Integral 1) (Integral 8), Consume (Integral 1) (Integral 3), Consume (Integral 1) (Integral 9)]"
  have ok: "new_retiredBudget (Integral 10) (Integral 2) = Inr ?b"
    by (simp add: new_retiredBudget_def guard_simps MAX_SAFE_INTEGER_def)
  have "accepted_bytes ?b ?ops = [3]"
    by (simp add: retired_step_def allow_def consume_retired_def guard_simps MAX_SAFE_INTEGER_def)
  moreover have "sum_list (accepted_bytes ?b ?ops) \<le> 10"
    using retired_data_bounded [OF ok, of ?ops] unfolding to_int.simps by (elim conjE)
  ultimately show ?thesis using ok by (intro exI [of _ ?b] conjI)
qed

end
