(* ===== verification/ReceiveWindow.thy ===== *)
theory ReceiveWindow
  imports RetiredData
begin

text \<open>
  The contract that both receive windows of the tunnel keep: the gateway's \<^verbatim>\<open>GatewayInboundFlow\<close>
  (which counts the credit that is left) and the client's \<^verbatim>\<open>InboundFlowWindow\<close> (which counts what was
  consumed). A client of the contract only sees, per open stream, its limit and the bytes consumed
  and not yet released, and the same for the connection. The lemmas of the locale are used by the
  end-to-end argument about a sender and a receiver, once for both implementations.
\<close>

locale receive_window =
  fixes open_stream :: "'w \<Rightarrow> number \<Rightarrow> number \<Rightarrow> ('e + unit) \<times> 'w"
    and consume :: "'w \<Rightarrow> int \<Rightarrow> number \<Rightarrow> ('e + unit) \<times> 'w"
    and release :: "'w \<Rightarrow> int \<Rightarrow> number \<Rightarrow> ('e + unit) \<times> 'w"
    and inv :: "'w \<Rightarrow> bool"
    and limit :: "'w \<Rightarrow> int \<Rightarrow> int option"
    and used :: "'w \<Rightarrow> int \<Rightarrow> int"
    and connection_limit :: "'w \<Rightarrow> int"
    and connection_used :: "'w \<Rightarrow> int"
    and room :: "'w \<Rightarrow> bool"
  assumes open_effect: "inv w \<Longrightarrow> open_stream w (Integral s) (Integral n) = (Inr (), w') \<Longrightarrow>
      inv w' \<and> limit w s = None \<and> limit w' = (limit w)(s \<mapsto> n) \<and> used w' = used w \<and>
      connection_limit w' = connection_limit w \<and> connection_used w' = connection_used w"
    and used_closed: "inv w \<Longrightarrow> limit w s = None \<Longrightarrow> used w s = 0"
    and consume_ok: "inv w \<Longrightarrow> limit w s = Some l \<Longrightarrow> 0 < n \<Longrightarrow> n \<le> MAX_SAFE_INTEGER \<Longrightarrow>
      used w s + n \<le> l \<Longrightarrow> connection_used w + n \<le> connection_limit w \<Longrightarrow> room w \<Longrightarrow>
      fst (consume w s (Integral n)) = Inr ()"
    and consume_effect: "inv w \<Longrightarrow> consume w s (Integral n) = (Inr (), w') \<Longrightarrow>
      inv w' \<and> 0 < n \<and> limit w' = limit w \<and> limit w s \<noteq> None \<and> used w' = (used w)(s := used w s + n) \<and>
      connection_limit w' = connection_limit w \<and> connection_used w' = connection_used w + n"
    and consume_reject: "inv w \<Longrightarrow> consume w s v = (Inl e, w') \<Longrightarrow> w' = w"
    and release_effect: "inv w \<Longrightarrow> release w s (Integral n) = (Inr (), w') \<Longrightarrow>
      inv w' \<and> 0 < n \<and> n \<le> used w s \<and> limit w' = limit w \<and> limit w s \<noteq> None \<and>
      used w' = (used w)(s := used w s - n) \<and>
      connection_limit w' = connection_limit w \<and> connection_used w' = connection_used w - n"
    and used_bounds: "inv w \<Longrightarrow> limit w s = Some l \<Longrightarrow> 0 \<le> used w s \<and> used w s \<le> l"
    and connection_bounds: "inv w \<Longrightarrow> 0 \<le> connection_used w \<and> connection_used w \<le> connection_limit w"
begin

text \<open>What a stream sends without a release fits its limit.\<close>

lemma consume_within_limit:
  assumes "inv w" "consume w s (Integral n) = (Inr (), w')"
  shows "\<exists>l. limit w s = Some l \<and> used w s + n \<le> l \<and> connection_used w + n \<le> connection_limit w"
proof -
  from consume_effect [OF assms] have eff: "inv w'" "limit w' = limit w" "limit w s \<noteq> None"
    "used w' = (used w)(s := used w s + n)" "connection_limit w' = connection_limit w"
    "connection_used w' = connection_used w + n" by simp_all
  then obtain l where l: "limit w s = Some l" by blast
  with used_bounds [of w' s l] connection_bounds [of w'] eff show ?thesis by simp
qed

text \<open>Releasing consumed bytes makes room for exactly as many again.\<close>

lemma consume_after_release:
  assumes "inv w" "release w s (Integral n) = (Inr (), w')" "n \<le> MAX_SAFE_INTEGER" "room w'"
  shows "fst (consume w' s (Integral n)) = Inr ()"
proof -
  from release_effect [OF assms(1,2)] have eff: "inv w'" "0 < n" "limit w' = limit w" "limit w s \<noteq> None"
    "used w' = (used w)(s := used w s - n)" "connection_limit w' = connection_limit w"
    "connection_used w' = connection_used w - n" by simp_all
  then obtain l where l: "limit w s = Some l" by blast
  with eff assms consume_ok [of w' s l n] used_bounds [of w s l] connection_bounds [of w]
  show ?thesis by simp
qed

end

end
