(* ===== verification/GatewayInbound.thy ===== *)
theory GatewayInbound
  imports ReceiveWindow
begin

text \<open>
  The gateway's receive window for response DATA, \<^verbatim>\<open>apps/gateway/src/inbound-flow.ts\<close>, class
  \<^verbatim>\<open>GatewayInboundFlow\<close>: credit per stream and per connection, and the budget for DATA that arrives
  after a stream was retired. The two checks the source makes after it has changed its counters are
  part of the model; the invariant shows that they never fire.
\<close>

record gatewayStreamCredit =
  initialBytes :: int
  availableBytes :: int
  outstandingBytes :: int

datatype gatewayInboundError =
    InboundRangeError
  | CreditAlreadyExists
  | CreditDoesNotExist
  | DataExceedsStreamCredit
  | DataExceedsConnectionCredit
  | ReleaseExceedsConsumed
  | ReceiveCreditExceedsMaximum
  | ConnectionCreditExceedsMaximum
  | InboundRetired retiredError

record gatewayInbound =
  inboundInitialBytes :: int
  inboundAvailable :: int
  inboundStreams :: "(int, gatewayStreamCredit) jsmap"
  retiredData :: retiredBudget

type_synonym inboundResult = "(gatewayInboundError + unit) \<times> gatewayInbound"

definition new_gatewayInbound :: "number \<Rightarrow> number \<Rightarrow> gatewayInboundError + gatewayInbound" where
  "new_gatewayInbound connectionBytes maximumFrames =
    (if \<not> positive_int connectionBytes then Inl InboundRangeError
     else if \<not> positive_int maximumFrames then Inl InboundRangeError
     else case new_retiredBudget connectionBytes maximumFrames of
         Inl e \<Rightarrow> Inl (InboundRetired e)
       | Inr budget \<Rightarrow> Inr \<lparr>inboundInitialBytes = to_int connectionBytes,
           inboundAvailable = to_int connectionBytes, inboundStreams = [], retiredData = budget\<rparr>)"

definition gateway_openStream :: "gatewayInbound \<Rightarrow> number \<Rightarrow> number \<Rightarrow> inboundResult" where
  "gateway_openStream w streamId initialStreamBytes =
    (if \<not> positive_int streamId then (Inl InboundRangeError, w)
     else if \<not> positive_int initialStreamBytes then (Inl InboundRangeError, w)
     else if map_has (inboundStreams w) (to_int streamId) then (Inl CreditAlreadyExists, w)
     else (Inr (), w\<lparr>inboundStreams := map_set (inboundStreams w) (to_int streamId)
       \<lparr>initialBytes = to_int initialStreamBytes, availableBytes = to_int initialStreamBytes,
         outstandingBytes = 0\<rparr>\<rparr>))"

definition gateway_consume :: "gatewayInbound \<Rightarrow> int \<Rightarrow> number \<Rightarrow> inboundResult" where
  "gateway_consume w streamId bytes =
    (if \<not> positive_int bytes then (Inl InboundRangeError, w)
     else case map_get (inboundStreams w) streamId of
         None \<Rightarrow> (Inl CreditDoesNotExist, w)
       | Some stream \<Rightarrow>
           if to_int bytes > availableBytes stream then (Inl DataExceedsStreamCredit, w)
           else if to_int bytes > inboundAvailable w then (Inl DataExceedsConnectionCredit, w)
           else (Inr (), w\<lparr>
             inboundStreams := map_set (inboundStreams w) streamId
               (stream\<lparr>availableBytes := availableBytes stream - to_int bytes,
                  outstandingBytes := outstandingBytes stream + to_int bytes\<rparr>),
             inboundAvailable := inboundAvailable w - to_int bytes\<rparr>))"

definition gateway_release :: "gatewayInbound \<Rightarrow> int \<Rightarrow> number \<Rightarrow> inboundResult" where
  "gateway_release w streamId bytes =
    (if \<not> positive_int bytes then (Inl InboundRangeError, w)
     else case map_get (inboundStreams w) streamId of
         None \<Rightarrow> (Inl CreditDoesNotExist, w)
       | Some stream \<Rightarrow>
           if to_int bytes > outstandingBytes stream then (Inl ReleaseExceedsConsumed, w)
           else
             let stream' = stream\<lparr>outstandingBytes := outstandingBytes stream - to_int bytes,
                   availableBytes := availableBytes stream + to_int bytes\<rparr>;
                 w' = w\<lparr>inboundStreams := map_set (inboundStreams w) streamId stream',
                   inboundAvailable := inboundAvailable w + to_int bytes\<rparr>
             in if availableBytes stream' > initialBytes stream' \<or>
                   inboundAvailable w' > inboundInitialBytes w'
                then (Inl ReceiveCreditExceedsMaximum, w') else (Inr (), w'))"

definition gateway_closeStream :: "gatewayInbound \<Rightarrow> int \<Rightarrow> inboundResult" where
  "gateway_closeStream w streamId =
    (case map_get (inboundStreams w) streamId of
       None \<Rightarrow> (Inr (), w)
     | Some stream \<Rightarrow>
         let w' = w\<lparr>inboundStreams := map_delete (inboundStreams w) streamId,
               inboundAvailable := inboundAvailable w + outstandingBytes stream\<rparr>
         in if inboundAvailable w' > inboundInitialBytes w'
            then (Inl ConnectionCreditExceedsMaximum, w') else (Inr (), w'))"

definition gateway_retireStream :: "gatewayInbound \<Rightarrow> int \<Rightarrow> inboundResult" where
  "gateway_retireStream w streamId =
    (case map_get (inboundStreams w) streamId of
       None \<Rightarrow> (Inr (), w)
     | Some stream \<Rightarrow>
         case allow (retiredData w) (Integral streamId)
             (Integral (min (availableBytes stream) (inboundAvailable w))) of
           (Inl e, budget) \<Rightarrow> (Inl (InboundRetired e), w\<lparr>retiredData := budget\<rparr>)
         | (Inr _, budget) \<Rightarrow> gateway_closeStream (w\<lparr>retiredData := budget\<rparr>) streamId)"

definition gateway_consumeRetiredData :: "gatewayInbound \<Rightarrow> int \<Rightarrow> number \<Rightarrow> inboundResult" where
  "gateway_consumeRetiredData w streamId bytes =
    (case consume_retired (retiredData w) (Integral streamId) bytes of
       (Inl e, budget) \<Rightarrow> (Inl (InboundRetired e), w\<lparr>retiredData := budget\<rparr>)
     | (Inr _, budget) \<Rightarrow> (Inr (), w\<lparr>retiredData := budget\<rparr>))"

datatype inboundOp =
    InOpen number number | InConsume int number | InRelease int number | InClose int
  | InRetire int | InRetired int number

fun gateway_inbound_op :: "gatewayInbound \<Rightarrow> inboundOp \<Rightarrow> inboundResult" where
  "gateway_inbound_op w (InOpen s n) = gateway_openStream w s n"
| "gateway_inbound_op w (InConsume s n) = gateway_consume w s n"
| "gateway_inbound_op w (InRelease s n) = gateway_release w s n"
| "gateway_inbound_op w (InClose s) = gateway_closeStream w s"
| "gateway_inbound_op w (InRetire s) = gateway_retireStream w s"
| "gateway_inbound_op w (InRetired s n) = gateway_consumeRetiredData w s n"

definition gateway_inbound_step :: "gatewayInbound \<Rightarrow> inboundOp \<Rightarrow> gatewayInbound" where
  "gateway_inbound_step w x = snd (gateway_inbound_op w x)"

section \<open>Invariant\<close>

definition credit_ok :: "gatewayStreamCredit \<Rightarrow> bool" where
  "credit_ok c = (0 \<le> availableBytes c \<and> 0 \<le> outstandingBytes c \<and>
    availableBytes c + outstandingBytes c = initialBytes c)"

definition gateway_inbound_inv :: "gatewayInbound \<Rightarrow> bool" where
  "gateway_inbound_inv w = (wf_map (inboundStreams w) \<and>
    (\<forall>(s, c) \<in> set (inboundStreams w). credit_ok c) \<and>
    0 \<le> inboundAvailable w \<and>
    inboundAvailable w + sum_values outstandingBytes (inboundStreams w) = inboundInitialBytes w \<and>
    retired_inv (retiredData w))"

lemma inbound_creditD:
  assumes "gateway_inbound_inv w" "map_get (inboundStreams w) s = Some c"
  shows "0 \<le> availableBytes c" "0 \<le> outstandingBytes c" "availableBytes c + outstandingBytes c = initialBytes c"
    "outstandingBytes c \<le> sum_values outstandingBytes (inboundStreams w)"
proof -
  from assms have mem: "(s, c) \<in> set (inboundStreams w)" by (blast dest: map_of_SomeD)
  with assms show "0 \<le> availableBytes c" "0 \<le> outstandingBytes c"
    "availableBytes c + outstandingBytes c = initialBytes c"
    by (auto simp: gateway_inbound_inv_def credit_ok_def)
  show "outstandingBytes c \<le> sum_values outstandingBytes (inboundStreams w)"
    using assms by (intro sum_values_ge_member) (auto simp: gateway_inbound_inv_def credit_ok_def)
qed

lemma outstanding_nonneg:
  "gateway_inbound_inv w \<Longrightarrow> 0 \<le> sum_values outstandingBytes (inboundStreams w)"
  by (intro sum_values_nonneg) (auto simp: gateway_inbound_inv_def credit_ok_def)

text \<open>Every successful or failing call has one of three effects on the window.\<close>

lemma inbound_inv_set:
  assumes "gateway_inbound_inv w" "credit_ok c" "0 \<le> a"
    and "a + (sum_values outstandingBytes (inboundStreams w) + outstandingBytes c -
      (case map_get (inboundStreams w) s of None \<Rightarrow> 0 | Some old \<Rightarrow> outstandingBytes old)) = inboundInitialBytes w"
  shows "gateway_inbound_inv (w\<lparr>inboundStreams := map_set (inboundStreams w) s c, inboundAvailable := a\<rparr>)"
  using assms
  by (auto simp: gateway_inbound_inv_def in_map_set sum_values_set_new sum_values_set_old
      split: option.splits if_splits)

lemma inbound_inv_budget: "gateway_inbound_inv w \<Longrightarrow> retired_inv b \<Longrightarrow> gateway_inbound_inv (w\<lparr>retiredData := b\<rparr>)"
  by (simp add: gateway_inbound_inv_def)

lemma inbound_invD:
  assumes "gateway_inbound_inv w"
  shows "0 \<le> inboundAvailable w"
    "inboundInitialBytes w = inboundAvailable w + sum_values outstandingBytes (inboundStreams w)"
    "retired_inv (retiredData w)"
  using assms by (simp_all add: gateway_inbound_inv_def)

lemma gateway_openStream_inv: "gateway_inbound_inv w \<Longrightarrow> gateway_inbound_inv (snd (gateway_openStream w s n))"
proof -
  assume inv: "gateway_inbound_inv w"
  have "gateway_inbound_inv (w\<lparr>inboundStreams := map_set (inboundStreams w) (to_int s)
      \<lparr>initialBytes = to_int n, availableBytes = to_int n, outstandingBytes = 0\<rparr>,
      inboundAvailable := inboundAvailable w\<rparr>)"
    if "positive_int n" "map_get (inboundStreams w) (to_int s) = None"
    by (rule inbound_inv_set [OF inv])
      (use that inbound_invD [OF inv] positive_intD [of n] in \<open>simp_all add: credit_ok_def\<close>)
  with inv show ?thesis by (simp add: gateway_openStream_def)
qed

lemma gateway_consume_inv: "gateway_inbound_inv w \<Longrightarrow> gateway_inbound_inv (snd (gateway_consume w s n))"
proof -
  assume inv: "gateway_inbound_inv w"
  have "gateway_inbound_inv (w\<lparr>inboundStreams := map_set (inboundStreams w) s
      (c\<lparr>availableBytes := availableBytes c - to_int n, outstandingBytes := outstandingBytes c + to_int n\<rparr>),
      inboundAvailable := inboundAvailable w - to_int n\<rparr>)"
    if "positive_int n" "map_get (inboundStreams w) s = Some c" "to_int n \<le> availableBytes c"
      "to_int n \<le> inboundAvailable w" for c
    by (rule inbound_inv_set [OF inv])
      (use that inbound_invD [OF inv] inbound_creditD [OF inv that(2)] positive_intD [of n]
       in \<open>simp_all add: credit_ok_def\<close>)
  with inv show ?thesis by (simp add: gateway_consume_def split: option.split)
qed

text \<open>The check after the update never fires.\<close>

lemma gateway_release_eq:
  assumes "gateway_inbound_inv w"
  shows "gateway_release w s n =
    (if \<not> positive_int n then (Inl InboundRangeError, w)
     else case map_get (inboundStreams w) s of
         None \<Rightarrow> (Inl CreditDoesNotExist, w)
       | Some c \<Rightarrow>
           if to_int n > outstandingBytes c then (Inl ReleaseExceedsConsumed, w)
           else (Inr (), w\<lparr>inboundStreams := map_set (inboundStreams w) s
               (c\<lparr>outstandingBytes := outstandingBytes c - to_int n, availableBytes := availableBytes c + to_int n\<rparr>),
             inboundAvailable := inboundAvailable w + to_int n\<rparr>))"
  using inbound_creditD [OF assms, of s] assms
  by (force simp: gateway_release_def gateway_inbound_inv_def Let_def split: option.splits)

lemma gateway_release_inv: "gateway_inbound_inv w \<Longrightarrow> gateway_inbound_inv (snd (gateway_release w s n))"
proof -
  assume inv: "gateway_inbound_inv w"
  have "gateway_inbound_inv (w\<lparr>inboundStreams := map_set (inboundStreams w) s
      (c\<lparr>outstandingBytes := outstandingBytes c - to_int n, availableBytes := availableBytes c + to_int n\<rparr>),
      inboundAvailable := inboundAvailable w + to_int n\<rparr>)"
    if "positive_int n" "map_get (inboundStreams w) s = Some c" "to_int n \<le> outstandingBytes c" for c
    by (rule inbound_inv_set [OF inv])
      (use that inbound_invD [OF inv] inbound_creditD [OF inv that(2)] positive_intD [of n]
       in \<open>simp_all add: credit_ok_def\<close>)
  with inv show ?thesis by (simp add: gateway_release_eq split: option.split)
qed

lemma gateway_closeStream_eq:
  assumes "gateway_inbound_inv w"
  shows "gateway_closeStream w s = (Inr (),
    case map_get (inboundStreams w) s of None \<Rightarrow> w
    | Some c \<Rightarrow> w\<lparr>inboundStreams := map_delete (inboundStreams w) s,
        inboundAvailable := inboundAvailable w + outstandingBytes c\<rparr>)"
  using inbound_creditD [OF assms, of s] assms
  by (force simp: gateway_closeStream_def gateway_inbound_inv_def Let_def split: option.splits)

lemma gateway_closeStream_inv: "gateway_inbound_inv w \<Longrightarrow> gateway_inbound_inv (snd (gateway_closeStream w s))"
  using inbound_creditD [of w s]
  by (auto simp: gateway_closeStream_eq gateway_inbound_inv_def in_map_delete sum_values_delete
      split: option.splits)

lemma gateway_retireStream_inv: "gateway_inbound_inv w \<Longrightarrow> gateway_inbound_inv (snd (gateway_retireStream w s))"
proof -
  assume inv: "gateway_inbound_inv w"
  then have "retired_inv (retiredData w)" by (simp add: gateway_inbound_inv_def)
  then have "gateway_inbound_inv (w\<lparr>retiredData := snd (allow (retiredData w) i j)\<rparr>)" for i j
    by (simp add: inv inbound_inv_budget allow_inv)
  with inv show ?thesis
    by (auto simp: gateway_retireStream_def gateway_closeStream_inv split: option.splits prod.splits sum.splits)
      (metis gateway_closeStream_inv snd_conv)+
qed

lemma gateway_consumeRetiredData_inv:
  "gateway_inbound_inv w \<Longrightarrow> gateway_inbound_inv (snd (gateway_consumeRetiredData w s n))"
  using consume_retired_inv [of "retiredData w" "Integral s" n]
  by (auto simp: gateway_consumeRetiredData_def gateway_inbound_inv_def split: prod.splits sum.splits)

lemma gateway_inbound_step_inv: "gateway_inbound_inv w \<Longrightarrow> gateway_inbound_inv (gateway_inbound_step w x)"
  by (cases x) (simp_all add: gateway_inbound_step_def gateway_openStream_inv gateway_consume_inv
      gateway_release_inv gateway_closeStream_inv gateway_retireStream_inv gateway_consumeRetiredData_inv)

lemma new_gatewayInbound_inv: "new_gatewayInbound n f = Inr w \<Longrightarrow> gateway_inbound_inv w"
  by (auto simp: new_gatewayInbound_def gateway_inbound_inv_def dest: positive_intD new_retiredBudget_inv
      split: if_splits sum.splits)

interpretation gateway_inbound: invariant_machine
  "\<lambda>w. \<exists>n f. new_gatewayInbound n f = Inr w" gateway_inbound_step gateway_inbound_inv
  by unfold_locales (auto simp: new_gatewayInbound_inv gateway_inbound_step_inv)

section \<open>The contract of a receive window\<close>

definition gateway_limit :: "gatewayInbound \<Rightarrow> int \<Rightarrow> int option" where
  "gateway_limit w s = map_option initialBytes (map_get (inboundStreams w) s)"

definition gateway_used :: "gatewayInbound \<Rightarrow> int \<Rightarrow> int" where
  "gateway_used w s = (case map_get (inboundStreams w) s of None \<Rightarrow> 0 | Some c \<Rightarrow> outstandingBytes c)"

definition gateway_connection_used :: "gatewayInbound \<Rightarrow> int" where
  "gateway_connection_used w = inboundInitialBytes w - inboundAvailable w"

interpretation gateway_window: receive_window gateway_openStream gateway_consume gateway_release gateway_inbound_inv
  gateway_limit gateway_used inboundInitialBytes gateway_connection_used "\<lambda>w. True"
proof unfold_locales
  fix w w' :: gatewayInbound and s l n :: int and v :: number and e
  assume inv: "gateway_inbound_inv w"
  note credit = inbound_creditD [OF inv, of s]
  show "gateway_inbound_inv w' \<and> gateway_limit w s = None \<and> gateway_limit w' = (gateway_limit w)(s \<mapsto> n) \<and>
      gateway_used w' = gateway_used w \<and> inboundInitialBytes w' = inboundInitialBytes w \<and> gateway_connection_used w' = gateway_connection_used w"
    if "gateway_openStream w (Integral s) (Integral n) = (Inr (), w')"
    using that gateway_openStream_inv [OF inv, of "Integral s" "Integral n"]
    by (auto simp: gateway_openStream_def gateway_limit_def gateway_used_def gateway_connection_used_def guard_simps fun_eq_iff
        map_get_set split: if_splits)
  show "gateway_used w s = 0" if "gateway_limit w s = None"
    using that by (simp add: gateway_limit_def gateway_used_def)
  show "fst (gateway_consume w s (Integral n)) = Inr ()"
    if "gateway_limit w s = Some l" "0 < n" "gateway_used w s + n \<le> l"
      "gateway_connection_used w + n \<le> inboundInitialBytes w"
    using that credit
    by (auto simp: gateway_consume_def gateway_limit_def gateway_used_def gateway_connection_used_def guard_simps)
  show "gateway_inbound_inv w' \<and> 0 < n \<and> gateway_limit w' = gateway_limit w \<and> gateway_limit w s \<noteq> None \<and>
      gateway_used w' = (gateway_used w)(s := gateway_used w s + n) \<and>
      inboundInitialBytes w' = inboundInitialBytes w \<and>
      gateway_connection_used w' = gateway_connection_used w + n"
    if "gateway_consume w s (Integral n) = (Inr (), w')"
    using that gateway_consume_inv [OF inv, of s "Integral n"]
    by (auto simp: gateway_consume_def gateway_limit_def gateway_used_def gateway_connection_used_def
        guard_simps fun_eq_iff map_get_set split: if_splits option.splits)
  show "w' = w" if "gateway_consume w s v = (Inl e, w')"
    using that by (auto simp: gateway_consume_def split: if_splits option.splits)
  show "gateway_inbound_inv w' \<and> 0 < n \<and> n \<le> gateway_used w s \<and> gateway_limit w' = gateway_limit w \<and>
      gateway_limit w s \<noteq> None \<and> gateway_used w' = (gateway_used w)(s := gateway_used w s - n) \<and>
      inboundInitialBytes w' = inboundInitialBytes w \<and>
      gateway_connection_used w' = gateway_connection_used w - n"
    if "gateway_release w s (Integral n) = (Inr (), w')"
    using that gateway_release_inv [OF inv, of s "Integral n"]
    by (auto simp: gateway_release_eq [OF inv] gateway_limit_def gateway_used_def gateway_connection_used_def
        guard_simps fun_eq_iff map_get_set split: if_splits option.splits)
  show "0 \<le> gateway_used w s \<and> gateway_used w s \<le> l" if "gateway_limit w s = Some l"
    using that credit by (auto simp: gateway_limit_def gateway_used_def)
  show "0 \<le> gateway_connection_used w \<and> gateway_connection_used w \<le> inboundInitialBytes w"
    using inbound_invD [OF inv] outstanding_nonneg [OF inv] by (simp add: gateway_connection_used_def)
qed

section \<open>Properties\<close>

text \<open>
  The gateway's receive credit is conserved. After any sequence of calls, failed ones included,
  the connection credit plus the bytes consumed and not yet released over all open streams is the
  configured window, every stream's credit splits the same way, and the checks that the source makes
  after changing its counters never fire: \<^verbatim>\<open>release\<close> and \<^verbatim>\<open>closeStream\<close> never report that credit exceeds
  its maximum.
\<close>

theorem gateway_inbound_conserved:
  assumes "new_gatewayInbound connectionBytes maximumFrames = Inr w0"
  shows "let w = run_machine gateway_inbound_step w0 ops in
    inboundAvailable w + sum_values outstandingBytes (inboundStreams w) = inboundInitialBytes w \<and>
    0 \<le> inboundAvailable w \<and>
    (\<forall>s c. map_get (inboundStreams w) s = Some c \<longrightarrow>
      availableBytes c + outstandingBytes c = initialBytes c \<and> 0 \<le> availableBytes c \<and> 0 \<le> outstandingBytes c) \<and>
    fst (gateway_release w s n) \<noteq> Inl ReceiveCreditExceedsMaximum \<and>
    fst (gateway_closeStream w s) = Inr ()"
proof -
  have inv: "gateway_inbound_inv (run_machine gateway_inbound_step w0 ops)"
    using assms gateway_inbound.run_inv by blast
  then show ?thesis
    by (auto simp: Let_def gateway_release_eq gateway_closeStream_eq inbound_creditD split: option.splits)
      (auto simp: gateway_inbound_inv_def)
qed

theorem gateway_inbound_conserved_witness:
  "\<exists>w0. new_gatewayInbound (Integral 100) (Integral 8) = Inr w0 \<and>
    (let w = run_machine gateway_inbound_step w0 [InOpen (Integral 1) (Integral 60), InConsume 1 (Integral 50)] in
      map_get (inboundStreams w) 1 \<noteq> None \<and>
      inboundAvailable w + sum_values outstandingBytes (inboundStreams w) = inboundInitialBytes w)"
proof -
  obtain w0 where ok: "new_gatewayInbound (Integral 100) (Integral 8) = Inr w0"
    by (simp add: new_gatewayInbound_def new_retiredBudget_def guard_simps MAX_SAFE_INTEGER_def)
  then have "map_get (inboundStreams (run_machine gateway_inbound_step w0
      [InOpen (Integral 1) (Integral 60), InConsume 1 (Integral 50)])) 1 \<noteq> None"
    by (auto simp: new_gatewayInbound_def new_retiredBudget_def guard_simps MAX_SAFE_INTEGER_def
        gateway_inbound_step_def gateway_openStream_def gateway_consume_def)
  with ok gateway_inbound_conserved [OF ok, of "[InOpen (Integral 1) (Integral 60), InConsume 1 (Integral 50)]"]
  show ?thesis unfolding Let_def by blast
qed

end
