(* ===== verification/ClientInbound.thy ===== *)
theory ClientInbound
  imports ReceiveWindow
begin

text \<open>
  The client's receive window for request DATA, \<^verbatim>\<open>apps/client/src/inbound-flow.ts\<close>, class
  \<^verbatim>\<open>InboundFlowWindow\<close>: bytes and frames consumed per stream and per connection against fixed limits.
  Unlike the gateway's window it also bounds the number of frames that wait for delivery.
\<close>

record inboundStreamWindow =
  windowLimit :: int
  consumedBytes :: int
  streamFrames :: int

datatype clientInboundError =
    ClientRangeError
  | WindowAlreadyExists
  | WindowDoesNotExist
  | StreamExceededCredit
  | ConnectionExceededCredit
  | TooManyPendingFrames
  | ReleasedUnconsumed
  | ClientRetired retiredError

record clientInbound =
  connectionLimit :: int
  maxPendingFrames :: int
  windowStreams :: "(int, inboundStreamWindow) jsmap"
  clientRetiredData :: retiredBudget
  connectionConsumedBytes :: int
  pendingFrames :: int

type_synonym clientInboundResult = "(clientInboundError + unit) \<times> clientInbound"

definition assert_client_streamId :: "number \<Rightarrow> bool" where
  "assert_client_streamId v = int_between 1 4294967295 v"

definition new_clientInbound :: "number \<Rightarrow> number \<Rightarrow> clientInboundError + clientInbound" where
  "new_clientInbound limit frames =
    (if \<not> positive_safe_int limit then Inl ClientRangeError
     else if \<not> positive_safe_int frames then Inl ClientRangeError
     else case new_retiredBudget limit frames of
         Inl e \<Rightarrow> Inl (ClientRetired e)
       | Inr budget \<Rightarrow> Inr \<lparr>connectionLimit = to_int limit, maxPendingFrames = to_int frames,
           windowStreams = [], clientRetiredData = budget, connectionConsumedBytes = 0, pendingFrames = 0\<rparr>)"

definition client_openStream :: "clientInbound \<Rightarrow> number \<Rightarrow> number \<Rightarrow> clientInboundResult" where
  "client_openStream w streamId streamLimit =
    (if \<not> assert_client_streamId streamId then (Inl ClientRangeError, w)
     else if \<not> positive_safe_int streamLimit then (Inl ClientRangeError, w)
     else if map_has (windowStreams w) (to_int streamId) then (Inl WindowAlreadyExists, w)
     else (Inr (), w\<lparr>windowStreams := map_set (windowStreams w) (to_int streamId)
       \<lparr>windowLimit = to_int streamLimit, consumedBytes = 0, streamFrames = 0\<rparr>\<rparr>))"

definition client_consume :: "clientInbound \<Rightarrow> int \<Rightarrow> number \<Rightarrow> clientInboundResult" where
  "client_consume w streamId bytes =
    (if \<not> positive_safe_int bytes then (Inl ClientRangeError, w)
     else case map_get (windowStreams w) streamId of
         None \<Rightarrow> (Inl WindowDoesNotExist, w)
       | Some stream \<Rightarrow>
           if consumedBytes stream + to_int bytes > windowLimit stream then (Inl StreamExceededCredit, w)
           else if connectionConsumedBytes w + to_int bytes > connectionLimit w
             then (Inl ConnectionExceededCredit, w)
           else if pendingFrames w \<ge> maxPendingFrames w then (Inl TooManyPendingFrames, w)
           else (Inr (), w\<lparr>
             windowStreams := map_set (windowStreams w) streamId
               (stream\<lparr>consumedBytes := consumedBytes stream + to_int bytes,
                  streamFrames := streamFrames stream + 1\<rparr>),
             connectionConsumedBytes := connectionConsumedBytes w + to_int bytes,
             pendingFrames := pendingFrames w + 1\<rparr>))"

definition client_release :: "clientInbound \<Rightarrow> int \<Rightarrow> number \<Rightarrow> clientInboundResult" where
  "client_release w streamId bytes =
    (if \<not> positive_safe_int bytes then (Inl ClientRangeError, w)
     else case map_get (windowStreams w) streamId of
         None \<Rightarrow> (Inl WindowDoesNotExist, w)
       | Some stream \<Rightarrow>
           if consumedBytes stream < to_int bytes \<or> streamFrames stream = 0
           then (Inl ReleasedUnconsumed, w)
           else (Inr (), w\<lparr>
             windowStreams := map_set (windowStreams w) streamId
               (stream\<lparr>consumedBytes := consumedBytes stream - to_int bytes,
                  streamFrames := streamFrames stream - 1\<rparr>),
             connectionConsumedBytes := connectionConsumedBytes w - to_int bytes,
             pendingFrames := pendingFrames w - 1\<rparr>))"

definition client_closeStream :: "clientInbound \<Rightarrow> int \<Rightarrow> clientInbound" where
  "client_closeStream w streamId =
    (case map_get (windowStreams w) streamId of
       None \<Rightarrow> w
     | Some stream \<Rightarrow> w\<lparr>
         connectionConsumedBytes := connectionConsumedBytes w - consumedBytes stream,
         pendingFrames := pendingFrames w - streamFrames stream,
         windowStreams := map_delete (windowStreams w) streamId\<rparr>)"

definition client_retireStream :: "clientInbound \<Rightarrow> int \<Rightarrow> clientInboundResult" where
  "client_retireStream w streamId =
    (case map_get (windowStreams w) streamId of
       None \<Rightarrow> (Inr (), w)
     | Some stream \<Rightarrow>
         case allow (clientRetiredData w) (Integral streamId)
             (Integral (min (windowLimit stream - consumedBytes stream)
               (connectionLimit w - connectionConsumedBytes w))) of
           (Inl e, budget) \<Rightarrow> (Inl (ClientRetired e), w\<lparr>clientRetiredData := budget\<rparr>)
         | (Inr _, budget) \<Rightarrow> (Inr (), client_closeStream (w\<lparr>clientRetiredData := budget\<rparr>) streamId))"

definition client_consumeRetiredData :: "clientInbound \<Rightarrow> int \<Rightarrow> number \<Rightarrow> clientInboundResult" where
  "client_consumeRetiredData w streamId bytes =
    (case consume_retired (clientRetiredData w) (Integral streamId) bytes of
       (Inl e, budget) \<Rightarrow> (Inl (ClientRetired e), w\<lparr>clientRetiredData := budget\<rparr>)
     | (Inr _, budget) \<Rightarrow> (Inr (), w\<lparr>clientRetiredData := budget\<rparr>))"

datatype clientInboundOp =
    CiOpen number number | CiConsume int number | CiRelease int number | CiClose int
  | CiRetire int | CiRetired int number

fun client_inbound_op :: "clientInbound \<Rightarrow> clientInboundOp \<Rightarrow> clientInboundResult" where
  "client_inbound_op w (CiOpen s n) = client_openStream w s n"
| "client_inbound_op w (CiConsume s n) = client_consume w s n"
| "client_inbound_op w (CiRelease s n) = client_release w s n"
| "client_inbound_op w (CiClose s) = (Inr (), client_closeStream w s)"
| "client_inbound_op w (CiRetire s) = client_retireStream w s"
| "client_inbound_op w (CiRetired s n) = client_consumeRetiredData w s n"

definition client_inbound_step :: "clientInbound \<Rightarrow> clientInboundOp \<Rightarrow> clientInbound" where
  "client_inbound_step w x = snd (client_inbound_op w x)"

section \<open>Invariant\<close>

definition window_ok :: "inboundStreamWindow \<Rightarrow> bool" where
  "window_ok c = (0 \<le> consumedBytes c \<and> consumedBytes c \<le> windowLimit c \<and> 0 \<le> streamFrames c)"

definition client_inbound_inv :: "clientInbound \<Rightarrow> bool" where
  "client_inbound_inv w = (wf_map (windowStreams w) \<and>
    (\<forall>(s, c) \<in> set (windowStreams w). 0 < s \<and> s \<le> 4294967295 \<and> window_ok c) \<and>
    connectionConsumedBytes w = sum_values consumedBytes (windowStreams w) \<and>
    pendingFrames w = sum_values streamFrames (windowStreams w) \<and>
    connectionConsumedBytes w \<le> connectionLimit w \<and> pendingFrames w \<le> maxPendingFrames w \<and>
    connectionLimit w \<le> MAX_SAFE_INTEGER \<and> retired_inv (clientRetiredData w))"

lemma client_inbound_invD:
  assumes "client_inbound_inv w"
  shows "connectionConsumedBytes w = sum_values consumedBytes (windowStreams w)"
    "pendingFrames w = sum_values streamFrames (windowStreams w)"
    "connectionConsumedBytes w \<le> connectionLimit w" "pendingFrames w \<le> maxPendingFrames w"
    "retired_inv (clientRetiredData w)"
  using assms by (simp_all add: client_inbound_inv_def)

lemma client_windowD:
  assumes "client_inbound_inv w" "map_get (windowStreams w) s = Some c"
  shows "window_ok c" "0 < s" "s \<le> 4294967295" "consumedBytes c \<le> sum_values consumedBytes (windowStreams w)"
    "streamFrames c \<le> sum_values streamFrames (windowStreams w)"
proof -
  from assms have mem: "(s, c) \<in> set (windowStreams w)" by (blast dest: map_of_SomeD)
  with assms show "window_ok c" "0 < s" "s \<le> 4294967295" by (auto simp: client_inbound_inv_def)
  show "consumedBytes c \<le> sum_values consumedBytes (windowStreams w)"
    "streamFrames c \<le> sum_values streamFrames (windowStreams w)"
    using assms by (intro sum_values_ge_member; auto simp: client_inbound_inv_def window_ok_def)+
qed

lemma client_sums_nonneg:
  assumes "client_inbound_inv w"
  shows "0 \<le> connectionConsumedBytes w" "0 \<le> pendingFrames w"
proof -
  have "0 \<le> sum_values consumedBytes (windowStreams w)" "0 \<le> sum_values streamFrames (windowStreams w)"
    using assms by (intro sum_values_nonneg; auto simp: client_inbound_inv_def window_ok_def)+
  then show "0 \<le> connectionConsumedBytes w" "0 \<le> pendingFrames w"
    using client_inbound_invD [OF assms] by simp_all
qed

text \<open>Changing one stream's counters together with the connection's keeps the invariant.\<close>

lemma client_inv_set:
  assumes "client_inbound_inv w" "window_ok c" "0 < s" "s \<le> 4294967295"
    and "b = connectionConsumedBytes w + consumedBytes c -
      (case map_get (windowStreams w) s of None \<Rightarrow> 0 | Some old \<Rightarrow> consumedBytes old)"
    and "f = pendingFrames w + streamFrames c -
      (case map_get (windowStreams w) s of None \<Rightarrow> 0 | Some old \<Rightarrow> streamFrames old)"
    and "b \<le> connectionLimit w" "f \<le> maxPendingFrames w"
  shows "client_inbound_inv (w\<lparr>windowStreams := map_set (windowStreams w) s c,
    connectionConsumedBytes := b, pendingFrames := f\<rparr>)"
  using assms
  by (cases "map_get (windowStreams w) s")
    (auto simp: client_inbound_inv_def in_map_set sum_values_set_new sum_values_set_old split: if_splits)

lemma client_openStream_inv: "client_inbound_inv w \<Longrightarrow> client_inbound_inv (snd (client_openStream w s n))"
proof -
  assume inv: "client_inbound_inv w"
  have "client_inbound_inv (w\<lparr>windowStreams := map_set (windowStreams w) (to_int s)
      \<lparr>windowLimit = to_int n, consumedBytes = 0, streamFrames = 0\<rparr>,
      connectionConsumedBytes := connectionConsumedBytes w, pendingFrames := pendingFrames w\<rparr>)"
    if "assert_client_streamId s" "positive_safe_int n" "map_get (windowStreams w) (to_int s) = None"
    by (rule client_inv_set [OF inv])
      (use that client_inbound_invD [OF inv] positive_safe_intD [of n] int_betweenD [of 1 4294967295 s]
       in \<open>simp_all add: window_ok_def assert_client_streamId_def\<close>)
  with inv show ?thesis by (simp add: client_openStream_def)
qed

lemma client_consume_inv: "client_inbound_inv w \<Longrightarrow> client_inbound_inv (snd (client_consume w s n))"
proof -
  assume inv: "client_inbound_inv w"
  have "client_inbound_inv (w\<lparr>windowStreams := map_set (windowStreams w) s
      (c\<lparr>consumedBytes := consumedBytes c + to_int n, streamFrames := streamFrames c + 1\<rparr>),
      connectionConsumedBytes := connectionConsumedBytes w + to_int n, pendingFrames := pendingFrames w + 1\<rparr>)"
    if "positive_safe_int n" "map_get (windowStreams w) s = Some c" "consumedBytes c + to_int n \<le> windowLimit c"
      "connectionConsumedBytes w + to_int n \<le> connectionLimit w" "pendingFrames w < maxPendingFrames w" for c
    by (rule client_inv_set [OF inv])
      (use that client_windowD [OF inv that(2)] positive_safe_intD [of n] in \<open>simp_all add: window_ok_def\<close>)
  with inv show ?thesis by (simp add: client_consume_def not_less not_le split: option.split)
qed

lemma client_release_inv: "client_inbound_inv w \<Longrightarrow> client_inbound_inv (snd (client_release w s n))"
proof -
  assume inv: "client_inbound_inv w"
  have "client_inbound_inv (w\<lparr>windowStreams := map_set (windowStreams w) s
      (c\<lparr>consumedBytes := consumedBytes c - to_int n, streamFrames := streamFrames c - 1\<rparr>),
      connectionConsumedBytes := connectionConsumedBytes w - to_int n, pendingFrames := pendingFrames w - 1\<rparr>)"
    if "positive_safe_int n" "map_get (windowStreams w) s = Some c" "to_int n \<le> consumedBytes c"
      "streamFrames c \<noteq> 0" for c
    by (rule client_inv_set [OF inv])
      (use that client_windowD [OF inv that(2)] client_inbound_invD [OF inv] positive_safe_intD [of n]
       in \<open>simp_all add: window_ok_def\<close>)
  with inv show ?thesis by (simp add: client_release_def not_less split: option.split)
qed

lemma client_closeStream_inv: "client_inbound_inv w \<Longrightarrow> client_inbound_inv (client_closeStream w s)"
proof (cases "map_get (windowStreams w) s")
  case (Some c)
  assume inv: "client_inbound_inv w"
  from client_windowD [OF inv Some] have "0 \<le> consumedBytes c" "0 \<le> streamFrames c"
    by (simp_all add: window_ok_def)
  with inv Some show ?thesis
    by (auto simp: client_closeStream_def client_inbound_inv_def in_map_delete sum_values_delete)
qed (simp add: client_closeStream_def)

lemma client_inv_budget: "client_inbound_inv w \<Longrightarrow> retired_inv b \<Longrightarrow> client_inbound_inv (w\<lparr>clientRetiredData := b\<rparr>)"
  by (simp add: client_inbound_inv_def)

lemma client_retireStream_inv: "client_inbound_inv w \<Longrightarrow> client_inbound_inv (snd (client_retireStream w s))"
proof -
  assume inv: "client_inbound_inv w"
  then have "client_inbound_inv (w\<lparr>clientRetiredData := snd (allow (clientRetiredData w) i j)\<rparr>)" for i j
    by (simp add: client_inv_budget allow_inv client_inbound_invD)
  with inv show ?thesis
    by (auto simp: client_retireStream_def split: option.splits prod.splits sum.splits)
      (metis client_closeStream_inv snd_conv)+
qed

lemma client_consumeRetiredData_inv:
  "client_inbound_inv w \<Longrightarrow> client_inbound_inv (snd (client_consumeRetiredData w s n))"
  using consume_retired_inv [of "clientRetiredData w" "Integral s" n]
  by (auto simp: client_consumeRetiredData_def client_inbound_inv_def split: prod.splits sum.splits)

lemma client_inbound_step_inv: "client_inbound_inv w \<Longrightarrow> client_inbound_inv (client_inbound_step w x)"
  by (cases x) (simp_all add: client_inbound_step_def client_openStream_inv client_consume_inv
      client_release_inv client_closeStream_inv client_retireStream_inv client_consumeRetiredData_inv)

lemma new_clientInbound_inv: "new_clientInbound n f = Inr w \<Longrightarrow> client_inbound_inv w"
proof -
  assume new: "new_clientInbound n f = Inr w"
  then obtain i j where "n = Integral i" "0 < i" "i \<le> MAX_SAFE_INTEGER" "f = Integral j" "0 < j"
    by (cases n; cases f) (auto simp: new_clientInbound_def guard_simps split: if_splits)
  with new show ?thesis
    by (auto simp: new_clientInbound_def client_inbound_inv_def dest: new_retiredBudget_inv
        split: if_splits sum.splits)
qed

interpretation client_inbound: invariant_machine
  "\<lambda>w. \<exists>n f. new_clientInbound n f = Inr w" client_inbound_step client_inbound_inv
  by unfold_locales (auto simp: new_clientInbound_inv client_inbound_step_inv)

section \<open>The contract of a receive window\<close>

definition client_limit :: "clientInbound \<Rightarrow> int \<Rightarrow> int option" where
  "client_limit w s = map_option windowLimit (map_get (windowStreams w) s)"

definition client_used :: "clientInbound \<Rightarrow> int \<Rightarrow> int" where
  "client_used w s = (case map_get (windowStreams w) s of None \<Rightarrow> 0 | Some c \<Rightarrow> consumedBytes c)"

definition client_room :: "clientInbound \<Rightarrow> bool" where
  "client_room w = (pendingFrames w < maxPendingFrames w)"

interpretation client_window: receive_window client_openStream client_consume client_release client_inbound_inv
  client_limit client_used connectionLimit connectionConsumedBytes client_room
proof unfold_locales
  fix w w' :: clientInbound and s l n :: int and v :: number and e
  assume inv: "client_inbound_inv w"
  note window = client_windowD [OF inv, of s]
  show "client_inbound_inv w' \<and> client_limit w s = None \<and> client_limit w' = (client_limit w)(s \<mapsto> n) \<and>
      client_used w' = client_used w \<and> connectionLimit w' = connectionLimit w \<and> connectionConsumedBytes w' = connectionConsumedBytes w"
    if "client_openStream w (Integral s) (Integral n) = (Inr (), w')"
    using that client_openStream_inv [OF inv, of "Integral s" "Integral n"]
    by (auto simp: client_openStream_def client_limit_def client_used_def guard_simps fun_eq_iff
        map_get_set split: if_splits)
  show "client_used w s = 0" if "client_limit w s = None"
    using that by (simp add: client_limit_def client_used_def)
  show "fst (client_consume w s (Integral n)) = Inr ()"
    if "client_limit w s = Some l" "0 < n" "n \<le> MAX_SAFE_INTEGER" "client_used w s + n \<le> l"
      "connectionConsumedBytes w + n \<le> connectionLimit w" "client_room w"
    using that by (auto simp: client_consume_def client_limit_def client_used_def client_room_def guard_simps)
  show "client_inbound_inv w' \<and> 0 < n \<and> client_limit w' = client_limit w \<and> client_limit w s \<noteq> None \<and>
      client_used w' = (client_used w)(s := client_used w s + n) \<and>
      connectionLimit w' = connectionLimit w \<and>
      connectionConsumedBytes w' = connectionConsumedBytes w + n"
    if "client_consume w s (Integral n) = (Inr (), w')"
    using that client_consume_inv [OF inv, of s "Integral n"]
    by (auto simp: client_consume_def client_limit_def client_used_def
        guard_simps fun_eq_iff map_get_set split: if_splits option.splits)
  show "w' = w" if "client_consume w s v = (Inl e, w')"
    using that by (auto simp: client_consume_def split: if_splits option.splits)
  show "client_inbound_inv w' \<and> 0 < n \<and> n \<le> client_used w s \<and> client_limit w' = client_limit w \<and>
      client_limit w s \<noteq> None \<and> client_used w' = (client_used w)(s := client_used w s - n) \<and>
      connectionLimit w' = connectionLimit w \<and>
      connectionConsumedBytes w' = connectionConsumedBytes w - n"
    if "client_release w s (Integral n) = (Inr (), w')"
    using that client_release_inv [OF inv, of s "Integral n"]
    by (auto simp: client_release_def client_limit_def client_used_def
        guard_simps fun_eq_iff map_get_set split: if_splits option.splits)
  show "0 \<le> client_used w s \<and> client_used w s \<le> l" if "client_limit w s = Some l"
    using that window by (auto simp: client_limit_def client_used_def window_ok_def)
  show "0 \<le> connectionConsumedBytes w \<and> connectionConsumedBytes w \<le> connectionLimit w"
    using client_inbound_invD [OF inv] client_sums_nonneg [OF inv] by simp
qed

section \<open>Properties\<close>

text \<open>
  The client's receive window never over-commits. After any sequence of calls, failed ones
  included, the connection's byte and frame counters are the sums over the open streams, they stay
  within the connection limit and the frame limit, every stream stays within its own limit, and no
  counter is negative; retiring a stream never fails.
\<close>

theorem client_inbound_bounded:
  assumes "new_clientInbound limit frames = Inr w0"
  shows "let w = run_machine client_inbound_step w0 ops in
    connectionConsumedBytes w = sum_values consumedBytes (windowStreams w) \<and>
    pendingFrames w = sum_values streamFrames (windowStreams w) \<and>
    0 \<le> connectionConsumedBytes w \<and> connectionConsumedBytes w \<le> connectionLimit w \<and>
    0 \<le> pendingFrames w \<and> pendingFrames w \<le> maxPendingFrames w \<and>
    (\<forall>s c. map_get (windowStreams w) s = Some c \<longrightarrow> 0 \<le> consumedBytes c \<and> consumedBytes c \<le> windowLimit c) \<and>
    fst (client_retireStream w s) = Inr ()"
proof -
  define w where "w = run_machine client_inbound_step w0 ops"
  have inv: "client_inbound_inv w"
    unfolding w_def using assms client_inbound.run_inv by blast
  have "fst (client_retireStream w s) = Inr ()"
  proof (cases "map_get (windowStreams w) s")
    case (Some c)
    let ?n = "min (windowLimit c - consumedBytes c) (connectionLimit w - connectionConsumedBytes w)"
    have "0 \<le> ?n" "?n \<le> MAX_SAFE_INTEGER" "positive_safe_int (Integral s)"
      using client_windowD [OF inv Some] client_inbound_invD [OF inv] client_sums_nonneg [OF inv] inv
      by (auto simp: window_ok_def guard_simps MAX_SAFE_INTEGER_def client_inbound_inv_def)
    then have "fst (allow (clientRetiredData w) (Integral s) (Integral ?n)) = Inr ()"
      by (intro allow_ok)
    with Some show ?thesis
      by (auto simp: client_retireStream_def split: prod.split sum.split)
  qed (simp add: client_retireStream_def)
  moreover have "\<forall>s c. map_get (windowStreams w) s = Some c \<longrightarrow> 0 \<le> consumedBytes c \<and> consumedBytes c \<le> windowLimit c"
    using client_windowD(1) [OF inv] by (auto simp: window_ok_def)
  ultimately show ?thesis
    using client_inbound_invD [OF inv] client_sums_nonneg [OF inv] unfolding w_def [symmetric] Let_def by blast
qed

theorem client_inbound_bounded_witness:
  "\<exists>w0. new_clientInbound (Integral 100) (Integral 8) = Inr w0 \<and>
    (let w = run_machine client_inbound_step w0 [CiOpen (Integral 1) (Integral 60), CiConsume 1 (Integral 50)] in
      map_get (windowStreams w) 1 \<noteq> None \<and>
      connectionConsumedBytes w = sum_values consumedBytes (windowStreams w))"
proof -
  obtain w0 where ok: "new_clientInbound (Integral 100) (Integral 8) = Inr w0"
    by (simp add: new_clientInbound_def new_retiredBudget_def guard_simps MAX_SAFE_INTEGER_def)
  then have "map_get (windowStreams (run_machine client_inbound_step w0
      [CiOpen (Integral 1) (Integral 60), CiConsume 1 (Integral 50)])) 1 \<noteq> None"
    by (auto simp: new_clientInbound_def new_retiredBudget_def guard_simps MAX_SAFE_INTEGER_def
        client_inbound_step_def client_openStream_def client_consume_def assert_client_streamId_def)
  with ok client_inbound_bounded [OF ok, of "[CiOpen (Integral 1) (Integral 60), CiConsume 1 (Integral 50)]"]
  show ?thesis unfolding Let_def by blast
qed

end
