(* ===== verification/FlowLink.thy ===== *)
theory FlowLink
  imports Carrier GatewayInbound ClientInbound
begin

text \<open>
  The flow control of responses, both ends together: the client's \<^verbatim>\<open>OutboundFlowWindow\<close>, the gateway's
  \<^verbatim>\<open>GatewayInboundFlow\<close> and the frames in flight in either direction. The events are the runs of the two
  programs that touch these windows: \<^verbatim>\<open>handleGatewayFrame\<close>, \<^verbatim>\<open>forwardLocalResponse\<close>, \<^verbatim>\<open>maybeDeleteStream\<close> and
  \<^verbatim>\<open>cancelClientStream\<close> of \<^verbatim>\<open>apps/client/src/client.ts\<close>, and \<^verbatim>\<open>handleClientFrame\<close>, \<^verbatim>\<open>enqueueHttpResponseData\<close> and the
  removal of streams of \<^verbatim>\<open>apps/gateway/src/gateway-streams.ts\<close>. The gateway sends a WINDOW_UPDATE, awaits that it is
  written and only then releases the credit in its own window, so these are two events; and the client
  closes its window of a stream as soon as it has sent END. Events come in any order.
\<close>

type_synonym frames = "(int \<times> int) list"

text \<open>The DATA frames that a call released: one per resolved \<^verbatim>\<open>take\<close>, of the granted size.\<close>

fun granted :: "settlement list \<Rightarrow> frames" where
  "granted [] = []"
| "granted (Resolved w g # out) = (w_streamId w, g) # granted out"
| "granted (Rejected w e # out) = granted out"

definition bytes_on :: "int \<Rightarrow> frames \<Rightarrow> int" where
  "bytes_on s fr = sum_list (map snd (filter (\<lambda>p. fst p = s) fr))"

definition bytes_all :: "frames \<Rightarrow> int" where
  "bytes_all fr = sum_list (map snd fr)"

section \<open>The link\<close>

datatype upFrame = UpData int int | UpEnd int | UpReset int

datatype downFrame = DownOpen int int | DownUpdate int int | DownReset int

text \<open>
  \<open>l_unreleased\<close> are the chunks whose WINDOW_UPDATE is sent and whose release is still to come, \<open>l_ended\<close> the
  streams whose END the gateway has received, \<open>l_lastId\<close> the last stream id issued. A frame that the receiver
  refuses ends the carrier: \<open>l_refused\<close>.
\<close>

record link =
  l_client :: outboundFlow
  l_up :: "upFrame list"
  l_gateway :: gatewayInbound
  l_down :: "downFrame list"
  l_unreleased :: frames
  l_ended :: "int list"
  l_lastId :: int
  l_refused :: bool

datatype linkEvent =
    GatewayOpens int int | GatewayReceives | GatewayCredits int int | GatewayReleases nat
  | ResponseFinished int | GatewayResets int | ClientReceives | ClientSends int int nat
  | ClientEnds int | ClientResets int

text \<open>A client call that settles some \<^verbatim>\<open>take\<close>s: the granted chunks are sent.\<close>

definition client_after :: "settlement list \<times> outboundFlow \<Rightarrow> link \<Rightarrow> link" where
  "client_after r k = k\<lparr>l_client := snd r, l_up := l_up k @ map (\<lambda>(s, n). UpData s n) (granted (fst r))\<rparr>"

definition client_result :: "flowResult \<Rightarrow> link \<Rightarrow> link" where
  "client_result r k = (case r of (Inr out, f) \<Rightarrow> client_after (out, f) k | (Inl _, f) \<Rightarrow> k\<lparr>l_client := f, l_refused := True\<rparr>)"

definition gateway_result :: "inboundResult \<Rightarrow> link \<Rightarrow> link" where
  "gateway_result r k = k\<lparr>l_gateway := snd r, l_refused := \<not> is_ok (fst r)\<rparr>"

fun gateway_receives :: "link \<Rightarrow> upFrame \<Rightarrow> link" where
  "gateway_receives k (UpData s n) =
     gateway_result (if map_has (inboundStreams (l_gateway k)) s then gateway_consume (l_gateway k) s (Integral n)
       else gateway_consumeRetiredData (l_gateway k) s (Integral n)) k"
| "gateway_receives k (UpEnd s) = k\<lparr>l_ended := s # l_ended k\<rparr>"
| "gateway_receives k (UpReset s) = gateway_result (gateway_closeStream (l_gateway k) s) k"

fun client_receives :: "link \<Rightarrow> downFrame \<Rightarrow> link" where
  "client_receives k (DownOpen s n) = client_result (openStream (l_client k) (Integral s) (Integral n)) k"
| "client_receives k (DownUpdate s n) =
     (if map_has (streams (l_client k)) s then client_result (update_credit (l_client k) s (Integral n)) k else k)"
| "client_receives k (DownReset s) = client_after (closeStream (l_client k) s) k"

fun link_event :: "link \<Rightarrow> linkEvent \<Rightarrow> link" where
  "link_event k (GatewayOpens s n) =
     (if l_lastId k < s then case gateway_openStream (l_gateway k) (Integral s) (Integral n) of
        (Inr _, w) \<Rightarrow> k\<lparr>l_gateway := w, l_down := l_down k @ [DownOpen s n], l_lastId := s\<rparr> | (Inl _, _) \<Rightarrow> k else k)"
| "link_event k GatewayReceives = (case l_up k of [] \<Rightarrow> k | x # rest \<Rightarrow> gateway_receives (k\<lparr>l_up := rest\<rparr>) x)"
| "link_event k (GatewayCredits s n) =
     (if map_has (inboundStreams (l_gateway k)) s \<and> 0 < n \<and> bytes_on s (l_unreleased k) + n \<le> gateway_used (l_gateway k) s
      then k\<lparr>l_down := l_down k @ [DownUpdate s n], l_unreleased := l_unreleased k @ [(s, n)]\<rparr> else k)"
| "link_event k (GatewayReleases i) =
     (if i < length (l_unreleased k) then
        (let (s, n) = l_unreleased k ! i; k' = k\<lparr>l_unreleased := take i (l_unreleased k) @ drop (Suc i) (l_unreleased k)\<rparr> in
         if map_has (inboundStreams (l_gateway k)) s then gateway_result (gateway_release (l_gateway k) s (Integral n)) k' else k')
      else k)"
| "link_event k (ResponseFinished s) =
     (if s \<in> set (l_ended k) \<and> gateway_used (l_gateway k) s = 0 then gateway_result (gateway_closeStream (l_gateway k) s) k else k)"
| "link_event k (GatewayResets s) =
     (if map_has (inboundStreams (l_gateway k)) s then case gateway_retireStream (l_gateway k) s of
        (Inr _, w) \<Rightarrow> k\<lparr>l_gateway := w, l_down := l_down k @ [DownReset s]\<rparr> | (Inl _, w) \<Rightarrow> k\<lparr>l_gateway := w, l_refused := True\<rparr> else k)"
| "link_event k ClientReceives = (case l_down k of [] \<Rightarrow> k | x # rest \<Rightarrow> client_receives (k\<lparr>l_down := rest\<rparr>) x)"
| "link_event k (ClientSends s n ticket) = (case take_credit (l_client k) s (Integral n) ticket of
       (Inr out, f) \<Rightarrow> client_after (out, f) k | (Inl _, f) \<Rightarrow> k\<lparr>l_client := f\<rparr>)"
| "link_event k (ClientEnds s) =
     (if map_has (streams (l_client k)) s
      then client_after (closeStream (l_client k) s) (k\<lparr>l_up := l_up k @ [UpEnd s]\<rparr>) else k)"
| "link_event k (ClientResets s) =
     (if map_has (streams (l_client k)) s
      then client_after (closeStream (l_client k) s) (k\<lparr>l_up := l_up k @ [UpReset s]\<rparr>) else k)"

definition link_step :: "link \<Rightarrow> linkEvent \<Rightarrow> link" where
  "link_step k x = (if l_refused k then k else link_event k x)"

definition fresh_link :: "outboundFlow \<Rightarrow> gatewayInbound \<Rightarrow> link" where
  "fresh_link f w = \<lparr>l_client = f, l_up = [], l_gateway = w, l_down = [], l_unreleased = [], l_ended = [],
     l_lastId = 0, l_refused = False\<rparr>"

section \<open>Counting bytes in flight\<close>

lemma bytes_on_simps [simp]:
  "bytes_on s [] = 0"
  "bytes_on s ((t, n) # fr) = (if t = s then n else 0) + bytes_on s fr"
  "bytes_on s (xs @ ys) = bytes_on s xs + bytes_on s ys"
  by (simp_all add: bytes_on_def)

lemma bytes_all_simps [simp]:
  "bytes_all [] = 0"
  "bytes_all ((t, n) # fr) = n + bytes_all fr"
  "bytes_all (xs @ ys) = bytes_all xs + bytes_all ys"
  by (simp_all add: bytes_all_def)

abbreviation positive_frames :: "frames \<Rightarrow> bool" where
  "positive_frames fr \<equiv> \<forall>(s, n) \<in> set fr. 0 < n"

lemma bytes_nonneg:
  "positive_frames fr \<Longrightarrow> 0 \<le> bytes_on s fr" "positive_frames fr \<Longrightarrow> 0 \<le> bytes_all fr"
  by (induction fr) (auto simp: add_nonneg_nonneg)

text \<open>What draining the queue grants is taken from the streams and from the connection.\<close>

definition credit_granted :: "int \<Rightarrow> (int, streamCredit) jsmap \<Rightarrow> int \<Rightarrow> (int, streamCredit) jsmap \<Rightarrow> frames \<Rightarrow> bool" where
  "credit_granted conn ss conn' ss' fr = (conn' = conn - bytes_all fr \<and> positive_frames fr \<and>
    (\<forall>k. map_get ss' k = map_option (\<lambda>st. st\<lparr>available := available st - bytes_on k fr,
        outstanding := outstanding st + bytes_on k fr\<rparr>) (map_get ss k)) \<and>
    (\<forall>k. map_get ss k = None \<longrightarrow> bytes_on k fr = 0))"

lemma credit_granted_refl: "credit_granted conn ss conn ss []"
  by (simp add: credit_granted_def option.map_ident)

lemma credit_granted_Cons:
  assumes "map_get ss s = Some st" "0 < g"
    and "credit_granted (conn - g) (map_set ss s (st\<lparr>available := available st - g, outstanding := outstanding st + g\<rparr>))
      conn' ss' fr"
  shows "credit_granted conn ss conn' ss' ((s, g) # fr)"
  using assms by (auto simp: credit_granted_def map_get_set)

lemma drain_granted:
  assumes "drain conn ss ws = (conn', ss', kept, out)" "credits_ok conn ss"
    "\<forall>w \<in> set ws. 0 < w_maximumBytes w"
  shows "credit_granted conn ss conn' ss' (granted out)"
  using assms
proof (induction conn ss ws arbitrary: conn' ss' kept out rule: drain.induct)
  case (1 conn ss)
  then show ?case by (simp add: credit_granted_refl)
next
  case (2 conn ss w ws)
  show ?case
  proof (cases "map_get ss (w_streamId w)")
    case None
    with 2 show ?thesis by (auto split: prod.splits)
  next
    case (Some st)
    let ?g = "min (w_maximumBytes w) (min (available st) conn)"
    have nonneg: "0 \<le> available st" "0 \<le> conn" "0 < w_maximumBytes w"
      using credits_okD [OF "2.prems"(2) Some] "2.prems" by (auto simp: credits_ok_def)
    show ?thesis
    proof (cases "?g = 0")
      case True
      then obtain kept' where rec: "drain conn ss ws = (conn', ss', kept', out)"
        using "2.prems"(1) Some by (auto split: prod.splits)
      then show ?thesis using "2.IH"(2) [OF Some refl True rec] "2.prems" by simp
    next
      case False
      let ?ss = "map_set ss (w_streamId w)
        (st\<lparr>available := available st - ?g, outstanding := outstanding st + ?g\<rparr>)"
      obtain out' where rec: "drain (conn - ?g) ?ss ws = (conn', ss', kept, out')" "out = Resolved w ?g # out'"
        using "2.prems"(1) Some False by (auto simp: Let_def split: prod.splits)
      have "credits_ok (conn - ?g) ?ss"
        using grant_shrinks [OF "2.prems"(2) Some, of ?g] nonneg by (simp add: credit_shrinks_def)
      then have "credit_granted (conn - ?g) ?ss conn' ss' (granted out')"
        using "2.IH"(3) [OF Some refl False rec(1)] "2.prems"(3) by simp
      with Some False nonneg show ?thesis
        by (auto simp: rec(2) intro!: credit_granted_Cons)
    qed
  qed
qed

lemma drainWaiters_granted:
  assumes "flow_pre f" "drainWaiters f = (out, f')"
  shows "credit_granted (connectionAvailable f) (streams f) (connectionAvailable f') (streams f') (granted out)"
    "closed f' = closed f" "flow_inv f'" "initialConnectionBytes f' = initialConnectionBytes f"
proof -
  obtain conn' ss' kept where d: "drain (connectionAvailable f) (streams f) (waiters f) = (conn', ss', kept, out)"
    and f': "f' = f\<lparr>connectionAvailable := conn', streams := ss', waiters := kept\<rparr>"
    using assms(2) by (auto simp: drainWaiters_def split: prod.splits)
  show "credit_granted (connectionAvailable f) (streams f) (connectionAvailable f') (streams f') (granted out)"
    using drain_granted [OF d] assms(1) by (simp add: f' flow_pre_def)
  show "closed f' = closed f" by (simp add: f')
  show "flow_inv f'" "initialConnectionBytes f' = initialConnectionBytes f"
    using drainWaiters_inv [OF assms(1)] assms(2) by simp_all
qed

section \<open>The sender's three calls\<close>

lemma take_credit_granted:
  assumes "flow_inv f" "take_credit f s v t = (Inr out, f')"
  shows "flow_inv f' \<and> \<not> closed f \<and> \<not> closed f' \<and> initialConnectionBytes f' = initialConnectionBytes f \<and>
    credit_granted (connectionAvailable f) (streams f) (connectionAvailable f') (streams f') (granted out)"
proof -
  let ?f = "f\<lparr>waiters := waiters f @ [\<lparr>w_streamId = s, w_maximumBytes = to_int v, w_ticket = t\<rparr>]\<rparr>"
  from assms(2) have d: "drainWaiters ?f = (out, f')" and ok: "positive_int v" "\<not> closed f"
    by (auto simp: take_credit_def split: if_splits prod.splits)
  have "flow_pre ?f" using flow_inv_pre [OF assms(1) ok(2)] positive_intD [OF ok(1)] by (auto simp: flow_pre_def)
  from drainWaiters_granted [OF this d] ok show ?thesis by simp
qed

lemma openStream_granted:
  assumes "flow_inv f" "openStream f (Integral s) (Integral n) = (Inr out, f')"
  shows "flow_inv f' \<and> \<not> closed f \<and> \<not> closed f' \<and> initialConnectionBytes f' = initialConnectionBytes f \<and>
    map_get (streams f) s = None \<and> 0 < n \<and>
    credit_granted (connectionAvailable f) (map_set (streams f) s \<lparr>available = n, outstanding = 0\<rparr>)
      (connectionAvailable f') (streams f') (granted out)"
proof -
  let ?f = "f\<lparr>streams := map_set (streams f) s \<lparr>available = n, outstanding = 0\<rparr>\<rparr>"
  from assms(2) have d: "drainWaiters ?f = (out, f')" and ok: "0 < n" "\<not> closed f" "map_get (streams f) s = None"
    by (auto simp: openStream_def guard_simps split: if_splits prod.splits)
  have "flow_pre ?f" using flow_inv_pre [OF assms(1) ok(2)] ok
    by (auto simp: flow_pre_def sum_values_set_new intro!: credits_ok_set) (auto simp: credits_ok_def)
  from drainWaiters_granted [OF this d] ok show ?thesis by simp
qed

lemma update_credit_granted:
  assumes "flow_inv f" "update_credit f s (Integral n) = (Inr out, f')"
  shows "\<exists>st. map_get (streams f) s = Some st \<and> 0 < n \<and> n \<le> outstanding st \<and>
    flow_inv f' \<and> \<not> closed f \<and> \<not> closed f' \<and> initialConnectionBytes f' = initialConnectionBytes f \<and>
    credit_granted (connectionAvailable f + n)
      (map_set (streams f) s (st\<lparr>outstanding := outstanding st - n, available := available st + n\<rparr>))
      (connectionAvailable f') (streams f') (granted out)"
proof -
  from assms(2) obtain st where st: "map_get (streams f) s = Some st" "0 < n" "n \<le> outstanding st"
    and d: "drainWaiters (f\<lparr>streams := map_set (streams f) s
        (st\<lparr>outstanding := outstanding st - n, available := available st + n\<rparr>),
        connectionAvailable := connectionAvailable f + n\<rparr>) = (out, f')"
    by (auto simp: update_credit_def guard_simps Let_def split: if_splits prod.splits option.splits)
  have op: "\<not> closed f" using flow_inv_open assms(1) st(1) .
  have pre: "flow_pre f" using flow_inv_pre assms(1) op .
  have nonneg: "0 \<le> available st" using credits_okD [OF _ st(1)] pre by (auto simp: flow_pre_def)
  have "flow_pre (f\<lparr>streams := map_set (streams f) s
        (st\<lparr>outstanding := outstanding st - n, available := available st + n\<rparr>),
        connectionAvailable := connectionAvailable f + n\<rparr>)"
    using pre st nonneg by (auto simp: flow_pre_def sum_values_set_old intro!: credits_ok_set)
      (auto simp: credits_ok_def)
  from drainWaiters_granted [OF this d] st op show ?thesis by simp
qed

lemma update_credit_ok:
  assumes "flow_inv f" "map_get (streams f) s = Some st" "0 < n" "n \<le> outstanding st"
  shows "is_ok (fst (update_credit f s (Integral n)))"
proof -
  have "outstanding st \<le> total_outstanding (streams f)"
    using assms(1,2) by (intro sum_values_ge_member) (auto simp: flow_inv_def credits_ok_def)
  with assms flow_inv_open [OF assms(1,2)] show ?thesis
    by (auto simp: update_credit_def guard_simps Let_def flow_inv_def split: prod.split)
qed

section \<open>The account of a stream\<close>

lemma granted_append [simp]: "granted (xs @ ys) = granted xs @ granted ys"
  by (induction xs rule: granted.induct) simp_all

lemma granted_rejected [simp]: "granted (map (\<lambda>w. Rejected w e) ws) = []"
  by (induction ws) simp_all

lemma closeStream_granted:
  assumes "flow_inv f" "map_get (streams f) s = Some st" "closeStream f s = (out, f')"
  shows "flow_inv f' \<and> \<not> closed f' \<and> initialConnectionBytes f' = initialConnectionBytes f \<and>
    credit_granted (connectionAvailable f + outstanding st) (map_delete (streams f) s)
      (connectionAvailable f') (streams f') (granted out)"
proof -
  let ?f = "f\<lparr>streams := map_delete (streams f) s, connectionAvailable := connectionAvailable f + outstanding st,
      waiters := filter (\<lambda>w. w_streamId w \<noteq> s) (waiters f)\<rparr>"
  obtain out' where d: "drainWaiters ?f = (out', f')" and out: "granted out = granted out'"
    using assms(2,3) by (auto simp: closeStream_def Let_def split: prod.splits)
  have "flow_pre ?f" by (rule closeStream_pre [OF assms(1,2)])
  from drainWaiters_granted [OF this d] flow_inv_open [OF assms(1,2)] show ?thesis by (simp add: out)
qed

text \<open>Bytes and offers in flight on one stream.\<close>

definition up_bytes :: "int \<Rightarrow> upFrame list \<Rightarrow> int" where
  "up_bytes s fr = sum_list (map (\<lambda>x. case x of UpData t n \<Rightarrow> if t = s then n else 0 | _ \<Rightarrow> 0) fr)"

definition down_bytes :: "int \<Rightarrow> downFrame list \<Rightarrow> int" where
  "down_bytes s fr = sum_list (map (\<lambda>x. case x of DownUpdate t n \<Rightarrow> if t = s then n else 0 | _ \<Rightarrow> 0) fr)"

definition offers :: "int \<Rightarrow> downFrame list \<Rightarrow> int list" where
  "offers s fr = concat (map (\<lambda>x. case x of DownOpen t n \<Rightarrow> if t = s then [n] else [] | _ \<Rightarrow> []) fr)"

lemma in_flight_simps [simp]:
  "up_bytes s [] = 0" "up_bytes s (x # xs) = (case x of UpData t n \<Rightarrow> if t = s then n else 0 | _ \<Rightarrow> 0) + up_bytes s xs"
  "up_bytes s (xs @ ys) = up_bytes s xs + up_bytes s ys"
  "down_bytes s [] = 0" "down_bytes s (y # zs) = (case y of DownUpdate t n \<Rightarrow> if t = s then n else 0 | _ \<Rightarrow> 0) + down_bytes s zs"
  "down_bytes s (zs @ ws) = down_bytes s zs + down_bytes s ws"
  "offers s [] = []" "offers s (y # zs) = (case y of DownOpen t n \<Rightarrow> if t = s then [n] else [] | _ \<Rightarrow> []) @ offers s zs"
  "offers s (zs @ ws) = offers s zs @ offers s ws"
  by (simp_all add: up_bytes_def down_bytes_def offers_def)

lemma up_bytes_granted [simp]: "up_bytes s (map (\<lambda>(s, n). UpData s n) fr) = bytes_on s fr"
  by (induction fr) auto

definition frames_ok :: "upFrame list \<Rightarrow> downFrame list \<Rightarrow> frames \<Rightarrow> bool" where
  "frames_ok up down unreleased = ((\<forall>s n. UpData s n \<in> set up \<longrightarrow> 0 < n) \<and> (\<forall>s n. DownUpdate s n \<in> set down \<longrightarrow> 0 < n) \<and>
     (\<forall>s n. DownOpen s n \<in> set down \<longrightarrow> 0 < s \<and> 0 < n) \<and> positive_frames unreleased)"

lemma in_flight_nonneg:
  "(\<forall>s n. UpData s n \<in> set up \<longrightarrow> 0 < n) \<Longrightarrow> 0 \<le> up_bytes s up"
  "(\<forall>s n. DownUpdate s n \<in> set down \<longrightarrow> 0 < n) \<Longrightarrow> 0 \<le> down_bytes s down"
  unfolding up_bytes_def down_bytes_def
  by (rule sum_list_nonneg, force split: upFrame.splits downFrame.splits)+

text \<open>
  What both ends hold of one stream: the client's credit, the gateway's limit and the bytes it has consumed and
  not released, the DATA in flight, the chunks credited and not yet released, the WINDOW_UPDATEs in flight and the
  offers to open it.
\<close>

fun stream_account :: "streamCredit option \<Rightarrow> int option \<Rightarrow> int \<Rightarrow> int \<Rightarrow> int \<Rightarrow> int \<Rightarrow> int list \<Rightarrow> bool \<Rightarrow> bool" where
  "stream_account (Some st) lim used up unreleased down opening fresh =
     (opening = [] \<and> \<not> fresh \<and> (case lim of
        Some l \<Rightarrow> l = available st + outstanding st \<and> unreleased \<le> used \<and> outstanding st = up + (used - unreleased) + down
      | None \<Rightarrow> up + down \<le> outstanding st))"
| "stream_account None lim used up unreleased down opening fresh =
     ((lim \<noteq> None \<longrightarrow> unreleased \<le> used) \<and>
      (opening \<noteq> [] \<or> fresh \<longrightarrow> used = 0 \<and> up = 0 \<and> unreleased = 0 \<and> down = 0) \<and>
      (opening \<noteq> [] \<longrightarrow> \<not> fresh \<and> (\<exists>n. opening = [n] \<and> (lim = None \<or> lim = Some n))) \<and> (fresh \<longrightarrow> lim = None))"

definition link_inv :: "link \<Rightarrow> bool" where
  "link_inv k = (flow_inv (l_client k) \<and> \<not> closed (l_client k) \<and> gateway_inbound_inv (l_gateway k) \<and>
     initialConnectionBytes (l_client k) = inboundInitialBytes (l_gateway k) \<and>
     frames_ok (l_up k) (l_down k) (l_unreleased k) \<and>
     (\<forall>s. stream_account (map_get (streams (l_client k)) s) (gateway_limit (l_gateway k) s) (gateway_used (l_gateway k) s)
        (up_bytes s (l_up k)) (bytes_on s (l_unreleased k)) (down_bytes s (l_down k)) (offers s (l_down k)) (l_lastId k < s)))"

lemma link_invD:
  assumes "link_inv k"
  shows "flow_inv (l_client k)" "\<not> closed (l_client k)" "gateway_inbound_inv (l_gateway k)"
    "initialConnectionBytes (l_client k) = inboundInitialBytes (l_gateway k)" "frames_ok (l_up k) (l_down k) (l_unreleased k)"
    "stream_account (map_get (streams (l_client k)) s) (gateway_limit (l_gateway k) s) (gateway_used (l_gateway k) s)
        (up_bytes s (l_up k)) (bytes_on s (l_unreleased k)) (down_bytes s (l_down k)) (offers s (l_down k)) (l_lastId k < s)"
  using assms by (simp_all add: link_inv_def)

lemma account_granted:
  assumes "stream_account (map_get ss s) lim used up unreleased down opening fresh" "credit_granted conn ss conn' ss' fr"
  shows "stream_account (map_get ss' s) lim used (up + bytes_on s fr) unreleased down opening fresh"
  using assms by (cases "map_get ss s") (auto simp: credit_granted_def split: option.splits)

lemma client_after_inv:
  assumes "flow_inv f'" "\<not> closed f'" "initialConnectionBytes f' = inboundInitialBytes (l_gateway k)"
    "gateway_inbound_inv (l_gateway k)" "frames_ok (l_up k) (l_down k) (l_unreleased k)"
    "credit_granted conn ss (connectionAvailable f') (streams f') (granted out)"
    "\<And>s. stream_account (map_get ss s) (gateway_limit (l_gateway k) s) (gateway_used (l_gateway k) s)
        (up_bytes s (l_up k)) (bytes_on s (l_unreleased k)) (down_bytes s (l_down k)) (offers s (l_down k)) (l_lastId k < s)"
  shows "link_inv (client_after (out, f') k)"
proof -
  have "frames_ok (l_up k @ map (\<lambda>(s, n). UpData s n) (granted out)) (l_down k) (l_unreleased k)"
    using assms(5,6) by (auto simp: frames_ok_def credit_granted_def)
  with assms(1-4) account_granted [OF assms(7,6)] show ?thesis by (simp add: link_inv_def client_after_def)
qed

lemma client_sends_inv: "link_inv k \<Longrightarrow> link_inv (link_event k (ClientSends s n ticket))"
proof -
  assume inv: "link_inv k"
  note i = link_invD [OF inv]
  show ?thesis
  proof (cases "take_credit (l_client k) s (Integral n) ticket")
    case (Pair r f')
    show ?thesis
    proof (cases r)
      case (Inl e)
      then have "f' = l_client k" using Pair by (auto simp: take_credit_def split: if_splits prod.splits)
      with Inl Pair inv show ?thesis by simp
    next
      case (Inr out)
      with Pair have t: "take_credit (l_client k) s (Integral n) ticket = (Inr out, f')" by simp
      from take_credit_granted [OF i(1) t] have "link_inv (client_after (out, f') k)"
        using i(4) by (intro client_after_inv [OF _ _ _ i(3,5) _ i(6)]) auto
      with t show ?thesis by simp
    qed
  qed
qed

text \<open>The client closes its window of a stream, having sent END or a reset, or received one.\<close>

lemma closing_inv:
  assumes "link_inv k" "l_up k' = l_up k @ ups" "\<And>t n. UpData t n \<notin> set ups" "l_client k' = l_client k" "l_gateway k' = l_gateway k"
    "l_down k' = l_down k" "l_unreleased k' = l_unreleased k" "l_lastId k' = l_lastId k"
  shows "link_inv (client_after (closeStream (l_client k) s) k')"
proof -
  note i = link_invD [OF assms(1)]
  have up: "up_bytes t ups = 0" for t
    using assms(3) by (induction ups) (force split: upFrame.split)+
  have ok: "frames_ok (l_up k') (l_down k') (l_unreleased k')" using i(5) assms by (auto simp: frames_ok_def)
  show ?thesis
  proof (cases "map_get (streams (l_client k)) s")
    case None
    then have "closeStream (l_client k) s = ([], l_client k)" by (simp add: closeStream_def)
    with i ok up show ?thesis by (auto simp: client_after_def link_inv_def assms)
  next
    case (Some st)
    obtain out f' where c: "closeStream (l_client k) s = (out, f')" by fastforce
    note g = closeStream_granted [OF i(1) Some c]
    have "stream_account (map_get (map_delete (streams (l_client k)) s) t) (gateway_limit (l_gateway k') t) (gateway_used (l_gateway k') t)
        (up_bytes t (l_up k')) (bytes_on t (l_unreleased k')) (down_bytes t (l_down k')) (offers t (l_down k')) (l_lastId k' < t)" for t
      using i(6) [of t] Some up [of t] by (cases "t = s") (auto simp: assms jsmap_simps split: option.splits)
    with g i(3,4) ok show ?thesis unfolding c by (intro client_after_inv) (auto simp: assms(4,5))
  qed
qed

lemma client_update_inv:
  assumes inv: "link_inv k" and down: "l_down k = DownUpdate s n # rest"
  shows "link_inv (client_receives (k\<lparr>l_down := rest\<rparr>) (DownUpdate s n)) \<and>
    l_refused (client_receives (k\<lparr>l_down := rest\<rparr>) (DownUpdate s n)) = l_refused k"
proof -
  note i = link_invD [OF inv]
  let ?f = "l_client k" and ?w = "l_gateway k"
  have ok: "frames_ok (l_up k) rest (l_unreleased k)" and pos: "0 < n" using i(5) down by (auto simp: frames_ok_def)
  show ?thesis
  proof (cases "map_get (streams ?f) s")
    case None
    have "stream_account (map_get (streams ?f) t) (gateway_limit ?w t) (gateway_used ?w t) (up_bytes t (l_up k))
        (bytes_on t (l_unreleased k)) (down_bytes t rest) (offers t rest) (l_lastId k < t)" for t
      using i(6) [of t] None down in_flight_nonneg(2) [of rest t] ok pos by (cases "t = s") (auto simp: frames_ok_def)
    with None i ok show ?thesis by (simp add: link_inv_def)
  next
    case (Some st)
    have nonneg: "0 \<le> up_bytes s (l_up k)" "0 \<le> down_bytes s rest"
      using ok in_flight_nonneg by (auto simp: frames_ok_def)
    then have le: "n \<le> outstanding st"
      using i(6) [of s] Some down gateway_window.used_bounds [OF i(3), of s] by (auto split: option.splits)
    with update_credit_ok [OF i(1) Some pos] obtain out f' where u: "update_credit ?f s (Integral n) = (Inr out, f')"
      by (metis is_ok.elims(2) prod.collapse)
    let ?ss = "map_set (streams ?f) s (st\<lparr>outstanding := outstanding st - n, available := available st + n\<rparr>)"
    from update_credit_granted [OF i(1) u] Some have g: "flow_inv f'" "\<not> closed f'" "initialConnectionBytes f' = initialConnectionBytes ?f"
      "credit_granted (connectionAvailable ?f + n) ?ss (connectionAvailable f') (streams f') (granted out)" by auto
    have "stream_account (map_get ?ss t) (gateway_limit ?w t) (gateway_used ?w t) (up_bytes t (l_up k))
        (bytes_on t (l_unreleased k)) (down_bytes t rest) (offers t rest) (l_lastId k < t)" for t
      using i(6) [of t] Some down by (cases "t = s") (auto simp: map_get_set split: option.splits)
    with g i(3,4) ok have "link_inv (client_after (out, f') (k\<lparr>l_down := rest\<rparr>))" by (intro client_after_inv) auto
    with u Some show ?thesis by (simp add: client_result_def) (simp add: client_after_def)
  qed
qed

lemma client_receives_inv:
  assumes inv: "link_inv k" and down: "l_down k = x # rest"
  shows "link_inv (client_receives (k\<lparr>l_down := rest\<rparr>) x) \<and> l_refused (client_receives (k\<lparr>l_down := rest\<rparr>) x) = l_refused k"
proof -
  note i = link_invD [OF inv]
  let ?f = "l_client k" and ?w = "l_gateway k"
  have ok: "frames_ok (l_up k) rest (l_unreleased k)" using i(5) down by (auto simp: frames_ok_def)
  note inside = client_after_inv [where k = "k\<lparr>l_down := rest\<rparr>"]
  show ?thesis
  proof (cases x)
    case (DownOpen s n)
    have pos: "0 < s" "0 < n" using i(5) down DownOpen by (auto simp: frames_ok_def)
    have none: "map_get (streams ?f) s = None" using i(6) [of s] down DownOpen by (cases "map_get (streams ?f) s") auto
    obtain out f' where o: "openStream ?f (Integral s) (Integral n) = (Inr out, f')"
      using pos none i(2) by (simp add: openStream_def guard_simps Let_def split_beta)
    have "stream_account (map_get (map_set (streams ?f) s \<lparr>available = n, outstanding = 0\<rparr>) t) (gateway_limit ?w t) (gateway_used ?w t)
        (up_bytes t (l_up k)) (bytes_on t (l_unreleased k)) (down_bytes t rest) (offers t rest) (l_lastId k < t)" for t
      using i(6) [of t] none DownOpen down by (cases "t = s") (auto simp: map_get_set split: option.splits)
    with openStream_granted [OF i(1) o] i(3,4) ok have "link_inv (client_after (out, f') (k\<lparr>l_down := rest\<rparr>))"
      by (intro inside) auto
    with o DownOpen show ?thesis by (simp add: client_result_def) (simp add: client_after_def)
  next
    case (DownUpdate s n)
    with client_update_inv [OF inv] down show ?thesis by blast
  next
    case (DownReset s)
    then have "link_inv (k\<lparr>l_down := rest\<rparr>)" using i ok down by (simp add: link_inv_def)
    from closing_inv [OF this, of "k\<lparr>l_down := rest\<rparr>" "[]" s] DownReset show ?thesis by (simp add: client_after_def)
  qed
qed

section \<open>The gateway's side\<close>

lemma gateway_side_inv:
  assumes "link_inv k" "gateway_inbound_inv w" "inboundInitialBytes w = inboundInitialBytes (l_gateway k)"
    "l_client k' = l_client k" "l_gateway k' = w" "frames_ok (l_up k') (l_down k') (l_unreleased k')"
    "\<And>s. stream_account (map_get (streams (l_client k)) s) (gateway_limit w s) (gateway_used w s)
        (up_bytes s (l_up k')) (bytes_on s (l_unreleased k')) (down_bytes s (l_down k')) (offers s (l_down k')) (l_lastId k' < s)"
  shows "link_inv k'"
  using assms by (simp add: link_inv_def)

lemma consumed_retired:
  assumes "gateway_inbound_inv w" "gateway_consumeRetiredData w s n = (r, w')"
  shows "gateway_inbound_inv w'" "gateway_limit w' = gateway_limit w" "gateway_used w' = gateway_used w"
    "inboundInitialBytes w' = inboundInitialBytes w"
  using assms gateway_consumeRetiredData_inv [OF assms(1), of s n]
  by (auto simp: gateway_consumeRetiredData_def fun_eq_iff gateway_limit_def gateway_used_def split: prod.splits sum.splits)

lemma closed_stream:
  assumes "gateway_inbound_inv w" "gateway_closeStream w s = (r, w')"
  shows "gateway_inbound_inv w'" "r = Inr ()" "gateway_limit w' = (gateway_limit w)(s := None)"
    "gateway_used w' = (gateway_used w)(s := 0)" "inboundInitialBytes w' = inboundInitialBytes w"
proof -
  show "gateway_inbound_inv w'" using gateway_closeStream_inv [OF assms(1), of s] assms(2) by simp
  have w': "r = Inr ()" "w' = (case map_get (inboundStreams w) s of None \<Rightarrow> w
    | Some c \<Rightarrow> w\<lparr>inboundStreams := map_delete (inboundStreams w) s, inboundAvailable := inboundAvailable w + outstandingBytes c\<rparr>)"
    using assms by (simp_all add: gateway_closeStream_eq)
  then show "r = Inr ()" "gateway_limit w' = (gateway_limit w)(s := None)" "gateway_used w' = (gateway_used w)(s := 0)"
    "inboundInitialBytes w' = inboundInitialBytes w"
    by (auto simp: fun_eq_iff gateway_limit_def gateway_used_def jsmap_simps split: option.split)
qed

lemma retired_stream:
  assumes "gateway_inbound_inv w" "gateway_retireStream w s = (r, w')"
  shows "gateway_inbound_inv w'" "inboundInitialBytes w' = inboundInitialBytes w"
    "(gateway_limit w' = gateway_limit w \<and> gateway_used w' = gateway_used w) \<or>
     (gateway_limit w' = (gateway_limit w)(s := None) \<and> gateway_used w' = (gateway_used w)(s := 0))"
proof -
  show inv: "gateway_inbound_inv w'" using gateway_retireStream_inv [OF assms(1), of s] assms(2) by simp
  show "inboundInitialBytes w' = inboundInitialBytes w"
    "(gateway_limit w' = gateway_limit w \<and> gateway_used w' = gateway_used w) \<or>
     (gateway_limit w' = (gateway_limit w)(s := None) \<and> gateway_used w' = (gateway_used w)(s := 0))"
    using assms(2)
    by (auto simp: gateway_retireStream_def gateway_closeStream_def Let_def gateway_limit_def gateway_used_def fun_eq_iff
        jsmap_simps split: option.splits prod.splits sum.splits if_splits)
qed

lemma gateway_data_inv:
  assumes inv: "link_inv k" and up: "l_up k = UpData s n # rest"
  shows "l_refused (gateway_receives (k\<lparr>l_up := rest\<rparr>) (UpData s n)) \<or> link_inv (gateway_receives (k\<lparr>l_up := rest\<rparr>) (UpData s n))"
proof -
  note i = link_invD [OF inv]
  let ?w = "l_gateway k" and ?k = "gateway_receives (k\<lparr>l_up := rest\<rparr>) (UpData s n)"
  have ok: "frames_ok rest (l_down k) (l_unreleased k)" and pos: "0 < n" using i(5) up by (auto simp: frames_ok_def)
  have rest: "0 \<le> up_bytes s rest" using ok in_flight_nonneg by (auto simp: frames_ok_def)
  show ?thesis
  proof (cases "map_has (inboundStreams ?w) s")
    case True
    obtain r w' where c: "gateway_consume ?w s (Integral n) = (r, w')" by fastforce
    then have k: "?k = k\<lparr>l_up := rest, l_gateway := w', l_refused := \<not> is_ok r\<rparr>" using True by (simp add: gateway_result_def)
    show ?thesis
    proof (cases r)
      case (Inr u)
      with c have "gateway_consume ?w s (Integral n) = (Inr (), w')" by simp
      note e = gateway_window.consume_effect [OF i(3) this]
      have "stream_account (map_get (streams (l_client k)) t) (gateway_limit w' t) (gateway_used w' t)
          (up_bytes t rest) (bytes_on t (l_unreleased k)) (down_bytes t (l_down k)) (offers t (l_down k)) (l_lastId k < t)" for t
        using i(6) [of t] e up pos rest
        by (cases "map_get (streams (l_client k)) t") (auto split: if_splits option.splits)
      with e ok show ?thesis unfolding k by (intro disjI2 gateway_side_inv [OF inv, where w = w']) auto
    qed (use True c in \<open>simp add: gateway_result_def\<close>)
  next
    case False
    obtain r w' where c: "gateway_consumeRetiredData ?w s (Integral n) = (r, w')" by fastforce
    then have k: "?k = k\<lparr>l_up := rest, l_gateway := w', l_refused := \<not> is_ok r\<rparr>" using False by (simp add: gateway_result_def)
    have "gateway_limit ?w s = None" using False by (simp add: gateway_limit_def)
    then have "stream_account (map_get (streams (l_client k)) t) (gateway_limit ?w t) (gateway_used ?w t)
        (up_bytes t rest) (bytes_on t (l_unreleased k)) (down_bytes t (l_down k)) (offers t (l_down k)) (l_lastId k < t)" for t
      using i(6) [of t] up pos rest
      by (cases "map_get (streams (l_client k)) t") (auto split: if_splits option.splits)
    with consumed_retired [OF i(3) c] ok show ?thesis unfolding k by (intro disjI2 gateway_side_inv [OF inv, where w = w']) auto
  qed
qed

lemma gateway_receives_inv:
  assumes inv: "link_inv k" and up: "l_up k = x # rest"
  shows "l_refused (gateway_receives (k\<lparr>l_up := rest\<rparr>) x) \<or> link_inv (gateway_receives (k\<lparr>l_up := rest\<rparr>) x)"
proof -
  note i = link_invD [OF inv]
  let ?w = "l_gateway k" and ?k = "gateway_receives (k\<lparr>l_up := rest\<rparr>) x"
  have ok: "frames_ok rest (l_down k) (l_unreleased k)" using i(5) up by (auto simp: frames_ok_def)
  show ?thesis
  proof (cases x)
    case (UpData s n)
    with gateway_data_inv [OF inv] up show ?thesis by blast
  next
    case (UpEnd s)
    with i ok up show ?thesis by (simp add: link_inv_def)
  next
    case (UpReset s)
    obtain r w' where c: "gateway_closeStream ?w s = (r, w')" by fastforce
    then have k: "?k = k\<lparr>l_up := rest, l_gateway := w', l_refused := \<not> is_ok r\<rparr>" by (simp add: UpReset gateway_result_def)
    have "stream_account (map_get (streams (l_client k)) t) (gateway_limit w' t) (gateway_used w' t)
        (up_bytes t rest) (bytes_on t (l_unreleased k)) (down_bytes t (l_down k)) (offers t (l_down k)) (l_lastId k < t)" for t
      using i(6) [of t] up UpReset closed_stream [OF i(3) c]
      by (cases "map_get (streams (l_client k)) t") (auto split: if_splits option.splits)
    with closed_stream [OF i(3) c] ok show ?thesis unfolding k by (intro disjI2 gateway_side_inv [OF inv, where w = w']) auto
  qed
qed

lemma gateway_opens_inv: "link_inv k \<Longrightarrow> link_inv (link_event k (GatewayOpens s n))"
proof -
  assume inv: "link_inv k"
  note i = link_invD [OF inv]
  show ?thesis
  proof (cases "l_lastId k < s \<and> is_ok (fst (gateway_openStream (l_gateway k) (Integral s) (Integral n)))")
    case True
    then obtain w where o: "gateway_openStream (l_gateway k) (Integral s) (Integral n) = (Inr (), w)"
      by (cases "gateway_openStream (l_gateway k) (Integral s) (Integral n)") (auto elim: is_ok.elims)
    have pos: "0 < s" "0 < n" using o by (auto simp: gateway_openStream_def guard_simps split: if_splits)
    note e = gateway_window.open_effect [OF i(3) o]
    have "stream_account (map_get (streams (l_client k)) t) (gateway_limit w t) (gateway_used w t)
        (up_bytes t (l_up k)) (bytes_on t (l_unreleased k)) (down_bytes t (l_down k @ [DownOpen s n])) (offers t (l_down k @ [DownOpen s n])) (s < t)" for t
      using i(6) [of t] e True by (cases "map_get (streams (l_client k)) t") (auto split: if_splits option.splits)
    moreover have "frames_ok (l_up k) (l_down k @ [DownOpen s n]) (l_unreleased k)" using i(5) pos by (auto simp: frames_ok_def)
    ultimately show ?thesis using True o e by (simp, intro gateway_side_inv [OF inv, where w = w]) auto
  next
    case False
    with inv show ?thesis by (auto split: prod.split sum.split)
  qed
qed

lemma gateway_credits_inv: "link_inv k \<Longrightarrow> link_inv (link_event k (GatewayCredits s n))"
proof -
  assume inv: "link_inv k"
  note i = link_invD [OF inv]
  show ?thesis
  proof (cases "map_has (inboundStreams (l_gateway k)) s \<and> 0 < n \<and> bytes_on s (l_unreleased k) + n \<le> gateway_used (l_gateway k) s")
    case True
    have "gateway_limit (l_gateway k) s \<noteq> None" using True by (auto simp: gateway_limit_def)
    moreover have "0 \<le> bytes_on s (l_unreleased k)" using i(5) by (auto simp: frames_ok_def intro: bytes_nonneg)
    ultimately have "stream_account (map_get (streams (l_client k)) t) (gateway_limit (l_gateway k) t) (gateway_used (l_gateway k) t) (up_bytes t (l_up k))
        (bytes_on t (l_unreleased k @ [(s, n)])) (down_bytes t (l_down k @ [DownUpdate s n])) (offers t (l_down k @ [DownUpdate s n])) (l_lastId k < t)" for t
      using i(6) [of t] True by (cases "map_get (streams (l_client k)) t") (auto split: if_splits option.splits)
    moreover have "frames_ok (l_up k) (l_down k @ [DownUpdate s n]) (l_unreleased k @ [(s, n)])" using i(5) True by (auto simp: frames_ok_def)
    ultimately show ?thesis using True i(3) by (simp, intro gateway_side_inv [OF inv, where w = "l_gateway k"]) auto
  qed (use inv in auto)
qed

lemma released_frames:
  assumes "j < length fr" "fr ! j = (s, n)"
  shows "bytes_on t fr = (if t = s then n else 0) + bytes_on t (take j fr @ drop (Suc j) fr)"
    "set (take j fr @ drop (Suc j) fr) \<subseteq> set fr" "(s, n) \<in> set fr"
proof -
  have "fr = take j fr @ (s, n) # drop (Suc j) fr" using id_take_nth_drop [OF assms(1)] assms(2) by simp
  then have "bytes_on t fr = bytes_on t (take j fr @ (s, n) # drop (Suc j) fr)" by (rule arg_cong)
  then show "bytes_on t fr = (if t = s then n else 0) + bytes_on t (take j fr @ drop (Suc j) fr)"
    unfolding bytes_on_simps by auto
  show "set (take j fr @ drop (Suc j) fr) \<subseteq> set fr" using set_take_subset [of j fr] set_drop_subset [of "Suc j" fr] by auto
  show "(s, n) \<in> set fr" using assms nth_mem by fastforce
qed

lemma gateway_releases_inv: "link_inv k \<Longrightarrow> link_inv (link_event k (GatewayReleases j))"
proof -
  assume inv: "link_inv k"
  note i = link_invD [OF inv]
  show ?thesis
  proof (cases "j < length (l_unreleased k)")
    case True
    obtain s n where sn: "l_unreleased k ! j = (s, n)" by fastforce
    let ?un = "take j (l_unreleased k) @ drop (Suc j) (l_unreleased k)"
    note un = released_frames [OF True sn]
    have ok: "frames_ok (l_up k) (l_down k) ?un" and pos: "0 < n"
      using i(5) un(2,3) unfolding frames_ok_def by (blast, fastforce)
    have nonneg: "0 \<le> bytes_on s ?un" using ok unfolding frames_ok_def by (blast intro: bytes_nonneg)
    show ?thesis
    proof (cases "map_has (inboundStreams (l_gateway k)) s")
      case False
      then have "gateway_limit (l_gateway k) s = None" by (simp add: gateway_limit_def)
      then have "stream_account (map_get (streams (l_client k)) t) (gateway_limit (l_gateway k) t) (gateway_used (l_gateway k) t) (up_bytes t (l_up k))
          (bytes_on t ?un) (down_bytes t (l_down k)) (offers t (l_down k)) (l_lastId k < t)" for t
        using i(6) [of t] un(1) [of t] nonneg pos by (cases "map_get (streams (l_client k)) t") (auto split: if_splits option.splits)
      with ok i(3) show ?thesis using True sn False
        by (simp add: Let_def del: append_take_drop_id, intro gateway_side_inv [OF inv, where w = "l_gateway k"]) auto
    next
      case has: True
      then have "gateway_limit (l_gateway k) s \<noteq> None" by (auto simp: gateway_limit_def)
      then have "n \<le> gateway_used (l_gateway k) s"
        using i(6) [of s] un(1) [of s] nonneg by (cases "map_get (streams (l_client k)) s") auto
      then obtain w' where r: "gateway_release (l_gateway k) s (Integral n) = (Inr (), w')"
        using has pos by (auto simp: gateway_release_eq [OF i(3)] guard_simps gateway_used_def)
      note e = gateway_window.release_effect [OF i(3) r]
      have "stream_account (map_get (streams (l_client k)) t) (gateway_limit w' t) (gateway_used w' t) (up_bytes t (l_up k))
          (bytes_on t ?un) (down_bytes t (l_down k)) (offers t (l_down k)) (l_lastId k < t)" for t
        using i(6) [of t] un(1) [of t] e nonneg pos by (cases "map_get (streams (l_client k)) t") (auto split: if_splits option.splits)
      with ok e show ?thesis using True sn has r
        by (simp add: Let_def gateway_result_def del: append_take_drop_id, intro gateway_side_inv [OF inv, where w = w']) auto
    qed
  qed (use inv in simp)
qed

text \<open>Whichever way the gateway gives a stream up, what the client still counts as outstanding covers what is in flight.\<close>

lemma gateway_drops_inv:
  assumes inv: "link_inv k" and w: "gateway_inbound_inv w" "inboundInitialBytes w = inboundInitialBytes (l_gateway k)"
    "(gateway_limit w = gateway_limit (l_gateway k) \<and> gateway_used w = gateway_used (l_gateway k)) \<or>
     (gateway_limit w = (gateway_limit (l_gateway k))(s := None) \<and> gateway_used w = (gateway_used (l_gateway k))(s := 0))"
    and down: "l_down k' = l_down k @ downs" "set downs \<subseteq> {DownReset s}"
    and k': "l_client k' = l_client k" "l_gateway k' = w" "l_up k' = l_up k" "l_unreleased k' = l_unreleased k" "l_lastId k' = l_lastId k"
  shows "link_inv k'"
proof -
  note i = link_invD [OF inv]
  have none: "down_bytes t downs = 0" "offers t downs = []" for t using down(2) by (induction downs) auto
  have "frames_ok (l_up k') (l_down k') (l_unreleased k')" using i(5) down unfolding frames_ok_def k' by auto
  moreover have "stream_account (map_get (streams (l_client k)) t) (gateway_limit w t) (gateway_used w t) (up_bytes t (l_up k'))
      (bytes_on t (l_unreleased k')) (down_bytes t (l_down k')) (offers t (l_down k')) (l_lastId k' < t)" for t
    using i(6) [of t] w(3) none [of t]
    by (cases "map_get (streams (l_client k)) t") (auto simp: k' down(1) split: if_splits option.splits)
  ultimately show ?thesis using w k' by (intro gateway_side_inv [OF inv]) auto
qed

lemma link_event_inv: "link_inv k \<Longrightarrow> l_refused (link_event k x) \<or> link_inv (link_event k x)"
proof (cases x)
  case (ResponseFinished s)
  assume inv: "link_inv k"
  obtain r w where c: "gateway_closeStream (l_gateway k) s = (r, w)" by fastforce
  note e = closed_stream [OF link_invD(3) [OF inv] c]
  have "link_inv (k\<lparr>l_gateway := w, l_refused := \<not> is_ok r\<rparr>)"
    by (rule gateway_drops_inv [OF inv e(1,5), where downs = "[]"]) (use e in auto)
  with inv c ResponseFinished show ?thesis by (simp add: gateway_result_def)
next
  case (GatewayResets s)
  assume inv: "link_inv k"
  obtain r w where c: "gateway_retireStream (l_gateway k) s = (r, w)" by fastforce
  note e = retired_stream [OF link_invD(3) [OF inv] c]
  have "link_inv (k\<lparr>l_gateway := w, l_down := l_down k @ [DownReset s]\<rparr>)"
    by (rule gateway_drops_inv [OF inv e, where downs = "[DownReset s]"]) simp_all
  with inv c GatewayResets show ?thesis by (simp split: sum.split)
next
  case GatewayReceives
  assume inv: "link_inv k"
  with GatewayReceives gateway_receives_inv [OF inv] show ?thesis by (auto split: list.split)
next
  case ClientReceives
  assume inv: "link_inv k"
  with ClientReceives client_receives_inv [OF inv] show ?thesis by (auto split: list.split)
next
  case (ClientEnds s)
  assume inv: "link_inv k"
  with ClientEnds closing_inv [OF inv, of "k\<lparr>l_up := l_up k @ [UpEnd s]\<rparr>" "[UpEnd s]" s] show ?thesis by simp
next
  case (ClientResets s)
  assume inv: "link_inv k"
  with ClientResets closing_inv [OF inv, of "k\<lparr>l_up := l_up k @ [UpReset s]\<rparr>" "[UpReset s]" s] show ?thesis by simp
qed (blast intro: gateway_opens_inv gateway_credits_inv gateway_releases_inv client_sends_inv)+

definition link_ok :: "link \<Rightarrow> bool" where
  "link_ok k = (l_refused k \<or> link_inv k)"

lemma fresh_link_inv:
  assumes "new_outboundFlow (Integral bytes) = Inr f" "new_gatewayInbound (Integral bytes) maximumFrames = Inr w"
  shows "link_inv (fresh_link f w)"
  using assms new_outboundFlow_inv [OF assms(1)] new_gatewayInbound_inv [OF assms(2)]
  by (auto simp: link_inv_def fresh_link_def frames_ok_def new_outboundFlow_def new_gatewayInbound_def
      gateway_limit_def gateway_used_def guard_simps split: if_splits sum.splits)

interpretation response_link: invariant_machine
  "\<lambda>k. \<exists>f w bytes maximumFrames. k = fresh_link f w \<and> new_outboundFlow (Integral bytes) = Inr f \<and>
     new_gatewayInbound (Integral bytes) maximumFrames = Inr w" link_step link_ok
  by unfold_locales (auto simp: link_ok_def link_step_def fresh_link_inv dest: link_event_inv)

section \<open>Connection credit\<close>

lemma sum_values_keys: "wf_map m \<Longrightarrow> sum_values f m = (\<Sum>k \<in> set (map fst m). f (the (map_get m k)))"
proof (induction m)
  case (Cons p m)
  obtain a v where p: "p = (a, v)" by fastforce
  from Cons.prems p have fresh: "a \<notin> set (map fst m)" "wf_map m" by auto
  have "(\<Sum>k \<in> set (map fst m). f (the (map_get (p # m) k))) = (\<Sum>k \<in> set (map fst m). f (the (map_get m k)))"
    using fresh by (intro sum.cong) (auto simp: p)
  with Cons.IH fresh show ?case by (simp add: p sum_values_Cons)
qed simp

lemma map_has_keys: "map_has m t \<longleftrightarrow> t \<in> set (map fst m)"
  by (simp only: map_of_eq_None_iff set_map not_not)

lemma sum_values_dominated:
  assumes wf: "wf_map m" "wf_map m'" and s: "map_has m s" "map_has m' s"
    and both: "\<And>t v v'. map_get m t = Some v \<Longrightarrow> map_get m' t = Some v' \<Longrightarrow> g v + (if t = s then n else 0) \<le> h v'"
    and gone: "\<And>t v. map_get m t = Some v \<Longrightarrow> map_get m' t = None \<Longrightarrow> g v = 0"
    and nonneg: "\<And>t v'. map_get m' t = Some v' \<Longrightarrow> 0 \<le> h v'"
  shows "sum_values g m + n \<le> sum_values h m'"
proof -
  let ?M = "set (map fst m)" and ?M' = "set (map fst m')"
  let ?g = "\<lambda>t. g (the (map_get m t)) + (if t = s then n else 0)" and ?h = "\<lambda>t. h (the (map_get m' t))"
  have "s \<in> ?M" using s(1) unfolding map_has_keys .
  then have "sum_values g m + n = sum ?g ?M" using wf(1) by (simp add: sum_values_keys sum.distrib sum.delta)
  also have "\<dots> = sum ?g (?M \<inter> ?M')"
  proof (intro sum.mono_neutral_right ballI)
    fix t assume "t \<in> ?M - ?M \<inter> ?M'"
    then have "map_has m t" "map_get m' t = None" unfolding map_has_keys by (simp_all add: map_of_eq_None_iff)
    then show "?g t = 0" using gone s(2) by auto
  qed auto
  also have "\<dots> \<le> sum ?h (?M \<inter> ?M')"
  proof (intro sum_mono)
    fix t assume "t \<in> ?M \<inter> ?M'"
    then have "map_has m t" "map_has m' t" unfolding map_has_keys by blast+
    then show "?g t \<le> ?h t" using both by auto
  qed
  also have "\<dots> \<le> sum ?h ?M'"
  proof (intro sum_mono2)
    fix t assume "t \<in> ?M' - ?M \<inter> ?M'"
    then have "map_has m' t" unfolding map_has_keys by blast
    then show "0 \<le> ?h t" using nonneg by auto
  qed auto
  also have "\<dots> = sum_values h m'" using wf(2) by (simp add: sum_values_keys)
  finally show ?thesis .
qed

text \<open>
  The state in which the two windows agree: no credited chunk is still to be released, and every byte that is in flight
  or that the gateway holds belongs to a stream that is open; at both ends for the bytes in flight, at the client
  for those held.
\<close>

definition settled :: "link \<Rightarrow> bool" where
  "settled k = (l_unreleased k = [] \<and>
     list_all (\<lambda>x. case x of UpData s _ \<Rightarrow> map_has (streams (l_client k)) s \<and> map_has (inboundStreams (l_gateway k)) s | _ \<Rightarrow> True) (l_up k) \<and>
     list_all (\<lambda>(s, c). outstandingBytes c = 0 \<or> map_has (streams (l_client k)) s) (inboundStreams (l_gateway k)))"

lemma data_accepted:
  assumes inv: "link_inv k" and "settled k" and up: "l_up k = UpData s n # rest"
  shows "fst (gateway_consume (l_gateway k) s (Integral n)) = Inr ()"
proof -
  note i = link_invD [OF inv]
  let ?f = "l_client k" and ?w = "l_gateway k"
  have un: "l_unreleased k = []" and held: "\<And>t c. (t, c) \<in> set (inboundStreams ?w) \<Longrightarrow> outstandingBytes c = 0 \<or> map_has (streams ?f) t"
    using assms(2) by (auto simp: settled_def list_all_iff)
  obtain st c where st: "map_get (streams ?f) s = Some st" and c: "map_get (inboundStreams ?w) s = Some c"
    using assms(2) by (auto simp: settled_def up)
  have pos: "0 < n" and nonneg: "0 \<le> up_bytes t rest" "0 \<le> down_bytes t (l_down k)" for t
    using i(5) in_flight_nonneg by (auto simp: frames_ok_def up)
  have wf: "wf_map (inboundStreams ?w)" "wf_map (streams ?f)" "credits_ok (connectionAvailable ?f) (streams ?f)" "0 \<le> connectionAvailable ?f"
    "connectionAvailable ?f + total_outstanding (streams ?f) = initialConnectionBytes ?f"
    using i(1-3) by (auto simp: gateway_inbound_inv_def flow_inv_def credits_ok_def)
  have "sum_values outstandingBytes (inboundStreams ?w) + n \<le> total_outstanding (streams ?f)"
  proof (rule sum_values_dominated [OF wf(1,2)])
    show "map_has (inboundStreams ?w) s" "map_has (streams ?f) s" using st c by simp_all
    show "outstandingBytes v + (if t = s then n else 0) \<le> outstanding v'"
      if "map_get (inboundStreams ?w) t = Some v" "map_get (streams ?f) t = Some v'" for t v v'
      using i(6) [of t] that un nonneg [of t] by (auto simp: gateway_limit_def gateway_used_def up split: if_splits)
    show "outstandingBytes v = 0" if "map_get (inboundStreams ?w) t = Some v" "map_get (streams ?f) t = None" for t v
      using that held map_of_SomeD by fastforce
    show "0 \<le> outstanding v'" if "map_get (streams ?f) t = Some v'" for t v' using credits_okD [OF wf(3) that] by simp
  qed
  then have "n \<le> inboundAvailable ?w" using wf(4,5) i(4) inbound_invD(2) [OF i(3)] by simp
  moreover have "n \<le> availableBytes c"
    using i(6) [of s] st c un nonneg [of s] inbound_creditD(3) [OF i(3) c] credits_okD [OF wf(3) st]
    by (force simp: gateway_limit_def gateway_used_def up)
  ultimately show ?thesis using c pos by (simp add: gateway_consume_def guard_simps)
qed

section \<open>Properties\<close>


abbreviation gateway_link :: "linkEvent list \<Rightarrow> link" where
  "gateway_link events \<equiv> run_machine link_step
     (fresh_link \<lparr>initialConnectionBytes = INITIAL_CONNECTION_WINDOW_BYTES, connectionAvailable = INITIAL_CONNECTION_WINDOW_BYTES,
         streams = [], waiters = [], closed = False\<rparr>
       \<lparr>inboundInitialBytes = INITIAL_CONNECTION_WINDOW_BYTES, inboundAvailable = INITIAL_CONNECTION_WINDOW_BYTES, inboundStreams = [],
         retiredData = (case new_retiredBudget (Integral INITIAL_CONNECTION_WINDOW_BYTES) (Integral 64) of Inr b \<Rightarrow> b)\<rparr>) events"

lemma gateway_link_windows:
  "new_outboundFlow (Integral INITIAL_CONNECTION_WINDOW_BYTES) = Inr \<lparr>initialConnectionBytes = INITIAL_CONNECTION_WINDOW_BYTES,
     connectionAvailable = INITIAL_CONNECTION_WINDOW_BYTES, streams = [], waiters = [], closed = False\<rparr>"
  "new_gatewayInbound (Integral INITIAL_CONNECTION_WINDOW_BYTES) (Integral 64) =
     Inr \<lparr>inboundInitialBytes = INITIAL_CONNECTION_WINDOW_BYTES, inboundAvailable = INITIAL_CONNECTION_WINDOW_BYTES, inboundStreams = [],
       retiredData = (case new_retiredBudget (Integral INITIAL_CONNECTION_WINDOW_BYTES) (Integral 64) of Inr b \<Rightarrow> b)\<rparr>"
  by (simp_all add: new_outboundFlow_def new_gatewayInbound_def new_retiredBudget_def guard_simps MAX_SAFE_INTEGER_def
      INITIAL_CONNECTION_WINDOW_BYTES_def)

definition sample_exchange :: "linkEvent list" where
  "sample_exchange = [GatewayOpens 1 65536, ClientReceives, ClientSends 1 32768 0, GatewayReceives, GatewayCredits 1 32768,
     GatewayReleases 0, ClientReceives, ClientSends 1 32768 1]"


definition slow_response :: "int \<Rightarrow> linkEvent list" where
  "slow_response s = [GatewayOpens s INITIAL_STREAM_WINDOW_BYTES, ClientReceives, ClientSends s MAX_DATA_CHUNK_BYTES 0,
     ClientSends s MAX_DATA_CHUNK_BYTES 1, GatewayReceives, GatewayReceives, ClientEnds s, GatewayReceives]"

definition slow_browsers :: "linkEvent list" where
  "slow_browsers = concat (map slow_response [1, 3, 5, 7]) @
     [GatewayOpens 9 INITIAL_STREAM_WINDOW_BYTES, ClientReceives, ClientSends 9 MAX_DATA_CHUNK_BYTES 0]"

text \<open>
  C33. The gateway refuses the DATA of a client that obeys its window. Four responses of a full stream window are sent and
  ended while their browsers read slowly. On sending END the client gives itself the connection credit back
  that the gateway still counts as held, so the first DATA of a fifth response, for which the client has
  credit on the stream and on the connection, exceeds the gateway's connection credit, which ends the carrier.
\<close>

theorem ended_streams_exhaust_window:
  "\<not> l_refused (gateway_link slow_browsers) \<and> l_up (gateway_link slow_browsers) = [UpData 9 MAX_DATA_CHUNK_BYTES] \<and>
   connectionAvailable (l_client (gateway_link slow_browsers)) = INITIAL_CONNECTION_WINDOW_BYTES - MAX_DATA_CHUNK_BYTES \<and>
   fst (gateway_consume (l_gateway (gateway_link slow_browsers)) 9 (Integral MAX_DATA_CHUNK_BYTES)) = Inl DataExceedsConnectionCredit \<and>
   l_refused (gateway_link (slow_browsers @ [GatewayReceives]))"
proof (intro conjI)
  show "\<not> l_refused (gateway_link slow_browsers)" by code_simp
  show "l_up (gateway_link slow_browsers) = [UpData 9 MAX_DATA_CHUNK_BYTES]" by code_simp
  show "connectionAvailable (l_client (gateway_link slow_browsers)) = INITIAL_CONNECTION_WINDOW_BYTES - MAX_DATA_CHUNK_BYTES" by code_simp
  show "fst (gateway_consume (l_gateway (gateway_link slow_browsers)) 9 (Integral MAX_DATA_CHUNK_BYTES)) = Inl DataExceedsConnectionCredit"
    by code_simp
  show "l_refused (gateway_link (slow_browsers @ [GatewayReceives]))" by code_simp
qed

end
