(* ===== verification/StreamIds.thy ===== *)
theory StreamIds
  imports Prelude
begin

text \<open>
  Stream identifiers: the gateway's allocator \<^verbatim>\<open>apps/gateway/src/gateway-stream-ids.ts\<close> (class
  \<^verbatim>\<open>GatewayStreamIds\<close>) and the client's record of the streams the gateway opened,
  \<^verbatim>\<open>apps/client/src/remote-stream-lifecycle.ts\<close> (class \<^verbatim>\<open>RemoteStreamLifecycle\<close>). The lemmas show that the
  two agree: the ids one issues are the ids the other accepts, up to the exact end of the space.
\<close>

section \<open>The gateway's allocator\<close>

datatype streamIdError = StreamIdSpaceExhausted

text \<open>The allocator's state is \<^verbatim>\<open>#highestIssuedStreamId\<close>.\<close>

definition issue :: "int \<Rightarrow> (streamIdError + int) \<times> int" where
  "issue highest =
    (if highest > 4294967293 then (Inl StreamIdSpaceExhausted, highest)
     else let highest' = (if highest = 0 then 1 else highest + 2) in (Inr highest', highest'))"

definition wasIssued :: "int \<Rightarrow> number \<Rightarrow> bool" where
  "wasIssued highest v =
    (isInteger v \<and> to_int v > 0 \<and> to_int v \<le> highest \<and> to_int v mod 2 = 1)"

definition reset_ids :: "int \<Rightarrow> int" where
  "reset_ids highest = 0"

section \<open>The client's lifecycle\<close>

record remoteStreams =
  activeStreams :: "int list"
  highestOpened :: int

datatype remoteStreamError =
    NotPositiveUint32 | GatewayIdMustBeOdd | ReusedOrReordered int | OutOfSequence int int
  | RetiredRemoteStream int | UnknownRemoteStream int

definition new_remoteStreams :: remoteStreams where
  "new_remoteStreams = \<lparr>activeStreams = [], highestOpened = 0\<rparr>"

definition open_remote :: "remoteStreams \<Rightarrow> number \<Rightarrow> (remoteStreamError + unit) \<times> remoteStreams" where
  "open_remote r v =
    (if \<not> isInteger v \<or> to_int v \<le> 0 \<or> to_int v > 4294967295 then (Inl NotPositiveUint32, r)
     else if to_int v mod 2 = 0 then (Inl GatewayIdMustBeOdd, r)
     else
       let expected = (if highestOpened r = 0 then 1 else highestOpened r + 2) in
       if to_int v \<noteq> expected then
         (if to_int v \<le> highestOpened r then (Inl (ReusedOrReordered (to_int v)), r)
          else (Inl (OutOfSequence (to_int v) expected), r))
       else (Inr (), r\<lparr>highestOpened := to_int v,
         activeStreams := (if to_int v \<in> set (activeStreams r) then activeStreams r
           else activeStreams r @ [to_int v])\<rparr>))"

definition isRetired :: "remoteStreams \<Rightarrow> int \<Rightarrow> bool" where
  "isRetired r streamId =
    (streamId > 0 \<and> streamId \<le> highestOpened r \<and> streamId mod 2 = 1 \<and> streamId \<notin> set (activeStreams r))"

definition requireActive :: "remoteStreams \<Rightarrow> int \<Rightarrow> remoteStreamError + unit" where
  "requireActive r streamId =
    (if streamId \<notin> set (activeStreams r)
     then Inl (if isRetired r streamId then RetiredRemoteStream streamId else UnknownRemoteStream streamId)
     else Inr ())"

definition close_remote :: "remoteStreams \<Rightarrow> int \<Rightarrow> (remoteStreamError + unit) \<times> remoteStreams" where
  "close_remote r streamId =
    (case requireActive r streamId of
       Inl e \<Rightarrow> (Inl e, r)
     | Inr _ \<Rightarrow> (Inr (), r\<lparr>activeStreams := removeAll streamId (activeStreams r)\<rparr>))"

section \<open>Issuing in sequence\<close>

text \<open>The ids that \<open>n\<close> calls of \<^verbatim>\<open>issue\<close> return, up to the first failure.\<close>

fun issue_many :: "nat \<Rightarrow> int \<Rightarrow> int list \<times> int" where
  "issue_many 0 h = ([], h)"
| "issue_many (Suc n) h =
     (case issue h of
        (Inl e, h') \<Rightarrow> ([], h')
      | (Inr i, h') \<Rightarrow> let (is, h'') = issue_many n h' in (i # is, h''))"

fun open_many :: "int list \<Rightarrow> remoteStreams \<Rightarrow> (remoteStreamError + unit) \<times> remoteStreams" where
  "open_many [] r = (Inr (), r)"
| "open_many (i # is) r =
     (case open_remote r (Integral i) of
        (Inl e, r') \<Rightarrow> (Inl e, r')
      | (Inr _, r') \<Rightarrow> open_many is r')"

text \<open>The counter after \<open>k\<close> successful calls.\<close>

definition counter_after :: "nat \<Rightarrow> int" where
  "counter_after k = (if k = 0 then 0 else 2 * int k - 1)"

lemma issue_counter:
  "issue (counter_after k) =
    (if k < 2147483648 then (Inr (2 * int k + 1), counter_after (Suc k))
     else (Inl StreamIdSpaceExhausted, counter_after k))"
  by (auto simp: issue_def counter_after_def Let_def)

lemma issue_many_counter:
  "issue_many n (counter_after k) =
    (map (\<lambda>j. 2 * int j + 1) [k ..< max k (min (k + n) 2147483648)],
     counter_after (max k (min (k + n) 2147483648)))"
proof (induction n arbitrary: k)
  case (Suc n)
  show ?case
  proof (cases "k < 2147483648")
    case True
    then have M: "max k (min (k + Suc n) 2147483648) = max (Suc k) (min (Suc k + n) 2147483648)" by linarith
    have "k < max (Suc k) (min (Suc k + n) 2147483648)" by linarith
    then have "[k ..< max k (min (k + Suc n) 2147483648)] = k # [Suc k ..< max (Suc k) (min (Suc k + n) 2147483648)]"
      unfolding M by (rule upt_conv_Cons)
    with True Suc.IH [of "Suc k"] M show ?thesis by (simp only: issue_many.simps issue_counter) simp
  qed (simp add: issue_counter)
qed simp

lemma open_many_counter:
  assumes "highestOpened r = counter_after k" "\<forall>i \<in> set (activeStreams r). i \<le> counter_after k" "m \<le> 2147483648" "k \<le> m"
  shows "open_many (map (\<lambda>j. 2 * int j + 1) [k ..< m]) r =
    (Inr (), r\<lparr>highestOpened := counter_after m,
      activeStreams := activeStreams r @ map (\<lambda>j. 2 * int j + 1) [k ..< m]\<rparr>)"
  using assms
proof (induction "m - k" arbitrary: k r)
  case 0
  then show ?case by simp
next
  case (Suc d)
  then have km: "k < m" by simp
  let ?r = "r\<lparr>highestOpened := counter_after (Suc k), activeStreams := activeStreams r @ [2 * int k + 1]\<rparr>"
  have fresh: "2 * int k + 1 \<notin> set (activeStreams r)"
    using Suc.prems(2) by (auto simp: counter_after_def split: if_splits)
  have "open_remote r (Integral (2 * int k + 1)) = (Inr (), ?r)"
    using Suc.prems km fresh by (auto simp: open_remote_def Let_def counter_after_def mod_add_eq)
  moreover have "open_many (map (\<lambda>j. 2 * int j + 1) [Suc k ..< m]) ?r =
    (Inr (), ?r\<lparr>highestOpened := counter_after m,
      activeStreams := activeStreams ?r @ map (\<lambda>j. 2 * int j + 1) [Suc k ..< m]\<rparr>)"
    using Suc.prems Suc.hyps(2) km by (intro Suc.hyps(1)) (fastforce simp: counter_after_def split: if_splits)+
  ultimately show ?case using km by (simp add: upt_conv_Cons)
qed

lemma wasIssued_counter:
  "wasIssued (counter_after k) v \<longleftrightarrow> (\<exists>j < k. v = Integral (2 * int j + 1))"
proof (cases v)
  case (Integral i)
  have "(0 < i \<and> i \<le> counter_after k \<and> i mod 2 = 1) \<longleftrightarrow> (\<exists>j < k. i = 2 * int j + 1)"
  proof
    assume i: "0 < i \<and> i \<le> counter_after k \<and> i mod 2 = 1"
    then obtain q where "i = 2 * q + 1" by (metis mult_div_mod_eq)
    with i have "nat q < k" "i = 2 * int (nat q) + 1" by (auto simp: counter_after_def split: if_splits)
    then show "\<exists>j < k. i = 2 * int j + 1" by blast
  qed (auto simp: counter_after_def)
  with Integral show ?thesis by (simp add: wasIssued_def)
qed (simp add: wasIssued_def)

section \<open>Properties\<close>

text \<open>
  The gateway and the client agree on stream ids. However many ids a fresh allocator is asked
  for, it issues 1, 3, 5 and so on, all of them valid 32-bit ids, at most 2147483648 of them, and
  then fails without changing; a fresh client lifecycle accepts exactly that sequence as opens, with
  every stream active; and \<^verbatim>\<open>wasIssued\<close> recognises exactly the issued ids.
\<close>

theorem stream_ids_agree:
  "let (ids, highest) = issue_many n 0 in
    ids = map (\<lambda>j. 2 * int j + 1) [0 ..< min n 2147483648] \<and>
    list_all (\<lambda>i. 0 < i \<and> i \<le> 4294967295) ids \<and>
    open_many ids new_remoteStreams = (Inr (), \<lparr>activeStreams = ids, highestOpened = highest\<rparr>) \<and>
    (\<forall>v. wasIssued highest v = (v \<in> Integral ` set ids)) \<and>
    (fst (issue highest) = Inl StreamIdSpaceExhausted) = (2147483648 \<le> n)"
proof -
  have zero: "(0 :: int) = counter_after 0" by (simp add: counter_after_def)
  have run: "issue_many n 0 = (map (\<lambda>j. 2 * int j + 1) [0 ..< min n 2147483648], counter_after (min n 2147483648))"
    using issue_many_counter [of n 0] by (simp add: zero)
  have "open_many (map (\<lambda>j. 2 * int j + 1) [0 ..< min n 2147483648]) new_remoteStreams =
    (Inr (), \<lparr>activeStreams = map (\<lambda>j. 2 * int j + 1) [0 ..< min n 2147483648],
      highestOpened = counter_after (min n 2147483648)\<rparr>)"
    using open_many_counter [of new_remoteStreams 0 "min n 2147483648"]
    by (simp add: new_remoteStreams_def counter_after_def)
  moreover have "(\<forall>v. wasIssued (counter_after (min n 2147483648)) v =
      (v \<in> Integral ` set (map (\<lambda>j. 2 * int j + 1) [0 ..< min n 2147483648])))"
    by (auto simp: wasIssued_counter image_iff)
  moreover have "(fst (issue (counter_after (min n 2147483648))) = Inl StreamIdSpaceExhausted) = (2147483648 \<le> n)"
    by (auto simp: issue_counter min_def)
  ultimately show ?thesis by (simp add: run list_all_iff)
qed

section \<open>Lifecycle of a remote stream\<close>

definition remote_inv :: "remoteStreams \<Rightarrow> bool" where
  "remote_inv r = (distinct (activeStreams r) \<and> 0 \<le> highestOpened r \<and> highestOpened r \<le> 4294967295 \<and>
    (highestOpened r = 0 \<or> highestOpened r mod 2 = 1) \<and>
    (\<forall>i \<in> set (activeStreams r). 0 < i \<and> i \<le> highestOpened r \<and> i mod 2 = 1))"

datatype remoteOp = RemoteOpen number | RemoteClose int

fun remote_op :: "remoteStreams \<Rightarrow> remoteOp \<Rightarrow> (remoteStreamError + unit) \<times> remoteStreams" where
  "remote_op r (RemoteOpen v) = open_remote r v"
| "remote_op r (RemoteClose i) = close_remote r i"

definition remote_step :: "remoteStreams \<Rightarrow> remoteOp \<Rightarrow> remoteStreams" where
  "remote_step r x = snd (remote_op r x)"

lemma remote_step_inv: "remote_inv r \<Longrightarrow> remote_inv (remote_step r x)"
proof (cases x)
  case (RemoteOpen v)
  assume inv: "remote_inv r"
  show ?thesis
  proof (cases "open_remote r v")
    case (Pair res r')
    with inv RemoteOpen show ?thesis
      by (cases v) (fastforce simp: remote_step_def open_remote_def remote_inv_def Let_def split: if_splits)+
  qed
qed (auto simp: remote_step_def close_remote_def remote_inv_def distinct_removeAll split: sum.splits)

interpretation remote: invariant_machine "\<lambda>r. r = new_remoteStreams" remote_step remote_inv
  by unfold_locales (auto simp: remote_step_inv, simp add: remote_inv_def new_remoteStreams_def)

lemma remote_step_highest: "remote_inv r \<Longrightarrow> highestOpened r \<le> highestOpened (remote_step r x)"
  by (cases x) (auto simp: remote_step_def open_remote_def close_remote_def Let_def split: sum.splits)

lemma remote_step_retired: "remote_inv r \<Longrightarrow> isRetired r i \<Longrightarrow> isRetired (remote_step r x) i"
proof -
  assume inv: "remote_inv r" and ret: "isRetired r i"
  from ret inv have "i \<notin> set (activeStreams (remote_step r x))"
    by (cases x) (auto simp: remote_step_def open_remote_def close_remote_def isRetired_def Let_def split: sum.splits if_splits)
  with ret remote_step_highest [OF inv, of x] show ?thesis by (auto simp: isRetired_def)
qed

lemma retired_not_reopened: "isRetired r i \<Longrightarrow> fst (open_remote r (Integral i)) \<noteq> Inr ()"
  by (auto simp: isRetired_def open_remote_def Let_def)

lemma run_retired: "remote_inv r \<Longrightarrow> isRetired r i \<Longrightarrow> isRetired (run_machine remote_step r ops) i"
  by (induction ops arbitrary: r) (auto simp: remote_step_retired remote_step_inv)

text \<open>
  A closed stream stays closed. Once the client has closed a remote stream, then after any
  further opens and closes the stream is retired, using it reports it as retired rather than unknown,
  and its id can never be opened again.
\<close>

theorem retired_forever:
  assumes "r = run_machine remote_step new_remoteStreams ops" and "close_remote r i = (Inr (), r')"
    and "r'' = run_machine remote_step r' ops'"
  shows "isRetired r'' i \<and> requireActive r'' i = Inl (RetiredRemoteStream i) \<and>
    fst (open_remote r'' (Integral i)) \<noteq> Inr ()"
proof -
  have inv: "remote_inv r" using assms(1) remote.run_inv by blast
  have step: "r' = remote_step r (RemoteClose i)" using assms(2) by (simp add: remote_step_def)
  have act: "i \<in> set (activeStreams r)" "r' = r\<lparr>activeStreams := removeAll i (activeStreams r)\<rparr>"
    using assms(2) by (auto simp: close_remote_def requireActive_def split: if_splits)
  have "isRetired r' i" using act inv by (auto simp: isRetired_def remote_inv_def)
  moreover have "remote_inv r'" using inv step remote_step_inv by simp
  ultimately have "isRetired r'' i" using assms(3) run_retired by blast
  then show ?thesis by (simp add: requireActive_def retired_not_reopened) (simp add: isRetired_def)
qed

theorem retired_forever_witness:
  "isRetired (run_machine remote_step new_remoteStreams
      [RemoteOpen (Integral 1), RemoteClose 1, RemoteOpen (Integral 3)]) 1"
  using retired_forever [of _ "[RemoteOpen (Integral 1)]" 1 _ _ "[RemoteOpen (Integral 3)]", OF refl _ refl]
  by (simp add: remote_step_def open_remote_def close_remote_def requireActive_def new_remoteStreams_def)

end
