(* ===== verification/JsString.thy ===== *)
theory JsString
  imports Prelude "HOL-Library.Char_ord" "HOL-Library.List_Lexorder"
begin

text \<open>
  The string operations of the sources on strings of code units below 256: case mapping, trimming,
  slicing, search and the character classes of the regular expressions. The default order of
  \<^verbatim>\<open>Array.prototype.sort\<close> on strings is the lexicographic order of code units, which is the library's
  order on \<open>string\<close>; a \<^verbatim>\<open>Set\<close> is the list of its members in insertion order.
\<close>

section \<open>Case mapping and trimming\<close>

definition char_code :: "char \<Rightarrow> nat" where
  "char_code c = of_char c"

definition lower_char :: "char \<Rightarrow> char" where
  "lower_char c =
    (let n = char_code c in
     if (65 \<le> n \<and> n \<le> 90) \<or> (192 \<le> n \<and> n \<le> 214) \<or> (216 \<le> n \<and> n \<le> 222)
     then char_of (n + 32) else c)"

definition toLowerCase :: "string \<Rightarrow> string" where
  "toLowerCase s = map lower_char s"

definition is_space :: "char \<Rightarrow> bool" where
  "is_space c = (let n = char_code c in (9 \<le> n \<and> n \<le> 13) \<or> n = 32 \<or> n = 160)"

definition trim :: "string \<Rightarrow> string" where
  "trim s = rev (dropWhile is_space (rev (dropWhile is_space s)))"

lemma char_code_of [simp]: "n < 256 \<Longrightarrow> char_code (char_of n) = n"
  by (simp add: char_code_def)

lemma char_code_less [simp]: "char_code c < 256"
  by (simp add: char_code_def)

lemma lower_char_idem [simp]: "lower_char (lower_char c) = lower_char c"
  by (auto simp: lower_char_def Let_def)

lemma toLowerCase_idem [simp]: "toLowerCase (toLowerCase s) = toLowerCase s"
  by (simp add: toLowerCase_def)

lemma length_toLowerCase [simp]: "length (toLowerCase s) = length s"
  by (simp add: toLowerCase_def)

lemma is_space_lower [simp]: "is_space (lower_char c) = is_space c"
  by (auto simp: is_space_def lower_char_def Let_def)

lemma dropWhile_map_lower:
  "dropWhile is_space (map lower_char s) = map lower_char (dropWhile is_space s)"
  by (induction s) auto

lemma trim_toLowerCase: "trim (toLowerCase s) = toLowerCase (trim s)"
  by (simp add: trim_def toLowerCase_def dropWhile_map_lower rev_map)

lemma hd_dropWhile_space: "dropWhile is_space s = [] \<or> \<not> is_space (hd (dropWhile is_space s))"
  by (metis hd_dropWhile)

lemma dropWhile_rev_hd:
  assumes "s = [] \<or> \<not> is_space (hd s)"
  shows "rev (dropWhile is_space (rev s)) = [] \<or> hd (rev (dropWhile is_space (rev s))) = hd s"
proof -
  obtain xs where xs: "s = rev (dropWhile is_space (rev s)) @ xs"
    by (metis rev_append rev_rev_ident takeWhile_dropWhile_id)
  then show ?thesis by (cases "rev (dropWhile is_space (rev s))") auto
qed

lemma trim_fixed: "s = [] \<or> \<not> is_space (hd s) \<and> \<not> is_space (last s) \<Longrightarrow> trim s = s"
proof (cases "s = []")
  case False
  moreover assume "s = [] \<or> \<not> is_space (hd s) \<and> \<not> is_space (last s)"
  ultimately have "dropWhile is_space s = s" "dropWhile is_space (rev s) = rev s"
    by (auto simp: dropWhile_eq_self_iff hd_rev)
  then show ?thesis by (simp add: trim_def)
qed (simp add: trim_def)

lemma trim_ends: "trim s = [] \<or> \<not> is_space (hd (trim s)) \<and> \<not> is_space (last (trim s))"
proof (cases "trim s = []")
  case False
  let ?t = "dropWhile is_space s"
  have "\<not> is_space (last (trim s))"
    using False hd_dropWhile [of is_space "rev ?t"] by (simp add: trim_def last_rev)
  moreover have "hd (trim s) = hd ?t"
    using dropWhile_rev_hd [OF hd_dropWhile_space] False by (auto simp: trim_def)
  moreover have "?t \<noteq> []" using False unfolding trim_def by (metis dropWhile.simps(1) rev.simps(1))
  ultimately show ?thesis using hd_dropWhile_space [of s] by auto
qed simp

lemma trim_idem [simp]: "trim (trim s) = trim s"
  by (rule trim_fixed) (rule trim_ends)

section \<open>Searching and slicing\<close>

text \<open>\<^verbatim>\<open>indexOf\<close> of a character, \<open>-1\<close> when it is absent.\<close>

definition indexOf :: "string \<Rightarrow> char \<Rightarrow> int" where
  "indexOf s c = (if c \<in> set s then int (length (takeWhile (\<lambda>x. x \<noteq> c) s)) else - 1)"

definition startsWith :: "string \<Rightarrow> string \<Rightarrow> bool" where
  "startsWith s p = (take (length p) s = p)"

text \<open>\<^verbatim>\<open>split\<close> at a character, \<^verbatim>\<open>join\<close> with a separator.\<close>

fun split_on :: "char \<Rightarrow> string \<Rightarrow> string list" where
  "split_on c [] = [[]]"
| "split_on c (x # xs) =
     (if x = c then [] # split_on c xs
      else case split_on c xs of [] \<Rightarrow> [[x]] | y # ys \<Rightarrow> (x # y) # ys)"

fun join :: "string \<Rightarrow> string list \<Rightarrow> string" where
  "join sep [] = []"
| "join sep [x] = x"
| "join sep (x # y # ys) = x @ sep @ join sep (y # ys)"

lemma split_on_nonempty [simp]: "split_on c s \<noteq> []"
  by (induction s) (auto split: list.split)

lemma split_on_absent: "c \<notin> set s \<Longrightarrow> split_on c s = [s]"
  by (induction s) auto

lemma split_on_append: "c \<notin> set x \<Longrightarrow> split_on c (x @ c # s) = x # split_on c s"
  by (induction x) auto

lemma split_on_parts: "x \<in> set (split_on c s) \<Longrightarrow> c \<notin> set x"
proof (induction s arbitrary: x)
  case (Cons a s)
  show ?case
  proof (cases "a = c")
    case False
    then obtain y ys where ys: "split_on c s = y # ys" by (cases "split_on c s") auto
    with False Cons.prems have "x = a # y \<or> x \<in> set ys" by auto
    with False ys Cons.IH [of y] Cons.IH [of x] show ?thesis by auto
  qed (use Cons in auto)
qed simp

lemma split_on_join:
  "xs \<noteq> [] \<Longrightarrow> (\<And>x. x \<in> set xs \<Longrightarrow> c \<notin> set x) \<Longrightarrow> c \<notin> set sep \<Longrightarrow>
   split_on c (join (c # sep) xs) = hd xs # map (\<lambda>x. sep @ x) (tl xs)"
proof (induction xs)
  case (Cons x xs)
  show ?case
  proof (cases xs)
    case Nil
    with Cons.prems show ?thesis by (simp add: split_on_absent)
  next
    case (Cons y ys)
    have "split_on c (sep @ s) = (case split_on c s of [] \<Rightarrow> [sep] | z # zs \<Rightarrow> (sep @ z) # zs)" for s
      using Cons.prems(3) by (induction sep) (auto split: list.split)
    then show ?thesis using Cons Cons.IH Cons.prems by (simp add: split_on_append)
  qed
qed simp

lemma set_trim: "set (trim s) \<subseteq> set s"
  unfolding trim_def by (metis set_dropWhileD set_rev subsetI)

section \<open>Character classes\<close>

definition is_digit :: "char \<Rightarrow> bool" where
  "is_digit c = (48 \<le> char_code c \<and> char_code c \<le> 57)"

definition is_lower :: "char \<Rightarrow> bool" where
  "is_lower c = (97 \<le> char_code c \<and> char_code c \<le> 122)"

definition is_upper :: "char \<Rightarrow> bool" where
  "is_upper c = (65 \<le> char_code c \<and> char_code c \<le> 90)"

definition lower_or_digit :: "char \<Rightarrow> bool" where
  "lower_or_digit c = (is_lower c \<or> is_digit c)"

text \<open>\<^verbatim>\<open>[\u0000-\u001f\u007f]\<close>\<close>

definition is_control :: "char \<Rightarrow> bool" where
  "is_control c = (char_code c \<le> 31 \<or> char_code c = 127)"

lemma lower_or_digit_lower: "lower_or_digit c \<Longrightarrow> lower_char c = c"
  by (auto simp: lower_or_digit_def is_lower_def is_digit_def lower_char_def Let_def)

lemma lower_or_digit_not_space: "lower_or_digit c \<Longrightarrow> \<not> is_space c"
  by (auto simp: lower_or_digit_def is_lower_def is_digit_def is_space_def Let_def)

section \<open>Sets\<close>

text \<open>\<^verbatim>\<open>[...new Set(xs)]\<close>: the members in the order of their first occurrence.\<close>

definition set_values :: "'a list \<Rightarrow> 'a list" where
  "set_values xs = rev (remdups (rev xs))"

lemma set_set_values [simp]: "set (set_values xs) = set xs"
  by (simp add: set_values_def)

lemma distinct_set_values [simp]: "distinct (set_values xs)"
  by (simp add: set_values_def)

section \<open>Sorting\<close>

text \<open>\<^verbatim>\<open>sort\<close> with a comparison function: a stable sort.\<close>

fun insert_by :: "('a \<Rightarrow> 'a \<Rightarrow> int) \<Rightarrow> 'a \<Rightarrow> 'a list \<Rightarrow> 'a list" where
  "insert_by cmp x [] = [x]"
| "insert_by cmp x (y # ys) = (if cmp x y \<le> 0 then x # y # ys else y # insert_by cmp x ys)"

definition sort_by :: "('a \<Rightarrow> 'a \<Rightarrow> int) \<Rightarrow> 'a list \<Rightarrow> 'a list" where
  "sort_by cmp xs = foldr (insert_by cmp) xs []"

lemma set_insert_by [simp]: "set (insert_by cmp x ys) = insert x (set ys)"
  by (induction ys) auto

lemma set_sort_by [simp]: "set (sort_by cmp xs) = set xs"
  by (induction xs) (simp_all add: sort_by_def)

lemma length_insert_by [simp]: "length (insert_by cmp x ys) = Suc (length ys)"
  by (induction ys) auto

lemma length_sort_by [simp]: "length (sort_by cmp xs) = length xs"
  by (induction xs) (simp_all add: sort_by_def)

lemma distinct_insert_by [simp]: "distinct (insert_by cmp x ys) = (x \<notin> set ys \<and> distinct ys)"
  by (induction ys) auto

lemma distinct_sort_by [simp]: "distinct (sort_by cmp xs) = distinct xs"
proof (induction xs)
  case (Cons x xs)
  have "distinct (sort_by cmp (x # xs)) = (x \<notin> set (sort_by cmp xs) \<and> distinct (sort_by cmp xs))"
    by (simp add: sort_by_def del: set_sort_by)
  with Cons show ?case by simp
qed (simp add: sort_by_def)

end
