(* ===== verification/AuthModel.thy ===== *)
theory AuthModel
  imports JsString
begin

text \<open>
  The data of the authentication package, \<^verbatim>\<open>packages/auth/src/model.ts\<close>, \<^verbatim>\<open>ports.ts\<close> and
  \<^verbatim>\<open>auth-error.ts\<close>, with its input policies: \<^verbatim>\<open>password-policy.ts\<close>, \<^verbatim>\<open>audit-policy.ts\<close> and the
  validators of \<^verbatim>\<open>auth-service.ts\<close>. Dates are milliseconds. Roles are ordered as \<^verbatim>\<open>ACCOUNT_ROLES\<close> lists
  them, so that a normalised role list is a sorted one.
\<close>

section \<open>Roles\<close>

datatype accountRole = ADMIN | DEVELOPER | REVIEWER

definition ACCOUNT_ROLES :: "accountRole list" where
  "ACCOUNT_ROLES = [ADMIN, DEVELOPER, REVIEWER]"

fun role_name :: "accountRole \<Rightarrow> string" where
  "role_name ADMIN = ''ADMIN''"
| "role_name DEVELOPER = ''DEVELOPER''"
| "role_name REVIEWER = ''REVIEWER''"

fun role_rank :: "accountRole \<Rightarrow> nat" where
  "role_rank ADMIN = 0"
| "role_rank DEVELOPER = 1"
| "role_rank REVIEWER = 2"

lemma role_rank_inj: "role_rank a = role_rank b \<longleftrightarrow> a = b"
  by (cases a; cases b) simp_all

instantiation accountRole :: linorder
begin

definition less_eq_accountRole :: "accountRole \<Rightarrow> accountRole \<Rightarrow> bool" where
  "less_eq_accountRole a b = (role_rank a \<le> role_rank b)"

definition less_accountRole :: "accountRole \<Rightarrow> accountRole \<Rightarrow> bool" where
  "less_accountRole a b = (role_rank a < role_rank b)"

instance
  by standard (auto simp: less_eq_accountRole_def less_accountRole_def role_rank_inj)

end

definition canAccessSharedContent :: "accountRole list \<Rightarrow> bool" where
  "canAccessSharedContent roles = (REVIEWER \<in> set roles \<or> DEVELOPER \<in> set roles)"

datatype accountAccessRequirement = RequireRole accountRole | RequireSharedContent

definition satisfiesAccountAccess :: "accountRole list \<Rightarrow> accountAccessRequirement \<Rightarrow> bool" where
  "satisfiesAccountAccess roles requirement =
    (case requirement of RequireRole r \<Rightarrow> r \<in> set roles | RequireSharedContent \<Rightarrow> canAccessSharedContent roles)"

section \<open>Records\<close>

record account =
  acc_id :: string
  acc_username :: string
  acc_displayName :: string
  acc_roles :: "accountRole list"
  acc_passwordHash :: string
  acc_enabled :: bool
  acc_mustChangePassword :: bool
  acc_authVersion :: int
  acc_createdAt :: int
  acc_updatedAt :: int

record authSession =
  ses_id :: string
  ses_tokenDigest :: string
  ses_accountId :: string
  ses_accountAuthVersion :: int
  ses_audience :: string
  ses_createdAt :: int
  ses_expiresAt :: int
  ses_lastSeenAt :: int

record loginThrottle =
  thr_key :: string
  thr_failures :: int
  thr_lockedUntil :: "int option"
  thr_updatedAt :: int

record loginIntent =
  int_id :: string
  int_targetHost :: string
  int_targetPath :: string
  int_expiresAt :: int

record sessionExchange =
  exc_codeDigest :: string
  exc_accountId :: string
  exc_accountAuthVersion :: int
  exc_targetHost :: string
  exc_targetPath :: string
  exc_expiresAt :: int

datatype carrierPurpose = CarrierCreate | CarrierResume

record carrierCredential =
  crd_id :: string
  crd_secretDigest :: string
  crd_accountId :: string
  crd_accountAuthVersion :: int
  crd_purpose :: carrierPurpose
  crd_tunnelId :: string
  crd_expiresAt :: int

record developerAuthorization =
  dev_accountId :: string
  dev_accountAuthVersion :: int
  dev_username :: string
  dev_purpose :: carrierPurpose
  dev_tunnelId :: string

datatype auditAction =
    ACCOUNT_BOOTSTRAPPED | ACCOUNT_CREATED | ACCOUNT_ENABLED | ACCOUNT_DISABLED
  | ACCOUNT_ROLES_CHANGED | PASSWORD_CHANGED | PASSWORD_RESET | SESSIONS_REVOKED

record auditEvent =
  aud_id :: string
  aud_action :: auditAction
  aud_actorAccountId :: "string option"
  aud_targetAccountId :: "string option"
  aud_occurredAt :: int

datatype authenticationAction = LOGIN_SUCCEEDED | LOGIN_FAILED

datatype loginFailureReason = ReasonInvalidCredentials | ReasonLoginThrottled | ReasonThrottleCapacity

record authenticationEvent =
  evt_action :: authenticationAction
  evt_occurredAt :: int
  evt_identityRef :: string
  evt_remoteRef :: string
  evt_accountId :: "string option"
  evt_reason :: "loginFailureReason option"

record principal =
  prn_accountId :: string
  prn_username :: string
  prn_displayName :: string
  prn_roles :: "accountRole list"
  prn_mustChangePassword :: bool
  prn_authVersion :: int
  prn_sessionId :: string

record accountAuthorization =
  aut_accountId :: string
  aut_authVersion :: int

record accountAuthorizationCheck =
  chk_accountId :: string
  chk_accountAuthVersion :: int
  chk_requirement :: accountAccessRequirement

record accountMutationAuthorization = accountAuthorization +
  aut_requiredRole :: "accountRole option"
  aut_allowPasswordChangeRequired :: bool

datatype accountMutationResult =
    Updated account | MutationNotFound | MutationLastAdministrator | MutationConflict
  | MutationActorNotAuthorized

datatype accountCreationResult = Created | CreationActorNotAuthorized | AlreadyExists

record storedArtifactLimits =
  lim_global :: int
  lim_perAccount :: int

record loginIntentLimits =
  ilim_global :: int
  ilim_perHost :: int

datatype authErrorCode =
    BOOTSTRAP_CLOSED | ACCOUNT_EXISTS | ACCOUNT_CONFLICT | ACCOUNT_NOT_FOUND | INVALID_ACCOUNT_INPUT
  | INVALID_CREDENTIALS | LOGIN_THROTTLED | LOGIN_INTENT_CAPACITY | AUTH_CAPACITY
  | PASSWORD_CHANGE_REQUIRED | WEAK_PASSWORD | FORBIDDEN | LAST_ADMINISTRATOR

section \<open>Input policies\<close>

definition COMMON_PASSWORDS :: "string list" where
  "COMMON_PASSWORDS =
    [''passwordpassword'', ''password123456'', ''qwertyuiop12345'', ''123456789012345'']"

definition validatePassword :: "string \<Rightarrow> authErrorCode + unit" where
  "validatePassword password =
    (if length password < 15 \<or> length password > 128 then Inl WEAK_PASSWORD
     else if toLowerCase password \<in> set COMMON_PASSWORDS then Inl WEAK_PASSWORD
     else Inr ())"

text \<open>\<^verbatim>\<open>/^[a-z0-9][a-z0-9._-]{2,63}$/\<close>\<close>

definition username_char :: "char \<Rightarrow> bool" where
  "username_char c = (lower_or_digit c \<or> c = CHR ''.'' \<or> c = CHR ''_'' \<or> c = CHR ''-'')"

definition username_pattern :: "string \<Rightarrow> bool" where
  "username_pattern s = (3 \<le> length s \<and> length s \<le> 64 \<and> lower_or_digit (hd s) \<and> list_all username_char (tl s))"

definition normalizeUsername :: "string \<Rightarrow> authErrorCode + string" where
  "normalizeUsername username =
    (let normalized = toLowerCase (trim username) in
     if \<not> username_pattern normalized then Inl INVALID_ACCOUNT_INPUT else Inr normalized)"

definition normalizeDisplayName :: "string \<Rightarrow> authErrorCode + string" where
  "normalizeDisplayName displayName =
    (let normalized = trim displayName;
         hasControlCharacters = list_ex is_control normalized
     in if length normalized < 1 \<or> length normalized > 80 \<or> hasControlCharacters
        then Inl INVALID_ACCOUNT_INPUT else Inr normalized)"

text \<open>The roles of a request are untyped names until they are normalised.\<close>

definition normalizeRoles :: "string list \<Rightarrow> authErrorCode + accountRole list" where
  "normalizeRoles roles =
    (let unique = set_values roles in
     if unique = [] \<or> list_ex (\<lambda>r. r \<notin> role_name ` set ACCOUNT_ROLES) unique then Inl INVALID_ACCOUNT_INPUT
     else Inr (filter (\<lambda>r. role_name r \<in> set unique) ACCOUNT_ROLES))"

record auditEventLimits =
  alim_global :: number
  alim_operationalReserve :: number

definition DEFAULT_AUDIT_EVENT_LIMITS :: auditEventLimits where
  "DEFAULT_AUDIT_EVENT_LIMITS =
    \<lparr>alim_global = Integral 1000000, alim_operationalReserve = Integral 1000\<rparr>"

datatype limitsTypeError = LimitsTypeError

definition validateAuditEventLimits :: "auditEventLimits \<Rightarrow> limitsTypeError + auditEventLimits" where
  "validateAuditEventLimits l =
    (if \<not> isSafeInteger (alim_global l) \<or> to_int (alim_global l) < 2 \<or>
        \<not> isSafeInteger (alim_operationalReserve l) \<or> to_int (alim_operationalReserve l) < 1 \<or>
        to_int (alim_operationalReserve l) \<ge> to_int (alim_global l)
     then Inl LimitsTypeError else Inr l)"

definition validateLoginIntentLimits :: "number \<Rightarrow> number \<Rightarrow> limitsTypeError + loginIntentLimits" where
  "validateLoginIntentLimits global perHost =
    (if \<not> isSafeInteger global \<or> to_int global < 1 \<or> \<not> isSafeInteger perHost \<or> to_int perHost < 1 \<or>
        to_int perHost > to_int global
     then Inl LimitsTypeError else Inr \<lparr>ilim_global = to_int global, ilim_perHost = to_int perHost\<rparr>)"

definition validateLoginThrottleLimits :: "number \<Rightarrow> limitsTypeError + int" where
  "validateLoginThrottleLimits global =
    (if \<not> isSafeInteger global \<or> to_int global < 2 then Inl LimitsTypeError else Inr (to_int global))"

definition validateStoredArtifactLimits :: "number \<Rightarrow> number \<Rightarrow> limitsTypeError + storedArtifactLimits" where
  "validateStoredArtifactLimits global perAccount =
    (if \<not> isSafeInteger global \<or> to_int global < 1 \<or> \<not> isSafeInteger perAccount \<or> to_int perAccount < 1 \<or>
        to_int perAccount > to_int global
     then Inl LimitsTypeError else Inr \<lparr>lim_global = to_int global, lim_perAccount = to_int perAccount\<rparr>)"

definition toPrincipal :: "account \<Rightarrow> string \<Rightarrow> principal" where
  "toPrincipal account sessionId =
    \<lparr>prn_accountId = acc_id account, prn_username = acc_username account,
     prn_displayName = acc_displayName account, prn_roles = acc_roles account,
     prn_mustChangePassword = acc_mustChangePassword account,
     prn_authVersion = acc_authVersion account, prn_sessionId = sessionId\<rparr>"

definition administratorAuthorization :: "accountAuthorization \<Rightarrow> accountMutationAuthorization" where
  "administratorAuthorization actor =
    \<lparr>aut_accountId = aut_accountId actor, aut_authVersion = aut_authVersion actor,
     aut_requiredRole = Some ADMIN, aut_allowPasswordChangeRequired = False\<rparr>"

section \<open>What the normalisers guarantee\<close>

lemma username_char_lower: "username_char c \<Longrightarrow> lower_char c = c \<and> \<not> is_space c"
proof (cases "lower_or_digit c")
  case False
  moreover assume "username_char c"
  ultimately show ?thesis by (auto simp: username_char_def lower_char_def is_space_def char_code_def Let_def)
qed (simp add: lower_or_digit_lower lower_or_digit_not_space)

lemma username_pattern_chars: "username_pattern s \<Longrightarrow> c \<in> set s \<Longrightarrow> username_char c"
  by (cases s) (auto simp: username_pattern_def list_all_iff username_char_def)

lemma username_pattern_fixed:
  assumes "username_pattern s"
  shows "toLowerCase (trim s) = s"
proof -
  have ne: "s \<noteq> []" using assms by (auto simp: username_pattern_def)
  have "trim s = s"
    using ne username_pattern_chars [OF assms] by (intro trim_fixed) (simp add: username_char_lower)
  moreover have "toLowerCase s = s"
    unfolding toLowerCase_def
    using username_pattern_chars [OF assms] by (intro map_idI) (auto dest: username_char_lower)
  ultimately show ?thesis by simp
qed

lemma normalizeRoles_Inr:
  assumes "normalizeRoles rs = Inr roles"
  shows "sorted roles" "distinct roles" "roles \<noteq> []" "role_name ` set roles = set rs"
proof -
  from assms have ne: "set_values rs \<noteq> []" and known: "set rs \<subseteq> role_name ` set ACCOUNT_ROLES"
    and roles: "roles = filter (\<lambda>r. role_name r \<in> set rs) ACCOUNT_ROLES"
    by (auto simp: normalizeRoles_def Let_def list_ex_iff split: if_splits)
  have "sorted ACCOUNT_ROLES" "distinct ACCOUNT_ROLES"
    by (simp_all add: ACCOUNT_ROLES_def less_eq_accountRole_def)
  then show "sorted roles" "distinct roles" unfolding roles by (auto simp: sorted_wrt_filter)
  show names: "role_name ` set roles = set rs" using known by (auto simp: roles)
  have "set rs \<noteq> {}" using ne set_set_values [of rs] by (metis set_empty)
  with names show "roles \<noteq> []" by auto
qed

text \<open>
  Usernames have one spelling. A normalised username matches the pattern the service promises,
  normalising it again changes nothing, and two inputs that differ only in case or in surrounding
  white space are normalised alike; in particular they name the same account.
\<close>

theorem username_normal_form:
  assumes "normalizeUsername raw = Inr name"
  shows "username_pattern name \<and> normalizeUsername name = Inr name \<and>
    (\<forall>other. toLowerCase (trim other) = toLowerCase (trim raw) \<longrightarrow> normalizeUsername other = Inr name)"
  using assms username_pattern_fixed [of name]
  by (auto simp: normalizeUsername_def Let_def split: if_splits)

theorem username_normal_form_witness:
  "normalizeUsername ''  Ada.L '' = Inr ''ada.l'' \<and> username_pattern ''ada.l''"
proof -
  have ok: "normalizeUsername ''  Ada.L '' = Inr ''ada.l''"
    by code_simp
  with username_normal_form [OF ok] show ?thesis by blast
qed

end
