(* ===== verification/AuthRepository.thy ===== *)
theory AuthRepository
  imports AuthModel
begin

text \<open>
  The in-memory repository of accounts and authentication artifacts,
  \<^verbatim>\<open>packages/auth/src/in-memory-auth-repository.ts\<close>, class \<^verbatim>\<open>InMemoryAuthRepository\<close>. Every method is
  atomic in the source (it has no \<^verbatim>\<open>await\<close>), so concurrent requests are interleavings of these steps:
  what holds for every sequence of calls holds for every schedule. A method that throws returns its
  error; none of them changes the repository before it throws.
\<close>

record authRepository =
  accounts :: "(string, account) jsmap"
  sessions :: "(string, authSession) jsmap"
  loginThrottles :: "(string, loginThrottle) jsmap"
  auditEvents :: "auditEvent list"
  loginIntents :: "(string, loginIntent) jsmap"
  sessionExchanges :: "(string, sessionExchange) jsmap"
  carrierCredentials :: "(string, carrierCredential) jsmap"
  auditLimits :: auditEventLimits

datatype repositoryError =
    UsernameAlreadyExists | AuditEventCapacityError | AuditEventAlreadyExists | BatchSizeTypeError

section \<open>Construction and queries\<close>

definition new_authRepository :: "auditEventLimits option \<Rightarrow> limitsTypeError + authRepository" where
  "new_authRepository options =
    (case validateAuditEventLimits (case options of Some l \<Rightarrow> l | None \<Rightarrow> DEFAULT_AUDIT_EVENT_LIMITS) of
       Inl e \<Rightarrow> Inl e
     | Inr l \<Rightarrow> Inr \<lparr>accounts = [], sessions = [], loginThrottles = [], auditEvents = [], loginIntents = [],
         sessionExchanges = [], carrierCredentials = [], auditLimits = l\<rparr>)"

definition countAccounts :: "authRepository \<Rightarrow> int" where
  "countAccounts r = map_size (accounts r)"

definition enabled_administrator :: "account \<Rightarrow> bool" where
  "enabled_administrator a = (acc_enabled a \<and> ADMIN \<in> set (acc_roles a))"

definition countEnabledAdministrators :: "authRepository \<Rightarrow> int" where
  "countEnabledAdministrators r = int (length (filter enabled_administrator (map_values (accounts r))))"

definition findAccountById :: "authRepository \<Rightarrow> string \<Rightarrow> account option" where
  "findAccountById r i = map_get (accounts r) i"

definition findAccountsByIds :: "authRepository \<Rightarrow> string list \<Rightarrow> account list" where
  "findAccountsByIds r ids = concat (map (\<lambda>i. case map_get (accounts r) i of None \<Rightarrow> [] | Some a \<Rightarrow> [a]) ids)"

definition findAccountByUsername :: "authRepository \<Rightarrow> string \<Rightarrow> account option" where
  "findAccountByUsername r name = find (\<lambda>a. acc_username a = name) (map_values (accounts r))"

text \<open>The order of \<^verbatim>\<open>localeCompare\<close> depends on the host's locale and is a parameter.\<close>

definition listAccounts :: "(string \<Rightarrow> string \<Rightarrow> int) \<Rightarrow> authRepository \<Rightarrow> account list" where
  "listAccounts localeCompare r =
    sort_by (\<lambda>a b. localeCompare (acc_username a) (acc_username b)) (map_values (accounts r))"

section \<open>Guards\<close>

definition isAuthorized :: "authRepository \<Rightarrow> accountMutationAuthorization \<Rightarrow> bool" where
  "isAuthorized r authorization =
    (case map_get (accounts r) (aut_accountId authorization) of
       None \<Rightarrow> False
     | Some actor \<Rightarrow>
         acc_enabled actor \<and>
         acc_authVersion actor = aut_authVersion authorization \<and>
         (aut_allowPasswordChangeRequired authorization \<or> \<not> acc_mustChangePassword actor) \<and>
         (case aut_requiredRole authorization of None \<Rightarrow> True | Some role \<Rightarrow> role \<in> set (acc_roles actor)))"

definition isCurrentArtifactAccount :: "authRepository \<Rightarrow> string \<Rightarrow> int \<Rightarrow> bool" where
  "isCurrentArtifactAccount r accountId accountAuthVersion =
    (case map_get (accounts r) accountId of
       None \<Rightarrow> False
     | Some a \<Rightarrow> acc_enabled a \<and> acc_authVersion a = accountAuthVersion)"

definition assertAccountCanBeCreated :: "authRepository \<Rightarrow> account \<Rightarrow> repositoryError + unit" where
  "assertAccountCanBeCreated r a =
    (case find (\<lambda>c. acc_username c = acc_username a \<or> acc_id c = acc_id a) (map_values (accounts r)) of
       Some _ \<Rightarrow> Inl UsernameAlreadyExists
     | None \<Rightarrow> Inr ())"

definition assertAuditEventCanBeAppended :: "authRepository \<Rightarrow> auditEvent \<Rightarrow> repositoryError + unit" where
  "assertAuditEventCanBeAppended r e =
    (if int (length (auditEvents r)) \<ge>
        to_int (alim_global (auditLimits r)) - to_int (alim_operationalReserve (auditLimits r))
     then Inl AuditEventCapacityError
     else if list_ex (\<lambda>c. aud_id c = aud_id e) (auditEvents r) then Inl AuditEventAlreadyExists
     else Inr ())"

section \<open>Accounts\<close>

definition deleteAccountAuthArtifacts :: "authRepository \<Rightarrow> string \<Rightarrow> authRepository" where
  "deleteAccountAuthArtifacts r accountId =
    r\<lparr>sessions := map_delete_if (\<lambda>s. ses_accountId s = accountId) (sessions r),
      sessionExchanges := map_delete_if (\<lambda>x. exc_accountId x = accountId) (sessionExchanges r),
      carrierCredentials := map_delete_if (\<lambda>c. crd_accountId c = accountId) (carrierCredentials r)\<rparr>"

definition createFirstAccount ::
    "authRepository \<Rightarrow> account \<Rightarrow> auditEvent \<Rightarrow> (repositoryError + bool) \<times> authRepository" where
  "createFirstAccount r a e =
    (if map_size (accounts r) \<noteq> 0 then (Inr False, r)
     else case assertAccountCanBeCreated r a of Inl err \<Rightarrow> (Inl err, r)
     | Inr _ \<Rightarrow>
         (case assertAuditEventCanBeAppended r e of Inl err \<Rightarrow> (Inl err, r)
          | Inr _ \<Rightarrow> (Inr True, r\<lparr>accounts := map_set (accounts r) (acc_id a) a,
              auditEvents := auditEvents r @ [e]\<rparr>)))"

definition createAccount ::
    "authRepository \<Rightarrow> account \<Rightarrow> accountMutationAuthorization \<Rightarrow> auditEvent \<Rightarrow>
     (repositoryError + accountCreationResult) \<times> authRepository" where
  "createAccount r a authorization e =
    (if \<not> isAuthorized r authorization then (Inr CreationActorNotAuthorized, r)
     else if list_ex (\<lambda>c. acc_username c = acc_username a) (map_values (accounts r)) then (Inr AlreadyExists, r)
     else case assertAccountCanBeCreated r a of Inl err \<Rightarrow> (Inl err, r)
     | Inr _ \<Rightarrow>
         (case assertAuditEventCanBeAppended r e of Inl err \<Rightarrow> (Inl err, r)
          | Inr _ \<Rightarrow> (Inr Created, r\<lparr>accounts := map_set (accounts r) (acc_id a) a,
              auditEvents := auditEvents r @ [e]\<rparr>)))"

text \<open>The last three lines of every account mutation: store, revoke the artifacts, record the event.\<close>

definition commit_update :: "authRepository \<Rightarrow> string \<Rightarrow> account \<Rightarrow> auditEvent \<Rightarrow> authRepository" where
  "commit_update r accountId updated e =
    (let r' = deleteAccountAuthArtifacts (r\<lparr>accounts := map_set (accounts r) accountId updated\<rparr>) accountId
     in r'\<lparr>auditEvents := auditEvents r' @ [e]\<rparr>)"

type_synonym mutation = "(repositoryError + accountMutationResult) \<times> authRepository"

definition setAccountEnabled ::
    "authRepository \<Rightarrow> string \<Rightarrow> bool \<Rightarrow> accountMutationAuthorization \<Rightarrow> int \<Rightarrow> auditEvent \<Rightarrow> mutation" where
  "setAccountEnabled r accountId enabled authorization updatedAt e =
    (if \<not> isAuthorized r authorization then (Inr MutationActorNotAuthorized, r)
     else case map_get (accounts r) accountId of None \<Rightarrow> (Inr MutationNotFound, r)
     | Some a \<Rightarrow>
         if \<not> enabled \<and> acc_enabled a \<and> ADMIN \<in> set (acc_roles a) \<and> countEnabledAdministrators r \<le> 1
         then (Inr MutationLastAdministrator, r)
         else case assertAuditEventCanBeAppended r e of Inl err \<Rightarrow> (Inl err, r)
         | Inr _ \<Rightarrow>
             let updated = a\<lparr>acc_enabled := enabled, acc_authVersion := acc_authVersion a + 1,
                   acc_updatedAt := updatedAt\<rparr>
             in (Inr (Updated updated), commit_update r (acc_id a) updated e))"

definition setAccountRoles ::
    "authRepository \<Rightarrow> string \<Rightarrow> accountRole list \<Rightarrow> accountMutationAuthorization \<Rightarrow> int \<Rightarrow> auditEvent \<Rightarrow> mutation" where
  "setAccountRoles r accountId roles authorization updatedAt e =
    (if \<not> isAuthorized r authorization then (Inr MutationActorNotAuthorized, r)
     else case map_get (accounts r) accountId of None \<Rightarrow> (Inr MutationNotFound, r)
     | Some a \<Rightarrow>
         if acc_enabled a \<and> ADMIN \<in> set (acc_roles a) \<and> ADMIN \<notin> set roles \<and> countEnabledAdministrators r \<le> 1
         then (Inr MutationLastAdministrator, r)
         else case assertAuditEventCanBeAppended r e of Inl err \<Rightarrow> (Inl err, r)
         | Inr _ \<Rightarrow>
             let updated = a\<lparr>acc_roles := roles, acc_authVersion := acc_authVersion a + 1,
                   acc_updatedAt := updatedAt\<rparr>
             in (Inr (Updated updated), commit_update r (acc_id a) updated e))"

definition replaceAccountPassword ::
    "authRepository \<Rightarrow> string \<Rightarrow> string \<Rightarrow> bool \<Rightarrow> int \<Rightarrow> accountMutationAuthorization \<Rightarrow> int \<Rightarrow> auditEvent \<Rightarrow> mutation" where
  "replaceAccountPassword r accountId passwordHash mustChangePassword expectedAuthVersion authorization updatedAt e =
    (if \<not> isAuthorized r authorization then (Inr MutationActorNotAuthorized, r)
     else case map_get (accounts r) accountId of None \<Rightarrow> (Inr MutationNotFound, r)
     | Some a \<Rightarrow>
         if expectedAuthVersion \<noteq> acc_authVersion a then (Inr MutationConflict, r)
         else case assertAuditEventCanBeAppended r e of Inl err \<Rightarrow> (Inl err, r)
         | Inr _ \<Rightarrow>
             let updated = a\<lparr>acc_passwordHash := passwordHash, acc_mustChangePassword := mustChangePassword,
                   acc_authVersion := acc_authVersion a + 1, acc_updatedAt := updatedAt\<rparr>
             in (Inr (Updated updated), commit_update r (acc_id a) updated e))"

definition revokeAccountSessions ::
    "authRepository \<Rightarrow> string \<Rightarrow> accountMutationAuthorization \<Rightarrow> int \<Rightarrow> auditEvent \<Rightarrow> mutation" where
  "revokeAccountSessions r accountId authorization updatedAt e =
    (if \<not> isAuthorized r authorization then (Inr MutationActorNotAuthorized, r)
     else case map_get (accounts r) accountId of None \<Rightarrow> (Inr MutationNotFound, r)
     | Some a \<Rightarrow>
         case assertAuditEventCanBeAppended r e of Inl err \<Rightarrow> (Inl err, r)
         | Inr _ \<Rightarrow>
             let updated = a\<lparr>acc_authVersion := acc_authVersion a + 1, acc_updatedAt := updatedAt\<rparr>
             in (Inr (Updated updated), commit_update r (acc_id a) updated e))"

section \<open>Artifacts\<close>

text \<open>
  The admission of an artifact into its bounded store, once the expired entries are gone: the store
  is full when the other entries reach the global limit or those of the account its own limit.
\<close>

definition admit_artifact ::
    "('v \<Rightarrow> string) \<Rightarrow> ('v \<Rightarrow> string) \<Rightarrow> storedArtifactLimits \<Rightarrow> (string, 'v) jsmap \<Rightarrow> 'v \<Rightarrow> bool" where
  "admit_artifact key owner limits m x =
    (let total = map_size m - (if map_has m (key x) then 1 else 0);
         accountCount = int (length (filter (\<lambda>s. key s \<noteq> key x \<and> owner s = owner x) (map_values m)))
     in \<not> (total \<ge> lim_global limits \<or> accountCount \<ge> lim_perAccount limits))"

definition saveSession ::
    "authRepository \<Rightarrow> authSession \<Rightarrow> int \<Rightarrow> storedArtifactLimits \<Rightarrow> bool \<times> authRepository" where
  "saveSession r session now limits =
    (if \<not> isCurrentArtifactAccount r (ses_accountId session) (ses_accountAuthVersion session) then (False, r)
     else
       let live = map_delete_if (\<lambda>s. ses_expiresAt s \<le> now) (sessions r) in
       if \<not> admit_artifact ses_id ses_accountId limits live session then (False, r\<lparr>sessions := live\<rparr>)
       else (True, r\<lparr>sessions := map_set live (ses_id session) session\<rparr>))"

fun findSessionAccountByTokenDigests :: "authRepository \<Rightarrow> string list \<Rightarrow> (authSession \<times> account) option" where
  "findSessionAccountByTokenDigests r [] = None"
| "findSessionAccountByTokenDigests r (d # ds) =
     (case find (\<lambda>s. ses_tokenDigest s = d) (map_values (sessions r)) of
        None \<Rightarrow> findSessionAccountByTokenDigests r ds
      | Some session \<Rightarrow> map_option (Pair session) (map_get (accounts r) (ses_accountId session)))"

definition deleteSession :: "authRepository \<Rightarrow> string \<Rightarrow> authRepository" where
  "deleteSession r i = r\<lparr>sessions := map_delete (sessions r) i\<rparr>"

definition deleteSessionsForAccount :: "authRepository \<Rightarrow> string \<Rightarrow> authRepository" where
  "deleteSessionsForAccount r accountId =
    r\<lparr>sessions := map_delete_if (\<lambda>s. ses_accountId s = accountId) (sessions r)\<rparr>"

definition saveSessionExchange ::
    "authRepository \<Rightarrow> sessionExchange \<Rightarrow> int \<Rightarrow> storedArtifactLimits \<Rightarrow> bool \<times> authRepository" where
  "saveSessionExchange r exchange now limits =
    (if \<not> isCurrentArtifactAccount r (exc_accountId exchange) (exc_accountAuthVersion exchange) then (False, r)
     else
       let live = map_delete_if (\<lambda>s. exc_expiresAt s \<le> now) (sessionExchanges r) in
       if \<not> admit_artifact exc_codeDigest exc_accountId limits live exchange
       then (False, r\<lparr>sessionExchanges := live\<rparr>)
       else (True, r\<lparr>sessionExchanges := map_set live (exc_codeDigest exchange) exchange\<rparr>))"

definition consumeSessionExchange ::
    "authRepository \<Rightarrow> string \<Rightarrow> string \<Rightarrow> int \<Rightarrow> sessionExchange option \<times> authRepository" where
  "consumeSessionExchange r codeDigest targetHost now =
    (case map_get (sessionExchanges r) codeDigest of
       None \<Rightarrow> (None, r)
     | Some exchange \<Rightarrow>
         if exc_targetHost exchange \<noteq> targetHost \<or> exc_expiresAt exchange \<le> now then (None, r)
         else (Some exchange, r\<lparr>sessionExchanges := map_delete (sessionExchanges r) codeDigest\<rparr>))"

definition saveCarrierCredential ::
    "authRepository \<Rightarrow> carrierCredential \<Rightarrow> int \<Rightarrow> storedArtifactLimits \<Rightarrow> bool \<times> authRepository" where
  "saveCarrierCredential r credential now limits =
    (if \<not> isCurrentArtifactAccount r (crd_accountId credential) (crd_accountAuthVersion credential) then (False, r)
     else
       let live = map_delete_if (\<lambda>s. crd_expiresAt s \<le> now) (carrierCredentials r) in
       if \<not> admit_artifact crd_id crd_accountId limits live credential
       then (False, r\<lparr>carrierCredentials := live\<rparr>)
       else (True, r\<lparr>carrierCredentials := map_set live (crd_id credential) credential\<rparr>))"

definition consumeCarrierCredential ::
    "authRepository \<Rightarrow> string \<Rightarrow> string \<Rightarrow> int \<Rightarrow> carrierCredential option \<times> authRepository" where
  "consumeCarrierCredential r i secretDigest now =
    (case map_get (carrierCredentials r) i of
       None \<Rightarrow> (None, r)
     | Some credential \<Rightarrow>
         if crd_secretDigest credential \<noteq> secretDigest \<or> crd_expiresAt credential \<le> now then (None, r)
         else (Some credential, r\<lparr>carrierCredentials := map_delete (carrierCredentials r) i\<rparr>))"

definition saveLoginIntent ::
    "authRepository \<Rightarrow> loginIntent \<Rightarrow> int \<Rightarrow> loginIntentLimits \<Rightarrow> bool \<times> authRepository" where
  "saveLoginIntent r intent now limits =
    (let live = map_delete_if (\<lambda>s. int_expiresAt s \<le> now) (loginIntents r) in
     if map_size live \<ge> ilim_global limits \<or>
        int (length (filter (\<lambda>s. int_targetHost s = int_targetHost intent) (map_values live))) \<ge> ilim_perHost limits
     then (False, r\<lparr>loginIntents := live\<rparr>)
     else (True, r\<lparr>loginIntents := map_set live (int_id intent) intent\<rparr>))"

definition consumeLoginIntent :: "authRepository \<Rightarrow> string \<Rightarrow> int \<Rightarrow> loginIntent option \<times> authRepository" where
  "consumeLoginIntent r i now =
    (let r' = r\<lparr>loginIntents := map_delete (loginIntents r) i\<rparr> in
     case map_get (loginIntents r) i of
       None \<Rightarrow> (None, r')
     | Some intent \<Rightarrow> if int_expiresAt intent \<le> now then (None, r') else (Some intent, r'))"

section \<open>Login throttles\<close>

record loginFailureInput =
  lf_keys :: "string list"
  lf_now :: int
  lf_windowStartsAt :: int
  lf_lockThreshold :: int
  lf_lockedUntil :: int
  lf_global :: int

datatype throttleStatus = Recorded | CapacityExhausted

definition getLoginThrottle :: "authRepository \<Rightarrow> string \<Rightarrow> loginThrottle option" where
  "getLoginThrottle r k = map_get (loginThrottles r) k"

definition next_throttle :: "loginFailureInput \<Rightarrow> (string, loginThrottle) jsmap \<Rightarrow> string \<Rightarrow> loginThrottle" where
  "next_throttle input live k =
    (let failures = (case map_get live k of
         None \<Rightarrow> 1
       | Some stored \<Rightarrow> if thr_updatedAt stored > lf_windowStartsAt input then thr_failures stored + 1 else 1)
     in \<lparr>thr_key = k, thr_failures = failures,
         thr_lockedUntil = (if failures \<ge> lf_lockThreshold input then Some (lf_lockedUntil input) else None),
         thr_updatedAt = lf_now input\<rparr>)"

definition recordLoginFailure ::
    "authRepository \<Rightarrow> loginFailureInput \<Rightarrow> (throttleStatus \<times> loginThrottle list) \<times> authRepository" where
  "recordLoginFailure r input =
    (let live = map_delete_if (\<lambda>t. thr_updatedAt t \<le> lf_windowStartsAt input) (loginThrottles r);
         keys = sort (set_values (lf_keys input));
         existingKeys = filter (\<lambda>k. map_has live k) keys;
         availableNewKeys = max 0 (lf_global input - map_size live);
         newKeys = filter (\<lambda>k. \<not> map_has live k) keys;
         admittedKeys = set_values (existingKeys @ take (nat availableNewKeys) newKeys);
         throttles = map (next_throttle input live) (filter (\<lambda>k. k \<in> set admittedKeys) keys);
         stored = fold (\<lambda>t m. map_set m (thr_key t) t) throttles live
     in ((if length admittedKeys = length keys then Recorded else CapacityExhausted, throttles),
         r\<lparr>loginThrottles := stored\<rparr>))"

definition deleteLoginThrottles :: "authRepository \<Rightarrow> string list \<Rightarrow> authRepository" where
  "deleteLoginThrottles r keys =
    r\<lparr>loginThrottles := fold (\<lambda>k m. map_delete m k) (set_values keys) (loginThrottles r)\<rparr>"

section \<open>Cleanup\<close>

text \<open>One loop of \<^verbatim>\<open>deleteExpiredAuthArtifacts\<close>: delete expired entries until the batch is used up.\<close>

fun delete_batch :: "('v \<Rightarrow> bool) \<Rightarrow> int \<Rightarrow> int \<Rightarrow> (string, 'v) jsmap \<Rightarrow> int \<times> (string, 'v) jsmap" where
  "delete_batch expired batchSize deleted [] = (deleted, [])"
| "delete_batch expired batchSize deleted (p # m) =
     (if deleted \<ge> batchSize then (deleted, p # m)
      else if expired (snd p) then delete_batch expired batchSize (deleted + 1) m
      else let (deleted', m') = delete_batch expired batchSize deleted m in (deleted', p # m'))"

definition deleteExpiredAuthArtifacts ::
    "authRepository \<Rightarrow> int \<Rightarrow> number \<Rightarrow> (repositoryError + int) \<times> authRepository" where
  "deleteExpiredAuthArtifacts r now batchSize =
    (if \<not> isSafeInteger batchSize \<or> to_int batchSize < 1 then (Inl BatchSizeTypeError, r)
     else
       let (d1, ss) = delete_batch (\<lambda>s. ses_expiresAt s \<le> now) (to_int batchSize) 0 (sessions r);
           (d2, is) = delete_batch (\<lambda>s. int_expiresAt s \<le> now) (to_int batchSize) d1 (loginIntents r);
           (d3, xs) = delete_batch (\<lambda>s. exc_expiresAt s \<le> now) (to_int batchSize) d2 (sessionExchanges r);
           (d4, cs) = delete_batch (\<lambda>s. crd_expiresAt s \<le> now) (to_int batchSize) d3 (carrierCredentials r);
           (d5, ts) = delete_batch (\<lambda>t. thr_updatedAt t \<le> now - 15 * 60000) (to_int batchSize) d4 (loginThrottles r)
       in (Inr d5, r\<lparr>sessions := ss, loginIntents := is, sessionExchanges := xs,
             carrierCredentials := cs, loginThrottles := ts\<rparr>))"

end
