(* ===== verification/AuthInvariants.thy ===== *)
theory AuthInvariants
  imports AuthRepository
begin

text \<open>
  What the authentication repository keeps under every sequence of calls: its keys are the ids of
  the records, usernames are unique, every stored session, exchange code and carrier credential
  belongs to an enabled account at its current version, the audit log only grows and stays within
  its limit, and an enabled administrator, once there is one, never disappears.
\<close>

section \<open>The machine of all calls that change the repository\<close>

datatype repositoryOp =
    CreateFirstAccount account auditEvent
  | CreateAccount account accountMutationAuthorization auditEvent
  | SetAccountEnabled string bool accountMutationAuthorization int auditEvent
  | SetAccountRoles string "accountRole list" accountMutationAuthorization int auditEvent
  | ReplaceAccountPassword string string bool int accountMutationAuthorization int auditEvent
  | RevokeAccountSessions string accountMutationAuthorization int auditEvent
  | SaveSession authSession int storedArtifactLimits
  | DeleteSession string
  | DeleteSessionsForAccount string
  | RecordLoginFailure loginFailureInput
  | DeleteLoginThrottles "string list"
  | SaveLoginIntent loginIntent int loginIntentLimits
  | ConsumeLoginIntent string int
  | SaveSessionExchange sessionExchange int storedArtifactLimits
  | ConsumeSessionExchange string string int
  | SaveCarrierCredential carrierCredential int storedArtifactLimits
  | ConsumeCarrierCredential string string int
  | DeleteExpired int number

fun repository_step :: "authRepository \<Rightarrow> repositoryOp \<Rightarrow> authRepository" where
  "repository_step r (CreateFirstAccount a e) = snd (createFirstAccount r a e)"
| "repository_step r (CreateAccount a auth e) = snd (createAccount r a auth e)"
| "repository_step r (SetAccountEnabled i b auth t e) = snd (setAccountEnabled r i b auth t e)"
| "repository_step r (SetAccountRoles i roles auth t e) = snd (setAccountRoles r i roles auth t e)"
| "repository_step r (ReplaceAccountPassword i h m v auth t e) = snd (replaceAccountPassword r i h m v auth t e)"
| "repository_step r (RevokeAccountSessions i auth t e) = snd (revokeAccountSessions r i auth t e)"
| "repository_step r (SaveSession s now l) = snd (saveSession r s now l)"
| "repository_step r (DeleteSession i) = deleteSession r i"
| "repository_step r (DeleteSessionsForAccount i) = deleteSessionsForAccount r i"
| "repository_step r (RecordLoginFailure input) = snd (recordLoginFailure r input)"
| "repository_step r (DeleteLoginThrottles ks) = deleteLoginThrottles r ks"
| "repository_step r (SaveLoginIntent i now l) = snd (saveLoginIntent r i now l)"
| "repository_step r (ConsumeLoginIntent i now) = snd (consumeLoginIntent r i now)"
| "repository_step r (SaveSessionExchange x now l) = snd (saveSessionExchange r x now l)"
| "repository_step r (ConsumeSessionExchange d h now) = snd (consumeSessionExchange r d h now)"
| "repository_step r (SaveCarrierCredential c now l) = snd (saveCarrierCredential r c now l)"
| "repository_step r (ConsumeCarrierCredential i d now) = snd (consumeCarrierCredential r i d now)"
| "repository_step r (DeleteExpired now n) = snd (deleteExpiredAuthArtifacts r now n)"

section \<open>Invariants of the parts\<close>

definition current_account :: "(string, account) jsmap \<Rightarrow> string \<Rightarrow> int \<Rightarrow> bool" where
  "current_account accs i v =
    (case map_get accs i of None \<Rightarrow> False | Some a \<Rightarrow> acc_enabled a \<and> acc_authVersion a = v)"

lemma isCurrentArtifactAccount_eq: "isCurrentArtifactAccount r = current_account (accounts r)"
  by (intro ext) (simp add: isCurrentArtifactAccount_def current_account_def)

declare map_of_eq_Some_iff [simp del]

definition accounts_ok :: "(string, account) jsmap \<Rightarrow> bool" where
  "accounts_ok accs = (wf_map accs \<and> (\<forall>k a. map_get accs k = Some a \<longrightarrow> acc_id a = k) \<and>
    (\<forall>k a j b. map_get accs k = Some a \<longrightarrow> map_get accs j = Some b \<longrightarrow>
      acc_username a = acc_username b \<longrightarrow> k = j))"

definition artifacts_ok ::
    "('v \<Rightarrow> string) \<Rightarrow> ('v \<Rightarrow> string) \<Rightarrow> ('v \<Rightarrow> int) \<Rightarrow> (string, account) jsmap \<Rightarrow> (string, 'v) jsmap \<Rightarrow> bool" where
  "artifacts_ok key owner version accs m = (wf_map m \<and>
    (\<forall>(k, x) \<in> set m. key x = k \<and> current_account accs (owner x) (version x)))"

abbreviation sessions_ok :: "authRepository \<Rightarrow> bool" where
  "sessions_ok r \<equiv> artifacts_ok ses_id ses_accountId ses_accountAuthVersion (accounts r) (sessions r)"

abbreviation exchanges_ok :: "authRepository \<Rightarrow> bool" where
  "exchanges_ok r \<equiv> artifacts_ok exc_codeDigest exc_accountId exc_accountAuthVersion (accounts r) (sessionExchanges r)"

abbreviation credentials_ok :: "authRepository \<Rightarrow> bool" where
  "credentials_ok r \<equiv> artifacts_ok crd_id crd_accountId crd_accountAuthVersion (accounts r) (carrierCredentials r)"

definition audit_ok :: "authRepository \<Rightarrow> bool" where
  "audit_ok r = (distinct (map aud_id (auditEvents r)) \<and>
    int (length (auditEvents r)) \<le>
      to_int (alim_global (auditLimits r)) - to_int (alim_operationalReserve (auditLimits r)))"

definition throttles_ok :: "(string, loginThrottle) jsmap \<Rightarrow> bool" where
  "throttles_ok m = (wf_map m \<and> (\<forall>(k, t) \<in> set m. 1 \<le> thr_failures t))"

definition repository_inv :: "authRepository \<Rightarrow> bool" where
  "repository_inv r = (accounts_ok (accounts r) \<and> sessions_ok r \<and> exchanges_ok r \<and> credentials_ok r \<and>
    throttles_ok (loginThrottles r) \<and> wf_map (loginIntents r) \<and> audit_ok r)"

lemma artifacts_ok_subset:
  "artifacts_ok key owner version accs m \<Longrightarrow> wf_map m' \<Longrightarrow> set m' \<subseteq> set m \<Longrightarrow> artifacts_ok key owner version accs m'"
  unfolding artifacts_ok_def by blast

lemma artifacts_ok_delete_if:
  "artifacts_ok key owner version accs m \<Longrightarrow> artifacts_ok key owner version accs (map_delete_if P m)"
  by (rule artifacts_ok_subset, assumption) (auto simp: artifacts_ok_def map_delete_if_def)

lemma artifacts_ok_delete:
  "artifacts_ok key owner version accs m \<Longrightarrow> artifacts_ok key owner version accs (map_delete m k)"
  by (rule artifacts_ok_subset, assumption) (auto simp: artifacts_ok_def in_map_delete)

lemma artifacts_ok_set:
  "artifacts_ok key owner version accs m \<Longrightarrow> current_account accs (owner x) (version x) \<Longrightarrow>
    artifacts_ok key owner version accs (map_set m (key x) x)"
  by (auto simp: artifacts_ok_def in_map_set split: if_splits)

text \<open>Changing one account keeps the artifacts of the others.\<close>

lemma artifacts_ok_change:
  assumes "artifacts_ok key owner version accs m" "\<forall>(k, x) \<in> set m. owner x \<noteq> i"
  shows "artifacts_ok key owner version (map_set accs i a) m"
  using assms by (fastforce simp: artifacts_ok_def current_account_def map_get_set)

lemma artifacts_ok_create:
  assumes "artifacts_ok key owner version accs m" "map_get accs i = None"
  shows "artifacts_ok key owner version (map_set accs i a) m"
  by (rule artifacts_ok_change [OF assms(1)])
    (use assms in \<open>auto simp: artifacts_ok_def current_account_def split: option.splits\<close>)

lemma artifacts_ok_revoke:
  assumes "artifacts_ok key owner version accs m"
  shows "artifacts_ok key owner version (map_set accs i a) (map_delete_if (\<lambda>x. owner x = i) m)"
  using assms by (intro artifacts_ok_change artifacts_ok_delete_if) (auto simp: map_delete_if_def)

lemma set_delete_batch: "set (snd (delete_batch P n d m)) \<subseteq> set m"
  by (induction P n d m rule: delete_batch.induct) (auto simp: Let_def split: prod.splits)

lemma wf_delete_batch: "wf_map m \<Longrightarrow> wf_map (snd (delete_batch P n d m))"
proof (induction P n d m rule: delete_batch.induct)
  case (2 P n d p m)
  have "fst p \<notin> fst ` set (snd (delete_batch P n d m))"
    using 2(3) set_delete_batch [of P n d m] by auto
  with 2 show ?case by (auto simp: Let_def split: prod.splits)
qed simp

lemma artifacts_ok_batch:
  "artifacts_ok key owner version accs m \<Longrightarrow> artifacts_ok key owner version accs (snd (delete_batch P n d m))"
  by (rule artifacts_ok_subset, assumption) (auto simp: artifacts_ok_def wf_delete_batch dest: subsetD [OF set_delete_batch])

section \<open>Every call keeps the invariant\<close>

lemma accounts_ok_get: "accounts_ok accs \<Longrightarrow> map_get accs i = Some a \<Longrightarrow> acc_id a = i"
  unfolding accounts_ok_def by blast

lemma accounts_ok_unique:
  "accounts_ok accs \<Longrightarrow> map_get accs i = Some a \<Longrightarrow> map_get accs j = Some b \<Longrightarrow>
    acc_username a = acc_username b \<Longrightarrow> i = j"
  unfolding accounts_ok_def by blast

text \<open>Storing an account whose name no other account has.\<close>

lemma accounts_ok_set:
  assumes "accounts_ok accs" "acc_id b = i"
    "\<And>j c. map_get accs j = Some c \<Longrightarrow> j \<noteq> i \<Longrightarrow> acc_username c \<noteq> acc_username b"
  shows "accounts_ok (map_set accs i b)"
proof -
  have "map_get (map_set accs i b) k = Some a \<Longrightarrow> acc_id a = k" for k a
    using assms accounts_ok_get [OF assms(1), of k a] by (auto simp: map_get_set split: if_splits)
  moreover have "k = j" if "map_get (map_set accs i b) k = Some c" "map_get (map_set accs i b) j = Some d"
      "acc_username c = acc_username d" for k j c d
    using that assms(3) [of k c] assms(3) [of j d] accounts_ok_unique [OF assms(1), of k c j d]
    by (auto simp: map_get_set split: if_splits)
  moreover have "wf_map accs" using assms(1) by (simp add: accounts_ok_def)
  ultimately show ?thesis unfolding accounts_ok_def by (blast intro: wf_map_set)
qed

lemma accounts_ok_update:
  assumes "accounts_ok accs" "map_get accs i = Some a" "acc_id b = acc_id a" "acc_username b = acc_username a"
  shows "accounts_ok (map_set accs i b)"
  by (rule accounts_ok_set) (use assms accounts_ok_get accounts_ok_unique in \<open>simp_all, blast\<close>)

lemma assertAccountCanBeCreated_Inr:
  assumes "accounts_ok (accounts r)" "assertAccountCanBeCreated r a = Inr ()"
  shows "map_get (accounts r) (acc_id a) = None" "accounts_ok (map_set (accounts r) (acc_id a) a)"
proof -
  have none: "acc_username b \<noteq> acc_username a \<and> acc_id b \<noteq> acc_id a" if "map_get (accounts r) k = Some b" for k b
    using assms(2) map_get_in_values [OF that]
    by (auto simp: assertAccountCanBeCreated_def find_None_iff split: option.splits)
  show "map_get (accounts r) (acc_id a) = None"
    using none accounts_ok_get [OF assms(1)] by (metis not_None_eq)
  show "accounts_ok (map_set (accounts r) (acc_id a) a)"
    using accounts_ok_set [OF assms(1) refl] none by blast
qed

lemma assertAuditEventCanBeAppended_Inr:
  "audit_ok r \<Longrightarrow> assertAuditEventCanBeAppended r e = Inr () \<Longrightarrow> audit_ok (r\<lparr>auditEvents := auditEvents r @ [e]\<rparr>)"
  by (auto simp: audit_ok_def assertAuditEventCanBeAppended_def list_ex_iff split: if_splits)

lemma create_inv:
  assumes "repository_inv r" "assertAccountCanBeCreated r a = Inr ()" "assertAuditEventCanBeAppended r e = Inr ()"
  shows "repository_inv (r\<lparr>accounts := map_set (accounts r) (acc_id a) a, auditEvents := auditEvents r @ [e]\<rparr>)"
  using assms assertAccountCanBeCreated_Inr [of r a] assertAuditEventCanBeAppended_Inr [of r e]
  by (simp add: repository_inv_def artifacts_ok_create audit_ok_def)

lemma commit_update_inv:
  assumes "repository_inv r" "map_get (accounts r) i = Some a" "acc_id b = acc_id a"
    "acc_username b = acc_username a" "assertAuditEventCanBeAppended r e = Inr ()"
  shows "repository_inv (commit_update r (acc_id a) b e)"
proof -
  have ok: "accounts_ok (accounts r)" and i: "acc_id a = i"
    using assms(1,2) accounts_ok_get by (auto simp: repository_inv_def)
  have "accounts_ok (map_set (accounts r) i b)" using accounts_ok_update [OF ok assms(2-4)] .
  moreover have "audit_ok (r\<lparr>auditEvents := auditEvents r @ [e]\<rparr>)"
    using assms(1,5) by (simp add: repository_inv_def assertAuditEventCanBeAppended_Inr)
  ultimately show ?thesis
    using assms(1)
    by (simp add: repository_inv_def commit_update_def deleteAccountAuthArtifacts_def Let_def i audit_ok_def
        artifacts_ok_revoke)
qed

lemma mutations_inv:
  assumes "repository_inv r"
  shows "repository_inv (snd (setAccountEnabled r i b auth t e))"
    "repository_inv (snd (setAccountRoles r i roles auth t e))"
    "repository_inv (snd (replaceAccountPassword r i h m v auth t e))"
    "repository_inv (snd (revokeAccountSessions r i auth t e))"
  using assms
  by (auto simp: setAccountEnabled_def setAccountRoles_def replaceAccountPassword_def revokeAccountSessions_def
      Let_def intro!: commit_update_inv split: option.split sum.split)

lemma creations_inv:
  assumes "repository_inv r"
  shows "repository_inv (snd (createFirstAccount r a e))" "repository_inv (snd (createAccount r a auth e))"
  using assms create_inv [OF assms]
  by (auto simp: createFirstAccount_def createAccount_def split: sum.split)

lemma saves_inv:
  assumes "repository_inv r"
  shows "repository_inv (snd (saveSession r s now l))"
    "repository_inv (snd (saveSessionExchange r x now l))"
    "repository_inv (snd (saveCarrierCredential r c now l))"
    "repository_inv (snd (saveLoginIntent r it now il))"
  using assms
  by (auto simp: repository_inv_def saveSession_def saveSessionExchange_def saveCarrierCredential_def
      saveLoginIntent_def Let_def isCurrentArtifactAccount_eq artifacts_ok_set artifacts_ok_delete_if audit_ok_def)

lemma deletes_inv:
  assumes "repository_inv r"
  shows "repository_inv (deleteSession r i)" "repository_inv (deleteSessionsForAccount r i)"
    "repository_inv (snd (consumeLoginIntent r i now))"
    "repository_inv (snd (consumeSessionExchange r d h now))"
    "repository_inv (snd (consumeCarrierCredential r i d now))"
  using assms
  by (auto simp: repository_inv_def deleteSession_def deleteSessionsForAccount_def consumeLoginIntent_def
      consumeSessionExchange_def consumeCarrierCredential_def Let_def artifacts_ok_delete artifacts_ok_delete_if
      audit_ok_def split: option.split)

lemma throttles_ok_subset: "throttles_ok m \<Longrightarrow> wf_map m' \<Longrightarrow> set m' \<subseteq> set m \<Longrightarrow> throttles_ok m'"
  unfolding throttles_ok_def by blast

lemma throttles_ok_batch: "throttles_ok m \<Longrightarrow> throttles_ok (snd (delete_batch P n d m))"
  by (rule throttles_ok_subset, assumption) (auto simp: throttles_ok_def wf_delete_batch dest: subsetD [OF set_delete_batch])

lemma cleanup_inv: "repository_inv r \<Longrightarrow> repository_inv (snd (deleteExpiredAuthArtifacts r now n))"
  by (simp add: repository_inv_def deleteExpiredAuthArtifacts_def Let_def split_beta artifacts_ok_batch
      throttles_ok_batch wf_delete_batch audit_ok_def)

lemma throttles_ok_set: "throttles_ok m \<Longrightarrow> 1 \<le> thr_failures t \<Longrightarrow> throttles_ok (map_set m k t)"
  by (auto simp: throttles_ok_def in_map_set split: if_splits)

lemma throttles_ok_fold_set:
  "throttles_ok m \<Longrightarrow> \<forall>t \<in> set ts. 1 \<le> thr_failures t \<Longrightarrow> throttles_ok (fold (\<lambda>t m. map_set m (thr_key t) t) ts m)"
  by (induction ts arbitrary: m) (auto simp: throttles_ok_set)

lemma throttles_ok_fold_delete: "throttles_ok m \<Longrightarrow> throttles_ok (fold (\<lambda>k m. map_delete m k) ks m)"
proof (induction ks arbitrary: m)
  case (Cons k ks)
  have "throttles_ok (map_delete m k)"
    using Cons.prems by (rule throttles_ok_subset) (use Cons.prems in \<open>auto simp: throttles_ok_def in_map_delete\<close>)
  with Cons.IH show ?case by simp
qed simp

lemma next_throttle_failures: "throttles_ok m \<Longrightarrow> 1 \<le> thr_failures (next_throttle input m k)"
proof (cases "map_get m k")
  case (Some t)
  moreover assume "throttles_ok m"
  ultimately have "1 \<le> thr_failures t" unfolding throttles_ok_def by (blast dest: map_of_SomeD)
  with Some show ?thesis by (simp add: next_throttle_def Let_def)
qed (simp add: next_throttle_def Let_def)

lemma throttles_inv:
  assumes "repository_inv r"
  shows "repository_inv (snd (recordLoginFailure r input))" "repository_inv (deleteLoginThrottles r ks)"
proof -
  have ok: "throttles_ok (loginThrottles r)" using assms by (simp add: repository_inv_def)
  let ?live = "map_delete_if (\<lambda>t. thr_updatedAt t \<le> lf_windowStartsAt input) (loginThrottles r)"
  have live: "throttles_ok ?live"
    using ok by (rule throttles_ok_subset) (use ok in \<open>auto simp: throttles_ok_def in_map_delete_if\<close>)
  show "repository_inv (snd (recordLoginFailure r input))"
    using assms live
    by (auto simp: repository_inv_def recordLoginFailure_def Let_def audit_ok_def next_throttle_failures
        intro!: throttles_ok_fold_set)
  show "repository_inv (deleteLoginThrottles r ks)"
    using assms by (simp add: repository_inv_def deleteLoginThrottles_def audit_ok_def throttles_ok_fold_delete)
qed

lemma repository_step_inv: "repository_inv r \<Longrightarrow> repository_inv (repository_step r x)"
  by (cases x) (simp_all add: creations_inv mutations_inv saves_inv deletes_inv cleanup_inv throttles_inv)

lemma new_authRepository_inv: "new_authRepository l = Inr r \<Longrightarrow> repository_inv r"
  by (auto simp: new_authRepository_def repository_inv_def accounts_ok_def artifacts_ok_def audit_ok_def
      throttles_ok_def validateAuditEventLimits_def split: sum.splits if_splits)

interpretation repository: invariant_machine
  "\<lambda>r. \<exists>l. new_authRepository l = Inr r" repository_step repository_inv
  by unfold_locales (auto simp: new_authRepository_inv repository_step_inv)

end
