(* ===== verification/AuthProperties.thy ===== *)
theory AuthProperties
  imports AuthInvariants "HOL-Library.Sublist"
begin

text \<open>
  The properties of the authentication repository over whole runs: currency of every stored
  artifact, survival of an administrator, monotone account versions, the append-only audit log,
  one-time codes and the capacity of the artifact stores.
\<close>

section \<open>What a single call does to the accounts and the audit log\<close>

text \<open>
  A call leaves the accounts and the audit log alone, or adds an account under a fresh id, or
  replaces an account by one with the next version; the last two record one audit event.
\<close>

definition accounts_unchanged :: "authRepository \<Rightarrow> authRepository \<Rightarrow> bool" where
  "accounts_unchanged r r' = (accounts r' = accounts r \<and> auditEvents r' = auditEvents r)"

definition account_added :: "authRepository \<Rightarrow> authRepository \<Rightarrow> bool" where
  "account_added r r' = (\<exists>i a e. map_get (accounts r) i = None \<and> accounts r' = map_set (accounts r) i a \<and>
    auditEvents r' = auditEvents r @ [e])"

definition account_replaced :: "authRepository \<Rightarrow> authRepository \<Rightarrow> bool" where
  "account_replaced r r' = (\<exists>i a b e. map_get (accounts r) i = Some a \<and> accounts r' = map_set (accounts r) i b \<and>
    acc_authVersion b = acc_authVersion a + 1 \<and> acc_username b = acc_username a \<and>
    auditEvents r' = auditEvents r @ [e] \<and>
    (enabled_administrator a \<longrightarrow> enabled_administrator b \<or> 2 \<le> countEnabledAdministrators r))"

lemma commit_update_replaced:
  assumes "repository_inv r" "map_get (accounts r) i = Some a" "acc_authVersion b = acc_authVersion a + 1"
    "acc_username b = acc_username a"
    "enabled_administrator a \<longrightarrow> enabled_administrator b \<or> 2 \<le> countEnabledAdministrators r"
  shows "account_replaced r (commit_update r (acc_id a) b e)"
proof -
  have "acc_id a = i" using assms(1,2) accounts_ok_get by (auto simp: repository_inv_def)
  with assms show ?thesis
    by (auto simp: account_replaced_def commit_update_def deleteAccountAuthArtifacts_def Let_def)
qed

lemma mutations_effect:
  assumes "repository_inv r"
  shows "accounts_unchanged r (snd (setAccountEnabled r i b auth t e)) \<or>
      account_replaced r (snd (setAccountEnabled r i b auth t e))"
    "accounts_unchanged r (snd (setAccountRoles r i roles auth t e)) \<or>
      account_replaced r (snd (setAccountRoles r i roles auth t e))"
    "accounts_unchanged r (snd (replaceAccountPassword r i h m v auth t e)) \<or>
      account_replaced r (snd (replaceAccountPassword r i h m v auth t e))"
    "accounts_unchanged r (snd (revokeAccountSessions r i auth t e)) \<or>
      account_replaced r (snd (revokeAccountSessions r i auth t e))"
  using assms
  by (auto simp: setAccountEnabled_def setAccountRoles_def replaceAccountPassword_def revokeAccountSessions_def
      Let_def accounts_unchanged_def enabled_administrator_def intro!: commit_update_replaced
      split: option.split sum.split)

lemma creations_effect:
  assumes "repository_inv r"
  shows "accounts_unchanged r (snd (createFirstAccount r a e)) \<or> account_added r (snd (createFirstAccount r a e))"
    "accounts_unchanged r (snd (createAccount r a auth e)) \<or> account_added r (snd (createAccount r a auth e))"
proof -
  have added: "account_added r (r\<lparr>accounts := map_set (accounts r) (acc_id a) a, auditEvents := auditEvents r @ [e]\<rparr>)"
    if "assertAccountCanBeCreated r a = Inr ()"
    using assertAccountCanBeCreated_Inr(1) [OF _ that] assms
    by (fastforce simp: account_added_def repository_inv_def)
  then show "accounts_unchanged r (snd (createFirstAccount r a e)) \<or> account_added r (snd (createFirstAccount r a e))"
    "accounts_unchanged r (snd (createAccount r a auth e)) \<or> account_added r (snd (createAccount r a auth e))"
    by (auto simp: createFirstAccount_def createAccount_def accounts_unchanged_def split: sum.split)
qed

lemma repository_step_effect:
  assumes "repository_inv r"
  shows "accounts_unchanged r (repository_step r x) \<or> account_added r (repository_step r x) \<or>
    account_replaced r (repository_step r x)"
proof (cases x)
  case (CreateFirstAccount a e)
  with creations_effect [OF assms] show ?thesis by fastforce
next
  case (CreateAccount a auth e)
  with creations_effect [OF assms] show ?thesis by fastforce
next
  case (SetAccountEnabled i b auth t e)
  with mutations_effect [OF assms] show ?thesis by fastforce
next
  case (SetAccountRoles i rs auth t e)
  with mutations_effect [OF assms] show ?thesis by fastforce
next
  case (ReplaceAccountPassword i h m v auth t e)
  with mutations_effect [OF assms] show ?thesis by fastforce
next
  case (RevokeAccountSessions i auth t e)
  with mutations_effect [OF assms] show ?thesis by fastforce
qed (auto simp: accounts_unchanged_def saveSession_def deleteSession_def deleteSessionsForAccount_def
    recordLoginFailure_def deleteLoginThrottles_def saveLoginIntent_def consumeLoginIntent_def
    saveSessionExchange_def consumeSessionExchange_def saveCarrierCredential_def consumeCarrierCredential_def
    deleteExpiredAuthArtifacts_def Let_def split_beta split: option.split)

section \<open>Administrators\<close>

lemma two_administrators:
  assumes "wf_map accs" "2 \<le> length (filter P (map_values accs))"
  shows "\<exists>j b. j \<noteq> i \<and> map_get accs j = Some b \<and> P b"
proof -
  have few: "length (filter P (map_values accs)) \<le> 1"
    if "wf_map accs" "\<And>j b. (j, b) \<in> set accs \<Longrightarrow> j \<noteq> i \<Longrightarrow> \<not> P b"
    using that
  proof (induction accs)
    case (Cons p accs)
    show ?case
    proof (cases "fst p = i")
      case True
      then have "\<not> P b" if "(j, b) \<in> set accs" for j b
        using that Cons.prems by (cases p) (force simp: image_iff)
      then have "filter P (map_values accs) = []" by (auto simp: filter_empty_conv)
      then show ?thesis by simp
    next
      case False
      then have "\<not> P (snd p)" using Cons.prems(2) [of "fst p" "snd p"] by simp
      with Cons show ?thesis by auto
    qed
  qed simp
  show ?thesis
  proof (rule ccontr)
    assume "\<not> ?thesis"
    then have "\<And>j b. (j, b) \<in> set accs \<Longrightarrow> j \<noteq> i \<Longrightarrow> \<not> P b"
      using assms(1) map_get_iff by metis
    with few [OF assms(1)] assms(2) show False by force
  qed
qed

definition has_administrator :: "authRepository \<Rightarrow> bool" where
  "has_administrator r = (\<exists>i a. map_get (accounts r) i = Some a \<and> enabled_administrator a)"

lemma has_administrator_count:
  assumes "repository_inv r"
  shows "has_administrator r \<longleftrightarrow> 1 \<le> countEnabledAdministrators r"
proof -
  have wf: "wf_map (accounts r)" using assms by (simp add: repository_inv_def accounts_ok_def)
  have "1 \<le> countEnabledAdministrators r \<longleftrightarrow> filter enabled_administrator (map_values (accounts r)) \<noteq> []"
    unfolding countEnabledAdministrators_def by (cases "filter enabled_administrator (map_values (accounts r))") auto
  also have "\<dots> \<longleftrightarrow> (\<exists>a \<in> set (map_values (accounts r)). enabled_administrator a)"
    unfolding filter_empty_conv by blast
  also have "\<dots> \<longleftrightarrow> has_administrator r"
    unfolding has_administrator_def using map_values_get [OF wf] map_get_in_values by metis
  finally show ?thesis by blast
qed

lemma replaced_keeps_administrator:
  assumes "repository_inv r" "has_administrator r" "account_replaced r r'"
  shows "has_administrator r'"
proof -
  from assms(2) obtain k c where k: "map_get (accounts r) k = Some c" "enabled_administrator c"
    by (auto simp: has_administrator_def)
  from assms(3) obtain i a b where rep: "map_get (accounts r) i = Some a" "accounts r' = map_set (accounts r) i b"
    "enabled_administrator a \<longrightarrow> enabled_administrator b \<or> 2 \<le> countEnabledAdministrators r"
    by (auto simp: account_replaced_def)
  have other: "has_administrator r'" if "j \<noteq> i" "map_get (accounts r) j = Some d" "enabled_administrator d" for j d
    using that rep(2) unfolding has_administrator_def by (metis map_get_set)
  show ?thesis
  proof (cases "k = i")
    case True
    with k rep(1,3) consider "enabled_administrator b" | "2 \<le> countEnabledAdministrators r" by auto
    then show ?thesis
    proof cases
      case 1
      with rep(2) show ?thesis unfolding has_administrator_def by (metis map_get_set)
    next
      case 2
      then have "2 \<le> length (filter enabled_administrator (map_values (accounts r)))"
        by (simp add: countEnabledAdministrators_def)
      with assms(1) two_administrators [of "accounts r" enabled_administrator i] other show ?thesis
        by (auto simp: repository_inv_def accounts_ok_def)
    qed
  next
    case False
    with other k show ?thesis by blast
  qed
qed

lemma step_keeps_administrator:
  assumes "repository_inv r" "has_administrator r"
  shows "has_administrator (repository_step r x)"
  using repository_step_effect [OF assms(1), of x]
proof (elim disjE)
  assume "account_added r (repository_step r x)"
  with assms(2) show ?thesis
    unfolding account_added_def has_administrator_def by (metis map_get_set option.distinct(1))
qed (use assms replaced_keeps_administrator in \<open>auto simp: accounts_unchanged_def has_administrator_def\<close>)

lemma run_keeps_administrator:
  "repository_inv r \<Longrightarrow> has_administrator r \<Longrightarrow> has_administrator (run_machine repository_step r ops)"
  by (induction ops arbitrary: r) (auto simp: step_keeps_administrator repository_step_inv)

section \<open>Versions\<close>

definition account_evolves :: "account \<Rightarrow> account \<Rightarrow> bool" where
  "account_evolves a a' = (acc_username a' = acc_username a \<and>
    (a' = a \<or> acc_authVersion a < acc_authVersion a'))"

lemma account_evolves_refl: "account_evolves a a"
  by (simp add: account_evolves_def)

lemma account_evolves_trans: "account_evolves a b \<Longrightarrow> account_evolves b c \<Longrightarrow> account_evolves a c"
  by (auto simp: account_evolves_def)

lemma step_account_evolves:
  assumes "repository_inv r" "map_get (accounts r) i = Some a"
  shows "\<exists>a'. map_get (accounts (repository_step r x)) i = Some a' \<and> account_evolves a a'"
  using repository_step_effect [OF assms(1), of x] assms(2)
  by (auto simp: accounts_unchanged_def account_added_def account_replaced_def map_get_set account_evolves_def)

lemma run_account_evolves:
  assumes "repository_inv r" "map_get (accounts r) i = Some a"
  shows "\<exists>a'. map_get (accounts (run_machine repository_step r ops)) i = Some a' \<and> account_evolves a a'"
  using assms
proof (induction ops arbitrary: r a)
  case Nil
  then show ?case by (simp add: account_evolves_refl)
next
  case (Cons x ops)
  from step_account_evolves [OF Cons.prems] obtain b where
    b: "map_get (accounts (repository_step r x)) i = Some b" "account_evolves a b" by blast
  from Cons.IH [OF repository_step_inv [OF Cons.prems(1)] b(1)] b(2) show ?case
    by (auto intro: account_evolves_trans)
qed

lemma step_audit: "repository_inv r \<Longrightarrow> \<exists>es. auditEvents (repository_step r x) = auditEvents r @ es"
  using repository_step_effect [of r x]
  by (auto simp: accounts_unchanged_def account_added_def account_replaced_def)

lemma run_audit: "repository_inv r \<Longrightarrow> \<exists>es. auditEvents (run_machine repository_step r ops) = auditEvents r @ es"
proof (induction ops arbitrary: r)
  case (Cons x ops)
  with step_audit [of r x] Cons.IH [OF repository_step_inv [OF Cons.prems, of x]] show ?case
    by (metis append_assoc run_machine_Cons)
qed simp

section \<open>Deletions\<close>

text \<open>Every deletion of the source keeps a subsequence of a map's entries.\<close>

lemma subseq_delete_if: "subseq (map_delete_if P m) m"
  by (simp add: map_delete_if_def)

lemma subseq_delete: "subseq (map_delete m k) m"
  by (simp add: AList.delete_eq)

lemma subseq_delete_batch: "subseq (snd (delete_batch P n d m)) m"
  by (induction P n d m rule: delete_batch.induct) (auto simp: Let_def split: prod.splits)

lemmas deletions = subseq_delete_if subseq_delete subseq_delete_batch

lemma subseq_absent: "subseq m' m \<Longrightarrow> map_get m k = None \<Longrightarrow> map_get m' k = None"
proof -
  assume sub: "subseq m' m" and absent: "map_get m k = None"
  have "set m' \<subseteq> set m" using sub by (auto elim: list_emb_set)
  with absent show ?thesis unfolding map_of_eq_None_iff by blast
qed

section \<open>One-time codes\<close>

fun saves_exchange :: "string \<Rightarrow> repositoryOp \<Rightarrow> bool" where
  "saves_exchange d (SaveSessionExchange x now l) = (exc_codeDigest x = d)"
| "saves_exchange d x = False"

fun saves_credential :: "string \<Rightarrow> repositoryOp \<Rightarrow> bool" where
  "saves_credential i (SaveCarrierCredential c now l) = (crd_id c = i)"
| "saves_credential i x = False"

lemmas repository_defs = createFirstAccount_def createAccount_def setAccountEnabled_def setAccountRoles_def
  replaceAccountPassword_def revokeAccountSessions_def commit_update_def deleteAccountAuthArtifacts_def
  saveSession_def deleteSession_def deleteSessionsForAccount_def recordLoginFailure_def deleteLoginThrottles_def
  saveLoginIntent_def consumeLoginIntent_def saveSessionExchange_def consumeSessionExchange_def
  saveCarrierCredential_def consumeCarrierCredential_def deleteExpiredAuthArtifacts_def

lemma step_exchanges:
  "\<not> saves_exchange d x \<Longrightarrow> map_get (sessionExchanges r) d = None \<Longrightarrow>
    map_get (sessionExchanges (repository_step r x)) d = None"
  by (cases x) (auto simp: repository_defs Let_def split_beta map_get_set intro: subseq_absent deletions
      split: option.split sum.split)

lemma step_credentials:
  "\<not> saves_credential i x \<Longrightarrow> map_get (carrierCredentials r) i = None \<Longrightarrow>
    map_get (carrierCredentials (repository_step r x)) i = None"
  by (cases x) (auto simp: repository_defs Let_def split_beta map_get_set intro: subseq_absent deletions
      split: option.split sum.split)

lemma run_exchanges:
  "\<forall>x \<in> set ops. \<not> saves_exchange d x \<Longrightarrow> map_get (sessionExchanges r) d = None \<Longrightarrow>
    map_get (sessionExchanges (run_machine repository_step r ops)) d = None"
  by (induction ops arbitrary: r) (auto simp: step_exchanges)

lemma run_credentials:
  "\<forall>x \<in> set ops. \<not> saves_credential i x \<Longrightarrow> map_get (carrierCredentials r) i = None \<Longrightarrow>
    map_get (carrierCredentials (run_machine repository_step r ops)) i = None"
  by (induction ops arbitrary: r) (auto simp: step_credentials)

section \<open>Capacity\<close>

definition count_owner :: "('v \<Rightarrow> string) \<Rightarrow> string \<Rightarrow> (string, 'v) jsmap \<Rightarrow> int" where
  "count_owner owner a m = int (length (filter (\<lambda>s. owner s = a) (map_values m)))"

definition store_bounded :: "('v \<Rightarrow> string) \<Rightarrow> int \<Rightarrow> int \<Rightarrow> (string, 'v) jsmap \<Rightarrow> bool" where
  "store_bounded owner global perAccount m =
    (map_size m \<le> global \<and> (\<forall>a. count_owner owner a m \<le> perAccount))"

lemma store_bounded_subseq:
  assumes "store_bounded owner g p m" "subseq m' m"
  shows "store_bounded owner g p m'"
proof -
  have "length m' \<le> length m" using assms(2) by (rule list_emb_length)
  moreover have "count_owner owner a m' \<le> count_owner owner a m" for a
    unfolding count_owner_def by (intro of_nat_mono list_emb_length [where P = "(=)"] subseq_filter subseq_map assms(2))
  ultimately show ?thesis using assms(1) unfolding store_bounded_def by (auto intro: order_trans)
qed

lemma count_owner_set:
  assumes "wf_map m" "\<forall>(k, s) \<in> set m. key s = k"
  shows "count_owner owner a (map_set m (key x) x) =
    (if owner x = a then 1 else 0) + int (length (filter (\<lambda>s. key s \<noteq> key x \<and> owner s = a) (map_values m)))"
  using assms
proof (induction m)
  case (Cons p m)
  obtain k s where p: "p = (k, s)" "key s = k" using Cons.prems(2) by (cases p) auto
  show ?case
  proof (cases "k = key x")
    case True
    have "filter (\<lambda>s. key s \<noteq> key x \<and> owner s = a) (map_values m) = filter (\<lambda>s. owner s = a) (map_values m)"
      by (rule filter_cong [OF refl]) (use Cons.prems True p in \<open>force simp: image_iff\<close>)
    with True p show ?thesis by (simp add: count_owner_def)
  next
    case False
    with Cons p show ?thesis by (auto simp: count_owner_def)
  qed
qed (simp add: count_owner_def)

lemma count_owner_others:
  "int (length (filter (\<lambda>s. key s \<noteq> k \<and> owner s = a) (map_values m))) \<le> count_owner owner a m"
  unfolding count_owner_def by (induction m) auto

lemma admit_bounded:
  assumes "artifacts_ok key owner version accs m" "store_bounded owner g p m"
    "admit_artifact key owner l m x" "lim_global l \<le> g" "lim_perAccount l \<le> p"
  shows "store_bounded owner g p (map_set m (key x) x)"
proof -
  have "count_owner owner a (map_set m (key x) x) \<le> p" for a
  proof (cases "owner x = a")
    case True
    with assms(1,3,5) show ?thesis
      by (subst count_owner_set) (auto simp: artifacts_ok_def admit_artifact_def Let_def)
  next
    case False
    have "count_owner owner a m \<le> p" using assms(2) by (simp add: store_bounded_def)
    with False count_owner_others [of key "key x" owner a m] assms(1) show ?thesis
      by (subst count_owner_set) (auto simp: artifacts_ok_def)
  qed
  moreover have "map_size (map_set m (key x) x) \<le> g"
    using assms(3,4) by (auto simp: length_map_set admit_artifact_def Let_def split: if_splits)
  ultimately show ?thesis by (simp add: store_bounded_def)
qed

text \<open>The limits that the calls of a run pass for sessions.\<close>

fun session_limits_within :: "int \<Rightarrow> int \<Rightarrow> repositoryOp \<Rightarrow> bool" where
  "session_limits_within g p (SaveSession s now l) = (lim_global l \<le> g \<and> lim_perAccount l \<le> p)"
| "session_limits_within g p x = True"

lemma step_sessions_bounded:
  assumes "repository_inv r" "session_limits_within g p x" "store_bounded ses_accountId g p (sessions r)"
  shows "store_bounded ses_accountId g p (sessions (repository_step r x))"
proof (cases x)
  case (SaveSession s now l)
  let ?live = "map_delete_if (\<lambda>s. ses_expiresAt s \<le> now) (sessions r)"
  have live: "store_bounded ses_accountId g p ?live"
    using assms(3) by (rule store_bounded_subseq) (rule subseq_delete_if)
  have "artifacts_ok ses_id ses_accountId ses_accountAuthVersion (accounts r) ?live"
    using assms(1) by (simp add: repository_inv_def artifacts_ok_delete_if)
  from admit_bounded [OF this live, of l s] live SaveSession assms(2,3) show ?thesis
    by (auto simp: saveSession_def Let_def)
qed (use assms(3) in \<open>auto simp: repository_defs Let_def split_beta intro: store_bounded_subseq deletions
    split: option.split sum.split\<close>)

lemma run_sessions_bounded:
  "repository_inv r \<Longrightarrow> \<forall>x \<in> set ops. session_limits_within g p x \<Longrightarrow> store_bounded ses_accountId g p (sessions r) \<Longrightarrow>
    store_bounded ses_accountId g p (sessions (run_machine repository_step r ops))"
  by (induction ops arbitrary: r) (auto simp: step_sessions_bounded repository_step_inv)

section \<open>Properties\<close>

text \<open>
  C4. Revocation is immediate and complete. After any sequence of calls, every stored login session,
  session exchange code and carrier credential belongs to an account that exists, is enabled and
  still has the authentication version the artifact was issued for. So disabling an account, changing
  its roles or password or revoking its sessions leaves none of its artifacts behind, and no call can
  store one for a disabled account or a past version.
\<close>

theorem artifacts_always_current:
  assumes "new_authRepository limits = Inr r0"
  shows "let r = run_machine repository_step r0 ops in
    (\<forall>(i, s) \<in> set (sessions r). isCurrentArtifactAccount r (ses_accountId s) (ses_accountAuthVersion s)) \<and>
    (\<forall>(d, x) \<in> set (sessionExchanges r). isCurrentArtifactAccount r (exc_accountId x) (exc_accountAuthVersion x)) \<and>
    (\<forall>(i, c) \<in> set (carrierCredentials r). isCurrentArtifactAccount r (crd_accountId c) (crd_accountAuthVersion c))"
proof -
  have "repository_inv (run_machine repository_step r0 ops)" using assms repository.run_inv by blast
  then show ?thesis by (auto simp: Let_def repository_inv_def artifacts_ok_def isCurrentArtifactAccount_eq)
qed

abbreviation sample_account :: "string \<Rightarrow> accountRole list \<Rightarrow> account" where
  "sample_account i roles \<equiv> \<lparr>acc_id = i, acc_username = i, acc_displayName = i, acc_roles = roles,
    acc_passwordHash = ''h'', acc_enabled = True, acc_mustChangePassword = False, acc_authVersion = 1,
    acc_createdAt = 0, acc_updatedAt = 0\<rparr>"

abbreviation sample_event :: "string \<Rightarrow> auditEvent" where
  "sample_event i \<equiv> \<lparr>aud_id = i, aud_action = ACCOUNT_CREATED, aud_actorAccountId = None,
    aud_targetAccountId = None, aud_occurredAt = 0\<rparr>"

abbreviation sample_session :: "string \<Rightarrow> string \<Rightarrow> authSession" where
  "sample_session i owner \<equiv> \<lparr>ses_id = i, ses_tokenDigest = i, ses_accountId = owner, ses_accountAuthVersion = 1,
    ses_audience = ''control'', ses_createdAt = 0, ses_expiresAt = 100, ses_lastSeenAt = 0\<rparr>"

abbreviation sample_repository :: authRepository where
  "sample_repository \<equiv> \<lparr>accounts = [], sessions = [], loginThrottles = [], auditEvents = [], loginIntents = [],
    sessionExchanges = [], carrierCredentials = [], auditLimits = DEFAULT_AUDIT_EVENT_LIMITS\<rparr>"

lemma new_sample_repository: "new_authRepository None = Inr sample_repository"
  by (simp add: new_authRepository_def validateAuditEventLimits_def DEFAULT_AUDIT_EVENT_LIMITS_def MAX_SAFE_INTEGER_def)

lemmas sample_simps = repository_defs assertAccountCanBeCreated_def assertAuditEventCanBeAppended_def
  DEFAULT_AUDIT_EVENT_LIMITS_def isCurrentArtifactAccount_def admit_artifact_def map_delete_if_def Let_def

theorem artifacts_always_current_witness:
  "isCurrentArtifactAccount (run_machine repository_step sample_repository
      [CreateFirstAccount (sample_account ''a'' [ADMIN]) (sample_event ''e''),
       SaveSession (sample_session ''s'' ''a'') 0 \<lparr>lim_global = 5, lim_perAccount = 5\<rparr>]) ''a'' 1"
  using artifacts_always_current [OF new_sample_repository,
      of "[CreateFirstAccount (sample_account ''a'' [ADMIN]) (sample_event ''e''),
       SaveSession (sample_session ''s'' ''a'') 0 \<lparr>lim_global = 5, lim_perAccount = 5\<rparr>]"]
  by (simp add: sample_simps)

text \<open>
  C13. The system never loses its last administrator. Once a reachable repository has an enabled
  administrator, it has one after any further sequence of calls, in whatever order and on behalf of
  whomever they are made.
\<close>

theorem administrator_survives:
  assumes "new_authRepository limits = Inr r0" and "r = run_machine repository_step r0 ops"
    and "1 \<le> countEnabledAdministrators r"
  shows "1 \<le> countEnabledAdministrators (run_machine repository_step r ops')"
proof -
  have inv: "repository_inv r" using assms repository.run_inv by blast
  then have "has_administrator (run_machine repository_step r ops')"
    using assms(3) run_keeps_administrator has_administrator_count by blast
  with has_administrator_count repository.run_keeps_inv [OF inv] show ?thesis by blast
qed

theorem administrator_survives_witness:
  "1 \<le> countEnabledAdministrators (run_machine repository_step
      (run_machine repository_step sample_repository
        [CreateFirstAccount (sample_account ''a'' [ADMIN]) (sample_event ''e'')])
      [SetAccountEnabled ''a'' False \<lparr>aut_accountId = ''a'', aut_authVersion = 1, aut_requiredRole = Some ADMIN,
        aut_allowPasswordChangeRequired = False\<rparr> 1 (sample_event ''f'')])"
  by (rule administrator_survives [OF new_sample_repository refl])
    (simp add: sample_simps countEnabledAdministrators_def enabled_administrator_def)

text \<open>
  An account's authentication version identifies its state. Along any run from a reachable
  repository an account is never removed or renamed, and it either is unchanged or has a strictly
  higher version; a version that was left behind never becomes current again.
\<close>

theorem account_versions_increase:
  assumes "new_authRepository limits = Inr r0" and "r = run_machine repository_step r0 ops"
    and "findAccountById r i = Some a"
  shows "\<exists>a'. findAccountById (run_machine repository_step r ops') i = Some a' \<and>
    acc_username a' = acc_username a \<and> (a' = a \<or> acc_authVersion a < acc_authVersion a')"
proof -
  have "repository_inv r" using assms repository.run_inv by blast
  from run_account_evolves [OF this, of i a ops'] assms(3) show ?thesis
    by (auto simp: findAccountById_def account_evolves_def)
qed

theorem account_versions_increase_witness:
  "\<exists>a'. findAccountById (run_machine repository_step
      (run_machine repository_step sample_repository
        [CreateFirstAccount (sample_account ''a'' [ADMIN]) (sample_event ''e'')])
      [RevokeAccountSessions ''a'' \<lparr>aut_accountId = ''a'', aut_authVersion = 1, aut_requiredRole = Some ADMIN,
        aut_allowPasswordChangeRequired = False\<rparr> 1 (sample_event ''f'')]) ''a'' = Some a' \<and>
    acc_username a' = ''a''"
  using account_versions_increase [OF new_sample_repository refl,
      of "[CreateFirstAccount (sample_account ''a'' [ADMIN]) (sample_event ''e'')]" "''a''" "sample_account ''a'' [ADMIN]"
        "[RevokeAccountSessions ''a'' \<lparr>aut_accountId = ''a'', aut_authVersion = 1, aut_requiredRole = Some ADMIN,
        aut_allowPasswordChangeRequired = False\<rparr> 1 (sample_event ''f'')]"]
  by (force simp: findAccountById_def createFirstAccount_def assertAccountCanBeCreated_def
      assertAuditEventCanBeAppended_def DEFAULT_AUDIT_EVENT_LIMITS_def)

text \<open>
  Every change to an account is audited, once, in an append-only log. A call on a reachable
  repository either leaves all accounts and the log unchanged or changes the accounts and appends
  exactly one event; the log never exceeds the capacity left by the operational reserve, its event
  ids are distinct, and later calls only append to it.
\<close>

theorem audit_log_append_only:
  assumes "new_authRepository limits = Inr r0" and "r = run_machine repository_step r0 ops"
  shows "(accounts (repository_step r x) = accounts r \<and> auditEvents (repository_step r x) = auditEvents r \<or>
      accounts (repository_step r x) \<noteq> accounts r \<and> (\<exists>e. auditEvents (repository_step r x) = auditEvents r @ [e])) \<and>
    (\<exists>es. auditEvents (run_machine repository_step r ops') = auditEvents r @ es) \<and>
    distinct (map aud_id (auditEvents r)) \<and>
    int (length (auditEvents r)) \<le> to_int (alim_global (auditLimits r)) - to_int (alim_operationalReserve (auditLimits r))"
proof -
  have inv: "repository_inv r" using assms repository.run_inv by blast
  have "account_added r r' \<Longrightarrow> accounts r' \<noteq> accounts r" "account_replaced r r' \<Longrightarrow> accounts r' \<noteq> accounts r" for r'
    unfolding account_added_def account_replaced_def
    by (metis map_get_set option.distinct(1)) (metis map_get_set option.inject zle_add1_eq_le less_irrefl order_refl)
  with repository_step_effect [OF inv, of x] have
    "accounts (repository_step r x) = accounts r \<and> auditEvents (repository_step r x) = auditEvents r \<or>
      accounts (repository_step r x) \<noteq> accounts r \<and> (\<exists>e. auditEvents (repository_step r x) = auditEvents r @ [e])"
    unfolding accounts_unchanged_def account_added_def account_replaced_def by metis
  with run_audit [OF inv, of ops'] inv show ?thesis by (auto simp: repository_inv_def audit_ok_def)
qed

theorem audit_log_append_only_witness:
  "distinct (map aud_id (auditEvents (run_machine repository_step sample_repository
      [CreateFirstAccount (sample_account ''a'' [ADMIN]) (sample_event ''e'')])))"
  using audit_log_append_only [OF new_sample_repository refl,
      of "[CreateFirstAccount (sample_account ''a'' [ADMIN]) (sample_event ''e'')]"] by blast

text \<open>
  C29. Exchange codes and carrier credentials work once. After a consume call has returned a stored
  exchange code or carrier credential, no later consume call returns it again, whatever calls happen
  in between, unless the same digest or id is saved anew.
\<close>

theorem codes_single_use:
  assumes "list_all (\<lambda>x. \<not> saves_exchange d x \<and> \<not> saves_credential i x) ops"
  shows "(\<forall>x r'. consumeSessionExchange r d h now = (Some x, r') \<longrightarrow>
      fst (consumeSessionExchange (run_machine repository_step r' ops) d h' now') = None) \<and>
    (\<forall>c r'. consumeCarrierCredential r i sd now = (Some c, r') \<longrightarrow>
      fst (consumeCarrierCredential (run_machine repository_step r' ops) i sd' now') = None)"
proof -
  have "fst (consumeSessionExchange (run_machine repository_step r' ops) d h' now') = None"
    if "consumeSessionExchange r d h now = (Some x, r')" for x r'
    using that assms run_exchanges [of ops d r']
    by (auto simp: consumeSessionExchange_def list_all_iff map_get_delete split: option.splits if_splits)
  moreover have "fst (consumeCarrierCredential (run_machine repository_step r' ops) i sd' now') = None"
    if "consumeCarrierCredential r i sd now = (Some c, r')" for c r'
    using that assms run_credentials [of ops i r']
    by (auto simp: consumeCarrierCredential_def list_all_iff map_get_delete split: option.splits if_splits)
  ultimately show ?thesis by blast
qed

theorem codes_single_use_witness:
  "\<exists>r x r'. consumeSessionExchange r ''d'' ''h'' 0 = (Some x, r') \<and>
    fst (consumeSessionExchange (run_machine repository_step r' [DeleteSession ''q'']) ''d'' ''h'' 1) = None"
proof -
  let ?x = "\<lparr>exc_codeDigest = ''d'', exc_accountId = ''a'', exc_accountAuthVersion = 1, exc_targetHost = ''h'',
    exc_targetPath = ''/'', exc_expiresAt = 100\<rparr>"
  let ?r = "sample_repository\<lparr>sessionExchanges := [(''d'', ?x)]\<rparr>"
  have c: "consumeSessionExchange ?r ''d'' ''h'' 0 = (Some ?x, sample_repository)"
    by (simp add: consumeSessionExchange_def)
  have "fst (consumeSessionExchange (run_machine repository_step sample_repository [DeleteSession ''q'']) ''d'' ''h'' 1) = None"
    using codes_single_use [of "''d''" "''i''" "[DeleteSession ''q'']" ?r "''h''" 0 "''h''" 1] c
    by (simp del: run_machine_Cons)
  with c show ?thesis by blast
qed

text \<open>
  The session store is bounded. If every call that saves a session passes limits of at most
  \<open>g\<close> sessions in all and \<open>p\<close> per account, then after any sequence of calls at most \<open>g\<close> sessions are
  stored, at most \<open>p\<close> of them for any one account.
\<close>

theorem session_store_bounded:
  assumes "new_authRepository limits = Inr r0" and "list_all (session_limits_within g p) ops" and "0 \<le> g" and "0 \<le> p"
  shows "map_size (sessions (run_machine repository_step r0 ops)) \<le> g \<and>
    count_owner ses_accountId a (sessions (run_machine repository_step r0 ops)) \<le> p"
proof -
  have "store_bounded ses_accountId g p (sessions r0)"
    using assms by (auto simp: new_authRepository_def store_bounded_def count_owner_def split: sum.splits)
  with run_sessions_bounded [OF new_authRepository_inv [OF assms(1)]] assms(2) show ?thesis
    by (auto simp: list_all_iff store_bounded_def)
qed

theorem session_store_bounded_witness:
  "map_size (sessions (run_machine repository_step sample_repository
      [CreateFirstAccount (sample_account ''a'' [ADMIN]) (sample_event ''e''),
       SaveSession (sample_session ''s'' ''a'') 0 \<lparr>lim_global = 1, lim_perAccount = 1\<rparr>,
       SaveSession (sample_session ''t'' ''a'') 0 \<lparr>lim_global = 1, lim_perAccount = 1\<rparr>])) \<le> 1"
  using session_store_bounded [OF new_sample_repository,
      of 1 1 "[CreateFirstAccount (sample_account ''a'' [ADMIN]) (sample_event ''e''),
       SaveSession (sample_session ''s'' ''a'') 0 \<lparr>lim_global = 1, lim_perAccount = 1\<rparr>,
       SaveSession (sample_session ''t'' ''a'') 0 \<lparr>lim_global = 1, lim_perAccount = 1\<rparr>]"]
  by (simp del: run_machine_Cons)

end
