(* ===== verification/ServiceMonad.thy ===== *)
theory ServiceMonad
  imports Prelude
begin

text \<open>
  The asynchronous methods of the service classes: a call threads a world (the repository, the clock,
  the sources of ids) and ends with a result or with the error it threw, in the world reached until
  then. What the services promise of the repository below them is a refinement: any sequence of service
  calls changes the repository as some sequence of repository calls does.
\<close>

type_synonym ('w, 'e, 'a) service = "'w \<Rightarrow> ('e + 'a) \<times> 'w"

definition ret :: "'a \<Rightarrow> ('w, 'e, 'a) service" where
  "ret a w = (Inr a, w)"

definition bindM :: "('w, 'e, 'a) service \<Rightarrow> ('a \<Rightarrow> ('w, 'e, 'b) service) \<Rightarrow> ('w, 'e, 'b) service" where
  "bindM m f w = (case m w of (Inl e, w') \<Rightarrow> (Inl e, w') | (Inr a, w') \<Rightarrow> f a w')"

lemma bindM_Inr: "m w = (Inr a, w') \<Longrightarrow> bindM m f w = f a w'"
  by (simp add: bindM_def)

lemma bindM_Inl: "m w = (Inl e, w') \<Longrightarrow> bindM m f w = (Inl e, w')"
  by (simp add: bindM_def)

lemma bindM_success: "bindM m f w = (Inr b, w'') \<longleftrightarrow> (\<exists>a w'. m w = (Inr a, w') \<and> f a w' = (Inr b, w''))"
  by (auto simp: bindM_def split: prod.splits sum.splits)

lemma ret_eq [simp]: "ret a w = (Inr b, w') \<longleftrightarrow> b = a \<and> w' = w"
  by (auto simp: ret_def)

section \<open>Calls realized by repository calls\<close>

definition realized_by :: "('w \<Rightarrow> 'r) \<Rightarrow> ('r \<Rightarrow> 'op \<Rightarrow> 'r) \<Rightarrow> ('w, 'e, 'a) service \<Rightarrow> bool" where
  "realized_by store step m = (\<forall>w. \<exists>ops. store (snd (m w)) = run_machine step (store w) ops)"

lemma realized_same: "(\<And>w. store (snd (m w)) = store w) \<Longrightarrow> realized_by store step m"
  unfolding realized_by_def by (metis run_machine_Nil)

lemma realized_step: "(\<And>w. \<exists>x. store (snd (m w)) = step (store w) x) \<Longrightarrow> realized_by store step m"
  unfolding realized_by_def by (metis run_machine_Cons run_machine_Nil)

lemma realized_bind:
  assumes "realized_by store step m" "\<And>a. realized_by store step (f a)"
  shows "realized_by store step (bindM m f)"
  unfolding realized_by_def
proof
  fix w
  obtain res w' where mw: "m w = (res, w')" by fastforce
  from assms(1) mw obtain ops where ops: "store w' = run_machine step (store w) ops"
    unfolding realized_by_def by (metis snd_conv)
  show "\<exists>ops. store (snd (bindM m f w)) = run_machine step (store w) ops"
  proof (cases res)
    case (Inl e)
    with mw ops show ?thesis by (auto simp: bindM_def)
  next
    case (Inr a)
    from assms(2) [of a] obtain ops' where "store (snd (f a w')) = run_machine step (store w') ops'"
      unfolding realized_by_def by blast
    with mw ops Inr have "store (snd (bindM m f w)) = run_machine step (store w) (ops @ ops')"
      by (simp add: bindM_def run_machine_append)
    then show ?thesis by blast
  qed
qed

text \<open>The contract of a service over a repository, and its lift to whole runs.\<close>

locale service_refinement =
  fixes store :: "'w \<Rightarrow> 'r"
    and step :: "'r \<Rightarrow> 'op \<Rightarrow> 'r"
    and service_step :: "'w \<Rightarrow> 'call \<Rightarrow> 'w"
  assumes step_realized: "\<exists>ops. store (service_step w x) = run_machine step (store w) ops"
begin

lemma run_realized: "\<exists>ops. store (run_machine service_step w calls) = run_machine step (store w) ops"
proof (induction calls arbitrary: w)
  case Nil
  show ?case by (metis run_machine_Nil)
next
  case (Cons x calls)
  from step_realized [of w x] obtain ops where
    1: "store (service_step w x) = run_machine step (store w) ops" by blast
  from Cons [of "service_step w x"] obtain ops' where
    2: "store (run_machine service_step (service_step w x) calls) = run_machine step (store (service_step w x)) ops'" by blast
  have "store (run_machine service_step w (x # calls)) = run_machine step (store w) (ops @ ops')"
    by (simp add: run_machine_append 1 2)
  then show ?case by blast
qed

lemma run_keeps:
  assumes "\<And>r x. P r \<Longrightarrow> P (step r x)" "P (store w)"
  shows "P (store (run_machine service_step w calls))"
proof -
  have "P (run_machine step r ops)" if "P r" for r ops
    using that by (induction ops arbitrary: r) (simp_all add: assms(1))
  with run_realized [of w calls] assms(2) show ?thesis by metis
qed

end

end
