(* ===== verification/AuthService.thy ===== *)
theory AuthService
  imports AuthProperties Bytes ServiceMonad
begin

text \<open>
  The authentication service, \<^verbatim>\<open>packages/auth/src/auth-service.ts\<close>, class \<^verbatim>\<open>AuthService\<close>, over the in-memory
  repository. What the class receives from outside is a record of parameters: the clock and the
  sources of ids and secrets (streams read in order), the password hasher (third-party; its hash is
  salted, so it may differ from call to call) and HMAC. A service call threads a world: the
  repository, the positions in those streams and the authentication events written so far; a throw
  ends it with an error and the world reached until then.
\<close>

section \<open>Dependencies and the world\<close>

record authDependencies =
  d_clock :: "nat \<Rightarrow> int"
  d_createId :: "nat \<Rightarrow> string"
  d_createSecret :: "nat \<Rightarrow> string"
  d_hash :: "nat \<Rightarrow> string \<Rightarrow> string"
  d_verify :: "string \<Rightarrow> string \<Rightarrow> bool"
  d_hmac :: "byte list \<Rightarrow> string \<Rightarrow> string"
  d_sessionHmacKeys :: "byte list list"
  d_dummyPasswordHash :: string
  d_loginIntentLimits :: loginIntentLimits
  d_loginThrottleGlobal :: int
  d_sessionLimits :: storedArtifactLimits
  d_sessionExchangeLimits :: storedArtifactLimits
  d_carrierCredentialLimits :: storedArtifactLimits

record authWorld =
  w_repository :: authRepository
  w_clock :: nat
  w_ids :: nat
  w_secrets :: nat
  w_hashes :: nat
  w_events :: "authenticationEvent list"

datatype serviceError = AuthError authErrorCode | RepositoryFailure repositoryError

type_synonym 'a authM = "(authWorld, serviceError, 'a) service"

definition SESSION_TTL_MS :: int where "SESSION_TTL_MS = 12 * 60 * 60000"
definition LOGIN_LOCK_THRESHOLD :: int where "LOGIN_LOCK_THRESHOLD = 5"
definition LOGIN_LOCK_MS :: int where "LOGIN_LOCK_MS = 30000"
definition LOGIN_FAILURE_WINDOW_MS :: int where "LOGIN_FAILURE_WINDOW_MS = 15 * 60000"
definition LOGIN_INTENT_TTL_MS :: int where "LOGIN_INTENT_TTL_MS = 5 * 60000"
definition SESSION_EXCHANGE_TTL_MS :: int where "SESSION_EXCHANGE_TTL_MS = 60000"
definition CARRIER_CREDENTIAL_TTL_MS :: int where "CARRIER_CREDENTIAL_TTL_MS = 60000"
definition AUTH_ARTIFACT_CLEANUP_BATCH_SIZE :: int where "AUTH_ARTIFACT_CLEANUP_BATCH_SIZE = 500"
definition AUTH_ARTIFACT_CLEANUP_MAX_BATCHES :: nat where "AUTH_ARTIFACT_CLEANUP_MAX_BATCHES = 10"
definition AUTHORIZATION_ACCOUNT_BATCH_SIZE :: nat where "AUTHORIZATION_ACCOUNT_BATCH_SIZE = 512"

definition throw :: "authErrorCode \<Rightarrow> 'a authM" where
  "throw e w = (Inl (AuthError e), w)"

definition unless :: "bool \<Rightarrow> authErrorCode \<Rightarrow> unit authM" where
  "unless ok e = (if ok then ret () else throw e)"

definition lift_sum :: "authErrorCode + 'a \<Rightarrow> 'a authM" where
  "lift_sum x = (case x of Inl e \<Rightarrow> throw e | Inr a \<Rightarrow> ret a)"

definition now :: "authDependencies \<Rightarrow> int authM" where
  "now d w = (Inr (d_clock d (w_clock w)), w\<lparr>w_clock := w_clock w + 1\<rparr>)"

definition createId :: "authDependencies \<Rightarrow> string authM" where
  "createId d w = (Inr (d_createId d (w_ids w)), w\<lparr>w_ids := w_ids w + 1\<rparr>)"

definition createSecret :: "authDependencies \<Rightarrow> string authM" where
  "createSecret d w = (Inr (d_createSecret d (w_secrets w)), w\<lparr>w_secrets := w_secrets w + 1\<rparr>)"

definition hash_password :: "authDependencies \<Rightarrow> string \<Rightarrow> string authM" where
  "hash_password d password w = (Inr (d_hash d (w_hashes w) password), w\<lparr>w_hashes := w_hashes w + 1\<rparr>)"

definition query :: "(authRepository \<Rightarrow> 'a) \<Rightarrow> 'a authM" where
  "query f w = (Inr (f (w_repository w)), w)"

definition change :: "(authRepository \<Rightarrow> 'a \<times> authRepository) \<Rightarrow> 'a authM" where
  "change f w = (let (a, r) = f (w_repository w) in (Inr a, w\<lparr>w_repository := r\<rparr>))"

definition try_change :: "(authRepository \<Rightarrow> (repositoryError + 'a) \<times> authRepository) \<Rightarrow> 'a authM" where
  "try_change f w = (case f (w_repository w) of
     (Inl e, r) \<Rightarrow> (Inl (RepositoryFailure e), w\<lparr>w_repository := r\<rparr>)
   | (Inr a, r) \<Rightarrow> (Inr a, w\<lparr>w_repository := r\<rparr>))"

text \<open>A sink that throws is swallowed, so writing an event never fails a call.\<close>

definition writeAuthenticationEvent :: "authenticationEvent \<Rightarrow> unit authM" where
  "writeAuthenticationEvent e w = (Inr (), w\<lparr>w_events := w_events w @ [e]\<rparr>)"

section \<open>Construction\<close>

definition validate_hmac_keys :: "byte list \<Rightarrow> byte list list \<Rightarrow> limitsTypeError + byte list list" where
  "validate_hmac_keys sessionHmacKey previous =
    (if length previous > 3 then Inl LimitsTypeError
     else
       let keys = sessionHmacKey # previous in
       if list_ex (\<lambda>k. length k < 32 \<or> length k > 128) keys then Inl LimitsTypeError
       else if length (set_values keys) \<noteq> length keys then Inl LimitsTypeError
       else Inr keys)"

record authArtifactLimits =
  sessionLimits :: "number \<times> number"
  sessionExchangeLimits :: "number \<times> number"
  carrierCredentialLimits :: "number \<times> number"

definition DEFAULT_LOGIN_INTENT_LIMITS :: "number \<times> number" where
  "DEFAULT_LOGIN_INTENT_LIMITS = (Integral 10000, Integral 256)"

definition DEFAULT_LOGIN_THROTTLE_LIMITS :: number where
  "DEFAULT_LOGIN_THROTTLE_LIMITS = Integral 100000"

definition DEFAULT_AUTH_ARTIFACT_LIMITS :: authArtifactLimits where
  "DEFAULT_AUTH_ARTIFACT_LIMITS =
    \<lparr>sessionLimits = (Integral 100000, Integral 64),
     sessionExchangeLimits = (Integral 10000, Integral 256),
     carrierCredentialLimits = (Integral 10000, Integral 128)\<rparr>"

definition validateAuthArtifactLimits ::
    "authArtifactLimits \<Rightarrow> limitsTypeError + storedArtifactLimits \<times> storedArtifactLimits \<times> storedArtifactLimits" where
  "validateAuthArtifactLimits l =
    result_bind (case_prod validateStoredArtifactLimits (sessionLimits l)) (\<lambda>s.
    result_bind (case_prod validateStoredArtifactLimits (sessionExchangeLimits l)) (\<lambda>x.
    result_bind (case_prod validateStoredArtifactLimits (carrierCredentialLimits l)) (\<lambda>c. Inr (s, x, c))))"

text \<open>The constructor: the keys are checked, then the limits, each with its default.\<close>

definition new_authService ::
    "authDependencies \<Rightarrow> byte list \<Rightarrow> byte list list option \<Rightarrow> (number \<times> number) option \<Rightarrow> number option \<Rightarrow>
     authArtifactLimits option \<Rightarrow> limitsTypeError + authDependencies" where
  "new_authService d sessionHmacKey previous intentLimits throttleLimits artifactLimits =
    result_bind (validate_hmac_keys sessionHmacKey (case previous of Some ks \<Rightarrow> ks | None \<Rightarrow> [])) (\<lambda>keys.
    result_bind (case_prod validateLoginIntentLimits
      (case intentLimits of Some l \<Rightarrow> l | None \<Rightarrow> DEFAULT_LOGIN_INTENT_LIMITS)) (\<lambda>il.
    result_bind (validateLoginThrottleLimits
      (case throttleLimits of Some l \<Rightarrow> l | None \<Rightarrow> DEFAULT_LOGIN_THROTTLE_LIMITS)) (\<lambda>tl.
    result_bind (validateAuthArtifactLimits
      (case artifactLimits of Some l \<Rightarrow> l | None \<Rightarrow> DEFAULT_AUTH_ARTIFACT_LIMITS)) (\<lambda>(sl, xl, cl).
    Inr (d\<lparr>d_sessionHmacKeys := keys, d_loginIntentLimits := il, d_loginThrottleGlobal := tl,
      d_sessionLimits := sl, d_sessionExchangeLimits := xl, d_carrierCredentialLimits := cl\<rparr>)))))"

section \<open>Digests\<close>

definition digestSessionToken :: "authDependencies \<Rightarrow> string \<Rightarrow> string" where
  "digestSessionToken d token = d_hmac d (hd (d_sessionHmacKeys d)) token"

definition digestSessionTokenCandidates :: "authDependencies \<Rightarrow> string \<Rightarrow> string list" where
  "digestSessionTokenCandidates d token = map (\<lambda>k. d_hmac d k token) (d_sessionHmacKeys d)"

definition throttleKey :: "authDependencies \<Rightarrow> string \<Rightarrow> string \<Rightarrow> string" where
  "throttleKey d scope v = d_hmac d (hd (d_sessionHmacKeys d)) (scope @ [char_of (0 :: nat)] @ v)"

definition service_auditEvent ::
    "authDependencies \<Rightarrow> auditAction \<Rightarrow> string option \<Rightarrow> string option \<Rightarrow> auditEvent authM" where
  "service_auditEvent d action actor target =
    bindM (createId d) (\<lambda>i.
    bindM (now d) (\<lambda>t.
    ret \<lparr>aud_id = i, aud_action = action, aud_actorAccountId = actor, aud_targetAccountId = target,
      aud_occurredAt = t\<rparr>))"

section \<open>Guards\<close>

definition requireAccount :: "string \<Rightarrow> account authM" where
  "requireAccount accountId =
    bindM (query (\<lambda>r. findAccountById r accountId)) (\<lambda>a.
    case a of None \<Rightarrow> throw ACCOUNT_NOT_FOUND | Some a \<Rightarrow> ret a)"

definition requireEnabledAccount :: "accountAuthorization \<Rightarrow> account authM" where
  "requireEnabledAccount p =
    bindM (query (\<lambda>r. findAccountById r (aut_accountId p))) (\<lambda>a.
    case a of
      None \<Rightarrow> throw FORBIDDEN
    | Some a \<Rightarrow> if \<not> acc_enabled a \<or> acc_authVersion a \<noteq> aut_authVersion p then throw FORBIDDEN else ret a)"

definition requireCurrentAccount :: "accountAuthorization \<Rightarrow> account authM" where
  "requireCurrentAccount p =
    bindM (requireEnabledAccount p) (\<lambda>a.
    if acc_mustChangePassword a then throw PASSWORD_CHANGE_REQUIRED else ret a)"

definition requireAdministrator :: "accountAuthorization \<Rightarrow> account authM" where
  "requireAdministrator p =
    bindM (requireCurrentAccount p) (\<lambda>a.
    if ADMIN \<notin> set (acc_roles a) then throw FORBIDDEN else ret a)"

definition requireCurrentArtifactAccount :: "account \<Rightarrow> unit authM" where
  "requireCurrentArtifactAccount expected =
    bindM (query (\<lambda>r. findAccountById r (acc_id expected))) (\<lambda>a.
    case a of
      None \<Rightarrow> throw FORBIDDEN
    | Some a \<Rightarrow> if \<not> acc_enabled a \<or> acc_authVersion a \<noteq> acc_authVersion expected then throw FORBIDDEN else ret ())"

fun requireUpdatedAccount :: "accountMutationResult \<Rightarrow> account authM" where
  "requireUpdatedAccount (Updated a) = ret a"
| "requireUpdatedAccount MutationLastAdministrator = throw LAST_ADMINISTRATOR"
| "requireUpdatedAccount MutationConflict = throw ACCOUNT_CONFLICT"
| "requireUpdatedAccount MutationActorNotAuthorized = throw FORBIDDEN"
| "requireUpdatedAccount MutationNotFound = throw ACCOUNT_NOT_FOUND"

definition principal_authorization :: "principal \<Rightarrow> accountAuthorization" where
  "principal_authorization p = \<lparr>aut_accountId = prn_accountId p, aut_authVersion = prn_authVersion p\<rparr>"

section \<open>Accounts\<close>

definition buildAccount :: "authDependencies \<Rightarrow> string \<Rightarrow> string \<Rightarrow> string list \<Rightarrow> (account \<times> string) authM" where
  "buildAccount d rawUsername rawDisplayName rawRoles =
    bindM (lift_sum (normalizeUsername rawUsername)) (\<lambda>username.
    bindM (lift_sum (normalizeDisplayName rawDisplayName)) (\<lambda>displayName.
    bindM (lift_sum (normalizeRoles rawRoles)) (\<lambda>roles.
    bindM (query (\<lambda>r. findAccountByUsername r username)) (\<lambda>existing.
    bindM (unless (existing = None) ACCOUNT_EXISTS) (\<lambda>_.
    bindM (now d) (\<lambda>t.
    bindM (createSecret d) (\<lambda>temporaryPassword.
    bindM (createId d) (\<lambda>i.
    bindM (hash_password d temporaryPassword) (\<lambda>h.
    ret (\<lparr>acc_id = i, acc_username = username, acc_displayName = displayName, acc_roles = roles,
      acc_passwordHash = h, acc_enabled = True, acc_mustChangePassword = True, acc_authVersion = 1,
      acc_createdAt = t, acc_updatedAt = t\<rparr>, temporaryPassword))))))))))"

definition bootstrapAdministrator :: "authDependencies \<Rightarrow> string \<Rightarrow> string \<Rightarrow> (account \<times> string) authM" where
  "bootstrapAdministrator d username displayName =
    bindM (buildAccount d username displayName [role_name ADMIN]) (\<lambda>(a, secret).
    bindM (service_auditEvent d ACCOUNT_BOOTSTRAPPED None (Some (acc_id a))) (\<lambda>e.
    bindM (try_change (\<lambda>r. createFirstAccount r a e)) (\<lambda>created.
    bindM (unless created BOOTSTRAP_CLOSED) (\<lambda>_. ret (a, secret)))))"

definition service_createAccount ::
    "authDependencies \<Rightarrow> accountAuthorization \<Rightarrow> string \<Rightarrow> string \<Rightarrow> string list \<Rightarrow> (account \<times> string) authM" where
  "service_createAccount d actor username displayName roles =
    bindM (requireAdministrator actor) (\<lambda>_.
    bindM (buildAccount d username displayName roles) (\<lambda>(a, secret).
    bindM (service_auditEvent d ACCOUNT_CREATED (Some (aut_accountId actor)) (Some (acc_id a))) (\<lambda>e.
    bindM (try_change (\<lambda>r. createAccount r a (administratorAuthorization actor) e)) (\<lambda>created.
    case created of
      CreationActorNotAuthorized \<Rightarrow> throw FORBIDDEN
    | AlreadyExists \<Rightarrow> throw ACCOUNT_EXISTS
    | Created \<Rightarrow> ret (a, secret)))))"

definition service_listAccounts ::
    "(string \<Rightarrow> string \<Rightarrow> int) \<Rightarrow> accountAuthorization \<Rightarrow> account list authM" where
  "service_listAccounts localeCompare actor =
    bindM (requireAdministrator actor) (\<lambda>_. query (listAccounts localeCompare))"

definition service_setAccountEnabled ::
    "authDependencies \<Rightarrow> accountAuthorization \<Rightarrow> string \<Rightarrow> bool \<Rightarrow> account authM" where
  "service_setAccountEnabled d actor accountId enabled =
    bindM (requireAdministrator actor) (\<lambda>_.
    bindM (now d) (\<lambda>t.
    bindM (service_auditEvent d (if enabled then ACCOUNT_ENABLED else ACCOUNT_DISABLED)
      (Some (aut_accountId actor)) (Some accountId)) (\<lambda>e.
    bindM (try_change (\<lambda>r. setAccountEnabled r accountId enabled (administratorAuthorization actor) t e))
      requireUpdatedAccount)))"

definition service_setAccountRoles ::
    "authDependencies \<Rightarrow> accountAuthorization \<Rightarrow> string \<Rightarrow> string list \<Rightarrow> account authM" where
  "service_setAccountRoles d actor accountId roles =
    bindM (requireAdministrator actor) (\<lambda>_.
    bindM (lift_sum (normalizeRoles roles)) (\<lambda>normalizedRoles.
    bindM (now d) (\<lambda>t.
    bindM (service_auditEvent d ACCOUNT_ROLES_CHANGED (Some (aut_accountId actor)) (Some accountId)) (\<lambda>e.
    bindM (try_change (\<lambda>r. setAccountRoles r accountId normalizedRoles (administratorAuthorization actor) t e))
      requireUpdatedAccount))))"

definition replacePassword ::
    "authDependencies \<Rightarrow> account \<Rightarrow> string \<Rightarrow> bool \<Rightarrow> int \<Rightarrow> auditAction \<Rightarrow> string \<Rightarrow>
     accountMutationAuthorization \<Rightarrow> account authM" where
  "replacePassword d a password mustChangePassword expectedAuthVersion action actorAccountId authorization =
    bindM (hash_password d password) (\<lambda>h.
    bindM (now d) (\<lambda>t.
    bindM (service_auditEvent d action (Some actorAccountId) (Some (acc_id a))) (\<lambda>e.
    bindM (try_change (\<lambda>r. replaceAccountPassword r (acc_id a) h mustChangePassword expectedAuthVersion
      authorization t e)) requireUpdatedAccount)))"

definition resetPassword :: "authDependencies \<Rightarrow> accountAuthorization \<Rightarrow> string \<Rightarrow> (account \<times> string) authM" where
  "resetPassword d actor accountId =
    bindM (requireAdministrator actor) (\<lambda>_.
    bindM (requireAccount accountId) (\<lambda>a.
    bindM (createSecret d) (\<lambda>temporaryPassword.
    bindM (replacePassword d a temporaryPassword True (acc_authVersion a) PASSWORD_RESET (aut_accountId actor)
      (administratorAuthorization actor)) (\<lambda>updated.
    ret (updated, temporaryPassword)))))"

definition revokeSessions :: "authDependencies \<Rightarrow> accountAuthorization \<Rightarrow> string \<Rightarrow> unit authM" where
  "revokeSessions d actor accountId =
    bindM (requireAdministrator actor) (\<lambda>_.
    bindM (now d) (\<lambda>t.
    bindM (service_auditEvent d SESSIONS_REVOKED (Some (aut_accountId actor)) (Some accountId)) (\<lambda>e.
    bindM (try_change (\<lambda>r. revokeAccountSessions r accountId (administratorAuthorization actor) t e)) (\<lambda>result.
    bindM (requireUpdatedAccount result) (\<lambda>_. ret ())))))"

section \<open>Credentials\<close>

definition throttle_live :: "int \<Rightarrow> loginThrottle option \<Rightarrow> loginThrottle option" where
  "throttle_live t throttle = (case throttle of
     None \<Rightarrow> None
   | Some x \<Rightarrow> if thr_updatedAt x > t - LOGIN_FAILURE_WINDOW_MS then Some x else None)"

definition throttle_locked :: "int \<Rightarrow> loginThrottle option \<Rightarrow> bool" where
  "throttle_locked t throttle = (case throttle of
     None \<Rightarrow> False
   | Some x \<Rightarrow> (case thr_lockedUntil x of None \<Rightarrow> False | Some until \<Rightarrow> until > t))"

text \<open>The identity a failed attempt counts against, and the name that is looked up.\<close>

definition login_identity :: "string \<Rightarrow> account option \<Rightarrow> string option \<times> string" where
  "login_identity username known = (case known of
     Some a \<Rightarrow> (Some (acc_username a), acc_username a)
   | None \<Rightarrow> (case normalizeUsername username of
       Inr name \<Rightarrow> (Some name, name)
     | Inl _ \<Rightarrow> (None, ''invalid:'' @ take 64 (toLowerCase (trim username)))))"

text \<open>An attempt with a wrong name or password: count it, write the event, report it.\<close>

definition reject_login ::
    "authDependencies \<Rightarrow> string \<Rightarrow> string \<Rightarrow> account option \<Rightarrow> int \<Rightarrow> 'a authM" where
  "reject_login d identityKey remoteKey found t =
    bindM (change (\<lambda>r. recordLoginFailure r \<lparr>lf_keys = [identityKey, remoteKey], lf_now = t,
      lf_windowStartsAt = t - LOGIN_FAILURE_WINDOW_MS, lf_lockThreshold = LOGIN_LOCK_THRESHOLD,
      lf_lockedUntil = t + LOGIN_LOCK_MS, lf_global = d_loginThrottleGlobal d\<rparr>)) (\<lambda>(status, _).
    bindM (writeAuthenticationEvent \<lparr>evt_action = LOGIN_FAILED, evt_occurredAt = t, evt_identityRef = identityKey,
      evt_remoteRef = remoteKey, evt_accountId = map_option acc_id found,
      evt_reason = Some (if status = CapacityExhausted then ReasonThrottleCapacity else ReasonInvalidCredentials)\<rparr>) (\<lambda>_.
    if status = CapacityExhausted then throw AUTH_CAPACITY else throw INVALID_CREDENTIALS))"

definition verifyCredentials ::
    "authDependencies \<Rightarrow> string \<Rightarrow> string \<Rightarrow> string \<Rightarrow> int \<Rightarrow> account option \<Rightarrow> account authM" where
  "verifyCredentials d username password remoteAddress t known =
    (let (name, throttleIdentity) = login_identity username known;
         identityKey = throttleKey d ''identity'' throttleIdentity;
         remoteKey = throttleKey d ''remote'' remoteAddress
     in
     bindM (case known of
         Some a \<Rightarrow> ret (Some a)
       | None \<Rightarrow> (case name of None \<Rightarrow> ret None | Some n \<Rightarrow> query (\<lambda>r. findAccountByUsername r n))) (\<lambda>found.
     bindM (query (\<lambda>r. map (getLoginThrottle r) [identityKey, remoteKey])) (\<lambda>stored.
     if list_ex (throttle_locked t) (map (throttle_live t) stored) then
       bindM (writeAuthenticationEvent \<lparr>evt_action = LOGIN_FAILED, evt_occurredAt = t, evt_identityRef = identityKey,
         evt_remoteRef = remoteKey, evt_accountId = map_option acc_id found,
         evt_reason = Some ReasonLoginThrottled\<rparr>) (\<lambda>_. throw LOGIN_THROTTLED)
     else
       let passwordMatches = d_verify d
             (case found of Some a \<Rightarrow> acc_passwordHash a | None \<Rightarrow> d_dummyPasswordHash d) password
       in case found of
         Some a \<Rightarrow>
           if acc_enabled a \<and> passwordMatches then
             bindM (change (\<lambda>r. ((), deleteLoginThrottles r [identityKey, remoteKey]))) (\<lambda>_. ret a)
           else reject_login d identityKey remoteKey (Some a) t
       | None \<Rightarrow> reject_login d identityKey remoteKey None t)))"

definition login_succeeded :: "authDependencies \<Rightarrow> account \<Rightarrow> string \<Rightarrow> int \<Rightarrow> unit authM" where
  "login_succeeded d a remoteAddress t =
    writeAuthenticationEvent \<lparr>evt_action = LOGIN_SUCCEEDED, evt_occurredAt = t,
      evt_identityRef = throttleKey d ''identity'' (acc_username a),
      evt_remoteRef = throttleKey d ''remote'' remoteAddress, evt_accountId = Some (acc_id a), evt_reason = None\<rparr>"

definition issueSession :: "authDependencies \<Rightarrow> account \<Rightarrow> int \<Rightarrow> string \<Rightarrow> (principal \<times> string) authM" where
  "issueSession d a t audience =
    bindM (createId d) (\<lambda>sessionId.
    bindM (createSecret d) (\<lambda>secret.
    let sessionToken = sessionId @ ''.'' @ secret in
    bindM (change (\<lambda>r. saveSession r \<lparr>ses_id = sessionId, ses_tokenDigest = digestSessionToken d sessionToken,
      ses_accountId = acc_id a, ses_accountAuthVersion = acc_authVersion a, ses_audience = audience,
      ses_createdAt = t, ses_expiresAt = t + SESSION_TTL_MS, ses_lastSeenAt = t\<rparr> t (d_sessionLimits d))) (\<lambda>saved.
    if \<not> saved then bindM (requireCurrentArtifactAccount a) (\<lambda>_. throw AUTH_CAPACITY)
    else ret (toPrincipal a sessionId, sessionToken))))"

definition authenticate ::
    "authDependencies \<Rightarrow> string \<Rightarrow> string \<Rightarrow> string \<Rightarrow> (principal \<times> string) authM" where
  "authenticate d username password remoteAddress =
    bindM (now d) (\<lambda>t.
    bindM (verifyCredentials d username password remoteAddress t None) (\<lambda>a.
    bindM (issueSession d a t ''control'') (\<lambda>login.
    bindM (login_succeeded d a remoteAddress t) (\<lambda>_. ret login))))"

definition verifyAdministratorCredentials ::
    "authDependencies \<Rightarrow> string \<Rightarrow> string \<Rightarrow> string \<Rightarrow> accountAuthorization authM" where
  "verifyAdministratorCredentials d username password remoteAddress =
    bindM (now d) (\<lambda>t.
    bindM (verifyCredentials d username password remoteAddress t None) (\<lambda>a.
    if acc_mustChangePassword a then throw PASSWORD_CHANGE_REQUIRED
    else if ADMIN \<notin> set (acc_roles a) then throw FORBIDDEN
    else bindM (login_succeeded d a remoteAddress t) (\<lambda>_.
      ret \<lparr>aut_accountId = acc_id a, aut_authVersion = acc_authVersion a\<rparr>)))"

definition changeOwnPassword :: "authDependencies \<Rightarrow> principal \<Rightarrow> string \<Rightarrow> string \<Rightarrow> unit authM" where
  "changeOwnPassword d p currentPassword newPassword =
    bindM (requireEnabledAccount (principal_authorization p)) (\<lambda>a.
    bindM (now d) (\<lambda>t.
    bindM (verifyCredentials d (acc_username a) currentPassword (''session:'' @ prn_sessionId p) t (Some a)) (\<lambda>_.
    bindM (lift_sum (validatePassword newPassword)) (\<lambda>_.
    bindM (replacePassword d a newPassword False (acc_authVersion a) PASSWORD_CHANGED (acc_id a)
      \<lparr>aut_accountId = prn_accountId p, aut_authVersion = prn_authVersion p, aut_requiredRole = None,
       aut_allowPasswordChangeRequired = True\<rparr>) (\<lambda>_. ret ())))))"

section \<open>Sessions and one-time codes\<close>

definition createLoginIntent :: "authDependencies \<Rightarrow> string \<Rightarrow> string \<Rightarrow> string authM" where
  "createLoginIntent d targetHost targetPath =
    (if length targetHost < 1 \<or> length targetHost > 253 \<or> \<not> startsWith targetPath ''/'' \<or> length targetPath > 4096
     then throw INVALID_ACCOUNT_INPUT
     else
       bindM (createSecret d) (\<lambda>i.
       bindM (now d) (\<lambda>t.
       bindM (change (\<lambda>r. saveLoginIntent r \<lparr>int_id = i, int_targetHost = targetHost, int_targetPath = targetPath,
         int_expiresAt = t + LOGIN_INTENT_TTL_MS\<rparr> t (d_loginIntentLimits d))) (\<lambda>saved.
       if \<not> saved then throw LOGIN_INTENT_CAPACITY else ret i))))"

definition createSessionExchange ::
    "authDependencies \<Rightarrow> principal \<Rightarrow> string \<Rightarrow> (string \<times> string \<times> string) authM" where
  "createSessionExchange d p intentId =
    bindM (requireCurrentAccount (principal_authorization p)) (\<lambda>a.
    if \<not> canAccessSharedContent (acc_roles a) then throw FORBIDDEN
    else
      bindM (now d) (\<lambda>t.
      bindM (change (\<lambda>r. consumeLoginIntent r intentId t)) (\<lambda>found.
      case found of None \<Rightarrow> throw FORBIDDEN
      | Some intent \<Rightarrow>
          bindM (createSecret d) (\<lambda>code.
          bindM (now d) (\<lambda>t.
          bindM (change (\<lambda>r. saveSessionExchange r
            \<lparr>exc_codeDigest = digestSessionToken d (''exchange:'' @ code), exc_accountId = acc_id a,
             exc_accountAuthVersion = acc_authVersion a, exc_targetHost = int_targetHost intent,
             exc_targetPath = int_targetPath intent, exc_expiresAt = t + SESSION_EXCHANGE_TTL_MS\<rparr>
            t (d_sessionExchangeLimits d))) (\<lambda>saved.
          if \<not> saved then bindM (requireCurrentArtifactAccount a) (\<lambda>_. throw AUTH_CAPACITY)
          else ret (code, int_targetHost intent, int_targetPath intent)))))))"

text \<open>The first digest candidate, newest key first, for which a one-time artifact is still stored.\<close>

fun consume_first :: "authDependencies \<Rightarrow> (string \<Rightarrow> int \<Rightarrow> authRepository \<Rightarrow> 'a option \<times> authRepository) \<Rightarrow>
    string list \<Rightarrow> 'a option authM" where
  "consume_first d consume [] = ret None"
| "consume_first d consume (digest # digests) =
     bindM (now d) (\<lambda>t.
     bindM (change (consume digest t)) (\<lambda>found.
     case found of Some x \<Rightarrow> ret (Some x) | None \<Rightarrow> consume_first d consume digests))"

definition service_consumeSessionExchange ::
    "authDependencies \<Rightarrow> string \<Rightarrow> string \<Rightarrow> (principal \<times> string \<times> string) authM" where
  "service_consumeSessionExchange d code targetHost =
    bindM (consume_first d (\<lambda>digest t r. consumeSessionExchange r digest targetHost t)
      (digestSessionTokenCandidates d (''exchange:'' @ code))) (\<lambda>found.
    case found of None \<Rightarrow> throw FORBIDDEN
    | Some exchange \<Rightarrow>
        bindM (requireAccount (exc_accountId exchange)) (\<lambda>a.
        if \<not> acc_enabled a \<or> acc_mustChangePassword a \<or> acc_authVersion a \<noteq> exc_accountAuthVersion exchange \<or>
           \<not> canAccessSharedContent (acc_roles a)
        then throw FORBIDDEN
        else
          bindM (now d) (\<lambda>t.
          bindM (issueSession d a t (''content:'' @ exc_targetHost exchange)) (\<lambda>(p, token).
          ret (p, token, exc_targetPath exchange)))))"

text \<open>\<^verbatim>\<open>/^[a-z0-9](?:[a-z0-9-]{0,61}[a-z0-9])?$/\<close>\<close>

definition tunnelId_pattern :: "string \<Rightarrow> bool" where
  "tunnelId_pattern s = (1 \<le> length s \<and> length s \<le> 63 \<and> lower_or_digit (hd s) \<and> lower_or_digit (last s) \<and>
    list_all (\<lambda>c. lower_or_digit c \<or> c = CHR ''-'') s)"

definition issueCarrierCredential ::
    "authDependencies \<Rightarrow> principal \<Rightarrow> carrierPurpose \<Rightarrow> string \<Rightarrow> string authM" where
  "issueCarrierCredential d p purpose tunnelId =
    bindM (requireCurrentAccount (principal_authorization p)) (\<lambda>a.
    if DEVELOPER \<notin> set (acc_roles a) then throw FORBIDDEN
    else if \<not> tunnelId_pattern tunnelId then throw INVALID_ACCOUNT_INPUT
    else
      bindM (createId d) (\<lambda>i.
      bindM (createSecret d) (\<lambda>secret.
      bindM (now d) (\<lambda>t.
      bindM (change (\<lambda>r. saveCarrierCredential r
        \<lparr>crd_id = i, crd_secretDigest = digestSessionToken d (''carrier:'' @ i @ '':'' @ secret),
         crd_accountId = acc_id a, crd_accountAuthVersion = acc_authVersion a, crd_purpose = purpose,
         crd_tunnelId = tunnelId, crd_expiresAt = t + CARRIER_CREDENTIAL_TTL_MS\<rparr>
        t (d_carrierCredentialLimits d))) (\<lambda>saved.
      if \<not> saved then bindM (requireCurrentArtifactAccount a) (\<lambda>_. throw AUTH_CAPACITY)
      else ret (i @ ''.'' @ secret))))))"

text \<open>What a consumed credential authorises: its account must still be an enabled developer at its version.\<close>

definition developer_authorization :: "carrierCredential \<Rightarrow> developerAuthorization authM" where
  "developer_authorization credential =
    bindM (requireAccount (crd_accountId credential)) (\<lambda>a.
    if \<not> acc_enabled a \<or> acc_mustChangePassword a \<or> DEVELOPER \<notin> set (acc_roles a) \<or>
       acc_authVersion a \<noteq> crd_accountAuthVersion credential
    then throw FORBIDDEN
    else ret \<lparr>dev_accountId = acc_id a, dev_accountAuthVersion = acc_authVersion a,
      dev_username = acc_username a, dev_purpose = crd_purpose credential,
      dev_tunnelId = crd_tunnelId credential\<rparr>)"

definition service_consumeCarrierCredential :: "authDependencies \<Rightarrow> string \<Rightarrow> developerAuthorization authM" where
  "service_consumeCarrierCredential d token =
    (let separator = indexOf token (CHR ''.'') in
     if separator < 1 \<or> length token > 512 then throw FORBIDDEN
     else
       let i = take (nat separator) token; secret = drop (nat separator + 1) token in
       bindM (consume_first d (\<lambda>digest t r. consumeCarrierCredential r i digest t)
         (digestSessionTokenCandidates d (''carrier:'' @ i @ '':'' @ secret))) (\<lambda>found.
       case found of None \<Rightarrow> throw FORBIDDEN | Some credential \<Rightarrow> developer_authorization credential))"

definition resolveSession :: "authDependencies \<Rightarrow> string \<Rightarrow> string \<Rightarrow> principal option authM" where
  "resolveSession d sessionToken expectedAudience =
    (if length sessionToken < 20 \<or> length sessionToken > 512 then ret None
     else
       bindM (query (\<lambda>r. findSessionAccountByTokenDigests r (digestSessionTokenCandidates d sessionToken))) (\<lambda>resolved.
       case resolved of None \<Rightarrow> ret None
       | Some (session, a) \<Rightarrow>
           if ses_audience session \<noteq> expectedAudience then ret None
           else if \<not> acc_enabled a \<or> acc_authVersion a \<noteq> ses_accountAuthVersion session
           then bindM (change (\<lambda>r. ((), deleteSession r (ses_id session)))) (\<lambda>_. ret None)
           else
             bindM (now d) (\<lambda>t.
             if ses_expiresAt session \<le> t
             then bindM (change (\<lambda>r. ((), deleteSession r (ses_id session)))) (\<lambda>_. ret None)
             else ret (Some (toPrincipal a (ses_id session))))))"

definition logout :: "principal \<Rightarrow> unit authM" where
  "logout p = change (\<lambda>r. ((), deleteSession r (prn_sessionId p)))"

section \<open>Bulk authorisation and cleanup\<close>

text \<open>
  The account ids are looked up in batches of 512 by up to four workers that fill one map by account
  id; every batch is looked up once and the order does not matter, so the batches are taken in order.
\<close>

fun batches_of :: "nat \<Rightarrow> nat \<Rightarrow> 'a list \<Rightarrow> 'a list list" where
  "batches_of 0 width xs = []"
| "batches_of (Suc n) width xs = take width xs # batches_of n width (drop width xs)"

definition ceil_div :: "nat \<Rightarrow> nat \<Rightarrow> nat" where
  "ceil_div n width = (n + width - 1) div width"

definition areAccountsAuthorized :: "authRepository \<Rightarrow> accountAuthorizationCheck list \<Rightarrow> bool list" where
  "areAccountsAuthorized r checks =
    (if checks = [] then []
     else
       let accountIds = set_values (map chk_accountId checks);
           batches = batches_of (ceil_div (length accountIds) AUTHORIZATION_ACCOUNT_BATCH_SIZE)
             AUTHORIZATION_ACCOUNT_BATCH_SIZE accountIds;
           found = fold (\<lambda>batch m. fold (\<lambda>a m. map_set m (acc_id a) a) (findAccountsByIds r batch) m) batches []
       in map (\<lambda>check. case map_get found (chk_accountId check) of
            None \<Rightarrow> False
          | Some a \<Rightarrow> acc_enabled a \<and> \<not> acc_mustChangePassword a \<and>
              acc_authVersion a = chk_accountAuthVersion check \<and>
              satisfiesAccountAccess (acc_roles a) (chk_requirement check)) checks)"

definition isAccountAuthorized :: "authRepository \<Rightarrow> string \<Rightarrow> int \<Rightarrow> accountAccessRequirement \<Rightarrow> bool" where
  "isAccountAuthorized r accountId version requirement =
    (case areAccountsAuthorized r [\<lparr>chk_accountId = accountId, chk_accountAuthVersion = version,
        chk_requirement = requirement\<rparr>] of
       b # _ \<Rightarrow> b | [] \<Rightarrow> False)"

fun cleanup_batches :: "nat \<Rightarrow> int \<Rightarrow> unit authM" where
  "cleanup_batches 0 t = ret ()"
| "cleanup_batches (Suc n) t =
     bindM (try_change (\<lambda>r. deleteExpiredAuthArtifacts r t (Integral AUTH_ARTIFACT_CLEANUP_BATCH_SIZE))) (\<lambda>deleted.
     if deleted < AUTH_ARTIFACT_CLEANUP_BATCH_SIZE then ret () else cleanup_batches n t)"

definition cleanupExpiredArtifacts :: "authDependencies \<Rightarrow> unit authM" where
  "cleanupExpiredArtifacts d = bindM (now d) (cleanup_batches AUTH_ARTIFACT_CLEANUP_MAX_BATCHES)"

end
