(* ===== verification/AuthServiceProps.thy ===== *)
theory AuthServiceProps
  imports AuthService
begin

text \<open>
  Properties of the authentication service: it changes the repository only through the repository's
  calls, so that it keeps the repository's invariant; administration is guarded;
  sessions resolve exactly while they are valid; logins lock after repeated failures; credentials
  round-trip; and the batched authorisation check agrees with its plain definition.
\<close>

declare map_of_eq_Some_iff [simp del]

section \<open>Running a call step by step\<close>

lemma throw_eq [simp]: "throw e w \<noteq> (Inr b, w')"
  by (simp add: throw_def)

lemmas world_defs = now_def createId_def createSecret_def hash_password_def query_def change_def try_change_def
  writeAuthenticationEvent_def

section \<open>A service call is a sequence of repository calls\<close>

abbreviation realizes :: "'a authM \<Rightarrow> bool" where
  "realizes \<equiv> realized_by w_repository repository_step"

lemma realizes_basic:
  "realizes (ret a)" "realizes (throw e)" "realizes (unless b e)" "realizes (lift_sum s)" "realizes (now d)"
  "realizes (createId d)" "realizes (createSecret d)" "realizes (hash_password d p)" "realizes (query f)"
  "realizes (writeAuthenticationEvent ev)"
  by (rule realized_same; simp add: ret_def throw_def unless_def lift_sum_def world_defs split: sum.split)+

lemma realizes_change:
  assumes "\<And>r. \<exists>x. snd (f r) = repository_step r x"
  shows "realizes (change f)"
  by (rule realized_step) (use assms in \<open>simp add: change_def split_beta\<close>)

lemma realizes_try_change:
  assumes "\<And>r. \<exists>x. snd (f r) = repository_step r x"
  shows "realizes (try_change f)"
proof (rule realized_step)
  fix w
  show "\<exists>x. w_repository (snd (try_change f w)) = repository_step (w_repository w) x"
    using assms [of "w_repository w"] by (auto simp: try_change_def split: prod.splits sum.splits)
qed

text \<open>Each repository call the service makes is a step of the repository's machine.\<close>

lemma realizes_repository_calls:
  "realizes (try_change (\<lambda>r. createFirstAccount r a e))"
  "realizes (try_change (\<lambda>r. createAccount r a auth e))"
  "realizes (try_change (\<lambda>r. setAccountEnabled r i b auth t e))"
  "realizes (try_change (\<lambda>r. setAccountRoles r i roles auth t e))"
  "realizes (try_change (\<lambda>r. replaceAccountPassword r i h m v auth t e))"
  "realizes (try_change (\<lambda>r. revokeAccountSessions r i auth t e))"
  "realizes (try_change (\<lambda>r. deleteExpiredAuthArtifacts r t n))"
  by (rule realizes_try_change, metis repository_step.simps)+

lemma realizes_repository_changes:
  "realizes (change (\<lambda>r. saveSession r s t l))"
  "realizes (change (\<lambda>r. ((), deleteSession r i)))"
  "realizes (change (\<lambda>r. recordLoginFailure r input))"
  "realizes (change (\<lambda>r. ((), deleteLoginThrottles r ks)))"
  "realizes (change (\<lambda>r. saveLoginIntent r it t il))"
  "realizes (change (\<lambda>r. consumeLoginIntent r i t))"
  "realizes (change (\<lambda>r. saveSessionExchange r x t l))"
  "realizes (change (\<lambda>r. consumeSessionExchange r dg h t))"
  "realizes (change (\<lambda>r. saveCarrierCredential r c t l))"
  "realizes (change (\<lambda>r. consumeCarrierCredential r i dg t))"
  by (rule realizes_change, metis repository_step.simps snd_conv)+

lemmas realizes_intros = realizes_basic realized_bind realizes_repository_calls realizes_repository_changes

lemma realizes_guards:
  "realizes (requireAccount i)" "realizes (requireEnabledAccount p)" "realizes (requireCurrentAccount p)"
  "realizes (requireAdministrator p)" "realizes (requireCurrentArtifactAccount a)" "realizes (requireUpdatedAccount res)"
  by (auto simp: requireAccount_def requireEnabledAccount_def requireCurrentAccount_def requireAdministrator_def
      requireCurrentArtifactAccount_def intro!: realizes_intros split: option.split)
    (cases res; simp add: realizes_basic)

lemma realizes_helpers:
  "realizes (service_auditEvent d act x y)" "realizes (buildAccount d u n rs)"
  "realizes (replacePassword d a pw mc v act ac auth)" "realizes (issueSession d a t aud)"
  "realizes (reject_login d ik rk found t)" "realizes (verifyCredentials d u pw remote t known)"
  "realizes (login_succeeded d a remote t)"
proof -
  show audit: "realizes (service_auditEvent d act x y)" for act x y
    by (simp add: service_auditEvent_def realizes_intros)
  show "realizes (buildAccount d u n rs)"
    by (simp add: buildAccount_def realizes_intros)
  show "realizes (replacePassword d a pw mc v act ac auth)"
    by (simp add: replacePassword_def realizes_intros realizes_guards audit)
  show "realizes (issueSession d a t aud)"
    by (auto simp: issueSession_def Let_def intro!: realizes_intros realizes_guards)
  show reject: "realizes (reject_login d ik rk found t)" for ik rk found and t :: int
    by (auto simp: reject_login_def intro!: realizes_intros)
  show "realizes (verifyCredentials d u pw remote t known)"
    by (auto simp: verifyCredentials_def Let_def intro!: realizes_intros reject split: prod.split option.split)
  show "realizes (login_succeeded d a remote t)"
    by (simp add: login_succeeded_def realizes_intros)
qed

lemma realizes_consume_first:
  "(\<And>dg t. realizes (change (consume dg t))) \<Longrightarrow> realizes (consume_first d consume digests)"
  by (induction digests) (auto intro!: realizes_intros split: option.split)

lemma realizes_cleanup: "realizes (cleanup_batches n t)"
  by (induction n) (auto intro!: realizes_intros)

section \<open>All calls of the service\<close>

datatype serviceOp =
    BootstrapAdministrator string string
  | Authenticate string string string
  | VerifyAdministratorCredentials string string string
  | ChangeOwnPassword principal string string
  | CreateLoginIntent string string
  | CreateSessionExchange principal string
  | ServiceConsumeSessionExchange string string
  | IssueCarrierCredential principal carrierPurpose string
  | ServiceConsumeCarrierCredential string
  | ResolveSession string string
  | Logout principal
  | ServiceCreateAccount accountAuthorization string string "string list"
  | ServiceSetAccountEnabled accountAuthorization string bool
  | ServiceSetAccountRoles accountAuthorization string "string list"
  | ResetPassword accountAuthorization string
  | RevokeSessions accountAuthorization string
  | CleanupExpiredArtifacts

fun service_step :: "authDependencies \<Rightarrow> authWorld \<Rightarrow> serviceOp \<Rightarrow> authWorld" where
  "service_step d w (BootstrapAdministrator u n) = snd (bootstrapAdministrator d u n w)"
| "service_step d w (Authenticate u pw a) = snd (authenticate d u pw a w)"
| "service_step d w (VerifyAdministratorCredentials u pw a) = snd (verifyAdministratorCredentials d u pw a w)"
| "service_step d w (ChangeOwnPassword p c n) = snd (changeOwnPassword d p c n w)"
| "service_step d w (CreateLoginIntent h q) = snd (createLoginIntent d h q w)"
| "service_step d w (CreateSessionExchange p i) = snd (createSessionExchange d p i w)"
| "service_step d w (ServiceConsumeSessionExchange c h) = snd (service_consumeSessionExchange d c h w)"
| "service_step d w (IssueCarrierCredential p pu t) = snd (issueCarrierCredential d p pu t w)"
| "service_step d w (ServiceConsumeCarrierCredential t) = snd (service_consumeCarrierCredential d t w)"
| "service_step d w (ResolveSession t a) = snd (resolveSession d t a w)"
| "service_step d w (Logout p) = snd (logout p w)"
| "service_step d w (ServiceCreateAccount a u n rs) = snd (service_createAccount d a u n rs w)"
| "service_step d w (ServiceSetAccountEnabled a i b) = snd (service_setAccountEnabled d a i b w)"
| "service_step d w (ServiceSetAccountRoles a i rs) = snd (service_setAccountRoles d a i rs w)"
| "service_step d w (ResetPassword a i) = snd (resetPassword d a i w)"
| "service_step d w (RevokeSessions a i) = snd (revokeSessions d a i w)"
| "service_step d w CleanupExpiredArtifacts = snd (cleanupExpiredArtifacts d w)"

lemmas realizes_all = realizes_intros realizes_guards realizes_helpers realizes_consume_first realizes_cleanup

lemma realizes_accounts:
  "realizes (bootstrapAdministrator d u n)" "realizes (service_createAccount d actor u n rs)"
  "realizes (service_setAccountEnabled d actor i b)" "realizes (service_setAccountRoles d actor i rs)"
  "realizes (resetPassword d actor i)" "realizes (revokeSessions d actor i)"
  by (auto simp: bootstrapAdministrator_def service_createAccount_def service_setAccountEnabled_def
      service_setAccountRoles_def resetPassword_def revokeSessions_def intro!: realizes_all
      split: accountCreationResult.split)

lemma realizes_logins:
  "realizes (authenticate d u pw a)" "realizes (verifyAdministratorCredentials d u pw a)"
  "realizes (changeOwnPassword d p c n)" "realizes (logout p)" "realizes (resolveSession d tk au)"
  by (auto simp: authenticate_def verifyAdministratorCredentials_def changeOwnPassword_def logout_def
      resolveSession_def intro!: realizes_all split: option.split)

lemma realizes_codes:
  "realizes (createLoginIntent d h q)" "realizes (createSessionExchange d p i)"
  "realizes (service_consumeSessionExchange d c h)" "realizes (issueCarrierCredential d p pu tid)"
  "realizes (service_consumeCarrierCredential d tk)" "realizes (cleanupExpiredArtifacts d)"
  by (auto simp: createLoginIntent_def createSessionExchange_def service_consumeSessionExchange_def
      issueCarrierCredential_def service_consumeCarrierCredential_def developer_authorization_def cleanupExpiredArtifacts_def Let_def
      intro!: realizes_all split: option.split)

lemma service_step_realizes:
  "\<exists>ops. w_repository (service_step d w x) = run_machine repository_step (w_repository w) ops"
  by (cases x) (use realizes_accounts realizes_logins realizes_codes in \<open>simp_all add: realized_by_def\<close>)

section \<open>Helper facts for the properties\<close>

interpretation auth_service: service_refinement w_repository repository_step "service_step d" for d
  by unfold_locales (rule service_step_realizes)

definition current_administrator :: "authRepository \<Rightarrow> accountAuthorization \<Rightarrow> bool" where
  "current_administrator r actor = (case findAccountById r (aut_accountId actor) of
     None \<Rightarrow> False
   | Some a \<Rightarrow> acc_enabled a \<and> acc_authVersion a = aut_authVersion actor \<and> \<not> acc_mustChangePassword a \<and>
       ADMIN \<in> set (acc_roles a))"

lemma requireAdministrator_rejects:
  assumes "\<not> current_administrator (w_repository w) actor"
  shows "requireAdministrator actor w = (Inl (AuthError FORBIDDEN), w) \<or>
    requireAdministrator actor w = (Inl (AuthError PASSWORD_CHANGE_REQUIRED), w)"
  using assms
  by (auto simp: requireAdministrator_def requireCurrentAccount_def requireEnabledAccount_def bindM_def query_def
      throw_def ret_def current_administrator_def split: option.splits if_splits)

lemma bind_requireAdministrator_rejects:
  assumes "\<not> current_administrator (w_repository w) actor"
  shows "fst (bindM (requireAdministrator actor) f w) \<in>
      {Inl (AuthError FORBIDDEN), Inl (AuthError PASSWORD_CHANGE_REQUIRED)} \<and>
    snd (bindM (requireAdministrator actor) f w) = w"
  using requireAdministrator_rejects [OF assms] by (auto simp: bindM_def)

lemma findSession_sound:
  assumes "findSessionAccountByTokenDigests r digests = Some (s, a)"
  shows "s \<in> set (map_values (sessions r)) \<and> ses_tokenDigest s \<in> set digests \<and>
    map_get (accounts r) (ses_accountId s) = Some a"
  using assms
proof (induction digests)
  case (Cons d ds)
  then show ?case by (auto split: option.splits simp: find_Some_iff)
qed simp

text \<open>The batched lookup finds what single lookups find.\<close>

lemma concat_batches: "concat (batches_of n k xs) = take (n * k) xs"
proof (induction n arbitrary: xs)
  case (Suc n)
  then show ?case by (simp add: take_add)
qed simp

lemma ceil_div_covers: "0 < k \<Longrightarrow> n \<le> ceil_div n k * k"
proof -
  assume k: "0 < k"
  have "(n + k - 1) mod k < k" using k by simp
  then have "n + k - 1 < ceil_div n k * k + k"
    unfolding ceil_div_def using div_mult_mod_eq [of "n + k - 1" k] by linarith
  with k show ?thesis by linarith
qed

lemma fold_batches: "fold (\<lambda>b m. fold f (findAccountsByIds r b) m) bs m = fold f (findAccountsByIds r (concat bs)) m"
  by (induction bs arbitrary: m) (simp_all add: findAccountsByIds_def)

lemma get_found:
  assumes "accounts_ok (accounts r)"
  shows "map_get (fold (\<lambda>a m. map_set m (acc_id a) a) (findAccountsByIds r ids) m) i =
    (if i \<in> set ids \<and> map_has (accounts r) i then map_get (accounts r) i else map_get m i)"
proof (induction ids arbitrary: m)
  case (Cons j ids)
  show ?case
  proof (cases "map_get (accounts r) j")
    case None
    with Cons show ?thesis by (auto simp: findAccountsByIds_def)
  next
    case (Some a)
    with accounts_ok_get [OF assms Some] Cons show ?thesis by (auto simp: findAccountsByIds_def map_get_set)
  qed
qed (simp add: findAccountsByIds_def)

lemma lookup_batches:
  assumes "accounts_ok (accounts r)" "i \<in> set ids"
  shows "map_get (fold (\<lambda>b m. fold (\<lambda>a m. map_set m (acc_id a) a) (findAccountsByIds r b) m)
      (batches_of (ceil_div (length ids) AUTHORIZATION_ACCOUNT_BATCH_SIZE) AUTHORIZATION_ACCOUNT_BATCH_SIZE ids) []) i =
    map_get (accounts r) i"
proof -
  have "length ids \<le> ceil_div (length ids) AUTHORIZATION_ACCOUNT_BATCH_SIZE * AUTHORIZATION_ACCOUNT_BATCH_SIZE"
    by (rule ceil_div_covers) (simp add: AUTHORIZATION_ACCOUNT_BATCH_SIZE_def)
  then have "concat (batches_of (ceil_div (length ids) AUTHORIZATION_ACCOUNT_BATCH_SIZE)
      AUTHORIZATION_ACCOUNT_BATCH_SIZE ids) = ids"
    by (simp add: concat_batches)
  then show ?thesis using assms by (simp add: fold_batches get_found)
qed

text \<open>The parts of a carrier token.\<close>

lemma indexOf_separator: "c \<notin> set i \<Longrightarrow> indexOf (i @ c # rest) c = int (length i)"
  by (induction i) (auto simp: indexOf_def)

lemma consume_first_absent:
  assumes "map_get (carrierCredentials (w_repository w)) i = None"
  shows "\<exists>w'. consume_first d (\<lambda>dg t r. consumeCarrierCredential r i dg t) digests w = (Inr None, w')"
  using assms
proof (induction digests arbitrary: w)
  case (Cons dg digests)
  let ?w = "w\<lparr>w_clock := w_clock w + 1\<rparr>"
  have "consume_first d (\<lambda>dg t r. consumeCarrierCredential r i dg t) (dg # digests) w =
      consume_first d (\<lambda>dg t r. consumeCarrierCredential r i dg t) digests ?w"
    using Cons.prems by (simp add: bindM_def now_def change_def consumeCarrierCredential_def)
  with Cons.IH [of ?w] Cons.prems show ?case by simp
qed (simp add: ret_def)

text \<open>A failed login counts against both of its keys.\<close>

lemma fold_set_get:
  "map_get (fold (\<lambda>t m. map_set m (thr_key t) t) (map (next_throttle input live) ks) m) k =
    (if k \<in> set ks then Some (next_throttle input live k) else map_get m k)"
  by (induction ks arbitrary: m) (auto simp: map_get_set next_throttle_def Let_def)

lemma distinct_subset_length: "distinct xs \<Longrightarrow> distinct ys \<Longrightarrow> set xs \<subseteq> set ys \<Longrightarrow> length xs = length ys \<Longrightarrow> set xs = set ys"
  by (metis card_subset_eq distinct_card List.finite_set)

lemma recordLoginFailure_recorded:
  assumes "recordLoginFailure r input = ((Recorded, ts), r')" "k \<in> set (lf_keys input)"
  shows "getLoginThrottle r' k = Some (next_throttle input
    (map_delete_if (\<lambda>t. thr_updatedAt t \<le> lf_windowStartsAt input) (loginThrottles r)) k)"
proof -
  let ?live = "map_delete_if (\<lambda>t. thr_updatedAt t \<le> lf_windowStartsAt input) (loginThrottles r)"
  let ?keys = "sort (set_values (lf_keys input))"
  let ?admitted = "set_values (filter (\<lambda>k. map_has ?live k) ?keys @
    take (nat (max 0 (lf_global input - map_size ?live))) (filter (\<lambda>k. \<not> map_has ?live k) ?keys))"
  from assms(1) have len: "length ?admitted = length ?keys"
    and r': "loginThrottles r' = fold (\<lambda>t m. map_set m (thr_key t) t)
      (map (next_throttle input ?live) (filter (\<lambda>k. k \<in> set ?admitted) ?keys)) ?live"
    by (auto simp: recordLoginFailure_def Let_def split: if_splits)
  have "set ?admitted \<subseteq> set ?keys" by (auto dest: in_set_takeD)
  then have "set ?admitted = set ?keys" using len by (intro distinct_subset_length) simp_all
  then have "k \<in> set (filter (\<lambda>k. k \<in> set ?admitted) ?keys)" using assms(2) by simp
  then show ?thesis unfolding getLoginThrottle_def r' by (simp only: fold_set_get if_True)
qed

text \<open>
  The service changes the repository only by the repository's calls, so it keeps its invariant, with every early return
  and error among its calls.
\<close>

lemma service_keeps_repository:
  "repository_inv (w_repository w) \<Longrightarrow> repository_inv (w_repository (run_machine (service_step d) w calls))"
  using auth_service.run_realized [of d w calls] repository.run_keeps_inv by metis

section \<open>Properties\<close>

text \<open>
  C14. Administration needs a current administrator. If the actor is unknown, disabled, at a past
  authentication version, must change its password or lacks the ADMIN role, then creating an account,
  enabling or disabling one, changing roles, resetting a password, revoking sessions and listing
  accounts all fail with FORBIDDEN or PASSWORD_CHANGE_REQUIRED and change nothing at all.
\<close>

theorem administration_guarded:
  assumes "\<not> current_administrator (w_repository w) actor"
  shows "fst (service_createAccount d actor u n rs w) \<in> Inl ` AuthError ` {FORBIDDEN, PASSWORD_CHANGE_REQUIRED} \<and>
    snd (service_createAccount d actor u n rs w) = w \<and>
    fst (service_setAccountEnabled d actor i b w) \<in> Inl ` AuthError ` {FORBIDDEN, PASSWORD_CHANGE_REQUIRED} \<and>
    snd (service_setAccountEnabled d actor i b w) = w \<and>
    fst (service_setAccountRoles d actor i rs w) \<in> Inl ` AuthError ` {FORBIDDEN, PASSWORD_CHANGE_REQUIRED} \<and>
    snd (service_setAccountRoles d actor i rs w) = w \<and>
    fst (resetPassword d actor i w) \<in> Inl ` AuthError ` {FORBIDDEN, PASSWORD_CHANGE_REQUIRED} \<and>
    snd (resetPassword d actor i w) = w \<and>
    fst (revokeSessions d actor i w) \<in> Inl ` AuthError ` {FORBIDDEN, PASSWORD_CHANGE_REQUIRED} \<and>
    snd (revokeSessions d actor i w) = w \<and>
    fst (service_listAccounts lc actor w) \<in> Inl ` AuthError ` {FORBIDDEN, PASSWORD_CHANGE_REQUIRED} \<and>
    snd (service_listAccounts lc actor w) = w"
  unfolding service_createAccount_def service_setAccountEnabled_def service_setAccountRoles_def
    resetPassword_def revokeSessions_def service_listAccounts_def image_insert image_empty
  by (intro conjI bind_requireAdministrator_rejects [OF assms, THEN conjunct1]
      bind_requireAdministrator_rejects [OF assms, THEN conjunct2])

text \<open>Concrete parameters for the examples: a ticking clock, unary ids and secrets, and a transparent hasher.\<close>

definition sample_dependencies :: authDependencies where
  "sample_dependencies = \<lparr>d_clock = int, d_createId = (\<lambda>n. replicate (n + 1) (CHR ''i'')),
    d_createSecret = (\<lambda>n. replicate (n + 24) (CHR ''s'')), d_hash = (\<lambda>n p. ''h:'' @ p),
    d_verify = (\<lambda>h p. h = ''h:'' @ p), d_hmac = (\<lambda>k t. ''m:'' @ t), d_sessionHmacKeys = [[]],
    d_dummyPasswordHash = [], d_loginIntentLimits = \<lparr>ilim_global = 10, ilim_perHost = 10\<rparr>,
    d_loginThrottleGlobal = 10, d_sessionLimits = \<lparr>lim_global = 10, lim_perAccount = 10\<rparr>,
    d_sessionExchangeLimits = \<lparr>lim_global = 10, lim_perAccount = 10\<rparr>,
    d_carrierCredentialLimits = \<lparr>lim_global = 10, lim_perAccount = 10\<rparr>\<rparr>"

abbreviation sample_world :: "authRepository \<Rightarrow> authWorld" where
  "sample_world r \<equiv> \<lparr>w_repository = r, w_clock = 0, w_ids = 0, w_secrets = 0, w_hashes = 0, w_events = []\<rparr>"

theorem administration_guarded_witness:
  "snd (revokeSessions sample_dependencies \<lparr>aut_accountId = ''nobody'', aut_authVersion = 1\<rparr> ''a''
      (sample_world sample_repository)) = sample_world sample_repository"
  using administration_guarded [of "sample_world sample_repository"
      "\<lparr>aut_accountId = ''nobody'', aut_authVersion = 1\<rparr>" sample_dependencies
      "''x''" "''x''" "[]" "''a''" True]
  by (simp add: current_administrator_def findAccountById_def)

text \<open>
  C30. A token resolves only while its session is valid. If \<^verbatim>\<open>resolveSession\<close> returns a principal, then
  a session is stored whose digest is the token's under one of the configured keys, issued for the
  expected audience and not yet expired, its account is enabled and at the version of the session,
  and the principal describes that account; the repository is left as it was.
\<close>

theorem resolve_session_sound:
  assumes "resolveSession d token audience w = (Inr (Some p), w')"
  shows "\<exists>s a. s \<in> set (map_values (sessions (w_repository w))) \<and>
    ses_tokenDigest s \<in> set (digestSessionTokenCandidates d token) \<and> ses_audience s = audience \<and>
    findAccountById (w_repository w) (ses_accountId s) = Some a \<and> acc_enabled a \<and>
    acc_authVersion a = ses_accountAuthVersion s \<and> d_clock d (w_clock w) < ses_expiresAt s \<and>
    p = toPrincipal a (ses_id s) \<and> w_repository w' = w_repository w"
proof -
  from assms obtain s a where found: "findSessionAccountByTokenDigests (w_repository w)
      (digestSessionTokenCandidates d token) = Some (s, a)"
    and ok: "ses_audience s = audience" "acc_enabled a" "acc_authVersion a = ses_accountAuthVersion s"
      "d_clock d (w_clock w) < ses_expiresAt s" "p = toPrincipal a (ses_id s)" "w_repository w' = w_repository w"
    by (auto simp: resolveSession_def bindM_success query_def now_def change_def not_le split: if_splits option.splits)
  from findSession_sound [OF found] ok show ?thesis by (auto simp: findAccountById_def)
qed

abbreviation sample_login_repository :: authRepository where
  "sample_login_repository \<equiv> sample_repository\<lparr>accounts := [(''ada'', (sample_account ''ada'' [ADMIN, DEVELOPER])
    \<lparr>acc_passwordHash := ''h:pw''\<rparr>)]\<rparr>"

abbreviation sample_token :: string where
  "sample_token \<equiv> ''ssssssssssssssssssss''"

theorem resolve_session_sound_witness:
  "\<exists>p w'. resolveSession sample_dependencies sample_token ''control''
      (sample_world (sample_login_repository\<lparr>sessions := [(''s'', (sample_session ''s'' ''ada'')
        \<lparr>ses_tokenDigest := ''m:ssssssssssssssssssss''\<rparr>)]\<rparr>)) = (Inr (Some p), w') \<and> prn_username p = ''ada''"
proof -
  let ?w = "sample_world (sample_login_repository\<lparr>sessions := [(''s'', (sample_session ''s'' ''ada'')
        \<lparr>ses_tokenDigest := ''m:ssssssssssssssssssss''\<rparr>)]\<rparr>)"
  obtain p w' where ok: "resolveSession sample_dependencies sample_token ''control'' ?w = (Inr (Some p), w')"
    by (simp add: resolveSession_def sample_dependencies_def bindM_def query_def now_def ret_def
        digestSessionTokenCandidates_def)
  from resolve_session_sound [OF ok] have "prn_username p = ''ada''"
    by (auto simp: findAccountById_def toPrincipal_def)
  with ok show ?thesis by blast
qed

text \<open>
  C31. The batched authorisation check is the plain one. For a reachable repository
  \<^verbatim>\<open>areAccountsAuthorized\<close>, which deduplicates the account ids, looks them up in batches and joins the
  answers through a map, returns for each check, in order, whether that account exists, is enabled,
  needs no password change, has the expected version and satisfies the required access.
\<close>

theorem bulk_authorization_correct:
  assumes "new_authRepository limits = Inr r0" and "r = run_machine repository_step r0 ops"
  shows "areAccountsAuthorized r checks = map (\<lambda>c. case findAccountById r (chk_accountId c) of
      None \<Rightarrow> False
    | Some a \<Rightarrow> acc_enabled a \<and> \<not> acc_mustChangePassword a \<and> acc_authVersion a = chk_accountAuthVersion c \<and>
        satisfiesAccountAccess (acc_roles a) (chk_requirement c)) checks"
proof -
  have "repository_inv r" using assms repository.run_inv by blast
  then have "accounts_ok (accounts r)" by (simp add: repository_inv_def)
  then show ?thesis
    unfolding areAccountsAuthorized_def findAccountById_def
    by (auto simp: Let_def lookup_batches)
qed

theorem bulk_authorization_correct_witness:
  "areAccountsAuthorized (run_machine repository_step sample_repository
      [CreateFirstAccount (sample_account ''a'' [ADMIN]) (sample_event ''e'')])
      [\<lparr>chk_accountId = ''a'', chk_accountAuthVersion = 1, chk_requirement = RequireRole ADMIN\<rparr>,
       \<lparr>chk_accountId = ''a'', chk_accountAuthVersion = 2, chk_requirement = RequireRole ADMIN\<rparr>] = [True, False]"
  by (subst bulk_authorization_correct [OF new_sample_repository refl])
    (simp add: findAccountById_def createFirstAccount_def assertAccountCanBeCreated_def
      assertAuditEventCanBeAppended_def DEFAULT_AUDIT_EVENT_LIMITS_def satisfiesAccountAccess_def)

text \<open>
  A locked identity or address cannot log in. While the throttle record of the login's identity
  or of its remote address is recent and locked, \<^verbatim>\<open>authenticate\<close> fails with LOGIN_THROTTLED whatever
  password is given, leaves the repository unchanged and writes exactly one failure event.
\<close>

theorem locked_login_rejected:
  assumes "t = d_clock d (w_clock w)"
    and "k = throttleKey d ''identity'' (snd (login_identity username None)) \<or> k = throttleKey d ''remote'' remoteAddress"
    and "getLoginThrottle (w_repository w) k = Some x" and "t - LOGIN_FAILURE_WINDOW_MS < thr_updatedAt x"
    and "thr_lockedUntil x = Some until" and "t < until"
  shows "\<exists>w' e. authenticate d username password remoteAddress w = (Inl (AuthError LOGIN_THROTTLED), w') \<and>
    w_repository w' = w_repository w \<and> w_events w' = w_events w @ [e] \<and> evt_action e = LOGIN_FAILED"
proof -
  have "throttle_locked t (throttle_live t (getLoginThrottle (w_repository w) k))"
    using assms(3-6) by (simp add: throttle_live_def throttle_locked_def)
  then have locked: "throttle_locked t (throttle_live t (getLoginThrottle (w_repository w)
        (throttleKey d ''identity'' (snd (login_identity username None))))) \<or>
      throttle_locked t (throttle_live t (getLoginThrottle (w_repository w) (throttleKey d ''remote'' remoteAddress)))"
    using assms(2) by auto
  obtain name ident where li: "login_identity username None = (name, ident)" by fastforce
  show ?thesis
    using locked unfolding authenticate_def verifyCredentials_def li Let_def
    by (auto simp: bindM_def now_def assms(1) query_def ret_def writeAuthenticationEvent_def throw_def split: option.split)
qed

theorem locked_login_rejected_witness:
  "\<exists>x w' e. authenticate sample_dependencies ''ada'' ''pw'' ''addr''
      (sample_world (sample_login_repository\<lparr>loginThrottles :=
        [(throttleKey sample_dependencies ''remote'' ''addr'', x)]\<rparr>)) = (Inl (AuthError LOGIN_THROTTLED), w') \<and>
    w_events w' = [e] \<and> evt_action e = LOGIN_FAILED"
proof -
  let ?k = "throttleKey sample_dependencies ''remote'' ''addr''"
  let ?x = "\<lparr>thr_key = ?k, thr_failures = 5, thr_lockedUntil = Some 30000, thr_updatedAt = 0\<rparr>"
  let ?w = "sample_world (sample_login_repository\<lparr>loginThrottles := [(?k, ?x)]\<rparr>)"
  have t: "0 = d_clock sample_dependencies (w_clock ?w)" by (simp add: sample_dependencies_def)
  have "\<exists>w' e. authenticate sample_dependencies ''ada'' ''pw'' ''addr'' ?w = (Inl (AuthError LOGIN_THROTTLED), w') \<and>
    w_repository w' = w_repository ?w \<and> w_events w' = w_events ?w @ [e] \<and> evt_action e = LOGIN_FAILED"
    by (rule locked_login_rejected [OF t, of ?k _ _ ?x 30000])
      (simp_all add: getLoginThrottle_def LOGIN_FAILURE_WINDOW_MS_def)
  then show ?thesis by force
qed

text \<open>The failures at times \<open>ts\<close>, one after the other, as a rejected login records them.\<close>

definition failure_input :: "authDependencies \<Rightarrow> string list \<Rightarrow> int \<Rightarrow> loginFailureInput" where
  "failure_input d keys t = \<lparr>lf_keys = keys, lf_now = t, lf_windowStartsAt = t - LOGIN_FAILURE_WINDOW_MS,
    lf_lockThreshold = LOGIN_LOCK_THRESHOLD, lf_lockedUntil = t + LOGIN_LOCK_MS, lf_global = d_loginThrottleGlobal d\<rparr>"

fun record_failures :: "authDependencies \<Rightarrow> string list \<Rightarrow> int list \<Rightarrow> authRepository \<Rightarrow> throttleStatus list \<times> authRepository" where
  "record_failures d keys [] r = ([], r)"
| "record_failures d keys (t # ts) r =
     (case recordLoginFailure r (failure_input d keys t) of
        ((status, _), r') \<Rightarrow>
          (case record_failures d keys ts r' of (statuses, r'') \<Rightarrow> (status # statuses, r'')))"

definition failures_of :: "authRepository \<Rightarrow> int \<Rightarrow> string \<Rightarrow> int" where
  "failures_of r from k = (case getLoginThrottle r k of
     None \<Rightarrow> 0 | Some x \<Rightarrow> if from \<le> thr_updatedAt x then thr_failures x else 0)"

lemma failures_of_nonneg: "repository_inv r \<Longrightarrow> 0 \<le> failures_of r from k"
proof (cases "map_get (loginThrottles r) k")
  case (Some t)
  moreover assume "repository_inv r"
  ultimately have "1 \<le> thr_failures t"
    unfolding repository_inv_def throttles_ok_def by (blast dest: map_of_SomeD)
  with Some show ?thesis by (simp add: failures_of_def getLoginThrottle_def)
qed (simp add: failures_of_def getLoginThrottle_def)

lemma failure_counts:
  assumes "repository_inv r" "recordLoginFailure r (failure_input d keys t) = ((Recorded, ts), r')" "k \<in> set keys"
    "from \<le> t" "t < from + LOGIN_FAILURE_WINDOW_MS"
  shows "repository_inv r' \<and> failures_of r from k + 1 \<le> failures_of r' from k \<and>
    (\<exists>x. getLoginThrottle r' k = Some x \<and> thr_updatedAt x = t \<and>
      thr_lockedUntil x = (if LOGIN_LOCK_THRESHOLD \<le> thr_failures x then Some (t + LOGIN_LOCK_MS) else None))"
proof -
  have ok: "throttles_ok (loginThrottles r)" using assms(1) by (simp add: repository_inv_def)
  then have wf: "wf_map (loginThrottles r)" by (simp add: throttles_ok_def)
  have inv: "repository_inv r'" using throttles_inv(1) [OF assms(1), of "failure_input d keys t"] assms(2) by simp
  let ?live = "map_delete_if (\<lambda>x. thr_updatedAt x \<le> t - LOGIN_FAILURE_WINDOW_MS) (loginThrottles r)"
  let ?x = "next_throttle (failure_input d keys t) ?live k"
  have x: "getLoginThrottle r' k = Some ?x"
    using recordLoginFailure_recorded [OF assms(2), of k] assms(3) by (simp add: failure_input_def)
  have props: "thr_updatedAt ?x = t"
    "thr_lockedUntil ?x = (if LOGIN_LOCK_THRESHOLD \<le> thr_failures ?x then Some (t + LOGIN_LOCK_MS) else None)"
    by (simp_all add: next_throttle_def failure_input_def Let_def)
  have "failures_of r from k + 1 \<le> thr_failures ?x"
  proof (cases "map_get (loginThrottles r) k")
    case None
    then show ?thesis
      by (simp add: failures_of_def getLoginThrottle_def next_throttle_def Let_def map_get_delete_if [OF wf])
  next
    case (Some y)
    then have "1 \<le> thr_failures y" using ok unfolding throttles_ok_def by (blast dest: map_of_SomeD)
    with Some assms(5) show ?thesis
      by (simp add: failures_of_def getLoginThrottle_def next_throttle_def Let_def map_get_delete_if [OF wf]
          failure_input_def)
  qed
  with inv x props assms(4) show ?thesis by (simp add: failures_of_def)
qed

lemma record_failures_count:
  assumes "repository_inv r" "record_failures d keys ts r = (statuses, r')" "\<forall>s \<in> set statuses. s = Recorded"
    "k \<in> set keys" "\<forall>t \<in> set ts. from \<le> t \<and> t < from + LOGIN_FAILURE_WINDOW_MS"
  shows "failures_of r from k + int (length ts) \<le> failures_of r' from k \<and>
    (ts \<noteq> [] \<longrightarrow> (\<exists>x. getLoginThrottle r' k = Some x \<and> thr_updatedAt x = last ts \<and>
      thr_lockedUntil x = (if LOGIN_LOCK_THRESHOLD \<le> thr_failures x then Some (last ts + LOGIN_LOCK_MS) else None)))"
  using assms
proof (induction ts arbitrary: r statuses)
  case (Cons t ts)
  obtain status rest r1 statuses' where
    one: "recordLoginFailure r (failure_input d keys t) = ((status, rest), r1)"
    and more: "record_failures d keys ts r1 = (statuses', r')" "statuses = status # statuses'"
    using Cons.prems(2) by (auto split: prod.splits)
  have rec: "recordLoginFailure r (failure_input d keys t) = ((Recorded, rest), r1)"
    using one more Cons.prems(3) by simp
  note step = failure_counts [OF Cons.prems(1) rec Cons.prems(4), of "from"]
  have "failures_of r1 from k + int (length ts) \<le> failures_of r' from k \<and>
    (ts \<noteq> [] \<longrightarrow> (\<exists>x. getLoginThrottle r' k = Some x \<and> thr_updatedAt x = last ts \<and>
      thr_lockedUntil x = (if LOGIN_LOCK_THRESHOLD \<le> thr_failures x then Some (last ts + LOGIN_LOCK_MS) else None)))"
    using step more Cons.prems by (intro Cons.IH [OF _ more(1)]) auto
  moreover have "ts = [] \<Longrightarrow> r' = r1" using more by simp
  ultimately show ?case using step Cons.prems by auto
qed simp

text \<open>
  Five failures lock a login. Take any identity and remote address and let at least five login
  attempts be rejected within one failure window, with the throttle store accepting each record. Then
  both throttle records are locked for thirty seconds after the last attempt, so that by C29 further
  attempts are refused; a record that has seen fewer failures is not locked.
\<close>

theorem five_failures_lock:
  assumes "repository_inv r" and "record_failures d [identityKey, remoteKey] ts r = (statuses, r')"
    and "list_all (\<lambda>s. s = Recorded) statuses" and "list_all (\<lambda>t. from \<le> t \<and> t < from + LOGIN_FAILURE_WINDOW_MS) ts"
    and "k \<in> {identityKey, remoteKey}" and "ts \<noteq> []"
  shows "\<exists>x. getLoginThrottle r' k = Some x \<and> thr_updatedAt x = last ts \<and>
    failures_of r from k + int (length ts) \<le> thr_failures x \<and>
    (5 \<le> length ts \<longrightarrow> thr_lockedUntil x = Some (last ts + LOGIN_LOCK_MS)) \<and>
    (thr_failures x < LOGIN_LOCK_THRESHOLD \<longrightarrow> thr_lockedUntil x = None)"
proof -
  from record_failures_count [OF assms(1,2), of k "from"] assms(3-6) obtain x where
    x: "getLoginThrottle r' k = Some x" "thr_updatedAt x = last ts"
      "thr_lockedUntil x = (if LOGIN_LOCK_THRESHOLD \<le> thr_failures x then Some (last ts + LOGIN_LOCK_MS) else None)"
    and count: "failures_of r from k + int (length ts) \<le> failures_of r' from k"
    by (auto simp: list_all_iff)
  have "from \<le> last ts" using assms(4,6) by (simp add: list_all_iff)
  then have "failures_of r' from k = thr_failures x" using x by (simp add: failures_of_def)
  with x count failures_of_nonneg [OF assms(1), of "from" k] show ?thesis by (simp add: LOGIN_LOCK_THRESHOLD_def)
qed

text \<open>With one key in the store and room for another, every failure is recorded.\<close>

lemma single_key_recorded:
  assumes "loginThrottles r = [] \<or> (\<exists>x. loginThrottles r = [(k, x)])" "2 \<le> d_loginThrottleGlobal d"
  shows "\<exists>ts x. recordLoginFailure r (failure_input d [k, k] t) = ((Recorded, ts), r\<lparr>loginThrottles := [(k, x)]\<rparr>)"
proof -
  have keys: "sort (set_values [k, k]) = [k]" by (simp add: set_values_def)
  obtain live where live: "map_delete_if (\<lambda>t'. thr_updatedAt t' \<le> t - LOGIN_FAILURE_WINDOW_MS) (loginThrottles r) = live"
    and cases: "live = [] \<or> (\<exists>x. live = [(k, x)])"
    using assms(1) by (auto simp: map_delete_if_def)
  have key: "thr_key (next_throttle input m j) = j" for input m j by (simp add: next_throttle_def Let_def)
  have one: "take (nat (max 0 (d_loginThrottleGlobal d))) [k] = [k]" using assms(2) by (simp add: take_Cons')
  from cases show ?thesis
    unfolding recordLoginFailure_def failure_input_def
    by (elim disjE exE; simp add: live keys Let_def set_values_def key one [simplified]; blast)
qed

lemma single_key_failures:
  assumes "loginThrottles r = [] \<or> (\<exists>x. loginThrottles r = [(k, x)])" "2 \<le> d_loginThrottleGlobal d"
  shows "\<exists>r'. record_failures d [k, k] ts r = (replicate (length ts) Recorded, r')"
  using assms
proof (induction ts arbitrary: r)
  case (Cons t ts)
  from single_key_recorded [OF Cons.prems, of t] obtain out x where
    one: "recordLoginFailure r (failure_input d [k, k] t) = ((Recorded, out), r\<lparr>loginThrottles := [(k, x)]\<rparr>)" by blast
  have "\<exists>r'. record_failures d [k, k] ts (r\<lparr>loginThrottles := [(k, x)]\<rparr>) = (replicate (length ts) Recorded, r')"
    by (rule Cons.IH) (use Cons.prems in simp_all)
  with one show ?case by auto
qed simp

theorem five_failures_lock_witness:
  "\<exists>r' x. record_failures sample_dependencies [''a'', ''a''] [1, 2, 3, 4, 5] sample_repository =
      (replicate (length [1, 2, 3, 4, 5 :: int]) Recorded, r') \<and>
    getLoginThrottle r' ''a'' = Some x \<and> thr_lockedUntil x = Some 30005"
proof -
  obtain r' where run: "record_failures sample_dependencies [''a'', ''a''] [1, 2, 3, 4, 5] sample_repository =
      (replicate (length [1, 2, 3, 4, 5 :: int]) Recorded, r')"
    using single_key_failures [of sample_repository "''a''" sample_dependencies "[1, 2, 3, 4, 5]"]
    by (auto simp: sample_dependencies_def simp del: record_failures.simps)
  have inv: "repository_inv sample_repository" using new_sample_repository by (rule new_authRepository_inv)
  have "\<exists>x. getLoginThrottle r' ''a'' = Some x \<and> thr_updatedAt x = last [1, 2, 3, 4, 5] \<and>
    failures_of sample_repository 0 ''a'' + int (length [1, 2, 3, 4, 5 :: int]) \<le> thr_failures x \<and>
    (5 \<le> length [1, 2, 3, 4, 5 :: int] \<longrightarrow> thr_lockedUntil x = Some (last [1, 2, 3, 4, 5] + LOGIN_LOCK_MS)) \<and>
    (thr_failures x < LOGIN_LOCK_THRESHOLD \<longrightarrow> thr_lockedUntil x = None)"
    by (rule five_failures_lock [OF inv run]) (simp_all add: LOGIN_FAILURE_WINDOW_MS_def)
  then obtain x where "getLoginThrottle r' ''a'' = Some x" "thr_lockedUntil x = Some 30005"
    by (auto simp: LOGIN_LOCK_MS_def)
  with run show ?thesis by blast
qed

text \<open>What a successful login leaves behind.\<close>

lemma saveSession_True:
  assumes "saveSession r s t l = (True, r')"
  shows "r' = r\<lparr>sessions := map_set (map_delete_if (\<lambda>x. ses_expiresAt x \<le> t) (sessions r)) (ses_id s) s\<rparr> \<and>
    isCurrentArtifactAccount r (ses_accountId s) (ses_accountAuthVersion s)"
  using assms by (auto simp: saveSession_def Let_def split: if_splits)

lemma find_set_fresh:
  assumes "P s" "\<forall>x \<in> set (map_values m). \<not> P x"
  shows "find P (map_values (map_set m k s)) = Some s"
  using assms by (induction m) auto

lemma issueSession_success:
  assumes "issueSession d a t audience w = (Inr (p, token), w')"
  shows "\<exists>i s. token = i @ ''.'' @ d_createSecret d (w_secrets w) \<and> p = toPrincipal a i \<and>
    s = \<lparr>ses_id = i, ses_tokenDigest = digestSessionToken d token, ses_accountId = acc_id a,
      ses_accountAuthVersion = acc_authVersion a, ses_audience = audience, ses_createdAt = t,
      ses_expiresAt = t + SESSION_TTL_MS, ses_lastSeenAt = t\<rparr> \<and>
    saveSession (w_repository w) s t (d_sessionLimits d) = (True, w_repository w') \<and> w_clock w' = w_clock w"
  using assms
  by (auto simp: issueSession_def Let_def bindM_success createId_def createSecret_def change_def split_beta
      split: if_splits) (metis prod.collapse)

lemma findAccountByUsername_Some: "findAccountByUsername r n = Some a \<Longrightarrow> a \<in> set (map_values (accounts r))"
  by (auto simp: findAccountByUsername_def find_Some_iff)

lemma verifyCredentials_success:
  assumes "verifyCredentials d username password remote t known w = (Inr a, w')"
  shows "acc_enabled a \<and> d_verify d (acc_passwordHash a) password \<and> w_clock w' = w_clock w \<and>
    accounts (w_repository w') = accounts (w_repository w) \<and> sessions (w_repository w') = sessions (w_repository w) \<and>
    (known = None \<longrightarrow> a \<in> set (map_values (accounts (w_repository w))))"
  using assms
  by (auto simp: verifyCredentials_def Let_def bindM_success query_def change_def writeAuthenticationEvent_def
      reject_login_def deleteLoginThrottles_def dest: findAccountByUsername_Some
      split: prod.splits option.splits if_splits)


abbreviation ada_repository :: authRepository where
  "ada_repository \<equiv> sample_repository\<lparr>accounts := [(''ada'', \<lparr>acc_id = ''ada'', acc_username = ''ada'',
      acc_displayName = ''Ada'', acc_roles = [ADMIN, DEVELOPER], acc_passwordHash = ''h:pw'', acc_enabled = True,
      acc_mustChangePassword = False, acc_authVersion = 1, acc_createdAt = 0, acc_updatedAt = 0\<rparr>)],
    auditEvents := [sample_event ''e'']\<rparr>"

lemma ada_reachable:
  "w_repository (sample_world ada_repository) = run_machine repository_step sample_repository
    [CreateFirstAccount \<lparr>acc_id = ''ada'', acc_username = ''ada'', acc_displayName = ''Ada'',
      acc_roles = [ADMIN, DEVELOPER], acc_passwordHash = ''h:pw'', acc_enabled = True, acc_mustChangePassword = False,
      acc_authVersion = 1, acc_createdAt = 0, acc_updatedAt = 0\<rparr> (sample_event ''e'')]"
  by (simp add: createFirstAccount_def assertAccountCanBeCreated_def assertAuditEventCanBeAppended_def
      DEFAULT_AUDIT_EVENT_LIMITS_def)


lemma saveCarrierCredential_True:
  assumes "saveCarrierCredential r c t l = (True, r')"
  shows "accounts r' = accounts r \<and> map_get (carrierCredentials r') (crd_id c) = Some c"
proof -
  have "r' = r\<lparr>carrierCredentials := map_set (map_delete_if (\<lambda>s. crd_expiresAt s \<le> t) (carrierCredentials r)) (crd_id c) c\<rparr>"
    using assms by (auto simp: saveCarrierCredential_def Let_def split: if_splits)
  then show ?thesis by (simp add: map_get_set)
qed

text \<open>
  A carrier credential round-trips once. If \<^verbatim>\<open>issueCarrierCredential\<close> returns a token and its id
  is not empty and has no dot, as the hexadecimal ids have none, then presenting the token within its
  lifetime yields the authorisation of the issuing account, at its version, for the same purpose and
  tunnel; presenting it a second time is refused.
\<close>

theorem carrier_credential_roundtrip:
  assumes "new_authRepository limits = Inr r0" and "w_repository w = run_machine repository_step r0 ops"
    and "issueCarrierCredential d p purpose tunnelId w = (Inr token, w')"
    and "d_createId d (w_ids w) \<noteq> []" and "CHR ''.'' \<notin> set (d_createId d (w_ids w))"
    and "length token \<le> 512" and "d_sessionHmacKeys d \<noteq> []"
    and "d_clock d (w_clock w') < d_clock d (w_clock w) + CARRIER_CREDENTIAL_TTL_MS"
  shows "\<exists>auth w''. service_consumeCarrierCredential d token w' = (Inr auth, w'') \<and>
    dev_accountId auth = prn_accountId p \<and> dev_accountAuthVersion auth = prn_authVersion p \<and>
    dev_purpose auth = purpose \<and> dev_tunnelId auth = tunnelId \<and>
    fst (service_consumeCarrierCredential d token w'') = Inl (AuthError FORBIDDEN)"
proof -
  let ?r = "w_repository w" and ?i = "d_createId d (w_ids w)" and ?secret = "d_createSecret d (w_secrets w)"
  have "repository_inv ?r" using assms(1,2) repository.run_inv by metis
  then have ok: "accounts_ok (accounts ?r)" by (simp add: repository_inv_def)
  from assms(3) obtain a where a: "map_get (accounts ?r) (prn_accountId p) = Some a" "acc_enabled a"
      "acc_authVersion a = prn_authVersion p" "\<not> acc_mustChangePassword a" "DEVELOPER \<in> set (acc_roles a)"
    and token: "token = ?i @ ''.'' @ ?secret"
    and saved: "saveCarrierCredential ?r \<lparr>crd_id = ?i,
        crd_secretDigest = digestSessionToken d (''carrier:'' @ ?i @ '':'' @ ?secret), crd_accountId = acc_id a,
        crd_accountAuthVersion = acc_authVersion a, crd_purpose = purpose, crd_tunnelId = tunnelId,
        crd_expiresAt = d_clock d (w_clock w) + CARRIER_CREDENTIAL_TTL_MS\<rparr> (d_clock d (w_clock w))
        (d_carrierCredentialLimits d) = (True, w_repository w')"
    by (auto simp: issueCarrierCredential_def requireCurrentAccount_def requireEnabledAccount_def bindM_success
        query_def findAccountById_def principal_authorization_def createId_def createSecret_def now_def change_def
        split_beta split: option.splits if_splits) (metis prod.collapse)
  let ?c = "\<lparr>crd_id = ?i, crd_secretDigest = digestSessionToken d (''carrier:'' @ ?i @ '':'' @ ?secret),
        crd_accountId = acc_id a, crd_accountAuthVersion = acc_authVersion a, crd_purpose = purpose,
        crd_tunnelId = tunnelId, crd_expiresAt = d_clock d (w_clock w) + CARRIER_CREDENTIAL_TTL_MS\<rparr>"
  have id_a: "acc_id a = prn_accountId p" using accounts_ok_get [OF ok a(1)] .
  have w': "accounts (w_repository w') = accounts ?r" "map_get (carrierCredentials (w_repository w')) ?i = Some ?c"
    using saveCarrierCredential_True [OF saved] by simp_all
  have sep: "indexOf token (CHR ''.'') = int (length ?i)" using indexOf_separator assms(5) by (simp add: token)
  have parts: "take (length ?i) token = ?i" "drop (length ?i + 1) token = ?secret" by (simp_all add: token)
  obtain k ks where keys: "d_sessionHmacKeys d = k # ks" using assms(7) by (cases "d_sessionHmacKeys d") auto
  let ?w = "w'\<lparr>w_clock := w_clock w' + 1, w_repository := (w_repository w')\<lparr>carrierCredentials :=
    map_delete (carrierCredentials (w_repository w')) ?i\<rparr>\<rparr>"
  let ?digests = "digestSessionTokenCandidates d (''carrier:'' @ ?i @ '':'' @ ?secret)"
  have call: "service_consumeCarrierCredential d token v =
      bindM (consume_first d (\<lambda>dg t r. consumeCarrierCredential r ?i dg t) ?digests)
        (\<lambda>found. case found of None \<Rightarrow> throw FORBIDDEN | Some c \<Rightarrow> developer_authorization c) v" for v
    using assms(4,6) parts by (simp only: service_consumeCarrierCredential_def sep Let_def) (simp add: Suc_leI)
  have "consume_first d (\<lambda>dg t r. consumeCarrierCredential r ?i dg t) ?digests w' = (Inr (Some ?c), ?w)"
    using w'(2) assms(8)
    by (simp add: digestSessionTokenCandidates_def keys bindM_def now_def change_def consumeCarrierCredential_def
        ret_def digestSessionToken_def)
  then have first: "service_consumeCarrierCredential d token w' =
      (Inr \<lparr>dev_accountId = acc_id a, dev_accountAuthVersion = acc_authVersion a, dev_username = acc_username a,
        dev_purpose = purpose, dev_tunnelId = tunnelId\<rparr>, ?w)"
    unfolding call using w'(1) a id_a
    by (simp add: bindM_def developer_authorization_def requireAccount_def query_def findAccountById_def ret_def)
  obtain w'' where "consume_first d (\<lambda>dg t r. consumeCarrierCredential r ?i dg t) ?digests ?w = (Inr None, w'')"
    using consume_first_absent [of ?w ?i d ?digests] by (auto simp: map_get_delete)
  then have "fst (service_consumeCarrierCredential d token ?w) = Inl (AuthError FORBIDDEN)"
    unfolding call by (simp add: bindM_def throw_def)
  with first a id_a show ?thesis by (intro exI conjI) (assumption | simp)+
qed

theorem carrier_credential_roundtrip_witness:
  "\<exists>token w' auth w''. issueCarrierCredential sample_dependencies
      \<lparr>prn_accountId = ''ada'', prn_username = ''ada'', prn_displayName = ''Ada'', prn_roles = [ADMIN, DEVELOPER],
       prn_mustChangePassword = False, prn_authVersion = 1, prn_sessionId = ''s''\<rparr> CarrierCreate ''t1''
      (sample_world ada_repository) = (Inr token, w') \<and>
    service_consumeCarrierCredential sample_dependencies token w' = (Inr auth, w'') \<and>
    dev_accountId auth = ''ada'' \<and> dev_tunnelId auth = ''t1''"
proof -
  let ?p = "\<lparr>prn_accountId = ''ada'', prn_username = ''ada'', prn_displayName = ''Ada'', prn_roles = [ADMIN, DEVELOPER],
       prn_mustChangePassword = False, prn_authVersion = 1, prn_sessionId = ''s''\<rparr>"
  have pattern: "tunnelId_pattern ''t1''" by code_simp
  obtain token w' where run: "issueCarrierCredential sample_dependencies ?p CarrierCreate ''t1''
      (sample_world ada_repository) = (Inr token, w')" and props: "length token = 26" "w_clock w' = 1"
    by (simp add: issueCarrierCredential_def requireCurrentAccount_def requireEnabledAccount_def bindM_def query_def
        findAccountById_def principal_authorization_def ret_def pattern createId_def createSecret_def now_def change_def
        saveCarrierCredential_def isCurrentArtifactAccount_def admit_artifact_def map_delete_if_def
        sample_dependencies_def Let_def)
  have "\<exists>auth w''. service_consumeCarrierCredential sample_dependencies token w' = (Inr auth, w'') \<and>
    dev_accountId auth = prn_accountId ?p \<and> dev_accountAuthVersion auth = prn_authVersion ?p \<and>
    dev_purpose auth = CarrierCreate \<and> dev_tunnelId auth = ''t1'' \<and>
    fst (service_consumeCarrierCredential sample_dependencies token w'') = Inl (AuthError FORBIDDEN)"
    by (rule carrier_credential_roundtrip [OF new_sample_repository ada_reachable run])
      (use props in \<open>simp_all add: sample_dependencies_def CARRIER_CREDENTIAL_TTL_MS_def\<close>)
  with run show ?thesis by auto
qed

end
