(* ===== verification/ReviewModel.thy ===== *)
theory ReviewModel
  imports JsString
begin

text \<open>
  The data of the review package, \<^verbatim>\<open>packages/review/src/model.ts\<close>, its text normalisers and the content
  mutation policy \<^verbatim>\<open>content-mutation-policy.ts\<close>. Event and notification ids, decimal strings of a
  growing bigint, are integers; dates are milliseconds; an optional field is an option. A region
  anchor is kept as the normaliser leaves it: coordinates in millionths of the page, dimensions in
  thousandths of a pixel.
\<close>

definition MAX_PROJECT_SLUG_LENGTH :: nat where "MAX_PROJECT_SLUG_LENGTH = 64"
definition MAX_REVISION_KEY_LENGTH :: nat where "MAX_REVISION_KEY_LENGTH = 128"
definition MAX_ROUTE_PATH_LENGTH :: nat where "MAX_ROUTE_PATH_LENGTH = 2048"
definition MAX_COMMENT_BODY_LENGTH :: nat where "MAX_COMMENT_BODY_LENGTH = 4000"
definition MAX_REPLY_BODY_LENGTH :: nat where "MAX_REPLY_BODY_LENGTH = 4000"
definition MAX_MENTIONS_PER_BODY :: nat where "MAX_MENTIONS_PER_BODY = 20"

datatype reviewErrorCode =
    INVALID_INPUT | REVIEW_FORBIDDEN | NOT_FOUND | CONFLICT | STATE_CONFLICT | VERSION_CONFLICT
  | CURSOR_EXPIRED | REVIEWER_UNAVAILABLE

section \<open>Records\<close>

record reviewCapabilities =
  canRead :: bool
  canComment :: bool
  canManageProject :: bool

record reviewActor =
  act_accountId :: string
  act_username :: string
  act_authorizationVersion :: number
  act_displayName :: string
  act_capabilities :: reviewCapabilities

record reviewProject =
  prj_id :: string
  prj_ownerAccountId :: string
  prj_slug :: string
  prj_displayName :: string
  prj_createdAt :: int

record reviewRevision =
  rev_id :: string
  rev_projectId :: string
  rev_key :: string
  rev_createdByAccountId :: string
  rev_createdAt :: int

record reviewTunnelBinding =
  bnd_tunnelId :: string
  bnd_sessionId :: string
  bnd_revisionId :: string
  bnd_ownerAccountId :: string
  bnd_createdAt :: int
  bnd_expiresAt :: int

datatype reviewThreadStatus = OPEN | NEEDS_REVIEW | RESOLVED

datatype reviewEventType =
    COMMENT_CREATED | REPLY_CREATED | THREAD_STATUS_CHANGED | COMMENT_UPDATED | COMMENT_DELETED
  | REPLY_UPDATED | REPLY_DELETED | NOTIFICATION_CREATED | NOTIFICATION_READ_CHANGED

record reviewIdentity =
  idn_accountId :: string
  idn_displayName :: string

record reviewEvent =
  ev_id :: int
  ev_revisionId :: string
  ev_routePath :: string
  ev_threadId :: string
  ev_type :: reviewEventType
  ev_actor :: reviewIdentity
  ev_occurredAt :: int
  ev_recipientAccountId :: "string option"

datatype reviewMentionContentType = COMMENT | REPLY

datatype notificationReason = REASON_MENTION | REASON_REPLY | WORKFLOW_REQUEST | WORKFLOW_RESULT

record reviewNotification =
  ntf_id :: int
  ntf_revisionId :: string
  ntf_routePath :: string
  ntf_threadId :: string
  ntf_contentType :: reviewMentionContentType
  ntf_contentId :: string
  ntf_reason :: "notificationReason option"
  ntf_sourceKey :: "string option"
  ntf_workflowVersion :: "int option"
  ntf_recipientAccountId :: string
  ntf_actor :: reviewIdentity
  ntf_readAt :: "int option"
  ntf_createdAt :: int

record reviewReply =
  rep_id :: string
  rep_threadId :: string
  rep_body :: "string option"
  rep_version :: int
  rep_author :: reviewIdentity
  rep_deletedBy :: "reviewIdentity option"
  rep_deletedAt :: "int option"
  rep_createdAt :: int
  rep_updatedAt :: int

datatype regionSelection = POINT | RECT

record regionReviewAnchor =
  rgn_selection :: regionSelection
  rgn_x :: int
  rgn_y :: int
  rgn_width :: int
  rgn_height :: int
  rgn_document :: "int \<times> int"
  rgn_viewport :: "int \<times> int"
  rgn_element :: "(string \<times> string \<times> int \<times> int \<times> int \<times> int) option"

datatype reviewAnchor = PAGE | REGION_V1 regionReviewAnchor

record workflowEntry =
  wfe_version :: int
  wfe_from :: reviewThreadStatus
  wfe_to :: reviewThreadStatus
  wfe_actor :: reviewIdentity
  wfe_changedAt :: int

record pageCommentThread =
  thd_id :: string
  thd_revisionId :: string
  thd_routePath :: string
  thd_anchor :: reviewAnchor
  thd_pinNumber :: "int option"
  thd_body :: "string option"
  thd_version :: int
  thd_status :: reviewThreadStatus
  thd_workflowVersion :: "int option"
  thd_workflowHistory :: "workflowEntry list option"
  thd_author :: reviewIdentity
  thd_resolvedBy :: "reviewIdentity option"
  thd_resolvedAt :: "int option"
  thd_deletedBy :: "reviewIdentity option"
  thd_deletedAt :: "int option"
  thd_replies :: "reviewReply list"
  thd_createdAt :: int
  thd_updatedAt :: int

definition isOpenReviewThread :: "pageCommentThread \<Rightarrow> bool" where
  "isOpenReviewThread t = (thd_status t \<noteq> RESOLVED \<and> thd_deletedAt t = None)"

record reviewPageCursor =
  cur_createdAt :: int
  cur_id :: string
  cur_scope :: "string option"

record reviewPageInfo =
  pgi_hasMore :: bool
  pgi_nextCursor :: "reviewPageCursor option"

section \<open>Content mutation policy\<close>

datatype mutationAction = UPDATE | DELETE

record contentMutationCheck =
  cmc_action :: mutationAction
  cmc_actorAccountId :: string
  cmc_canManageProject :: bool
  cmc_authorAccountId :: string
  cmc_version :: int
  cmc_contentDeleted :: bool
  cmc_threadStatus :: reviewThreadStatus
  cmc_threadDeleted :: bool
  cmc_expectedVersion :: int

datatype mutationDecision = ALLOWED | MUTATION_FORBIDDEN | MUTATION_STATE_CONFLICT | MUTATION_VERSION_CONFLICT

definition checkContentMutation :: "contentMutationCheck \<Rightarrow> mutationDecision" where
  "checkContentMutation input =
    (if cmc_authorAccountId input \<noteq> cmc_actorAccountId input \<and>
        (cmc_action input = UPDATE \<or> \<not> cmc_canManageProject input)
     then MUTATION_FORBIDDEN
     else if cmc_contentDeleted input \<or>
        (cmc_action input = UPDATE \<and> (cmc_threadStatus input = RESOLVED \<or> cmc_threadDeleted input))
     then MUTATION_STATE_CONFLICT
     else if cmc_version input \<noteq> cmc_expectedVersion input then MUTATION_VERSION_CONFLICT
     else ALLOWED)"

definition canEditReviewContent :: "reviewActor \<Rightarrow> string \<Rightarrow> bool" where
  "canEditReviewContent actor authorAccountId =
    (canComment (act_capabilities actor) \<and> act_accountId actor = authorAccountId)"

definition canDeleteReviewContent :: "reviewActor \<Rightarrow> string \<Rightarrow> bool" where
  "canDeleteReviewContent actor authorAccountId =
    (canEditReviewContent actor authorAccountId \<or> canManageProject (act_capabilities actor))"

section \<open>Text normalisers\<close>

definition is_alnum :: "char \<Rightarrow> bool" where
  "is_alnum c = (is_lower c \<or> is_upper c \<or> is_digit c)"

definition is_hex :: "char \<Rightarrow> bool" where
  "is_hex c = (is_digit c \<or> (97 \<le> char_code c \<and> char_code c \<le> 102) \<or> (65 \<le> char_code c \<and> char_code c \<le> 70))"

definition upper_char :: "char \<Rightarrow> char" where
  "upper_char c = (if is_lower c then char_of (char_code c - 32) else c)"

text \<open>\<^verbatim>\<open>/^[a-z0-9](?:[a-z0-9-]{0,62}[a-z0-9])?$/\<close>\<close>

definition normalizeProjectSlug :: "string \<Rightarrow> reviewErrorCode + string" where
  "normalizeProjectSlug s =
    (if length s > MAX_PROJECT_SLUG_LENGTH \<or>
        \<not> (s \<noteq> [] \<and> lower_or_digit (hd s) \<and> lower_or_digit (last s) \<and>
          list_all (\<lambda>c. lower_or_digit c \<or> c = CHR ''-'') s)
     then Inl INVALID_INPUT else Inr s)"

text \<open>\<^verbatim>\<open>/^[A-Za-z0-9][A-Za-z0-9._:+@/-]*$/\<close>\<close>

definition normalizeRevisionKey :: "string \<Rightarrow> reviewErrorCode + string" where
  "normalizeRevisionKey s =
    (if length s > MAX_REVISION_KEY_LENGTH \<or>
        \<not> (s \<noteq> [] \<and> is_alnum (hd s) \<and> list_all (\<lambda>c. is_alnum c \<or> c \<in> set ''._:+@/-'') (tl s))
     then Inl INVALID_INPUT else Inr s)"

text \<open>\<^verbatim>\<open>value.replace(/%[0-9a-fA-F]{2}/g, encoded => encoded.toUpperCase())\<close>\<close>

fun upper_escapes :: "string \<Rightarrow> string" where
  "upper_escapes (p # a # b # rest) =
     (if p = CHR ''%'' \<and> is_hex a \<and> is_hex b then p # upper_char a # upper_char b # upper_escapes rest
      else p # upper_escapes (a # b # rest))"
| "upper_escapes s = s"

definition normalizeRoutePath :: "string \<Rightarrow> reviewErrorCode + string" where
  "normalizeRoutePath s =
    (if length s = 0 \<or> length s > MAX_ROUTE_PATH_LENGTH \<or> \<not> startsWith s ''/'' \<or> startsWith s ''//'' \<or>
        CHR 0x5C \<in> set s \<or> CHR ''?'' \<in> set s \<or> CHR ''#'' \<in> set s \<or> list_ex is_control s
     then Inl INVALID_INPUT else Inr (upper_escapes s))"

text \<open>\<^verbatim>\<open>value.replace(/\r\n?/g, "\n")\<close>\<close>

fun unify_newlines :: "string \<Rightarrow> string" where
  "unify_newlines (c # d # rest) =
     (if c = CHR 0x0D then CHR 0x0A # (if d = CHR 0x0A then unify_newlines rest else unify_newlines (d # rest))
      else c # unify_newlines (d # rest))"
| "unify_newlines [c] = (if c = CHR 0x0D then [CHR 0x0A] else [c])"
| "unify_newlines [] = []"

text \<open>\<^verbatim>\<open>[\u0000-\u0008\u000b\u000c\u000e-\u001f\u007f]\<close>\<close>

definition disallowed_control :: "char \<Rightarrow> bool" where
  "disallowed_control c = (let n = char_code c in
    n \<le> 8 \<or> n = 11 \<or> n = 12 \<or> (14 \<le> n \<and> n \<le> 31) \<or> n = 127)"

definition normalizePlainTextBody :: "string \<Rightarrow> nat \<Rightarrow> reviewErrorCode + string" where
  "normalizePlainTextBody s maxLength =
    (let normalized = unify_newlines s in
     if length normalized = 0 \<or> length normalized > maxLength \<or> length (trim normalized) = 0 \<or>
        list_ex disallowed_control normalized
     then Inl INVALID_INPUT else Inr normalized)"

definition normalizeCommentBody :: "string \<Rightarrow> reviewErrorCode + string" where
  "normalizeCommentBody s = normalizePlainTextBody s MAX_COMMENT_BODY_LENGTH"

definition normalizeReplyBody :: "string \<Rightarrow> reviewErrorCode + string" where
  "normalizeReplyBody s = normalizePlainTextBody s MAX_REPLY_BODY_LENGTH"

text \<open>
  \<^verbatim>\<open>/(^|[^A-Za-z0-9._-])@([A-Za-z0-9][A-Za-z0-9._-]{2,63})/g\<close>: the name after an at sign, and the scan
  of \<^verbatim>\<open>matchAll\<close>, which goes on after each match.
\<close>

definition mention_char :: "char \<Rightarrow> bool" where
  "mention_char c = (is_alnum c \<or> c = CHR ''.'' \<or> c = CHR ''_'' \<or> c = CHR ''-'')"

fun mention_at :: "string \<Rightarrow> string option" where
  "mention_at (a # c # rest) =
     (let run = take 63 (takeWhile mention_char rest) in
      if a = CHR ''@'' \<and> is_alnum c \<and> length run \<ge> 2 then Some (c # run) else None)"
| "mention_at s = None"

function scan_mentions :: "bool \<Rightarrow> string \<Rightarrow> string list" where
  "scan_mentions start [] = []"
| "scan_mentions start (c # cs) =
     (case (if start then mention_at (c # cs) else None) of
        Some name \<Rightarrow> name # scan_mentions False (drop (length name) cs)
      | None \<Rightarrow>
          (case (if mention_char c then None else mention_at cs) of
             Some name \<Rightarrow> name # scan_mentions False (drop (length name + 1) cs)
           | None \<Rightarrow> scan_mentions False cs))"
  by pat_completeness auto
termination by (relation "measure (\<lambda>(_, s). length s)") auto

definition extractMentionUsernames :: "string \<Rightarrow> reviewErrorCode + string list" where
  "extractMentionUsernames body =
    (let mentions = set_values (map toLowerCase (scan_mentions True body)) in
     if length mentions > MAX_MENTIONS_PER_BODY then Inl INVALID_INPUT else Inr mentions)"

text \<open>\<^verbatim>\<open>/^[a-z0-9][a-z0-9._-]{2,63}$/\<close>\<close>

definition normalizeReviewUsername :: "string \<Rightarrow> reviewErrorCode + string" where
  "normalizeReviewUsername s =
    (let username = toLowerCase (trim s) in
     if \<not> (3 \<le> length username \<and> length username \<le> 64 \<and> lower_or_digit (hd username) \<and>
        list_all (\<lambda>c. lower_or_digit c \<or> c = CHR ''.'' \<or> c = CHR ''_'' \<or> c = CHR ''-'') (tl username))
     then Inl INVALID_INPUT else Inr username)"

definition normalizeThreadStatusTransition ::
    "reviewThreadStatus \<Rightarrow> reviewThreadStatus \<Rightarrow> reviewErrorCode + reviewThreadStatus \<times> reviewThreadStatus" where
  "normalizeThreadStatusTransition expectedStatus status =
    (if expectedStatus = status then Inl INVALID_INPUT else Inr (expectedStatus, status))"

text \<open>\<^verbatim>\<open>/^(?:0|[1-9][0-9]{0,18})$/\<close> and the bound of a signed 64-bit integer.\<close>

definition decimal_value :: "string \<Rightarrow> int" where
  "decimal_value s = foldl (\<lambda>n c. n * 10 + int (char_code c - 48)) 0 s"

definition normalizeReviewEventCursor :: "string option \<Rightarrow> reviewErrorCode + string" where
  "normalizeReviewEventCursor v =
    (let cursor = (case v of Some s \<Rightarrow> s | None \<Rightarrow> ''0'') in
     if \<not> (cursor = ''0'' \<or> (cursor \<noteq> [] \<and> length cursor \<le> 19 \<and> list_all is_digit cursor \<and> hd cursor \<noteq> CHR ''0''))
     then Inl INVALID_INPUT
     else if decimal_value cursor > 9223372036854775807 then Inl INVALID_INPUT
     else Inr cursor)"

definition normalizeReviewNotificationId :: "string \<Rightarrow> reviewErrorCode + string" where
  "normalizeReviewNotificationId v =
    (case normalizeReviewEventCursor (Some v) of
       Inl e \<Rightarrow> Inl e
     | Inr i \<Rightarrow> if i = ''0'' then Inl INVALID_INPUT else Inr i)"

text \<open>\<^verbatim>\<open>/^[A-Za-z0-9_-]+$/\<close>\<close>

definition normalizeOpaqueReviewId :: "string \<Rightarrow> reviewErrorCode + string" where
  "normalizeOpaqueReviewId s =
    (if length s = 0 \<or> length s > 128 \<or> \<not> list_all (\<lambda>c. is_alnum c \<or> c = CHR ''_'' \<or> c = CHR ''-'') s
     then Inl INVALID_INPUT else Inr s)"

definition normalizePinNumber :: "number \<Rightarrow> reviewErrorCode + number" where
  "normalizePinNumber v = (if \<not> positive_safe_int v then Inl INVALID_INPUT else Inr v)"

definition normalizeContentVersion :: "number \<Rightarrow> reviewErrorCode + number" where
  "normalizeContentVersion v = (if \<not> positive_safe_int v then Inl INVALID_INPUT else Inr v)"

definition normalizeAuthorizationVersion :: "number \<Rightarrow> reviewErrorCode + number" where
  "normalizeAuthorizationVersion v = (if \<not> positive_safe_int v then Inl INVALID_INPUT else Inr v)"

end
