(* ===== verification/ReviewRepository.thy ===== *)
theory ReviewRepository
  imports ReviewModel
begin

text \<open>
  The review repository, \<^verbatim>\<open>packages/review/src/in-memory-review-repository.ts\<close>, class
  \<^verbatim>\<open>InMemoryReviewRepository\<close>, and the results of its port \<^verbatim>\<open>ports.ts\<close>. A method that changes the
  repository returns its result with the new repository; the two thrown errors are values of
  \<open>reviewRepositoryError\<close>. \<^verbatim>\<open>localeCompare\<close>, whose order depends on the host's locale, is a parameter of
  the queries that sort by it. Page cursors are kept decoded.
\<close>

declare map_of_eq_Some_iff [simp del]

section \<open>State, access and results\<close>

record reviewRepository =
  projects :: "(string, reviewProject) jsmap"
  revisions :: "(string, reviewRevision) jsmap"
  bindings :: "(string, reviewTunnelBinding) jsmap"
  threads :: "(string, pageCommentThread) jsmap"
  events :: "reviewEvent list"
  notifications :: "reviewNotification list"
  accountUsernames :: "(string, string) jsmap"
  mentions :: "(string, string list) jsmap"
  pinCounters :: "(string, int) jsmap"
  nextEventId :: int
  nextNotificationId :: int

definition newReviewRepository :: reviewRepository where
  "newReviewRepository = \<lparr>projects = [], revisions = [], bindings = [], threads = [], events = [],
     notifications = [], accountUsernames = [], mentions = [], pinCounters = [],
     nextEventId = 1, nextNotificationId = 1\<rparr>"

record reviewAccess =
  ac_tunnelId :: "string option"
  ac_sessionId :: "string option"
  ac_controlProjectId :: "string option"

record bindReviewTunnelInput =
  bt_project :: reviewProject
  bt_revision :: reviewRevision
  bt_binding :: reviewTunnelBinding
  bt_actorUsername :: string

type_synonym reviewBindingContext = "reviewProject \<times> reviewRevision \<times> reviewTunnelBinding"

datatype bindReviewTunnelResult = BOUND reviewBindingContext | BIND_STALE_AUTHORIZATION | BIND_CONFLICT

datatype createPageCommentResult =
    CREATED_COMMENT pageCommentThread | CREATE_BINDING_NOT_FOUND | CREATE_STALE_AUTHORIZATION

datatype createReviewReplyResult =
    CREATED_REPLY reviewReply | REPLY_THREAD_NOT_FOUND | REPLY_STATE_CONFLICT | REPLY_STALE_AUTHORIZATION

datatype changePageCommentStatusResult =
    STATUS_REVIEWER_UNAVAILABLE | STATUS_UPDATED pageCommentThread | STATUS_THREAD_NOT_FOUND
  | STATUS_STATE_CONFLICT | STATUS_STALE_AUTHORIZATION

datatype listReviewEventsResult =
    EVENTS_FOUND "reviewEvent list" | EVENTS_CURSOR_EXPIRED | EVENTS_BINDING_NOT_FOUND | EVENTS_STALE_AUTHORIZATION

datatype listReviewNotificationsResult =
    NOTIFICATIONS_FOUND "reviewNotification list" | NOTIFICATIONS_BINDING_NOT_FOUND
  | NOTIFICATIONS_STALE_AUTHORIZATION

datatype setReviewNotificationReadResult =
    READ_UPDATED reviewNotification | READ_NOTIFICATION_NOT_FOUND | READ_BINDING_NOT_FOUND
  | READ_STALE_AUTHORIZATION

datatype 'a mutateReviewResult =
    UPDATED 'a | THREAD_NOT_FOUND | REPLY_NOT_FOUND | MUTATE_FORBIDDEN | MUTATE_STATE_CONFLICT
  | MUTATE_VERSION_CONFLICT | MUTATE_STALE_AUTHORIZATION

type_synonym mutateReviewCommentResult = "pageCommentThread mutateReviewResult"
type_synonym mutateReviewReplyResult = "reviewReply mutateReviewResult"

datatype reviewRepositoryError = CommentIdExists | ReviewThreadDisappeared

text \<open>
  \<^verbatim>\<open>return { status: decision }\<close>, reached only for a decision other than ALLOWED.
\<close>

fun mutation_refused :: "mutationDecision \<Rightarrow> 'a mutateReviewResult" where
  "mutation_refused MUTATION_FORBIDDEN = MUTATE_FORBIDDEN"
| "mutation_refused MUTATION_STATE_CONFLICT = MUTATE_STATE_CONFLICT"
| "mutation_refused MUTATION_VERSION_CONFLICT = MUTATE_VERSION_CONFLICT"
| "mutation_refused ALLOWED = MUTATE_STATE_CONFLICT"

section \<open>Private helpers\<close>

definition hasAccess :: "reviewRepository \<Rightarrow> reviewAccess \<Rightarrow> string \<Rightarrow> bool" where
  "hasAccess r a revisionId =
    (case ac_controlProjectId a of
       Some p \<Rightarrow> ac_tunnelId a = None \<and> ac_sessionId a = None \<and>
         map_option rev_projectId (map_get (revisions r) revisionId) = Some p
     | None \<Rightarrow>
         (case (case ac_tunnelId a of None \<Rightarrow> None | Some i \<Rightarrow> map_get (bindings r) i) of
            None \<Rightarrow> False
          | Some b \<Rightarrow> Some (bnd_sessionId b) = ac_sessionId a \<and> bnd_revisionId b = revisionId))"

record threadTarget =
  tg_threadId :: string
  tg_revisionId :: string
  tg_routePath :: string
  tg_access :: reviewAccess

definition findBoundThread :: "reviewRepository \<Rightarrow> threadTarget \<Rightarrow> pageCommentThread option" where
  "findBoundThread r input =
    (case map_get (threads r) (tg_threadId input) of
       None \<Rightarrow> None
     | Some t \<Rightarrow>
         if hasAccess r (tg_access input) (tg_revisionId input) \<and> thd_revisionId t = tg_revisionId input \<and>
            thd_routePath t = tg_routePath input
         then Some t else None)"

definition replaceReply :: "reviewRepository \<Rightarrow> pageCommentThread \<Rightarrow> reviewReply \<Rightarrow> int \<Rightarrow> reviewRepository" where
  "replaceReply r t reply changedAt = r\<lparr>threads := map_set (threads r) (thd_id t)
     (t\<lparr>thd_replies := map (\<lambda>c. if rep_id c = rep_id reply then reply else c) (thd_replies t),
        thd_updatedAt := changedAt\<rparr>)\<rparr>"

definition pin_key :: "string \<Rightarrow> string \<Rightarrow> string" where
  "pin_key revisionId routePath = revisionId @ CHR 0x00 # routePath"

definition nextPinNumber :: "reviewRepository \<Rightarrow> string \<Rightarrow> string \<Rightarrow> int \<times> reviewRepository" where
  "nextPinNumber r revisionId routePath =
    (let key = pin_key revisionId routePath;
         n = (case map_get (pinCounters r) key of Some k \<Rightarrow> k | None \<Rightarrow> 1)
     in (n, r\<lparr>pinCounters := map_set (pinCounters r) key (n + 1)\<rparr>))"

definition recordEvent ::
    "reviewRepository \<Rightarrow> reviewEventType \<Rightarrow> pageCommentThread \<Rightarrow> reviewIdentity \<Rightarrow> int \<Rightarrow> string option \<Rightarrow> reviewRepository" where
  "recordEvent r ty t actor occurredAt recipient =
    r\<lparr>events := events r @ [\<lparr>ev_id = nextEventId r, ev_revisionId = thd_revisionId t, ev_routePath = thd_routePath t,
        ev_threadId = thd_id t, ev_type = ty, ev_actor = actor, ev_occurredAt = occurredAt,
        ev_recipientAccountId = recipient\<rparr>],
      nextEventId := nextEventId r + 1\<rparr>"

fun mentionKey :: "reviewMentionContentType \<Rightarrow> string \<Rightarrow> string" where
  "mentionKey COMMENT i = ''COMMENT:'' @ i"
| "mentionKey REPLY i = ''REPLY:'' @ i"

text \<open>
  \<^verbatim>\<open>this.notifications.push({ id: String(this.#nextNotificationId++), ... })\<close> followed by the event
  for its recipient, as the three writers of notifications do it; \<open>n\<close> carries the other fields.
\<close>

definition pushNotification :: "reviewRepository \<Rightarrow> reviewNotification \<Rightarrow> pageCommentThread \<Rightarrow> reviewRepository" where
  "pushNotification r n t =
    recordEvent (r\<lparr>notifications := notifications r @ [n\<lparr>ntf_id := nextNotificationId r\<rparr>],
                   nextNotificationId := nextNotificationId r + 1\<rparr>)
      NOTIFICATION_CREATED t (ntf_actor n) (ntf_createdAt n) (Some (ntf_recipientAccountId n))"

definition thread_participants :: "pageCommentThread \<Rightarrow> string list" where
  "thread_participants t =
    idn_accountId (thd_author t) # map (\<lambda>p. idn_accountId (rep_author p)) (thd_replies t)"

definition mention_participants :: "reviewRepository \<Rightarrow> string \<Rightarrow> string list" where
  "mention_participants r revisionId =
    set_values
      ((case map_get (revisions r) revisionId of
          None \<Rightarrow> []
        | Some v \<Rightarrow> (case map_get (projects r) (rev_projectId v) of
            None \<Rightarrow> [] | Some p \<Rightarrow> [prj_ownerAccountId p])) @
       concat (map thread_participants (filter (\<lambda>t. thd_revisionId t = revisionId) (map_values (threads r)))))"

definition username_of :: "reviewRepository \<Rightarrow> string \<Rightarrow> string" where
  "username_of r i = (case map_get (accountUsernames r) i of Some u \<Rightarrow> u | None \<Rightarrow> [])"

definition eligible_mentions :: "reviewRepository \<Rightarrow> string \<Rightarrow> string list \<Rightarrow> string \<Rightarrow> string list" where
  "eligible_mentions r revisionId mentionUsernames actorId =
    filter (\<lambda>i. i \<noteq> actorId \<and> username_of r i \<in> set mentionUsernames) (mention_participants r revisionId)"

definition mention_notification ::
    "pageCommentThread \<Rightarrow> reviewMentionContentType \<Rightarrow> string \<Rightarrow> reviewIdentity \<Rightarrow> int \<Rightarrow> string \<Rightarrow> reviewNotification" where
  "mention_notification t ct contentId actor occurredAt recipient =
    \<lparr>ntf_id = 0, ntf_revisionId = thd_revisionId t, ntf_routePath = thd_routePath t, ntf_threadId = thd_id t,
     ntf_contentType = ct, ntf_contentId = contentId, ntf_reason = None, ntf_sourceKey = None,
     ntf_workflowVersion = None, ntf_recipientAccountId = recipient, ntf_actor = actor, ntf_readAt = None,
     ntf_createdAt = occurredAt\<rparr>"

definition syncMentions ::
    "reviewRepository \<Rightarrow> pageCommentThread \<Rightarrow> reviewMentionContentType \<Rightarrow> string \<Rightarrow> string list \<Rightarrow> reviewIdentity \<Rightarrow> int \<Rightarrow> reviewRepository" where
  "syncMentions r t ct contentId mentionUsernames actor occurredAt =
    (let eligible = eligible_mentions r (thd_revisionId t) mentionUsernames (idn_accountId actor);
         key = mentionKey ct contentId;
         previous = (case map_get (mentions r) key of Some s \<Rightarrow> s | None \<Rightarrow> [])
     in foldl (\<lambda>r recipient.
          if recipient \<in> set previous then r
          else pushNotification r (mention_notification t ct contentId actor occurredAt recipient) t)
        (r\<lparr>mentions := map_set (mentions r) key eligible\<rparr>) eligible)"

section \<open>Tunnel bindings\<close>

definition bindTunnel :: "reviewRepository \<Rightarrow> bindReviewTunnelInput \<Rightarrow> bindReviewTunnelResult \<times> reviewRepository" where
  "bindTunnel r input =
    (let r = r\<lparr>bindings := map_delete_if (\<lambda>b. bnd_expiresAt b \<le> bnd_createdAt (bt_binding input)) (bindings r)\<rparr>;
         r = r\<lparr>accountUsernames := map_set (accountUsernames r) (prj_ownerAccountId (bt_project input)) (bt_actorUsername input)\<rparr>;
         project = (case List.find (\<lambda>c. prj_ownerAccountId c = prj_ownerAccountId (bt_project input) \<and>
                        prj_slug c = prj_slug (bt_project input)) (map_values (projects r)) of
             Some p \<Rightarrow> p | None \<Rightarrow> bt_project input);
         revision = (case List.find (\<lambda>c. rev_projectId c = prj_id project \<and> rev_key c = rev_key (bt_revision input))
                        (map_values (revisions r)) of
             Some v \<Rightarrow> v | None \<Rightarrow> (bt_revision input)\<lparr>rev_projectId := prj_id project\<rparr>)
     in case map_get (bindings r) (bnd_tunnelId (bt_binding input)) of
          Some existing \<Rightarrow>
            if bnd_sessionId existing \<noteq> bnd_sessionId (bt_binding input) \<or>
               bnd_ownerAccountId existing \<noteq> bnd_ownerAccountId (bt_binding input) \<or>
               bnd_revisionId existing \<noteq> rev_id revision
            then (BIND_CONFLICT, r)
            else (BOUND (project, revision, existing), r)
        | None \<Rightarrow>
            let binding = (bt_binding input)\<lparr>bnd_revisionId := rev_id revision\<rparr>
            in (BOUND (project, revision, binding),
                r\<lparr>projects := map_set (projects r) (prj_id project) project,
                  revisions := map_set (revisions r) (rev_id revision) revision,
                  bindings := map_set (bindings r) (bnd_tunnelId binding) binding\<rparr>))"

definition findBindingContext :: "reviewRepository \<Rightarrow> string \<Rightarrow> string \<Rightarrow> reviewBindingContext option" where
  "findBindingContext r tunnelId sessionId =
    (case map_get (bindings r) tunnelId of
       None \<Rightarrow> None
     | Some b \<Rightarrow>
         if bnd_sessionId b \<noteq> sessionId then None
         else case map_get (revisions r) (bnd_revisionId b) of
           None \<Rightarrow> None
         | Some v \<Rightarrow> (case map_get (projects r) (rev_projectId v) of
             None \<Rightarrow> None | Some p \<Rightarrow> Some (p, v, b)))"

definition removeTunnelBinding :: "reviewRepository \<Rightarrow> string \<Rightarrow> string \<Rightarrow> reviewRepository" where
  "removeTunnelBinding r tunnelId sessionId =
    (if map_option bnd_sessionId (map_get (bindings r) tunnelId) = Some sessionId
     then r\<lparr>bindings := map_delete (bindings r) tunnelId\<rparr> else r)"

definition findRevisionContext ::
    "reviewRepository \<Rightarrow> string option \<Rightarrow> string \<Rightarrow> (reviewProject \<times> reviewRevision) option" where
  "findRevisionContext r projectId revisionId =
    (case map_get (revisions r) revisionId of
       None \<Rightarrow> None
     | Some v \<Rightarrow>
         if projectId \<noteq> None \<and> projectId \<noteq> Some (rev_projectId v) then None
         else case map_get (projects r) (rev_projectId v) of None \<Rightarrow> None | Some p \<Rightarrow> Some (p, v))"

section \<open>Comments, replies and the workflow\<close>

definition createPageComment ::
    "reviewRepository \<Rightarrow> pageCommentThread \<Rightarrow> string \<Rightarrow> string list \<Rightarrow> reviewAccess \<Rightarrow>
     (reviewRepositoryError + createPageCommentResult) \<times> reviewRepository" where
  "createPageComment r t actorUsername mentionUsernames access =
    (if \<not> hasAccess r access (thd_revisionId t) then (Inr CREATE_BINDING_NOT_FOUND, r)
     else if map_has (threads r) (thd_id t) then (Inl CommentIdExists, r)
     else
       let r = r\<lparr>accountUsernames := map_set (accountUsernames r) (idn_accountId (thd_author t)) actorUsername\<rparr>;
           (stored, r) = (case thd_anchor t of
               REGION_V1 _ \<Rightarrow> (let (n, r) = nextPinNumber r (thd_revisionId t) (thd_routePath t)
                              in (t\<lparr>thd_pinNumber := Some n\<rparr>, r))
             | PAGE \<Rightarrow> (t, r));
           r = r\<lparr>threads := map_set (threads r) (thd_id stored) stored\<rparr>;
           r = recordEvent r COMMENT_CREATED stored (thd_author stored) (thd_createdAt stored) None;
           r = syncMentions r stored COMMENT (thd_id stored) mentionUsernames (thd_author stored) (thd_createdAt stored)
       in (Inr (CREATED_COMMENT stored), r))"

definition reply_notification :: "pageCommentThread \<Rightarrow> reviewReply \<Rightarrow> string \<Rightarrow> reviewNotification" where
  "reply_notification t reply recipient =
    \<lparr>ntf_id = 0, ntf_revisionId = thd_revisionId t, ntf_routePath = thd_routePath t, ntf_threadId = thd_id t,
     ntf_contentType = REPLY, ntf_contentId = rep_id reply, ntf_reason = Some REASON_REPLY,
     ntf_sourceKey = Some (''reply:'' @ rep_id reply), ntf_workflowVersion = None,
     ntf_recipientAccountId = recipient, ntf_actor = rep_author reply, ntf_readAt = None,
     ntf_createdAt = rep_createdAt reply\<rparr>"

definition createReply ::
    "reviewRepository \<Rightarrow> reviewReply \<Rightarrow> string \<Rightarrow> string list \<Rightarrow> string \<Rightarrow> string \<Rightarrow> reviewAccess \<Rightarrow>
     createReviewReplyResult \<times> reviewRepository" where
  "createReply r reply actorUsername mentionUsernames revisionId routePath access =
    (case findBoundThread r \<lparr>tg_threadId = rep_threadId reply, tg_revisionId = revisionId,
            tg_routePath = routePath, tg_access = access\<rparr> of
       None \<Rightarrow> (REPLY_THREAD_NOT_FOUND, r)
     | Some t \<Rightarrow>
         if thd_status t = RESOLVED \<or> thd_deletedAt t \<noteq> None then (REPLY_STATE_CONFLICT, r)
         else
           let r = r\<lparr>accountUsernames := map_set (accountUsernames r) (idn_accountId (rep_author reply)) actorUsername\<rparr>;
               changed = t\<lparr>thd_replies := thd_replies t @ [reply], thd_updatedAt := rep_createdAt reply\<rparr>;
               r = r\<lparr>threads := map_set (threads r) (thd_id t) changed\<rparr>;
               r = recordEvent r REPLY_CREATED t (rep_author reply) (rep_createdAt reply) None;
               r = syncMentions r changed REPLY (rep_id reply) mentionUsernames (rep_author reply) (rep_createdAt reply);
               recipients = set_values (thread_participants t);
               r = foldl (\<lambda>r recipient.
                     if recipient = idn_accountId (rep_author reply) \<or>
                        list_ex (\<lambda>n. ntf_contentId n = rep_id reply \<and> ntf_recipientAccountId n = recipient) (notifications r)
                     then r
                     else pushNotification r (reply_notification t reply recipient) t) r recipients
           in (CREATED_REPLY reply, r))"

record changeStatusInput =
  cs_target :: threadTarget
  cs_expectedStatus :: reviewThreadStatus
  cs_expectedWorkflowVersion :: int
  cs_actorCanManageProject :: bool
  cs_status :: reviewThreadStatus
  cs_actor :: reviewIdentity
  cs_changedAt :: int

definition workflow_version :: "pageCommentThread \<Rightarrow> int" where
  "workflow_version t = (case thd_workflowVersion t of Some v \<Rightarrow> v | None \<Rightarrow> 1)"

definition workflow_history :: "pageCommentThread \<Rightarrow> workflowEntry list" where
  "workflow_history t = (case thd_workflowHistory t of Some h \<Rightarrow> h | None \<Rightarrow> [])"

definition workflow_request :: "pageCommentThread \<Rightarrow> workflowEntry option" where
  "workflow_request t = List.find (\<lambda>w. wfe_to w = NEEDS_REVIEW) (rev (workflow_history t))"

definition changed_status :: "pageCommentThread \<Rightarrow> changeStatusInput \<Rightarrow> pageCommentThread" where
  "changed_status t input =
    (let workflowVersion = workflow_version t + 1;
         history = workflow_history t @ [\<lparr>wfe_version = workflowVersion, wfe_from = thd_status t, wfe_to = cs_status input,
           wfe_actor = cs_actor input, wfe_changedAt = cs_changedAt input\<rparr>];
         base = t\<lparr>thd_resolvedBy := None, thd_resolvedAt := None\<rparr>
     in if cs_status input = RESOLVED
        then base\<lparr>thd_workflowVersion := Some workflowVersion, thd_workflowHistory := Some history,
               thd_status := RESOLVED, thd_resolvedBy := Some (cs_actor input),
               thd_resolvedAt := Some (cs_changedAt input), thd_updatedAt := cs_changedAt input\<rparr>
        else base\<lparr>thd_workflowVersion := Some workflowVersion, thd_workflowHistory := Some history,
               thd_status := cs_status input, thd_updatedAt := cs_changedAt input\<rparr>)"

definition digit_char :: "nat \<Rightarrow> char" where
  "digit_char n = char_of (48 + n)"

fun decimal_nat :: "nat \<Rightarrow> string" where
  "decimal_nat n = (if n < 10 then [digit_char n] else decimal_nat (n div 10) @ [digit_char (n mod 10)])"

declare decimal_nat.simps [simp del]

definition decimal :: "int \<Rightarrow> string" where
  "decimal i = (if i < 0 then CHR ''-'' # decimal_nat (nat (- i)) else decimal_nat (nat i))"

definition workflow_notification :: "pageCommentThread \<Rightarrow> changeStatusInput \<Rightarrow> string \<Rightarrow> reviewNotification" where
  "workflow_notification t input recipient =
    (let workflowVersion = workflow_version t + 1 in
     \<lparr>ntf_id = 0, ntf_revisionId = thd_revisionId t, ntf_routePath = thd_routePath t, ntf_threadId = thd_id t,
      ntf_contentType = COMMENT, ntf_contentId = thd_id t,
      ntf_reason = Some (if cs_status input = NEEDS_REVIEW then WORKFLOW_REQUEST else WORKFLOW_RESULT),
      ntf_sourceKey = Some (''workflow:'' @ thd_id t @ '':'' @ decimal workflowVersion),
      ntf_workflowVersion = Some (if cs_status input = NEEDS_REVIEW then workflowVersion
        else case workflow_request t of Some q \<Rightarrow> wfe_version q | None \<Rightarrow> workflowVersion),
      ntf_recipientAccountId = recipient, ntf_actor = cs_actor input, ntf_readAt = None,
      ntf_createdAt = cs_changedAt input\<rparr>)"

text \<open>The loop that marks the actor's own review request as read once it is answered.\<close>

definition read_request :: "pageCommentThread \<Rightarrow> changeStatusInput \<Rightarrow> workflowEntry \<Rightarrow> reviewNotification \<Rightarrow> reviewNotification" where
  "read_request t input request n =
    (if ntf_threadId n = thd_id t \<and> ntf_recipientAccountId n = idn_accountId (cs_actor input) \<and>
        ntf_reason n = Some WORKFLOW_REQUEST \<and> ntf_workflowVersion n = Some (wfe_version request)
     then n\<lparr>ntf_readAt := (case ntf_readAt n of Some at \<Rightarrow> Some at | None \<Rightarrow> Some (cs_changedAt input))\<rparr>
     else n)"

definition workflow_recipient :: "pageCommentThread \<Rightarrow> changeStatusInput \<Rightarrow> string option" where
  "workflow_recipient t input =
    (if cs_status input = NEEDS_REVIEW then Some (idn_accountId (thd_author t))
     else if thd_status t = NEEDS_REVIEW
       then map_option (\<lambda>q. idn_accountId (wfe_actor q)) (workflow_request t)
     else None)"

definition changePageCommentStatus ::
    "reviewRepository \<Rightarrow> changeStatusInput \<Rightarrow> changePageCommentStatusResult \<times> reviewRepository" where
  "changePageCommentStatus r input =
    (case findBoundThread r (cs_target input) of
       None \<Rightarrow> (STATUS_THREAD_NOT_FOUND, r)
     | Some t \<Rightarrow>
         if thd_status t \<noteq> cs_expectedStatus input \<or> workflow_version t \<noteq> cs_expectedWorkflowVersion input \<or>
            thd_deletedAt t \<noteq> None
         then (STATUS_STATE_CONFLICT, r)
         else if \<not> cs_actorCanManageProject input \<and>
            \<not> (idn_accountId (thd_author t) = idn_accountId (cs_actor input) \<and> thd_status t = NEEDS_REVIEW \<and>
               cs_status input \<noteq> NEEDS_REVIEW)
         then (STATUS_STALE_AUTHORIZATION, r)
         else
           let changed = changed_status t input;
               r = r\<lparr>threads := map_set (threads r) (thd_id t) changed\<rparr>;
               r = recordEvent r THREAD_STATUS_CHANGED changed (cs_actor input) (cs_changedAt input) None;
               r = (case workflow_request t of
                      Some q \<Rightarrow> if thd_status t = NEEDS_REVIEW
                        then r\<lparr>notifications := map (read_request t input q) (notifications r)\<rparr> else r
                    | None \<Rightarrow> r);
               r = (case workflow_recipient t input of
                      Some recipient \<Rightarrow>
                        if recipient \<noteq> idn_accountId (cs_actor input)
                        then pushNotification r (workflow_notification t input recipient) t else r
                    | None \<Rightarrow> r)
           in (STATUS_UPDATED changed, r))"

section \<open>Editing and deleting content\<close>

record updateInput =
  up_target :: threadTarget
  up_expectedVersion :: int
  up_body :: string
  up_actorUsername :: string
  up_mentionUsernames :: "string list"
  up_actor :: reviewIdentity
  up_changedAt :: int

record deleteInput =
  del_target :: threadTarget
  del_expectedVersion :: int
  del_actor :: reviewIdentity
  del_actorCanManageProject :: bool
  del_changedAt :: int

definition comment_check ::
    "mutationAction \<Rightarrow> reviewIdentity \<Rightarrow> bool \<Rightarrow> pageCommentThread \<Rightarrow> int \<Rightarrow> mutationDecision" where
  "comment_check action actor manage t expectedVersion =
    checkContentMutation \<lparr>cmc_action = action, cmc_actorAccountId = idn_accountId actor, cmc_canManageProject = manage,
      cmc_authorAccountId = idn_accountId (thd_author t), cmc_version = thd_version t,
      cmc_contentDeleted = (thd_deletedAt t \<noteq> None), cmc_threadStatus = thd_status t,
      cmc_threadDeleted = (thd_deletedAt t \<noteq> None), cmc_expectedVersion = expectedVersion\<rparr>"

definition reply_check ::
    "mutationAction \<Rightarrow> reviewIdentity \<Rightarrow> bool \<Rightarrow> pageCommentThread \<Rightarrow> reviewReply \<Rightarrow> int \<Rightarrow> mutationDecision" where
  "reply_check action actor manage t reply expectedVersion =
    checkContentMutation \<lparr>cmc_action = action, cmc_actorAccountId = idn_accountId actor, cmc_canManageProject = manage,
      cmc_authorAccountId = idn_accountId (rep_author reply), cmc_version = rep_version reply,
      cmc_contentDeleted = (rep_deletedAt reply \<noteq> None), cmc_threadStatus = thd_status t,
      cmc_threadDeleted = (thd_deletedAt t \<noteq> None), cmc_expectedVersion = expectedVersion\<rparr>"

definition updateComment :: "reviewRepository \<Rightarrow> updateInput \<Rightarrow> mutateReviewCommentResult \<times> reviewRepository" where
  "updateComment r input =
    (case findBoundThread r (up_target input) of
       None \<Rightarrow> (THREAD_NOT_FOUND, r)
     | Some t \<Rightarrow>
         let decision = comment_check UPDATE (up_actor input) False t (up_expectedVersion input) in
         if decision \<noteq> ALLOWED then (mutation_refused decision, r)
         else
           let changed = t\<lparr>thd_body := Some (up_body input), thd_version := thd_version t + 1,
                 thd_updatedAt := up_changedAt input\<rparr>;
               r = r\<lparr>threads := map_set (threads r) (thd_id t) changed\<rparr>;
               r = r\<lparr>accountUsernames := map_set (accountUsernames r) (idn_accountId (up_actor input)) (up_actorUsername input)\<rparr>;
               r = recordEvent r COMMENT_UPDATED changed (up_actor input) (up_changedAt input) None;
               r = syncMentions r changed COMMENT (thd_id changed) (up_mentionUsernames input) (up_actor input) (up_changedAt input)
           in (UPDATED changed, r))"

definition deleteComment :: "reviewRepository \<Rightarrow> deleteInput \<Rightarrow> mutateReviewCommentResult \<times> reviewRepository" where
  "deleteComment r input =
    (case findBoundThread r (del_target input) of
       None \<Rightarrow> (THREAD_NOT_FOUND, r)
     | Some t \<Rightarrow>
         let decision = comment_check DELETE (del_actor input) (del_actorCanManageProject input) t (del_expectedVersion input) in
         if decision \<noteq> ALLOWED then (mutation_refused decision, r)
         else
           let changed = t\<lparr>thd_body := None, thd_version := thd_version t + 1, thd_deletedBy := Some (del_actor input),
                 thd_deletedAt := Some (del_changedAt input), thd_updatedAt := del_changedAt input\<rparr>;
               r = r\<lparr>threads := map_set (threads r) (thd_id t) changed\<rparr>;
               r = r\<lparr>mentions := map_delete (mentions r) (mentionKey COMMENT (thd_id t))\<rparr>;
               r = recordEvent r COMMENT_DELETED changed (del_actor input) (del_changedAt input) None
           in (UPDATED changed, r))"

definition updateReply :: "reviewRepository \<Rightarrow> updateInput \<Rightarrow> string \<Rightarrow> mutateReviewReplyResult \<times> reviewRepository" where
  "updateReply r input replyId =
    (case findBoundThread r (up_target input) of
       None \<Rightarrow> (THREAD_NOT_FOUND, r)
     | Some t \<Rightarrow>
         (case List.find (\<lambda>c. rep_id c = replyId) (thd_replies t) of
            None \<Rightarrow> (REPLY_NOT_FOUND, r)
          | Some reply \<Rightarrow>
              let decision = reply_check UPDATE (up_actor input) False t reply (up_expectedVersion input) in
              if decision \<noteq> ALLOWED then (mutation_refused decision, r)
              else
                let changed = reply\<lparr>rep_body := Some (up_body input), rep_version := rep_version reply + 1,
                      rep_updatedAt := up_changedAt input\<rparr>;
                    r = replaceReply r t changed (up_changedAt input);
                    r = r\<lparr>accountUsernames := map_set (accountUsernames r) (idn_accountId (up_actor input)) (up_actorUsername input)\<rparr>;
                    r = recordEvent r REPLY_UPDATED t (up_actor input) (up_changedAt input) None;
                    r = syncMentions r (the (map_get (threads r) (thd_id t))) REPLY (rep_id changed)
                          (up_mentionUsernames input) (up_actor input) (up_changedAt input)
                in (UPDATED changed, r)))"

definition deleteReply :: "reviewRepository \<Rightarrow> deleteInput \<Rightarrow> string \<Rightarrow> mutateReviewReplyResult \<times> reviewRepository" where
  "deleteReply r input replyId =
    (case findBoundThread r (del_target input) of
       None \<Rightarrow> (THREAD_NOT_FOUND, r)
     | Some t \<Rightarrow>
         (case List.find (\<lambda>c. rep_id c = replyId) (thd_replies t) of
            None \<Rightarrow> (REPLY_NOT_FOUND, r)
          | Some reply \<Rightarrow>
              let decision = reply_check DELETE (del_actor input) (del_actorCanManageProject input) t reply (del_expectedVersion input) in
              if decision \<noteq> ALLOWED then (mutation_refused decision, r)
              else
                let changed = reply\<lparr>rep_body := None, rep_version := rep_version reply + 1, rep_deletedBy := Some (del_actor input),
                      rep_deletedAt := Some (del_changedAt input), rep_updatedAt := del_changedAt input\<rparr>;
                    r = replaceReply r t changed (del_changedAt input);
                    r = r\<lparr>mentions := map_delete (mentions r) (mentionKey REPLY (rep_id reply))\<rparr>;
                    r = recordEvent r REPLY_DELETED t (del_actor input) (del_changedAt input) None
                in (UPDATED changed, r)))"

section \<open>Notifications\<close>

record notificationReadInput =
  nr_notificationId :: int
  nr_revisionId :: string
  nr_routePath :: string
  nr_read :: bool
  nr_actor :: reviewIdentity
  nr_access :: reviewAccess
  nr_changedAt :: int

definition own_notification :: "notificationReadInput \<Rightarrow> reviewNotification \<Rightarrow> bool" where
  "own_notification input n =
    (ntf_id n = nr_notificationId input \<and> ntf_revisionId n = nr_revisionId input \<and>
     ntf_routePath n = nr_routePath input \<and> ntf_recipientAccountId n = idn_accountId (nr_actor input))"

fun findIndex :: "('a \<Rightarrow> bool) \<Rightarrow> 'a list \<Rightarrow> nat option" where
  "findIndex P [] = None"
| "findIndex P (x # xs) = (if P x then Some 0 else map_option Suc (findIndex P xs))"

definition setNotificationRead ::
    "reviewRepository \<Rightarrow> notificationReadInput \<Rightarrow>
     (reviewRepositoryError + setReviewNotificationReadResult) \<times> reviewRepository" where
  "setNotificationRead r input =
    (if \<not> hasAccess r (nr_access input) (nr_revisionId input) then (Inr READ_BINDING_NOT_FOUND, r)
     else case findIndex (own_notification input) (notifications r) of
       None \<Rightarrow> (Inr READ_NOTIFICATION_NOT_FOUND, r)
     | Some index \<Rightarrow>
         let current = notifications r ! index;
             changed = current\<lparr>ntf_readAt :=
               (if nr_read input
                then (case ntf_readAt current of Some at \<Rightarrow> Some at | None \<Rightarrow> Some (nr_changedAt input))
                else None)\<rparr>;
             r = r\<lparr>notifications := (notifications r)[index := changed]\<rparr>
         in case map_get (threads r) (ntf_threadId changed) of
              None \<Rightarrow> (Inl ReviewThreadDisappeared, r)
            | Some t \<Rightarrow> (Inr (READ_UPDATED changed),
                recordEvent r NOTIFICATION_READ_CHANGED t (nr_actor input) (nr_changedAt input)
                  (Some (idn_accountId (nr_actor input)))))"

section \<open>Queries\<close>

type_synonym position = "int \<times> string"

definition compareReviewPosition :: "(string \<Rightarrow> string \<Rightarrow> int) \<Rightarrow> position \<Rightarrow> position \<Rightarrow> int" where
  "compareReviewPosition localeCompare l r =
    (let time = fst l - fst r in if time = 0 then localeCompare (snd l) (snd r) else time)"

text \<open>\<^verbatim>\<open>encodeReviewPageCursor\<close> rejects an id that is not opaque; the cursor itself stays decoded.\<close>

definition page_cursor :: "position \<Rightarrow> reviewErrorCode + reviewPageCursor" where
  "page_cursor p =
    (case normalizeOpaqueReviewId (snd p) of
       Inl e \<Rightarrow> Inl e
     | Inr i \<Rightarrow> Inr \<lparr>cur_createdAt = fst p, cur_id = i, cur_scope = None\<rparr>)"

definition selectReviewPage ::
    "(string \<Rightarrow> string \<Rightarrow> int) \<Rightarrow> ('a \<Rightarrow> position) \<Rightarrow> 'a list \<Rightarrow> reviewPageCursor option \<Rightarrow> nat \<Rightarrow>
     reviewErrorCode + 'a list \<times> reviewPageInfo" where
  "selectReviewPage localeCompare pos xs before limit =
    (let descending = sort_by (\<lambda>l r. compareReviewPosition localeCompare (pos r) (pos l))
           (filter (\<lambda>x. case before of None \<Rightarrow> True
              | Some c \<Rightarrow> compareReviewPosition localeCompare (pos x) (cur_createdAt c, cur_id c) < 0) xs);
         hasMore = length descending > limit;
         selected = take limit descending
     in if hasMore \<and> selected \<noteq> []
        then (case page_cursor (pos (last selected)) of
                Inl e \<Rightarrow> Inl e
              | Inr c \<Rightarrow> Inr (rev selected, \<lparr>pgi_hasMore = hasMore, pgi_nextCursor = Some c\<rparr>))
        else Inr (rev selected, \<lparr>pgi_hasMore = hasMore, pgi_nextCursor = None\<rparr>))"

definition thread_position :: "pageCommentThread \<Rightarrow> position" where
  "thread_position t = (thd_createdAt t, thd_id t)"

definition reply_position :: "reviewReply \<Rightarrow> position" where
  "reply_position p = (rep_createdAt p, rep_id p)"

type_synonym pageCommentPageItem = "pageCommentThread \<times> reviewPageInfo"

definition findThread ::
    "(string \<Rightarrow> string \<Rightarrow> int) \<Rightarrow> reviewRepository \<Rightarrow> string \<Rightarrow> reviewErrorCode + pageCommentPageItem option" where
  "findThread localeCompare r threadId =
    (case map_get (threads r) threadId of
       None \<Rightarrow> Inr None
     | Some t \<Rightarrow> (case selectReviewPage localeCompare reply_position (thd_replies t) None 100 of
         Inl e \<Rightarrow> Inl e
       | Inr (items, info) \<Rightarrow> Inr (Some (t\<lparr>thd_replies := items\<rparr>, info))))"

record pageCommentPageInput =
  pc_revisionId :: string
  pc_routePath :: "string option"
  pc_before :: "reviewPageCursor option"
  pc_limit :: nat
  pc_replyLimit :: nat
  pc_summaryOnly :: bool
  pc_status :: "reviewThreadStatus option"
  pc_authorAccountId :: "string option"

record pageCommentPage =
  pcp_comments :: "pageCommentPageItem list"
  pcp_openCount :: int
  pcp_filteredCount :: int
  pcp_eventCursor :: int
  pcp_pageInfo :: reviewPageInfo

definition in_scope :: "pageCommentPageInput \<Rightarrow> string \<Rightarrow> string \<Rightarrow> bool" where
  "in_scope input revisionId routePath =
    (revisionId = pc_revisionId input \<and> (pc_routePath input = None \<or> Some routePath = pc_routePath input))"

definition passes_filter :: "pageCommentPageInput \<Rightarrow> pageCommentThread \<Rightarrow> bool" where
  "passes_filter input t =
    ((case pc_status input of None \<Rightarrow> True
      | Some s \<Rightarrow> if s = OPEN then thd_status t \<noteq> RESOLVED else thd_status t = s) \<and>
     (case pc_authorAccountId input of None \<Rightarrow> True | Some i \<Rightarrow> idn_accountId (thd_author t) = i))"

fun collect_items :: "('a \<Rightarrow> 'e + 'b) \<Rightarrow> 'a list \<Rightarrow> 'e + 'b list" where
  "collect_items f [] = Inr []"
| "collect_items f (x # xs) = result_bind (f x) (\<lambda>y. result_bind (collect_items f xs) (\<lambda>ys. Inr (y # ys)))"

definition page_item ::
    "(string \<Rightarrow> string \<Rightarrow> int) \<Rightarrow> pageCommentPageInput \<Rightarrow> pageCommentThread \<Rightarrow> reviewErrorCode + pageCommentPageItem" where
  "page_item localeCompare input t =
    (if pc_summaryOnly input
     then Inr (t\<lparr>thd_replies := []\<rparr>, \<lparr>pgi_hasMore = False, pgi_nextCursor = None\<rparr>)
     else result_bind (selectReviewPage localeCompare reply_position (thd_replies t) None (pc_replyLimit input))
       (\<lambda>(items, info). Inr (t\<lparr>thd_replies := items\<rparr>, info)))"

definition listPageCommentPage ::
    "(string \<Rightarrow> string \<Rightarrow> int) \<Rightarrow> reviewRepository \<Rightarrow> pageCommentPageInput \<Rightarrow> reviewErrorCode + pageCommentPage" where
  "listPageCommentPage localeCompare r input =
    (let scopedEvents = filter (\<lambda>e. in_scope input (ev_revisionId e) (ev_routePath e)) (events r);
         eventCursor = (if scopedEvents = [] then 0 else ev_id (last scopedEvents));
         scoped = filter (\<lambda>t. in_scope input (thd_revisionId t) (thd_routePath t)) (map_values (threads r));
         filtered = filter (passes_filter input) scoped
     in result_bind (selectReviewPage localeCompare thread_position filtered (pc_before input) (pc_limit input))
       (\<lambda>(items, info). result_bind (collect_items (page_item localeCompare input) items)
         (\<lambda>comments. Inr \<lparr>pcp_comments = comments, pcp_openCount = int (length (filter isOpenReviewThread scoped)),
            pcp_filteredCount = int (length filtered), pcp_eventCursor = eventCursor, pcp_pageInfo = info\<rparr>)))"

definition listReplyPage ::
    "(string \<Rightarrow> string \<Rightarrow> int) \<Rightarrow> reviewRepository \<Rightarrow> string \<Rightarrow> string \<Rightarrow> string \<Rightarrow> reviewPageCursor option \<Rightarrow> nat \<Rightarrow>
     reviewErrorCode + (reviewReply list \<times> reviewThreadStatus \<times> reviewPageInfo) option" where
  "listReplyPage localeCompare r revisionId routePath threadId before limit =
    (case map_get (threads r) threadId of
       None \<Rightarrow> Inr None
     | Some t \<Rightarrow>
         if thd_revisionId t \<noteq> revisionId \<or> thd_routePath t \<noteq> routePath then Inr None
         else result_bind (selectReviewPage localeCompare reply_position (thd_replies t) before limit)
           (\<lambda>(items, info). Inr (Some (items, thd_status t, info))))"

record listEventsInput =
  le_revisionId :: string
  le_routePath :: string
  le_afterId :: int
  le_limit :: nat
  le_actorAccountId :: string
  le_access :: reviewAccess

definition visible_event :: "listEventsInput \<Rightarrow> reviewEvent \<Rightarrow> bool" where
  "visible_event input e =
    (ev_revisionId e = le_revisionId input \<and> ev_routePath e = le_routePath input \<and>
     (ev_recipientAccountId e = None \<or> ev_recipientAccountId e = Some (le_actorAccountId input)))"

definition listReviewEvents :: "reviewRepository \<Rightarrow> listEventsInput \<Rightarrow> listReviewEventsResult" where
  "listReviewEvents r input =
    (if \<not> hasAccess r (le_access input) (le_revisionId input) then EVENTS_BINDING_NOT_FOUND
     else EVENTS_FOUND (take (le_limit input)
       (filter (\<lambda>e. visible_event input e \<and> ev_id e > le_afterId input) (events r))))"

definition listNotifications ::
    "reviewRepository \<Rightarrow> string \<Rightarrow> string \<Rightarrow> nat \<Rightarrow> string \<Rightarrow> reviewAccess \<Rightarrow> listReviewNotificationsResult" where
  "listNotifications r revisionId routePath limit actorAccountId access =
    (if \<not> hasAccess r access revisionId then NOTIFICATIONS_BINDING_NOT_FOUND
     else NOTIFICATIONS_FOUND (take limit (sort_by (\<lambda>l r. ntf_id r - ntf_id l)
       (filter (\<lambda>n. ntf_revisionId n = revisionId \<and> ntf_routePath n = routePath \<and>
          ntf_recipientAccountId n = actorAccountId) (notifications r)))))"

record inboxPage =
  ibx_notifications :: "reviewNotification list"
  ibx_unreadCount :: int
  ibx_nextCursor :: "int option"

definition listInbox :: "reviewRepository \<Rightarrow> string \<Rightarrow> int option \<Rightarrow> bool \<Rightarrow> inboxPage" where
  "listInbox r actorAccountId before unreadOnly =
    (let own = filter (\<lambda>n. ntf_recipientAccountId n = actorAccountId) (notifications r);
         rows = sort_by (\<lambda>a b. ntf_id b - ntf_id a)
           (filter (\<lambda>n. (\<not> unreadOnly \<or> ntf_readAt n = None) \<and>
              (case before of None \<Rightarrow> True | Some b \<Rightarrow> ntf_id n < b)) own)
     in \<lparr>ibx_notifications = take 50 rows, ibx_unreadCount = int (length (filter (\<lambda>n. ntf_readAt n = None) own)),
         ibx_nextCursor = (if length rows > 50 then Some (ntf_id (rows ! 49)) else None)\<rparr>)"

definition findNotificationForAccount :: "reviewRepository \<Rightarrow> int \<Rightarrow> string \<Rightarrow> reviewNotification option" where
  "findNotificationForAccount r i accountId =
    List.find (\<lambda>n. ntf_id n = i \<and> ntf_recipientAccountId n = accountId) (notifications r)"

definition listMentionCandidates ::
    "(string \<Rightarrow> string \<Rightarrow> int) \<Rightarrow> reviewRepository \<Rightarrow> string \<Rightarrow> string \<Rightarrow> (string \<times> string) list" where
  "listMentionCandidates localeCompare r revisionId pfx =
    (let projectId = (case map_get (revisions r) revisionId of Some v \<Rightarrow> rev_projectId v | None \<Rightarrow> []);
         participants = (case map_get (projects r) projectId of
           Some p \<Rightarrow> [(prj_ownerAccountId p, username_of r (prj_ownerAccountId p))] | None \<Rightarrow> []);
         authors = concat (map (\<lambda>t. thd_author t # map rep_author (thd_replies t))
           (filter (\<lambda>t. thd_revisionId t = revisionId) (map_values (threads r))));
         participants = foldl (\<lambda>m a. map_set m (idn_accountId a) (idn_displayName a)) participants authors
     in take 20 (sort_by (\<lambda>a b. localeCompare (fst a) (fst b))
          (filter (\<lambda>c. fst c \<noteq> [] \<and> startsWith (fst c) pfx)
            (map (\<lambda>(i, displayName). (username_of r i, displayName)) participants))))"

definition project_threads :: "reviewRepository \<Rightarrow> string \<Rightarrow> pageCommentThread list" where
  "project_threads r projectId =
    (let revs = map rev_id (filter (\<lambda>v. rev_projectId v = projectId) (map_values (revisions r)))
     in filter (\<lambda>t. thd_revisionId t \<in> set revs) (map_values (threads r)))"

definition listProjects :: "reviewRepository \<Rightarrow> (reviewProject \<times> int \<times> int) list" where
  "listProjects r =
    sort_by (\<lambda>(_, _, left) (_, _, right). right - left)
      (map (\<lambda>p. let ts = project_threads r (prj_id p) in
         (p, int (length (filter isOpenReviewThread ts)), fold max (map thd_updatedAt ts) (prj_createdAt p)))
       (map_values (projects r)))"

definition listRevisions :: "(string \<Rightarrow> string \<Rightarrow> int) \<Rightarrow> reviewRepository \<Rightarrow> string \<Rightarrow> (reviewRevision \<times> int) list" where
  "listRevisions localeCompare r projectId =
    sort_by (\<lambda>(left, _) (right, _). let d = rev_createdAt right - rev_createdAt left in
        if d \<noteq> 0 then d else localeCompare (rev_id right) (rev_id left))
      (map (\<lambda>v. (v, int (length (filter (\<lambda>t. thd_revisionId t = rev_id v \<and> isOpenReviewThread t) (map_values (threads r))))))
        (filter (\<lambda>v. rev_projectId v = projectId) (map_values (revisions r))))"

end
