(* ===== verification/ReviewInvariants.thy ===== *)
theory ReviewInvariants
  imports ReviewRepository "HOL-Library.Sublist"
begin

text \<open>
  What the review repository keeps under every sequence of calls: its maps are keyed by the ids of
  their records, every binding, revision and thread refers to something stored, projects and revisions
  are unique under their owner's slug and project's key, a thread's body, deletion, resolution,
  workflow history and pin agree with each other, event and notification ids count up without a gap,
  and every notification is announced to its recipient by one event.
\<close>

declare map_of_eq_Some_iff [simp del]

section \<open>The machine of all calls that change the repository\<close>

text \<open>The records the review service hands to \<^verbatim>\<open>createPageComment\<close> and \<^verbatim>\<open>createReply\<close>.\<close>

definition new_comment ::
    "string \<Rightarrow> string \<Rightarrow> string \<Rightarrow> reviewAnchor \<Rightarrow> string \<Rightarrow> reviewIdentity \<Rightarrow> int \<Rightarrow> pageCommentThread" where
  "new_comment i revisionId routePath anchor body author createdAt =
    \<lparr>thd_id = i, thd_revisionId = revisionId, thd_routePath = routePath, thd_anchor = anchor, thd_pinNumber = None,
     thd_body = Some body, thd_version = 1, thd_status = OPEN, thd_workflowVersion = None, thd_workflowHistory = None,
     thd_author = author, thd_resolvedBy = None, thd_resolvedAt = None, thd_deletedBy = None, thd_deletedAt = None,
     thd_replies = [], thd_createdAt = createdAt, thd_updatedAt = createdAt\<rparr>"

definition new_reply :: "string \<Rightarrow> string \<Rightarrow> string \<Rightarrow> reviewIdentity \<Rightarrow> int \<Rightarrow> reviewReply" where
  "new_reply i threadId body author createdAt =
    \<lparr>rep_id = i, rep_threadId = threadId, rep_body = Some body, rep_version = 1, rep_author = author,
     rep_deletedBy = None, rep_deletedAt = None, rep_createdAt = createdAt, rep_updatedAt = createdAt\<rparr>"

datatype reviewOp =
    BindTunnel bindReviewTunnelInput
  | RemoveTunnelBinding string string
  | CreatePageComment string string string reviewAnchor string reviewIdentity int string "string list" reviewAccess
  | CreateReply string string string reviewIdentity int string "string list" string string reviewAccess
  | ChangePageCommentStatus changeStatusInput
  | UpdateComment updateInput
  | DeleteComment deleteInput
  | UpdateReply updateInput string
  | DeleteReply deleteInput string
  | SetNotificationRead notificationReadInput

fun review_step :: "reviewRepository \<Rightarrow> reviewOp \<Rightarrow> reviewRepository" where
  "review_step r (BindTunnel input) = snd (bindTunnel r input)"
| "review_step r (RemoveTunnelBinding i s) = removeTunnelBinding r i s"
| "review_step r (CreatePageComment i rv route anchor body author at username names access) =
     snd (createPageComment r (new_comment i rv route anchor body author at) username names access)"
| "review_step r (CreateReply i threadId body author at username names rv route access) =
     snd (createReply r (new_reply i threadId body author at) username names rv route access)"
| "review_step r (ChangePageCommentStatus input) = snd (changePageCommentStatus r input)"
| "review_step r (UpdateComment input) = snd (updateComment r input)"
| "review_step r (DeleteComment input) = snd (deleteComment r input)"
| "review_step r (UpdateReply input i) = snd (updateReply r input i)"
| "review_step r (DeleteReply input i) = snd (deleteReply r input i)"
| "review_step r (SetNotificationRead input) = snd (setNotificationRead r input)"

section \<open>What the logging helpers leave alone\<close>

lemma recordEvent_frame [simp]:
  "projects (recordEvent r ty t a at rcp) = projects r" "revisions (recordEvent r ty t a at rcp) = revisions r"
  "bindings (recordEvent r ty t a at rcp) = bindings r" "threads (recordEvent r ty t a at rcp) = threads r"
  "pinCounters (recordEvent r ty t a at rcp) = pinCounters r"
  "notifications (recordEvent r ty t a at rcp) = notifications r"
  by (simp_all add: recordEvent_def)

lemma pushNotification_frame [simp]:
  "projects (pushNotification r n t) = projects r" "revisions (pushNotification r n t) = revisions r"
  "bindings (pushNotification r n t) = bindings r" "threads (pushNotification r n t) = threads r"
  "pinCounters (pushNotification r n t) = pinCounters r"
  by (simp_all add: pushNotification_def)

text \<open>A loop over recipients that pushes a notification for some of them.\<close>

lemma push_loop_frame:
  "projects (foldl (\<lambda>r x. if P r x then r else pushNotification r (f x) t) r xs) = projects r"
  "revisions (foldl (\<lambda>r x. if P r x then r else pushNotification r (f x) t) r xs) = revisions r"
  "bindings (foldl (\<lambda>r x. if P r x then r else pushNotification r (f x) t) r xs) = bindings r"
  "threads (foldl (\<lambda>r x. if P r x then r else pushNotification r (f x) t) r xs) = threads r"
  "pinCounters (foldl (\<lambda>r x. if P r x then r else pushNotification r (f x) t) r xs) = pinCounters r"
  by (induction xs arbitrary: r) simp_all

lemma syncMentions_frame [simp]:
  "projects (syncMentions r t ct i names a at) = projects r"
  "revisions (syncMentions r t ct i names a at) = revisions r"
  "bindings (syncMentions r t ct i names a at) = bindings r"
  "threads (syncMentions r t ct i names a at) = threads r"
  "pinCounters (syncMentions r t ct i names a at) = pinCounters r"
  by (simp_all add: syncMentions_def Let_def push_loop_frame)

section \<open>The event and notification log\<close>

definition located :: "reviewRepository \<Rightarrow> string \<Rightarrow> string \<Rightarrow> string \<Rightarrow> bool" where
  "located r i rv route =
    (\<exists>t. map_get (threads r) i = Some t \<and> thd_revisionId t = rv \<and> thd_routePath t = route)"

definition announced :: "reviewEvent \<Rightarrow> string option \<times> string \<times> string \<times> string \<times> reviewIdentity \<times> int" where
  "announced e = (ev_recipientAccountId e, ev_threadId e, ev_revisionId e, ev_routePath e, ev_actor e, ev_occurredAt e)"

definition announcement :: "reviewNotification \<Rightarrow> string option \<times> string \<times> string \<times> string \<times> reviewIdentity \<times> int" where
  "announcement n = (Some (ntf_recipientAccountId n), ntf_threadId n, ntf_revisionId n, ntf_routePath n,
     ntf_actor n, ntf_createdAt n)"

definition count_up :: "int list \<Rightarrow> bool" where
  "count_up ns = (ns = map (\<lambda>i. int i + 1) [0..<length ns])"

definition announcement_ok :: "reviewRepository \<Rightarrow> string option \<times> string \<times> string \<times> string \<times> reviewIdentity \<times> int \<Rightarrow> bool" where
  "announcement_ok r a = (case a of (rcp, i, rv, route, actor, at) \<Rightarrow>
     located r i rv route \<and> rcp \<noteq> Some (idn_accountId actor))"

definition log_inv :: "reviewRepository \<Rightarrow> bool" where
  "log_inv r =
    (nextEventId r = int (length (events r)) + 1 \<and> count_up (map ev_id (events r)) \<and>
     nextNotificationId r = int (length (notifications r)) + 1 \<and> count_up (map ntf_id (notifications r)) \<and>
     (\<forall>e \<in> set (events r). located r (ev_threadId e) (ev_revisionId e) (ev_routePath e)) \<and>
     (\<forall>a \<in> set (map announcement (notifications r)). announcement_ok r a) \<and>
     map announced (filter (\<lambda>e. ev_type e = NOTIFICATION_CREATED) (events r)) = map announcement (notifications r))"

lemma count_up_Nil [simp]: "count_up []"
  by (simp add: count_up_def)

lemma count_up_snoc [simp]: "count_up (ns @ [i]) = (count_up ns \<and> i = int (length ns) + 1)"
  by (auto simp: count_up_def)

lemma log_inv_cong:
  assumes "log_inv r" "\<And>i rv route. located r i rv route \<Longrightarrow> located r' i rv route"
    "events r' = events r" "nextEventId r' = nextEventId r" "nextNotificationId r' = nextNotificationId r"
    "map ntf_id (notifications r') = map ntf_id (notifications r)"
    "map announcement (notifications r') = map announcement (notifications r)"
  shows "log_inv r'"
proof -
  have "length (notifications r') = length (notifications r)" using assms(6) by (metis length_map)
  with assms show ?thesis by (auto simp: log_inv_def announcement_ok_def split_beta simp del: set_map)
qed

lemma located_threads: "threads r' = threads r \<Longrightarrow> located r' = located r"
  by (intro ext) (simp add: located_def)

lemma log_inv_record:
  assumes "log_inv r" "located r (thd_id t) (thd_revisionId t) (thd_routePath t)" "ty \<noteq> NOTIFICATION_CREATED"
  shows "log_inv (recordEvent r ty t a at rcp)"
  using assms located_threads [of "recordEvent r ty t a at rcp" r]
  by (simp add: log_inv_def recordEvent_def announcement_ok_def split_beta)

definition notifies :: "pageCommentThread \<Rightarrow> reviewNotification \<Rightarrow> bool" where
  "notifies t n = (ntf_threadId n = thd_id t \<and> ntf_revisionId n = thd_revisionId t \<and> ntf_routePath n = thd_routePath t \<and>
     ntf_recipientAccountId n \<noteq> idn_accountId (ntf_actor n))"

lemma log_inv_push:
  assumes "log_inv r" "located r (thd_id t) (thd_revisionId t) (thd_routePath t)" "notifies t n"
  shows "log_inv (pushNotification r n t)"
  using assms located_threads [of "pushNotification r n t" r]
  by (simp add: log_inv_def pushNotification_def recordEvent_def announcement_ok_def notifies_def announcement_def
      announced_def split_beta)

lemma log_inv_push_loop:
  assumes "log_inv r" "located r (thd_id t) (thd_revisionId t) (thd_routePath t)"
    "\<And>r x. x \<in> set xs \<Longrightarrow> \<not> P r x \<Longrightarrow> notifies t (f x)"
  shows "log_inv (foldl (\<lambda>r x. if P r x then r else pushNotification r (f x) t) r xs)"
  using assms
proof (induction xs arbitrary: r)
  case (Cons x xs)
  have "log_inv (if P r x then r else pushNotification r (f x) t)"
    using Cons.prems by (simp add: log_inv_push)
  moreover have "located (if P r x then r else pushNotification r (f x) t) (thd_id t) (thd_revisionId t) (thd_routePath t)"
    using Cons.prems by (simp add: located_def)
  ultimately show ?case using Cons by simp
qed simp

lemma log_inv_sync:
  assumes "log_inv r" "located r (thd_id t) (thd_revisionId t) (thd_routePath t)"
  shows "log_inv (syncMentions r t ct i names a at)"
proof -
  have "log_inv (r\<lparr>mentions := m\<rparr>)" for m
    using assms(1) by (rule log_inv_cong) (simp_all add: located_def)
  moreover have "located (r\<lparr>mentions := m\<rparr>) (thd_id t) (thd_revisionId t) (thd_routePath t)" for m
    using assms(2) by (simp add: located_def)
  ultimately show ?thesis
    unfolding syncMentions_def Let_def
    by (rule log_inv_push_loop) (auto simp: notifies_def mention_notification_def eligible_mentions_def)
qed

section \<open>The stored records\<close>

definition keyed :: "('v \<Rightarrow> 'k) \<Rightarrow> ('k, 'v) jsmap \<Rightarrow> bool" where
  "keyed key m = (wf_map m \<and> (\<forall>k v. map_get m k = Some v \<longrightarrow> key v = k))"

definition unique_by :: "('v \<Rightarrow> 'u) \<Rightarrow> ('k, 'v) jsmap \<Rightarrow> bool" where
  "unique_by f m = (\<forall>k j v w. map_get m k = Some v \<and> map_get m j = Some w \<and> f v = f w \<longrightarrow> k = j)"

lemma keyed_set: "keyed key m \<Longrightarrow> key v = k \<Longrightarrow> keyed key (map_set m k v)"
  by (simp add: keyed_def map_get_set)

lemma keyed_subset: "keyed key m \<Longrightarrow> keyed key (map_delete m k)" "keyed key m \<Longrightarrow> keyed key (map_delete_if P m)"
  by (auto simp: keyed_def map_get_delete map_get_delete_if split: option.splits if_splits)

lemma keyedD: "keyed key m \<Longrightarrow> map_get m k = Some v \<Longrightarrow> key v = k"
  by (simp add: keyed_def)

lemma keyed_find:
  assumes "keyed key m" "List.find P (map_values m) = Some v"
  shows "map_get m (key v) = Some v"
proof -
  from assms(2) have "v \<in> set (map_values m)" by (auto simp: find_Some_iff)
  with assms(1) obtain k where "map_get m k = Some v" unfolding keyed_def by (metis map_values_get)
  with assms(1) show ?thesis by (auto simp: keyed_def)
qed

lemma unique_by_set_new:
  assumes "keyed key m" "unique_by f m" "List.find (\<lambda>c. f c = f v) (map_values m) = None"
  shows "unique_by f (map_set m k v)"
proof -
  have "f w \<noteq> f v" if "map_get m j = Some w" for j w
    using assms(3) map_get_in_values [OF that] by (auto simp: find_None_iff)
  with assms(2) show ?thesis unfolding unique_by_def map_get_set by (metis option.inject)
qed

text \<open>The workflow entries lead from one status and version to another without a gap.\<close>

fun workflow_chain :: "reviewThreadStatus \<Rightarrow> int \<Rightarrow> workflowEntry list \<Rightarrow> reviewThreadStatus \<Rightarrow> int \<Rightarrow> bool" where
  "workflow_chain s v [] s' v' = (s = s' \<and> v = v')"
| "workflow_chain s v (w # ws) s' v' =
     (wfe_from w = s \<and> wfe_version w = v + 1 \<and> workflow_chain (wfe_to w) (v + 1) ws s' v')"

lemma workflow_chain_snoc:
  "workflow_chain s v (ws @ [w]) s' v' \<longleftrightarrow>
   v' = wfe_version w \<and> s' = wfe_to w \<and> workflow_chain s v ws (wfe_from w) (wfe_version w - 1)"
  by (induction ws arbitrary: s v) auto

definition reply_ok :: "string \<Rightarrow> reviewReply \<Rightarrow> bool" where
  "reply_ok i p = (rep_threadId p = i \<and> 1 \<le> rep_version p \<and> (rep_body p = None) = (rep_deletedAt p \<noteq> None) \<and>
     (rep_deletedBy p = None) = (rep_deletedAt p = None))"

definition thread_ok :: "pageCommentThread \<Rightarrow> bool" where
  "thread_ok t =
    (1 \<le> thd_version t \<and> (thd_body t = None) = (thd_deletedAt t \<noteq> None) \<and>
     (thd_deletedBy t = None) = (thd_deletedAt t = None) \<and>
     (thd_resolvedAt t \<noteq> None) = (thd_status t = RESOLVED) \<and> (thd_resolvedBy t = None) = (thd_resolvedAt t = None) \<and>
     (thd_pinNumber t = None) = (thd_anchor t = PAGE) \<and>
     workflow_chain OPEN 1 (workflow_history t) (thd_status t) (workflow_version t) \<and>
     (\<forall>p \<in> set (thd_replies t). reply_ok (thd_id t) p))"

definition next_pin :: "reviewRepository \<Rightarrow> string \<Rightarrow> int" where
  "next_pin r key = (case map_get (pinCounters r) key of Some n \<Rightarrow> n | None \<Rightarrow> 1)"

definition pinned :: "pageCommentThread \<Rightarrow> string \<times> string \<times> int option" where
  "pinned t = (thd_revisionId t, thd_routePath t, thd_pinNumber t)"

definition pins_inv :: "reviewRepository \<Rightarrow> bool" where
  "pins_inv r =
    ((\<forall>key. 1 \<le> next_pin r key) \<and>
     (\<forall>k t n. map_get (threads r) k = Some t \<and> thd_pinNumber t = Some n \<longrightarrow>
        1 \<le> n \<and> n < next_pin r (pin_key (thd_revisionId t) (thd_routePath t))) \<and>
     (\<forall>k j t u. map_get (threads r) k = Some t \<and> map_get (threads r) j = Some u \<and>
        thd_pinNumber t \<noteq> None \<and> pinned t = pinned u \<longrightarrow> k = j))"

definition store_inv :: "reviewRepository \<Rightarrow> bool" where
  "store_inv r =
    (keyed prj_id (projects r) \<and> keyed rev_id (revisions r) \<and> keyed bnd_tunnelId (bindings r) \<and>
     keyed thd_id (threads r) \<and>
     (\<forall>k b. map_get (bindings r) k = Some b \<longrightarrow> map_has (revisions r) (bnd_revisionId b)) \<and>
     (\<forall>k v. map_get (revisions r) k = Some v \<longrightarrow> map_has (projects r) (rev_projectId v)) \<and>
     (\<forall>k t. map_get (threads r) k = Some t \<longrightarrow> map_has (revisions r) (thd_revisionId t) \<and> thread_ok t) \<and>
     unique_by (\<lambda>p. (prj_ownerAccountId p, prj_slug p)) (projects r) \<and>
     unique_by (\<lambda>v. (rev_projectId v, rev_key v)) (revisions r) \<and>
     pins_inv r)"

definition review_inv :: "reviewRepository \<Rightarrow> bool" where
  "review_inv r = (store_inv r \<and> log_inv r)"

lemma pins_inv_cong:
  "pinCounters r' = pinCounters r \<Longrightarrow> threads r' = threads r \<Longrightarrow> pins_inv r' = pins_inv r"
  by (simp add: pins_inv_def next_pin_def)

lemma store_inv_cong:
  "projects r' = projects r \<Longrightarrow> revisions r' = revisions r \<Longrightarrow> bindings r' = bindings r \<Longrightarrow> threads r' = threads r \<Longrightarrow>
   pinCounters r' = pinCounters r \<Longrightarrow> store_inv r' = store_inv r"
  by (simp add: store_inv_def pins_inv_cong [of r' r])

lemma store_inv_log [simp]:
  "store_inv (recordEvent r ty t a at rcp) = store_inv r"
  "store_inv (pushNotification r n t) = store_inv r"
  "store_inv (syncMentions r t ct i names a at) = store_inv r"
  "store_inv (r\<lparr>mentions := m\<rparr>) = store_inv r"
  "store_inv (r\<lparr>accountUsernames := us\<rparr>) = store_inv r"
  "store_inv (r\<lparr>notifications := ns\<rparr>) = store_inv r"
  by (rule store_inv_cong; simp)+

lemma thread_at_id: "store_inv r \<Longrightarrow> map_get (threads r) k = Some t \<Longrightarrow> thd_id t = k"
  by (auto simp: store_inv_def dest: keyedD)

lemma thread_at_ok: "store_inv r \<Longrightarrow> map_get (threads r) k = Some t \<Longrightarrow> thread_ok t"
  by (simp add: store_inv_def)

text \<open>Everything about a thread that no call changes.\<close>

definition same_place :: "pageCommentThread \<Rightarrow> pageCommentThread \<Rightarrow> bool" where
  "same_place t u = (thd_id u = thd_id t \<and> thd_revisionId u = thd_revisionId t \<and> thd_routePath u = thd_routePath t \<and>
     thd_anchor u = thd_anchor t \<and> thd_pinNumber u = thd_pinNumber t \<and> thd_author u = thd_author t \<and>
     thd_createdAt u = thd_createdAt t)"

lemma pins_bound:
  "pins_inv r \<Longrightarrow> map_get (threads r) k = Some t \<Longrightarrow> thd_pinNumber t = Some n \<Longrightarrow>
   1 \<le> n \<and> n < next_pin r (pin_key (thd_revisionId t) (thd_routePath t))"
  unfolding pins_inv_def by blast

lemma pins_unique:
  "pins_inv r \<Longrightarrow> map_get (threads r) k = Some t \<Longrightarrow> map_get (threads r) j = Some u \<Longrightarrow> thd_pinNumber t \<noteq> None \<Longrightarrow>
   pinned t = pinned u \<Longrightarrow> k = j"
  unfolding pins_inv_def by blast

lemma pins_inv_set:
  assumes "pins_inv r" "map_get (threads r) k = Some t" "same_place t u"
  shows "pins_inv (r\<lparr>threads := map_set (threads r) k u\<rparr>)"
proof -
  let ?r = "r\<lparr>threads := map_set (threads r) k u\<rparr>"
  have origin: "\<exists>w. map_get (threads r) j = Some w \<and> thd_pinNumber w = thd_pinNumber v \<and> pinned w = pinned v \<and>
      thd_revisionId w = thd_revisionId v \<and> thd_routePath w = thd_routePath v"
    if "map_get (threads ?r) j = Some v" for j v
    using that assms(2,3) by (auto simp: map_get_set same_place_def pinned_def split: if_splits)
  have np: "next_pin ?r = next_pin r" by (intro ext) (simp add: next_pin_def)
  show ?thesis
    unfolding pins_inv_def np
  proof (intro conjI allI impI)
    show "1 \<le> next_pin r key" for key using assms(1) by (simp add: pins_inv_def)
  next
    fix j v n assume "map_get (threads ?r) j = Some v \<and> thd_pinNumber v = Some n"
    with origin obtain w where "map_get (threads r) j = Some w" "thd_pinNumber w = Some n"
      "thd_revisionId w = thd_revisionId v" "thd_routePath w = thd_routePath v" by metis
    with assms(1) show "1 \<le> n" "n < next_pin r (pin_key (thd_revisionId v) (thd_routePath v))"
      using pins_bound by metis+
  next
    fix i j v x assume "map_get (threads ?r) i = Some v \<and> map_get (threads ?r) j = Some x \<and>
        thd_pinNumber v \<noteq> None \<and> pinned v = pinned x"
    with origin obtain w y where "map_get (threads r) i = Some w" "map_get (threads r) j = Some y"
      "thd_pinNumber w \<noteq> None" "pinned w = pinned y" by metis
    with assms(1) show "i = j" by (metis pins_unique)
  qed
qed

lemma store_inv_set:
  assumes "store_inv r" "map_get (threads r) k = Some t" "same_place t u" "thread_ok u"
  shows "store_inv (r\<lparr>threads := map_set (threads r) k u\<rparr>)"
  using assms pins_inv_set [of r k t u] thread_at_id [OF assms(1,2)]
  by (auto simp: store_inv_def keyed_set map_get_set same_place_def)

lemma log_inv_set:
  assumes "log_inv r" "map_get (threads r) k = Some t" "same_place t u"
  shows "log_inv (r\<lparr>threads := map_set (threads r) k u\<rparr>)"
  using assms(1) by (rule log_inv_cong) (use assms in \<open>auto simp: located_def map_get_set same_place_def\<close>)

lemma log_inv_usernames [simp]:
  "log_inv (r\<lparr>accountUsernames := us\<rparr>) = log_inv r" "log_inv (r\<lparr>mentions := m\<rparr>) = log_inv r"
  by (auto intro: log_inv_cong simp: located_def elim!: log_inv_cong)

section \<open>Every call keeps the invariant\<close>

abbreviation placed :: "reviewRepository \<Rightarrow> pageCommentThread \<Rightarrow> bool" where
  "placed r t \<equiv> located r (thd_id t) (thd_revisionId t) (thd_routePath t)"

lemma located_frame [simp]:
  "located (recordEvent r ty t a at rcp) = located r" "located (pushNotification r n t) = located r"
  "located (syncMentions r t ct i names a at) = located r" "located (r\<lparr>mentions := m\<rparr>) = located r"
  "located (r\<lparr>accountUsernames := us\<rparr>) = located r" "located (r\<lparr>notifications := ns\<rparr>) = located r"
  by (rule located_threads; simp)+

lemma located_set: "same_place t u \<Longrightarrow> thd_id t = k \<Longrightarrow> placed (r\<lparr>threads := map_set (threads r) k u\<rparr>) t"
    "same_place t u \<Longrightarrow> thd_id t = k \<Longrightarrow> placed (r\<lparr>threads := map_set (threads r) k u\<rparr>) u"
  by (auto simp: located_def map_get_set same_place_def)

lemma review_inv_frame [simp]:
  "review_inv (r\<lparr>mentions := m\<rparr>) = review_inv r" "review_inv (r\<lparr>accountUsernames := us\<rparr>) = review_inv r"
  by (simp_all add: review_inv_def)

lemma review_inv_record [intro]:
  "review_inv r \<Longrightarrow> placed r t \<Longrightarrow> ty \<noteq> NOTIFICATION_CREATED \<Longrightarrow> review_inv (recordEvent r ty t a at rcp)"
  by (simp add: review_inv_def log_inv_record)

lemma review_inv_sync [intro]: "review_inv r \<Longrightarrow> placed r t \<Longrightarrow> review_inv (syncMentions r t ct i names a at)"
  by (simp add: review_inv_def log_inv_sync)

lemma review_inv_push [intro]: "review_inv r \<Longrightarrow> placed r t \<Longrightarrow> notifies t n \<Longrightarrow> review_inv (pushNotification r n t)"
  by (simp add: review_inv_def log_inv_push)

lemma review_inv_set:
  "review_inv r \<Longrightarrow> map_get (threads r) (thd_id t) = Some t \<Longrightarrow> same_place t u \<Longrightarrow> thread_ok u \<Longrightarrow>
   review_inv (r\<lparr>threads := map_set (threads r) (thd_id t) u\<rparr>)"
  unfolding review_inv_def by (blast intro: store_inv_set log_inv_set)

lemma findBoundThread_Some:
  "findBoundThread r g = Some t \<longleftrightarrow>
   map_get (threads r) (tg_threadId g) = Some t \<and> hasAccess r (tg_access g) (tg_revisionId g) \<and>
   thd_revisionId t = tg_revisionId g \<and> thd_routePath t = tg_routePath g"
  by (auto simp: findBoundThread_def split: option.splits)

lemma bound_thread:
  assumes "review_inv r" "findBoundThread r g = Some t"
  shows "map_get (threads r) (thd_id t) = Some t" "thread_ok t"
  using assms thread_at_id [of r "tg_threadId g" t] thread_at_ok
  by (auto simp: review_inv_def findBoundThread_Some)

lemma checkContentMutation_allowed:
  "checkContentMutation c = ALLOWED \<longleftrightarrow>
   (cmc_authorAccountId c = cmc_actorAccountId c \<or> cmc_action c = DELETE \<and> cmc_canManageProject c) \<and>
   \<not> cmc_contentDeleted c \<and>
   (cmc_action c = UPDATE \<longrightarrow> cmc_threadStatus c \<noteq> RESOLVED \<and> \<not> cmc_threadDeleted c) \<and>
   cmc_version c = cmc_expectedVersion c"
  by (cases "cmc_action c") (auto simp: checkContentMutation_def)

lemmas mutation_checks = comment_check_def reply_check_def checkContentMutation_allowed

section \<open>How a call changes threads and the event log\<close>

text \<open>
  A thread keeps its place, author and pin; its version and workflow history only grow, an unchanged
  version means unchanged content, an unchanged history an unchanged status; a deleted thread keeps
  everything but its replies.
\<close>

definition evolves :: "pageCommentThread \<Rightarrow> pageCommentThread \<Rightarrow> bool" where
  "evolves t u =
    (same_place t u \<and> thd_version t \<le> thd_version u \<and>
     (thd_version u = thd_version t \<longrightarrow>
        thd_body u = thd_body t \<and> thd_deletedAt u = thd_deletedAt t \<and> thd_deletedBy u = thd_deletedBy t) \<and>
     prefix (workflow_history t) (workflow_history u) \<and>
     (workflow_history u = workflow_history t \<longrightarrow>
        thd_status u = thd_status t \<and> thd_resolvedAt u = thd_resolvedAt t \<and> thd_resolvedBy u = thd_resolvedBy t) \<and>
     (thd_deletedAt t \<noteq> None \<longrightarrow> thd_version u = thd_version t \<and> workflow_history u = workflow_history t))"

definition advances :: "reviewRepository \<Rightarrow> reviewRepository \<Rightarrow> bool" where
  "advances r r' =
    (review_inv r' \<and> prefix (events r) (events r') \<and>
     (\<forall>k t. map_get (threads r) k = Some t \<longrightarrow> (\<exists>u. map_get (threads r') k = Some u \<and> evolves t u)))"

lemma same_place_refl [simp]: "same_place t t"
  by (simp add: same_place_def)

lemma evolves_refl [simp]: "evolves t t"
  by (simp add: evolves_def)

lemma evolves_place: "evolves t u \<Longrightarrow> same_place t u"
  by (simp add: evolves_def)

lemma evolves_trans:
  assumes "evolves t u" "evolves u v"
  shows "evolves t v"
proof -
  have "same_place t v" using assms by (auto simp: evolves_def same_place_def)
  moreover have "prefix (workflow_history t) (workflow_history v)"
    using assms by (auto simp: evolves_def intro: prefix_order.trans)
  moreover have "workflow_history v = workflow_history t \<Longrightarrow> workflow_history u = workflow_history t"
    using assms by (metis evolves_def prefix_order.antisym)
  ultimately show ?thesis using assms by (auto simp: evolves_def)
qed

lemma advances_refl [simp, intro]: "review_inv r \<Longrightarrow> advances r r"
  by (simp add: advances_def)

lemma advances_trans: "advances r r1 \<Longrightarrow> advances r1 r2 \<Longrightarrow> advances r r2"
  unfolding advances_def by (meson evolves_trans prefix_order.trans)

lemma advancesD: "advances r r' \<Longrightarrow> review_inv r'"
  by (simp add: advances_def)

lemma advances_same: "review_inv r' \<Longrightarrow> prefix (events r) (events r') \<Longrightarrow> threads r' = threads r \<Longrightarrow> advances r r'"
  by (simp add: advances_def)

lemma events_push_loop: "prefix (events r) (events (foldl (\<lambda>r x. if P r x then r else pushNotification r (f x) t) r xs))"
proof (induction xs arbitrary: r)
  case (Cons x xs)
  have "prefix (events r) (events (if P r x then r else pushNotification r (f x) t))"
    by (simp add: pushNotification_def recordEvent_def)
  with Cons show ?case by (auto intro: prefix_order.trans)
qed simp

lemma events_grow [simp]:
  "prefix (events r) (events (recordEvent r ty t a at rcp))" "prefix (events r) (events (pushNotification r n t))"
  by (simp_all add: pushNotification_def recordEvent_def)

lemma events_sync [simp]: "prefix (events r) (events (syncMentions r t ct i names a at))"
  unfolding syncMentions_def Let_def by (rule prefix_order.trans [OF _ events_push_loop]) simp

lemma advances_record:
  "advances r r1 \<Longrightarrow> placed r1 t \<Longrightarrow> ty \<noteq> NOTIFICATION_CREATED \<Longrightarrow> advances r (recordEvent r1 ty t a at rcp)"
  by (rule advances_trans, assumption, rule advances_same) (auto dest: advancesD)

lemma advances_push: "advances r r1 \<Longrightarrow> placed r1 t \<Longrightarrow> notifies t n \<Longrightarrow> advances r (pushNotification r1 n t)"
  by (rule advances_trans, assumption, rule advances_same) (auto dest: advancesD)

lemma advances_sync: "advances r r1 \<Longrightarrow> placed r1 t \<Longrightarrow> advances r (syncMentions r1 t ct i names a at)"
  by (rule advances_trans, assumption, rule advances_same) (auto dest: advancesD)

lemma advances_push_loop:
  assumes "advances r r1" "placed r1 t" "\<And>r x. x \<in> set xs \<Longrightarrow> \<not> P r x \<Longrightarrow> notifies t (f x)"
  shows "advances r (foldl (\<lambda>r x. if P r x then r else pushNotification r (f x) t) r1 xs)"
proof -
  let ?r = "foldl (\<lambda>r x. if P r x then r else pushNotification r (f x) t) r1 xs"
  have "store_inv ?r = store_inv r1" by (rule store_inv_cong) (simp_all add: push_loop_frame)
  then have "review_inv ?r"
    using advancesD [OF assms(1)] log_inv_push_loop [of r1 t xs P f] assms(2,3) by (simp add: review_inv_def)
  then have "advances r1 ?r" by (rule advances_same) (simp_all add: push_loop_frame events_push_loop)
  with assms(1) show ?thesis by (rule advances_trans)
qed

lemma advances_frame [simp]:
  "advances r (r1\<lparr>mentions := m\<rparr>) = advances r r1" "advances r (r1\<lparr>accountUsernames := us\<rparr>) = advances r r1"
  by (simp_all add: advances_def)

lemma advances_set:
  assumes "review_inv r" "map_get (threads r) (thd_id t) = Some t" "evolves t u" "thread_ok u"
  shows "advances r (r\<lparr>threads := map_set (threads r) (thd_id t) u\<rparr>)"
  using assms review_inv_set [of r t u] by (auto simp: advances_def map_get_set evolves_place)

lemmas advances_intros = advances_set advances_sync advances_record advances_push

text \<open>Editing and deleting content.\<close>

lemma comment_edit_evolves:
  fixes b :: string and at :: int and t :: pageCommentThread
  assumes "thread_ok t" "comment_check UPDATE a False t v = ALLOWED"
  defines "u \<equiv> t\<lparr>thd_body := Some b, thd_version := thd_version t + 1, thd_updatedAt := at\<rparr>"
  shows "evolves t u" "thread_ok u"
  using assms
  by (auto simp: evolves_def same_place_def thread_ok_def mutation_checks workflow_history_def workflow_version_def)

lemma comment_delete_evolves:
  fixes at :: int and t :: pageCommentThread and a :: reviewIdentity
  assumes "thread_ok t" "comment_check DELETE a m t v = ALLOWED"
  defines "u \<equiv> t\<lparr>thd_body := None, thd_version := thd_version t + 1, thd_deletedBy := Some a,
      thd_deletedAt := Some at, thd_updatedAt := at\<rparr>"
  shows "evolves t u" "thread_ok u"
  using assms
  by (auto simp: evolves_def same_place_def thread_ok_def mutation_checks workflow_history_def workflow_version_def)

lemma reply_change_evolves:
  fixes at :: int and t :: pageCommentThread and ps :: "reviewReply list"
  assumes "thread_ok t" "\<forall>p \<in> set ps. reply_ok (thd_id t) p"
  defines "u \<equiv> t\<lparr>thd_replies := ps, thd_updatedAt := at\<rparr>"
  shows "evolves t u" "thread_ok u"
  using assms
  by (auto simp: evolves_def same_place_def thread_ok_def workflow_history_def workflow_version_def)

lemma updateComment_advances: "review_inv r \<Longrightarrow> advances r (snd (updateComment r input))"
proof (cases "findBoundThread r (up_target input)")
  case (Some t)
  let ?u = "t\<lparr>thd_body := Some (up_body input), thd_version := thd_version t + 1, thd_updatedAt := up_changedAt input\<rparr>"
  assume r: "review_inv r"
  note t = bound_thread [OF r Some]
  show ?thesis
  proof (cases "comment_check UPDATE (up_actor input) False t (up_expectedVersion input) = ALLOWED")
    case True
    note u = comment_edit_evolves [OF t(2) True, of "up_changedAt input" "up_body input"]
    show ?thesis
      using Some True advances_set [OF r t(1) u] located_set [OF evolves_place [OF u(1)] refl, of r]
      by (simp add: updateComment_def Let_def) (auto intro!: advances_sync advances_record)
  qed (use r Some in \<open>simp add: updateComment_def Let_def\<close>)
qed (simp add: updateComment_def)

lemma deleteComment_advances: "review_inv r \<Longrightarrow> advances r (snd (deleteComment r input))"
proof (cases "findBoundThread r (del_target input)")
  case (Some t)
  assume r: "review_inv r"
  note t = bound_thread [OF r Some]
  show ?thesis
  proof (cases "comment_check DELETE (del_actor input) (del_actorCanManageProject input) t (del_expectedVersion input) = ALLOWED")
    case True
    note u = comment_delete_evolves [OF t(2) True, of "del_changedAt input"]
    show ?thesis
      using Some True advances_set [OF r t(1) u] located_set [OF evolves_place [OF u(1)] refl, of r]
      by (simp add: deleteComment_def Let_def) (auto intro!: advances_record)
  qed (use r Some in \<open>simp add: deleteComment_def Let_def\<close>)
qed (simp add: deleteComment_def)

text \<open>Replies.\<close>

lemma replaced_replies_ok:
  assumes "thread_ok t" "List.find (\<lambda>c. rep_id c = i) (thd_replies t) = Some p" "reply_ok (thd_id t) q"
  shows "\<forall>x \<in> set (map (\<lambda>c. if rep_id c = rep_id q then q else c) (thd_replies t)). reply_ok (thd_id t) x"
  using assms by (auto simp: thread_ok_def)

lemma found_reply_ok:
  "thread_ok t \<Longrightarrow> List.find (\<lambda>c. rep_id c = i) (thd_replies t) = Some p \<Longrightarrow> reply_ok (thd_id t) p"
  by (auto simp: thread_ok_def find_Some_iff)

lemma replaceReply_advances:
  assumes "review_inv r" "map_get (threads r) (thd_id t) = Some t" "thread_ok t"
    "List.find (\<lambda>c. rep_id c = i) (thd_replies t) = Some p" "reply_ok (thd_id t) q"
  shows "advances r (replaceReply r t q at)" "placed (replaceReply r t q at) t"
    "placed (replaceReply r t q at) (the (map_get (threads (replaceReply r t q at)) (thd_id t)))"
proof -
  note u = reply_change_evolves [OF assms(3) replaced_replies_ok [OF assms(3,4,5)], of at]
  show "advances r (replaceReply r t q at)"
    unfolding replaceReply_def using assms(1,2) u by (rule advances_set)
  show "placed (replaceReply r t q at) t"
    unfolding replaceReply_def using evolves_place [OF u(1)] refl by (rule located_set)
  show "placed (replaceReply r t q at) (the (map_get (threads (replaceReply r t q at)) (thd_id t)))"
    by (simp add: replaceReply_def located_def map_get_set)
qed

lemma updateReply_advances: "review_inv r \<Longrightarrow> advances r (snd (updateReply r input i))"
proof (cases "findBoundThread r (up_target input)")
  case (Some t)
  assume r: "review_inv r"
  note t = bound_thread [OF r Some]
  show ?thesis
  proof (cases "List.find (\<lambda>c. rep_id c = i) (thd_replies t)")
    case p: (Some p)
    let ?q = "p\<lparr>rep_body := Some (up_body input), rep_version := rep_version p + 1, rep_updatedAt := up_changedAt input\<rparr>"
    show ?thesis
    proof (cases "reply_check UPDATE (up_actor input) False t p (up_expectedVersion input) = ALLOWED")
      case True
      have "reply_ok (thd_id t) ?q"
        using found_reply_ok [OF t(2) p] True by (auto simp: reply_ok_def mutation_checks)
      note q = replaceReply_advances [OF r t p this, of "up_changedAt input"]
      show ?thesis
        using Some p True q
        by (simp add: updateReply_def Let_def) (auto intro!: advances_sync advances_record)
    qed (use r Some p in \<open>simp add: updateReply_def Let_def\<close>)
  qed (use r Some in \<open>simp add: updateReply_def\<close>)
qed (simp add: updateReply_def)

lemma deleteReply_advances: "review_inv r \<Longrightarrow> advances r (snd (deleteReply r input i))"
proof (cases "findBoundThread r (del_target input)")
  case (Some t)
  assume r: "review_inv r"
  note t = bound_thread [OF r Some]
  show ?thesis
  proof (cases "List.find (\<lambda>c. rep_id c = i) (thd_replies t)")
    case p: (Some p)
    let ?q = "p\<lparr>rep_body := None, rep_version := rep_version p + 1, rep_deletedBy := Some (del_actor input),
      rep_deletedAt := Some (del_changedAt input), rep_updatedAt := del_changedAt input\<rparr>"
    show ?thesis
    proof (cases "reply_check DELETE (del_actor input) (del_actorCanManageProject input) t p (del_expectedVersion input) = ALLOWED")
      case True
      have "reply_ok (thd_id t) ?q"
        using found_reply_ok [OF t(2) p] by (auto simp: reply_ok_def)
      note q = replaceReply_advances [OF r t p this, of "del_changedAt input"]
      show ?thesis
        using Some p True q by (simp add: deleteReply_def Let_def) (auto intro!: advances_record)
    qed (use r Some p in \<open>simp add: deleteReply_def Let_def\<close>)
  qed (use r Some in \<open>simp add: deleteReply_def\<close>)
qed (simp add: deleteReply_def)

lemma usernames_first:
  "r\<lparr>accountUsernames := us, threads := ts\<rparr> = r\<lparr>threads := ts, accountUsernames := us\<rparr>" for r :: reviewRepository
  by (cases r) simp

lemma createReply_advances:
  assumes r: "review_inv r"
  shows "advances r (snd (createReply r (new_reply i threadId body author at) username names rv route access))"
proof -
  let ?p = "new_reply i threadId body author at"
  let ?g = "\<lparr>tg_threadId = rep_threadId ?p, tg_revisionId = rv, tg_routePath = route, tg_access = access\<rparr>"
  show ?thesis
  proof (cases "findBoundThread r ?g")
    case (Some t)
    note t = bound_thread [OF r Some]
    have "thd_id t = threadId"
      using Some r thread_at_id [of r threadId t] by (auto simp: findBoundThread_Some new_reply_def review_inv_def)
    then have "\<forall>q \<in> set (thd_replies t @ [?p]). reply_ok (thd_id t) q"
      using t(2) by (auto simp: thread_ok_def reply_ok_def new_reply_def)
    note u = reply_change_evolves [OF t(2) this, of at]
    note u' = advances_set [OF r t(1) u] located_set [OF evolves_place [OF u(1)] refl, of r]
    show ?thesis
      using Some r u'
      by (auto simp: createReply_def Let_def usernames_first new_reply_def reply_notification_def notifies_def
          intro!: advances_push_loop advances_sync advances_record)
  qed (use r in \<open>simp add: createReply_def\<close>)
qed

text \<open>New comments.\<close>

lemma next_pin_eq:
  "nextPinNumber r rv route =
     (next_pin r (pin_key rv route),
      r\<lparr>pinCounters := map_set (pinCounters r) (pin_key rv route) (next_pin r (pin_key rv route) + 1)\<rparr>)"
  by (simp add: nextPinNumber_def next_pin_def Let_def)

lemma next_pin_set:
  "next_pin (r\<lparr>pinCounters := map_set (pinCounters r) key v\<rparr>) k = (if k = key then v else next_pin r k)"
  "next_pin (r\<lparr>threads := ts\<rparr>) k = next_pin r k"
  by (simp_all add: next_pin_def map_get_set)

lemma pins_inv_add:
  assumes "pins_inv r" "map_get (threads r) i = None" "thd_id t = i"
    "thd_pinNumber t = None \<and> pc = pinCounters r \<or>
     thd_pinNumber t = Some (next_pin r key) \<and> key = pin_key (thd_revisionId t) (thd_routePath t) \<and>
       pc = map_set (pinCounters r) key (next_pin r key + 1)"
  shows "pins_inv (r\<lparr>pinCounters := pc, threads := map_set (threads r) i t\<rparr>)"
proof -
  let ?r = "r\<lparr>pinCounters := pc, threads := map_set (threads r) i t\<rparr>"
  have mono: "next_pin r k \<le> next_pin ?r k" for k
    using assms(4) by (auto simp: next_pin_set)
  have own: "1 \<le> n \<and> n < next_pin ?r (pin_key (thd_revisionId t) (thd_routePath t))" if "thd_pinNumber t = Some n" for n
    using that assms(1,4) by (auto simp: next_pin_set pins_inv_def)
  have other: "pinned u \<noteq> pinned t" if "map_get (threads r) j = Some u" "thd_pinNumber t \<noteq> None" for j u
    using that assms(4) pins_bound [OF assms(1), of j u] by (auto simp: pinned_def)
  show ?thesis
    unfolding pins_inv_def
  proof (intro conjI allI impI)
    show "1 \<le> next_pin ?r key" for key
      using assms(1) mono [of key] by (auto simp: pins_inv_def intro: order_trans)
  next
    fix k u n assume u: "map_get (threads ?r) k = Some u \<and> thd_pinNumber u = Some n"
    show "1 \<le> n" "n < next_pin ?r (pin_key (thd_revisionId u) (thd_routePath u))"
      using u own pins_bound [OF assms(1), of k u n] mono [of "pin_key (thd_revisionId u) (thd_routePath u)"]
      by (auto simp: map_get_set split: if_splits)
  next
    fix k j u w
    assume a: "map_get (threads ?r) k = Some u \<and> map_get (threads ?r) j = Some w \<and> thd_pinNumber u \<noteq> None \<and> pinned u = pinned w"
    then have "thd_pinNumber w \<noteq> None" by (auto simp: pinned_def)
    with a other [of k u] other [of j w] pins_unique [OF assms(1), of k u j w] show "k = j"
      by (auto simp: map_get_set split: if_splits)
  qed
qed

lemma hasAccess_revision: "store_inv r \<Longrightarrow> hasAccess r access rv \<Longrightarrow> map_has (revisions r) rv"
  by (auto simp: hasAccess_def store_inv_def split: option.splits)

lemma store_inv_add:
  assumes "store_inv r" "map_has (revisions r) (thd_revisionId t)" "thread_ok t"
    "pins_inv (r\<lparr>pinCounters := pc, threads := map_set (threads r) (thd_id t) t\<rparr>)"
  shows "store_inv (r\<lparr>pinCounters := pc, threads := map_set (threads r) (thd_id t) t\<rparr>)"
  using assms by (auto simp: store_inv_def keyed_set map_get_set)

lemma advances_add:
  assumes "review_inv r" "map_get (threads r) (thd_id t) = None" "map_has (revisions r) (thd_revisionId t)" "thread_ok t"
    "thd_pinNumber t = None \<and> pc = pinCounters r \<or>
     thd_pinNumber t = Some (next_pin r key) \<and> key = pin_key (thd_revisionId t) (thd_routePath t) \<and>
       pc = map_set (pinCounters r) key (next_pin r key + 1)"
  shows "advances r (r\<lparr>pinCounters := pc, threads := map_set (threads r) (thd_id t) t\<rparr>)"
proof -
  let ?r = "r\<lparr>pinCounters := pc, threads := map_set (threads r) (thd_id t) t\<rparr>"
  have "pins_inv ?r"
    using assms(1,2,5) by (intro pins_inv_add [of _ _ _ _ key]) (auto simp: review_inv_def store_inv_def)
  then have "store_inv ?r" using assms by (intro store_inv_add) (simp_all add: review_inv_def)
  moreover have "log_inv r" using assms(1) by (simp add: review_inv_def)
  then have "log_inv ?r"
    by (rule log_inv_cong) (use assms(2) in \<open>auto simp: located_def map_get_set\<close>)
  ultimately show ?thesis using assms(2) by (auto simp: advances_def review_inv_def map_get_set)
qed

lemma new_comment_fields [simp]:
  "thd_id (new_comment i rv route anchor body author at) = i"
  "thd_revisionId (new_comment i rv route anchor body author at) = rv"
  "thd_routePath (new_comment i rv route anchor body author at) = route"
  "thd_anchor (new_comment i rv route anchor body author at) = anchor"
  "thd_pinNumber (new_comment i rv route anchor body author at) = None"
  by (simp_all add: new_comment_def)

lemma new_comment_ok:
  "thread_ok (new_comment i rv route PAGE body author at)"
  "thread_ok ((new_comment i rv route (REGION_V1 g) body author at)\<lparr>thd_pinNumber := Some n\<rparr>)"
  by (simp_all add: thread_ok_def new_comment_def workflow_history_def workflow_version_def)

lemma usernames_pins_first:
  "r\<lparr>accountUsernames := us, pinCounters := pc, threads := ts\<rparr> = r\<lparr>pinCounters := pc, threads := ts, accountUsernames := us\<rparr>"
  for r :: reviewRepository
  by (cases r) simp

lemma createPageComment_advances:
  assumes r: "review_inv r"
  shows "advances r (snd (createPageComment r (new_comment i rv route anchor body author at) username names access))"
proof (cases "hasAccess r access rv \<and> map_get (threads r) i = None")
  case True
  let ?t = "new_comment i rv route anchor body author at"
  let ?stored = "case anchor of PAGE \<Rightarrow> ?t | REGION_V1 g \<Rightarrow> ?t\<lparr>thd_pinNumber := Some (next_pin r (pin_key rv route))\<rparr>"
  let ?pc = "case anchor of PAGE \<Rightarrow> pinCounters r
    | REGION_V1 g \<Rightarrow> map_set (pinCounters r) (pin_key rv route) (next_pin r (pin_key rv route) + 1)"
  have stored: "thd_id ?stored = i" "thd_revisionId ?stored = rv" "thd_routePath ?stored = route"
    by (simp_all split: reviewAnchor.split)
  let ?r = "r\<lparr>pinCounters := ?pc, threads := map_set (threads r) i ?stored\<rparr>"
  have "advances r (r\<lparr>pinCounters := ?pc, threads := map_set (threads r) (thd_id ?stored) ?stored\<rparr>)"
    using True r hasAccess_revision [of r access rv]
    by (intro advances_add [where key = "pin_key rv route"])
      (auto simp: stored review_inv_def new_comment_ok split: reviewAnchor.split)
  then have "advances r ?r" by (simp add: stored)
  moreover have "placed ?r ?stored" by (simp add: located_def map_get_set stored)
  ultimately have "advances r (syncMentions (recordEvent (?r\<lparr>accountUsernames := us\<rparr>) COMMENT_CREATED ?stored a x None)
      ?stored COMMENT i names a x)" for us a x
    by (intro advances_sync advances_record) simp_all
  then show ?thesis
    using True
    by (cases anchor) (simp_all add: createPageComment_def Let_def next_pin_eq split_beta usernames_first
        usernames_pins_first next_pin_def)
qed (use r in \<open>auto simp: createPageComment_def\<close>)

text \<open>The workflow.\<close>

lemma changed_status_history:
  "workflow_history (changed_status t input) =
     workflow_history t @ [\<lparr>wfe_version = workflow_version t + 1, wfe_from = thd_status t, wfe_to = cs_status input,
       wfe_actor = cs_actor input, wfe_changedAt = cs_changedAt input\<rparr>]"
  "workflow_version (changed_status t input) = workflow_version t + 1"
  "thd_status (changed_status t input) = cs_status input"
  by (simp_all add: changed_status_def Let_def workflow_history_def workflow_version_def)

lemma changed_status_evolves:
  assumes "thread_ok t" "thd_deletedAt t = None"
  shows "evolves t (changed_status t input)" "thread_ok (changed_status t input)"
proof -
  have "same_place t (changed_status t input)" by (simp add: changed_status_def Let_def same_place_def)
  then show "evolves t (changed_status t input)"
    using assms(2) by (simp add: evolves_def changed_status_history) (simp add: changed_status_def Let_def)
  have "workflow_chain OPEN 1 (workflow_history (changed_status t input)) (cs_status input) (workflow_version t + 1)"
    using assms(1) by (simp add: changed_status_history workflow_chain_snoc thread_ok_def)
  then show "thread_ok (changed_status t input)"
    using assms unfolding thread_ok_def changed_status_history
    by (simp add: changed_status_def Let_def)
qed

lemma read_request_same [simp]:
  "ntf_id (read_request t input q n) = ntf_id n" "announcement (read_request t input q n) = announcement n"
  by (simp_all add: read_request_def announcement_def)

lemma advances_notifications:
  assumes "advances r r1" "map ntf_id ns = map ntf_id (notifications r1)"
    "map announcement ns = map announcement (notifications r1)"
  shows "advances r (r1\<lparr>notifications := ns\<rparr>)"
proof -
  have "log_inv r1" "store_inv r1" using advancesD [OF assms(1)] by (simp_all add: review_inv_def)
  then have "log_inv (r1\<lparr>notifications := ns\<rparr>)"
    by (intro log_inv_cong [of r1 "r1\<lparr>notifications := ns\<rparr>"]) (use assms in \<open>simp_all\<close>)
  with assms(1) \<open>store_inv r1\<close> show ?thesis by (simp add: advances_def review_inv_def)
qed

lemma workflow_notifies:
  "recipient \<noteq> idn_accountId (cs_actor input) \<Longrightarrow> notifies t (workflow_notification t input recipient)"
  by (simp add: notifies_def workflow_notification_def Let_def)

lemma changePageCommentStatus_advances:
  assumes r: "review_inv r"
  shows "advances r (snd (changePageCommentStatus r input))"
proof (cases "findBoundThread r (cs_target input)")
  case (Some t)
  note t = bound_thread [OF r Some]
  show ?thesis
  proof (cases "thd_deletedAt t = None")
    case True
    note u = changed_status_evolves [OF t(2) True, of input]
    let ?r = "recordEvent (r\<lparr>threads := map_set (threads r) (thd_id t) (changed_status t input)\<rparr>) THREAD_STATUS_CHANGED
        (changed_status t input) (cs_actor input) (cs_changedAt input) None"
    have 1: "advances r ?r"
      using advances_set [OF r t(1) u] located_set(2) [OF evolves_place [OF u(1)] refl, of r] by (auto intro!: advances_record)
    have 2: "placed ?r t" using located_set(1) [OF evolves_place [OF u(1)] refl, of r] by simp
    have 3: "advances r (?r\<lparr>notifications := map (read_request t input q) (notifications r)\<rparr>)" for q
      using 1 by (rule advances_notifications) (simp_all add: comp_def)
    show ?thesis
      using Some True r 1 2 3
      by (auto simp: changePageCommentStatus_def Let_def workflow_notifies split: option.splits intro!: advances_push)
  qed (use Some r in \<open>simp add: changePageCommentStatus_def\<close>)
qed (use r in \<open>simp add: changePageCommentStatus_def\<close>)

text \<open>Reading notifications.\<close>

lemma findIndex_Some: "findIndex P xs = Some i \<Longrightarrow> i < length xs \<and> P (xs ! i)"
  by (induction xs arbitrary: i) (auto split: if_splits)

lemma map_list_update_same: "f y = f (xs ! i) \<Longrightarrow> map f (xs[i := y]) = map f xs"
  by (cases "i < length xs") (simp_all add: map_update list_update_same_conv list_update_beyond)

lemma notification_thread:
  "review_inv r \<Longrightarrow> n \<in> set (notifications r) \<Longrightarrow> \<exists>t. map_get (threads r) (ntf_threadId n) = Some t"
  by (auto simp: review_inv_def log_inv_def announcement_ok_def announcement_def located_def)

lemma setNotificationRead_advances:
  assumes r: "review_inv r"
  shows "advances r (snd (setNotificationRead r input))"
proof (cases "findIndex (own_notification input) (notifications r)")
  case (Some i)
  let ?n = "notifications r ! i"
  have "?n \<in> set (notifications r)" using findIndex_Some [OF Some] by simp
  then obtain t where t: "map_get (threads r) (ntf_threadId ?n) = Some t" using notification_thread [OF r] by blast
  then have id: "thd_id t = ntf_threadId ?n" using r by (auto simp: review_inv_def dest: thread_at_id)
  have "advances r (r\<lparr>notifications := (notifications r)[i := ?n\<lparr>ntf_readAt := x\<rparr>]\<rparr>)" for x
    by (rule advances_notifications [OF advances_refl [OF r]])
      (simp_all add: map_list_update_same announcement_def)
  moreover have "placed r t" using t id by (simp add: located_def)
  ultimately have "advances r (recordEvent (r\<lparr>notifications := (notifications r)[i := ?n\<lparr>ntf_readAt := x\<rparr>]\<rparr>)
      NOTIFICATION_READ_CHANGED t a at rcp)" for x a at rcp
    by (intro advances_record) simp_all
  then show ?thesis using Some r t by (simp add: setNotificationRead_def Let_def)
qed (use r in \<open>simp add: setNotificationRead_def\<close>)

text \<open>Bindings: the project and the revision are found, or added under a new id.\<close>

definition found_or :: "('v \<Rightarrow> bool) \<Rightarrow> ('k, 'v) jsmap \<Rightarrow> 'v \<Rightarrow> 'v" where
  "found_or P m v = (case List.find P (map_values m) of Some w \<Rightarrow> w | None \<Rightarrow> v)"

lemma found_or_set:
  assumes "keyed key m" "unique_by f m" "\<And>c. P c = (f c = f v)"
  defines "w \<equiv> found_or P m v"
  shows "keyed key (map_set m (key w) w)" "unique_by f (map_set m (key w) w)" "f w = f v"
proof -
  show "keyed key (map_set m (key w) w)" using assms(1) by (simp add: keyed_set)
  have "unique_by f (map_set m (key w) w) \<and> f w = f v"
  proof (cases "List.find P (map_values m)")
    case None
    then have "List.find (\<lambda>c. f c = f v) (map_values m) = None" using assms(3) by (simp add: find_None_iff)
    with None show ?thesis
      using unique_by_set_new [OF assms(1,2)] by (simp add: w_def found_or_def)
  next
    case (Some c)
    have "map_get (map_set m (key c) c) = map_get m"
      using keyed_find [OF assms(1) Some] by (intro ext) (simp add: map_get_set)
    moreover have "f c = f v" using Some assms(3) by (auto simp: find_Some_iff)
    ultimately show ?thesis using Some assms(2) by (simp add: w_def found_or_def unique_by_def)
  qed
  then show "unique_by f (map_set m (key w) w)" "f w = f v" by simp_all
qed

lemma pins_inv_frame:
  "pins_inv (r\<lparr>projects := ps\<rparr>) = pins_inv r" "pins_inv (r\<lparr>revisions := vs\<rparr>) = pins_inv r"
  "pins_inv (r\<lparr>bindings := bs\<rparr>) = pins_inv r"
  by (rule pins_inv_cong; simp)+

lemma store_inv_unbind: "store_inv r \<Longrightarrow> store_inv (r\<lparr>bindings := map_delete (bindings r) k\<rparr>)"
    "store_inv r \<Longrightarrow> store_inv (r\<lparr>bindings := map_delete_if P (bindings r)\<rparr>)"
proof -
  assume a: "store_inv r"
  then have "wf_map (bindings r)" by (simp add: store_inv_def keyed_def)
  with a show "store_inv (r\<lparr>bindings := map_delete_if P (bindings r)\<rparr>)"
    by (simp add: store_inv_def keyed_subset pins_inv_frame map_get_delete_if split: option.split)
qed (simp add: store_inv_def keyed_subset pins_inv_frame map_get_delete)

lemma store_inv_bind:
  assumes "store_inv r" "\<And>c. P c = (prj_ownerAccountId c = prj_ownerAccountId p0 \<and> prj_slug c = prj_slug p0)"
    "\<And>c. Q c = (rev_projectId c = rev_projectId v0 \<and> rev_key c = rev_key v0)"
    "rev_projectId v0 = prj_id p" "p = found_or P (projects r) p0" "v = found_or Q (revisions r) v0" "bnd_revisionId b = rev_id v"
  shows "store_inv (r\<lparr>projects := map_set (projects r) (prj_id p) p, revisions := map_set (revisions r) (rev_id v) v,
      bindings := map_set (bindings r) (bnd_tunnelId b) b\<rparr>)"
proof -
  note 1 = found_or_set [of prj_id "projects r" "\<lambda>p. (prj_ownerAccountId p, prj_slug p)" P p0, folded assms(5)]
  note 2 = found_or_set [of rev_id "revisions r" "\<lambda>v. (rev_projectId v, rev_key v)" Q v0, folded assms(6)]
  have 3: "rev_projectId v = prj_id p" using 2(3) assms by (auto simp: store_inv_def)
  show ?thesis
    using assms(1,2,3,7) 1(1,2) 2(1,2) 3
    by (auto simp: store_inv_def pins_inv_frame keyed_set map_get_set)
qed

lemma bindTunnel_advances:
  assumes "review_inv r"
  shows "advances r (snd (bindTunnel r input))"
proof -
  let ?bs = "map_delete_if (\<lambda>b. bnd_expiresAt b \<le> bnd_createdAt (bt_binding input)) (bindings r)"
  let ?r = "r\<lparr>bindings := ?bs,
      accountUsernames := map_set (accountUsernames r) (prj_ownerAccountId (bt_project input)) (bt_actorUsername input)\<rparr>"
  let ?P = "\<lambda>c. prj_ownerAccountId c = prj_ownerAccountId (bt_project input) \<and> prj_slug c = prj_slug (bt_project input)"
  let ?p = "found_or ?P (projects r) (bt_project input)"
  let ?Q = "\<lambda>c. rev_projectId c = prj_id ?p \<and> rev_key c = rev_key (bt_revision input)"
  let ?new = "(bt_revision input)\<lparr>rev_projectId := prj_id ?p\<rparr>"
  let ?v = "found_or ?Q (revisions r) ?new"
  let ?b = "(bt_binding input)\<lparr>bnd_revisionId := rev_id ?v\<rparr>"
  have 1: "store_inv ?r" using assms by (simp add: review_inv_def store_inv_unbind)
  have 2: "store_inv (?r\<lparr>projects := map_set (projects ?r) (prj_id ?p) ?p, revisions := map_set (revisions ?r) (rev_id ?v) ?v,
      bindings := map_set (bindings ?r) (bnd_tunnelId ?b) ?b\<rparr>)"
    by (rule store_inv_bind [OF 1, where P = ?P and ?p0.0 = "bt_project input" and Q = ?Q and ?v0.0 = ?new]) simp_all
  then have "store_inv (snd (bindTunnel r input))"
    using 1 by (cases "map_get ?bs (bnd_tunnelId (bt_binding input))")
      (simp_all add: bindTunnel_def Let_def flip: found_or_def)
  moreover have frame: "threads (snd (bindTunnel r input)) = threads r" "events (snd (bindTunnel r input)) = events r"
    "notifications (snd (bindTunnel r input)) = notifications r"
    "nextEventId (snd (bindTunnel r input)) = nextEventId r"
    "nextNotificationId (snd (bindTunnel r input)) = nextNotificationId r"
    by (simp_all add: bindTunnel_def Let_def split: option.split)
  then have "log_inv (snd (bindTunnel r input))"
    using assms by (intro log_inv_cong [of r "snd (bindTunnel r input)"]) (simp_all add: review_inv_def located_def)
  ultimately show ?thesis by (intro advances_same) (simp_all add: review_inv_def frame)
qed

lemma removeTunnelBinding_advances: "review_inv r \<Longrightarrow> advances r (removeTunnelBinding r i s)"
proof -
  assume r: "review_inv r"
  then have "log_inv (r\<lparr>bindings := map_delete (bindings r) i\<rparr>)"
    by (intro log_inv_cong [of r "r\<lparr>bindings := map_delete (bindings r) i\<rparr>"]) (auto simp: review_inv_def located_def)
  with r show ?thesis
    by (auto simp: removeTunnelBinding_def advances_def review_inv_def store_inv_unbind)
qed

lemma review_step_advances: "review_inv r \<Longrightarrow> advances r (review_step r x)"
  by (cases x) (simp_all add: bindTunnel_advances removeTunnelBinding_advances createPageComment_advances
      createReply_advances changePageCommentStatus_advances updateComment_advances deleteComment_advances
      updateReply_advances deleteReply_advances setNotificationRead_advances)

lemma newReviewRepository_inv: "review_inv newReviewRepository"
  by (simp add: review_inv_def store_inv_def log_inv_def newReviewRepository_def keyed_def unique_by_def pins_inv_def
      next_pin_def)

interpretation review: invariant_machine "\<lambda>r. r = newReviewRepository" review_step review_inv
  by unfold_locales (auto simp: newReviewRepository_inv intro: advancesD review_step_advances)

lemma review_run_advances: "review_inv r \<Longrightarrow> advances r (run_machine review_step r ops)"
  using review.run_relation [of "\<lambda>r r'. review_inv r \<longrightarrow> advances r r'" r ops]
  by (auto intro: advances_trans review_step_advances dest: advancesD)

end
