(* ===== verification/ReviewService.thy ===== *)
theory ReviewService
  imports ReviewInvariants ServiceMonad
begin

text \<open>
  The review service, \<^verbatim>\<open>packages/review/src/review-service.ts\<close>, function \<^verbatim>\<open>createReviewService\<close>, over the in-memory
  repository. The clock and the source of ids are streams read in order; \<^verbatim>\<open>localeCompare\<close> and the SHA-256
  digest that scopes a page cursor are parameters. Page cursors travel decoded, and a region anchor as
  the result of its normaliser. A call that throws ends with the error and the world reached until then.
\<close>

section \<open>Dependencies and the world\<close>

record reviewDependencies =
  rd_now :: "nat \<Rightarrow> int"
  rd_generateId :: "nat \<Rightarrow> string"
  rd_workflowEnabled :: "bool option"
  rd_localeCompare :: "string \<Rightarrow> string \<Rightarrow> int"
  rd_scopeDigest :: "string \<Rightarrow> string option \<Rightarrow> string \<Rightarrow> string option \<Rightarrow> string"

record reviewWorld =
  rw_repository :: reviewRepository
  rw_clock :: nat
  rw_ids :: nat

datatype reviewServiceError = ReviewError reviewErrorCode | RepositoryError reviewRepositoryError

type_synonym 'a reviewM = "(reviewWorld, reviewServiceError, 'a) service"

definition DEFAULT_PAGE_COMMENT_LIMIT :: nat where "DEFAULT_PAGE_COMMENT_LIMIT = 100"
definition DEFAULT_REPLY_LIMIT_PER_THREAD :: nat where "DEFAULT_REPLY_LIMIT_PER_THREAD = 100"
definition DEFAULT_REVIEW_EVENT_LIMIT :: nat where "DEFAULT_REVIEW_EVENT_LIMIT = 100"
definition DEFAULT_REVIEW_NOTIFICATION_LIMIT :: nat where "DEFAULT_REVIEW_NOTIFICATION_LIMIT = 100"
definition DEFAULT_REVIEW_BINDING_TTL_MS :: int where "DEFAULT_REVIEW_BINDING_TTL_MS = 8 * 60 * 60000"

definition fail :: "reviewErrorCode \<Rightarrow> 'a reviewM" where
  "fail e w = (Inl (ReviewError e), w)"

definition check :: "reviewErrorCode + 'a \<Rightarrow> 'a reviewM" where
  "check x = (case x of Inl e \<Rightarrow> fail e | Inr a \<Rightarrow> ret a)"

definition allow :: "bool \<Rightarrow> reviewErrorCode \<Rightarrow> unit reviewM" where
  "allow ok e = (if ok then ret () else fail e)"

definition clock :: "reviewDependencies \<Rightarrow> int reviewM" where
  "clock d w = (Inr (rd_now d (rw_clock w)), w\<lparr>rw_clock := rw_clock w + 1\<rparr>)"

definition generateId :: "reviewDependencies \<Rightarrow> string reviewM" where
  "generateId d w = (Inr (rd_generateId d (rw_ids w)), w\<lparr>rw_ids := rw_ids w + 1\<rparr>)"

definition ask :: "(reviewRepository \<Rightarrow> 'a) \<Rightarrow> 'a reviewM" where
  "ask f w = (Inr (f (rw_repository w)), w)"

definition update :: "(reviewRepository \<Rightarrow> 'a \<times> reviewRepository) \<Rightarrow> 'a reviewM" where
  "update f w = (let (a, r) = f (rw_repository w) in (Inr a, w\<lparr>rw_repository := r\<rparr>))"

definition try_update :: "(reviewRepository \<Rightarrow> (reviewRepositoryError + 'a) \<times> reviewRepository) \<Rightarrow> 'a reviewM" where
  "try_update f w = (case f (rw_repository w) of
     (Inl e, r) \<Rightarrow> (Inl (RepositoryError e), w\<lparr>rw_repository := r\<rparr>)
   | (Inr a, r) \<Rightarrow> (Inr a, w\<lparr>rw_repository := r\<rparr>))"

section \<open>Scope and access\<close>

record reviewScope =
  sc_actor :: reviewActor
  sc_tunnelId :: "string option"
  sc_sessionId :: "string option"
  sc_controlProjectId :: "string option"
  sc_controlRevisionId :: "string option"

record reviewContext =
  ctx_project :: reviewProject
  ctx_revision :: reviewRevision
  ctx_binding :: "reviewTunnelBinding option"

definition repositoryAccess :: "reviewContext \<Rightarrow> reviewAccess" where
  "repositoryAccess c = (case ctx_binding c of
     None \<Rightarrow> \<lparr>ac_tunnelId = None, ac_sessionId = None, ac_controlProjectId = Some (prj_id (ctx_project c))\<rparr>
   | Some b \<Rightarrow> \<lparr>ac_tunnelId = Some (bnd_tunnelId b), ac_sessionId = Some (bnd_sessionId b), ac_controlProjectId = None\<rparr>)"

definition requireControlContext :: "reviewScope \<Rightarrow> reviewContext reviewM" where
  "requireControlContext s =
    (case (sc_tunnelId s, sc_sessionId s, sc_controlProjectId s, sc_controlRevisionId s) of
       (None, None, Some p, Some v) \<Rightarrow>
         bindM (check (normalizeOpaqueReviewId p)) (\<lambda>projectId.
         bindM (check (normalizeOpaqueReviewId v)) (\<lambda>revisionId.
         bindM (ask (\<lambda>r. findRevisionContext r (Some projectId) revisionId)) (\<lambda>c.
         case c of
           None \<Rightarrow> fail NOT_FOUND
         | Some (project, revision) \<Rightarrow> ret \<lparr>ctx_project = project, ctx_revision = revision, ctx_binding = None\<rparr>)))
     | _ \<Rightarrow> fail INVALID_INPUT)"

definition requireTunnelContext :: "reviewDependencies \<Rightarrow> reviewScope \<Rightarrow> reviewContext reviewM" where
  "requireTunnelContext d s =
    (case (sc_tunnelId s, sc_sessionId s) of
       (Some t, Some u) \<Rightarrow>
         bindM (check (normalizeOpaqueReviewId t)) (\<lambda>tunnelId.
         bindM (check (normalizeOpaqueReviewId u)) (\<lambda>sessionId.
         bindM (ask (\<lambda>r. findBindingContext r tunnelId sessionId)) (\<lambda>c.
         case c of
           None \<Rightarrow> fail NOT_FOUND
         | Some (project, revision, binding) \<Rightarrow>
             bindM (clock d) (\<lambda>at.
             if bnd_expiresAt binding \<le> at
             then bindM (update (\<lambda>r. ((), removeTunnelBinding r tunnelId sessionId))) (\<lambda>_. fail NOT_FOUND)
             else ret \<lparr>ctx_project = project, ctx_revision = revision, ctx_binding = Some binding\<rparr>))))
     | _ \<Rightarrow> fail INVALID_INPUT)"

definition requireBindingContext :: "reviewDependencies \<Rightarrow> reviewScope \<Rightarrow> reviewContext reviewM" where
  "requireBindingContext d s =
    bindM (allow (canRead (act_capabilities (sc_actor s))) REVIEW_FORBIDDEN) (\<lambda>_.
    if sc_controlProjectId s \<noteq> None \<or> sc_controlRevisionId s \<noteq> None then requireControlContext s
    else requireTunnelContext d s)"

definition actor_identity :: "reviewActor \<Rightarrow> reviewIdentity reviewM" where
  "actor_identity a =
    bindM (check (normalizeOpaqueReviewId (act_accountId a))) (\<lambda>i.
    ret \<lparr>idn_accountId = i, idn_displayName = act_displayName a\<rparr>)"

record mutation =
  mut_context :: reviewContext
  mut_actor :: reviewIdentity
  mut_actorUsername :: string
  mut_actorCanManageProject :: bool

definition mutationContext :: "reviewDependencies \<Rightarrow> reviewScope \<Rightarrow> mutation reviewM" where
  "mutationContext d s =
    bindM (requireBindingContext d s) (\<lambda>c.
    bindM (actor_identity (sc_actor s)) (\<lambda>actor.
    bindM (check (normalizeReviewUsername (act_username (sc_actor s)))) (\<lambda>username.
    bindM (check (normalizeAuthorizationVersion (act_authorizationVersion (sc_actor s)))) (\<lambda>_.
    ret \<lparr>mut_context = c, mut_actor = actor, mut_actorUsername = username,
      mut_actorCanManageProject = canManageProject (act_capabilities (sc_actor s))\<rparr>))))"

fun throwMutationFailure :: "'a mutateReviewResult \<Rightarrow> 'a reviewM" where
  "throwMutationFailure MUTATE_STALE_AUTHORIZATION = fail REVIEW_FORBIDDEN"
| "throwMutationFailure MUTATE_FORBIDDEN = fail REVIEW_FORBIDDEN"
| "throwMutationFailure THREAD_NOT_FOUND = fail NOT_FOUND"
| "throwMutationFailure REPLY_NOT_FOUND = fail NOT_FOUND"
| "throwMutationFailure MUTATE_VERSION_CONFLICT = fail VERSION_CONFLICT"
| "throwMutationFailure _ = fail STATE_CONFLICT"

definition mutation_result :: "'a mutateReviewResult \<Rightarrow> 'a reviewM" where
  "mutation_result x = (case x of UPDATED a \<Rightarrow> ret a | _ \<Rightarrow> throwMutationFailure x)"

section \<open>Creating comments and replies\<close>

definition createComment ::
    "reviewDependencies \<Rightarrow> reviewScope \<Rightarrow> string \<Rightarrow> string \<Rightarrow> reviewAnchor \<Rightarrow> pageCommentThread reviewM" where
  "createComment d s routePath body anchor =
    bindM (allow (canComment (act_capabilities (sc_actor s))) REVIEW_FORBIDDEN) (\<lambda>_.
    bindM (requireBindingContext d s) (\<lambda>c.
    bindM (clock d) (\<lambda>createdAt.
    bindM (check (normalizeCommentBody body)) (\<lambda>normalizedBody.
    bindM (generateId d) (\<lambda>generated.
    bindM (check (normalizeOpaqueReviewId generated)) (\<lambda>i.
    bindM (check (normalizeRoutePath routePath)) (\<lambda>route.
    bindM (actor_identity (sc_actor s)) (\<lambda>author.
    bindM (check (normalizeReviewUsername (act_username (sc_actor s)))) (\<lambda>username.
    bindM (check (extractMentionUsernames normalizedBody)) (\<lambda>names.
    bindM (check (normalizeAuthorizationVersion (act_authorizationVersion (sc_actor s)))) (\<lambda>_.
    bindM (try_update (\<lambda>r. createPageComment r
      (new_comment i (rev_id (ctx_revision c)) route anchor normalizedBody author createdAt) username names
      (repositoryAccess c))) (\<lambda>res.
    case res of
      CREATE_STALE_AUTHORIZATION \<Rightarrow> fail REVIEW_FORBIDDEN
    | CREATE_BINDING_NOT_FOUND \<Rightarrow> fail NOT_FOUND
    | CREATED_COMMENT t \<Rightarrow> ret t))))))))))))"

definition service_createPageComment :: "reviewDependencies \<Rightarrow> reviewScope \<Rightarrow> string \<Rightarrow> string \<Rightarrow> pageCommentThread reviewM" where
  "service_createPageComment d s routePath body = createComment d s routePath body PAGE"

definition createRegionComment ::
    "reviewDependencies \<Rightarrow> reviewScope \<Rightarrow> string \<Rightarrow> string \<Rightarrow> reviewErrorCode + regionReviewAnchor \<Rightarrow>
     pageCommentThread reviewM" where
  "createRegionComment d s routePath body anchor =
    bindM (check anchor) (\<lambda>a. createComment d s routePath body (REGION_V1 a))"

definition service_createReply ::
    "reviewDependencies \<Rightarrow> reviewScope \<Rightarrow> string \<Rightarrow> string \<Rightarrow> string \<Rightarrow> reviewReply reviewM" where
  "service_createReply d s commentId routePath body =
    bindM (allow (canComment (act_capabilities (sc_actor s))) REVIEW_FORBIDDEN) (\<lambda>_.
    bindM (requireBindingContext d s) (\<lambda>c.
    bindM (clock d) (\<lambda>createdAt.
    bindM (generateId d) (\<lambda>generated.
    bindM (check (normalizeOpaqueReviewId generated)) (\<lambda>i.
    bindM (check (normalizeOpaqueReviewId commentId)) (\<lambda>threadId.
    bindM (check (normalizeReplyBody body)) (\<lambda>normalizedBody.
    bindM (actor_identity (sc_actor s)) (\<lambda>author.
    bindM (check (extractMentionUsernames normalizedBody)) (\<lambda>names.
    bindM (check (normalizeReviewUsername (act_username (sc_actor s)))) (\<lambda>username.
    bindM (check (normalizeRoutePath routePath)) (\<lambda>route.
    bindM (check (normalizeAuthorizationVersion (act_authorizationVersion (sc_actor s)))) (\<lambda>_.
    bindM (update (\<lambda>r. createReply r (new_reply i threadId normalizedBody author createdAt) username names
      (rev_id (ctx_revision c)) route (repositoryAccess c))) (\<lambda>res.
    case res of
      REPLY_STALE_AUTHORIZATION \<Rightarrow> fail REVIEW_FORBIDDEN
    | REPLY_THREAD_NOT_FOUND \<Rightarrow> fail NOT_FOUND
    | REPLY_STATE_CONFLICT \<Rightarrow> fail STATE_CONFLICT
    | CREATED_REPLY p \<Rightarrow> ret p)))))))))))))"

section \<open>Workflow and content\<close>

definition service_changePageCommentStatus ::
    "reviewDependencies \<Rightarrow> reviewScope \<Rightarrow> string \<Rightarrow> string \<Rightarrow> reviewThreadStatus \<Rightarrow> number option \<Rightarrow> reviewThreadStatus \<Rightarrow>
     pageCommentThread reviewM" where
  "service_changePageCommentStatus d s commentId routePath expectedStatus expectedWorkflowVersion status =
    bindM (allow (canComment (act_capabilities (sc_actor s))) REVIEW_FORBIDDEN) (\<lambda>_.
    bindM (allow (\<not> (status = NEEDS_REVIEW \<and> rd_workflowEnabled d = Some False)) REVIEW_FORBIDDEN) (\<lambda>_.
    bindM (requireBindingContext d s) (\<lambda>c.
    bindM (check (normalizeThreadStatusTransition expectedStatus status)) (\<lambda>(from, to).
    bindM (check (normalizeOpaqueReviewId commentId)) (\<lambda>threadId.
    bindM (check (normalizeRoutePath routePath)) (\<lambda>route.
    bindM (check (normalizeContentVersion (case expectedWorkflowVersion of Some v \<Rightarrow> v | None \<Rightarrow> Integral 1))) (\<lambda>v.
    bindM (actor_identity (sc_actor s)) (\<lambda>actor.
    bindM (check (normalizeAuthorizationVersion (act_authorizationVersion (sc_actor s)))) (\<lambda>_.
    bindM (clock d) (\<lambda>changedAt.
    bindM (update (\<lambda>r. changePageCommentStatus r
      \<lparr>cs_target = \<lparr>tg_threadId = threadId, tg_revisionId = rev_id (ctx_revision c), tg_routePath = route,
         tg_access = repositoryAccess c\<rparr>,
       cs_expectedStatus = from, cs_expectedWorkflowVersion = to_int v,
       cs_actorCanManageProject = canManageProject (act_capabilities (sc_actor s)), cs_status = to,
       cs_actor = actor, cs_changedAt = changedAt\<rparr>)) (\<lambda>res.
    case res of
      STATUS_REVIEWER_UNAVAILABLE \<Rightarrow> fail REVIEWER_UNAVAILABLE
    | STATUS_STALE_AUTHORIZATION \<Rightarrow> fail REVIEW_FORBIDDEN
    | STATUS_THREAD_NOT_FOUND \<Rightarrow> fail NOT_FOUND
    | STATUS_STATE_CONFLICT \<Rightarrow> fail STATE_CONFLICT
    | STATUS_UPDATED t \<Rightarrow> ret t)))))))))))"

definition mutation_target :: "mutation \<Rightarrow> string \<Rightarrow> string \<Rightarrow> threadTarget" where
  "mutation_target m threadId route = \<lparr>tg_threadId = threadId, tg_revisionId = rev_id (ctx_revision (mut_context m)),
     tg_routePath = route, tg_access = repositoryAccess (mut_context m)\<rparr>"

definition mutation_update ::
    "mutation \<Rightarrow> string \<Rightarrow> string \<Rightarrow> number \<Rightarrow> string \<Rightarrow> string list \<Rightarrow> int \<Rightarrow> updateInput" where
  "mutation_update m threadId route v body names changedAt =
    \<lparr>up_target = mutation_target m threadId route, up_expectedVersion = to_int v, up_body = body,
     up_actorUsername = mut_actorUsername m, up_mentionUsernames = names, up_actor = mut_actor m,
     up_changedAt = changedAt\<rparr>"

definition mutation_delete :: "mutation \<Rightarrow> string \<Rightarrow> string \<Rightarrow> number \<Rightarrow> int \<Rightarrow> deleteInput" where
  "mutation_delete m threadId route v changedAt =
    \<lparr>del_target = mutation_target m threadId route, del_expectedVersion = to_int v, del_actor = mut_actor m,
     del_actorCanManageProject = mut_actorCanManageProject m, del_changedAt = changedAt\<rparr>"

definition service_updateComment ::
    "reviewDependencies \<Rightarrow> reviewScope \<Rightarrow> string \<Rightarrow> string \<Rightarrow> number \<Rightarrow> string \<Rightarrow> pageCommentThread reviewM" where
  "service_updateComment d s commentId routePath expectedVersion body =
    bindM (allow (canComment (act_capabilities (sc_actor s))) REVIEW_FORBIDDEN) (\<lambda>_.
    bindM (mutationContext d s) (\<lambda>m.
    bindM (check (normalizeCommentBody body)) (\<lambda>normalizedBody.
    bindM (check (normalizeOpaqueReviewId commentId)) (\<lambda>threadId.
    bindM (check (normalizeRoutePath routePath)) (\<lambda>route.
    bindM (check (normalizeContentVersion expectedVersion)) (\<lambda>v.
    bindM (check (extractMentionUsernames normalizedBody)) (\<lambda>names.
    bindM (clock d) (\<lambda>changedAt.
    bindM (update (\<lambda>r. updateComment r (mutation_update m threadId route v normalizedBody names changedAt)))
      mutation_result))))))))"

definition service_deleteComment ::
    "reviewDependencies \<Rightarrow> reviewScope \<Rightarrow> string \<Rightarrow> string \<Rightarrow> number \<Rightarrow> pageCommentThread reviewM" where
  "service_deleteComment d s commentId routePath expectedVersion =
    bindM (allow (canComment (act_capabilities (sc_actor s)) \<or> canManageProject (act_capabilities (sc_actor s)))
      REVIEW_FORBIDDEN) (\<lambda>_.
    bindM (mutationContext d s) (\<lambda>m.
    bindM (check (normalizeOpaqueReviewId commentId)) (\<lambda>threadId.
    bindM (check (normalizeRoutePath routePath)) (\<lambda>route.
    bindM (check (normalizeContentVersion expectedVersion)) (\<lambda>v.
    bindM (clock d) (\<lambda>changedAt.
    bindM (update (\<lambda>r. deleteComment r (mutation_delete m threadId route v changedAt))) mutation_result))))))"

definition service_updateReply ::
    "reviewDependencies \<Rightarrow> reviewScope \<Rightarrow> string \<Rightarrow> string \<Rightarrow> string \<Rightarrow> number \<Rightarrow> string \<Rightarrow> reviewReply reviewM" where
  "service_updateReply d s commentId replyId routePath expectedVersion body =
    bindM (allow (canComment (act_capabilities (sc_actor s))) REVIEW_FORBIDDEN) (\<lambda>_.
    bindM (mutationContext d s) (\<lambda>m.
    bindM (check (normalizeReplyBody body)) (\<lambda>normalizedBody.
    bindM (check (normalizeOpaqueReviewId commentId)) (\<lambda>threadId.
    bindM (check (normalizeOpaqueReviewId replyId)) (\<lambda>i.
    bindM (check (normalizeRoutePath routePath)) (\<lambda>route.
    bindM (check (normalizeContentVersion expectedVersion)) (\<lambda>v.
    bindM (check (extractMentionUsernames normalizedBody)) (\<lambda>names.
    bindM (clock d) (\<lambda>changedAt.
    bindM (update (\<lambda>r. updateReply r (mutation_update m threadId route v normalizedBody names changedAt) i))
      mutation_result)))))))))"

definition service_deleteReply ::
    "reviewDependencies \<Rightarrow> reviewScope \<Rightarrow> string \<Rightarrow> string \<Rightarrow> string \<Rightarrow> number \<Rightarrow> reviewReply reviewM" where
  "service_deleteReply d s commentId replyId routePath expectedVersion =
    bindM (allow (canComment (act_capabilities (sc_actor s)) \<or> canManageProject (act_capabilities (sc_actor s)))
      REVIEW_FORBIDDEN) (\<lambda>_.
    bindM (mutationContext d s) (\<lambda>m.
    bindM (check (normalizeOpaqueReviewId commentId)) (\<lambda>threadId.
    bindM (check (normalizeOpaqueReviewId replyId)) (\<lambda>i.
    bindM (check (normalizeRoutePath routePath)) (\<lambda>route.
    bindM (check (normalizeContentVersion expectedVersion)) (\<lambda>v.
    bindM (clock d) (\<lambda>changedAt.
    bindM (update (\<lambda>r. deleteReply r (mutation_delete m threadId route v changedAt) i)) mutation_result)))))))"

section \<open>Bindings\<close>

definition service_bindTunnel ::
    "reviewDependencies \<Rightarrow> reviewActor \<Rightarrow> string \<Rightarrow> string \<Rightarrow> string \<Rightarrow> string \<Rightarrow> string \<Rightarrow> number option \<Rightarrow>
     reviewBindingContext reviewM" where
  "service_bindTunnel d actor tunnelOwnerAccountId tunnelId sessionId projectSlug revisionKey expires =
    bindM (allow (canManageProject (act_capabilities actor) \<and> act_accountId actor = tunnelOwnerAccountId)
      REVIEW_FORBIDDEN) (\<lambda>_.
    bindM (check (normalizeOpaqueReviewId (act_accountId actor))) (\<lambda>accountId.
    bindM (check (normalizeOpaqueReviewId tunnelId)) (\<lambda>tunnel.
    bindM (check (normalizeOpaqueReviewId sessionId)) (\<lambda>session.
    bindM (check (normalizeProjectSlug projectSlug)) (\<lambda>slug.
    bindM (check (normalizeRevisionKey revisionKey)) (\<lambda>key.
    bindM (clock d) (\<lambda>createdAt.
    let expiresAt = (case expires of Some e \<Rightarrow> e | None \<Rightarrow> Integral (createdAt + DEFAULT_REVIEW_BINDING_TTL_MS)) in
    bindM (allow (isInteger expiresAt \<and> to_int expiresAt > createdAt) INVALID_INPUT) (\<lambda>_.
    bindM (generateId d) (\<lambda>p.
    bindM (check (normalizeOpaqueReviewId p)) (\<lambda>projectId.
    bindM (generateId d) (\<lambda>v.
    bindM (check (normalizeOpaqueReviewId v)) (\<lambda>revisionId.
    bindM (check (normalizeReviewUsername (act_username actor))) (\<lambda>username.
    bindM (check (normalizeAuthorizationVersion (act_authorizationVersion actor))) (\<lambda>_.
    bindM (update (\<lambda>r. bindTunnel r
      \<lparr>bt_project = \<lparr>prj_id = projectId, prj_ownerAccountId = accountId, prj_slug = slug, prj_displayName = slug,
         prj_createdAt = createdAt\<rparr>,
       bt_revision = \<lparr>rev_id = revisionId, rev_projectId = projectId, rev_key = key, rev_createdByAccountId = accountId,
         rev_createdAt = createdAt\<rparr>,
       bt_binding = \<lparr>bnd_tunnelId = tunnel, bnd_sessionId = session, bnd_revisionId = revisionId,
         bnd_ownerAccountId = accountId, bnd_createdAt = createdAt, bnd_expiresAt = to_int expiresAt\<rparr>,
       bt_actorUsername = username\<rparr>)) (\<lambda>res.
    case res of
      BIND_STALE_AUTHORIZATION \<Rightarrow> fail REVIEW_FORBIDDEN
    | BIND_CONFLICT \<Rightarrow> fail CONFLICT
    | BOUND c \<Rightarrow> ret c)))))))))))))))"

definition service_removeTunnelBinding :: "string \<Rightarrow> string \<Rightarrow> unit reviewM" where
  "service_removeTunnelBinding tunnelId sessionId =
    bindM (check (normalizeOpaqueReviewId tunnelId)) (\<lambda>t.
    bindM (check (normalizeOpaqueReviewId sessionId)) (\<lambda>s.
    update (\<lambda>r. ((), removeTunnelBinding r t s))))"

section \<open>Notifications\<close>

definition service_setNotificationRead ::
    "reviewDependencies \<Rightarrow> reviewScope \<Rightarrow> string \<Rightarrow> string \<Rightarrow> bool \<Rightarrow> reviewNotification reviewM" where
  "service_setNotificationRead d s notificationId routePath read =
    bindM (requireBindingContext d s) (\<lambda>c.
    bindM (check (normalizeReviewNotificationId notificationId)) (\<lambda>i.
    bindM (check (normalizeRoutePath routePath)) (\<lambda>route.
    bindM (actor_identity (sc_actor s)) (\<lambda>actor.
    bindM (check (normalizeAuthorizationVersion (act_authorizationVersion (sc_actor s)))) (\<lambda>_.
    bindM (clock d) (\<lambda>changedAt.
    bindM (try_update (\<lambda>r. setNotificationRead r
      \<lparr>nr_notificationId = decimal_value i, nr_revisionId = rev_id (ctx_revision c), nr_routePath = route, nr_read = read,
       nr_actor = actor, nr_access = repositoryAccess c, nr_changedAt = changedAt\<rparr>)) (\<lambda>res.
    case res of
      READ_STALE_AUTHORIZATION \<Rightarrow> fail REVIEW_FORBIDDEN
    | READ_BINDING_NOT_FOUND \<Rightarrow> fail NOT_FOUND
    | READ_NOTIFICATION_NOT_FOUND \<Rightarrow> fail NOT_FOUND
    | READ_UPDATED n \<Rightarrow> ret n)))))))"

definition setInboxRead ::
    "reviewDependencies \<Rightarrow> reviewActor \<Rightarrow> string \<Rightarrow> bool \<Rightarrow> string option \<Rightarrow> reviewNotification reviewM" where
  "setInboxRead d actor i read threadId =
    bindM (allow (canRead (act_capabilities actor)) REVIEW_FORBIDDEN) (\<lambda>_.
    bindM (check (normalizeReviewNotificationId i)) (\<lambda>notificationId.
    bindM (ask (\<lambda>r. findNotificationForAccount r (decimal_value notificationId) (act_accountId actor))) (\<lambda>found.
    case found of
      None \<Rightarrow> fail NOT_FOUND
    | Some n \<Rightarrow>
        bindM (allow (threadId = None \<or> threadId = Some (ntf_threadId n)) NOT_FOUND) (\<lambda>_.
        bindM (ask (\<lambda>r. findRevisionContext r None (ntf_revisionId n))) (\<lambda>c.
        case c of
          None \<Rightarrow> fail NOT_FOUND
        | Some (project, revision) \<Rightarrow>
            bindM (clock d) (\<lambda>changedAt.
            bindM (try_update (\<lambda>r. setNotificationRead r
              \<lparr>nr_notificationId = decimal_value i, nr_revisionId = ntf_revisionId n, nr_routePath = ntf_routePath n,
               nr_read = read, nr_actor = \<lparr>idn_accountId = act_accountId actor, idn_displayName = act_displayName actor\<rparr>,
               nr_access = \<lparr>ac_tunnelId = None, ac_sessionId = None, ac_controlProjectId = Some (prj_id project)\<rparr>,
               nr_changedAt = changedAt\<rparr>)) (\<lambda>res.
            case res of
              READ_UPDATED m \<Rightarrow> ret m
            | READ_STALE_AUTHORIZATION \<Rightarrow> fail REVIEW_FORBIDDEN
            | _ \<Rightarrow> fail NOT_FOUND)))))))"

section \<open>Queries\<close>

definition getFeatures :: "reviewDependencies \<Rightarrow> int \<times> bool" where
  "getFeatures d = (1, case rd_workflowEnabled d of Some b \<Rightarrow> b | None \<Rightarrow> True)"

definition service_listInbox :: "reviewActor \<Rightarrow> string option \<Rightarrow> bool option \<Rightarrow> inboxPage reviewM" where
  "service_listInbox actor before unreadOnly =
    bindM (allow (canRead (act_capabilities actor)) REVIEW_FORBIDDEN) (\<lambda>_.
    bindM (case before of None \<Rightarrow> ret None
      | Some b \<Rightarrow> bindM (check (normalizeReviewNotificationId b)) (\<lambda>i. ret (Some (decimal_value i)))) (\<lambda>cursor.
    ask (\<lambda>r. listInbox r (act_accountId actor) cursor (case unreadOnly of Some u \<Rightarrow> u | None \<Rightarrow> False))))"

definition service_listMentionCandidates ::
    "reviewDependencies \<Rightarrow> reviewScope \<Rightarrow> string \<Rightarrow> (string \<times> string) list reviewM" where
  "service_listMentionCandidates d s pfx =
    bindM (requireBindingContext d s) (\<lambda>c.
    bindM (allow (length pfx \<le> 63 \<and>
        list_all (\<lambda>x. lower_or_digit x \<or> x = CHR ''.'' \<or> x = CHR ''_'' \<or> x = CHR ''-'') pfx) INVALID_INPUT) (\<lambda>_.
    ask (\<lambda>r. listMentionCandidates (rd_localeCompare d) r (rev_id (ctx_revision c)) pfx)))"

definition service_listProjects :: "reviewActor \<Rightarrow> (reviewProject \<times> int \<times> int) list reviewM" where
  "service_listProjects actor =
    bindM (allow (canRead (act_capabilities actor)) REVIEW_FORBIDDEN) (\<lambda>_. ask listProjects)"

definition service_listRevisions ::
    "reviewDependencies \<Rightarrow> reviewActor \<Rightarrow> string \<Rightarrow> (reviewRevision \<times> int) list reviewM" where
  "service_listRevisions d actor projectId =
    bindM (allow (canRead (act_capabilities actor)) REVIEW_FORBIDDEN) (\<lambda>_.
    bindM (check (normalizeOpaqueReviewId projectId)) (\<lambda>i.
    ask (\<lambda>r. listRevisions (rd_localeCompare d) r i)))"

definition getThreadForControl ::
    "reviewDependencies \<Rightarrow> reviewActor \<Rightarrow> string \<Rightarrow> (reviewProject \<times> reviewRevision \<times> pageCommentPageItem) reviewM" where
  "getThreadForControl d actor threadId =
    bindM (allow (canRead (act_capabilities actor)) REVIEW_FORBIDDEN) (\<lambda>_.
    bindM (check (normalizeOpaqueReviewId threadId)) (\<lambda>i.
    bindM (ask (\<lambda>r. findThread (rd_localeCompare d) r i)) (\<lambda>found.
    bindM (check found) (\<lambda>item.
    case item of
      None \<Rightarrow> fail NOT_FOUND
    | Some t \<Rightarrow>
        bindM (ask (\<lambda>r. findRevisionContext r None (thd_revisionId (fst t)))) (\<lambda>c.
        case c of Some (project, revision) \<Rightarrow> ret (project, revision, t) | None \<Rightarrow> fail NOT_FOUND)))))"

definition getThread ::
    "reviewDependencies \<Rightarrow> reviewScope \<Rightarrow> string \<Rightarrow> string option \<Rightarrow> pageCommentPageItem reviewM" where
  "getThread d s commentId routePath =
    bindM (requireBindingContext d s) (\<lambda>c.
    bindM (check (normalizeOpaqueReviewId commentId)) (\<lambda>i.
    bindM (ask (\<lambda>r. findThread (rd_localeCompare d) r i)) (\<lambda>found.
    bindM (check found) (\<lambda>item.
    case item of
      None \<Rightarrow> fail NOT_FOUND
    | Some t \<Rightarrow>
        if thd_revisionId (fst t) \<noteq> rev_id (ctx_revision c) then fail NOT_FOUND
        else (case routePath of
          None \<Rightarrow> ret t
        | Some p \<Rightarrow> bindM (check (normalizeRoutePath p)) (\<lambda>route.
            if thd_routePath (fst t) \<noteq> route then fail NOT_FOUND else ret t))))))"

record reviewContextView =
  rcv_project :: "string \<times> string \<times> string"
  rcv_revision :: "string \<times> string"
  rcv_features :: "int \<times> bool"
  rcv_principal :: "string \<times> string \<times> string \<times> bool \<times> bool"

definition getContext :: "reviewDependencies \<Rightarrow> reviewScope \<Rightarrow> reviewContextView reviewM" where
  "getContext d s =
    bindM (requireBindingContext d s) (\<lambda>c.
    let p = ctx_project c; v = ctx_revision c; a = sc_actor s in
    ret \<lparr>rcv_project = (prj_id p, prj_slug p, prj_displayName p), rcv_revision = (rev_id v, rev_key v),
      rcv_features = getFeatures d,
      rcv_principal = (act_accountId a, act_username a, act_displayName a, canComment (act_capabilities a),
        canManageProject (act_capabilities a))\<rparr>)"

definition filter_status :: "string option \<Rightarrow> reviewErrorCode + reviewThreadStatus option" where
  "filter_status v = (case v of
     None \<Rightarrow> Inr None
   | Some x \<Rightarrow> if x = ''OPEN'' then Inr (Some OPEN) else if x = ''RESOLVED'' then Inr (Some RESOLVED)
       else if x = ''ALL'' then Inr None else Inl INVALID_INPUT)"

definition filter_author :: "string option \<Rightarrow> string \<Rightarrow> reviewErrorCode + string option" where
  "filter_author v accountId = (case v of
     None \<Rightarrow> Inr None | Some x \<Rightarrow> if x = ''me'' then Inr (Some accountId) else Inl INVALID_INPUT)"

fun status_scope :: "reviewThreadStatus option \<Rightarrow> string" where
  "status_scope None = ''ALL''"
| "status_scope (Some OPEN) = ''OPEN''"
| "status_scope (Some NEEDS_REVIEW) = ''NEEDS_REVIEW''"
| "status_scope (Some RESOLVED) = ''RESOLVED''"

definition service_listPageCommentPage ::
    "reviewDependencies \<Rightarrow> reviewScope \<Rightarrow> string option \<Rightarrow> reviewPageCursor option \<Rightarrow> string option \<Rightarrow> string option \<Rightarrow>
     pageCommentPage reviewM" where
  "service_listPageCommentPage d s route before statusFilter author =
    bindM (requireBindingContext d s) (\<lambda>c.
    bindM (if route = None \<and> sc_controlProjectId s \<noteq> None then ret None
      else bindM (check (normalizeRoutePath (case route of Some p \<Rightarrow> p | None \<Rightarrow> []))) (\<lambda>p. ret (Some p))) (\<lambda>routePath.
    bindM (check (filter_status statusFilter)) (\<lambda>status.
    bindM (check (filter_author author (act_accountId (sc_actor s)))) (\<lambda>authorAccountId.
    let scope = rd_scopeDigest d (rev_id (ctx_revision c)) routePath (status_scope status) authorAccountId in
    bindM (allow (case before of None \<Rightarrow> True
      | Some b \<Rightarrow> \<not> (cur_scope b \<noteq> Some scope \<and> (cur_scope b \<noteq> None \<or> status \<noteq> None \<or> authorAccountId \<noteq> None)))
      INVALID_INPUT) (\<lambda>_.
    bindM (ask (\<lambda>r. listPageCommentPage (rd_localeCompare d) r
      \<lparr>pc_revisionId = rev_id (ctx_revision c), pc_routePath = routePath, pc_before = before,
       pc_limit = DEFAULT_PAGE_COMMENT_LIMIT, pc_replyLimit = DEFAULT_REPLY_LIMIT_PER_THREAD,
       pc_summaryOnly = (sc_controlProjectId s \<noteq> None), pc_status = status, pc_authorAccountId = authorAccountId\<rparr>)) (\<lambda>res.
    bindM (check res) (\<lambda>page.
    case pgi_nextCursor (pcp_pageInfo page) of
      None \<Rightarrow> ret page
    | Some n \<Rightarrow> ret (page\<lparr>pcp_pageInfo := (pcp_pageInfo page)\<lparr>pgi_nextCursor := Some (n\<lparr>cur_scope := Some scope\<rparr>)\<rparr>\<rparr>))))))))"

definition service_listReplyPage ::
    "reviewDependencies \<Rightarrow> reviewScope \<Rightarrow> string \<Rightarrow> string \<Rightarrow> reviewPageCursor option \<Rightarrow>
     (reviewReply list \<times> reviewThreadStatus \<times> reviewPageInfo) reviewM" where
  "service_listReplyPage d s commentId routePath before =
    bindM (requireBindingContext d s) (\<lambda>c.
    bindM (check (normalizeRoutePath routePath)) (\<lambda>route.
    bindM (check (normalizeOpaqueReviewId commentId)) (\<lambda>threadId.
    bindM (ask (\<lambda>r. listReplyPage (rd_localeCompare d) r (rev_id (ctx_revision c)) route threadId before
      DEFAULT_REPLY_LIMIT_PER_THREAD)) (\<lambda>res.
    bindM (check res) (\<lambda>page.
    case page of None \<Rightarrow> fail NOT_FOUND | Some p \<Rightarrow> ret p)))))"

definition service_listEvents ::
    "reviewDependencies \<Rightarrow> reviewScope \<Rightarrow> string \<Rightarrow> string option \<Rightarrow> reviewEvent list reviewM" where
  "service_listEvents d s routePath afterId =
    bindM (requireBindingContext d s) (\<lambda>c.
    bindM (check (normalizeRoutePath routePath)) (\<lambda>route.
    bindM (check (normalizeReviewEventCursor afterId)) (\<lambda>cursor.
    bindM (check (normalizeOpaqueReviewId (act_accountId (sc_actor s)))) (\<lambda>accountId.
    bindM (check (normalizeAuthorizationVersion (act_authorizationVersion (sc_actor s)))) (\<lambda>_.
    bindM (ask (\<lambda>r. listReviewEvents r
      \<lparr>le_revisionId = rev_id (ctx_revision c), le_routePath = route, le_afterId = decimal_value cursor,
       le_limit = DEFAULT_REVIEW_EVENT_LIMIT, le_actorAccountId = accountId, le_access = repositoryAccess c\<rparr>)) (\<lambda>res.
    case res of
      EVENTS_STALE_AUTHORIZATION \<Rightarrow> fail REVIEW_FORBIDDEN
    | EVENTS_BINDING_NOT_FOUND \<Rightarrow> fail NOT_FOUND
    | EVENTS_CURSOR_EXPIRED \<Rightarrow> fail CURSOR_EXPIRED
    | EVENTS_FOUND es \<Rightarrow> ret es))))))"

definition service_listNotifications ::
    "reviewDependencies \<Rightarrow> reviewScope \<Rightarrow> string \<Rightarrow> reviewNotification list reviewM" where
  "service_listNotifications d s routePath =
    bindM (requireBindingContext d s) (\<lambda>c.
    bindM (check (normalizeRoutePath routePath)) (\<lambda>route.
    bindM (check (normalizeOpaqueReviewId (act_accountId (sc_actor s)))) (\<lambda>accountId.
    bindM (check (normalizeAuthorizationVersion (act_authorizationVersion (sc_actor s)))) (\<lambda>_.
    bindM (ask (\<lambda>r. listNotifications r (rev_id (ctx_revision c)) route DEFAULT_REVIEW_NOTIFICATION_LIMIT accountId
      (repositoryAccess c))) (\<lambda>res.
    case res of
      NOTIFICATIONS_STALE_AUTHORIZATION \<Rightarrow> fail REVIEW_FORBIDDEN
    | NOTIFICATIONS_BINDING_NOT_FOUND \<Rightarrow> fail NOT_FOUND
    | NOTIFICATIONS_FOUND ns \<Rightarrow> ret ns)))))"

end
