(* ===== verification/ReviewProps.thy ===== *)
theory ReviewProps
  imports ReviewInvariants
begin

text \<open>
  The properties of the review repository over every sequence of calls: what it stores refers to what
  is stored, threads keep their history, concurrent edits do not overwrite each other, pins are unique,
  notifications go to others and are announced, and readers of pages and of the event log lose nothing.
\<close>

declare map_of_eq_Some_iff [simp del]

abbreviation reviewed :: "reviewOp list \<Rightarrow> reviewRepository" where
  "reviewed ops \<equiv> run_machine review_step newReviewRepository ops"

lemma reviewed_inv: "review_inv (reviewed ops)"
  by (rule review.run_inv) (rule refl)

text \<open>A small run for the concrete instances below: a binding, two region comments, a reply and an edit.\<close>

definition sample_owner :: reviewIdentity where "sample_owner = \<lparr>idn_accountId = ''owner'', idn_displayName = ''O''\<rparr>"
definition sample_guest :: reviewIdentity where "sample_guest = \<lparr>idn_accountId = ''guest'', idn_displayName = ''G''\<rparr>"

definition sample_access :: reviewAccess where
  "sample_access = \<lparr>ac_tunnelId = Some ''t'', ac_sessionId = Some ''s'', ac_controlProjectId = None\<rparr>"

definition sample_binding :: reviewTunnelBinding where
  "sample_binding = \<lparr>bnd_tunnelId = ''t'', bnd_sessionId = ''s'', bnd_revisionId = ''v'', bnd_ownerAccountId = ''owner'',
     bnd_createdAt = 1, bnd_expiresAt = 100\<rparr>"

definition sample_bind :: reviewOp where
  "sample_bind = BindTunnel
    \<lparr>bt_project = \<lparr>prj_id = ''p'', prj_ownerAccountId = ''owner'', prj_slug = ''app'', prj_displayName = ''app'', prj_createdAt = 1\<rparr>,
     bt_revision = \<lparr>rev_id = ''v'', rev_projectId = ''p'', rev_key = ''main'', rev_createdByAccountId = ''owner'', rev_createdAt = 1\<rparr>,
     bt_binding = sample_binding, bt_actorUsername = ''owner-name''\<rparr>"

definition sample_region :: reviewAnchor where
  "sample_region = REGION_V1 \<lparr>rgn_selection = POINT, rgn_x = 1, rgn_y = 1, rgn_width = 0, rgn_height = 0,
     rgn_document = (1000, 1000), rgn_viewport = (1000, 1000), rgn_element = None\<rparr>"

definition sample_comment :: "string \<Rightarrow> reviewOp" where
  "sample_comment i = CreatePageComment i ''v'' ''/'' sample_region ''Hi @owner-name'' sample_guest 2 ''guest-name''
     [''owner-name''] sample_access"

definition sample_target :: "string \<Rightarrow> threadTarget" where
  "sample_target i = \<lparr>tg_threadId = i, tg_revisionId = ''v'', tg_routePath = ''/'', tg_access = sample_access\<rparr>"

definition sample_update :: "string \<Rightarrow> int \<Rightarrow> updateInput" where
  "sample_update i n = \<lparr>up_target = sample_target i, up_expectedVersion = n, up_body = ''Edited'', up_actorUsername = ''guest-name'',
     up_mentionUsernames = [], up_actor = sample_guest, up_changedAt = 3\<rparr>"

definition sample_delete :: "string \<Rightarrow> int \<Rightarrow> deleteInput" where
  "sample_delete i n = \<lparr>del_target = sample_target i, del_expectedVersion = n, del_actor = sample_guest,
     del_actorCanManageProject = False, del_changedAt = 4\<rparr>"

section \<open>Position order and pages\<close>

text \<open>What is documented of \<^verbatim>\<open>localeCompare\<close> on distinct ids: a total order.\<close>

definition locale_order :: "(string \<Rightarrow> string \<Rightarrow> int) \<Rightarrow> bool" where
  "locale_order lc = ((\<forall>a b. (lc a b = 0) = (a = b)) \<and> (\<forall>a b. (lc a b < 0) = (lc b a > 0)) \<and>
     (\<forall>a b c. lc a b < 0 \<and> lc b c < 0 \<longrightarrow> lc a c < 0))"

lemma position_order:
  assumes "locale_order lc"
  shows "compareReviewPosition lc p q = 0 \<longleftrightarrow> p = q"
    "compareReviewPosition lc p q < 0 \<longleftrightarrow> compareReviewPosition lc q p > 0"
    "compareReviewPosition lc p q < 0 \<Longrightarrow> compareReviewPosition lc q s < 0 \<Longrightarrow> compareReviewPosition lc p s < 0"
proof -
  have z: "lc a b = 0 \<longleftrightarrow> a = b" and n: "lc a b < 0 \<longleftrightarrow> lc b a > 0" for a b
    using assms by (auto simp: locale_order_def)
  have tr: "lc a b < 0 \<Longrightarrow> lc b c < 0 \<Longrightarrow> lc a c < 0" for a b c
    using assms unfolding locale_order_def by blast
  show "compareReviewPosition lc p q = 0 \<longleftrightarrow> p = q"
    by (cases p; cases q) (auto simp: compareReviewPosition_def z)
  show "compareReviewPosition lc p q < 0 \<longleftrightarrow> compareReviewPosition lc q p > 0"
    using n [of "snd p" "snd q"] by (auto simp: compareReviewPosition_def Let_def)
  show "compareReviewPosition lc p q < 0 \<Longrightarrow> compareReviewPosition lc q s < 0 \<Longrightarrow> compareReviewPosition lc p s < 0"
    using tr [of "snd p" "snd q" "snd s"] by (auto simp: compareReviewPosition_def Let_def split: if_splits)
qed

lemma sorted_insert_by:
  assumes "\<And>x y. cmp x y > 0 \<Longrightarrow> cmp y x \<le> 0" "\<And>x y z. cmp x y \<le> 0 \<Longrightarrow> cmp y z \<le> 0 \<Longrightarrow> cmp x z \<le> 0"
    "sorted_wrt (\<lambda>x y. cmp x y \<le> 0) ys"
  shows "sorted_wrt (\<lambda>x y. cmp x y \<le> 0) (insert_by cmp x ys)"
  using assms(3)
proof (induction ys)
  case (Cons y ys)
  then show ?case using assms(1) [of x y] assms(2) [of x y] by auto
qed simp

lemma sorted_sort_by:
  assumes "\<And>x y. cmp x y > 0 \<Longrightarrow> cmp y x \<le> (0::int)" "\<And>x y z. cmp x y \<le> 0 \<Longrightarrow> cmp y z \<le> 0 \<Longrightarrow> cmp x z \<le> 0"
  shows "sorted_wrt (\<lambda>x y. cmp x y \<le> 0) (sort_by cmp xs)"
  by (induction xs) (simp_all add: sort_by_def sorted_insert_by [OF assms])

lemma sorted_wrt_unique:
  assumes "\<And>x y. R x y \<Longrightarrow> \<not> R y x" "sorted_wrt R xs" "sorted_wrt R ys" "set xs = set ys"
  shows "xs = ys"
  using assms(2-4)
proof (induction xs arbitrary: ys)
  case (Cons x xs)
  then obtain y ys' where ys: "ys = y # ys'" by (cases ys) auto
  have irr: "\<not> R z z" for z using assms(1) by blast
  have "x = y \<or> x \<in> set ys' \<and> y \<in> set xs" using Cons.prems(3) ys by auto
  then have "x = y" using Cons.prems(1,2) ys assms(1) [of x y] by auto
  moreover have "x \<notin> set xs" "y \<notin> set ys'" using Cons.prems ys irr by auto
  ultimately have "set xs = set ys'" using Cons.prems(3) ys by auto
  with Cons ys \<open>x = y\<close> show ?case by simp
qed simp

lemma sorted_wrt_nth_iff:
  assumes "\<And>x y. R x y \<Longrightarrow> \<not> R y x" "sorted_wrt R xs" "i < length xs" "j < length xs"
  shows "R (xs ! i) (xs ! j) \<longleftrightarrow> i < j"
proof (cases i j rule: linorder_cases)
  case greater
  then have "R (xs ! j) (xs ! i)" using assms(2,3) by (simp add: sorted_wrt_iff_nth_less)
  with greater assms(1) show ?thesis by auto
qed (use assms in \<open>auto simp: sorted_wrt_iff_nth_less\<close>)

lemma set_drop_nth: "distinct xs \<Longrightarrow> i < length xs \<Longrightarrow> xs ! i \<in> set (drop n xs) \<longleftrightarrow> n \<le> i"
  by (induction xs arbitrary: n i) (auto simp: drop_Cons nth_Cons split: nat.splits dest: in_set_dropD)

text \<open>The items before a cursor, newest first.\<close>

definition newest_first ::
    "(string \<Rightarrow> string \<Rightarrow> int) \<Rightarrow> ('a \<Rightarrow> position) \<Rightarrow> 'a list \<Rightarrow> reviewPageCursor option \<Rightarrow> 'a list" where
  "newest_first lc pos xs before = sort_by (\<lambda>l r. compareReviewPosition lc (pos r) (pos l))
     (filter (\<lambda>x. case before of None \<Rightarrow> True
        | Some c \<Rightarrow> compareReviewPosition lc (pos x) (cur_createdAt c, cur_id c) < 0) xs)"

lemma newest_first_sorted:
  assumes "locale_order lc" "distinct (map pos xs)"
  shows "sorted_wrt (\<lambda>x y. compareReviewPosition lc (pos y) (pos x) < 0) (newest_first lc pos xs before)"
proof -
  note po = position_order [OF assms(1)]
  let ?D = "newest_first lc pos xs before"
  have "sorted_wrt (\<lambda>x y. compareReviewPosition lc (pos y) (pos x) \<le> 0) ?D"
    unfolding newest_first_def by (rule sorted_sort_by) (metis po(1-3) less_le not_less)+
  moreover have "distinct (map pos ?D)"
  proof -
    have "distinct xs" using assms(2) by (simp add: distinct_map)
    then have "distinct ?D" by (simp add: newest_first_def)
    moreover have "inj_on pos (set ?D)" using assms(2) by (auto simp: newest_first_def distinct_map inj_on_def)
    ultimately show ?thesis by (simp add: distinct_map)
  qed
  then have "sorted_wrt (\<lambda>x y. pos x \<noteq> pos y) ?D" by (simp add: distinct_map sorted_wrt_iff_nth_less distinct_conv_nth inj_on_def)
  ultimately show ?thesis using po(1) by (auto simp: sorted_wrt_iff_nth_less less_le) metis
qed

lemma selectReviewPage_eq:
  "selectReviewPage lc pos xs before n =
    (let D = newest_first lc pos xs before in
     if length D > n \<and> take n D \<noteq> []
     then (case page_cursor (pos (last (take n D))) of
             Inl e \<Rightarrow> Inl e
           | Inr c \<Rightarrow> Inr (rev (take n D), \<lparr>pgi_hasMore = length D > n, pgi_nextCursor = Some c\<rparr>))
     else Inr (rev (take n D), \<lparr>pgi_hasMore = length D > n, pgi_nextCursor = None\<rparr>))"
  by (simp add: selectReviewPage_def newest_first_def Let_def)

lemma page_cursor_position: "page_cursor p = Inr c \<Longrightarrow> (cur_createdAt c, cur_id c) = p"
  by (cases p) (auto simp: page_cursor_def normalizeOpaqueReviewId_def split: sum.splits if_splits)

lemma newest_first_next:
  assumes "locale_order lc" "distinct (map pos xs)" "0 < n" "n < length (newest_first lc pos xs before)"
    "(cur_createdAt c, cur_id c) = pos (newest_first lc pos xs before ! (n - 1))"
  shows "newest_first lc pos xs (Some c) = drop n (newest_first lc pos xs before)"
proof -
  let ?D = "newest_first lc pos xs before"
  let ?less = "\<lambda>x y. compareReviewPosition lc (pos y) (pos x) < 0"
  note po = position_order [OF assms(1)]
  note sorted = newest_first_sorted [OF assms(1,2)]
  have asym: "?less x y \<Longrightarrow> \<not> ?less y x" for x y using po(2) by (metis less_asym)
  have mem: "x \<in> set (newest_first lc pos xs b) \<longleftrightarrow> x \<in> set xs \<and>
      (case b of None \<Rightarrow> True | Some c \<Rightarrow> compareReviewPosition lc (pos x) (cur_createdAt c, cur_id c) < 0)" for b x
    by (simp add: newest_first_def)
  have last: "?D ! (n - 1) \<in> set ?D" using assms(3,4) by simp
  have after: "?less (?D ! (n - 1)) x \<longleftrightarrow> x \<in> set (drop n ?D)" if "x \<in> set ?D" for x
  proof -
    from that obtain i where i: "i < length ?D" "x = ?D ! i" by (auto simp: in_set_conv_nth)
    have "?less (?D ! (n - 1)) x \<longleftrightarrow> n - 1 < i"
      unfolding i(2) by (rule sorted_wrt_nth_iff [OF asym sorted]) (use i assms(3,4) in \<open>simp_all\<close>)
    also have "\<dots> \<longleftrightarrow> x \<in> set (drop n ?D)"
      using i assms(2,3) set_drop_nth [of ?D i n] by (auto simp: newest_first_def distinct_map)
    finally show ?thesis .
  qed
  have older: "x \<in> set ?D" if "x \<in> set xs" "?less (?D ! (n - 1)) x" for x
    using that last po(3) [of "pos x" "pos (?D ! (n - 1))"] by (cases before) (simp_all add: mem)
  have "x \<in> set (newest_first lc pos xs (Some c)) \<longleftrightarrow> x \<in> set (drop n ?D)" for x
  proof -
    have "x \<in> set (newest_first lc pos xs (Some c)) \<longleftrightarrow> x \<in> set xs \<and> ?less (?D ! (n - 1)) x"
      using assms(5) by (simp add: mem)
    moreover have "x \<in> set ?D \<Longrightarrow> x \<in> set xs" by (simp add: mem)
    ultimately show ?thesis using older [of x] after [of x] in_set_dropD [of x n ?D] by blast
  qed
  then have "set (newest_first lc pos xs (Some c)) = set (drop n ?D)" by blast
  moreover have "sorted_wrt ?less (drop n ?D)" using sorted [of before] by (rule sorted_wrt_drop)
  ultimately show ?thesis
    using sorted_wrt_unique [OF asym sorted] by blast
qed

lemma page_items:
  "selectReviewPage lc pos xs before n = Inr (items, info) \<Longrightarrow>
   items = rev (take n (newest_first lc pos xs before)) \<and>
   (pgi_nextCursor info = None \<longleftrightarrow> n = 0 \<or> length (newest_first lc pos xs before) \<le> n)"
  by (auto simp: selectReviewPage_eq Let_def split: if_splits sum.splits)

lemma page_next:
  assumes "selectReviewPage lc pos xs before n = Inr (items, info)" "pgi_nextCursor info = Some c"
  shows "0 < n" "n < length (newest_first lc pos xs before)"
    "(cur_createdAt c, cur_id c) = pos (newest_first lc pos xs before ! (n - 1))"
proof -
  let ?D = "newest_first lc pos xs before"
  show n: "0 < n" "n < length ?D"
    using page_items [OF assms(1)] assms(2) by (auto simp: not_le)
  have "page_cursor (pos (last (take n ?D))) = Inr c"
    using assms n by (auto simp: selectReviewPage_eq Let_def split: if_splits sum.splits)
  then show "(cur_createdAt c, cur_id c) = pos (?D ! (n - 1))"
    using n page_cursor_position [of "pos (last (take n ?D))" c] last_conv_nth [of "take n ?D"]
    by (cases "?D = []") (simp_all add: min_def)
qed

text \<open>The order of code units, the order of \<^verbatim>\<open>localeCompare\<close> in the C locale.\<close>

definition code_unit_order :: "string \<Rightarrow> string \<Rightarrow> int" where
  "code_unit_order a b = (if a = b then 0 else if a < b then - 1 else 1)"

lemma code_unit_order: "locale_order code_unit_order"
  by (auto simp: locale_order_def code_unit_order_def)

text \<open>
  Following the cursor of a page loses and repeats nothing: on items at distinct positions, and
  with \<^verbatim>\<open>localeCompare\<close> a total order, the page of size n and the page of size m from its cursor are
  together the page of size n + m, with the same end of list and the same next cursor; and a page
  without a cursor holds every item that was left.
\<close>

theorem pages_compose:
  assumes "locale_order lc" "distinct (map pos xs)" "0 < n"
    and first: "selectReviewPage lc pos xs before n = Inr (items, info)"
  shows "case pgi_nextCursor info of
      Some c \<Rightarrow> (\<forall>m items2 info2. 0 < m \<and> selectReviewPage lc pos xs (Some c) m = Inr (items2, info2) \<longrightarrow>
        selectReviewPage lc pos xs before (n + m) = Inr (items2 @ items, info2))
    | None \<Rightarrow> set items = {x \<in> set xs. case before of None \<Rightarrow> True
        | Some b \<Rightarrow> compareReviewPosition lc (pos x) (cur_createdAt b, cur_id b) < 0}"
proof (cases "pgi_nextCursor info")
  case None
  then have "items = rev (newest_first lc pos xs before)" using page_items [OF first] assms(3) by simp
  with None show ?thesis by (simp add: newest_first_def)
next
  case (Some c)
  let ?D = "newest_first lc pos xs before"
  note c = page_next [OF first Some]
  have next_page: "newest_first lc pos xs (Some c) = drop n ?D" by (rule newest_first_next [OF assms(1,2) c])
  have items: "items = rev (take n ?D)" using page_items [OF first] by simp
  have "selectReviewPage lc pos xs before (n + m) = Inr (items2 @ items, info2)"
    if m: "0 < m" and page: "selectReviewPage lc pos xs (Some c) m = Inr (items2, info2)" for m items2 info2
  proof -
    have "items2 = rev (take m (drop n ?D))" using page_items [OF page] by (simp add: next_page)
    then have "rev (take (n + m) ?D) = items2 @ items" by (simp add: items take_add)
    moreover have "last (take m (drop n ?D)) = last (take (n + m) ?D)"
      using c m by (simp add: take_add)
    ultimately show ?thesis
      using page c m by (auto simp: selectReviewPage_eq next_page Let_def split: if_splits sum.splits)
  qed
  with Some show ?thesis by simp
qed

theorem pages_compose_witness:
  "selectReviewPage code_unit_order id [(1, ''a''), (2, ''c''), (2, ''b'')] None 1
     = Inr ([(2, ''c'')], \<lparr>pgi_hasMore = True, pgi_nextCursor = Some \<lparr>cur_createdAt = 2, cur_id = ''c'', cur_scope = None\<rparr>\<rparr>) \<and>
   selectReviewPage code_unit_order id [(1, ''a''), (2, ''c''), (2, ''b'')] None (1 + 1)
     = Inr ([(2, ''b'')] @ [(2, ''c'')],
         \<lparr>pgi_hasMore = True, pgi_nextCursor = Some \<lparr>cur_createdAt = 2, cur_id = ''b'', cur_scope = None\<rparr>\<rparr>)"
proof -
  let ?xs = "[(1, ''a''), (2, ''c''), (2, ''b'')] :: position list"
  let ?c = "\<lparr>cur_createdAt = 2, cur_id = ''c'', cur_scope = None\<rparr> :: reviewPageCursor"
  have 1: "selectReviewPage code_unit_order id ?xs None 1
      = Inr ([(2, ''c'')], \<lparr>pgi_hasMore = True, pgi_nextCursor = Some ?c\<rparr>)" by code_simp
  have 2: "selectReviewPage code_unit_order id ?xs (Some ?c) 1
      = Inr ([(2, ''b'')], \<lparr>pgi_hasMore = True, pgi_nextCursor = Some \<lparr>cur_createdAt = 2, cur_id = ''b'', cur_scope = None\<rparr>\<rparr>)"
    by code_simp
  show ?thesis
    using pages_compose [OF code_unit_order, of id ?xs 1 None, OF _ _ 1] 1 2 by simp
qed

section \<open>References\<close>

text \<open>
  Whatever calls came before, what the repository stores refers to what it stores: a live binding
  always gives its review context, with the revision it names and that revision's project; every
  thread's revision gives a context; and marking a notification as read never throws because its
  thread disappeared.
\<close>

theorem references_resolve:
  "(\<forall>i b. map_get (bindings (reviewed ops)) i = Some b \<longrightarrow>
      (\<exists>p v. findBindingContext (reviewed ops) i (bnd_sessionId b) = Some (p, v, b) \<and>
         bnd_tunnelId b = i \<and> rev_id v = bnd_revisionId b \<and> prj_id p = rev_projectId v)) \<and>
   (\<forall>i t. map_get (threads (reviewed ops)) i = Some t \<longrightarrow>
      (\<exists>p v. findRevisionContext (reviewed ops) None (thd_revisionId t) = Some (p, v) \<and> rev_id v = thd_revisionId t)) \<and>
   fst (setNotificationRead (reviewed ops) input) \<noteq> Inl ReviewThreadDisappeared"
proof -
  let ?r = "reviewed ops"
  have inv: "review_inv ?r" by (rule reviewed_inv)
  have ctxt: "\<exists>p v. map_get (revisions ?r) i = Some v \<and> map_get (projects ?r) (rev_projectId v) = Some p \<and>
      rev_id v = i \<and> prj_id p = rev_projectId v" if "map_has (revisions ?r) i" for i
  proof -
    from that obtain v where v: "map_get (revisions ?r) i = Some v" by blast
    then obtain p where "map_get (projects ?r) (rev_projectId v) = Some p"
      using inv unfolding review_inv_def store_inv_def by blast
    with v inv show ?thesis by (auto simp: review_inv_def store_inv_def dest: keyedD)
  qed
  have "\<exists>p v. findBindingContext ?r i (bnd_sessionId b) = Some (p, v, b) \<and> bnd_tunnelId b = i \<and>
      rev_id v = bnd_revisionId b \<and> prj_id p = rev_projectId v" if b: "map_get (bindings ?r) i = Some b" for i b
  proof -
    have "map_has (revisions ?r) (bnd_revisionId b)" "bnd_tunnelId b = i"
      using inv b unfolding review_inv_def store_inv_def by (blast dest: keyedD)+
    with ctxt b show ?thesis by (fastforce simp: findBindingContext_def)
  qed
  moreover have "\<exists>p v. findRevisionContext ?r None (thd_revisionId t) = Some (p, v) \<and> rev_id v = thd_revisionId t"
    if t: "map_get (threads ?r) i = Some t" for i t
  proof -
    have "map_has (revisions ?r) (thd_revisionId t)"
      using inv t unfolding review_inv_def store_inv_def by blast
    with ctxt show ?thesis by (fastforce simp: findRevisionContext_def)
  qed
  moreover have "fst (setNotificationRead ?r input) \<noteq> Inl ReviewThreadDisappeared"
  proof (cases "findIndex (own_notification input) (notifications ?r)")
    case (Some i)
    then have "notifications ?r ! i \<in> set (notifications ?r)" using findIndex_Some by fastforce
    with notification_thread [OF inv] obtain t where
      "map_get (threads ?r) (ntf_threadId (notifications ?r ! i)) = Some t" by blast
    with Some show ?thesis by (simp add: setNotificationRead_def Let_def)
  qed (simp add: setNotificationRead_def)
  ultimately show ?thesis by blast
qed

theorem references_resolve_witness:
  "map_get (bindings (reviewed [sample_bind])) ''t'' = Some sample_binding \<and>
   (\<exists>p v. findBindingContext (reviewed [sample_bind]) ''t'' ''s'' = Some (p, v, sample_binding) \<and> rev_id v = ''v'')"
proof -
  have 1: "map_get (bindings (reviewed [sample_bind])) ''t'' = Some sample_binding" by code_simp
  have 2: "bnd_sessionId sample_binding = ''s''" "bnd_revisionId sample_binding = ''v''" by code_simp+
  from references_resolve [of "[sample_bind]"] 1
  have "\<exists>p v. findBindingContext (reviewed [sample_bind]) ''t'' (bnd_sessionId sample_binding) = Some (p, v, sample_binding) \<and>
      bnd_tunnelId sample_binding = ''t'' \<and> rev_id v = bnd_revisionId sample_binding \<and> prj_id p = rev_projectId v"
    by blast
  with 1 2 show ?thesis by auto
qed

section \<open>Threads\<close>

text \<open>
  A comment thread keeps its history, whatever calls follow: it never disappears and never changes
  its place, anchor, author or pin; its version never falls, and while the version stands the content
  does too; its workflow history is only appended to, and always leads step by step from OPEN at
  version 1 to the status it shows; and once deleted it keeps version, body, deletion and workflow.
\<close>

theorem thread_history:
  assumes "map_get (threads (reviewed ops)) i = Some t"
  shows "\<exists>u. map_get (threads (reviewed (ops @ later))) i = Some u \<and>
      (thd_id u, thd_revisionId u, thd_routePath u, thd_anchor u, thd_author u, thd_pinNumber u, thd_createdAt u) =
      (i, thd_revisionId t, thd_routePath t, thd_anchor t, thd_author t, thd_pinNumber t, thd_createdAt t) \<and>
      thd_version t \<le> thd_version u \<and>
      (thd_version u = thd_version t \<longrightarrow> thd_body u = thd_body t \<and> thd_deletedAt u = thd_deletedAt t) \<and>
      prefix (workflow_history t) (workflow_history u) \<and>
      workflow_chain OPEN 1 (workflow_history u) (thd_status u) (workflow_version u) \<and>
      (thd_deletedAt t \<noteq> None \<longrightarrow> thd_body u = None \<and> thd_version u = thd_version t \<and>
         thd_deletedAt u = thd_deletedAt t \<and> workflow_history u = workflow_history t \<and> thd_status u = thd_status t)"
proof -
  have "advances (reviewed ops) (reviewed (ops @ later))"
    unfolding run_machine_append by (rule review_run_advances [OF reviewed_inv])
  with assms obtain u where u: "map_get (threads (reviewed (ops @ later))) i = Some u" "evolves t u"
    unfolding advances_def by blast
  have ok: "thread_ok t" "thread_ok u" "thd_id u = i"
    using reviewed_inv [of ops] reviewed_inv [of "ops @ later"] assms u(1)
    by (auto simp: review_inv_def dest: thread_at_ok thread_at_id)
  show ?thesis using u ok by (auto simp: evolves_def same_place_def thread_ok_def)
qed

theorem thread_history_witness:
  "\<exists>t. map_get (threads (reviewed [sample_bind, sample_comment ''c''])) ''c'' = Some t \<and>
    (\<exists>u. map_get (threads (reviewed ([sample_bind, sample_comment ''c''] @ [DeleteComment (sample_delete ''c'' 1)]))) ''c'' = Some u \<and>
      thd_version t \<le> thd_version u \<and> thd_pinNumber u = thd_pinNumber t)"
proof -
  have "map_has (threads (reviewed [sample_bind, sample_comment ''c''])) ''c''" by code_simp
  then obtain t where t: "map_get (threads (reviewed [sample_bind, sample_comment ''c''])) ''c'' = Some t" by blast
  from thread_history [OF this, of "[DeleteComment (sample_delete ''c'' 1)]"] t show ?thesis by blast
qed

lemma updateComment_updated:
  assumes "review_inv r" "updateComment r input = (UPDATED t, r')"
  shows "map_get (threads r') (tg_threadId (up_target input)) = Some t \<and> thd_version t = up_expectedVersion input + 1"
proof (cases "findBoundThread r (up_target input)")
  case (Some u)
  let ?d = "comment_check UPDATE (up_actor input) False u (up_expectedVersion input)"
  have "?d = ALLOWED" using assms(2) Some by (cases ?d) (auto simp: updateComment_def Let_def)
  moreover have "thd_id u = tg_threadId (up_target input)"
    using Some assms(1) by (auto simp: findBoundThread_Some review_inv_def dest: thread_at_id)
  ultimately show ?thesis
    using assms(2) Some by (auto simp: updateComment_def Let_def map_get_set mutation_checks)
qed (use assms in \<open>simp add: updateComment_def\<close>)

lemma stale_update_refused:
  assumes "map_get (threads r) (tg_threadId (up_target input)) = Some t" "thd_version t \<noteq> up_expectedVersion input"
  shows "fst (updateComment r input) \<noteq> UPDATED u" "snd (updateComment r input) = r"
proof -
  let ?d = "\<lambda>t. comment_check UPDATE (up_actor input) False t (up_expectedVersion input)"
  have "?d t \<noteq> ALLOWED" using assms(2) by (simp add: mutation_checks)
  with assms(1) show "fst (updateComment r input) \<noteq> UPDATED u" "snd (updateComment r input) = r"
    by (cases "?d t"; auto simp: updateComment_def Let_def findBoundThread_Some split: option.splits)+
qed

lemma stale_delete_refused:
  assumes "map_get (threads r) (tg_threadId (del_target input)) = Some t" "thd_version t \<noteq> del_expectedVersion input"
  shows "fst (deleteComment r input) \<noteq> UPDATED u" "snd (deleteComment r input) = r"
proof -
  let ?d = "\<lambda>t. comment_check DELETE (del_actor input) (del_actorCanManageProject input) t (del_expectedVersion input)"
  have "?d t \<noteq> ALLOWED" using assms(2) by (simp add: mutation_checks)
  with assms(1) show "fst (deleteComment r input) \<noteq> UPDATED u" "snd (deleteComment r input) = r"
    by (cases "?d t"; auto simp: deleteComment_def Let_def findBoundThread_Some split: option.splits)+
qed

text \<open>
  C15. No edit is lost: once an edit of a comment that expected version n succeeded, every later edit
  or deletion of that comment that still expects version n is refused and changes nothing, whatever
  calls, by whomever, come in between.
\<close>

theorem no_lost_update:
  assumes "updateComment (reviewed ops) input = (UPDATED t, r)"
    and "tg_threadId (up_target other) = tg_threadId (up_target input)" "up_expectedVersion other = up_expectedVersion input"
    and "tg_threadId (del_target removal) = tg_threadId (up_target input)" "del_expectedVersion removal = up_expectedVersion input"
  shows "let later = run_machine review_step r calls in
    (\<forall>u. fst (updateComment later other) \<noteq> UPDATED u) \<and> snd (updateComment later other) = later \<and>
    (\<forall>u. fst (deleteComment later removal) \<noteq> UPDATED u) \<and> snd (deleteComment later removal) = later"
proof -
  let ?i = "tg_threadId (up_target input)"
  let ?later = "run_machine review_step r calls"
  have t: "map_get (threads r) ?i = Some t" "thd_version t = up_expectedVersion input + 1"
    using updateComment_updated [OF reviewed_inv assms(1)] by simp_all
  have "review_inv r" using updateComment_advances [OF reviewed_inv, of ops input] assms(1) by (auto dest: advancesD)
  then have "advances r ?later" by (rule review_run_advances)
  with t obtain u where u: "map_get (threads ?later) ?i = Some u" "thd_version u \<noteq> up_expectedVersion input"
    unfolding advances_def evolves_def by fastforce
  then show ?thesis
    using assms(2-5) stale_update_refused [of ?later other u] stale_delete_refused [of ?later removal u]
    by (auto simp: Let_def)
qed

theorem no_lost_update_witness:
  "(\<exists>t r. updateComment (reviewed [sample_bind, sample_comment ''c'']) (sample_update ''c'' 1) = (UPDATED t, r) \<and>
     snd (updateComment r (sample_update ''c'' 1)) = r \<and> snd (deleteComment r (sample_delete ''c'' 1)) = r)"
proof -
  let ?r = "reviewed [sample_bind, sample_comment ''c'']"
  have "case fst (updateComment ?r (sample_update ''c'' 1)) of UPDATED t \<Rightarrow> True | _ \<Rightarrow> False" by code_simp
  then obtain t r where t: "updateComment ?r (sample_update ''c'' 1) = (UPDATED t, r)"
    by (cases "updateComment ?r (sample_update ''c'' 1)") (auto split: mutateReviewResult.splits)
  from no_lost_update [OF t, of "sample_update ''c'' 1" "sample_delete ''c'' 1" "[]"] t show ?thesis
    by (auto simp: sample_update_def sample_delete_def)
qed

section \<open>Pins\<close>

text \<open>
  Pins are numbered per revision and route: whatever calls came before, every region comment has a
  pin, page comments have none, pins count from 1, and no two comments at the same revision and route
  have the same pin.
\<close>

theorem pins_unique_per_route:
  assumes "map_get (threads (reviewed ops)) i = Some t" "thd_anchor t \<noteq> PAGE"
  shows "\<exists>n. thd_pinNumber t = Some n \<and> 1 \<le> n \<and>
    (\<forall>j u. map_get (threads (reviewed ops)) j = Some u \<and> thd_revisionId u = thd_revisionId t \<and>
       thd_routePath u = thd_routePath t \<and> thd_pinNumber u = Some n \<longrightarrow> j = i)"
proof -
  have inv: "store_inv (reviewed ops)" "pins_inv (reviewed ops)"
    using reviewed_inv [of ops] by (simp_all add: review_inv_def store_inv_def)
  obtain n where n: "thd_pinNumber t = Some n"
    using thread_at_ok [OF inv(1) assms(1)] assms(2) by (auto simp: thread_ok_def)
  show ?thesis
    using n pins_bound [OF inv(2) assms(1) n] pins_unique [OF inv(2) _ assms(1)]
    by (auto simp: pinned_def)
qed

theorem pins_unique_per_route_witness:
  "\<exists>t. map_get (threads (reviewed [sample_bind, sample_comment ''c'', sample_comment ''d''])) ''d'' = Some t \<and>
    (\<exists>n. thd_pinNumber t = Some n \<and> 1 \<le> n)"
proof -
  let ?ops = "[sample_bind, sample_comment ''c'', sample_comment ''d'']"
  have 1: "map_option thd_anchor (map_get (threads (reviewed ?ops)) ''d'') = Some sample_region" by code_simp
  then obtain t where t: "map_get (threads (reviewed ?ops)) ''d'' = Some t" "thd_anchor t = sample_region" by auto
  then show ?thesis using pins_unique_per_route [OF t(1)] by (auto simp: sample_region_def)
qed

section \<open>Events and notifications\<close>

text \<open>
  Notifications reach others and are announced: whatever calls came before, notification ids count
  1, 2, 3 and so on, nobody is notified of what he did himself, and the NOTIFICATION_CREATED events are
  exactly the notifications in order, each addressed to its recipient alone.
\<close>

theorem notifications_announced:
  "map ntf_id (notifications (reviewed ops)) = map (\<lambda>i. int i + 1) [0..<length (notifications (reviewed ops))] \<and>
   list_all (\<lambda>n. ntf_recipientAccountId n \<noteq> idn_accountId (ntf_actor n)) (notifications (reviewed ops)) \<and>
   map (\<lambda>e. (ev_recipientAccountId e, ev_threadId e, ev_revisionId e, ev_routePath e, ev_actor e, ev_occurredAt e))
     (filter (\<lambda>e. ev_type e = NOTIFICATION_CREATED) (events (reviewed ops))) =
   map (\<lambda>n. (Some (ntf_recipientAccountId n), ntf_threadId n, ntf_revisionId n, ntf_routePath n, ntf_actor n, ntf_createdAt n))
     (notifications (reviewed ops))"
proof -
  have inv: "log_inv (reviewed ops)" using reviewed_inv [of ops] by (simp add: review_inv_def)
  have "list_all (\<lambda>n. ntf_recipientAccountId n \<noteq> idn_accountId (ntf_actor n)) (notifications (reviewed ops))"
    using inv by (auto simp: log_inv_def announcement_ok_def announcement_def list_all_iff)
  with inv show ?thesis by (simp add: log_inv_def count_up_def announced_def [abs_def] announcement_def [abs_def])
qed

lemma sorted_filter_after:
  fixes f :: "'a \<Rightarrow> int"
  assumes "sorted_wrt (\<lambda>x y. f x < f y) (ys @ zs)" "ys \<noteq> []"
  shows "filter (\<lambda>x. f (last ys) < f x) (ys @ zs) = zs"
proof -
  have "f x \<le> f (last ys)" if "x \<in> set ys" for x
    using assms that by (cases ys rule: rev_cases) (auto simp: sorted_wrt_append)
  moreover have "f (last ys) < f z" if "z \<in> set zs" for z
    using assms that by (auto simp: sorted_wrt_append)
  ultimately show ?thesis by (simp add: filter_empty_conv not_less filter_id_conv)
qed

lemma count_up_sorted: "count_up (map f xs) \<Longrightarrow> sorted_wrt (\<lambda>x y. f x < f y) xs"
proof -
  assume "count_up (map f xs)"
  then have "f (xs ! i) = int i + 1" if "i < length xs" for i
    using that nth_map [of i xs f] by (auto simp: count_up_def)
  then show ?thesis by (simp add: sorted_wrt_iff_nth_less)
qed

text \<open>The events a reader may still be given, of which a poll takes the first ones.\<close>

definition pending :: "reviewRepository \<Rightarrow> listEventsInput \<Rightarrow> reviewEvent list" where
  "pending r input = filter (\<lambda>e. visible_event input e \<and> le_afterId input < ev_id e) (events r)"

lemma listReviewEvents_found:
  "listReviewEvents r input = EVENTS_FOUND es \<longleftrightarrow>
   hasAccess r (le_access input) (le_revisionId input) \<and> es = take (le_limit input) (pending r input)"
  by (auto simp: listReviewEvents_def pending_def)

lemma pending_sorted: "review_inv r \<Longrightarrow> sorted_wrt (\<lambda>x y. ev_id x < ev_id y) (pending r input)"
  unfolding pending_def by (rule sorted_wrt_filter) (auto simp: review_inv_def log_inv_def intro: count_up_sorted)

lemma pending_after:
  assumes "review_inv r" "pending r input = es @ rest" "es \<noteq> []"
  shows "pending r (input\<lparr>le_afterId := ev_id (last es), le_limit := k\<rparr>) = rest"
proof -
  have "last es \<in> set (pending r input)" using assms(2,3) by simp
  then have "le_afterId input < ev_id (last es)" by (simp add: pending_def)
  then have "pending r (input\<lparr>le_afterId := ev_id (last es), le_limit := k\<rparr>)
      = filter (\<lambda>e. ev_id (last es) < ev_id e) (pending r input)"
    by (auto simp: pending_def visible_event_def intro!: filter_cong)
  also have "\<dots> = rest"
    unfolding assms(2) using pending_sorted [OF assms(1), of input] assms(2,3)
    by (intro sorted_filter_after) simp_all
  finally show ?thesis .
qed

text \<open>
  C32. A reader of the event log loses and repeats nothing: if a poll returned some events and, after
  any further calls, a second poll starts at the id of the last one (or at the same cursor, when there
  was none), then the two answers together are what one poll with the summed limit gives from the first
  cursor, with ids growing throughout.
\<close>

theorem event_polling_complete:
  assumes "listReviewEvents (reviewed ops) input = EVENTS_FOUND es"
    and "listReviewEvents (reviewed (ops @ later))
      (input\<lparr>le_afterId := (if es = [] then le_afterId input else ev_id (last es)), le_limit := k\<rparr>) = EVENTS_FOUND fs"
  shows "listReviewEvents (reviewed (ops @ later)) (input\<lparr>le_limit := length es + k\<rparr>) = EVENTS_FOUND (es @ fs) \<and>
    sorted_wrt (\<lambda>x y. ev_id x < ev_id y) (es @ fs)"
proof -
  let ?r = "reviewed ops" and ?s = "reviewed (ops @ later)"
  have "advances ?r ?s" unfolding run_machine_append by (rule review_run_advances [OF reviewed_inv])
  then obtain xs where xs: "events ?s = events ?r @ xs" by (auto simp: advances_def prefix_def)
  have es: "es = take (le_limit input) (pending ?r input)" using assms(1) by (simp add: listReviewEvents_found)
  have "pending ?s input = pending ?r input @ filter (\<lambda>e. visible_event input e \<and> le_afterId input < ev_id e) xs"
    by (simp add: pending_def xs)
  with es obtain rest where rest: "pending ?s input = es @ rest"
    by (metis append.assoc append_take_drop_id)
  have fs: "fs = take k rest"
  proof (cases "es = []")
    case True
    then show ?thesis using assms(2) rest by (simp add: listReviewEvents_found pending_def visible_event_def)
  next
    case False
    with assms(2) pending_after [OF reviewed_inv rest False, of k] show ?thesis by (simp add: listReviewEvents_found)
  qed
  have "pending ?s (input\<lparr>le_limit := n\<rparr>) = es @ rest" for n
    using rest by (simp add: pending_def visible_event_def)
  moreover have "hasAccess ?s (le_access input) (le_revisionId input)"
    using assms(2) by (simp add: listReviewEvents_found)
  moreover have "sorted_wrt (\<lambda>x y. ev_id x < ev_id y) (take (length es + k) (es @ rest))"
    using pending_sorted [OF reviewed_inv, of "ops @ later" input] rest by (intro sorted_wrt_take) simp
  ultimately show ?thesis using fs by (simp add: listReviewEvents_found)
qed

definition sample_poll :: listEventsInput where
  "sample_poll = \<lparr>le_revisionId = ''v'', le_routePath = ''/'', le_afterId = 0, le_limit = 1, le_actorAccountId = ''owner'',
     le_access = sample_access\<rparr>"

theorem event_polling_complete_witness:
  "\<exists>es fs. length es = 1 \<and>
    listReviewEvents (reviewed [sample_bind, sample_comment ''c'']) sample_poll = EVENTS_FOUND es \<and>
    listReviewEvents (reviewed ([sample_bind, sample_comment ''c''] @ [sample_comment ''d'']))
      (sample_poll\<lparr>le_limit := length es + 5\<rparr>) = EVENTS_FOUND (es @ fs)"
proof -
  let ?ops = "[sample_bind, sample_comment ''c'']"
  have access: "hasAccess (reviewed ?ops) sample_access ''v''"
    "hasAccess (reviewed (?ops @ [sample_comment ''d''])) sample_access ''v''" by code_simp+
  have len: "case listReviewEvents (reviewed ?ops) sample_poll of EVENTS_FOUND es \<Rightarrow> length es = 1 | _ \<Rightarrow> False" by code_simp
  then obtain es where es: "listReviewEvents (reviewed ?ops) sample_poll = EVENTS_FOUND es" "length es = 1"
    by (auto split: listReviewEventsResult.splits)
  obtain fs where "listReviewEvents (reviewed (?ops @ [sample_comment ''d'']))
      (sample_poll\<lparr>le_afterId := (if es = [] then le_afterId sample_poll else ev_id (last es)), le_limit := 5\<rparr>) = EVENTS_FOUND fs"
    using access(2) by (auto simp: listReviewEvents_def sample_poll_def)
  from event_polling_complete [OF es(1) this] es show ?thesis by blast
qed

end
