(* ===== verification/ReviewServiceProps.thy ===== *)
theory ReviewServiceProps
  imports ReviewService ReviewProps
begin

text \<open>
  Properties of the review service: it changes the repository only through the repository's calls, so
  that it keeps the repository's invariant; capabilities are enforced; and an
  accepted edit is the author's own, of a live thread inside the caller's scope.
\<close>

declare map_of_eq_Some_iff [simp del]

section \<open>Running a call step by step\<close>

lemma fail_eq [simp]: "fail e w \<noteq> (Inr b, w')" "fst (fail e w) = Inl (ReviewError e)" "snd (fail e w) = w"
  by (simp_all add: fail_def)

lemma check_eq [simp]: "check x w = (Inr b, w') \<longleftrightarrow> x = Inr b \<and> w' = w"
  by (auto simp: check_def split: sum.splits)

lemma allow_eq [simp]: "allow ok e w = (Inr b, w') \<longleftrightarrow> ok \<and> w' = w"
  by (simp add: allow_def)

lemma clock_eq: "clock d w = (Inr t, w') \<longleftrightarrow> t = rd_now d (rw_clock w) \<and> w' = w\<lparr>rw_clock := rw_clock w + 1\<rparr>"
  by (auto simp: clock_def)

lemma ask_eq [simp]: "ask f w = (Inr b, w') \<longleftrightarrow> b = f (rw_repository w) \<and> w' = w"
  by (auto simp: ask_def)

lemma update_eq: "update f w = (Inr a, w') \<longleftrightarrow> (\<exists>r. f (rw_repository w) = (a, r) \<and> w' = w\<lparr>rw_repository := r\<rparr>)"
  by (auto simp: update_def split: prod.splits)

lemma mutation_result_eq: "mutation_result x w = (Inr a, w') \<longleftrightarrow> x = UPDATED a \<and> w' = w"
  by (cases x) (auto simp: mutation_result_def)

lemmas review_world_defs = fail_def check_def allow_def clock_def generateId_def ask_def update_def try_update_def

section \<open>A service call is a sequence of repository calls\<close>

abbreviation review_realizes :: "'a reviewM \<Rightarrow> bool" where
  "review_realizes \<equiv> realized_by rw_repository review_step"

lemma review_realizes_basic:
  "review_realizes (ret a)" "review_realizes (fail e)" "review_realizes (check x)" "review_realizes (allow b e)"
  "review_realizes (clock d)" "review_realizes (generateId d)" "review_realizes (ask f)"
  by (rule realized_same; simp add: ret_def review_world_defs split: sum.split)+

lemma review_realizes_update:
  assumes "\<And>r. \<exists>x. snd (f r) = review_step r x"
  shows "review_realizes (update f)"
  by (rule realized_step) (use assms in \<open>simp add: update_def split_beta\<close>)

lemma review_realizes_try_update:
  assumes "\<And>r. \<exists>x. snd (f r) = review_step r x"
  shows "review_realizes (try_update f)"
proof (rule realized_step)
  fix w
  show "\<exists>x. rw_repository (snd (try_update f w)) = review_step (rw_repository w) x"
    using assms [of "rw_repository w"] by (auto simp: try_update_def split: prod.splits sum.splits)
qed

lemma review_realizes_calls:
  "review_realizes (update (\<lambda>r. bindTunnel r input))"
  "review_realizes (update (\<lambda>r. ((), removeTunnelBinding r i s)))"
  "review_realizes (try_update (\<lambda>r. createPageComment r (new_comment i rv route anchor body author at) username names access))"
  "review_realizes (update (\<lambda>r. createReply r (new_reply i th body author at) username names rv route access))"
  "review_realizes (update (\<lambda>r. changePageCommentStatus r ci))"
  "review_realizes (update (\<lambda>r. updateComment r ui))" "review_realizes (update (\<lambda>r. deleteComment r di))"
  "review_realizes (update (\<lambda>r. updateReply r ui i))" "review_realizes (update (\<lambda>r. deleteReply r di i))"
  "review_realizes (try_update (\<lambda>r. setNotificationRead r ni))"
  by ((rule review_realizes_update | rule review_realizes_try_update), metis review_step.simps snd_conv)+

lemmas review_realizes_intros = review_realizes_basic realized_bind review_realizes_calls

lemma review_realizes_context: "review_realizes (requireBindingContext d s)" "review_realizes (mutationContext d s)"
    "review_realizes (actor_identity a)" "review_realizes (mutation_result res)"
proof -
  show ctxt: "review_realizes (requireBindingContext d s)"
    by (auto simp: requireBindingContext_def requireControlContext_def requireTunnelContext_def
        intro!: review_realizes_intros split: option.split)
  show identity: "review_realizes (actor_identity a)" for a
    by (simp add: actor_identity_def review_realizes_intros)
  show "review_realizes (mutationContext d s)"
    by (auto simp: mutationContext_def intro!: review_realizes_intros ctxt identity)
  show "review_realizes (mutation_result res)"
    by (cases res) (simp_all add: mutation_result_def review_realizes_basic)
qed

lemmas review_realizes_all = review_realizes_intros review_realizes_context

lemma review_realizes_creations:
  "review_realizes (createComment d s route body anchor)" "review_realizes (service_createReply d s i route body)"
  "review_realizes (service_bindTunnel d actor owner i j slug key ex)" "review_realizes (service_removeTunnelBinding i j)"
  by (auto simp: createComment_def service_createReply_def service_bindTunnel_def service_removeTunnelBinding_def Let_def
      intro!: review_realizes_all split: createPageCommentResult.split createReviewReplyResult.split bindReviewTunnelResult.split)

lemma review_realizes_mutations:
  "review_realizes (service_changePageCommentStatus d s i route st v st')"
  "review_realizes (service_updateComment d s i route n body)" "review_realizes (service_deleteComment d s i route n)"
  "review_realizes (service_updateReply d s i j route n body)" "review_realizes (service_deleteReply d s i j route n)"
  by (auto simp: service_changePageCommentStatus_def service_updateComment_def service_deleteComment_def
      service_updateReply_def service_deleteReply_def
      intro!: review_realizes_all split: changePageCommentStatusResult.split prod.split)

lemma review_realizes_notifications:
  "review_realizes (service_setNotificationRead d s i route b)" "review_realizes (setInboxRead d actor i b th)"
  by (auto simp: service_setNotificationRead_def setInboxRead_def
      intro!: review_realizes_all split: setReviewNotificationReadResult.split option.split prod.split)

lemma review_realizes_queries:
  "review_realizes (service_listMentionCandidates d s pfx)" "review_realizes (getThread d s i rt)"
  "review_realizes (getContext d s)" "review_realizes (service_listPageCommentPage d s rt before st au)"
  "review_realizes (service_listReplyPage d s i route before)" "review_realizes (service_listEvents d s route after)"
  "review_realizes (service_listNotifications d s route)"
  by (auto simp: service_listMentionCandidates_def getThread_def getContext_def service_listPageCommentPage_def
      service_listReplyPage_def service_listEvents_def service_listNotifications_def Let_def
      intro!: review_realizes_all
      split: option.split listReviewEventsResult.split listReviewNotificationsResult.split)

section \<open>All calls of the service\<close>

text \<open>Every call that can change the repository; a query can, since it removes an expired binding.\<close>

datatype reviewCall =
    CallBindTunnel reviewActor string string string string string "number option"
  | CallRemoveTunnelBinding string string
  | CallCreatePageComment reviewScope string string
  | CallCreateRegionComment reviewScope string string "reviewErrorCode + regionReviewAnchor"
  | CallCreateReply reviewScope string string string
  | CallChangeStatus reviewScope string string reviewThreadStatus "number option" reviewThreadStatus
  | CallUpdateComment reviewScope string string number string
  | CallDeleteComment reviewScope string string number
  | CallUpdateReply reviewScope string string string number string
  | CallDeleteReply reviewScope string string string number
  | CallSetNotificationRead reviewScope string string bool
  | CallSetInboxRead reviewActor string bool "string option"
  | CallListMentionCandidates reviewScope string
  | CallGetThread reviewScope string "string option"
  | CallGetContext reviewScope
  | CallListPage reviewScope "string option" "reviewPageCursor option" "string option" "string option"
  | CallListReplyPage reviewScope string string "reviewPageCursor option"
  | CallListEvents reviewScope string "string option"
  | CallListNotifications reviewScope string

fun review_call :: "reviewDependencies \<Rightarrow> reviewWorld \<Rightarrow> reviewCall \<Rightarrow> reviewWorld" where
  "review_call d w (CallBindTunnel a ow i j slug key ex) = snd (service_bindTunnel d a ow i j slug key ex w)"
| "review_call d w (CallRemoveTunnelBinding i j) = snd (service_removeTunnelBinding i j w)"
| "review_call d w (CallCreatePageComment s route body) = snd (service_createPageComment d s route body w)"
| "review_call d w (CallCreateRegionComment s route body anchor) = snd (createRegionComment d s route body anchor w)"
| "review_call d w (CallCreateReply s i route body) = snd (service_createReply d s i route body w)"
| "review_call d w (CallChangeStatus s i route st v st') = snd (service_changePageCommentStatus d s i route st v st' w)"
| "review_call d w (CallUpdateComment s i route n body) = snd (service_updateComment d s i route n body w)"
| "review_call d w (CallDeleteComment s i route n) = snd (service_deleteComment d s i route n w)"
| "review_call d w (CallUpdateReply s i j route n body) = snd (service_updateReply d s i j route n body w)"
| "review_call d w (CallDeleteReply s i j route n) = snd (service_deleteReply d s i j route n w)"
| "review_call d w (CallSetNotificationRead s i route b) = snd (service_setNotificationRead d s i route b w)"
| "review_call d w (CallSetInboxRead a i b th) = snd (setInboxRead d a i b th w)"
| "review_call d w (CallListMentionCandidates s pfx) = snd (service_listMentionCandidates d s pfx w)"
| "review_call d w (CallGetThread s i rt) = snd (getThread d s i rt w)"
| "review_call d w (CallGetContext s) = snd (getContext d s w)"
| "review_call d w (CallListPage s rt before st au) = snd (service_listPageCommentPage d s rt before st au w)"
| "review_call d w (CallListReplyPage s i route before) = snd (service_listReplyPage d s i route before w)"
| "review_call d w (CallListEvents s route after) = snd (service_listEvents d s route after w)"
| "review_call d w (CallListNotifications s route) = snd (service_listNotifications d s route w)"

lemma review_realizes_region: "review_realizes (createRegionComment d s route body anchor)"
    "review_realizes (service_createPageComment d s route body)"
  by (simp_all add: createRegionComment_def service_createPageComment_def review_realizes_intros review_realizes_creations)

lemma review_call_realized:
  "\<exists>ops. rw_repository (review_call d w x) = run_machine review_step (rw_repository w) ops"
  by (cases x) (use review_realizes_creations review_realizes_mutations review_realizes_notifications
      review_realizes_queries review_realizes_region in \<open>simp_all add: realized_by_def\<close>)

interpretation review_service: service_refinement rw_repository review_step "review_call d" for d
  by unfold_locales (rule review_call_realized)

text \<open>So the invariant of the repository holds below the service, whatever calls are made and however they end.\<close>

lemma review_service_keeps: "review_inv (rw_repository w) \<Longrightarrow> review_inv (rw_repository (run_machine (review_call d) w calls))"
  using review_service.run_realized [of d w calls] review.run_keeps_inv by metis

section \<open>Capabilities\<close>

fun call_actor :: "reviewCall \<Rightarrow> reviewActor option" where
  "call_actor (CallBindTunnel a ow i j slug key ex) = Some a"
| "call_actor (CallRemoveTunnelBinding i j) = None"
| "call_actor (CallCreatePageComment s route body) = Some (sc_actor s)"
| "call_actor (CallCreateRegionComment s route body anchor) = Some (sc_actor s)"
| "call_actor (CallCreateReply s i route body) = Some (sc_actor s)"
| "call_actor (CallChangeStatus s i route st v st') = Some (sc_actor s)"
| "call_actor (CallUpdateComment s i route n body) = Some (sc_actor s)"
| "call_actor (CallDeleteComment s i route n) = Some (sc_actor s)"
| "call_actor (CallUpdateReply s i j route n body) = Some (sc_actor s)"
| "call_actor (CallDeleteReply s i j route n) = Some (sc_actor s)"
| "call_actor (CallSetNotificationRead s i route b) = Some (sc_actor s)"
| "call_actor (CallSetInboxRead a i b th) = Some a"
| "call_actor (CallListMentionCandidates s pfx) = Some (sc_actor s)"
| "call_actor (CallGetThread s i rt) = Some (sc_actor s)"
| "call_actor (CallGetContext s) = Some (sc_actor s)"
| "call_actor (CallListPage s rt before st au) = Some (sc_actor s)"
| "call_actor (CallListReplyPage s i route before) = Some (sc_actor s)"
| "call_actor (CallListEvents s route after) = Some (sc_actor s)"
| "call_actor (CallListNotifications s route) = Some (sc_actor s)"

definition leaves :: "(reviewRepository \<Rightarrow> 'v) \<Rightarrow> 'a reviewM \<Rightarrow> bool" where
  "leaves f m = (\<forall>w. f (rw_repository (snd (m w))) = f (rw_repository w))"

lemma leaves_basic:
  "leaves f (ret a)" "leaves f (fail e)" "leaves f (check x)" "leaves f (allow b e)"
  "leaves f (clock d)" "leaves f (generateId d)" "leaves f (ask g)"
  by (simp_all add: leaves_def ret_def review_world_defs split: sum.split)

lemma leaves_bind: "leaves f m \<Longrightarrow> (\<And>a. leaves f (g a)) \<Longrightarrow> leaves f (bindM m g)"
  by (simp add: leaves_def bindM_def split: prod.split sum.split) (metis snd_conv)

lemma leaves_allow: "\<not> ok \<Longrightarrow> leaves f (bindM (allow ok e) g)"
  by (simp add: leaves_def bindM_def allow_def fail_def)

text \<open>The records that make up the reviewed content.\<close>

definition content :: "reviewRepository \<Rightarrow> (string, reviewProject) jsmap \<times> (string, reviewRevision) jsmap \<times>
    (string, pageCommentThread) jsmap" where
  "content r = (projects r, revisions r, threads r)"

lemma leaves_content:
  "leaves content (update (\<lambda>r. ((), removeTunnelBinding r i j)))" "leaves content (try_update (\<lambda>r. setNotificationRead r ni))"
  by (auto simp: leaves_def content_def update_def try_update_def removeTunnelBinding_def setNotificationRead_def Let_def
      split: option.split)

lemma leaves_context: "leaves content (requireBindingContext d s)"
  by (auto simp: requireBindingContext_def requireControlContext_def requireTunnelContext_def
      intro!: leaves_bind leaves_basic leaves_content split: option.split)

lemma leaves_identity: "leaves f (actor_identity a)"
  by (simp add: actor_identity_def leaves_bind leaves_basic)

lemmas leaves_intros = leaves_bind leaves_basic leaves_content leaves_context leaves_identity

lemma readers_leave_content:
  assumes "call_actor x = Some a" "\<not> canComment (act_capabilities a)" "\<not> canManageProject (act_capabilities a)"
  shows "content (rw_repository (review_call d w x)) = content (rw_repository w)"
proof -
  have "leaves content (service_createPageComment d s route body)" "leaves content (createRegionComment d s route body anchor)"
    "leaves content (service_createReply d s i route body)" "leaves content (service_changePageCommentStatus d s i route st v st')"
    "leaves content (service_updateComment d s i route n body)" "leaves content (service_deleteComment d s i route n)"
    "leaves content (service_updateReply d s i j route n body)" "leaves content (service_deleteReply d s i j route n)"
    if "sc_actor s = a" for s i j route n v body st st' anchor
    using that assms(2,3)
    by (auto simp: service_createPageComment_def createRegionComment_def createComment_def service_createReply_def
        service_changePageCommentStatus_def service_updateComment_def service_deleteComment_def service_updateReply_def
        service_deleteReply_def intro!: leaves_allow leaves_bind leaves_basic)
  moreover have "leaves content (service_bindTunnel d a ow i j slug key ex)" for ow i j slug key ex
    using assms(3) by (simp add: service_bindTunnel_def leaves_allow)
  moreover have "leaves content (service_setNotificationRead d s i route b)" "leaves content (setInboxRead d a i b th)" for s i route b th
    by (auto simp: service_setNotificationRead_def setInboxRead_def intro!: leaves_intros
        split: setReviewNotificationReadResult.split option.split prod.split)
  moreover have "leaves content (service_listMentionCandidates d s pfx)" "leaves content (getThread d s i rt)"
    "leaves content (getContext d s)" "leaves content (service_listPageCommentPage d s rt before st au)"
    "leaves content (service_listReplyPage d s i route before)" "leaves content (service_listEvents d s route after)"
    "leaves content (service_listNotifications d s route)" for s pfx i rt before st au route after
    by (auto simp: service_listMentionCandidates_def getThread_def getContext_def service_listPageCommentPage_def
        service_listReplyPage_def service_listEvents_def service_listNotifications_def Let_def intro!: leaves_intros
        split: option.split listReviewEventsResult.split listReviewNotificationsResult.split)
  ultimately show ?thesis using assms(1) by (cases x) (auto simp: leaves_def)
qed

lemma strangers_stopped:
  assumes "\<not> canRead (act_capabilities (sc_actor s))"
  shows "leaves f (bindM (requireBindingContext d s) g)" "leaves f (bindM (mutationContext d s) h)"
  using assms by (auto simp: requireBindingContext_def mutationContext_def leaves_def bindM_def allow_def fail_def)

lemma strangers_leave_all:
  assumes "call_actor x = Some a" "\<not> canRead (act_capabilities a)" "\<not> canManageProject (act_capabilities a)"
  shows "rw_repository (review_call d w x) = rw_repository w"
proof -
  let ?leaves = "leaves (\<lambda>r. r)"
  have "?leaves (createComment d s route body anchor)" if "sc_actor s = a" for s route body anchor
    using that assms(2) by (auto simp: createComment_def intro!: leaves_bind leaves_basic strangers_stopped)
  then have "?leaves (service_createPageComment d s route body)" "?leaves (createRegionComment d s route body anchor)"
    if "sc_actor s = a" for s route body anchor
    using that by (auto simp: service_createPageComment_def createRegionComment_def intro!: leaves_bind leaves_basic)
  moreover have "?leaves (service_createReply d s i route body)" "?leaves (service_changePageCommentStatus d s i route st v st')"
    "?leaves (service_updateComment d s i route n body)" "?leaves (service_deleteComment d s i route n)"
    "?leaves (service_updateReply d s i j route n body)" "?leaves (service_deleteReply d s i j route n)"
    "?leaves (service_setNotificationRead d s i route b)"
    if "sc_actor s = a" for s i j route n v body st st' b
    using that assms(2)
    by (auto simp: service_createReply_def service_changePageCommentStatus_def service_updateComment_def service_deleteComment_def
        service_updateReply_def service_deleteReply_def service_setNotificationRead_def
        intro!: leaves_bind [OF leaves_basic(4)] strangers_stopped)
  moreover have "?leaves (service_bindTunnel d a ow i j slug key ex)" "?leaves (setInboxRead d a i' b th)" for ow i j slug key ex i' b th
    using assms(2,3) by (simp_all add: service_bindTunnel_def setInboxRead_def leaves_allow)
  moreover have "?leaves (service_listMentionCandidates d s pfx)" "?leaves (getThread d s i rt)"
    "?leaves (getContext d s)" "?leaves (service_listPageCommentPage d s rt before st au)"
    "?leaves (service_listReplyPage d s i route before)" "?leaves (service_listEvents d s route after)"
    "?leaves (service_listNotifications d s route)" if "sc_actor s = a" for s pfx i rt before st au route after
    using that assms(2)
    by (simp_all add: service_listMentionCandidates_def getThread_def getContext_def service_listPageCommentPage_def
        service_listReplyPage_def service_listEvents_def service_listNotifications_def strangers_stopped)
  ultimately show ?thesis using assms(1) by (cases x) (auto simp: leaves_def)
qed

text \<open>
  C16. Capabilities are enforced on every call: an actor who may neither comment nor manage the project
  changes no project, no revision and no thread, and one who may neither read nor manage leaves the whole
  repository as it was, whichever call is made, with whatever arguments and in whatever state. Managing
  is not bound to reading: binding a tunnel needs the former alone.
\<close>

theorem review_capabilities_enforced:
  assumes "call_actor x = Some a" "\<not> canManageProject (act_capabilities a)"
  shows "(\<not> canComment (act_capabilities a) \<longrightarrow>
      (let r = rw_repository w; r' = rw_repository (review_call d w x) in
       projects r' = projects r \<and> revisions r' = revisions r \<and> threads r' = threads r)) \<and>
    (\<not> canRead (act_capabilities a) \<longrightarrow> rw_repository (review_call d w x) = rw_repository w)"
  using readers_leave_content [OF assms(1) _ assms(2), of d w] strangers_leave_all [OF assms(1) _ assms(2), of d w]
  by (auto simp: content_def Let_def)

definition sample_actor :: "bool \<Rightarrow> bool \<Rightarrow> reviewActor" where
  "sample_actor comment manage = \<lparr>act_accountId = ''guest'', act_username = ''guest-name'', act_authorizationVersion = Integral 1,
     act_displayName = ''G'', act_capabilities = \<lparr>canRead = True, canComment = comment, canManageProject = manage\<rparr>\<rparr>"

definition sample_scope :: "bool \<Rightarrow> reviewScope" where
  "sample_scope comment = \<lparr>sc_actor = sample_actor comment False, sc_tunnelId = Some ''t'', sc_sessionId = Some ''s'',
     sc_controlProjectId = None, sc_controlRevisionId = None\<rparr>"

definition sample_services :: reviewDependencies where
  "sample_services = \<lparr>rd_now = (\<lambda>n. int n + 5), rd_generateId = (\<lambda>n. ''id'' @ replicate n CHR ''x''), rd_workflowEnabled = None,
     rd_localeCompare = code_unit_order, rd_scopeDigest = (\<lambda>_ _ _ _. [])\<rparr>"

definition sample_world :: reviewWorld where
  "sample_world = \<lparr>rw_repository = reviewed [sample_bind, sample_comment ''c''], rw_clock = 0, rw_ids = 0\<rparr>"

theorem review_capabilities_enforced_witness:
  "call_actor (CallUpdateComment (sample_scope False) ''c'' ''/'' (Integral 1) ''x'') = Some (sample_actor False False) \<and>
   threads (rw_repository (review_call sample_services sample_world
     (CallUpdateComment (sample_scope False) ''c'' ''/'' (Integral 1) ''x''))) = threads (rw_repository sample_world)"
proof -
  let ?x = "CallUpdateComment (sample_scope False) ''c'' ''/'' (Integral 1) ''x''"
  have 1: "call_actor ?x = Some (sample_actor False False)" by (simp add: sample_scope_def)
  have 2: "\<not> canManageProject (act_capabilities (sample_actor False False))"
    "\<not> canComment (act_capabilities (sample_actor False False))" by (simp_all add: sample_actor_def)
  show ?thesis
    using review_capabilities_enforced [OF 1 2(1), of sample_world sample_services] 1 2(2) by (simp add: Let_def)
qed

section \<open>Accepted edits\<close>

text \<open>
  The revision a scope leads to: that of the live binding of its tunnel and session, or, for the
  control pages, the one it names inside the project it names.
\<close>

definition scope_leads_to :: "reviewDependencies \<Rightarrow> reviewScope \<Rightarrow> reviewWorld \<Rightarrow> string \<Rightarrow> bool" where
  "scope_leads_to d s w revisionId =
    (canRead (act_capabilities (sc_actor s)) \<and>
     ((\<exists>p v. sc_controlProjectId s = Some p \<and> sc_controlRevisionId s = Some revisionId \<and>
         map_get (revisions (rw_repository w)) revisionId = Some v \<and> rev_projectId v = p) \<or>
      (\<exists>i b. sc_controlProjectId s = None \<and> sc_tunnelId s = Some i \<and> sc_sessionId s = Some (bnd_sessionId b) \<and>
         map_get (bindings (rw_repository w)) i = Some b \<and> bnd_revisionId b = revisionId \<and>
         rd_now d (rw_clock w) < bnd_expiresAt b)))"

lemma opaque_same: "normalizeOpaqueReviewId x = Inr y \<Longrightarrow> y = x"
  by (auto simp: normalizeOpaqueReviewId_def split: if_splits)

lemma requireBindingContext_success:
  assumes "requireBindingContext d s w = (Inr c, w')" "review_inv (rw_repository w)"
  shows "scope_leads_to d s w (rev_id (ctx_revision c)) \<and> rw_repository w' = rw_repository w"
proof (cases "sc_controlProjectId s \<noteq> None \<or> sc_controlRevisionId s \<noteq> None")
  case True
  with assms(1) have "requireControlContext s w = (Inr c, w')" "canRead (act_capabilities (sc_actor s))"
    by (auto simp: requireBindingContext_def bindM_success)
  then show ?thesis
    using assms(2) unfolding requireControlContext_def scope_leads_to_def
    by (auto simp: bindM_success findRevisionContext_def review_inv_def store_inv_def dest!: opaque_same dest: keyedD
        split: option.splits if_splits)
next
  case False
  with assms(1) have "requireTunnelContext d s w = (Inr c, w')" "canRead (act_capabilities (sc_actor s))"
    by (auto simp: requireBindingContext_def bindM_success)
  then show ?thesis
    using False assms(2) unfolding requireTunnelContext_def scope_leads_to_def
    by (auto simp: bindM_success clock_eq findBindingContext_def review_inv_def store_inv_def dest!: opaque_same
        dest: keyedD split: option.splits if_splits)
qed

text \<open>
  What an accepted edit means: if updateComment succeeds on a reachable repository, the actor may
  read and comment and is the author; the comment exists, lies in the revision his scope leads to and
  at the route he named, is neither deleted nor in a resolved thread and has the version he expected;
  and afterwards it has the normalised body, the next version and everything else as before.
\<close>

theorem accepted_edit:
  assumes "rw_repository w = reviewed ops"
    and "service_updateComment d s commentId routePath expectedVersion body w = (Inr t, w')"
  shows "\<exists>u b at. map_get (threads (rw_repository w)) commentId = Some u \<and>
    canComment (act_capabilities (sc_actor s)) \<and> idn_accountId (thd_author u) = act_accountId (sc_actor s) \<and>
    scope_leads_to d s w (thd_revisionId u) \<and> normalizeRoutePath routePath = Inr (thd_routePath u) \<and>
    thd_status u \<noteq> RESOLVED \<and> thd_deletedAt u = None \<and> expectedVersion = Integral (thd_version u) \<and>
    normalizeCommentBody body = Inr b \<and>
    t = u\<lparr>thd_body := Some b, thd_version := thd_version u + 1, thd_updatedAt := at\<rparr> \<and>
    map_get (threads (rw_repository w')) commentId = Some t"
proof -
  have inv: "review_inv (rw_repository w)" using assms(1) reviewed_inv by simp
  from assms(2) obtain m w1 b i route v names at where
    can: "canComment (act_capabilities (sc_actor s))" and
    m: "mutationContext d s w = (Inr m, w1)" and b: "normalizeCommentBody body = Inr b" and
    i: "normalizeOpaqueReviewId commentId = Inr i" and route: "normalizeRoutePath routePath = Inr route" and
    v: "normalizeContentVersion expectedVersion = Inr v" and
    upd: "updateComment (rw_repository w1) (mutation_update m i route v b names at) = (UPDATED t, rw_repository w')"
    unfolding service_updateComment_def by (auto simp: bindM_success clock_eq update_eq mutation_result_eq)
  from m have scope: "scope_leads_to d s w (rev_id (ctx_revision (mut_context m)))" "rw_repository w1 = rw_repository w"
      "idn_accountId (mut_actor m) = act_accountId (sc_actor s)"
    using inv unfolding mutationContext_def actor_identity_def
    by (auto simp: bindM_success dest!: requireBindingContext_success opaque_same)
  have v': "expectedVersion = Integral (to_int v)"
    using v by (auto simp: normalizeContentVersion_def dest: positive_safe_intD split: if_splits)
  have i': "i = commentId" using i by (rule opaque_same)
  let ?in = "mutation_update m i route v b names at"
  from upd obtain u where u: "findBoundThread (rw_repository w) (mutation_target m i route) = Some u"
    by (auto simp: updateComment_def scope(2) mutation_update_def split: option.splits)
  let ?d = "comment_check UPDATE (mut_actor m) False u (to_int v)"
  have ok: "?d = ALLOWED"
    using upd u by (cases ?d) (auto simp: updateComment_def scope(2) mutation_update_def)
  have t: "t = u\<lparr>thd_body := Some b, thd_version := thd_version u + 1, thd_updatedAt := at\<rparr>"
    using upd u ok by (simp add: updateComment_def scope(2) mutation_update_def Let_def)
  have "map_get (threads (rw_repository w')) i = Some t"
    using updateComment_updated [of "rw_repository w1" ?in t "rw_repository w'"] inv upd
    by (simp add: scope(2) mutation_update_def mutation_target_def)
  moreover have "map_get (threads (rw_repository w)) i = Some u" "thd_revisionId u = rev_id (ctx_revision (mut_context m))"
    "thd_routePath u = route"
    using u by (simp_all add: findBoundThread_Some mutation_target_def)
  ultimately show ?thesis
    using can b route scope(1,3) t ok v' i' by (auto simp: mutation_checks)
qed

theorem accepted_edit_witness:
  "\<exists>t w'. service_updateComment sample_services (sample_scope True) ''c'' ''/'' (Integral 1) ''New'' sample_world = (Inr t, w') \<and>
    thd_version t = 2 \<and> scope_leads_to sample_services (sample_scope True) sample_world (thd_revisionId t)"
proof -
  let ?call = "service_updateComment sample_services (sample_scope True) ''c'' ''/'' (Integral 1) ''New'' sample_world"
  have "case fst ?call of Inr t \<Rightarrow> True | Inl _ \<Rightarrow> False" by code_simp
  then obtain t w' where call: "?call = (Inr t, w')" by (cases ?call) (auto split: sum.splits)
  have "rw_repository sample_world = reviewed [sample_bind, sample_comment ''c'']" by (simp add: sample_world_def)
  from accepted_edit [OF this call] call show ?thesis by auto
qed

end
