(* ===== verification/HeaderPolicy.thy ===== *)
theory HeaderPolicy
  imports JsString
begin

text \<open>
  The header policy of the proxy, \<^verbatim>\<open>packages/proxy/src/header-policy.ts\<close>: hop-by-hop headers are removed in
  both directions, and the gateway's own cookies and headers never pass through the tunnel. Headers are
  the name and value pairs of the wire, in order and with repetitions.
\<close>

type_synonym headerPair = "string \<times> string"

definition STANDARD_HOP_BY_HOP_HEADERS :: "string list" where
  "STANDARD_HOP_BY_HOP_HEADERS = [''connection'', ''keep-alive'', ''proxy-authenticate'', ''proxy-authorization'',
     ''proxy-connection'', ''te'', ''trailer'', ''transfer-encoding'', ''upgrade'']"

definition connection_tokens :: "headerPair list \<Rightarrow> string list" where
  "connection_tokens headers =
    concat (map (\<lambda>(rawName, v). if toLowerCase rawName \<noteq> ''connection'' then []
      else filter (\<lambda>t. t \<noteq> []) (map (\<lambda>token. toLowerCase (trim token)) (split_on (CHR '','') v))) headers)"

definition sanitizeHopByHopHeaders :: "headerPair list \<Rightarrow> headerPair list" where
  "sanitizeHopByHopHeaders headers =
    (let connectionTokens = connection_tokens headers in
     filter (\<lambda>(rawName, _). let name = toLowerCase rawName in
       name \<notin> set STANDARD_HOP_BY_HOP_HEADERS \<and> name \<notin> set connectionTokens) headers)"

definition cookie_name :: "string \<Rightarrow> string" where
  "cookie_name part = (let separator = indexOf part (CHR ''='') in
     if separator < 0 then part else trim (take (nat separator) part))"

definition keep_cookies :: "string list \<Rightarrow> string \<Rightarrow> string list" where
  "keep_cookies reserved v = filter (\<lambda>part. cookie_name part \<notin> set reserved) (map trim (split_on (CHR '';'') v))"

definition set_cookie_name :: "string \<Rightarrow> string" where
  "set_cookie_name v = (let separator = indexOf v (CHR ''='') in
     trim (if separator < 0 then v else take (nat separator) v))"

definition isolate_header :: "string list \<Rightarrow> headerPair \<Rightarrow> headerPair list" where
  "isolate_header reserved h = (case h of (name, v) \<Rightarrow>
    let lowerName = toLowerCase name in
    if startsWith lowerName ''x-review-tunnel-'' then []
    else if lowerName = ''cookie'' then
      (let kept = keep_cookies reserved v in if length kept > 0 then [(name, join ''; '' kept)] else [])
    else if lowerName = ''set-cookie'' \<and> set_cookie_name v \<in> set reserved then []
    else [(name, v)])"

definition isolateGatewayCredentials :: "headerPair list \<Rightarrow> string list \<Rightarrow> headerPair list" where
  "isolateGatewayCredentials headers reservedCookieNames = concat (map (isolate_header reservedCookieNames) headers)"

fun rawHeadersToPairs :: "string list \<Rightarrow> headerPair list" where
  "rawHeadersToPairs (name # v # rest) = (name, v) # rawHeadersToPairs rest"
| "rawHeadersToPairs _ = []"

text \<open>
  The outgoing header object: the values of each lower-case name in order; a single value stands for
  itself and several form an array, so a name with one value and one with a one-element array agree.
\<close>

definition headerPairsToOutgoingHeaders :: "headerPair list \<Rightarrow> (string, string list) jsmap" where
  "headerPairsToOutgoingHeaders headers =
    foldl (\<lambda>output (rawName, v). let name = toLowerCase rawName in
      case map_get output name of
        None \<Rightarrow> map_set output name [v]
      | Some current \<Rightarrow> map_set output name (current @ [v])) [] headers"

section \<open>Hop-by-hop headers\<close>

lemma sanitize_eq: "sanitizeHopByHopHeaders hs = filter (\<lambda>(n, _). toLowerCase n \<notin> set STANDARD_HOP_BY_HOP_HEADERS \<and>
    toLowerCase n \<notin> set (connection_tokens hs)) hs"
  by (simp add: sanitizeHopByHopHeaders_def Let_def)

lemma sanitize_member: "(n, v) \<in> set (sanitizeHopByHopHeaders hs) \<longleftrightarrow> (n, v) \<in> set hs \<and>
    toLowerCase n \<notin> set STANDARD_HOP_BY_HOP_HEADERS \<and> toLowerCase n \<notin> set (connection_tokens hs)"
  by (auto simp: sanitize_eq)

lemma sanitize_connection: "connection_tokens (sanitizeHopByHopHeaders headers) = []"
proof -
  have "toLowerCase n \<noteq> ''connection''" if "(n, v) \<in> set (sanitizeHopByHopHeaders headers)" for n v
    using that by (auto simp: sanitize_member STANDARD_HOP_BY_HOP_HEADERS_def)
  then show ?thesis by (auto simp: connection_tokens_def)
qed

lemma sanitize_idem [simp]: "sanitizeHopByHopHeaders (sanitizeHopByHopHeaders headers) = sanitizeHopByHopHeaders headers"
  unfolding sanitize_eq [of "sanitizeHopByHopHeaders headers"] sanitize_connection
  by (rule filter_True) (auto simp: sanitize_member)

section \<open>Gateway credentials\<close>

text \<open>A header that carries nothing of the gateway's: no reserved name, no reserved cookie.\<close>

definition free_of :: "string list \<Rightarrow> headerPair \<Rightarrow> bool" where
  "free_of reserved h = (case h of (name, v) \<Rightarrow>
    \<not> startsWith (toLowerCase name) ''x-review-tunnel-'' \<and>
    (toLowerCase name = ''cookie'' \<longrightarrow> list_all (\<lambda>part. cookie_name (trim part) \<notin> set reserved) (split_on (CHR '';'') v)) \<and>
    (toLowerCase name = ''set-cookie'' \<longrightarrow> set_cookie_name v \<notin> set reserved))"

lemma kept_part: "x \<in> set (keep_cookies reserved v) \<Longrightarrow> CHR '';'' \<notin> set x \<and> trim x = x"
proof -
  assume "x \<in> set (keep_cookies reserved v)"
  then obtain y where "y \<in> set (split_on (CHR '';'') v)" "x = trim y" by (auto simp: keep_cookies_def)
  then show ?thesis using split_on_parts [of y "CHR '';''" v] set_trim [of y] by auto
qed

lemma trim_space: "trim (CHR '' '' # x) = trim x"
  by (simp add: trim_def is_space_def char_code_def)

lemma split_kept:
  assumes "kept = keep_cookies reserved v" "kept \<noteq> []"
  shows "map trim (split_on (CHR '';'') (join ''; '' kept)) = kept"
proof -
  have "split_on (CHR '';'') (join ''; '' kept) = hd kept # map (\<lambda>x. '' '' @ x) (tl kept)"
    using assms kept_part by (intro split_on_join) auto
  moreover have "map (trim \<circ> (\<lambda>x. '' '' @ x)) (tl kept) = tl kept"
    using assms kept_part by (intro map_idI) (auto simp: trim_space dest: list.set_sel(2))
  moreover have "trim (hd kept) = hd kept" using assms kept_part by (metis list.set_sel(1))
  ultimately show ?thesis using assms(2) by simp
qed

lemma keep_kept:
  assumes "keep_cookies reserved v \<noteq> []"
  shows "keep_cookies reserved (join ''; '' (keep_cookies reserved v)) = keep_cookies reserved v"
  using split_kept [OF refl assms] by (simp add: keep_cookies_def [of reserved "join ''; '' x" for x]) (simp add: keep_cookies_def)

lemma isolate_header_free: "h' \<in> set (isolate_header reserved h) \<Longrightarrow> free_of reserved h' \<and> isolate_header reserved h' = [h']"
proof -
  assume a: "h' \<in> set (isolate_header reserved h)"
  obtain n v where h: "h = (n, v)" by fastforce
  show ?thesis
  proof (cases "toLowerCase n = ''cookie''")
    case True
    let ?kept = "keep_cookies reserved v"
    from a True h have kept: "?kept \<noteq> []" "h' = (n, join ''; '' ?kept)"
      by (auto simp: isolate_header_def Let_def startsWith_def split: if_splits)
    have "list_all (\<lambda>part. cookie_name (trim part) \<notin> set reserved) (split_on (CHR '';'') (join ''; '' ?kept)) =
        list_all (\<lambda>part. cookie_name part \<notin> set reserved) (map trim (split_on (CHR '';'') (join ''; '' ?kept)))"
      by (simp add: list_all_iff)
    also have "\<dots>" by (simp add: split_kept [OF refl kept(1)] list_all_iff) (simp add: keep_cookies_def)
    finally show ?thesis
      using True kept by (simp add: free_of_def isolate_header_def Let_def startsWith_def keep_kept)
  next
    case False
    with a h show ?thesis by (auto simp: isolate_header_def free_of_def Let_def split: if_splits)
  qed
qed

lemma isolate_member: "h \<in> set (isolateGatewayCredentials headers reserved) \<longleftrightarrow> (\<exists>x \<in> set headers. h \<in> set (isolate_header reserved x))"
  by (simp add: isolateGatewayCredentials_def)

lemma isolate_unchanged:
  "(\<And>h. h \<in> set hs \<Longrightarrow> isolate_header reserved h = [h]) \<Longrightarrow> isolateGatewayCredentials hs reserved = hs"
  by (induction hs) (auto simp: isolateGatewayCredentials_def)

lemma isolate_idem [simp]:
  "isolateGatewayCredentials (isolateGatewayCredentials headers reserved) reserved = isolateGatewayCredentials headers reserved"
  by (rule isolate_unchanged) (auto simp: isolate_member dest: isolate_header_free)

lemma isolate_free: "list_all (free_of reserved) (isolateGatewayCredentials headers reserved)"
  by (auto simp: list_all_iff isolate_member dest: isolate_header_free)

end
