(* ===== verification/ProjectionPolicy.thy ===== *)
theory ProjectionPolicy
  imports HeaderPolicy
begin

text \<open>
  The projection policy of the proxy, \<^verbatim>\<open>packages/proxy/src/projection-policy.ts\<close>: what the client makes of the
  headers between the public origin, where a reviewer browses, and the local origin it tunnels to. The
  platform's URL parser is a parameter: it maps a string to its components, or to nothing where the
  constructor throws.
\<close>

section \<open>Origins\<close>

record url =
  u_origin :: string
  u_protocol :: string
  u_host :: string
  u_hostname :: string
  u_port :: string
  u_pathname :: string
  u_search :: string
  u_hash :: string
  u_username :: string
  u_password :: string

datatype originProjection = LocalView | ProxyAware

datatype projectionError = InvalidUrl | NotCanonicalOrigin

record projectionContext =
  prc_originProjection :: originProjection
  prc_localOrigin :: string
  prc_publicOrigin :: string

definition parseOrigin :: "(string \<Rightarrow> url option) \<Rightarrow> string \<Rightarrow> projectionError + url" where
  "parseOrigin URL v = (case URL v of
     None \<Rightarrow> Inl InvalidUrl
   | Some parsed \<Rightarrow>
       if (u_protocol parsed \<noteq> ''http:'' \<and> u_protocol parsed \<noteq> ''https:'') \<or> u_origin parsed \<noteq> v
       then Inl NotCanonicalOrigin else Inr parsed)"

definition UNTRUSTED_PROXY_IDENTITY_HEADERS :: "string list" where
  "UNTRUSTED_PROXY_IDENTITY_HEADERS =
    [''client-ip'', ''x-real-ip'', ''x-client-ip'', ''true-client-ip'', ''cf-connecting-ip'', ''cf-connecting-ipv6'',
     ''cloudfront-viewer-address'', ''fastly-client-ip'', ''fly-client-ip'', ''x-cluster-client-ip'',
     ''x-original-client-ip'', ''x-original-forwarded-for'', ''x-originating-ip'', ''x-remote-ip'', ''x-remote-addr'',
     ''x-appengine-user-ip'', ''x-azure-clientip'', ''x-envoy-external-address'', ''x-nf-client-connection-ip'',
     ''x-proxyuser-ip'', ''x-vercel-forwarded-for'']"

definition isUntrustedForwardingHeader :: "string \<Rightarrow> bool" where
  "isUntrustedForwardingHeader name =
    (let lowerName = toLowerCase name in
     lowerName = ''forwarded'' \<or> startsWith lowerName ''x-forwarded-'' \<or>
     lowerName \<in> set UNTRUSTED_PROXY_IDENTITY_HEADERS)"

definition stripUntrustedForwardingHeaders :: "headerPair list \<Rightarrow> headerPair list" where
  "stripUntrustedForwardingHeaders headers = filter (\<lambda>(name, _). \<not> isUntrustedForwardingHeader name) headers"

section \<open>Requests\<close>

definition rewriteSameOriginValue :: "(string \<Rightarrow> url option) \<Rightarrow> string \<Rightarrow> url \<Rightarrow> url \<Rightarrow> bool \<Rightarrow> string" where
  "rewriteSameOriginValue URL v expected replacement preservePath =
    (if v = ''null'' then v
     else case URL v of
       None \<Rightarrow> v
     | Some parsed \<Rightarrow>
         if u_origin parsed \<noteq> u_origin expected then v
         else if \<not> preservePath then u_origin replacement
         else u_origin replacement @ u_pathname parsed @ u_search parsed @ u_hash parsed)"

text \<open>\<^verbatim>\<open>value.replace(/["\\]/g, "")\<close>\<close>

definition escapeForwardedValue :: "string \<Rightarrow> string" where
  "escapeForwardedValue v = filter (\<lambda>c. c \<noteq> CHR 0x22 \<and> c \<noteq> CHR 0x5C) v"

definition project_request_header :: "(string \<Rightarrow> url option) \<Rightarrow> url \<Rightarrow> url \<Rightarrow> headerPair \<Rightarrow> headerPair list" where
  "project_request_header URL publicUrl effective h = (case h of (name, v) \<Rightarrow>
    let lowerName = toLowerCase name in
    if lowerName = ''host'' \<or> isUntrustedForwardingHeader lowerName then []
    else if lowerName = ''origin'' then [(name, rewriteSameOriginValue URL v publicUrl effective False)]
    else if lowerName = ''referer'' then [(name, rewriteSameOriginValue URL v publicUrl effective True)]
    else [(name, v)])"

definition projectRequestHeaders ::
    "(string \<Rightarrow> url option) \<Rightarrow> headerPair list \<Rightarrow> projectionContext \<Rightarrow> projectionError + headerPair list" where
  "projectRequestHeaders URL headers c =
    result_bind (parseOrigin URL (prc_localOrigin c)) (\<lambda>local.
    result_bind (parseOrigin URL (prc_publicOrigin c)) (\<lambda>publicUrl.
    let effective = (if prc_originProjection c = LocalView then local else publicUrl);
        protocol = take (length (u_protocol publicUrl) - 1) (u_protocol publicUrl);
        output = concat (map (project_request_header URL publicUrl effective) headers) @ [(''Host'', u_host effective)]
    in Inr (if prc_originProjection c = ProxyAware
        then output @
          [(''Forwarded'', ''host='' @ [CHR 0x22] @ escapeForwardedValue (u_host publicUrl) @ [CHR 0x22] @ '';proto='' @ protocol),
           (''X-Forwarded-Host'', u_host publicUrl), (''X-Forwarded-Proto'', protocol),
           (''X-Forwarded-Port'', if u_port publicUrl \<noteq> [] then u_port publicUrl
              else if u_protocol publicUrl = ''https:'' then ''443'' else ''80'')]
        else output)))"

section \<open>Responses\<close>

definition rewriteLocalAbsoluteUrl :: "(string \<Rightarrow> url option) \<Rightarrow> string \<Rightarrow> url \<Rightarrow> url \<Rightarrow> string" where
  "rewriteLocalAbsoluteUrl URL v local publicUrl = (case URL v of
     None \<Rightarrow> v
   | Some parsed \<Rightarrow>
       if u_origin parsed \<noteq> u_origin local then v
       else u_origin publicUrl @ u_pathname parsed @ u_search parsed @ u_hash parsed)"

text \<open>
  \<^verbatim>\<open>/^(.*?\burl\s*=\s*)(["']?)(.*?)(\2)\s*$/i\<close>. The first group ends after the first \<^verbatim>\<open>url\<close> at a word boundary,
  on the text's first line, whose \<^verbatim>\<open>=\<close> is followed by a value without a line break; the value is what is
  left without the white space at its end, or, after an opening quote that is closed at the end, what
  stands between the quotes. Handing white space back from the first group never helps a match, so each
  \<^verbatim>\<open>\s*\<close> takes all it can.
\<close>

definition line_break :: "char \<Rightarrow> bool" where
  "line_break c = (char_code c = 10 \<or> char_code c = 13)"

definition word_char :: "char \<Rightarrow> bool" where
  "word_char c = (is_lower c \<or> is_upper c \<or> is_digit c \<or> c = CHR ''_'')"

definition match_url_key :: "string \<Rightarrow> (string \<times> string) option" where
  "match_url_key s =
    (if toLowerCase (take 3 s) \<noteq> ''url'' then None
     else let gap = takeWhile is_space (drop 3 s); rest = dropWhile is_space (drop 3 s) in
       if rest = [] \<or> hd rest \<noteq> CHR ''='' then None
       else Some (take 3 s @ gap @ [CHR ''=''] @ takeWhile is_space (tl rest), dropWhile is_space (tl rest)))"

definition trim_end :: "string \<Rightarrow> string" where
  "trim_end s = rev (dropWhile is_space (rev s))"

text \<open>After an opening quote: the shortest text before a closing one with only white space behind it.\<close>

fun quoted_target :: "char \<Rightarrow> string \<Rightarrow> string option" where
  "quoted_target q [] = None"
| "quoted_target q (c # cs) =
     (if c = q \<and> list_all is_space cs then Some []
      else if line_break c then None
      else map_option (\<lambda>t. c # t) (quoted_target q cs))"

definition match_target :: "string \<Rightarrow> (string \<times> string) option" where
  "match_target rest =
    (case (if rest \<noteq> [] \<and> (hd rest = CHR 0x22 \<or> hd rest = CHR 0x27) then quoted_target (hd rest) (tl rest) else None) of
       Some target \<Rightarrow> Some ([hd rest], target)
     | None \<Rightarrow> if list_ex line_break (trim_end rest) then None else Some ([], trim_end rest))"

fun match_refresh :: "char option \<Rightarrow> string \<Rightarrow> (string \<times> string \<times> string) option" where
  "match_refresh before [] = None"
| "match_refresh before (c # cs) =
     (case (if before \<noteq> None \<and> word_char (the before) then None else match_url_key (c # cs)) of
        Some (key, rest) \<Rightarrow>
          (case match_target rest of
             Some (q, target) \<Rightarrow> Some (key, q, target)
           | None \<Rightarrow> if line_break c then None
               else map_option (\<lambda>(p, qt). (c # p, qt)) (match_refresh (Some c) cs))
      | None \<Rightarrow> if line_break c then None
          else map_option (\<lambda>(p, qt). (c # p, qt)) (match_refresh (Some c) cs))"

definition rewriteRefresh :: "(string \<Rightarrow> url option) \<Rightarrow> string \<Rightarrow> url \<Rightarrow> url \<Rightarrow> string" where
  "rewriteRefresh URL v local publicUrl = (case match_refresh None v of
     None \<Rightarrow> v
   | Some (pfx, quote, target) \<Rightarrow> pfx @ quote @ rewriteLocalAbsoluteUrl URL target local publicUrl @ quote)"

definition attribute_name :: "string \<Rightarrow> string" where
  "attribute_name a = (let separator = indexOf a (CHR ''='') in
     toLowerCase (trim (if separator < 0 then a else take (nat separator) a)))"

text \<open>\<^verbatim>\<open>.replace(/^\./, "").replace(/\.$/, "")\<close>\<close>

definition strip_dots :: "string \<Rightarrow> string" where
  "strip_dots d =
    (let d = (if d \<noteq> [] \<and> hd d = CHR ''.'' then tl d else d) in
     if d \<noteq> [] \<and> last d = CHR ''.'' then butlast d else d)"

text \<open>The loop over the attributes: what is kept, or nothing when the cookie is refused.\<close>

fun cookie_attributes :: "string \<Rightarrow> bool \<Rightarrow> string list \<Rightarrow> string list option" where
  "cookie_attributes host domainSeen [] = Some []"
| "cookie_attributes host domainSeen (raw # rest) =
     (let a = trim raw; separator = indexOf a (CHR ''='') in
      if a = [] then cookie_attributes host domainSeen rest
      else if attribute_name a \<noteq> ''domain'' then map_option (\<lambda>as. a # as) (cookie_attributes host domainSeen rest)
      else if domainSeen \<or> separator < 0 then None
      else if strip_dots (toLowerCase (trim (drop (nat separator + 1) a))) \<noteq> toLowerCase host then None
      else cookie_attributes host True rest)"

definition projectSetCookie :: "string \<Rightarrow> string \<Rightarrow> string list \<Rightarrow> string option" where
  "projectSetCookie v effectiveHostname reserved =
    (let parts = split_on (CHR '';'') v;
         cookie = trim (hd parts);
         separator = indexOf cookie (CHR ''='')
     in if separator \<le> 0 then None
        else let cookieName = trim (take (nat separator) cookie) in
          if cookieName \<in> set reserved \<or> startsWith (toLowerCase cookieName) ''__host-rt_'' then None
          else map_option (\<lambda>as. join ''; '' (cookie # as)) (cookie_attributes effectiveHostname False (tl parts)))"

definition project_response_header ::
    "(string \<Rightarrow> url option) \<Rightarrow> url \<Rightarrow> url \<Rightarrow> string \<Rightarrow> string list \<Rightarrow> headerPair \<Rightarrow> headerPair list" where
  "project_response_header URL local publicUrl effectiveHostname reserved h = (case h of (name, v) \<Rightarrow>
    let lowerName = toLowerCase name in
    if lowerName = ''set-cookie'' then
      (case projectSetCookie v effectiveHostname reserved of Some projected \<Rightarrow> [(name, projected)] | None \<Rightarrow> [])
    else if lowerName = ''location'' then [(name, rewriteLocalAbsoluteUrl URL v local publicUrl)]
    else if lowerName = ''refresh'' then [(name, rewriteRefresh URL v local publicUrl)]
    else [(name, v)])"

definition projectResponseHeaders ::
    "(string \<Rightarrow> url option) \<Rightarrow> headerPair list \<Rightarrow> projectionContext \<Rightarrow> string list \<Rightarrow> projectionError + headerPair list" where
  "projectResponseHeaders URL headers c reserved =
    result_bind (parseOrigin URL (prc_localOrigin c)) (\<lambda>local.
    result_bind (parseOrigin URL (prc_publicOrigin c)) (\<lambda>publicUrl.
    Inr (concat (map (project_response_header URL local publicUrl
      (if prc_originProjection c = LocalView then u_hostname local else u_hostname publicUrl) reserved) headers))))"

end
