(* ===== verification/Lease.thy ===== *)
theory Lease
  imports JsString
begin

text \<open>
  Leases: the closures the sources return to give a reserved slot back. Each closure carries a flag
  \<^verbatim>\<open>released\<close>, so that calling it again has no effect. A counter with its closures is modelled as the count and
  the list of flags in the order of issue; a lease is an index into that list. The theory holds the
  shared counter, the client's \<^verbatim>\<open>ApplicationOperationBudget\<close> and the gateway's keyed gate
  \<^verbatim>\<open>createKeyedConcurrentAdmission\<close>, and the interface that all of them satisfy.
\<close>

section \<open>The interface\<close>

datatype 'k gateOp = Acquire 'k | Release nat

locale lease_gate =
  fixes inv :: "'s \<Rightarrow> bool"
    and held :: "'s \<Rightarrow> nat set"
    and acquire :: "'k \<Rightarrow> 's \<Rightarrow> nat option \<times> 's"
    and release :: "nat \<Rightarrow> 's \<Rightarrow> 's"
    and limit :: int
  assumes acquire_some: "inv s \<Longrightarrow> acquire k s = (Some i, s') \<Longrightarrow> inv s' \<and> i \<notin> held s \<and> held s' = insert i (held s)"
    and acquire_none: "inv s \<Longrightarrow> acquire k s = (None, s') \<Longrightarrow> inv s' \<and> held s' = held s"
    and release_held: "inv s \<Longrightarrow> inv (release i s) \<and> held (release i s) = held s - {i}"
    and within_limit: "inv s \<Longrightarrow> finite (held s) \<and> int (card (held s)) \<le> limit"
begin

fun gate_step :: "'s \<Rightarrow> 'k gateOp \<Rightarrow> 's" where
  "gate_step s (Acquire k) = snd (acquire k s)"
| "gate_step s (Release i) = release i s"

lemma gate_step_inv: "inv s \<Longrightarrow> inv (gate_step s x)"
proof (cases x)
  case (Acquire k)
  assume i: "inv s"
  obtain r s' where a: "acquire k s = (r, s')" by fastforce
  with i have "inv s'" by (cases r) (use acquire_some acquire_none in blast)+
  with a Acquire show ?thesis by simp
qed (simp add: release_held)

lemma gate_run_inv: "inv s \<Longrightarrow> inv (run_machine gate_step s ops)"
  by (induction ops arbitrary: s) (simp_all add: gate_step_inv)

lemma gate_run_bounded: "inv s \<Longrightarrow> int (card (held (run_machine gate_step s ops))) \<le> limit"
  using gate_run_inv within_limit by blast

lemma release_twice: "inv s \<Longrightarrow> held (release i (release i s)) = held (release i s)"
  by (simp add: release_held)

lemma release_frees: "inv s \<Longrightarrow> i \<in> held s \<Longrightarrow> int (card (held (release i s))) = int (card (held s)) - 1"
  using within_limit [of s] card_gt_0_iff [of "held s"] by (auto simp: release_held of_nat_diff card_Diff_singleton)

lemma release_all: "inv s \<Longrightarrow> held (run_machine gate_step s (map Release is)) = held s - set is"
proof (induction "is" arbitrary: s)
  case (Cons i "is")
  then have "held (run_machine gate_step (release i s) (map Release is)) = held s - {i} - set is"
    by (simp add: release_held)
  then show ?case by auto
qed simp

end

section \<open>The shared counter\<close>

record leases =
  lc_count :: int
  lc_released :: "bool list"

definition no_leases :: leases where
  "no_leases = \<lparr>lc_count = 0, lc_released = []\<rparr>"

definition take_lease :: "leases \<Rightarrow> nat \<times> leases" where
  "take_lease l = (length (lc_released l), \<lparr>lc_count = lc_count l + 1, lc_released = lc_released l @ [False]\<rparr>)"

definition release_lease :: "nat \<Rightarrow> leases \<Rightarrow> leases" where
  "release_lease i l =
    (if i < length (lc_released l) \<and> \<not> lc_released l ! i
     then \<lparr>lc_count = lc_count l - 1, lc_released = (lc_released l)[i := True]\<rparr> else l)"

definition leases_held :: "leases \<Rightarrow> nat set" where
  "leases_held l = {i. i < length (lc_released l) \<and> \<not> lc_released l ! i}"

definition leases_inv :: "leases \<Rightarrow> bool" where
  "leases_inv l = (lc_count l = int (card (leases_held l)))"

lemma finite_leases_held [simp]: "finite (leases_held l)"
  by (simp add: leases_held_def)

lemma no_leases_inv [simp]: "leases_inv no_leases" "leases_held no_leases = {}"
  by (simp_all add: leases_inv_def leases_held_def no_leases_def)

lemma leases_count_nonneg: "leases_inv l \<Longrightarrow> 0 \<le> lc_count l"
  by (simp add: leases_inv_def)

lemma take_lease_held:
  "take_lease l = (i, l') \<Longrightarrow> i \<notin> leases_held l \<and> leases_held l' = insert i (leases_held l) \<and> lc_count l' = lc_count l + 1"
  by (auto simp: take_lease_def leases_held_def nth_append less_Suc_eq)

lemma take_lease_inv: "leases_inv l \<Longrightarrow> take_lease l = (i, l') \<Longrightarrow> leases_inv l'"
  using take_lease_held [of l i l'] by (simp add: leases_inv_def)

lemma release_lease_held [simp]: "leases_held (release_lease i l) = leases_held l - {i}"
  by (auto simp: release_lease_def leases_held_def nth_list_update)

lemma release_lease_count:
  "lc_count (release_lease i l) = (if i \<in> leases_held l then lc_count l - 1 else lc_count l)"
  by (simp add: release_lease_def leases_held_def)

lemma release_lease_inv [simp]: "leases_inv l \<Longrightarrow> leases_inv (release_lease i l)"
proof -
  assume "leases_inv l"
  moreover have "i \<in> leases_held l \<Longrightarrow> 0 < card (leases_held l)" by (auto simp: card_gt_0_iff)
  ultimately show ?thesis
    by (auto simp: leases_inv_def release_lease_count card_Diff_singleton of_nat_diff)
qed

section \<open>The client's operation budget\<close>

record operationBudget =
  bud_limit :: int
  bud_pending :: leases

datatype budgetError = BudgetLimitInvalid

definition new_operationBudget :: "number \<Rightarrow> budgetError + operationBudget" where
  "new_operationBudget limit =
    (if \<not> isSafeInteger limit \<or> to_int limit \<le> 0 then Inl BudgetLimitInvalid
     else Inr \<lparr>bud_limit = to_int limit, bud_pending = no_leases\<rparr>)"

text \<open>\<^verbatim>\<open>reserve\<close> throws when the budget is exhausted: no lease is returned.\<close>

definition budget_reserve :: "operationBudget \<Rightarrow> nat option \<times> operationBudget" where
  "budget_reserve b =
    (if lc_count (bud_pending b) \<ge> bud_limit b then (None, b)
     else let (i, l) = take_lease (bud_pending b) in (Some i, b\<lparr>bud_pending := l\<rparr>))"

definition budget_release :: "nat \<Rightarrow> operationBudget \<Rightarrow> operationBudget" where
  "budget_release i b = b\<lparr>bud_pending := release_lease i (bud_pending b)\<rparr>"

definition budget_inv :: "int \<Rightarrow> operationBudget \<Rightarrow> bool" where
  "budget_inv n b = (bud_limit b = n \<and> leases_inv (bud_pending b) \<and> lc_count (bud_pending b) \<le> n)"

interpretation operation_budget: lease_gate "budget_inv n" "\<lambda>b. leases_held (bud_pending b)"
  "\<lambda>(k :: unit) b. budget_reserve b" budget_release n
proof (unfold_locales, goal_cases)
  case (1 s k i s')
  obtain j l where t: "take_lease (bud_pending s) = (j, l)" by fastforce
  with 1(2) have eq: "lc_count (bud_pending s) < bud_limit s" "i = j" "s' = s\<lparr>bud_pending := l\<rparr>"
    by (simp_all add: budget_reserve_def split: if_splits)
  show ?case
    using 1(1) eq take_lease_held [OF t] take_lease_inv [OF _ t] by (simp add: budget_inv_def)
next
  case (2 s k s')
  then show ?case by (auto simp: budget_reserve_def split: if_splits prod.splits)
next
  case (3 s i)
  then show ?case by (auto simp: budget_release_def budget_inv_def release_lease_count)
next
  case (4 s)
  then show ?case by (simp add: budget_inv_def leases_inv_def)
qed

lemma new_budget_inv: "new_operationBudget limit = Inr b \<Longrightarrow> budget_inv (to_int limit) b"
  by (auto simp: new_operationBudget_def budget_inv_def no_leases_def leases_inv_def leases_held_def split: if_splits)

section \<open>The keyed gate\<close>

record keyedAdmission =
  concurrent :: int
  concurrentByKey :: "(string, int) jsmap"
  keyed_leases :: "(string \<times> bool) list"

record keyedLimits =
  kl_global :: int
  kl_perKey :: int

definition new_keyedAdmission :: keyedAdmission where
  "new_keyedAdmission = \<lparr>concurrent = 0, concurrentByKey = [], keyed_leases = []\<rparr>"

definition keyed_acquire :: "keyedLimits \<Rightarrow> string \<Rightarrow> keyedAdmission \<Rightarrow> nat option \<times> keyedAdmission" where
  "keyed_acquire l key a =
    (let keyedConcurrent = (case map_get (concurrentByKey a) key of Some n \<Rightarrow> n | None \<Rightarrow> 0) in
     if concurrent a \<ge> kl_global l \<or> keyedConcurrent \<ge> kl_perKey l then (None, a)
     else (Some (length (keyed_leases a)),
       \<lparr>concurrent = concurrent a + 1, concurrentByKey = map_set (concurrentByKey a) key (keyedConcurrent + 1),
        keyed_leases = keyed_leases a @ [(key, False)]\<rparr>))"

definition keyed_release :: "nat \<Rightarrow> keyedAdmission \<Rightarrow> keyedAdmission" where
  "keyed_release i a =
    (if i < length (keyed_leases a) \<and> \<not> snd (keyed_leases a ! i) then
       (let key = fst (keyed_leases a ! i);
            remaining = (case map_get (concurrentByKey a) key of Some n \<Rightarrow> n | None \<Rightarrow> 1) - 1
        in \<lparr>concurrent = concurrent a - 1,
            concurrentByKey = (if remaining = 0 then map_delete (concurrentByKey a) key
              else map_set (concurrentByKey a) key remaining),
            keyed_leases = (keyed_leases a)[i := (key, True)]\<rparr>)
     else a)"

definition keyed_held :: "keyedAdmission \<Rightarrow> nat set" where
  "keyed_held a = {i. i < length (keyed_leases a) \<and> \<not> snd (keyed_leases a ! i)}"

definition held_by :: "string \<Rightarrow> keyedAdmission \<Rightarrow> nat set" where
  "held_by key a = {i \<in> keyed_held a. fst (keyed_leases a ! i) = key}"

text \<open>
  The counters are the numbers of leases held, in total and per key; a key without a lease has no
  entry.
\<close>

definition keyed_inv :: "keyedLimits \<Rightarrow> keyedAdmission \<Rightarrow> bool" where
  "keyed_inv l a =
    (concurrent a = int (card (keyed_held a)) \<and> concurrent a \<le> max 0 (kl_global l) \<and>
     (\<forall>key. map_get (concurrentByKey a) key =
        (if held_by key a = {} then None else Some (int (card (held_by key a))))) \<and>
     (\<forall>key. int (card (held_by key a)) \<le> max 0 (kl_perKey l)))"

lemma finite_keyed_held [simp]: "finite (keyed_held a)" "finite (held_by key a)"
  by (simp_all add: keyed_held_def held_by_def)

lemma new_keyed_inv: "keyed_inv l new_keyedAdmission"
  by (simp add: keyed_inv_def new_keyedAdmission_def keyed_held_def held_by_def)

lemma keyed_count: "keyed_inv l a \<Longrightarrow> (case map_get (concurrentByKey a) key of Some n \<Rightarrow> n | None \<Rightarrow> 0) = int (card (held_by key a))"
  by (simp add: keyed_inv_def)

lemma keyed_acquire_held:
  assumes "keyed_acquire l key a = (Some i, a')"
  shows "i \<notin> keyed_held a" "keyed_held a' = insert i (keyed_held a)"
    "held_by k a' = (if k = key then insert i (held_by k a) else held_by k a)" "i \<notin> held_by k a"
  using assms
  by (auto simp: keyed_acquire_def keyed_held_def held_by_def nth_append less_Suc_eq Let_def split: if_splits)

lemma keyed_acquire_inv:
  assumes "keyed_inv l a" "keyed_acquire l key a = (Some i, a')"
  shows "keyed_inv l a'"
proof -
  note h = keyed_acquire_held [OF assms(2)] and n = keyed_count [OF assms(1), of key]
  have eq: "concurrent a' = concurrent a + 1"
    "concurrentByKey a' = map_set (concurrentByKey a) key (int (card (held_by key a)) + 1)"
    "concurrent a < kl_global l" "int (card (held_by key a)) < kl_perKey l"
    using assms(2) n by (auto simp: keyed_acquire_def Let_def split: if_splits)
  show ?thesis
    using assms(1) h eq by (auto simp: keyed_inv_def map_get_set)
qed

lemma keyed_release_held: "keyed_held (keyed_release i a) = keyed_held a - {i}" "held_by k (keyed_release i a) = held_by k a - {i}"
  by (auto simp: keyed_release_def keyed_held_def held_by_def nth_list_update Let_def)

lemma keyed_release_inv:
  assumes inv: "keyed_inv l a"
  shows "keyed_inv l (keyed_release i a)"
proof (cases "i \<in> keyed_held a")
  case False
  then have "keyed_release i a = a" by (auto simp: keyed_release_def keyed_held_def)
  with inv show ?thesis by simp
next
  case True
  let ?key = "fst (keyed_leases a ! i)"
  let ?n = "int (card (held_by ?key a))"
  have i: "i \<in> held_by ?key a" and other: "k \<noteq> ?key \<Longrightarrow> i \<notin> held_by k a" for k
    using True by (auto simp: held_by_def)
  have pos: "0 < card (held_by ?key a)" "0 < card (keyed_held a)"
    using True i by (auto simp: card_gt_0_iff)
  have get: "map_get (concurrentByKey a) ?key = Some ?n" using inv i by (auto simp: keyed_inv_def)
  have eq: "concurrent (keyed_release i a) = concurrent a - 1"
    "concurrentByKey (keyed_release i a) = (if ?n = 1 then map_delete (concurrentByKey a) ?key
       else map_set (concurrentByKey a) ?key (?n - 1))"
    using True get by (simp_all add: keyed_release_def keyed_held_def Let_def)
  have one: "?n = 1 \<longleftrightarrow> held_by ?key a - {i} = {}"
    using i by (auto simp: card_1_singleton_iff)
  have "map_get (concurrentByKey (keyed_release i a)) k =
      (if held_by k a - {i} = {} then None else Some (int (card (held_by k a - {i}))))" for k
    using inv one pos other [of k] i unfolding eq(2)
    by (cases "k = ?key") (auto simp: keyed_inv_def jsmap_simps of_nat_diff card_Diff_singleton)
  moreover have "int (card (held_by k a - {i})) \<le> max 0 (kl_perKey l)" for k
  proof -
    have "card (held_by k a - {i}) \<le> card (held_by k a)" by (rule card_mono) auto
    moreover have "int (card (held_by k a)) \<le> max 0 (kl_perKey l)" using inv by (simp add: keyed_inv_def)
    ultimately show ?thesis by linarith
  qed
  ultimately show ?thesis
    using inv True pos by (auto simp: keyed_inv_def keyed_release_held eq(1) card_Diff_singleton of_nat_diff)
qed

fun keyed_step :: "keyedLimits \<Rightarrow> keyedAdmission \<Rightarrow> string gateOp \<Rightarrow> keyedAdmission" where
  "keyed_step l a (Acquire key) = snd (keyed_acquire l key a)"
| "keyed_step l a (Release i) = keyed_release i a"

interpretation keyed_gate: lease_gate "keyed_inv l" keyed_held "keyed_acquire l" keyed_release "max 0 (kl_global l)"
proof (unfold_locales, goal_cases)
  case (1 s k i s')
  then show ?case using keyed_acquire_inv keyed_acquire_held by blast
next
  case (2 s k s')
  then show ?case by (auto simp: keyed_acquire_def Let_def split: if_splits)
next
  case (3 s i)
  then show ?case by (simp add: keyed_release_inv keyed_release_held)
next
  case (4 s)
  then show ?case by (simp add: keyed_inv_def)
qed

lemma keyed_gate_step: "keyed_gate.gate_step l = keyed_step l"
proof (intro ext)
  show "keyed_gate.gate_step l a x = keyed_step l a x" for a x by (cases x) simp_all
qed

end
