(* ===== verification/Admission.thy ===== *)
theory Admission
  imports Lease SessionState AuthModel "HOL-Library.Sublist"
begin

text \<open>
  Admission of carriers at the gateway, \<^verbatim>\<open>apps/gateway/src/gateway-admission.ts\<close>: reservations for issued
  credentials, pending connections and authorization attempts as leases, the capacity tests over the
  registered sessions, and the fixed-window rate limiter. The registered sessions are an argument: pairs
  of a session's identity and its record. One clock reading stands for all of a call, which runs without
  interruption; the random reservation id is an argument.
\<close>

section \<open>The fixed-window rate limiter\<close>

record rateLimits =
  rl_global :: int
  rl_perKey :: int

record rateLimiter =
  windowStartedAt :: int
  globalCount :: int
  keyCounts :: "(string, int) jsmap"

definition createFixedWindowRateLimiter :: "int \<Rightarrow> rateLimiter" where
  "createFixedWindowRateLimiter now = \<lparr>windowStartedAt = now, globalCount = 0, keyCounts = []\<rparr>"

definition key_count :: "rateLimiter \<Rightarrow> string \<Rightarrow> int" where
  "key_count r key = (case map_get (keyCounts r) key of Some n \<Rightarrow> n | None \<Rightarrow> 0)"

definition admit :: "rateLimits \<Rightarrow> string \<Rightarrow> int \<Rightarrow> rateLimiter \<Rightarrow> bool \<times> rateLimiter" where
  "admit l key checkedAt r =
    (let r = (if checkedAt - windowStartedAt r \<ge> 60000
           then \<lparr>windowStartedAt = checkedAt, globalCount = 0, keyCounts = []\<rparr> else r);
         keyCount = key_count r key
     in if globalCount r \<ge> rl_global l \<or> keyCount \<ge> rl_perKey l then (False, r)
        else (True, r\<lparr>globalCount := globalCount r + 1, keyCounts := map_set (keyCounts r) key (keyCount + 1)\<rparr>))"

definition rate_inv :: "rateLimits \<Rightarrow> rateLimiter \<Rightarrow> bool" where
  "rate_inv l r = (globalCount r \<le> max 0 (rl_global l) \<and> (\<forall>k. key_count r k \<le> max 0 (rl_perKey l)))"

text \<open>The keys admitted by a sequence of calls, each a time and a key.\<close>

fun admitted :: "rateLimits \<Rightarrow> rateLimiter \<Rightarrow> (int \<times> string) list \<Rightarrow> string list" where
  "admitted l r [] = []"
| "admitted l r ((t, k) # calls) =
     (let (ok, r') = admit l k t r in (if ok then [k] else []) @ admitted l r' calls)"

definition refreshed :: "int \<Rightarrow> rateLimiter \<Rightarrow> rateLimiter" where
  "refreshed t r = (if t - windowStartedAt r \<ge> 60000 then createFixedWindowRateLimiter t else r)"

lemma admit_refreshed: "admit l k t r = admit l k t (refreshed t r)"
  by (simp add: admit_def refreshed_def createFixedWindowRateLimiter_def Let_def)

lemma new_rate [simp]: "rate_inv l (createFixedWindowRateLimiter t)" "windowStartedAt (createFixedWindowRateLimiter t) = t"
  "globalCount (createFixedWindowRateLimiter t) = 0" "key_count (createFixedWindowRateLimiter t) k = 0"
  by (simp_all add: createFixedWindowRateLimiter_def rate_inv_def key_count_def)

text \<open>A call inside the window: it counts exactly when it is admitted.\<close>

lemma admit_quiet:
  assumes "rate_inv l r" "t - windowStartedAt r < 60000" "admit l k t r = (ok, r')"
  shows "rate_inv l r'" "windowStartedAt r' = windowStartedAt r"
    "globalCount r' = globalCount r + (if ok then 1 else 0)"
    "key_count r' j = key_count r j + (if ok \<and> j = k then 1 else 0)"
proof -
  have r': "r' = (if ok then r\<lparr>globalCount := globalCount r + 1, keyCounts := map_set (keyCounts r) k (key_count r k + 1)\<rparr> else r)"
    and bound: "ok \<Longrightarrow> globalCount r < rl_global l \<and> key_count r k < rl_perKey l"
    using assms(2,3) by (auto simp: admit_def Let_def split: if_splits)
  have kc: "key_count r' i = key_count r i + (if ok \<and> i = k then 1 else 0)" for i
    by (simp add: r' key_count_def map_get_set)
  show "windowStartedAt r' = windowStartedAt r" "globalCount r' = globalCount r + (if ok then 1 else 0)"
    by (simp_all add: r')
  then show "rate_inv l r'" using assms(1) bound by (auto simp: rate_inv_def kc)
  show "key_count r' j = key_count r j + (if ok \<and> j = k then 1 else 0)" by (rule kc)
qed

lemma refreshed_inv [simp]: "rate_inv l r \<Longrightarrow> rate_inv l (refreshed t r)"
  by (simp add: refreshed_def)

lemma admit_inv: "rate_inv l r \<Longrightarrow> rate_inv l (snd (admit l k t r))"
  using admit_quiet(1) [of l "refreshed t r" t k "fst (admit l k t r)" "snd (admit l k t r)"]
  by (simp add: admit_refreshed [of l k t r] refreshed_def split: if_splits)

lemma admitted_quiet:
  assumes "rate_inv l r" "\<forall>(t, k) \<in> set calls. t - windowStartedAt r < 60000"
  shows "int (length (admitted l r calls)) + globalCount r \<le> max 0 (rl_global l) \<and>
    int (count_list (admitted l r calls) j) + key_count r j \<le> max 0 (rl_perKey l)"
  using assms
proof (induction calls arbitrary: r)
  case Nil
  then show ?case by (simp add: rate_inv_def)
next
  case (Cons c calls)
  obtain t k where c: "c = (t, k)" by fastforce
  obtain ok r' where a: "admit l k t r = (ok, r')" by fastforce
  have "t - windowStartedAt r < 60000" using Cons.prems(2) c by simp
  note q = admit_quiet [OF Cons.prems(1) this a]
  from Cons.IH [OF q(1)] Cons.prems(2) q(2)
  have "int (length (admitted l r' calls)) + globalCount r' \<le> max 0 (rl_global l) \<and>
    int (count_list (admitted l r' calls) j) + key_count r' j \<le> max 0 (rl_perKey l)" by simp
  then show ?case using q(3) q(4) [of j] by (auto simp: c a)
qed

lemma admitted_interval:
  assumes "rate_inv l r" "\<forall>(t, k) \<in> set calls. a \<le> t \<and> t < a + 60000"
  shows "int (length (admitted l r calls)) + globalCount r \<le> 2 * max 0 (rl_global l) \<and>
    int (count_list (admitted l r calls) j) + key_count r j \<le> 2 * max 0 (rl_perKey l)"
  using assms
proof (induction calls arbitrary: r)
  case Nil
  then show ?case by (auto simp: rate_inv_def intro: order_trans)
next
  case (Cons c calls)
  obtain t k where c: "c = (t, k)" by fastforce
  have tk: "a \<le> t" using Cons.prems(2) c by simp
  show ?case
  proof (cases "t - windowStartedAt r \<ge> 60000")
    case True
    have same: "admitted l r (c # calls) = admitted l (createFixedWindowRateLimiter t) (c # calls)"
      using True admit_refreshed [of l k t r] by (simp add: c refreshed_def)
    have "\<forall>(s, k') \<in> set (c # calls). s - t < 60000"
      using Cons.prems(2) tk by force
    then have "int (length (admitted l r (c # calls))) \<le> max 0 (rl_global l) \<and>
        int (count_list (admitted l r (c # calls)) j) \<le> max 0 (rl_perKey l)"
      unfolding same using admitted_quiet [of l "createFixedWindowRateLimiter t" "c # calls" j] by simp
    moreover have "globalCount r \<le> max 0 (rl_global l) \<and> key_count r j \<le> max 0 (rl_perKey l)"
      using Cons.prems(1) by (simp add: rate_inv_def)
    ultimately show ?thesis by linarith
  next
    case False
    obtain ok r' where a: "admit l k t r = (ok, r')" by fastforce
    from False have "t - windowStartedAt r < 60000" by simp
    note q = admit_quiet [OF Cons.prems(1) this a]
    from Cons.IH [OF q(1)] Cons.prems(2)
    have "int (length (admitted l r' calls)) + globalCount r' \<le> 2 * max 0 (rl_global l) \<and>
      int (count_list (admitted l r' calls) j) + key_count r' j \<le> 2 * max 0 (rl_perKey l)" by simp
    then show ?thesis using q(3) q(4) [of j] by (auto simp: c a)
  qed
qed

section \<open>Reservations and capacity\<close>

text \<open>What admission reads of a session; the session record of the gateway extends it.\<close>

record sessionView =
  terminated :: bool
  lifecycle :: sessionState
  ownerAccountId :: "string option"

fun is_creating :: "sessionState \<Rightarrow> bool" where
  "is_creating CREATING = True"
| "is_creating _ = False"

fun is_live :: "sessionState \<Rightarrow> bool" where
  "is_live (ACTIVE _) = True"
| "is_live (RECONNECTING _) = True"
| "is_live _ = False"

record reservation =
  rv_accountId :: string
  rv_purpose :: carrierPurpose
  rv_tunnelId :: string
  rv_expiresAt :: int

record admissionLimits =
  maxPendingTunnels :: int
  maxActiveTunnels :: int
  maxTunnelsPerAccount :: int
  maxOutstandingCarrierCredentials :: int
  maxOutstandingCarrierCredentialsPerAccount :: int
  credentialRate :: rateLimits

definition DEFAULT_MAX_OUTSTANDING_CARRIER_CREDENTIALS :: int where
  "DEFAULT_MAX_OUTSTANDING_CARRIER_CREDENTIALS = 128"

definition DEFAULT_MAX_OUTSTANDING_CARRIER_CREDENTIALS_PER_ACCOUNT :: int where
  "DEFAULT_MAX_OUTSTANDING_CARRIER_CREDENTIALS_PER_ACCOUNT = 8"

definition DEFAULT_CARRIER_CREDENTIALS_PER_MINUTE :: int where
  "DEFAULT_CARRIER_CREDENTIALS_PER_MINUTE = 1000"

definition DEFAULT_CARRIER_CREDENTIALS_PER_ACCOUNT_PER_MINUTE :: int where
  "DEFAULT_CARRIER_CREDENTIALS_PER_ACCOUNT_PER_MINUTE = 60"

definition CREATE_RESERVATION_TTL_MS :: int where
  "CREATE_RESERVATION_TTL_MS = 60000"

record admission =
  credentialReservations :: "(string, reservation) jsmap"
  carrierCredentialRate :: rateLimiter
  pendingCarrierConnections :: leases
  carrierAuthorizationAttempts :: leases

definition or_default :: "int option \<Rightarrow> int \<Rightarrow> int" where
  "or_default v d = (case v of Some n \<Rightarrow> n | None \<Rightarrow> d)"

text \<open>The limits: three are given, four have a default.\<close>

definition admission_limits ::
    "int \<Rightarrow> int \<Rightarrow> int \<Rightarrow> int option \<Rightarrow> int option \<Rightarrow> int option \<Rightarrow> int option \<Rightarrow> admissionLimits" where
  "admission_limits pending active perAccount outstanding outstandingPerAccount perMinute perAccountPerMinute =
    \<lparr>maxPendingTunnels = pending, maxActiveTunnels = active, maxTunnelsPerAccount = perAccount,
     maxOutstandingCarrierCredentials = or_default outstanding DEFAULT_MAX_OUTSTANDING_CARRIER_CREDENTIALS,
     maxOutstandingCarrierCredentialsPerAccount =
       or_default outstandingPerAccount DEFAULT_MAX_OUTSTANDING_CARRIER_CREDENTIALS_PER_ACCOUNT,
     credentialRate = \<lparr>rl_global = or_default perMinute DEFAULT_CARRIER_CREDENTIALS_PER_MINUTE,
       rl_perKey = or_default perAccountPerMinute DEFAULT_CARRIER_CREDENTIALS_PER_ACCOUNT_PER_MINUTE\<rparr>\<rparr>"

definition createGatewayAdmission :: "int \<Rightarrow> admission" where
  "createGatewayAdmission now =
    \<lparr>credentialReservations = [], carrierCredentialRate = createFixedWindowRateLimiter now,
     pendingCarrierConnections = no_leases, carrierAuthorizationAttempts = no_leases\<rparr>"

definition cleanupCredentialReservations :: "int \<Rightarrow> admission \<Rightarrow> admission" where
  "cleanupCredentialReservations now a =
    a\<lparr>credentialReservations := map_delete_if (\<lambda>r. rv_expiresAt r \<le> now) (credentialReservations a)\<rparr>"

definition count_if :: "('a \<Rightarrow> bool) \<Rightarrow> 'a list \<Rightarrow> int" where
  "count_if P xs = int (length (filter P xs))"

type_synonym 'a registered = "(nat \<times> 'a sessionView_scheme) list"

definition hasPendingTunnelCapacity :: "admissionLimits \<Rightarrow> 'a registered \<Rightarrow> admission \<Rightarrow> bool" where
  "hasPendingTunnelCapacity l sessions a =
    (lc_count (pendingCarrierConnections a) + map_size (credentialReservations a) +
     count_if (\<lambda>(_, s). \<not> terminated s \<and> is_creating (lifecycle s)) sessions < maxPendingTunnels l)"

definition canAdmitNewTunnel ::
    "admissionLimits \<Rightarrow> 'a registered \<Rightarrow> int \<Rightarrow> string option \<Rightarrow> admission \<Rightarrow> bool \<times> admission" where
  "canAdmitNewTunnel l sessions now accountId a =
    (let a = cleanupCredentialReservations now a;
         live = filter (\<lambda>(_, s). \<not> terminated s) sessions;
         pending = lc_count (pendingCarrierConnections a) + count_if (\<lambda>(_, s). is_creating (lifecycle s)) live +
           map_size (credentialReservations a);
         active = count_if (\<lambda>(_, s). is_live (lifecycle s)) live;
         owned = count_if (\<lambda>(_, s). accountId \<noteq> None \<and> ownerAccountId s = accountId) live +
           count_if (\<lambda>r. accountId = Some (rv_accountId r)) (map_values (credentialReservations a))
     in (pending < maxPendingTunnels l \<and> active < maxActiveTunnels l \<and>
         (accountId = None \<or> owned < maxTunnelsPerAccount l), a))"

definition canActivateTunnel :: "admissionLimits \<Rightarrow> 'a registered \<Rightarrow> nat \<times> 'a sessionView_scheme \<Rightarrow> bool" where
  "canActivateTunnel l sessions candidate = (case candidate of (self, c) \<Rightarrow>
    let others = filter (\<lambda>(i, s). i \<noteq> self \<and> \<not> terminated s) sessions;
        active = count_if (\<lambda>(_, s). is_live (lifecycle s)) others;
        owned = count_if (\<lambda>(_, s). ownerAccountId c \<noteq> None \<and> ownerAccountId s = ownerAccountId c) others
    in active < maxActiveTunnels l \<and> (ownerAccountId c = None \<or> owned < maxTunnelsPerAccount l))"

definition reserveCarrierCredential ::
    "admissionLimits \<Rightarrow> 'a registered \<Rightarrow> int \<Rightarrow> string \<Rightarrow> string \<Rightarrow> carrierPurpose \<Rightarrow> string \<Rightarrow>
     admission \<Rightarrow> string option \<times> admission" where
  "reserveCarrierCredential l sessions now reservationId accountId purpose tunnelId a =
    (let a = cleanupCredentialReservations now a in
     if \<not> hasPendingTunnelCapacity l sessions a then (None, a)
     else let (admits, a) = (if purpose = CarrierCreate then canAdmitNewTunnel l sessions now (Some accountId) a else (True, a)) in
       if \<not> admits then (None, a)
       else
         let accountOutstanding = count_if (\<lambda>r. rv_accountId r = accountId) (map_values (credentialReservations a)) in
         if map_size (credentialReservations a) \<ge> maxOutstandingCarrierCredentials l \<or>
            accountOutstanding \<ge> maxOutstandingCarrierCredentialsPerAccount l then (None, a)
         else let (ok, rate) = admit (credentialRate l) accountId now (carrierCredentialRate a);
                  a = a\<lparr>carrierCredentialRate := rate\<rparr>
           in if \<not> ok then (None, a)
              else (Some reservationId, a\<lparr>credentialReservations := map_set (credentialReservations a) reservationId
                \<lparr>rv_accountId = accountId, rv_purpose = purpose, rv_tunnelId = tunnelId,
                 rv_expiresAt = now + CREATE_RESERVATION_TTL_MS\<rparr>\<rparr>))"

text \<open>The closure that \<^verbatim>\<open>reserveCarrierCredential\<close> returns.\<close>

definition releaseCarrierCredential :: "string \<Rightarrow> admission \<Rightarrow> admission" where
  "releaseCarrierCredential reservationId a =
    a\<lparr>credentialReservations := map_delete (credentialReservations a) reservationId\<rparr>"

fun delete_first :: "('v \<Rightarrow> bool) \<Rightarrow> ('k \<times> 'v) list \<Rightarrow> ('k \<times> 'v) list" where
  "delete_first P [] = []"
| "delete_first P ((k, v) # m) = (if P v then m else (k, v) # delete_first P m)"

definition consumeCredentialReservation :: "int \<Rightarrow> string \<Rightarrow> carrierPurpose \<Rightarrow> string \<Rightarrow> admission \<Rightarrow> admission" where
  "consumeCredentialReservation now accountId purpose tunnelId a =
    (let a = cleanupCredentialReservations now a in
     a\<lparr>credentialReservations := delete_first
       (\<lambda>r. rv_accountId r = accountId \<and> rv_purpose r = purpose \<and> rv_tunnelId r = tunnelId) (credentialReservations a)\<rparr>)"

definition reservePendingCarrierConnection ::
    "admissionLimits \<Rightarrow> 'a registered \<Rightarrow> int \<Rightarrow> admission \<Rightarrow> nat option \<times> admission" where
  "reservePendingCarrierConnection l sessions now a =
    (let a = cleanupCredentialReservations now a in
     if \<not> hasPendingTunnelCapacity l sessions a then (None, a)
     else let (i, p) = take_lease (pendingCarrierConnections a) in (Some i, a\<lparr>pendingCarrierConnections := p\<rparr>))"

definition releasePendingCarrierConnection :: "nat \<Rightarrow> admission \<Rightarrow> admission" where
  "releasePendingCarrierConnection i a =
    a\<lparr>pendingCarrierConnections := release_lease i (pendingCarrierConnections a)\<rparr>"

definition reserveCarrierAuthorizationAttempt :: "admissionLimits \<Rightarrow> admission \<Rightarrow> nat option \<times> admission" where
  "reserveCarrierAuthorizationAttempt l a =
    (if lc_count (carrierAuthorizationAttempts a) \<ge> maxPendingTunnels l then (None, a)
     else let (i, p) = take_lease (carrierAuthorizationAttempts a) in (Some i, a\<lparr>carrierAuthorizationAttempts := p\<rparr>))"

definition releaseCarrierAuthorizationAttempt :: "nat \<Rightarrow> admission \<Rightarrow> admission" where
  "releaseCarrierAuthorizationAttempt i a =
    a\<lparr>carrierAuthorizationAttempts := release_lease i (carrierAuthorizationAttempts a)\<rparr>"

definition close_admission :: "admission \<Rightarrow> admission" where
  "close_admission a = a\<lparr>credentialReservations := []\<rparr>"

section \<open>The machine of all operations\<close>

datatype 'a admissionOp =
    ReserveCredential "'a registered" int string string carrierPurpose string
  | ReleaseCredential string
  | AdmitNewTunnel "'a registered" int "string option"
  | ConsumeReservation int string carrierPurpose string
  | ReservePending "'a registered" int
  | ReleasePending nat
  | ReserveAttempt
  | ReleaseAttempt nat
  | CloseAdmission

fun admission_step :: "admissionLimits \<Rightarrow> admission \<Rightarrow> 'a admissionOp \<Rightarrow> admission" where
  "admission_step l a (ReserveCredential ss t rid acc p tid) = snd (reserveCarrierCredential l ss t rid acc p tid a)"
| "admission_step l a (ReleaseCredential rid) = releaseCarrierCredential rid a"
| "admission_step l a (AdmitNewTunnel ss t acc) = snd (canAdmitNewTunnel l ss t acc a)"
| "admission_step l a (ConsumeReservation t acc p tid) = consumeCredentialReservation t acc p tid a"
| "admission_step l a (ReservePending ss t) = snd (reservePendingCarrierConnection l ss t a)"
| "admission_step l a (ReleasePending i) = releasePendingCarrierConnection i a"
| "admission_step l a ReserveAttempt = snd (reserveCarrierAuthorizationAttempt l a)"
| "admission_step l a (ReleaseAttempt i) = releaseCarrierAuthorizationAttempt i a"
| "admission_step l a CloseAdmission = close_admission a"

text \<open>
  The invariant: the two counters are the numbers of leases held and stay within the pending limit,
  together with the reservations; reservations stay within their limits in total and per account; and
  the rate counters within theirs.
\<close>

definition account_reservations :: "string \<Rightarrow> admission \<Rightarrow> int" where
  "account_reservations acc a = count_if (\<lambda>r. rv_accountId r = acc) (map_values (credentialReservations a))"

definition admission_inv :: "admissionLimits \<Rightarrow> admission \<Rightarrow> bool" where
  "admission_inv l a =
    (wf_map (credentialReservations a) \<and> leases_inv (pendingCarrierConnections a) \<and>
     leases_inv (carrierAuthorizationAttempts a) \<and> rate_inv (credentialRate l) (carrierCredentialRate a) \<and>
     lc_count (carrierAuthorizationAttempts a) \<le> max 0 (maxPendingTunnels l) \<and>
     lc_count (pendingCarrierConnections a) + map_size (credentialReservations a) \<le> max 0 (maxPendingTunnels l) \<and>
     map_size (credentialReservations a) \<le> max 0 (maxOutstandingCarrierCredentials l) \<and>
     (\<forall>acc. account_reservations acc a \<le> max 0 (maxOutstandingCarrierCredentialsPerAccount l)))"

lemma count_if_append [simp]: "count_if P (xs @ ys) = count_if P xs + count_if P ys"
  by (simp add: count_if_def)

lemma count_if_nonneg [simp]: "0 \<le> count_if P xs"
  by (simp add: count_if_def)

lemma count_if_sublist: "count_if P (filter Q xs) \<le> count_if P xs"
  by (induction xs) (auto simp: count_if_def)

lemma count_if_subseq: "subseq xs ys \<Longrightarrow> count_if P xs \<le> count_if P ys"
  unfolding count_if_def by (simp add: list_emb_length [OF subseq_filter])

lemma subseq_distinct: "subseq xs ys \<Longrightarrow> distinct ys \<Longrightarrow> distinct xs"
proof (induction rule: list_emb.induct)
  case (list_emb_Cons2 x y xs ys)
  moreover have "set xs \<subseteq> set ys" using list_emb_Cons2.hyps(2) by (induction rule: list_emb.induct) auto
  ultimately show ?case by auto
qed auto

text \<open>Fewer reservations and no more leases keep the invariant.\<close>

definition fewer :: "admission \<Rightarrow> admission \<Rightarrow> bool" where
  "fewer a' a = (subseq (credentialReservations a') (credentialReservations a) \<and>
     carrierCredentialRate a' = carrierCredentialRate a \<and>
     pendingCarrierConnections a' = pendingCarrierConnections a \<and>
     carrierAuthorizationAttempts a' = carrierAuthorizationAttempts a)"

lemma fewer_inv:
  assumes "admission_inv l a" "fewer a' a"
  shows "admission_inv l a'"
proof -
  have s: "subseq (credentialReservations a') (credentialReservations a)" using assms(2) by (simp add: fewer_def)
  have "map_size (credentialReservations a') \<le> map_size (credentialReservations a)"
    using list_emb_length [OF s] by simp
  moreover have "account_reservations acc a' \<le> account_reservations acc a" for acc
    unfolding account_reservations_def using subseq_map [OF s, of snd] by (rule count_if_subseq)
  moreover have "wf_map (credentialReservations a')"
    using subseq_distinct [OF subseq_map [OF s, of fst]] assms(1) by (simp add: admission_inv_def)
  ultimately show ?thesis
    using assms unfolding admission_inv_def fewer_def by (smt (verit, best))
qed

lemma subseq_delete_first: "subseq (delete_first P m) m"
  by (induction P m rule: delete_first.induct) auto

lemma fewer_simps [simp]:
  "fewer a a" "fewer (cleanupCredentialReservations t a) a" "fewer (releaseCarrierCredential rid a) a"
  "fewer (close_admission a) a"
  by (simp_all add: fewer_def cleanupCredentialReservations_def releaseCarrierCredential_def close_admission_def
      map_delete_if_def AList.delete_eq)

lemma fewer_trans: "fewer a b \<Longrightarrow> fewer b c \<Longrightarrow> fewer a c"
  unfolding fewer_def using subseq_order.order_trans by metis

lemma fewer_consume: "fewer (consumeCredentialReservation t acc p tid a) a"
proof -
  have "fewer (consumeCredentialReservation t acc p tid a) (cleanupCredentialReservations t a)"
    by (simp add: fewer_def consumeCredentialReservation_def Let_def subseq_delete_first)
  then show ?thesis by (rule fewer_trans) simp
qed

lemma fewer_admit_new: "fewer (snd (canAdmitNewTunnel l ss t acc a)) a"
  by (simp add: canAdmitNewTunnel_def Let_def)

lemma fewer_count: "fewer a' a \<Longrightarrow> lc_count (pendingCarrierConnections a') = lc_count (pendingCarrierConnections a)"
  by (simp add: fewer_def)

lemma reserve_pending_inv:
  assumes "admission_inv l a"
  shows "admission_inv l (snd (reservePendingCarrierConnection l ss t a))"
proof -
  let ?a = "cleanupCredentialReservations t a"
  have inv: "admission_inv l ?a" using assms by (rule fewer_inv) simp
  obtain i p where t: "take_lease (pendingCarrierConnections ?a) = (i, p)" by fastforce
  show ?thesis
  proof (cases "hasPendingTunnelCapacity l ss ?a")
    case True
    then have "lc_count (pendingCarrierConnections ?a) + map_size (credentialReservations ?a) < maxPendingTunnels l"
      by (simp add: hasPendingTunnelCapacity_def count_if_def)
    moreover have "leases_inv p" "lc_count p = lc_count (pendingCarrierConnections ?a) + 1"
      using inv take_lease_inv [OF _ t] take_lease_held [OF t] by (auto simp: admission_inv_def)
    ultimately show ?thesis
      using inv True t by (simp add: reservePendingCarrierConnection_def Let_def admission_inv_def account_reservations_def)
  qed (use inv in \<open>simp add: reservePendingCarrierConnection_def Let_def\<close>)
qed

lemma release_pending_inv: "admission_inv l a \<Longrightarrow> admission_inv l (releasePendingCarrierConnection i a)"
  by (auto simp: releasePendingCarrierConnection_def admission_inv_def release_lease_count account_reservations_def)

lemma reserve_attempt_inv:
  assumes "admission_inv l a"
  shows "admission_inv l (snd (reserveCarrierAuthorizationAttempt l a))"
proof -
  obtain i p where t: "take_lease (carrierAuthorizationAttempts a) = (i, p)" by fastforce
  show ?thesis
    using assms take_lease_inv [OF _ t] take_lease_held [OF t]
    by (auto simp: reserveCarrierAuthorizationAttempt_def t admission_inv_def account_reservations_def)
qed

lemma release_attempt_inv: "admission_inv l a \<Longrightarrow> admission_inv l (releaseCarrierAuthorizationAttempt i a)"
  by (auto simp: releaseCarrierAuthorizationAttempt_def admission_inv_def release_lease_count account_reservations_def)

lemma count_values_set:
  "wf_map m \<Longrightarrow> count_if P (map_values (map_set m k v)) \<le> count_if P (map_values m) + (if P v then 1 else 0)"
proof (induction m)
  case (Cons p m)
  then show ?case by (cases p) (auto simp: count_if_def)
qed (simp add: count_if_def)

lemma add_reservation_inv:
  assumes "admission_inv l a"
    and "lc_count (pendingCarrierConnections a) + map_size (credentialReservations a) < maxPendingTunnels l"
    and "map_size (credentialReservations a) < maxOutstandingCarrierCredentials l"
    and "account_reservations (rv_accountId r) a < maxOutstandingCarrierCredentialsPerAccount l"
  shows "admission_inv l (a\<lparr>credentialReservations := map_set (credentialReservations a) rid r\<rparr>)"
proof -
  let ?a = "a\<lparr>credentialReservations := map_set (credentialReservations a) rid r\<rparr>"
  have wf: "wf_map (credentialReservations a)" using assms(1) by (simp add: admission_inv_def)
  have "account_reservations acc ?a \<le> account_reservations acc a + (if rv_accountId r = acc then 1 else 0)" for acc
    using count_values_set [OF wf, of "\<lambda>r. rv_accountId r = acc" rid r] by (simp add: account_reservations_def)
  moreover have "account_reservations acc a \<le> max 0 (maxOutstandingCarrierCredentialsPerAccount l)" for acc
    using assms(1) by (simp add: admission_inv_def)
  ultimately have "account_reservations acc ?a \<le> max 0 (maxOutstandingCarrierCredentialsPerAccount l)" for acc
    using assms(4) by (smt (verit, best))
  moreover have "map_size (credentialReservations ?a) \<le> map_size (credentialReservations a) + 1"
    by (simp add: length_map_set)
  ultimately show ?thesis
    using assms wf by (simp add: admission_inv_def)
qed

lemma rate_only_inv:
  "admission_inv l a \<Longrightarrow> rate_inv (credentialRate l) r \<Longrightarrow> admission_inv l (a\<lparr>carrierCredentialRate := r\<rparr>)"
  by (simp add: admission_inv_def account_reservations_def)

lemma reserve_credential_inv:
  assumes "admission_inv l a"
  shows "admission_inv l (snd (reserveCarrierCredential l ss t rid acc p tid a))"
proof -
  let ?a = "cleanupCredentialReservations t a"
  define x where "x = (if p = CarrierCreate then canAdmitNewTunnel l ss t (Some acc) ?a else (True, ?a))"
  obtain admits b where x: "x = (admits, b)" by fastforce
  obtain ok r where r: "admit (credentialRate l) acc t (carrierCredentialRate b) = (ok, r)" by fastforce
  have a: "admission_inv l ?a" using assms by (rule fewer_inv) simp
  have b: "fewer b ?a" using x fewer_admit_new [of l ss t "Some acc" ?a] by (auto simp: x_def split: if_splits)
  have inv: "admission_inv l b" using a b by (rule fewer_inv)
  have rate: "rate_inv (credentialRate l) r"
    using admit_inv [of "credentialRate l" "carrierCredentialRate b" acc t] inv r by (simp add: admission_inv_def)
  have room: "lc_count (pendingCarrierConnections b) + map_size (credentialReservations b) < maxPendingTunnels l"
    if "hasPendingTunnelCapacity l ss ?a"
  proof -
    have "map_size (credentialReservations b) \<le> map_size (credentialReservations ?a)"
      using b list_emb_length [of "(=)" "credentialReservations b" "credentialReservations ?a"] by (simp add: fewer_def)
    with that fewer_count [OF b] show ?thesis by (simp add: hasPendingTunnelCapacity_def count_if_def)
  qed
  have eq: "reserveCarrierCredential l ss t rid acc p tid a =
    (if \<not> hasPendingTunnelCapacity l ss ?a then (None, ?a)
     else if \<not> admits then (None, b)
     else if map_size (credentialReservations b) \<ge> maxOutstandingCarrierCredentials l \<or>
         account_reservations acc b \<ge> maxOutstandingCarrierCredentialsPerAccount l then (None, b)
     else if \<not> ok then (None, b\<lparr>carrierCredentialRate := r\<rparr>)
     else (Some rid, b\<lparr>carrierCredentialRate := r, credentialReservations := map_set (credentialReservations b) rid
        \<lparr>rv_accountId = acc, rv_purpose = p, rv_tunnelId = tid, rv_expiresAt = t + CREATE_RESERVATION_TTL_MS\<rparr>\<rparr>))"
    unfolding reserveCarrierCredential_def x_def [symmetric] Let_def x using r by (simp add: account_reservations_def)
  have full: "admission_inv l (b\<lparr>carrierCredentialRate := r, credentialReservations := map_set (credentialReservations b) rid
      \<lparr>rv_accountId = acc, rv_purpose = p, rv_tunnelId = tid, rv_expiresAt = t + CREATE_RESERVATION_TTL_MS\<rparr>\<rparr>)"
    if "hasPendingTunnelCapacity l ss ?a" "map_size (credentialReservations b) < maxOutstandingCarrierCredentials l"
      "account_reservations acc b < maxOutstandingCarrierCredentialsPerAccount l"
    using add_reservation_inv [OF rate_only_inv [OF inv rate]] room that by (simp add: account_reservations_def)
  show ?thesis unfolding eq using a inv rate_only_inv [OF inv rate] full by (simp add: not_le)
qed

lemma admission_step_inv: "admission_inv l a \<Longrightarrow> admission_inv l (admission_step l a x)"
  by (cases x) (simp_all add: reserve_credential_inv reserve_pending_inv release_pending_inv reserve_attempt_inv
      release_attempt_inv fewer_inv [OF _ fewer_consume] fewer_inv [OF _ fewer_admit_new]
      fewer_inv [OF _ fewer_simps(3)] fewer_inv [OF _ fewer_simps(4)])

lemma new_admission_inv: "admission_inv l (createGatewayAdmission t)"
  by (simp add: admission_inv_def createGatewayAdmission_def account_reservations_def count_if_def no_leases_def
      leases_inv_def leases_held_def)

interpretation admission: invariant_machine "\<lambda>a. \<exists>t. a = createGatewayAdmission t" "admission_step l" "admission_inv l"
  by unfold_locales (auto simp: new_admission_inv admission_step_inv)

section \<open>Leases of the gateway\<close>

lemma held_count_bounded:
  assumes "admission_inv l a"
  shows "int (card (leases_held (pendingCarrierConnections a))) \<le> max 0 (maxPendingTunnels l)"
    "int (card (leases_held (carrierAuthorizationAttempts a))) \<le> max 0 (maxPendingTunnels l)"
  using assms by (auto simp: admission_inv_def leases_inv_def)

interpretation pending_carriers: lease_gate "admission_inv l" "\<lambda>a. leases_held (pendingCarrierConnections a)"
  "\<lambda>(ss, t) a. reservePendingCarrierConnection l ss t a" releasePendingCarrierConnection "max 0 (maxPendingTunnels l)"
proof (unfold_locales, goal_cases)
  case (1 s k i s')
  obtain ss t where k: "k = (ss, t)" by fastforce
  obtain j p where j: "take_lease (pendingCarrierConnections (cleanupCredentialReservations t s)) = (j, p)" by fastforce
  have "admission_inv l s'" using reserve_pending_inv [OF 1(1), of ss t] 1(2) k by simp
  moreover have "i = j" "pendingCarrierConnections s' = p"
    using 1(2) j by (auto simp: k reservePendingCarrierConnection_def Let_def split: if_splits)
  moreover have "pendingCarrierConnections (cleanupCredentialReservations t s) = pendingCarrierConnections s"
    by (simp add: cleanupCredentialReservations_def)
  ultimately show ?case using take_lease_held [OF j] by simp
next
  case (2 s k s')
  obtain ss t where k: "k = (ss, t)" by fastforce
  have "admission_inv l s'" using reserve_pending_inv [OF 2(1), of ss t] 2(2) k by simp
  moreover have "s' = cleanupCredentialReservations t s"
    using 2(2) by (auto simp: k reservePendingCarrierConnection_def Let_def split: if_splits prod.splits)
  ultimately show ?case by (simp add: cleanupCredentialReservations_def)
next
  case (3 s i)
  then show ?case using release_pending_inv by (simp add: releasePendingCarrierConnection_def)
next
  case (4 s)
  then show ?case using held_count_bounded by simp
qed

interpretation authorization_attempts: lease_gate "admission_inv l" "\<lambda>a. leases_held (carrierAuthorizationAttempts a)"
  "\<lambda>(k :: unit) a. reserveCarrierAuthorizationAttempt l a" releaseCarrierAuthorizationAttempt "max 0 (maxPendingTunnels l)"
proof (unfold_locales, goal_cases)
  case (1 s k i s')
  obtain j p where j: "take_lease (carrierAuthorizationAttempts s) = (j, p)" by fastforce
  have "admission_inv l s'" using reserve_attempt_inv [OF 1(1)] 1(2) by simp
  moreover have "i = j" "carrierAuthorizationAttempts s' = p"
    using 1(2) j by (auto simp: reserveCarrierAuthorizationAttempt_def split: if_splits)
  ultimately show ?case using take_lease_held [OF j] by simp
next
  case (2 s k s')
  then show ?case by (auto simp: reserveCarrierAuthorizationAttempt_def split: if_splits prod.splits)
next
  case (3 s i)
  then show ?case using release_attempt_inv by (simp add: releaseCarrierAuthorizationAttempt_def)
next
  case (4 s)
  then show ?case using held_count_bounded by simp
qed

section \<open>Properties\<close>

text \<open>
  C34. Whatever is called in whatever order, and however often a lease is given back: the pending
  connections and the authorization attempts counted are exactly the leases held; together with the
  outstanding reservations the pending connections stay within the pending limit; and the reservations
  within their limit, in total and for each account.
\<close>

theorem admission_bounded:
  assumes "a = run_machine (admission_step l) (createGatewayAdmission t) ops"
    and "0 \<le> maxPendingTunnels l" "0 \<le> maxOutstandingCarrierCredentials l" "0 \<le> maxOutstandingCarrierCredentialsPerAccount l"
  shows "lc_count (pendingCarrierConnections a) = int (card (leases_held (pendingCarrierConnections a))) \<and>
    lc_count (carrierAuthorizationAttempts a) = int (card (leases_held (carrierAuthorizationAttempts a))) \<and>
    lc_count (pendingCarrierConnections a) + map_size (credentialReservations a) \<le> maxPendingTunnels l \<and>
    lc_count (carrierAuthorizationAttempts a) \<le> maxPendingTunnels l \<and>
    map_size (credentialReservations a) \<le> maxOutstandingCarrierCredentials l \<and>
    account_reservations acc a \<le> maxOutstandingCarrierCredentialsPerAccount l"
proof -
  have "admission_inv l a" unfolding assms(1) by (rule admission.run_inv) blast
  with assms(2-) show ?thesis by (auto simp: admission_inv_def leases_inv_def max_def)
qed

definition sample_limits :: admissionLimits where
  "sample_limits = admission_limits 2 4 8 None None None None"

definition sample_admission_ops :: "unit admissionOp list" where
  "sample_admission_ops = [ReservePending [] 0, ReserveCredential [] 5 ''r1'' ''ada'' CarrierCreate ''t1'',
     ReservePending [] 6, ReleasePending 0, ReleasePending 0, ReserveAttempt]"

theorem admission_bounded_witness:
  "0 \<le> maxPendingTunnels sample_limits \<and>
   lc_count (pendingCarrierConnections (run_machine (admission_step sample_limits) (createGatewayAdmission 0) sample_admission_ops)) +
     map_size (credentialReservations (run_machine (admission_step sample_limits) (createGatewayAdmission 0) sample_admission_ops)) = 1 \<and>
   account_reservations ''ada'' (run_machine (admission_step sample_limits) (createGatewayAdmission 0) sample_admission_ops) \<le> 8"
proof -
  have l: "0 \<le> maxPendingTunnels sample_limits" "0 \<le> maxOutstandingCarrierCredentials sample_limits"
    "0 \<le> maxOutstandingCarrierCredentialsPerAccount sample_limits" "maxOutstandingCarrierCredentialsPerAccount sample_limits = 8"
    by code_simp+
  have "lc_count (pendingCarrierConnections (run_machine (admission_step sample_limits) (createGatewayAdmission 0) sample_admission_ops)) +
     map_size (credentialReservations (run_machine (admission_step sample_limits) (createGatewayAdmission 0) sample_admission_ops)) = 1"
    by code_simp
  with l admission_bounded [OF refl l(1-3), of 0 sample_admission_ops "''ada''"] show ?thesis by simp
qed

text \<open>
  C35. In any interval shorter than a minute, at whatever times it starts and whatever the clock does
  inside it, the limiter admits at most twice its limit, in total and for each key.
\<close>

theorem rate_limited:
  assumes "rate_inv l r" "\<forall>(t, k) \<in> set calls. a \<le> t \<and> t < a + 60000" "0 \<le> rl_global l" "0 \<le> rl_perKey l"
  shows "int (length (admitted l r calls)) \<le> 2 * rl_global l - globalCount r \<and>
    int (count_list (admitted l r calls) key) \<le> 2 * rl_perKey l - key_count r key"
  using admitted_interval [OF assms(1,2), of key] assms(3,4) by (simp add: max_def)

definition sample_rate :: rateLimits where
  "sample_rate = \<lparr>rl_global = 2, rl_perKey = 1\<rparr>"

theorem rate_limited_witness:
  "admitted sample_rate (createFixedWindowRateLimiter 0) [(59999, ''a''), (59999, ''a''), (60000, ''a''), (60001, ''b'')] = [''a'', ''a'', ''b''] \<and>
   int (count_list (admitted sample_rate (createFixedWindowRateLimiter 0)
     [(59999, ''a''), (59999, ''a''), (60000, ''a''), (60001, ''b'')]) ''a'') \<le> 2"
proof -
  have "admitted sample_rate (createFixedWindowRateLimiter 0) [(59999, ''a''), (59999, ''a''), (60000, ''a''), (60001, ''b'')] = [''a'', ''a'', ''b'']"
    by code_simp
  moreover have "int (count_list (admitted sample_rate (createFixedWindowRateLimiter 0)
     [(59999, ''a''), (59999, ''a''), (60000, ''a''), (60001, ''b'')]) ''a'') \<le> 2 * rl_perKey sample_rate - key_count (createFixedWindowRateLimiter 0) ''a''"
    using rate_limited [of sample_rate "createFixedWindowRateLimiter 0"
      "[(59999, ''a''), (59999, ''a''), (60000, ''a''), (60001, ''b'')]" 59999 "''a''"] by (simp add: sample_rate_def)
  ultimately show ?thesis by (simp add: sample_rate_def)
qed

text \<open>
  The keyed gate: whatever is acquired and released, its counters are the leases held, in total and
  per key, within their limits; and a key without a lease has no entry, so the table does not grow.
\<close>

theorem keyed_gate_exact:
  assumes "a = run_machine (keyed_step l) new_keyedAdmission ops" "0 \<le> kl_global l" "0 \<le> kl_perKey l"
  shows "concurrent a = int (card (keyed_held a)) \<and> concurrent a \<le> kl_global l \<and>
    map_get (concurrentByKey a) key = (if held_by key a = {} then None else Some (int (card (held_by key a)))) \<and>
    int (card (held_by key a)) \<le> kl_perKey l"
proof -
  have "keyed_inv l a" using assms(1) keyed_gate.gate_run_inv [OF new_keyed_inv] keyed_gate_step by metis
  with assms(2,3) show ?thesis by (auto simp: keyed_inv_def max_def)
qed

definition sample_keyed :: keyedAdmission where
  "sample_keyed = run_machine (keyed_step \<lparr>kl_global = 2, kl_perKey = 1\<rparr>) new_keyedAdmission
     [Acquire ''a'', Acquire ''a'', Acquire ''b'', Release 0, Release 0]"

theorem keyed_gate_exact_witness: "concurrent sample_keyed = 1 \<and> int (card (held_by ''b'' sample_keyed)) \<le> 1"
proof
  show "concurrent sample_keyed = 1" by code_simp
  show "int (card (held_by ''b'' sample_keyed)) \<le> 1"
    using keyed_gate_exact [OF sample_keyed_def, of "''b''"] by simp
qed

end
