(* ===== verification/OperationalState.thy ===== *)
theory OperationalState
  imports JsString
begin

text \<open>
  The operational state of a deployment, \<^verbatim>\<open>packages/operations/src/operational-state.ts\<close>: the identity of a
  deployment and the cache \<^verbatim>\<open>OperationalStateCache\<close> from which the gateway reads whether it may admit tunnels.
  The repository behind it is an interface of the sources; its states are arguments here.
\<close>

record deploymentIdentity =
  deploymentId :: string
  configDigest :: string

datatype canaryStatus = CanaryUnknown | CanaryPassed | CanaryFailed

record operationalState =
  os_identity :: deploymentIdentity
  killSwitchEnabled :: bool
  canaryStatusOf :: canaryStatus
  canaryCheckedAt :: "int option"
  admissionApprovedAt :: "int option"
  admissionApprovedBy :: "string option"
  os_updatedAt :: int

datatype operationalStateErrorCode = CANARY_REQUIRED | DEPLOYMENT_IDENTITY_MISMATCH | ACTOR_NOT_AUTHORIZED

record operationalStateCache =
  cache_identity :: deploymentIdentity
  cache_state :: "operationalState option"
  available :: bool

definition new_cache :: "deploymentIdentity \<Rightarrow> operationalStateCache" where
  "new_cache identity = \<lparr>cache_identity = identity, cache_state = None, available = False\<rparr>"

definition sameDeployment :: "deploymentIdentity \<Rightarrow> deploymentIdentity \<Rightarrow> bool" where
  "sameDeployment left right = (deploymentId left = deploymentId right \<and> configDigest left = configDigest right)"

definition cache_apply ::
    "operationalStateCache \<Rightarrow> operationalState \<Rightarrow> (operationalStateErrorCode + unit) \<times> operationalStateCache" where
  "cache_apply c state =
    (if \<not> sameDeployment (cache_identity c) (os_identity state) then (Inl DEPLOYMENT_IDENTITY_MISMATCH, c)
     else (Inr (), c\<lparr>cache_state := Some state, available := True\<rparr>))"

definition markUnavailable :: "operationalStateCache \<Rightarrow> operationalStateCache" where
  "markUnavailable c = c\<lparr>available := False\<rparr>"

definition cache_snapshot :: "operationalStateCache \<Rightarrow> operationalState option" where
  "cache_snapshot c = cache_state c"

definition isAdmissionReady :: "operationalStateCache \<Rightarrow> bool" where
  "isAdmissionReady c = (available c \<and> (case cache_state c of
     None \<Rightarrow> False
   | Some s \<Rightarrow> \<not> killSwitchEnabled s \<and> canaryStatusOf s = CanaryPassed \<and> canaryCheckedAt s \<noteq> None \<and>
       admissionApprovedAt s \<noteq> None \<and> admissionApprovedBy s \<noteq> None))"

definition isKillSwitchEnabled :: "operationalStateCache \<Rightarrow> bool" where
  "isKillSwitchEnabled c = (case cache_state c of Some s \<Rightarrow> killSwitchEnabled s | None \<Rightarrow> True)"

text \<open>\<^verbatim>\<open>/^[A-Za-z0-9][A-Za-z0-9._-]*$/\<close> and \<^verbatim>\<open>/^sha256:[a-f0-9]{64}$/\<close>\<close>

definition alphanumeric :: "char \<Rightarrow> bool" where
  "alphanumeric c = (is_lower c \<or> is_upper c \<or> is_digit c)"

definition deployment_id_pattern :: "string \<Rightarrow> bool" where
  "deployment_id_pattern s = (s \<noteq> [] \<and> alphanumeric (hd s) \<and>
     list_all (\<lambda>c. alphanumeric c \<or> c \<in> set ''._-'') (tl s))"

definition config_digest_pattern :: "string \<Rightarrow> bool" where
  "config_digest_pattern s = (startsWith s ''sha256:'' \<and> length s = 71 \<and>
     list_all (\<lambda>c. is_digit c \<or> (97 \<le> char_code c \<and> char_code c \<le> 102)) (drop 7 s))"

datatype identityError = DeploymentIdInvalid | ConfigDigestInvalid

definition parseDeploymentIdentity :: "string \<Rightarrow> string \<Rightarrow> identityError + deploymentIdentity" where
  "parseDeploymentIdentity deployment digest =
    (if length deployment < 1 \<or> length deployment > 128 \<or> \<not> deployment_id_pattern deployment then Inl DeploymentIdInvalid
     else if \<not> config_digest_pattern digest then Inl ConfigDigestInvalid
     else Inr \<lparr>deploymentId = deployment, configDigest = digest\<rparr>)"

section \<open>The cache over time\<close>

datatype cacheOp = ApplyState operationalState | MarkUnavailable

fun cache_step :: "operationalStateCache \<Rightarrow> cacheOp \<Rightarrow> operationalStateCache" where
  "cache_step c (ApplyState s) = snd (cache_apply c s)"
| "cache_step c MarkUnavailable = markUnavailable c"

text \<open>The specification: the last state of this deployment, unless the repository failed since.\<close>

definition own_states :: "deploymentIdentity \<Rightarrow> cacheOp list \<Rightarrow> cacheOp list" where
  "own_states identity ops = filter (\<lambda>x. case x of ApplyState s \<Rightarrow> os_identity s = identity | MarkUnavailable \<Rightarrow> True) ops"

definition cache_inv :: "operationalStateCache \<Rightarrow> bool" where
  "cache_inv c = ((available c \<longrightarrow> cache_state c \<noteq> None) \<and> (\<forall>s. cache_state c = Some s \<longrightarrow> os_identity s = cache_identity c))"

lemma sameDeployment_iff: "sameDeployment a b \<longleftrightarrow> a = (b :: deploymentIdentity)"
  by (auto simp: sameDeployment_def)

lemma cache_step_inv: "cache_inv c \<Longrightarrow> cache_inv (cache_step c x)"
  by (cases x) (auto simp: cache_inv_def cache_apply_def markUnavailable_def sameDeployment_iff)

lemma new_cache_inv: "cache_inv (new_cache identity)"
  by (simp add: cache_inv_def new_cache_def)

interpretation cache: invariant_machine "\<lambda>c. \<exists>identity. c = new_cache identity" cache_step cache_inv
  by unfold_locales (auto simp: cache_step_inv new_cache_inv)

lemma cache_identity_step [simp]: "cache_identity (cache_step c x) = cache_identity c"
  by (cases x) (simp_all add: cache_apply_def markUnavailable_def)

lemma cache_identity_run [simp]: "cache_identity (run_machine cache_step c ops) = cache_identity c"
  by (induction ops arbitrary: c) simp_all

lemma available_run:
  "available (run_machine cache_step c ops) \<longleftrightarrow>
   (case rev (own_states (cache_identity c) ops) of [] \<Rightarrow> available c | ApplyState s # _ \<Rightarrow> True | MarkUnavailable # _ \<Rightarrow> False)"
proof (induction ops rule: rev_induct)
  case (snoc x ops)
  show ?case
  proof (cases x)
    case (ApplyState s)
    with snoc show ?thesis
      by (auto simp: run_machine_append own_states_def cache_apply_def sameDeployment_iff)
  qed (simp add: run_machine_append own_states_def markUnavailable_def)
qed (simp add: own_states_def)

lemma state_run:
  "cache_state (run_machine cache_step c ops) =
   (case filter (\<lambda>x. x \<noteq> MarkUnavailable) (rev (own_states (cache_identity c) ops)) of
      ApplyState s # _ \<Rightarrow> Some s | _ \<Rightarrow> cache_state c)"
proof (induction ops rule: rev_induct)
  case (snoc x ops)
  show ?case
  proof (cases x)
    case (ApplyState s)
    with snoc show ?thesis
      by (auto simp: run_machine_append own_states_def cache_apply_def sameDeployment_iff)
  qed (use snoc in \<open>simp add: run_machine_append own_states_def markUnavailable_def\<close>)
qed (simp add: own_states_def)

text \<open>
  C36. Admission fails closed: whatever states arrive and whenever the repository fails, the gateway is
  ready exactly when the last thing that happened for its own deployment is a state with a passed and
  dated canary, a dated approval with its approver and the kill switch off. So it is not ready before the first state of
  its own deployment and not after a failure of the repository, and a state of another deployment changes
  nothing. The kill switch counts as on until the first state of the own deployment and then is what the last one
  says, which a failure of the repository does not change.
\<close>

theorem admission_fails_closed:
  "(isAdmissionReady (run_machine cache_step (new_cache identity) ops) \<longleftrightarrow> (case rev (own_states identity ops) of
      ApplyState s # _ \<Rightarrow> \<not> killSwitchEnabled s \<and> canaryStatusOf s = CanaryPassed \<and> canaryCheckedAt s \<noteq> None \<and>
        admissionApprovedAt s \<noteq> None \<and> admissionApprovedBy s \<noteq> None
    | _ \<Rightarrow> False)) \<and>
   (isKillSwitchEnabled (run_machine cache_step (new_cache identity) ops) \<longleftrightarrow>
     (case filter (\<lambda>x. x \<noteq> MarkUnavailable) (rev (own_states identity ops)) of
      ApplyState s # _ \<Rightarrow> killSwitchEnabled s | _ \<Rightarrow> True))"
proof -
  have id: "cache_identity (new_cache identity) = identity" "\<not> available (new_cache identity)" "cache_state (new_cache identity) = None"
    by (simp_all add: new_cache_def)
  show ?thesis
    by (simp add: isAdmissionReady_def isKillSwitchEnabled_def available_run state_run id split: list.split cacheOp.split)
qed

end
