(* ===== verification/Unicode.thy ===== *)
theory Unicode
  imports JsString Bytes
begin

text \<open>
  Strings that arrive from the network: lists of UTF-16 code units, as natural numbers below 65536, with
  \<^verbatim>\<open>TextEncoder\<close> and the fatal \<^verbatim>\<open>TextDecoder\<close> of the platform. The decoder is the byte-at-a-time machine of the
  encoding standard, which refuses overlong forms, surrogates and truncated sequences and drops one byte
  order mark.
\<close>

type_synonym ustring = "nat list"

definition units :: "string \<Rightarrow> ustring" where
  "units s = map char_code s"

definition latin1_string :: "ustring \<Rightarrow> string" where
  "latin1_string u = map (\<lambda>n. char_of n) u"

lemma latin1_units [simp]: "latin1_string (units s) = s"
  by (simp add: latin1_string_def units_def char_code_def o_def)

lemma units_latin1: "list_all (\<lambda>n. n < 256) u \<Longrightarrow> units (latin1_string u) = u"
  by (induction u) (simp_all add: latin1_string_def units_def)

lemma units_inject [simp]: "units s = units t \<longleftrightarrow> s = t"
  by (metis latin1_units)

lemma units_below: "n \<in> set (units s) \<Longrightarrow> n < 256"
  by (auto simp: units_def)

section \<open>Encoding\<close>

definition high_surrogate :: "nat \<Rightarrow> bool" where
  "high_surrogate u = (55296 \<le> u \<and> u \<le> 56319)"

definition low_surrogate :: "nat \<Rightarrow> bool" where
  "low_surrogate u = (56320 \<le> u \<and> u \<le> 57343)"

definition surrogate :: "nat \<Rightarrow> bool" where
  "surrogate u = (high_surrogate u \<or> low_surrogate u)"

definition encode_point :: "nat \<Rightarrow> nat list" where
  "encode_point p =
    (if p < 128 then [p]
     else if p < 2048 then [192 + p div 64, 128 + p mod 64]
     else if p < 65536 then [224 + p div 4096, 128 + p div 64 mod 64, 128 + p mod 64]
     else [240 + p div 262144, 128 + p div 4096 mod 64, 128 + p div 64 mod 64, 128 + p mod 64])"

definition join_surrogates :: "nat \<Rightarrow> nat \<Rightarrow> nat" where
  "join_surrogates u v = 65536 + (u - 55296) * 1024 + (v - 56320)"

fun utf8_encode :: "ustring \<Rightarrow> nat list" where
  "utf8_encode [] = []"
| "utf8_encode [u] = encode_point (if surrogate u then 65533 else u)"
| "utf8_encode (u # v # us) =
     (if high_surrogate u \<and> low_surrogate v then encode_point (join_surrogates u v) @ utf8_encode us
      else encode_point (if surrogate u then 65533 else u) @ utf8_encode (v # us))"

definition text_encode :: "ustring \<Rightarrow> byte list" where
  "text_encode us = map word_of_nat (utf8_encode us)"

section \<open>Decoding\<close>

definition point_units :: "nat \<Rightarrow> ustring" where
  "point_units p = (if p < 65536 then [p] else [55296 + (p - 65536) div 1024, 56320 + (p - 65536) mod 1024])"

datatype utf8_state = Ready ustring | Pending nat nat nat nat ustring | Malformed

fun utf8_step :: "utf8_state \<Rightarrow> nat \<Rightarrow> utf8_state" where
  "utf8_step (Ready out) b =
     (if b < 128 then Ready (out @ [b])
      else if 194 \<le> b \<and> b \<le> 223 then Pending 1 (b - 192) 128 191 out
      else if 224 \<le> b \<and> b \<le> 239
        then Pending 2 (b - 224) (if b = 224 then 160 else 128) (if b = 237 then 159 else 191) out
      else if 240 \<le> b \<and> b \<le> 244
        then Pending 3 (b - 240) (if b = 240 then 144 else 128) (if b = 244 then 143 else 191) out
      else Malformed)"
| "utf8_step (Pending need acc lo hi out) b =
     (if b < lo \<or> b > hi then Malformed
      else let acc' = acc * 64 + (b - 128) in
        if need = 1 then Ready (out @ point_units acc') else Pending (need - 1) acc' 128 191 out)"
| "utf8_step Malformed b = Malformed"

definition strip_bom :: "ustring \<Rightarrow> ustring" where
  "strip_bom us = (if us \<noteq> [] \<and> hd us = 65279 then tl us else us)"

definition text_decode :: "byte list \<Rightarrow> ustring option" where
  "text_decode bs = (case foldl utf8_step (Ready []) (map unat bs) of Ready out \<Rightarrow> Some (strip_bom out) | _ \<Rightarrow> None)"

section \<open>Round trip\<close>

fun well_formed :: "ustring \<Rightarrow> bool" where
  "well_formed [] = True"
| "well_formed [u] = (u < 65536 \<and> \<not> surrogate u)"
| "well_formed (u # v # us) =
     (if high_surrogate u \<and> low_surrogate v then well_formed us
      else u < 65536 \<and> \<not> surrogate u \<and> well_formed (v # us))"

definition scalar :: "nat \<Rightarrow> bool" where
  "scalar p = (p < 1114112 \<and> \<not> surrogate p)"

lemma decode_point:
  assumes "scalar p"
  shows "foldl utf8_step (Ready out) (encode_point p) = Ready (out @ point_units p)"
proof -
  consider "p < 128" | "128 \<le> p" "p < 2048" | "2048 \<le> p" "p < 65536" | "65536 \<le> p" by linarith
  then show ?thesis
  proof cases
    case 1
    then show ?thesis by (simp add: encode_point_def point_units_def)
  next
    case 2
    have "2 \<le> p div 64" "p div 64 < 32" using 2 by (simp_all add: less_mult_imp_div_less div_le_mono [of 128 p 64, simplified])
    moreover have "p div 64 * 64 + p mod 64 = p" "p mod 64 \<le> 63" by (simp_all add: mod_less_divisor less_Suc_eq_le [symmetric])
    ultimately show ?thesis using 2 by (auto simp: encode_point_def point_units_def Let_def)
  next
    case 3
    define a b c where d: "a = p div 4096" "b = p div 64 mod 64" "c = p mod 64"
    have a: "a < 16" using 3 by (simp add: d less_mult_imp_div_less)
    have c: "b < 64" "c < 64" by (simp_all add: d)
    have "p div 64 div 64 = a" by (simp add: d div_mult2_eq [of p 64 64, simplified])
    then have "a * 64 + b = p div 64" unfolding d(2) by (metis div_mult_mod_eq)
    then have eq: "(a * 64 + b) * 64 + c = p" unfolding d(3) by (metis div_mult_mod_eq)
    have low: "32 \<le> b" if "a = 0"
    proof (rule ccontr)
      assume "\<not> 32 \<le> b"
      then have "b * 64 + c \<le> 31 * 64 + 63" using c by (intro add_mono mult_right_mono) auto
      with that 3(1) eq show False by simp
    qed
    have sur: "b < 32" if "a = 13"
    proof (rule ccontr)
      assume "\<not> b < 32"
      then have "32 * 64 + 0 \<le> b * 64 + c" by (intro add_mono mult_right_mono) auto
      moreover have "b * 64 + c \<le> 63 * 64 + 63" using c by (intro add_mono mult_right_mono) auto
      ultimately have "55296 \<le> p" "p \<le> 57343" using that eq by simp_all
      with assms show False by (auto simp: scalar_def surrogate_def high_surrogate_def low_surrogate_def)
    qed
    have "encode_point p = [224 + a, 128 + b, 128 + c]" using 3 by (simp add: encode_point_def d)
    then show ?thesis using a c eq low sur 3 by (auto simp: point_units_def Let_def)
  next
    case 4
    define a b c e where d: "a = p div 262144" "b = p div 4096 mod 64" "c = p div 64 mod 64" "e = p mod 64"
    have p: "p < 1114112" using assms by (simp add: scalar_def)
    have a: "a < 5" using p by (simp add: d less_mult_imp_div_less)
    have c: "b < 64" "c < 64" "e < 64" by (simp_all add: d)
    have "p div 4096 div 64 = a" "p div 64 div 64 = p div 4096"
      by (simp_all add: d div_mult2_eq [of p 4096 64, simplified] div_mult2_eq [of p 64 64, simplified])
    then have "a * 64 + b = p div 4096" "p div 4096 * 64 + c = p div 64" unfolding d(2,3) by (metis div_mult_mod_eq)+
    then have eq: "((a * 64 + b) * 64 + c) * 64 + e = p" unfolding d(4) by (metis div_mult_mod_eq)
    have low: "16 \<le> b" if "a = 0"
    proof (rule ccontr)
      assume "\<not> 16 \<le> b"
      then have "(b * 64 + c) * 64 + e \<le> (15 * 64 + 63) * 64 + 63" using c by (intro add_mono mult_right_mono) auto
      with that 4 eq show False by simp
    qed
    have hi: "b < 16" if "a = 4"
    proof (rule ccontr)
      assume "\<not> b < 16"
      then have "(16 * 64 + 0) * 64 + 0 \<le> (b * 64 + c) * 64 + e" by (intro add_mono mult_right_mono) auto
      with that p eq show False by simp
    qed
    have "encode_point p = [240 + a, 128 + b, 128 + c, 128 + e]" using 4 by (simp add: encode_point_def d)
    then show ?thesis using a c eq low hi 4 by (auto simp: point_units_def Let_def)
  qed
qed

lemma pair_scalar: "high_surrogate u \<Longrightarrow> low_surrogate v \<Longrightarrow> scalar (join_surrogates u v) \<and> point_units (join_surrogates u v) = [u, v]"
proof -
  assume a: "high_surrogate u" "low_surrogate v"
  then obtain x y where xy: "u = 55296 + x" "v = 56320 + y" "x < 1024" "y < 1024"
    by (intro that [of "u - 55296" "v - 56320"]) (auto simp: high_surrogate_def low_surrogate_def)
  have "(x * 1024 + y) div 1024 = x" "(x * 1024 + y) mod 1024 = y" using xy by simp_all
  then show ?thesis
    using xy by (auto simp: scalar_def join_surrogates_def point_units_def surrogate_def high_surrogate_def low_surrogate_def)
qed

lemma unit_scalar: "u < 65536 \<Longrightarrow> \<not> surrogate u \<Longrightarrow> scalar u \<and> point_units u = [u]"
  by (simp add: scalar_def point_units_def)

lemma utf8_roundtrip: "well_formed us \<Longrightarrow> foldl utf8_step (Ready out) (utf8_encode us) = Ready (out @ us)"
proof (induction us arbitrary: out rule: utf8_encode.induct)
  case (2 u)
  then show ?case using unit_scalar [of u] by (simp add: decode_point)
next
  case (3 u v us)
  then show ?case using pair_scalar [of u v] unit_scalar [of u] by (simp add: decode_point split: if_splits)
qed simp

lemma encode_point_bytes: "scalar p \<Longrightarrow> b \<in> set (encode_point p) \<Longrightarrow> b < 256"
proof -
  assume "scalar p" "b \<in> set (encode_point p)"
  moreover have "p div 262144 < 5" if "p < 1114112" using that by (simp add: less_mult_imp_div_less)
  moreover have "p div 4096 < 16" if "p < 65536" using that by (simp add: less_mult_imp_div_less)
  moreover have "p div 64 < 32" if "p < 2048" using that by (simp add: less_mult_imp_div_less)
  moreover have "p div 4096 mod 64 < 64" "p div 64 mod 64 < 64" "p mod 64 < 64" by simp_all
  ultimately show ?thesis by (auto simp: encode_point_def scalar_def split: if_splits)
qed

lemma utf8_encode_bytes: "well_formed us \<Longrightarrow> b \<in> set (utf8_encode us) \<Longrightarrow> b < 256"
proof (induction us rule: utf8_encode.induct)
  case (2 u)
  then show ?case using unit_scalar [of u] encode_point_bytes by auto
next
  case (3 u v us)
  then show ?case using pair_scalar [of u v] unit_scalar [of u] encode_point_bytes by (auto split: if_splits)
qed simp

lemma text_roundtrip: "well_formed us \<Longrightarrow> text_decode (text_encode us) = Some (strip_bom us)"
proof -
  assume a: "well_formed us"
  then have "map unat (text_encode us) = utf8_encode us"
    using utf8_encode_bytes [OF a] by (auto simp: text_encode_def unat_of_nat intro!: map_idI)
  with utf8_roundtrip [OF a, of "[]"] show ?thesis by (simp add: text_decode_def)
qed

lemma well_formed_append: "well_formed us \<Longrightarrow> well_formed vs \<Longrightarrow> well_formed (us @ vs)"
proof (induction us rule: well_formed.induct)
  case (2 u)
  then show ?case by (cases vs) (auto simp: surrogate_def)
next
  case (3 u v us)
  then show ?case by (auto split: if_splits)
qed simp

lemma well_formed_small: "list_all (\<lambda>u. u < 55296) us \<Longrightarrow> well_formed us"
  by (induction us rule: well_formed.induct) (auto simp: surrogate_def high_surrogate_def low_surrogate_def)

lemma well_formed_units [simp]: "well_formed (units s)"
  by (rule well_formed_small) (auto simp: list_all_iff dest!: units_below)

end
