(* ===== verification/Json.thy ===== *)
theory Json
  imports Unicode
begin

text \<open>
  JSON as the platform reads and writes it, on strings of UTF-16 code units. \<^verbatim>\<open>JSON.parse\<close> is a lexer that
  steps over the code units and a parser that steps over the tokens with a stack of open arrays and
  objects, so both end on every input. A number literal denotes the double nearest to its decimal
  value, ties to even; only whether that double is integral, and which integer it is, is kept.
\<close>

datatype json =
    JNull | JBool bool | JNumber number | JString ustring
  | JArray "json list" | JObject "(ustring \<times> json) list"

section \<open>Numbers\<close>

definition digit_code :: "nat \<Rightarrow> bool" where
  "digit_code c = (48 \<le> c \<and> c \<le> 57)"

fun bits :: "nat \<Rightarrow> nat" where
  "bits n = (if n = 0 then 0 else Suc (bits (n div 2)))"

declare bits.simps [simp del]

definition half_even :: "nat \<Rightarrow> nat \<Rightarrow> nat" where
  "half_even p q = p div q + (if 2 * (p mod q) > q \<or> (2 * (p mod q) = q \<and> odd (p div q)) then 1 else 0)"

text \<open>The double nearest to \<open>p / q\<close>. Below one it is integral only at the ends.\<close>

definition round_double :: "nat \<Rightarrow> nat \<Rightarrow> number" where
  "round_double p q =
    (if p < q then
       (if p * 2 ^ 1075 \<le> q then Integral 0 else if (q - p) * 2 ^ 54 \<le> q then Integral 1 else NonIntegral)
     else let n = bits (p div q) in
       if n \<le> 53 then
         (let s = 53 - n; m = half_even (p * 2 ^ s) q in
          if m mod 2 ^ s = 0 then Integral (int (m div 2 ^ s)) else NonIntegral)
       else
         (let s = n - 53; v = half_even p (q * 2 ^ s) * 2 ^ s in
          if v \<ge> 2 ^ 1024 then NonIntegral else Integral (int v)))"

definition digits_value :: "ustring \<Rightarrow> nat" where
  "digits_value ds = foldl (\<lambda>n d. n * 10 + (d - 48)) 0 ds"

fun negate :: "bool \<Rightarrow> number \<Rightarrow> number" where
  "negate neg (Integral i) = Integral (if neg then - i else i)"
| "negate neg NonIntegral = NonIntegral"

definition number_value :: "bool \<Rightarrow> nat \<Rightarrow> int \<Rightarrow> number" where
  "number_value neg m e =
    negate neg (if e \<ge> 0 then round_double (m * 10 ^ nat e) 1 else round_double m (10 ^ nat (- e)))"

text \<open>\<^verbatim>\<open>-?(0|[1-9][0-9]*)(\.[0-9]+)?([eE][+-]?[0-9]+)?\<close>\<close>

definition read_exponent :: "ustring \<Rightarrow> int option" where
  "read_exponent t = (case t of
     [] \<Rightarrow> Some 0
   | c # r \<Rightarrow>
       if c \<noteq> 69 \<and> c \<noteq> 101 then None
       else let neg = (r \<noteq> [] \<and> hd r = 45); ds = (if r \<noteq> [] \<and> (hd r = 43 \<or> hd r = 45) then tl r else r) in
         if ds = [] \<or> \<not> list_all digit_code ds then None
         else Some (if neg then - int (digits_value ds) else int (digits_value ds)))"

definition read_number :: "ustring \<Rightarrow> number option" where
  "read_number t =
    (let neg = (t \<noteq> [] \<and> hd t = 45);
         u = (if neg then tl t else t);
         ip = takeWhile digit_code u; u = dropWhile digit_code u;
         dotted = (u \<noteq> [] \<and> hd u = 46);
         fp = (if dotted then takeWhile digit_code (tl u) else []);
         u = (if dotted then dropWhile digit_code (tl u) else u)
     in if ip = [] \<or> (hd ip = 48 \<and> length ip > 1) \<or> (dotted \<and> fp = []) then None
        else map_option (\<lambda>e. number_value neg (digits_value (ip @ fp)) (e - int (length fp))) (read_exponent u))"

section \<open>Lexing\<close>

datatype token =
    TLBrace | TRBrace | TLBracket | TRBracket | TColon | TComma
  | TString ustring | TNumber number | TTrue | TFalse | TNull

datatype lexMode = Idle | InString ustring | Escaped ustring | Unicode ustring "nat list" | InNumber ustring | InWord ustring

datatype lexState = Lex lexMode "token list" | LexFail

definition space_code :: "nat \<Rightarrow> bool" where
  "space_code c = (c = 32 \<or> c = 9 \<or> c = 10 \<or> c = 13)"

definition number_code :: "nat \<Rightarrow> bool" where
  "number_code c = (digit_code c \<or> c = 43 \<or> c = 45 \<or> c = 46 \<or> c = 69 \<or> c = 101)"

definition word_code :: "nat \<Rightarrow> bool" where
  "word_code c = (97 \<le> c \<and> c \<le> 122)"

definition hex_value :: "nat \<Rightarrow> nat option" where
  "hex_value c = (if digit_code c then Some (c - 48) else if 97 \<le> c \<and> c \<le> 102 then Some (c - 87)
     else if 65 \<le> c \<and> c \<le> 70 then Some (c - 55) else None)"

definition lex_start :: "token list \<Rightarrow> nat \<Rightarrow> lexState" where
  "lex_start ts c =
    (if space_code c then Lex Idle ts
     else if c = 123 then Lex Idle (ts @ [TLBrace]) else if c = 125 then Lex Idle (ts @ [TRBrace])
     else if c = 91 then Lex Idle (ts @ [TLBracket]) else if c = 93 then Lex Idle (ts @ [TRBracket])
     else if c = 58 then Lex Idle (ts @ [TColon]) else if c = 44 then Lex Idle (ts @ [TComma])
     else if c = 34 then Lex (InString []) ts
     else if digit_code c \<or> c = 45 then Lex (InNumber [c]) ts
     else if word_code c then Lex (InWord [c]) ts
     else LexFail)"

definition end_number :: "ustring \<Rightarrow> token list \<Rightarrow> lexState" where
  "end_number t ts = (case read_number t of Some n \<Rightarrow> Lex Idle (ts @ [TNumber n]) | None \<Rightarrow> LexFail)"

definition end_word :: "ustring \<Rightarrow> token list \<Rightarrow> lexState" where
  "end_word w ts =
    (if w = units ''true'' then Lex Idle (ts @ [TTrue]) else if w = units ''false'' then Lex Idle (ts @ [TFalse])
     else if w = units ''null'' then Lex Idle (ts @ [TNull]) else LexFail)"

text \<open>What is left open at a delimiter or at the end of the text.\<close>

fun settle :: "lexState \<Rightarrow> lexState" where
  "settle (Lex (InNumber t) ts) = end_number t ts"
| "settle (Lex (InWord w) ts) = end_word w ts"
| "settle s = s"

definition restart :: "lexState \<Rightarrow> nat \<Rightarrow> lexState" where
  "restart s c = (case s of Lex Idle ts \<Rightarrow> lex_start ts c | _ \<Rightarrow> LexFail)"

definition unescape :: "nat \<Rightarrow> nat option" where
  "unescape c = (if c \<in> {34, 92, 47} then Some c else if c = 98 then Some 8 else if c = 102 then Some 12
     else if c = 110 then Some 10 else if c = 114 then Some 13 else if c = 116 then Some 9 else None)"

fun lex_step :: "lexState \<Rightarrow> nat \<Rightarrow> lexState" where
  "lex_step LexFail c = LexFail"
| "lex_step (Lex Idle ts) c = lex_start ts c"
| "lex_step (Lex (InString s) ts) c =
     (if c = 34 then Lex Idle (ts @ [TString s]) else if c = 92 then Lex (Escaped s) ts
      else if c < 32 then LexFail else Lex (InString (s @ [c])) ts)"
| "lex_step (Lex (Escaped s) ts) c =
     (if c = 117 then Lex (Unicode s []) ts
      else case unescape c of Some u \<Rightarrow> Lex (InString (s @ [u])) ts | None \<Rightarrow> LexFail)"
| "lex_step (Lex (Unicode s ds) ts) c =
     (case hex_value c of
        None \<Rightarrow> LexFail
      | Some d \<Rightarrow>
          if length ds = 3 then Lex (InString (s @ [foldl (\<lambda>n d. n * 16 + d) 0 (ds @ [d])])) ts
          else Lex (Unicode s (ds @ [d])) ts)"
| "lex_step (Lex (InNumber t) ts) c =
     (if number_code c then Lex (InNumber (t @ [c])) ts else restart (end_number t ts) c)"
| "lex_step (Lex (InWord w) ts) c =
     (if word_code c then Lex (InWord (w @ [c])) ts else restart (end_word w ts) c)"

definition tokenize :: "ustring \<Rightarrow> token list option" where
  "tokenize text = (case settle (foldl lex_step (Lex Idle []) text) of Lex Idle ts \<Rightarrow> Some ts | _ \<Rightarrow> None)"

section \<open>Parsing\<close>

text \<open>An open array with its elements so far, or an open object with its members so far and the next key.\<close>

datatype frame = FArray "json list" | FObject "(ustring, json) jsmap" ustring

datatype parseState =
    WantValue "frame list"
  | ArrayStart "frame list"
  | AfterElement "json list" "frame list"
  | ObjectStart "frame list"
  | WantKey "(ustring, json) jsmap" "frame list"
  | WantColon "(ustring, json) jsmap" ustring "frame list"
  | AfterMember "(ustring, json) jsmap" "frame list"
  | Complete json
  | ParseFail

fun deliver :: "json \<Rightarrow> frame list \<Rightarrow> parseState" where
  "deliver v [] = Complete v"
| "deliver v (FArray vs # fs) = AfterElement (vs @ [v]) fs"
| "deliver v (FObject ms k # fs) = AfterMember (map_set ms k v) fs"

fun want_value :: "frame list \<Rightarrow> token \<Rightarrow> parseState" where
  "want_value fs TLBrace = ObjectStart fs"
| "want_value fs TLBracket = ArrayStart fs"
| "want_value fs (TString s) = deliver (JString s) fs"
| "want_value fs (TNumber n) = deliver (JNumber n) fs"
| "want_value fs TTrue = deliver (JBool True) fs"
| "want_value fs TFalse = deliver (JBool False) fs"
| "want_value fs TNull = deliver JNull fs"
| "want_value fs _ = ParseFail"

fun parse_step :: "parseState \<Rightarrow> token \<Rightarrow> parseState" where
  "parse_step (WantValue fs) t = want_value fs t"
| "parse_step (ArrayStart fs) t = (if t = TRBracket then deliver (JArray []) fs else want_value (FArray [] # fs) t)"
| "parse_step (AfterElement vs fs) t =
     (if t = TComma then WantValue (FArray vs # fs) else if t = TRBracket then deliver (JArray vs) fs else ParseFail)"
| "parse_step (ObjectStart fs) t =
     (case t of TRBrace \<Rightarrow> deliver (JObject []) fs | TString k \<Rightarrow> WantColon [] k fs | _ \<Rightarrow> ParseFail)"
| "parse_step (WantKey ms fs) t = (case t of TString k \<Rightarrow> WantColon ms k fs | _ \<Rightarrow> ParseFail)"
| "parse_step (WantColon ms k fs) t = (if t = TColon then WantValue (FObject ms k # fs) else ParseFail)"
| "parse_step (AfterMember ms fs) t =
     (if t = TComma then WantKey ms fs else if t = TRBrace then deliver (JObject ms) fs else ParseFail)"
| "parse_step (Complete v) t = ParseFail"
| "parse_step ParseFail t = ParseFail"

definition JSON_parse :: "ustring \<Rightarrow> json option" where
  "JSON_parse text = (case tokenize text of
     None \<Rightarrow> None
   | Some ts \<Rightarrow> (case foldl parse_step (WantValue []) ts of Complete v \<Rightarrow> Some v | _ \<Rightarrow> None))"

section \<open>Printing\<close>

fun decimal :: "nat \<Rightarrow> ustring" where
  "decimal n = (if n < 10 then [48 + n] else decimal (n div 10) @ [48 + n mod 10])"

declare decimal.simps [simp del]

definition print_int :: "int \<Rightarrow> ustring" where
  "print_int i = (if i < 0 then 45 # decimal (nat (- i)) else decimal (nat i))"

definition hex_digit :: "nat \<Rightarrow> nat" where
  "hex_digit d = (if d < 10 then 48 + d else 87 + d)"

definition hex4 :: "nat \<Rightarrow> ustring" where
  "hex4 u = [hex_digit (u div 4096), hex_digit (u div 256 mod 16), hex_digit (u div 16 mod 16), hex_digit (u mod 16)]"

definition quote_unit :: "nat \<Rightarrow> ustring" where
  "quote_unit u =
    (if u = 34 then [92, 34] else if u = 92 then [92, 92] else if u = 8 then [92, 98] else if u = 9 then [92, 116]
     else if u = 10 then [92, 110] else if u = 12 then [92, 102] else if u = 13 then [92, 114]
     else if u < 32 \<or> surrogate u then [92, 117] @ hex4 u else [u])"

fun quote_units :: "ustring \<Rightarrow> ustring" where
  "quote_units [] = []"
| "quote_units [u] = quote_unit u"
| "quote_units (u # v # us) =
     (if high_surrogate u \<and> low_surrogate v then [u, v] @ quote_units us else quote_unit u @ quote_units (v # us))"

fun sep_concat :: "'a list \<Rightarrow> 'a list list \<Rightarrow> 'a list" where
  "sep_concat sep [] = []"
| "sep_concat sep [x] = x"
| "sep_concat sep (x # y # ys) = x @ sep @ sep_concat sep (y # ys)"

text \<open>
  \<^verbatim>\<open>JSON.stringify\<close> of a value whose numbers are safe integers, which are the only ones the sources print; the
  digits of a fraction are not kept by \<open>number\<close>.
\<close>

fun JSON_stringify :: "json \<Rightarrow> ustring" where
  "JSON_stringify JNull = units ''null''"
| "JSON_stringify (JBool b) = (if b then units ''true'' else units ''false'')"
| "JSON_stringify (JNumber n) = print_int (to_int n)"
| "JSON_stringify (JString s) = [34] @ quote_units s @ [34]"
| "JSON_stringify (JArray vs) = [91] @ sep_concat [44] (map JSON_stringify vs) @ [93]"
| "JSON_stringify (JObject ms) =
     [123] @ sep_concat [44] (map (\<lambda>m. [34] @ quote_units (fst m) @ [34, 58] @ JSON_stringify (snd m)) ms) @ [125]"

end
