(* ===== verification/JsonRoundtrip.thy ===== *)
theory JsonRoundtrip
  imports Json
begin

text \<open>
  The round trip of JSON: what \<^verbatim>\<open>JSON.stringify\<close> prints is read back by \<^verbatim>\<open>JSON.parse\<close> as the same value, and it is
  well-formed text, so it survives the way through UTF-8 bytes.
\<close>

section \<open>Numbers\<close>

lemma bits_le: "n < 2 ^ k \<Longrightarrow> bits n \<le> k"
proof (induction n arbitrary: k rule: bits.induct)
  case (1 n)
  show ?case
  proof (cases "n = 0")
    case False
    with 1 obtain j where k: "k = Suc j" by (cases k) auto
    with 1 have "n div 2 < 2 ^ j" by auto
    with 1 False k show ?thesis by (simp add: bits.simps [of n])
  qed (simp add: bits.simps)
qed

lemma round_double_exact: "int n \<le> MAX_SAFE_INTEGER \<Longrightarrow> round_double n 1 = Integral (int n)"
proof (cases "n = 0")
  case False
  assume "int n \<le> MAX_SAFE_INTEGER"
  then have "n < 2 ^ 53" by (simp add: MAX_SAFE_INTEGER_def)
  then have "bits n \<le> 53" by (rule bits_le)
  with False show ?thesis by (simp add: round_double_def half_even_def Let_def)
qed (simp add: round_double_def)

lemma decimal_digits: "c \<in> set (decimal n) \<Longrightarrow> digit_code c"
proof (induction n rule: decimal.induct)
  case (1 n)
  have "n mod 10 < 10" by simp
  with 1 show ?case by (auto simp: decimal.simps [of n] digit_code_def split: if_splits)
qed

lemma decimal_value: "digits_value (decimal n) = n"
proof (induction n rule: decimal.induct)
  case (1 n)
  then show ?case by (auto simp: decimal.simps [of n] digits_value_def)
qed

lemma decimal_nonempty [simp]: "decimal n \<noteq> []"
  by (simp add: decimal.simps [of n])

lemma decimal_leading: "hd (decimal n) = 48 \<Longrightarrow> length (decimal n) = 1"
proof (induction n rule: decimal.induct)
  case (1 n)
  show ?case
  proof (cases "n < 10")
    case False
    then have "hd (decimal n) = hd (decimal (n div 10))" by (simp add: decimal.simps [of n])
    moreover have "\<not> (n div 10 < 10 \<and> n div 10 = 0)" using False by auto
    ultimately have "hd (decimal n) \<noteq> 48"
      using 1 False by (cases "n div 10 < 10") (auto simp: decimal.simps [of "n div 10"])
    with 1 show ?thesis by simp
  qed (simp add: decimal.simps [of n])
qed

lemma decimal_lead_nonzero: "0 < n \<Longrightarrow> hd (decimal n) \<noteq> 48"
proof (induction n rule: decimal.induct)
  case (1 n)
  then show ?case by (cases "n < 10") (simp_all add: decimal.simps [of n])
qed

lemma decimal_scan: "takeWhile digit_code (decimal n) = decimal n" "dropWhile digit_code (decimal n) = []"
  using decimal_digits by (simp_all add: takeWhile_eq_all_conv dropWhile_eq_Nil_conv)

lemma read_decimal: "int n \<le> MAX_SAFE_INTEGER \<Longrightarrow> read_number (decimal n) = Some (Integral (int n))"
proof -
  assume n: "int n \<le> MAX_SAFE_INTEGER"
  have "hd (decimal n) \<noteq> 45" using decimal_digits [of "hd (decimal n)" n] by (auto simp: digit_code_def)
  moreover have "\<not> (hd (decimal n) = 48 \<and> length (decimal n) > 1)" using decimal_leading by auto
  ultimately show ?thesis
    using round_double_exact [OF n] decimal_digits
    by (auto simp: read_number_def Let_def decimal_scan read_exponent_def decimal_value number_value_def)
qed

lemma read_int: "\<bar>i\<bar> \<le> MAX_SAFE_INTEGER \<Longrightarrow> read_number (print_int i) = Some (Integral i)"
proof (cases "i < 0")
  case True
  assume "\<bar>i\<bar> \<le> MAX_SAFE_INTEGER"
  with True have n: "int (nat (- i)) \<le> MAX_SAFE_INTEGER" by simp
  have "\<not> (hd (decimal (nat (- i))) = 48 \<and> length (decimal (nat (- i))) > 1)" using decimal_leading by auto
  then show ?thesis
    using round_double_exact [OF n] True decimal_digits
    by (auto simp: print_int_def read_number_def Let_def decimal_scan read_exponent_def decimal_value number_value_def)
next
  case False
  assume "\<bar>i\<bar> \<le> MAX_SAFE_INTEGER"
  with False show ?thesis using read_decimal [of "nat i"] by (simp add: print_int_def)
qed

section \<open>Strings\<close>

lemma hex_digit_value: "d < 16 \<Longrightarrow> hex_value (hex_digit d) = Some d"
  by (auto simp: hex_value_def hex_digit_def digit_code_def)

lemma hex4_value:
  fixes u :: nat
  assumes "u < 65536"
  shows "((u div 4096 * 16 + u div 256 mod 16) * 16 + u div 16 mod 16) * 16 + u mod 16 = u"
proof -
  have "u div 256 div 16 = u div 4096" "u div 16 div 16 = u div 256"
    by (simp_all add: div_mult2_eq [of u 256 16, simplified] div_mult2_eq [of u 16 16, simplified])
  then have "u div 4096 * 16 + u div 256 mod 16 = u div 256" "u div 256 * 16 + u div 16 mod 16 = u div 16"
    by (metis div_mult_mod_eq)+
  then show ?thesis by simp
qed

lemma lex_quote_unit:
  assumes "u < 65536"
  shows "foldl lex_step (Lex (InString s) ts) (quote_unit u) = Lex (InString (s @ [u])) ts"
proof -
  have "u div 4096 < 16" using assms by (simp add: less_mult_imp_div_less)
  then have hex: "foldl lex_step (Lex (InString s) ts) ([92, 117] @ hex4 u) = Lex (InString (s @ [u])) ts"
    using hex4_value [OF assms] by (simp add: hex4_def hex_digit_value)
  show ?thesis
    using hex by (auto simp: quote_unit_def unescape_def)
qed

lemma lex_quote_units:
  "list_all (\<lambda>u. u < 65536) us \<Longrightarrow> foldl lex_step (Lex (InString s) ts) (quote_units us) = Lex (InString (s @ us)) ts"
proof (induction us arbitrary: s rule: quote_units.induct)
  case (2 u)
  then show ?case by (simp add: lex_quote_unit)
next
  case (3 u v us)
  then show ?case by (auto simp: lex_quote_unit high_surrogate_def low_surrogate_def)
qed simp

lemma lex_string:
  "list_all (\<lambda>u. u < 65536) us \<Longrightarrow> foldl lex_step (Lex Idle ts) ([34] @ quote_units us @ [34]) = Lex Idle (ts @ [TString us])"
  by (simp add: lex_start_def space_code_def lex_quote_units)

section \<open>Tokens\<close>

fun tokens :: "json \<Rightarrow> token list" where
  "tokens JNull = [TNull]"
| "tokens (JBool b) = [if b then TTrue else TFalse]"
| "tokens (JNumber n) = [TNumber n]"
| "tokens (JString s) = [TString s]"
| "tokens (JArray vs) = [TLBracket] @ sep_concat [TComma] (map tokens vs) @ [TRBracket]"
| "tokens (JObject ms) = [TLBrace] @ sep_concat [TComma] (map (\<lambda>m. [TString (fst m), TColon] @ tokens (snd m)) ms) @ [TRBrace]"

text \<open>The values the sources print: safe integers, 16-bit code units, each key once.\<close>

fun printable :: "json \<Rightarrow> bool" where
  "printable (JNumber n) = isSafeInteger n"
| "printable (JString s) = list_all (\<lambda>u. u < 65536) s"
| "printable (JArray vs) = list_all printable vs"
| "printable (JObject ms) = (distinct (map fst ms) \<and> list_all (\<lambda>m. list_all (\<lambda>u. u < 65536) (fst m) \<and> printable (snd m)) ms)"
| "printable _ = True"

lemma sep_concat_Cons: "sep_concat sep (x # xs) = x @ (if xs = [] then [] else sep @ sep_concat sep xs)"
  by (cases xs) auto

section \<open>Lexing what was printed\<close>

definition delimiter :: "nat \<Rightarrow> bool" where
  "delimiter c = (c = 44 \<or> c = 93 \<or> c = 125)"

lemma lex_delimiter: "settle s = Lex Idle ts \<Longrightarrow> delimiter c \<Longrightarrow> lex_step s c = lex_start ts c"
  by (cases s rule: settle.cases)
    (auto simp: delimiter_def number_code_def word_code_def digit_code_def restart_def)

lemma lex_words:
  "settle (foldl lex_step (Lex Idle ts) (units ''null'')) = Lex Idle (ts @ [TNull])"
  "settle (foldl lex_step (Lex Idle ts) (units ''true'')) = Lex Idle (ts @ [TTrue])"
  "settle (foldl lex_step (Lex Idle ts) (units ''false'')) = Lex Idle (ts @ [TFalse])"
  by (simp_all add: units_def char_code_def lex_start_def space_code_def digit_code_def word_code_def end_word_def)

lemma lex_in_number: "list_all number_code t \<Longrightarrow> foldl lex_step (Lex (InNumber u) ts) t = Lex (InNumber (u @ t)) ts"
  by (induction t arbitrary: u) auto

lemma lex_int:
  assumes "\<bar>i\<bar> \<le> MAX_SAFE_INTEGER"
  shows "settle (foldl lex_step (Lex Idle ts) (print_int i)) = Lex Idle (ts @ [TNumber (Integral i)])"
proof -
  have digits: "list_all digit_code (decimal n)" for n using decimal_digits by (auto simp: list_all_iff)
  obtain c t where p: "print_int i = c # t" by (cases "print_int i") (auto simp: print_int_def split: if_splits)
  have "digit_code c \<or> c = 45"
    using p digits [of "nat i"] by (cases "i < 0") (auto simp: print_int_def list_all_iff)
  moreover have "list_all digit_code t"
    using p digits [of "nat i"] digits [of "nat (- i)"] by (cases "i < 0") (auto simp: print_int_def list_all_iff)
  moreover have "digit_code c \<or> c = 45 \<Longrightarrow> lex_start ts c = Lex (InNumber [c]) ts"
    by (auto simp: lex_start_def space_code_def digit_code_def)
  moreover have "list_all digit_code t \<Longrightarrow> list_all number_code t"
    by (auto simp: list_all_iff number_code_def)
  ultimately have "foldl lex_step (Lex Idle ts) (print_int i) = Lex (InNumber (print_int i)) ts"
    using p by (simp add: lex_in_number)
  then show ?thesis using read_int [OF assms] by (simp add: end_number_def)
qed

lemma lex_punctuation:
  "lex_start ts 91 = Lex Idle (ts @ [TLBracket])" "lex_start ts 93 = Lex Idle (ts @ [TRBracket])"
  "lex_start ts 123 = Lex Idle (ts @ [TLBrace])" "lex_start ts 125 = Lex Idle (ts @ [TRBrace])"
  "lex_start ts 44 = Lex Idle (ts @ [TComma])" "lex_start ts 58 = Lex Idle (ts @ [TColon])"
  by (simp_all add: lex_start_def space_code_def)

text \<open>A separated list of texts, each of which lexes to its tokens, up to the closing bracket.\<close>

lemma lex_separated:
  assumes "\<And>x ts. x \<in> set xs \<Longrightarrow> settle (foldl lex_step (Lex Idle ts) (f x)) = Lex Idle (ts @ g x)"
    and "delimiter c" "\<And>ts. lex_start ts c = Lex Idle (ts @ [t])"
  shows "foldl lex_step (Lex Idle ts) (sep_concat [44] (map f xs) @ [c]) = Lex Idle (ts @ sep_concat [TComma] (map g xs) @ [t])"
  using assms(1)
proof (induction xs arbitrary: ts)
  case Nil
  then show ?case by (simp add: assms(3))
next
  case (Cons x xs)
  have x: "settle (foldl lex_step (Lex Idle ts) (f x)) = Lex Idle (ts @ g x)" using Cons.prems by simp
  have IH: "foldl lex_step (Lex Idle us) (sep_concat [44] (map f xs) @ [c]) = Lex Idle (us @ sep_concat [TComma] (map g xs) @ [t])" for us
    using Cons by simp
  show ?case
  proof (cases "xs = []")
    case True
    then show ?thesis using lex_delimiter [OF x assms(2)] by (simp add: assms(3))
  next
    case False
    have "lex_step (foldl lex_step (Lex Idle ts) (f x)) 44 = Lex Idle (ts @ g x @ [TComma])"
      using lex_delimiter [OF x, of 44] by (simp add: delimiter_def lex_punctuation)
    with False IH [of "ts @ g x @ [TComma]"] show ?thesis by (simp add: sep_concat_Cons)
  qed
qed

lemma lex_stringify: "printable v \<Longrightarrow> settle (foldl lex_step (Lex Idle ts) (JSON_stringify v)) = Lex Idle (ts @ tokens v)"
proof (induction v arbitrary: ts rule: JSON_stringify.induct)
  case 1
  show ?case using lex_words(1) by simp
next
  case (2 b)
  show ?case using lex_words(2,3) by simp
next
  case (3 n)
  then show ?case by (cases n) (simp_all add: lex_int)
next
  case (4 s)
  then show ?case using lex_string [of s ts] by simp
next
  case (5 vs)
  have "foldl lex_step (Lex Idle (ts @ [TLBracket])) (sep_concat [44] (map JSON_stringify vs) @ [93]) =
      Lex Idle ((ts @ [TLBracket]) @ sep_concat [TComma] (map tokens vs) @ [TRBracket])"
    using 5 by (intro lex_separated) (auto simp: list_all_iff delimiter_def lex_punctuation)
  then show ?case by (simp add: lex_punctuation)
next
  case (6 ms)
  let ?f = "\<lambda>m. [34] @ quote_units (fst m) @ [34, 58] @ JSON_stringify (snd m)"
  let ?g = "\<lambda>m. [TString (fst m), TColon] @ tokens (snd m)"
  have member: "settle (foldl lex_step (Lex Idle us) (?f m)) = Lex Idle (us @ ?g m)" if "m \<in> set ms" for m us
  proof -
    have p: "list_all (\<lambda>u. u < 65536) (fst m)" "printable (snd m)" using that 6(2) by (auto simp: list_all_iff)
    have "foldl lex_step (Lex Idle us) (([34] @ quote_units (fst m) @ [34]) @ [58]) = Lex Idle (us @ [TString (fst m), TColon])"
      using lex_string [OF p(1), of us] by (simp add: lex_punctuation)
    with 6(1) [OF that p(2), of "us @ [TString (fst m), TColon]"] show ?thesis by simp
  qed
  have "foldl lex_step (Lex Idle (ts @ [TLBrace])) (sep_concat [44] (map ?f ms) @ [125]) =
      Lex Idle ((ts @ [TLBrace]) @ sep_concat [TComma] (map ?g ms) @ [TRBrace])"
    using member by (intro lex_separated) (auto simp: delimiter_def lex_punctuation)
  then show ?case by (simp add: lex_punctuation)
qed

section \<open>Parsing the tokens\<close>

lemma tokens_first: "tokens v \<noteq> [] \<and> hd (tokens v) \<noteq> TRBracket"
  by (cases v) auto

lemma parse_array:
  assumes "\<And>v fs. v \<in> set vs \<Longrightarrow> foldl parse_step (WantValue fs) (tokens v) = deliver v fs"
  shows "vs \<noteq> [] \<Longrightarrow> foldl parse_step (WantValue (FArray us # fs)) (sep_concat [TComma] (map tokens vs) @ [TRBracket]) =
    deliver (JArray (us @ vs)) fs"
  using assms
proof (induction vs arbitrary: us)
  case (Cons v vs)
  then show ?case by (cases "vs = []") (simp_all add: sep_concat_Cons)
qed simp

lemma parse_array_start:
  assumes "\<And>v fs. v \<in> set vs \<Longrightarrow> foldl parse_step (WantValue fs) (tokens v) = deliver v fs"
  shows "foldl parse_step (ArrayStart fs) (sep_concat [TComma] (map tokens vs) @ [TRBracket]) = deliver (JArray vs) fs"
proof (cases vs)
  case (Cons v us)
  obtain t ts where t: "tokens v = t # ts" "t \<noteq> TRBracket" using tokens_first [of v] by (cases "tokens v") auto
  have "foldl parse_step (ArrayStart fs) (sep_concat [TComma] (map tokens vs) @ [TRBracket]) =
      foldl parse_step (WantValue (FArray [] # fs)) (sep_concat [TComma] (map tokens vs) @ [TRBracket])"
    using t by (simp add: Cons sep_concat_Cons)
  with parse_array [of vs "[]" fs] assms Cons show ?thesis by simp
qed simp

lemma map_set_append: "map_get ms k = None \<Longrightarrow> map_set ms k v = ms @ [(k, v)]"
  by (induction ms) auto

lemma parse_members:
  assumes "\<And>m fs. m \<in> set ms \<Longrightarrow> foldl parse_step (WantValue fs) (tokens (snd m)) = deliver (snd m) fs"
    and "distinct (map fst (ns @ ms))" "ms \<noteq> []"
  shows "foldl parse_step (WantKey ns fs)
      (sep_concat [TComma] (map (\<lambda>m. [TString (fst m), TColon] @ tokens (snd m)) ms) @ [TRBrace]) = deliver (JObject (ns @ ms)) fs"
  using assms
proof (induction ms arbitrary: ns)
  case (Cons m ms)
  obtain k v where m: "m = (k, v)" by fastforce
  have "map_get ns k = None" using Cons.prems(2) m by (auto simp: map_of_eq_None_iff)
  then have set: "map_set ns k v = ns @ [(k, v)]" by (rule map_set_append)
  have v: "foldl parse_step (WantValue gs) (tokens v) = deliver v gs" for gs using Cons.prems(1) [of m] m by simp
  show ?case
  proof (cases "ms = []")
    case True
    then show ?thesis by (simp add: m v set)
  next
    case False
    with Cons.IH [of "ns @ [(k, v)]"] Cons.prems show ?thesis by (simp add: m v set sep_concat_Cons)
  qed
qed simp

lemma parse_object_start:
  assumes "\<And>m fs. m \<in> set ms \<Longrightarrow> foldl parse_step (WantValue fs) (tokens (snd m)) = deliver (snd m) fs" "distinct (map fst ms)"
  shows "foldl parse_step (ObjectStart fs)
      (sep_concat [TComma] (map (\<lambda>m. [TString (fst m), TColon] @ tokens (snd m)) ms) @ [TRBrace]) = deliver (JObject ms) fs"
proof (cases "ms = []")
  case False
  then have "foldl parse_step (ObjectStart fs)
      (sep_concat [TComma] (map (\<lambda>m. [TString (fst m), TColon] @ tokens (snd m)) ms) @ [TRBrace]) =
    foldl parse_step (WantKey [] fs) (sep_concat [TComma] (map (\<lambda>m. [TString (fst m), TColon] @ tokens (snd m)) ms) @ [TRBrace])"
    by (cases ms) (simp_all add: sep_concat_Cons)
  with parse_members [of ms "[]" fs] assms False show ?thesis by simp
qed simp

lemma parse_tokens: "printable v \<Longrightarrow> foldl parse_step (WantValue fs) (tokens v) = deliver v fs"
proof (induction v arbitrary: fs rule: tokens.induct)
  case (5 vs)
  then show ?case using parse_array_start [of vs fs] by (simp add: list_all_iff)
next
  case (6 ms)
  then show ?case using parse_object_start [of ms fs] by (simp add: list_all_iff)
qed simp_all

lemma parse_stringify: "printable v \<Longrightarrow> JSON_parse (JSON_stringify v) = Some v"
  using lex_stringify [of v "[]"] parse_tokens [of v "[]"] by (simp add: JSON_parse_def tokenize_def)

section \<open>The text is well formed\<close>

lemma hex_digit_bound: "d < 16 \<Longrightarrow> hex_digit d < 128"
  by (simp add: hex_digit_def)

lemma well_formed_quote_unit: "u < 65536 \<Longrightarrow> well_formed (quote_unit u)"
proof -
  assume u: "u < 65536"
  have "u div 4096 < 16" using u by (simp add: less_mult_imp_div_less)
  then have "list_all (\<lambda>x. x < 55296) ([92, 117] @ hex4 u)"
    using hex_digit_bound [of "u div 4096"] hex_digit_bound [of "u div 256 mod 16"] hex_digit_bound [of "u div 16 mod 16"]
      hex_digit_bound [of "u mod 16"] by (simp add: hex4_def)
  then have "well_formed ([92, 117] @ hex4 u)" by (rule well_formed_small)
  moreover have "well_formed [92, x]" if "x < 55296" for x using that by (intro well_formed_small) simp
  ultimately show ?thesis
    using u unfolding quote_unit_def by (simp del: well_formed.simps add: well_formed.simps(2))
qed

lemma well_formed_quote: "list_all (\<lambda>u. u < 65536) us \<Longrightarrow> well_formed (quote_units us)"
proof (induction us rule: quote_units.induct)
  case (2 u)
  then show ?case by (simp add: well_formed_quote_unit)
next
  case (3 u v us)
  then show ?case by (simp add: well_formed_append well_formed_quote_unit)
qed simp

lemma well_formed_ascii: "u < 128 \<Longrightarrow> well_formed [u]"
  by (simp add: surrogate_def high_surrogate_def low_surrogate_def)

lemma well_formed_separated: "(\<And>x. x \<in> set xs \<Longrightarrow> well_formed x) \<Longrightarrow> well_formed (sep_concat [44] xs)"
proof (induction xs)
  case (Cons x xs)
  moreover have "well_formed ([44] @ sep_concat [44] xs)"
    using Cons by (intro well_formed_append well_formed_ascii) auto
  ultimately show ?case unfolding sep_concat_Cons by (auto intro: well_formed_append)
qed simp

lemma well_formed_int: "well_formed (print_int i)"
proof (rule well_formed_small)
  have "c < 55296" if "c \<in> set (decimal n)" for c n using decimal_digits [OF that] by (simp add: digit_code_def)
  then show "list_all (\<lambda>u. u < 55296) (print_int i)" by (auto simp: list_all_iff print_int_def)
qed

lemma well_formed_bracket: "a < 128 \<Longrightarrow> b < 128 \<Longrightarrow> well_formed us \<Longrightarrow> well_formed ([a] @ us @ [b])"
  by (intro well_formed_append well_formed_ascii)

lemma well_formed_stringify: "printable v \<Longrightarrow> well_formed (JSON_stringify v)"
proof (induction v rule: JSON_stringify.induct)
  case (4 s)
  then show ?case unfolding JSON_stringify.simps by (intro well_formed_bracket well_formed_quote) auto
next
  case (5 vs)
  then show ?case unfolding JSON_stringify.simps
    by (intro well_formed_bracket well_formed_separated) (auto simp: list_all_iff)
next
  case (6 ms)
  have "well_formed (([34] @ quote_units (fst m) @ [34]) @ [58] @ JSON_stringify (snd m))" if "m \<in> set ms" for m
    using 6 that by (intro well_formed_append well_formed_bracket well_formed_quote well_formed_ascii) (auto simp: list_all_iff)
  then show ?case unfolding JSON_stringify.simps
    by (intro well_formed_bracket well_formed_separated) (auto simp: list_all_iff)
qed (simp_all add: well_formed_int)

lemma stringify_no_bom: "printable v \<Longrightarrow> strip_bom (JSON_stringify v) = JSON_stringify v"
proof -
  have "hd (print_int i) \<noteq> 65279" for i
    using decimal_digits [of "hd (decimal (nat i))" "nat i"] by (auto simp: print_int_def digit_code_def)
  then show ?thesis by (cases v) (auto simp: strip_bom_def units_def char_code_def)
qed

lemma json_bytes_roundtrip:
  assumes "printable v"
  shows "(case text_decode (text_encode (JSON_stringify v)) of None \<Rightarrow> None | Some text \<Rightarrow> JSON_parse text) = Some v"
  using assms by (simp add: text_roundtrip well_formed_stringify stringify_no_bom parse_stringify)

end
