(* ===== verification/Metadata.thy ===== *)
theory Metadata
  imports JsonRoundtrip ProjectionPolicy SessionState
begin

text \<open>
  The metadata of the control frames, \<^verbatim>\<open>packages/protocol/src/http-metadata.ts\<close> and \<^verbatim>\<open>session-config.ts\<close>: JSON in the
  payload of a frame, validated field by field when it is read, and when the sources write requests and
  responses. Strings are code units as they come from the wire. The platform's URL parser and SHA-256
  are parameters.
\<close>

section \<open>Reading objects and fields\<close>

datatype metadataError = MalformedText | NotAnObject | InvalidField string | DigestMismatch | NotCanonical string | LengthInvalid

definition parseObject :: "byte list \<Rightarrow> metadataError + (ustring, json) jsmap" where
  "parseObject payload = (case text_decode payload of
     None \<Rightarrow> Inl MalformedText
   | Some text \<Rightarrow> (case JSON_parse text of
       None \<Rightarrow> Inl MalformedText
     | Some (JObject ms) \<Rightarrow> Inr ms
     | Some _ \<Rightarrow> Inl NotAnObject))"

definition encodeMetadata :: "json \<Rightarrow> byte list" where
  "encodeMetadata v = text_encode (JSON_stringify v)"

abbreviation field :: "(ustring, json) jsmap \<Rightarrow> string \<Rightarrow> json option" where
  "field ms k \<equiv> map_get ms (units k)"

text \<open>A field that must be a string, a number or a boolean that passes a test.\<close>

definition string_field :: "(ustring, json) jsmap \<Rightarrow> string \<Rightarrow> (ustring \<Rightarrow> bool) \<Rightarrow> metadataError + ustring" where
  "string_field ms k P = (case field ms k of
     Some (JString s) \<Rightarrow> if P s then Inr s else Inl (InvalidField k)
   | _ \<Rightarrow> Inl (InvalidField k))"

definition number_field :: "(ustring, json) jsmap \<Rightarrow> string \<Rightarrow> (number \<Rightarrow> bool) \<Rightarrow> metadataError + int" where
  "number_field ms k P = (case field ms k of
     Some (JNumber n) \<Rightarrow> if P n then Inr (to_int n) else Inl (InvalidField k)
   | _ \<Rightarrow> Inl (InvalidField k))"

definition bool_field :: "(ustring, json) jsmap \<Rightarrow> string \<Rightarrow> metadataError + bool" where
  "bool_field ms k = (case field ms k of Some (JBool b) \<Rightarrow> Inr b | _ \<Rightarrow> Inl (InvalidField k))"

text \<open>A field compared with a set of literals.\<close>

definition literal_field :: "(ustring, json) jsmap \<Rightarrow> string \<Rightarrow> (string \<times> 'a) list \<Rightarrow> metadataError + 'a" where
  "literal_field ms k table = (case field ms k of
     Some (JString s) \<Rightarrow> (case map_of (map (\<lambda>(l, a). (units l, a)) table) s of Some a \<Rightarrow> Inr a | None \<Rightarrow> Inl (InvalidField k))
   | _ \<Rightarrow> Inl (InvalidField k))"

section \<open>Patterns\<close>

definition lower_code :: "nat \<Rightarrow> bool" where
  "lower_code c = (97 \<le> c \<and> c \<le> 122)"

definition upper_code :: "nat \<Rightarrow> bool" where
  "upper_code c = (65 \<le> c \<and> c \<le> 90)"

definition base64url_code :: "nat \<Rightarrow> bool" where
  "base64url_code c = (lower_code c \<or> upper_code c \<or> digit_code c \<or> c = 95 \<or> c = 45)"

definition base64url_between :: "nat \<Rightarrow> nat \<Rightarrow> ustring \<Rightarrow> bool" where
  "base64url_between lo hi s = (lo \<le> length s \<and> length s \<le> hi \<and> list_all base64url_code s)"

definition label_code :: "nat \<Rightarrow> bool" where
  "label_code c = (lower_code c \<or> digit_code c)"

text \<open>\<^verbatim>\<open>/^[a-z0-9](?:[a-z0-9-]{0,61}[a-z0-9])?$/\<close>\<close>

definition tunnelIdPattern :: "ustring \<Rightarrow> bool" where
  "tunnelIdPattern s = (1 \<le> length s \<and> length s \<le> 63 \<and> list_all (\<lambda>c. label_code c \<or> c = 45) s \<and>
     label_code (hd s) \<and> label_code (last s))"

text \<open>\<^verbatim>\<open>/^[!#$%&'*+.^_`|~0-9A-Za-z-]+$/\<close>\<close>

definition token_code :: "nat \<Rightarrow> bool" where
  "token_code c = (lower_code c \<or> upper_code c \<or> digit_code c \<or>
     c \<in> {33, 35, 36, 37, 38, 39, 42, 43, 46, 94, 95, 96, 124, 126, 45})"

definition headerNamePattern :: "ustring \<Rightarrow> bool" where
  "headerNamePattern s = (s \<noteq> [] \<and> list_all token_code s)"

definition methodPattern :: "ustring \<Rightarrow> bool" where
  "methodPattern s = (s \<noteq> [] \<and> list_all token_code s)"

text \<open>\<^verbatim>\<open>startsWith("/")\<close>, \<^verbatim>\<open>/^[\x21-\x7e]+$/\<close> and no \<^verbatim>\<open>#\<close>\<close>

definition path_ok :: "ustring \<Rightarrow> bool" where
  "path_ok s = (s \<noteq> [] \<and> hd s = 47 \<and> list_all (\<lambda>c. 33 \<le> c \<and> c \<le> 126) s \<and> 35 \<notin> set s)"

text \<open>not \<^verbatim>\<open>/[\0\r\n]/\<close>\<close>

definition no_line_break :: "ustring \<Rightarrow> bool" where
  "no_line_break s = list_all (\<lambda>c. c \<noteq> 0 \<and> c \<noteq> 13 \<and> c \<noteq> 10) s"

definition MAX_HTTP_HEADER_PAIRS :: nat where
  "MAX_HTTP_HEADER_PAIRS = 256"

definition originProjections :: "(string \<times> originProjection) list" where
  "originProjections = [(''local-view'', LocalView), (''proxy-aware'', ProxyAware)]"

section \<open>Headers of requests and responses\<close>

type_synonym wireHeader = "ustring \<times> ustring"

definition parse_header :: "json \<Rightarrow> metadataError + wireHeader" where
  "parse_header entry = (case entry of
     JArray [JString name, JString v] \<Rightarrow>
       if headerNamePattern name \<and> no_line_break v then Inr (name, v) else Inl (InvalidField ''header'')
   | _ \<Rightarrow> Inl (InvalidField ''header''))"

fun map_result :: "('a \<Rightarrow> 'e + 'b) \<Rightarrow> 'a list \<Rightarrow> 'e + 'b list" where
  "map_result f [] = Inr []"
| "map_result f (x # xs) = result_bind (f x) (\<lambda>y. result_bind (map_result f xs) (\<lambda>ys. Inr (y # ys)))"

definition parseHeaders :: "json option \<Rightarrow> metadataError + wireHeader list" where
  "parseHeaders v = (case v of
     Some (JArray entries) \<Rightarrow>
       if length entries > MAX_HTTP_HEADER_PAIRS then Inl (InvalidField ''headers'') else map_result parse_header entries
   | _ \<Rightarrow> Inl (InvalidField ''headers''))"

datatype openHttpKind = KindHttp | KindWebSocket

record openHttpMetadata =
  oh_kind :: openHttpKind
  oh_method :: ustring
  oh_path :: ustring
  oh_headers :: "wireHeader list"
  oh_requestBodyEnded :: bool
  oh_initialWindowBytes :: int

definition openHttpKinds :: "(string \<times> openHttpKind) list" where
  "openHttpKinds = [(''HTTP'', KindHttp), (''WEBSOCKET'', KindWebSocket)]"

definition parseOpenHttpMetadata :: "(ustring, json) jsmap \<Rightarrow> metadataError + openHttpMetadata" where
  "parseOpenHttpMetadata v =
    result_bind (literal_field v ''kind'' openHttpKinds) (\<lambda>kind.
    result_bind (string_field v ''method'' methodPattern) (\<lambda>method.
    result_bind (string_field v ''path'' path_ok) (\<lambda>path.
    result_bind (bool_field v ''requestBodyEnded'') (\<lambda>requestBodyEnded.
    result_bind (number_field v ''initialWindowBytes'' (int_between 1 16777216)) (\<lambda>initialWindowBytes.
    result_bind (parseHeaders (field v ''headers'')) (\<lambda>headers.
    Inr \<lparr>oh_kind = kind, oh_method = method, oh_path = path, oh_headers = headers,
      oh_requestBodyEnded = requestBodyEnded, oh_initialWindowBytes = initialWindowBytes\<rparr>))))))"

definition headers_json :: "wireHeader list \<Rightarrow> json" where
  "headers_json hs = JArray (map (\<lambda>(n, v). JArray [JString n, JString v]) hs)"

definition kind_text :: "openHttpKind \<Rightarrow> string" where
  "kind_text k = (case k of KindHttp \<Rightarrow> ''HTTP'' | KindWebSocket \<Rightarrow> ''WEBSOCKET'')"

definition openHttp_members :: "openHttpMetadata \<Rightarrow> (ustring, json) jsmap" where
  "openHttp_members m =
    [(units ''kind'', JString (units (kind_text (oh_kind m)))), (units ''method'', JString (oh_method m)),
     (units ''path'', JString (oh_path m)), (units ''headers'', headers_json (oh_headers m)),
     (units ''requestBodyEnded'', JBool (oh_requestBodyEnded m)),
     (units ''initialWindowBytes'', JNumber (Integral (oh_initialWindowBytes m)))]"

definition decodeOpenHttpMetadata :: "byte list \<Rightarrow> metadataError + openHttpMetadata" where
  "decodeOpenHttpMetadata payload = result_bind (parseObject payload) parseOpenHttpMetadata"

definition encodeOpenHttpMetadata :: "openHttpMetadata \<Rightarrow> metadataError + byte list" where
  "encodeOpenHttpMetadata m =
    result_bind (parseOpenHttpMetadata (openHttp_members m)) (\<lambda>p. Inr (encodeMetadata (JObject (openHttp_members p))))"

record responseHeadersMetadata =
  rh_statusCode :: int
  rh_statusMessage :: ustring
  rh_headers :: "wireHeader list"

definition parseResponseHeadersMetadata :: "(ustring, json) jsmap \<Rightarrow> metadataError + responseHeadersMetadata" where
  "parseResponseHeadersMetadata v =
    result_bind (number_field v ''statusCode'' (int_between 100 599)) (\<lambda>statusCode.
    result_bind (string_field v ''statusMessage'' no_line_break) (\<lambda>statusMessage.
    result_bind (parseHeaders (field v ''headers'')) (\<lambda>headers.
    Inr \<lparr>rh_statusCode = statusCode, rh_statusMessage = statusMessage, rh_headers = headers\<rparr>)))"

definition response_members :: "responseHeadersMetadata \<Rightarrow> (ustring, json) jsmap" where
  "response_members m =
    [(units ''statusCode'', JNumber (Integral (rh_statusCode m))), (units ''statusMessage'', JString (rh_statusMessage m)),
     (units ''headers'', headers_json (rh_headers m))]"

definition decodeResponseHeadersMetadata :: "byte list \<Rightarrow> metadataError + responseHeadersMetadata" where
  "decodeResponseHeadersMetadata payload = result_bind (parseObject payload) parseResponseHeadersMetadata"

definition encodeResponseHeadersMetadata :: "responseHeadersMetadata \<Rightarrow> metadataError + byte list" where
  "encodeResponseHeadersMetadata m =
    result_bind (parseResponseHeadersMetadata (response_members m)) (\<lambda>p. Inr (encodeMetadata (JObject (response_members p))))"

section \<open>Credit updates and resets\<close>

definition encodeWindowUpdate :: "number \<Rightarrow> metadataError + byte list" where
  "encodeWindowUpdate bytes =
    (if \<not> int_between 1 4294967295 bytes then Inl (InvalidField ''bytes'') else Inr (setUint32 (replicate 4 0) 0 (to_int bytes)))"

definition decodeWindowUpdate :: "byte list \<Rightarrow> metadataError + int" where
  "decodeWindowUpdate payload =
    (if length payload \<noteq> 4 then Inl LengthInvalid
     else if getUint32 payload 0 = 0 then Inl (InvalidField ''bytes'') else Inr (getUint32 payload 0))"

definition decodeResetStreamMetadata :: "byte list \<Rightarrow> metadataError + ustring" where
  "decodeResetStreamMetadata payload =
    result_bind (parseObject payload) (\<lambda>v. string_field v ''code'' (\<lambda>s. length s \<noteq> 0 \<and> length s \<le> 64))"

section \<open>HELLO and SESSION\_ACTIVE\<close>

datatype helloMode = ModeCreate | ModeResume

record helloMetadata =
  hm_mode :: helloMode
  hm_tunnelId :: ustring
  hm_resumeSecret :: "ustring option"
  hm_localOriginFingerprint :: ustring
  hm_originProjection :: originProjection

definition decodeHelloMetadata :: "byte list \<Rightarrow> metadataError + helloMetadata" where
  "decodeHelloMetadata payload =
    result_bind (parseObject payload) (\<lambda>v.
    result_bind (literal_field v ''mode'' [(''create'', ModeCreate), (''resume'', ModeResume)]) (\<lambda>mode.
    result_bind (string_field v ''tunnelId'' tunnelIdPattern) (\<lambda>tunnelId.
    result_bind (string_field v ''localOriginFingerprint'' (base64url_between 43 43)) (\<lambda>fingerprint.
    result_bind (literal_field v ''originProjection'' originProjections) (\<lambda>projection.
    result_bind (if mode = ModeResume then map_sum id Some (string_field v ''resumeSecret'' (base64url_between 43 43)) else Inr None) (\<lambda>secret.
    Inr \<lparr>hm_mode = mode, hm_tunnelId = tunnelId, hm_resumeSecret = secret,
      hm_localOriginFingerprint = fingerprint, hm_originProjection = projection\<rparr>))))))"

definition http_url :: "url \<Rightarrow> bool" where
  "http_url u = ((u_protocol u = ''http:'' \<or> u_protocol u = ''https:'') \<and> u_username u = [] \<and> u_password u = [] \<and> u_hash u = [])"

definition isHttpUrl :: "(ustring \<Rightarrow> url option) \<Rightarrow> ustring \<Rightarrow> bool" where
  "isHttpUrl URL v = (case URL v of None \<Rightarrow> False | Some u \<Rightarrow> http_url u)"

record sessionActiveMetadata =
  sa_generation :: int
  sa_tunnelId :: ustring
  sa_shareUrl :: ustring

definition READINESS :: "string list" where
  "READINESS = [''carrier'', ''config'', ''origin'', ''relay'', ''route'', ''admission'']"

definition decodeSessionActiveMetadata :: "(ustring \<Rightarrow> url option) \<Rightarrow> byte list \<Rightarrow> metadataError + sessionActiveMetadata" where
  "decodeSessionActiveMetadata URL payload =
    result_bind (parseObject payload) (\<lambda>v.
    result_bind (number_field v ''generation'' (int_between 1 4294967295)) (\<lambda>g.
    result_bind (string_field v ''tunnelId'' tunnelIdPattern) (\<lambda>tunnelId.
    result_bind (string_field v ''shareUrl'' (isHttpUrl URL)) (\<lambda>shareUrl.
    case field v ''readiness'' of
      Some (JObject r) \<Rightarrow>
        if list_all (\<lambda>k. field r k = Some (JBool True)) READINESS
        then Inr \<lparr>sa_generation = g, sa_tunnelId = tunnelId, sa_shareUrl = shareUrl\<rparr>
        else Inl (InvalidField ''readiness'')
    | _ \<Rightarrow> Inl (InvalidField ''readiness'')))))"

end
