(* ===== verification/SessionConfig.thy ===== *)
theory SessionConfig
  imports Metadata
begin

text \<open>
  The configuration of a session, \<^verbatim>\<open>packages/protocol/src/session-config.ts\<close>: its limits and defaults, the
  validator, the canonical encoding over which both sides compute a digest, and the decoders of the frames
  that carry it. The fingerprint of a decoded snapshot is the JSON value it was read from: its validator
  applies a regular expression to it without testing that it is a string.
\<close>

section \<open>Limits and snapshots\<close>

definition CARRIER_PROFILE :: string where
  "CARRIER_PROFILE = ''review-tunnel.v1''"

definition DEFAULT_ACTIVATION_TIMEOUT_MS :: int where
  "DEFAULT_ACTIVATION_TIMEOUT_MS = 10000"

record sessionLimits =
  sl_maxRequestBodyBytes :: number
  sl_maxFiniteResponseBytes :: number
  sl_maxConcurrentStreams :: number
  sl_maxNewStreamsPerMinute :: number
  sl_responseHeaderTimeoutMs :: number
  sl_streamInactivityTimeoutMs :: number
  sl_maxStreamDurationMs :: number

definition DEFAULT_SESSION_LIMITS :: sessionLimits where
  "DEFAULT_SESSION_LIMITS = \<lparr>sl_maxRequestBodyBytes = Integral (16 * 1024 * 1024),
     sl_maxFiniteResponseBytes = Integral (64 * 1024 * 1024), sl_maxConcurrentStreams = Integral 128,
     sl_maxNewStreamsPerMinute = Integral 600, sl_responseHeaderTimeoutMs = Integral 10000,
     sl_streamInactivityTimeoutMs = Integral (2 * 60000), sl_maxStreamDurationMs = Integral (4 * 60 * 60000)\<rparr>"

record snapshot =
  sn_profile :: json
  sn_generation :: json
  sn_localOriginFingerprint :: json
  sn_originProjection :: json
  sn_publicOrigin :: json
  sn_initialConnectionWindowBytes :: json
  sn_initialStreamWindowBytes :: json
  sn_maxTtlMs :: json
  sn_idleTimeoutMs :: json
  sn_reconnectGraceMs :: json
  sn_maxRequestBodyBytes :: json
  sn_maxFiniteResponseBytes :: json
  sn_maxConcurrentStreams :: json
  sn_maxNewStreamsPerMinute :: json
  sn_responseHeaderTimeoutMs :: json
  sn_streamInactivityTimeoutMs :: json
  sn_maxStreamDurationMs :: json

section \<open>Validation\<close>

text \<open>
  \<^verbatim>\<open>/^[A-Za-z0-9_-]{43}$/.test(value)\<close> on an arbitrary value: the value is turned into a string first. The string of
  an array of one element is that of the element, so nested arrays around a good string pass; no other
  value that is not a string has a text of that form (numbers print at most 25 characters).
\<close>

fun digest_test :: "json \<Rightarrow> bool" where
  "digest_test (JString s) = base64url_between 43 43 s"
| "digest_test (JArray [v]) = digest_test v"
| "digest_test _ = False"

definition assertDigest :: "json \<Rightarrow> string \<Rightarrow> metadataError + unit" where
  "assertDigest v name = (if digest_test v then Inr () else Inl (InvalidField name))"

definition assertBoundedPositiveInteger :: "json \<Rightarrow> string \<Rightarrow> int \<Rightarrow> metadataError + unit" where
  "assertBoundedPositiveInteger v name maximum = (case v of
     JNumber n \<Rightarrow> if isSafeInteger n \<and> to_int n > 0 \<and> to_int n \<le> maximum then Inr () else Inl (InvalidField name)
   | _ \<Rightarrow> Inl (InvalidField name))"

definition assertPositiveUint32 :: "json \<Rightarrow> string \<Rightarrow> metadataError + unit" where
  "assertPositiveUint32 v name = assertBoundedPositiveInteger v name 4294967295"

definition assertHttpUrl :: "(ustring \<Rightarrow> url option) \<Rightarrow> json \<Rightarrow> string \<Rightarrow> metadataError + unit" where
  "assertHttpUrl URL v name = (case v of
     JString s \<Rightarrow> if isHttpUrl URL s then Inr () else Inl (InvalidField name)
   | _ \<Rightarrow> Inl (InvalidField name))"

definition assertOrigin :: "(ustring \<Rightarrow> url option) \<Rightarrow> json \<Rightarrow> string \<Rightarrow> metadataError + unit" where
  "assertOrigin URL v name =
    result_bind (assertHttpUrl URL v name) (\<lambda>_.
    case v of
      JString s \<Rightarrow> (case URL s of
          Some u \<Rightarrow> if units (u_origin u) \<noteq> s \<or> u_pathname u \<noteq> ''/'' \<or> u_search u \<noteq> [] then Inl (NotCanonical name) else Inr ()
        | None \<Rightarrow> Inl (InvalidField name))
    | _ \<Rightarrow> Inl (InvalidField name))"

definition json_int :: "json \<Rightarrow> int" where
  "json_int v = (case v of JNumber n \<Rightarrow> to_int n | _ \<Rightarrow> 0)"

definition assertSessionConfigSnapshot :: "(ustring \<Rightarrow> url option) \<Rightarrow> snapshot \<Rightarrow> metadataError + unit" where
  "assertSessionConfigSnapshot URL s =
    (if sn_profile s \<noteq> JString (units CARRIER_PROFILE) then Inl (InvalidField ''profile'') else
     result_bind (assertPositiveUint32 (sn_generation s) ''generation'') (\<lambda>_.
     result_bind (assertDigest (sn_localOriginFingerprint s) ''localOriginFingerprint'') (\<lambda>_.
     if sn_originProjection s \<noteq> JString (units ''local-view'') \<and> sn_originProjection s \<noteq> JString (units ''proxy-aware'')
     then Inl (InvalidField ''originProjection'') else
     result_bind (assertOrigin URL (sn_publicOrigin s) ''publicOrigin'') (\<lambda>_.
     result_bind (assertBoundedPositiveInteger (sn_initialConnectionWindowBytes s) ''initialConnectionWindowBytes'' (64 * 1024 * 1024)) (\<lambda>_.
     result_bind (assertBoundedPositiveInteger (sn_initialStreamWindowBytes s) ''initialStreamWindowBytes'' (16 * 1024 * 1024)) (\<lambda>_.
     result_bind (assertBoundedPositiveInteger (sn_maxTtlMs s) ''maxTtlMs'' (7 * 24 * 60 * 60000)) (\<lambda>_.
     result_bind (assertBoundedPositiveInteger (sn_idleTimeoutMs s) ''idleTimeoutMs'' (json_int (sn_maxTtlMs s))) (\<lambda>_.
     result_bind (assertBoundedPositiveInteger (sn_reconnectGraceMs s) ''reconnectGraceMs'' (json_int (sn_maxTtlMs s))) (\<lambda>_.
     result_bind (assertBoundedPositiveInteger (sn_maxRequestBodyBytes s) ''maxRequestBodyBytes'' (1024 * 1024 * 1024)) (\<lambda>_.
     result_bind (assertBoundedPositiveInteger (sn_maxFiniteResponseBytes s) ''maxFiniteResponseBytes'' (1024 * 1024 * 1024)) (\<lambda>_.
     result_bind (assertBoundedPositiveInteger (sn_maxConcurrentStreams s) ''maxConcurrentStreams'' 10000) (\<lambda>_.
     result_bind (assertBoundedPositiveInteger (sn_maxNewStreamsPerMinute s) ''maxNewStreamsPerMinute'' 100000) (\<lambda>_.
     result_bind (assertBoundedPositiveInteger (sn_responseHeaderTimeoutMs s) ''responseHeaderTimeoutMs'' (10 * 60000)) (\<lambda>_.
     result_bind (assertBoundedPositiveInteger (sn_streamInactivityTimeoutMs s) ''streamInactivityTimeoutMs'' (24 * 60 * 60000)) (\<lambda>_.
     assertBoundedPositiveInteger (sn_maxStreamDurationMs s) ''maxStreamDurationMs'' (json_int (sn_maxTtlMs s)))))))))))))))))"

definition projection_text :: "originProjection \<Rightarrow> string" where
  "projection_text p = (case p of LocalView \<Rightarrow> ''local-view'' | ProxyAware \<Rightarrow> ''proxy-aware'')"

definition createSessionConfigSnapshot ::
    "(ustring \<Rightarrow> url option) \<Rightarrow> number \<Rightarrow> ustring \<Rightarrow> originProjection \<Rightarrow> ustring \<Rightarrow> number \<Rightarrow> number \<Rightarrow>
     sessionPolicy option \<Rightarrow> sessionLimits option \<Rightarrow> metadataError + snapshot" where
  "createSessionConfigSnapshot URL gen fingerprint projection publicOrigin connectionBytes streamBytes policy limits =
    (let p = (case policy of Some p \<Rightarrow> p | None \<Rightarrow> DEFAULT_SESSION_POLICY);
         l = (case limits of Some l \<Rightarrow> l | None \<Rightarrow> DEFAULT_SESSION_LIMITS);
         s = \<lparr>sn_profile = JString (units CARRIER_PROFILE), sn_generation = JNumber gen,
           sn_localOriginFingerprint = JString fingerprint, sn_originProjection = JString (units (projection_text projection)),
           sn_publicOrigin = JString publicOrigin, sn_initialConnectionWindowBytes = JNumber connectionBytes,
           sn_initialStreamWindowBytes = JNumber streamBytes, sn_maxTtlMs = JNumber (Integral (maxTtlMs p)),
           sn_idleTimeoutMs = JNumber (Integral (idleTimeoutMs p)), sn_reconnectGraceMs = JNumber (Integral (reconnectGraceMs p)),
           sn_maxRequestBodyBytes = JNumber (sl_maxRequestBodyBytes l), sn_maxFiniteResponseBytes = JNumber (sl_maxFiniteResponseBytes l),
           sn_maxConcurrentStreams = JNumber (sl_maxConcurrentStreams l), sn_maxNewStreamsPerMinute = JNumber (sl_maxNewStreamsPerMinute l),
           sn_responseHeaderTimeoutMs = JNumber (sl_responseHeaderTimeoutMs l),
           sn_streamInactivityTimeoutMs = JNumber (sl_streamInactivityTimeoutMs l),
           sn_maxStreamDurationMs = JNumber (sl_maxStreamDurationMs l)\<rparr>
     in result_bind (assertSessionConfigSnapshot URL s) (\<lambda>_. Inr s))"

section \<open>Canonical encoding\<close>

definition canonical_members :: "snapshot \<Rightarrow> (ustring, json) jsmap" where
  "canonical_members s =
    [(units ''generation'', sn_generation s), (units ''idleTimeoutMs'', sn_idleTimeoutMs s),
     (units ''initialConnectionWindowBytes'', sn_initialConnectionWindowBytes s),
     (units ''initialStreamWindowBytes'', sn_initialStreamWindowBytes s),
     (units ''localOriginFingerprint'', sn_localOriginFingerprint s),
     (units ''maxConcurrentStreams'', sn_maxConcurrentStreams s), (units ''maxFiniteResponseBytes'', sn_maxFiniteResponseBytes s),
     (units ''maxNewStreamsPerMinute'', sn_maxNewStreamsPerMinute s), (units ''maxRequestBodyBytes'', sn_maxRequestBodyBytes s),
     (units ''maxStreamDurationMs'', sn_maxStreamDurationMs s), (units ''maxTtlMs'', sn_maxTtlMs s),
     (units ''originProjection'', sn_originProjection s), (units ''profile'', sn_profile s),
     (units ''publicOrigin'', sn_publicOrigin s), (units ''reconnectGraceMs'', sn_reconnectGraceMs s),
     (units ''responseHeaderTimeoutMs'', sn_responseHeaderTimeoutMs s),
     (units ''streamInactivityTimeoutMs'', sn_streamInactivityTimeoutMs s)]"

definition encodeCanonicalSessionConfig :: "(ustring \<Rightarrow> url option) \<Rightarrow> snapshot \<Rightarrow> metadataError + byte list" where
  "encodeCanonicalSessionConfig URL s =
    result_bind (assertSessionConfigSnapshot URL s) (\<lambda>_. Inr (text_encode (JSON_stringify (JObject (canonical_members s)))))"

definition digestSessionConfig ::
    "(byte list \<Rightarrow> ustring) \<Rightarrow> (ustring \<Rightarrow> url option) \<Rightarrow> snapshot \<Rightarrow> metadataError + ustring" where
  "digestSessionConfig sha256 URL s = result_bind (encodeCanonicalSessionConfig URL s) (\<lambda>b. Inr (sha256 b))"

record sessionConfigMetadata =
  sc_revision :: json
  sc_digest :: json
  sc_snapshot :: snapshot

definition assertSessionConfigMetadata ::
    "(byte list \<Rightarrow> ustring) \<Rightarrow> (ustring \<Rightarrow> url option) \<Rightarrow> sessionConfigMetadata \<Rightarrow> metadataError + unit" where
  "assertSessionConfigMetadata sha256 URL m =
    result_bind (assertPositiveUint32 (sc_revision m) ''revision'') (\<lambda>_.
    result_bind (assertDigest (sc_digest m) ''digest'') (\<lambda>_.
    result_bind (assertSessionConfigSnapshot URL (sc_snapshot m)) (\<lambda>_.
    result_bind (digestSessionConfig sha256 URL (sc_snapshot m)) (\<lambda>d.
    if JString d \<noteq> sc_digest m then Inl DigestMismatch else Inr ()))))"

text \<open>What the gateway passes to \<^verbatim>\<open>encodeMetadata\<close>: the members in the order of the object literals.\<close>

definition snapshot_members :: "snapshot \<Rightarrow> (ustring, json) jsmap" where
  "snapshot_members s =
    [(units ''profile'', sn_profile s), (units ''generation'', sn_generation s),
     (units ''localOriginFingerprint'', sn_localOriginFingerprint s), (units ''originProjection'', sn_originProjection s),
     (units ''publicOrigin'', sn_publicOrigin s), (units ''initialConnectionWindowBytes'', sn_initialConnectionWindowBytes s),
     (units ''initialStreamWindowBytes'', sn_initialStreamWindowBytes s), (units ''maxTtlMs'', sn_maxTtlMs s),
     (units ''idleTimeoutMs'', sn_idleTimeoutMs s), (units ''reconnectGraceMs'', sn_reconnectGraceMs s),
     (units ''maxRequestBodyBytes'', sn_maxRequestBodyBytes s), (units ''maxFiniteResponseBytes'', sn_maxFiniteResponseBytes s),
     (units ''maxConcurrentStreams'', sn_maxConcurrentStreams s), (units ''maxNewStreamsPerMinute'', sn_maxNewStreamsPerMinute s),
     (units ''responseHeaderTimeoutMs'', sn_responseHeaderTimeoutMs s),
     (units ''streamInactivityTimeoutMs'', sn_streamInactivityTimeoutMs s), (units ''maxStreamDurationMs'', sn_maxStreamDurationMs s)]"

definition config_members :: "sessionConfigMetadata \<Rightarrow> (ustring, json) jsmap" where
  "config_members m =
    [(units ''revision'', sc_revision m), (units ''digest'', sc_digest m), (units ''snapshot'', JObject (snapshot_members (sc_snapshot m)))]"

section \<open>Decoders\<close>

text \<open>A member that is absent reads as \<^verbatim>\<open>undefined\<close>, which fails every test as \<^verbatim>\<open>null\<close> does.\<close>

definition member_or_null :: "(ustring, json) jsmap \<Rightarrow> string \<Rightarrow> json" where
  "member_or_null r k = (case field r k of Some v \<Rightarrow> v | None \<Rightarrow> JNull)"

definition parseSessionConfigSnapshot :: "(ustring \<Rightarrow> url option) \<Rightarrow> json option \<Rightarrow> metadataError + snapshot" where
  "parseSessionConfigSnapshot URL v = (case v of
     Some (JObject r) \<Rightarrow>
       (let s = \<lparr>sn_profile = member_or_null r ''profile'', sn_generation = member_or_null r ''generation'',
          sn_localOriginFingerprint = member_or_null r ''localOriginFingerprint'',
          sn_originProjection = member_or_null r ''originProjection'', sn_publicOrigin = member_or_null r ''publicOrigin'',
          sn_initialConnectionWindowBytes = member_or_null r ''initialConnectionWindowBytes'',
          sn_initialStreamWindowBytes = member_or_null r ''initialStreamWindowBytes'', sn_maxTtlMs = member_or_null r ''maxTtlMs'',
          sn_idleTimeoutMs = member_or_null r ''idleTimeoutMs'', sn_reconnectGraceMs = member_or_null r ''reconnectGraceMs'',
          sn_maxRequestBodyBytes = member_or_null r ''maxRequestBodyBytes'',
          sn_maxFiniteResponseBytes = member_or_null r ''maxFiniteResponseBytes'',
          sn_maxConcurrentStreams = member_or_null r ''maxConcurrentStreams'',
          sn_maxNewStreamsPerMinute = member_or_null r ''maxNewStreamsPerMinute'',
          sn_responseHeaderTimeoutMs = member_or_null r ''responseHeaderTimeoutMs'',
          sn_streamInactivityTimeoutMs = member_or_null r ''streamInactivityTimeoutMs'',
          sn_maxStreamDurationMs = member_or_null r ''maxStreamDurationMs''\<rparr>
        in result_bind (assertSessionConfigSnapshot URL s) (\<lambda>_. Inr s))
   | _ \<Rightarrow> Inl (InvalidField ''snapshot''))"

definition decodeSessionConfigMetadata ::
    "(byte list \<Rightarrow> ustring) \<Rightarrow> (ustring \<Rightarrow> url option) \<Rightarrow> byte list \<Rightarrow> metadataError + sessionConfigMetadata" where
  "decodeSessionConfigMetadata sha256 URL payload =
    result_bind (parseObject payload) (\<lambda>v.
    case (field v ''revision'', field v ''digest'') of
      (Some (JNumber r), Some (JString d)) \<Rightarrow>
        result_bind (parseSessionConfigSnapshot URL (field v ''snapshot'')) (\<lambda>s.
        let m = \<lparr>sc_revision = JNumber r, sc_digest = JString d, sc_snapshot = s\<rparr> in
        result_bind (assertSessionConfigMetadata sha256 URL m) (\<lambda>_. Inr m))
    | (Some (JNumber r), _) \<Rightarrow> Inl (InvalidField ''digest'')
    | _ \<Rightarrow> Inl (InvalidField ''revision''))"

record sessionProvisionedMetadata =
  sp_sessionId :: ustring
  sp_provisionId :: ustring
  sp_tunnelId :: ustring
  sp_shareUrl :: ustring
  sp_resumeSecret :: ustring

definition decodeSessionProvisionedMetadata :: "(ustring \<Rightarrow> url option) \<Rightarrow> byte list \<Rightarrow> metadataError + sessionProvisionedMetadata" where
  "decodeSessionProvisionedMetadata URL payload =
    result_bind (parseObject payload) (\<lambda>v.
    result_bind (string_field v ''sessionId'' (base64url_between 16 128)) (\<lambda>sessionId.
    result_bind (string_field v ''provisionId'' (base64url_between 16 128)) (\<lambda>provisionId.
    result_bind (string_field v ''tunnelId'' tunnelIdPattern) (\<lambda>tunnelId.
    result_bind (string_field v ''shareUrl'' (isHttpUrl URL)) (\<lambda>shareUrl.
    result_bind (string_field v ''resumeSecret'' (base64url_between 43 43)) (\<lambda>resumeSecret.
    Inr \<lparr>sp_sessionId = sessionId, sp_provisionId = provisionId, sp_tunnelId = tunnelId, sp_shareUrl = shareUrl,
      sp_resumeSecret = resumeSecret\<rparr>))))))"

datatype appliedResult = Applied | NotApplied

record configAppliedMetadata =
  ca_revision :: int
  ca_digest :: ustring
  ca_result :: appliedResult
  ca_localOriginReady :: bool
  ca_provisionReceipt :: "ustring option"

definition decodeConfigAppliedMetadata :: "byte list \<Rightarrow> metadataError + configAppliedMetadata" where
  "decodeConfigAppliedMetadata payload =
    result_bind (parseObject payload) (\<lambda>v.
    result_bind (number_field v ''revision'' (\<lambda>n. isSafeInteger n \<and> to_int n > 0 \<and> to_int n \<le> 4294967295)) (\<lambda>revision.
    result_bind (string_field v ''digest'' (base64url_between 43 43)) (\<lambda>digest.
    result_bind (literal_field v ''result'' [(''APPLIED'', Applied), (''REJECTED'', NotApplied)]) (\<lambda>result.
    result_bind (bool_field v ''localOriginReady'') (\<lambda>ready.
    result_bind (case field v ''provisionReceipt'' of None \<Rightarrow> Inr None
      | Some _ \<Rightarrow> map_sum id Some (string_field v ''provisionReceipt'' (base64url_between 16 128))) (\<lambda>receipt.
    Inr \<lparr>ca_revision = revision, ca_digest = digest, ca_result = result, ca_localOriginReady = ready,
      ca_provisionReceipt = receipt\<rparr>))))))"

definition decodeOpenProbeMetadata :: "byte list \<Rightarrow> metadataError + int" where
  "decodeOpenProbeMetadata payload =
    result_bind (parseObject payload) (\<lambda>v.
    number_field v ''initialWindowBytes'' (\<lambda>n. isSafeInteger n \<and> to_int n > 0 \<and> to_int n \<le> 16777216))"

datatype connectionErrorCode =
    VERSION_UNSUPPORTED_CODE | AUTH_FAILED | RESUME_REJECTED | RESUME_IN_PROGRESS_CODE | SESSION_NOT_FOUND
  | PROVISION_RECEIPT_FAILED | CONFIG_APPLY_FAILED | CONFIG_ACK_TIMEOUT | LOCAL_ORIGIN_UNAVAILABLE | RELAY_NOT_READY
  | ACTIVATION_TIMEOUT | PROTOCOL_ERROR | FLOW_CONTROL_ERROR

definition connectionErrorCodes :: "(string \<times> connectionErrorCode) list" where
  "connectionErrorCodes =
    [(''VERSION_UNSUPPORTED'', VERSION_UNSUPPORTED_CODE), (''AUTH_FAILED'', AUTH_FAILED), (''RESUME_REJECTED'', RESUME_REJECTED),
     (''RESUME_IN_PROGRESS'', RESUME_IN_PROGRESS_CODE), (''SESSION_NOT_FOUND'', SESSION_NOT_FOUND),
     (''PROVISION_RECEIPT_FAILED'', PROVISION_RECEIPT_FAILED), (''CONFIG_APPLY_FAILED'', CONFIG_APPLY_FAILED),
     (''CONFIG_ACK_TIMEOUT'', CONFIG_ACK_TIMEOUT), (''LOCAL_ORIGIN_UNAVAILABLE'', LOCAL_ORIGIN_UNAVAILABLE),
     (''RELAY_NOT_READY'', RELAY_NOT_READY), (''ACTIVATION_TIMEOUT'', ACTIVATION_TIMEOUT),
     (''PROTOCOL_ERROR'', PROTOCOL_ERROR), (''FLOW_CONTROL_ERROR'', FLOW_CONTROL_ERROR)]"

definition decodeConnectionErrorMetadata :: "byte list \<Rightarrow> metadataError + connectionErrorCode \<times> int option" where
  "decodeConnectionErrorMetadata payload =
    result_bind (parseObject payload) (\<lambda>v.
    result_bind (literal_field v ''code'' connectionErrorCodes) (\<lambda>code.
    case field v ''retryAfterMs'' of
      None \<Rightarrow> Inr (code, None)
    | Some (JNumber n) \<Rightarrow>
        if code = RESUME_IN_PROGRESS_CODE \<and> int_between 100 5000 n then Inr (code, Some (to_int n)) else Inl (InvalidField ''retryAfterMs'')
    | Some _ \<Rightarrow> Inl (InvalidField ''retryAfterMs'')))"

end
