(* ===== verification/MetadataProps.thy ===== *)
theory MetadataProps
  imports SessionConfig HeaderPipeline
begin

text \<open>
  Properties of the metadata codecs: what is written is read back unchanged, the canonical encoding of a
  configuration determines it, and what the validators accept cannot break the framing of a raw
  response head as long as it stays within Latin-1.
\<close>

section \<open>Round trips\<close>

lemma units_16bit [simp]: "list_all (\<lambda>u. u < 65536) (units s)"
  by (auto simp: list_all_iff dest!: units_below)

lemma parse_encoded: "printable (JObject ms) \<Longrightarrow> parseObject (encodeMetadata (JObject ms)) = Inr ms"
  using json_bytes_roundtrip [of "JObject ms"]
  by (auto simp: parseObject_def encodeMetadata_def split: option.splits)

lemma parse_headers_json:
  "parseHeaders (Some (headers_json hs)) = Inr hs' \<Longrightarrow>
   hs' = hs \<and> length hs \<le> 256 \<and> list_all (\<lambda>(n, v). headerNamePattern n \<and> no_line_break v) hs"
proof -
  have "map_result parse_header (map (\<lambda>(n, v). JArray [JString n, JString v]) hs) = Inr hs' \<Longrightarrow>
      hs' = hs \<and> list_all (\<lambda>(n, v). headerNamePattern n \<and> no_line_break v) hs" for hs'
  proof (induction hs arbitrary: hs')
    case (Cons h hs)
    then show ?case by (cases h) (auto simp: parse_header_def result_bind_Inr split: if_splits)
  qed simp
  moreover assume "parseHeaders (Some (headers_json hs)) = Inr hs'"
  ultimately show ?thesis by (auto simp: parseHeaders_def headers_json_def MAX_HTTP_HEADER_PAIRS_def split: if_splits)
qed

lemma token_16bit: "list_all token_code s \<Longrightarrow> list_all (\<lambda>u. u < 65536) s"
  by (auto simp: list_all_iff token_code_def lower_code_def upper_code_def digit_code_def)

definition values_16bit :: "wireHeader list \<Rightarrow> bool" where
  "values_16bit hs = list_all (\<lambda>(n, v). list_all (\<lambda>u. u < 65536) v) hs"

lemma printable_headers:
  "values_16bit hs \<Longrightarrow> list_all (\<lambda>(n, v). headerNamePattern n \<and> no_line_break v) hs \<Longrightarrow> printable (headers_json hs)"
proof (induction hs)
  case (Cons h hs)
  then show ?case by (cases h) (simp add: headers_json_def values_16bit_def headerNamePattern_def token_16bit)
qed (simp add: headers_json_def)

lemma literal_kind: "literal_field (openHttp_members m) ''kind'' openHttpKinds = Inr (oh_kind m)"
  by (cases "oh_kind m") (simp_all add: literal_field_def openHttp_members_def openHttpKinds_def kind_text_def)

lemma openHttp_parsed:
  assumes "parseOpenHttpMetadata (openHttp_members m) = Inr p"
  shows "p = m" "methodPattern (oh_method m)" "path_ok (oh_path m)" "1 \<le> oh_initialWindowBytes m" "oh_initialWindowBytes m \<le> 16777216"
    "list_all (\<lambda>(n, v). headerNamePattern n \<and> no_line_break v) (oh_headers m)"
proof -
  have fields: "field (openHttp_members m) ''method'' = Some (JString (oh_method m))" "field (openHttp_members m) ''path'' = Some (JString (oh_path m))"
    "field (openHttp_members m) ''requestBodyEnded'' = Some (JBool (oh_requestBodyEnded m))"
    "field (openHttp_members m) ''initialWindowBytes'' = Some (JNumber (Integral (oh_initialWindowBytes m)))"
    "field (openHttp_members m) ''headers'' = Some (headers_json (oh_headers m))"
    by (simp_all add: openHttp_members_def)
  from assms obtain hs where h: "parseHeaders (Some (headers_json (oh_headers m))) = Inr hs"
    and r: "methodPattern (oh_method m)" "path_ok (oh_path m)" "1 \<le> oh_initialWindowBytes m" "oh_initialWindowBytes m \<le> 16777216"
      "p = \<lparr>oh_kind = oh_kind m, oh_method = oh_method m, oh_path = oh_path m, oh_headers = hs,
        oh_requestBodyEnded = oh_requestBodyEnded m, oh_initialWindowBytes = oh_initialWindowBytes m\<rparr>"
    by (auto simp: parseOpenHttpMetadata_def result_bind_Inr literal_kind string_field_def bool_field_def number_field_def fields
        guard_simps split: if_splits)
  from parse_headers_json [OF h] r show "p = m" "methodPattern (oh_method m)" "path_ok (oh_path m)"
    "1 \<le> oh_initialWindowBytes m" "oh_initialWindowBytes m \<le> 16777216"
    "list_all (\<lambda>(n, v). headerNamePattern n \<and> no_line_break v) (oh_headers m)" by simp_all
qed

lemma openHttp_printable:
  assumes "parseOpenHttpMetadata (openHttp_members m) = Inr p" "values_16bit (oh_headers m)"
  shows "printable (JObject (openHttp_members m))"
proof -
  note q = openHttp_parsed [OF assms(1)]
  have "list_all (\<lambda>u. u < 65536) (oh_method m)" "list_all (\<lambda>u. u < 65536) (oh_path m)"
    using q(2,3) token_16bit by (auto simp: methodPattern_def path_ok_def list_all_iff)
  with q(4,5) printable_headers [OF assms(2) q(6)] show ?thesis
    by (simp add: openHttp_members_def MAX_SAFE_INTEGER_def)
qed

text \<open>
  C37. Whatever request metadata the gateway manages to encode, the client decodes back to exactly the same
  metadata, headers included.
\<close>

theorem open_http_roundtrip:
  assumes "encodeOpenHttpMetadata m = Inr payload" "values_16bit (oh_headers m)"
  shows "decodeOpenHttpMetadata payload = Inr m"
proof -
  from assms(1) obtain p where p: "parseOpenHttpMetadata (openHttp_members m) = Inr p"
    and payload: "payload = encodeMetadata (JObject (openHttp_members p))"
    by (auto simp: encodeOpenHttpMetadata_def result_bind_Inr)
  have "p = m" using p by (rule openHttp_parsed)
  with payload p parse_encoded [OF openHttp_printable [OF p assms(2)]] show ?thesis
    by (simp add: decodeOpenHttpMetadata_def)
qed

definition sample_open :: openHttpMetadata where
  "sample_open = \<lparr>oh_kind = KindHttp, oh_method = units ''GET'', oh_path = units ''/a?b=1'',
     oh_headers = [(units ''X-A'', units ''q'' @ [34, 233, 55357, 56832])], oh_requestBodyEnded = True, oh_initialWindowBytes = 65536\<rparr>"

theorem open_http_roundtrip_witness:
  "is_ok (encodeOpenHttpMetadata sample_open) \<and>
   decodeOpenHttpMetadata (projr (encodeOpenHttpMetadata sample_open)) = Inr sample_open"
proof -
  have "is_ok (parseOpenHttpMetadata (openHttp_members sample_open))"
    by (simp add: parseOpenHttpMetadata_def literal_kind, simp add: openHttp_members_def sample_open_def string_field_def
        bool_field_def number_field_def parseHeaders_def headers_json_def parse_header_def MAX_HTTP_HEADER_PAIRS_def
        methodPattern_def path_ok_def headerNamePattern_def no_line_break_def token_code_def lower_code_def upper_code_def
        digit_code_def guard_simps,
        simp add: units_def char_code_def token_code_def lower_code_def upper_code_def digit_code_def)
  then have ok: "is_ok (encodeOpenHttpMetadata sample_open)"
    by (cases "parseOpenHttpMetadata (openHttp_members sample_open)") (simp_all add: encodeOpenHttpMetadata_def)
  then obtain payload where p: "encodeOpenHttpMetadata sample_open = Inr payload" by (cases "encodeOpenHttpMetadata sample_open") auto
  have "values_16bit (oh_headers sample_open)" by (simp add: values_16bit_def sample_open_def)
  with ok p open_http_roundtrip [OF p] show ?thesis by simp
qed

lemma response_parsed:
  assumes "parseResponseHeadersMetadata (response_members m) = Inr p"
  shows "p = m" "100 \<le> rh_statusCode m" "rh_statusCode m \<le> 599" "no_line_break (rh_statusMessage m)"
    "list_all (\<lambda>(n, v). headerNamePattern n \<and> no_line_break v) (rh_headers m)"
proof -
  have fields: "field (response_members m) ''statusCode'' = Some (JNumber (Integral (rh_statusCode m)))"
    "field (response_members m) ''statusMessage'' = Some (JString (rh_statusMessage m))"
    "field (response_members m) ''headers'' = Some (headers_json (rh_headers m))"
    by (simp_all add: response_members_def)
  from assms obtain hs where h: "parseHeaders (Some (headers_json (rh_headers m))) = Inr hs"
    and r: "100 \<le> rh_statusCode m" "rh_statusCode m \<le> 599" "no_line_break (rh_statusMessage m)"
      "p = \<lparr>rh_statusCode = rh_statusCode m, rh_statusMessage = rh_statusMessage m, rh_headers = hs\<rparr>"
    by (auto simp: parseResponseHeadersMetadata_def result_bind_Inr string_field_def number_field_def fields guard_simps split: if_splits)
  from parse_headers_json [OF h] r show "p = m" "100 \<le> rh_statusCode m" "rh_statusCode m \<le> 599" "no_line_break (rh_statusMessage m)"
    "list_all (\<lambda>(n, v). headerNamePattern n \<and> no_line_break v) (rh_headers m)" by simp_all
qed

lemma response_decoded:
  assumes "encodeResponseHeadersMetadata m = Inr payload" "values_16bit (rh_headers m)" "list_all (\<lambda>u. u < 65536) (rh_statusMessage m)"
  shows "decodeResponseHeadersMetadata payload = Inr m"
proof -
  from assms(1) obtain p where p: "parseResponseHeadersMetadata (response_members m) = Inr p"
    and payload: "payload = encodeMetadata (JObject (response_members p))"
    by (auto simp: encodeResponseHeadersMetadata_def result_bind_Inr)
  note q = response_parsed [OF p]
  have "printable (JObject (response_members m))"
    using q(2,3) assms(3) printable_headers [OF assms(2) q(5)] by (simp add: response_members_def MAX_SAFE_INTEGER_def)
  with payload p q(1) show ?thesis by (simp add: decodeResponseHeadersMetadata_def parse_encoded)
qed

text \<open>
  Whatever response metadata the client manages to encode, the gateway decodes back to exactly the
  same metadata.
\<close>

theorem response_headers_roundtrip:
  assumes "encodeResponseHeadersMetadata m = Inr payload" "values_16bit (rh_headers m)" "list_all (\<lambda>u. u < 65536) (rh_statusMessage m)"
  shows "decodeResponseHeadersMetadata payload = Inr m"
  using assms by (rule response_decoded)

theorem response_headers_roundtrip_witness:
  "decodeResponseHeadersMetadata (projr (encodeResponseHeadersMetadata
     \<lparr>rh_statusCode = 200, rh_statusMessage = units ''OK'', rh_headers = [(units ''Server'', [252])]\<rparr>)) =
   Inr \<lparr>rh_statusCode = 200, rh_statusMessage = units ''OK'', rh_headers = [(units ''Server'', [252])]\<rparr>"
proof -
  let ?m = "\<lparr>rh_statusCode = 200, rh_statusMessage = units ''OK'', rh_headers = [(units ''Server'', [252])]\<rparr>"
  have "is_ok (parseResponseHeadersMetadata (response_members ?m))" by code_simp
  then have "is_ok (encodeResponseHeadersMetadata ?m)"
    by (cases "parseResponseHeadersMetadata (response_members ?m)") (simp_all add: encodeResponseHeadersMetadata_def)
  then obtain payload where p: "encodeResponseHeadersMetadata ?m = Inr payload" by (cases "encodeResponseHeadersMetadata ?m") auto
  with response_headers_roundtrip [OF p] show ?thesis by (simp add: values_16bit_def)
qed

text \<open>
  The credit of a window update survives the wire: every positive 32-bit count is decoded to itself, every
  other number is refused by the encoder, and every payload the decoder accepts is the encoding of what it
  returns.
\<close>

theorem window_update_roundtrip:
  "(if int_between 1 4294967295 n then result_bind (encodeWindowUpdate n) decodeWindowUpdate = Inr (to_int n)
    else \<not> is_ok (encodeWindowUpdate n)) \<and>
   (case decodeWindowUpdate payload of Inr b \<Rightarrow> encodeWindowUpdate (Integral b) = Inr payload | Inl _ \<Rightarrow> True)"
proof (rule conjI)
  show "if int_between 1 4294967295 n then result_bind (encodeWindowUpdate n) decodeWindowUpdate = Inr (to_int n)
    else \<not> is_ok (encodeWindowUpdate n)"
  proof (cases "int_between 1 4294967295 n")
    case True
    then have "0 \<le> to_int n" "to_int n < 4294967296" "to_int n \<noteq> 0" by (auto simp: int_between_def)
    with True show ?thesis
      using getUint32_bytes [of "to_int n" "[]" 0 "[]"]
      by (simp add: encodeWindowUpdate_def decodeWindowUpdate_def setUint32_def bytes_set_def)
  qed (simp add: encodeWindowUpdate_def)
next
  show "case decodeWindowUpdate payload of Inr b \<Rightarrow> encodeWindowUpdate (Integral b) = Inr payload | Inl _ \<Rightarrow> True"
  proof (cases "length payload = 4 \<and> getUint32 payload 0 \<noteq> 0")
    case True
    then have "uint32_bytes (getUint32 payload 0) = payload" using uint32_bytes_get [of 0 payload] by simp
    moreover have "0 \<le> getUint32 payload 0" "getUint32 payload 0 < 4294967296" using getUint_bounds by auto
    ultimately show ?thesis
      using True by (simp add: decodeWindowUpdate_def encodeWindowUpdate_def guard_simps setUint32_def bytes_set_def)
  qed (auto simp: decodeWindowUpdate_def)
qed

section \<open>The canonical encoding\<close>

lemma bounded_integer: "assertBoundedPositiveInteger v name hi = Inr u \<Longrightarrow> \<exists>i. v = JNumber (Integral i) \<and> 0 < i \<and> i \<le> hi \<and> i \<le> MAX_SAFE_INTEGER"
  by (cases v) (auto simp: assertBoundedPositiveInteger_def elim: isSafeInteger.elims split: if_splits)

lemma bounded_printable: "assertBoundedPositiveInteger v name hi = Inr u \<Longrightarrow> printable v"
  by (auto dest: bounded_integer)

lemma base64url_16bit: "base64url_between lo hi s \<Longrightarrow> list_all (\<lambda>u. u < 65536) s"
  by (auto simp: base64url_between_def list_all_iff base64url_code_def lower_code_def upper_code_def digit_code_def)

lemma digest_printable: "digest_test v \<Longrightarrow> printable v"
  by (induction v rule: digest_test.induct) (auto dest: base64url_16bit)

lemma origin_printable: "assertOrigin URL v name = Inr u \<Longrightarrow> printable v"
proof -
  assume a: "assertOrigin URL v name = Inr u"
  then obtain s where v: "v = JString s" by (cases v) (auto simp: assertOrigin_def result_bind_Inr)
  with a obtain t where "s = units t"
    by (auto simp: assertOrigin_def result_bind_Inr split: option.splits if_splits)
  with v show ?thesis by simp
qed

lemma snapshot_printable:
  assumes "assertSessionConfigSnapshot URL s = Inr u"
  shows "printable (sn_profile s)" "printable (sn_generation s)" "printable (sn_localOriginFingerprint s)" "printable (sn_originProjection s)"
    "printable (sn_publicOrigin s)" "printable (sn_initialConnectionWindowBytes s)" "printable (sn_initialStreamWindowBytes s)"
    "printable (sn_maxTtlMs s)" "printable (sn_idleTimeoutMs s)" "printable (sn_reconnectGraceMs s)" "printable (sn_maxRequestBodyBytes s)"
    "printable (sn_maxFiniteResponseBytes s)" "printable (sn_maxConcurrentStreams s)" "printable (sn_maxNewStreamsPerMinute s)"
    "printable (sn_responseHeaderTimeoutMs s)" "printable (sn_streamInactivityTimeoutMs s)" "printable (sn_maxStreamDurationMs s)"
  using assms
  by (auto simp: assertSessionConfigSnapshot_def assertPositiveUint32_def assertDigest_def result_bind_Inr
      dest: bounded_printable digest_printable origin_printable split: if_splits)

lemma canonical_printable:
  assumes "assertSessionConfigSnapshot URL s = Inr u"
  shows "printable (JObject (canonical_members s))"
  using snapshot_printable [OF assms] by (simp add: canonical_members_def)

text \<open>
  C38. The canonical encoding determines the configuration: two snapshots that pass validation and are
  encoded to the same bytes agree in every field, so both sides of a carrier compute their digests over
  the whole configuration.
\<close>

theorem canonical_config_injective:
  assumes "encodeCanonicalSessionConfig URL s = Inr b" "encodeCanonicalSessionConfig URL' s' = Inr b"
  shows "s = s'"
proof -
  from assms have v: "assertSessionConfigSnapshot URL s = Inr ()" "assertSessionConfigSnapshot URL' s' = Inr ()"
    and b: "encodeMetadata (JObject (canonical_members s)) = encodeMetadata (JObject (canonical_members s'))"
    by (auto simp: encodeCanonicalSessionConfig_def encodeMetadata_def result_bind_Inr)
  have "canonical_members s = canonical_members s'"
    using parse_encoded [OF canonical_printable [OF v(1)]] parse_encoded [OF canonical_printable [OF v(2)]] b
    by (metis sum.inject(2))
  then show ?thesis by (simp add: canonical_members_def snapshot.equality)
qed

definition sample_origin_url :: "ustring \<Rightarrow> url option" where
  "sample_origin_url v = (if v = units ''https://t1.review.dev'' then sample_url ''https://t1.review.dev'' else None)"

definition sample_snapshot :: snapshot where
  "sample_snapshot = projr (createSessionConfigSnapshot sample_origin_url (Integral 1) (replicate 43 65) LocalView
     (units ''https://t1.review.dev'') (Integral 1048576) (Integral 262144) None None)"

lemma sample_create:
  "createSessionConfigSnapshot sample_origin_url (Integral 1) (replicate 43 65) LocalView
     (units ''https://t1.review.dev'') (Integral 1048576) (Integral 262144) None None = Inr sample_snapshot"
  unfolding sample_snapshot_def
  by (simp add: createSessionConfigSnapshot_def Let_def assertSessionConfigSnapshot_def assertPositiveUint32_def
      assertBoundedPositiveInteger_def assertDigest_def base64url_between_def list_all_iff base64url_code_def upper_code_def
      projection_text_def assertOrigin_def assertHttpUrl_def isHttpUrl_def sample_origin_url_def sample_url_def http_url_def
      DEFAULT_SESSION_POLICY_def DEFAULT_SESSION_LIMITS_def json_int_def MAX_SAFE_INTEGER_def)

lemma sample_snapshot_valid: "assertSessionConfigSnapshot sample_origin_url sample_snapshot = Inr ()"
  using sample_create by (auto simp: createSessionConfigSnapshot_def Let_def result_bind_Inr)

definition sample_snapshot' :: snapshot where
  "sample_snapshot' = projr (createSessionConfigSnapshot sample_origin_url (Integral 1) (replicate 43 65) LocalView
     (units ''https://t1.review.dev'') (Integral 1048576) (Integral 262144) (Some DEFAULT_SESSION_POLICY) (Some DEFAULT_SESSION_LIMITS))"

theorem canonical_config_injective_witness:
  "is_ok (encodeCanonicalSessionConfig sample_origin_url sample_snapshot) \<and> sample_snapshot = sample_snapshot'"
proof -
  have same: "createSessionConfigSnapshot sample_origin_url g f p po cb sb (Some DEFAULT_SESSION_POLICY) (Some DEFAULT_SESSION_LIMITS) =
      createSessionConfigSnapshot sample_origin_url g f p po cb sb None None" for g f p po cb sb
    by (simp add: createSessionConfigSnapshot_def)
  have "encodeCanonicalSessionConfig sample_origin_url sample_snapshot =
      Inr (text_encode (JSON_stringify (JObject (canonical_members sample_snapshot))))"
    by (simp add: encodeCanonicalSessionConfig_def sample_snapshot_valid)
  moreover from this have "encodeCanonicalSessionConfig sample_origin_url sample_snapshot' =
      Inr (text_encode (JSON_stringify (JObject (canonical_members sample_snapshot))))"
    by (simp add: sample_snapshot'_def sample_snapshot_def same)
  ultimately show ?thesis using canonical_config_injective by fastforce
qed

section \<open>The configuration on the wire\<close>

lemma snapshot_fields:
  "\<lparr>sn_profile = member_or_null r ''profile'', sn_generation = member_or_null r ''generation'',
     sn_localOriginFingerprint = member_or_null r ''localOriginFingerprint'',
     sn_originProjection = member_or_null r ''originProjection'', sn_publicOrigin = member_or_null r ''publicOrigin'',
     sn_initialConnectionWindowBytes = member_or_null r ''initialConnectionWindowBytes'',
     sn_initialStreamWindowBytes = member_or_null r ''initialStreamWindowBytes'', sn_maxTtlMs = member_or_null r ''maxTtlMs'',
     sn_idleTimeoutMs = member_or_null r ''idleTimeoutMs'', sn_reconnectGraceMs = member_or_null r ''reconnectGraceMs'',
     sn_maxRequestBodyBytes = member_or_null r ''maxRequestBodyBytes'',
     sn_maxFiniteResponseBytes = member_or_null r ''maxFiniteResponseBytes'',
     sn_maxConcurrentStreams = member_or_null r ''maxConcurrentStreams'',
     sn_maxNewStreamsPerMinute = member_or_null r ''maxNewStreamsPerMinute'',
     sn_responseHeaderTimeoutMs = member_or_null r ''responseHeaderTimeoutMs'',
     sn_streamInactivityTimeoutMs = member_or_null r ''streamInactivityTimeoutMs'',
     sn_maxStreamDurationMs = member_or_null r ''maxStreamDurationMs''\<rparr> = s"
  if "r = snapshot_members s"
  unfolding that
  by (rule snapshot.equality, simp_all only: snapshot_members_def member_or_null_def map_of.simps fun_upd_apply fst_conv
      snd_conv units_inject list.inject char.inject list.distinct simp_thms if_True if_False option.case snapshot.simps) simp

lemma parse_snapshot_members:
  "assertSessionConfigSnapshot URL s = Inr () \<Longrightarrow> parseSessionConfigSnapshot URL (Some (JObject (snapshot_members s))) = Inr s"
  by (simp add: parseSessionConfigSnapshot_def Let_def snapshot_fields [OF refl])

lemma config_printable:
  assumes "assertSessionConfigSnapshot URL s = Inr ()" "0 < r" "r \<le> 4294967295" "base64url_between 43 43 d"
  shows "printable (JObject (config_members \<lparr>sc_revision = JNumber (Integral r), sc_digest = JString d, sc_snapshot = s\<rparr>))"
proof -
  have "printable (JObject (snapshot_members s))" using snapshot_printable [OF assms(1)] by (simp add: snapshot_members_def)
  with assms(2-) base64url_16bit show ?thesis by (simp add: config_members_def MAX_SAFE_INTEGER_def)
qed

text \<open>
  The configuration reaches the client as the gateway sent it: whatever snapshot passes the gateway's
  own validation, with any 32-bit revision and the digest computed over it, is decoded to the same
  metadata, digest check included. The hypothesis on the digest is its documented form, 43 base64url
  characters.
\<close>

theorem session_config_roundtrip:
  assumes "createSessionConfigSnapshot URL gen fingerprint projection publicOrigin connectionBytes streamBytes policy limits = Inr s"
    and "digestSessionConfig sha256 URL s = Inr d" "base64url_between 43 43 d" "0 < r" "r \<le> 4294967295"
  shows "decodeSessionConfigMetadata sha256 URL
      (encodeMetadata (JObject (config_members \<lparr>sc_revision = JNumber (Integral r), sc_digest = JString d, sc_snapshot = s\<rparr>))) =
    Inr \<lparr>sc_revision = JNumber (Integral r), sc_digest = JString d, sc_snapshot = s\<rparr>"
proof -
  have s: "assertSessionConfigSnapshot URL s = Inr ()"
    using assms(1) by (auto simp: createSessionConfigSnapshot_def Let_def result_bind_Inr)
  let ?m = "\<lparr>sc_revision = JNumber (Integral r), sc_digest = JString d, sc_snapshot = s\<rparr>"
  have fields: "field (config_members ?m) ''revision'' = Some (JNumber (Integral r))" "field (config_members ?m) ''digest'' = Some (JString d)"
    "field (config_members ?m) ''snapshot'' = Some (JObject (snapshot_members s))"
    by (simp_all add: config_members_def)
  have "assertSessionConfigMetadata sha256 URL ?m = Inr ()"
    using assms(2-5) s by (simp add: assertSessionConfigMetadata_def assertPositiveUint32_def assertBoundedPositiveInteger_def
        assertDigest_def MAX_SAFE_INTEGER_def)
  then show ?thesis
    unfolding decodeSessionConfigMetadata_def parse_encoded [OF config_printable [OF s assms(4,5,3)]]
    by (simp add: fields parse_snapshot_members [OF s] Let_def)
qed

theorem session_config_roundtrip_witness:
  "decodeSessionConfigMetadata (\<lambda>_. replicate 43 66) sample_origin_url
      (encodeMetadata (JObject (config_members \<lparr>sc_revision = JNumber (Integral 1), sc_digest = JString (replicate 43 66), sc_snapshot = sample_snapshot\<rparr>))) =
    Inr \<lparr>sc_revision = JNumber (Integral 1), sc_digest = JString (replicate 43 66), sc_snapshot = sample_snapshot\<rparr>"
proof (rule session_config_roundtrip)
  show "createSessionConfigSnapshot sample_origin_url (Integral 1) (replicate 43 65) LocalView
     (units ''https://t1.review.dev'') (Integral 1048576) (Integral 262144) None None = Inr sample_snapshot"
    by (rule sample_create)
  show "digestSessionConfig (\<lambda>_. replicate 43 66) sample_origin_url sample_snapshot = Inr (replicate 43 66)"
    by (simp add: digestSessionConfig_def encodeCanonicalSessionConfig_def sample_snapshot_valid)
  show "base64url_between 43 43 (replicate 43 66)"
    by (simp add: base64url_between_def list_all_iff base64url_code_def upper_code_def)
qed simp_all

text \<open>
  The validator of snapshots takes a fingerprint that is not a string: an array around one passes the
  regular expression. The client that receives it compares it with its own by \<^verbatim>\<open>!==\<close> and refuses.
\<close>

lemma fingerprint_replaced:
  "assertSessionConfigSnapshot URL s = Inr () \<Longrightarrow> digest_test v \<Longrightarrow>
   assertSessionConfigSnapshot URL (s\<lparr>sn_localOriginFingerprint := v\<rparr>) = Inr ()"
  by (auto simp: assertSessionConfigSnapshot_def assertDigest_def result_bind_Inr split: if_splits)

lemma fingerprint_array_accepted:
  "assertSessionConfigSnapshot sample_origin_url
     (sample_snapshot\<lparr>sn_localOriginFingerprint := JArray [JString (replicate 43 65)]\<rparr>) = Inr ()"
  by (rule fingerprint_replaced [OF sample_snapshot_valid])
    (simp add: base64url_between_def list_all_iff base64url_code_def upper_code_def)

end
