(* ===== verification/RawHead.thy ===== *)
theory RawHead
  imports MetadataProps
begin

text \<open>
  The raw head of an upgrade response, \<^verbatim>\<open>serializeRawHeaders\<close> of \<^verbatim>\<open>apps/gateway/src/gateway-streams.ts\<close>, on the code
  units the metadata decoder yields. The head is written as Latin-1, which keeps the low byte of every
  code unit. The header policy is the one of \<^verbatim>\<open>packages/proxy/src/header-policy.ts\<close>, read on code units: white
  space is that of \<^verbatim>\<open>String.prototype.trim\<close>, and header names, which the decoder restricts to ASCII, are
  lowered as ASCII.
\<close>

definition unit_space :: "nat \<Rightarrow> bool" where
  "unit_space u = (u \<in> {9, 10, 11, 12, 13, 32, 160, 5760, 8232, 8233, 8239, 8287, 12288, 65279} \<or> (8192 \<le> u \<and> u \<le> 8202))"

definition unit_trim :: "ustring \<Rightarrow> ustring" where
  "unit_trim s = rev (dropWhile unit_space (rev (dropWhile unit_space s)))"

definition unit_lower :: "ustring \<Rightarrow> ustring" where
  "unit_lower s = map (\<lambda>u. if upper_code u then u + 32 else u) s"

fun unit_split :: "nat \<Rightarrow> ustring \<Rightarrow> ustring list" where
  "unit_split c [] = [[]]"
| "unit_split c (u # us) =
     (if u = c then [] # unit_split c us else case unit_split c us of [] \<Rightarrow> [[u]] | y # ys \<Rightarrow> (u # y) # ys)"

definition before_equals :: "ustring \<Rightarrow> ustring" where
  "before_equals s = takeWhile (\<lambda>u. u \<noteq> 61) s"

definition wire_cookie_name :: "ustring \<Rightarrow> ustring" where
  "wire_cookie_name part = (if 61 \<in> set part then unit_trim (before_equals part) else part)"

definition isolate_wire_header :: "ustring list \<Rightarrow> wireHeader \<Rightarrow> wireHeader list" where
  "isolate_wire_header reserved h = (case h of (name, v) \<Rightarrow>
    let lowerName = unit_lower name in
    if take 16 lowerName = units ''x-review-tunnel-'' then []
    else if lowerName = units ''cookie'' then
      (let kept = filter (\<lambda>part. wire_cookie_name part \<notin> set reserved) (map unit_trim (unit_split 59 v)) in
       if length kept > 0 then [(name, sep_concat [59, 32] kept)] else [])
    else if lowerName = units ''set-cookie'' \<and> unit_trim (before_equals v) \<in> set reserved then []
    else [(name, v)])"

definition isolate_wire :: "wireHeader list \<Rightarrow> ustring list \<Rightarrow> wireHeader list" where
  "isolate_wire headers reserved = concat (map (isolate_wire_header reserved) headers)"

definition reserved_units :: "ustring list" where
  "reserved_units = map units RESERVED_GATEWAY_COOKIES"

definition head_lines :: "responseHeadersMetadata \<Rightarrow> ustring list" where
  "head_lines m =
    [units ''HTTP/1.1 '' @ print_int (rh_statusCode m) @ [32] @ filter (\<lambda>u. u \<noteq> 13 \<and> u \<noteq> 10) (rh_statusMessage m)] @
    map (\<lambda>(name, v). name @ [58, 32] @ v) (isolate_wire (rh_headers m) reserved_units) @ [[], []]"

definition latin1_bytes :: "ustring \<Rightarrow> nat list" where
  "latin1_bytes s = map (\<lambda>u. u mod 256) s"

definition serializeRawHead :: "responseHeadersMetadata \<Rightarrow> nat list" where
  "serializeRawHead m = latin1_bytes (sep_concat [13, 10] (head_lines m))"

text \<open>How a browser splits the head into lines.\<close>

fun split_crlf :: "nat list \<Rightarrow> nat list list" where
  "split_crlf [] = [[]]"
| "split_crlf [c] = [[c]]"
| "split_crlf (c # d # r) =
     (if c = 13 \<and> d = 10 then [] # split_crlf r
      else case split_crlf (d # r) of [] \<Rightarrow> [[c]] | y # ys \<Rightarrow> (c # y) # ys)"

section \<open>Within Latin-1 the head keeps its lines\<close>

lemma split_crlf_nonempty [simp]: "split_crlf s \<noteq> []"
  by (induction s rule: split_crlf.induct) (auto split: list.split)

lemma split_crlf_plain: "13 \<notin> set x \<Longrightarrow> split_crlf (x @ 13 # 10 # r) = x # split_crlf r"
proof (induction x)
  case (Cons c x)
  then show ?case by (cases x) auto
qed simp

lemma split_crlf_last: "13 \<notin> set x \<Longrightarrow> split_crlf x = [x]"
proof (induction x)
  case (Cons c x)
  then show ?case by (cases x) auto
qed simp

lemma split_crlf_join: "xs \<noteq> [] \<Longrightarrow> \<forall>x \<in> set xs. 13 \<notin> set x \<Longrightarrow> split_crlf (sep_concat [13, 10] xs) = xs"
proof (induction xs)
  case (Cons x xs)
  then show ?case by (cases "xs = []") (simp_all add: sep_concat_Cons split_crlf_plain split_crlf_last)
qed simp

lemma set_unit_trim: "set (unit_trim s) \<subseteq> set s"
  unfolding unit_trim_def by (metis set_dropWhileD set_rev subsetI)

lemma set_unit_split: "x \<in> set (unit_split c s) \<Longrightarrow> set x \<subseteq> set s"
proof (induction s arbitrary: x)
  case (Cons u us)
  then show ?case by (fastforce split: if_splits list.splits)
qed simp

lemma set_sep_concat: "set (sep_concat sep xs) \<subseteq> set sep \<union> (\<Union>x \<in> set xs. set x)"
  by (induction sep xs rule: sep_concat.induct) auto

lemma isolate_wire_codes:
  assumes "(n', v') \<in> set (isolate_wire hs r)"
  shows "\<exists>v. (n', v) \<in> set hs \<and> set v' \<subseteq> set v \<union> {59, 32}"
proof -
  from assms obtain n v where h: "(n, v) \<in> set hs" "(n', v') \<in> set (isolate_wire_header r (n, v))"
    by (auto simp: isolate_wire_def)
  let ?kept = "filter (\<lambda>part. wire_cookie_name part \<notin> set r) (map unit_trim (unit_split 59 v))"
  have "set (sep_concat [59, 32] ?kept) \<subseteq> set v \<union> {59, 32}"
    using set_sep_concat [of "[59, 32]" ?kept] set_unit_trim set_unit_split by fastforce
  with h show ?thesis by (auto simp: isolate_wire_header_def Let_def split: if_splits)
qed

definition latin1_only :: "responseHeadersMetadata \<Rightarrow> bool" where
  "latin1_only m = (list_all (\<lambda>u. u < 256) (rh_statusMessage m) \<and> list_all (\<lambda>(n, v). list_all (\<lambda>u. u < 256) v) (rh_headers m))"

lemma parse_header_valid:
  assumes "parse_header e = Inr h"
  shows "headerNamePattern (fst h) \<and> no_line_break (snd h)"
proof -
  from assms obtain es where e: "e = JArray es" by (cases e) (auto simp: parse_header_def)
  from assms obtain n v where "es = [JString n, JString v]"
    unfolding e parse_header_def by (auto split: list.splits json.splits)
  with assms e show ?thesis by (auto simp: parse_header_def split: if_splits)
qed

lemma map_result_all: "map_result f xs = Inr ys \<Longrightarrow> (\<And>x y. f x = Inr y \<Longrightarrow> P y) \<Longrightarrow> list_all P ys"
  by (induction xs arbitrary: ys) (auto simp: result_bind_Inr)

lemma parseHeaders_valid:
  "parseHeaders v = Inr hs \<Longrightarrow> list_all (\<lambda>h. headerNamePattern (fst h) \<and> no_line_break (snd h)) hs"
  unfolding parseHeaders_def
  by (auto split: option.splits json.splits if_splits intro: map_result_all dest: parse_header_valid)

lemma string_field_valid: "string_field ms k P = Inr s \<Longrightarrow> P s"
  by (auto simp: string_field_def split: option.splits json.splits if_splits)

lemma response_validated:
  assumes "decodeResponseHeadersMetadata payload = Inr m"
  shows "no_line_break (rh_statusMessage m)" "list_all (\<lambda>h. headerNamePattern (fst h) \<and> no_line_break (snd h)) (rh_headers m)"
  using assms unfolding decodeResponseHeadersMetadata_def parseResponseHeadersMetadata_def
  by (auto simp: result_bind_Inr dest: string_field_valid parseHeaders_valid)

lemma decimal_codes: "u \<in> set (print_int i) \<Longrightarrow> u = 45 \<or> (48 \<le> u \<and> u \<le> 57)"
  using decimal_digits [of u "nat i"] decimal_digits [of u "nat (- i)"] by (auto simp: print_int_def digit_code_def split: if_splits)

lemma latin1_id: "list_all (\<lambda>u. u < 256) s \<Longrightarrow> latin1_bytes s = s"
  unfolding latin1_bytes_def by (induction s) auto

lemma token_below: "token_code u \<Longrightarrow> 32 < u \<and> u < 127"
  by (auto simp: token_code_def lower_code_def upper_code_def digit_code_def)

lemma head_line_codes:
  assumes m: "decodeResponseHeadersMetadata payload = Inr m" "latin1_only m" and l: "l \<in> set (head_lines m)" and u: "u \<in> set l"
  shows "u < 256 \<and> u \<noteq> 13 \<and> u \<noteq> 10"
proof -
  note valid = response_validated [OF m(1)]
  consider (status) "l = units ''HTTP/1.1 '' @ print_int (rh_statusCode m) @ [32] @ filter (\<lambda>u. u \<noteq> 13 \<and> u \<noteq> 10) (rh_statusMessage m)"
    | (header) n v where "(n, v) \<in> set (isolate_wire (rh_headers m) reserved_units)" "l = n @ [58, 32] @ v"
    | (empty) "l = []"
    using l by (auto simp: head_lines_def)
  then show ?thesis
  proof cases
    case status
    have "list_all (\<lambda>u. u < 256 \<and> u \<noteq> 13 \<and> u \<noteq> 10) (units ''HTTP/1.1 '')" by code_simp
    then have "u \<noteq> 13 \<and> u \<noteq> 10 \<and> u < 256" if "u \<in> set (units ''HTTP/1.1 '')" using that by (auto simp only: list_all_iff)
    with status u m(2) show ?thesis by (auto simp: latin1_only_def list_all_iff dest: decimal_codes)
  next
    case header
    then obtain w where w: "(n, w) \<in> set (rh_headers m)" "set v \<subseteq> set w \<union> {59, 32}" using isolate_wire_codes by blast
    with valid(2) m(2) have "list_all token_code n" "no_line_break w" "list_all (\<lambda>u. u < 256) w"
      by (auto simp: list_all_iff headerNamePattern_def latin1_only_def)
    with header(2) u w(2) token_below [of u] show ?thesis by (auto simp: list_all_iff no_line_break_def)
  qed (use u in simp)
qed

text \<open>
  C39. A client cannot add lines to the raw head of an upgrade response within Latin-1: when every code unit
  of the metadata the gateway decoded is below 256, the bytes it writes split into exactly the status line,
  one line per header the credential isolation kept, and the empty line that ends the head.
\<close>

theorem upgrade_head_framing:
  assumes "decodeResponseHeadersMetadata payload = Inr m" "latin1_only m"
  shows "split_crlf (serializeRawHead m) = head_lines m"
proof -
  have codes: "u < 256 \<and> u \<noteq> 13 \<and> u \<noteq> 10" if "l \<in> set (head_lines m)" "u \<in> set l" for l u
    using head_line_codes assms that by blast
  have "u < 256" if "u \<in> set (sep_concat [13, 10] (head_lines m))" for u
  proof -
    from that set_sep_concat have "u \<in> set [13, 10] \<union> (\<Union>x \<in> set (head_lines m). set x)" by (rule rev_subsetD)
    then show ?thesis using codes by auto
  qed
  then have "serializeRawHead m = sep_concat [13, 10] (head_lines m)"
    by (simp add: serializeRawHead_def latin1_id list_all_iff)
  moreover have "split_crlf (sep_concat [13, 10] (head_lines m)) = head_lines m"
  proof (rule split_crlf_join)
    show "head_lines m \<noteq> []" by (simp add: head_lines_def)
    show "\<forall>x \<in> set (head_lines m). 13 \<notin> set x" using codes by blast
  qed
  ultimately show ?thesis by simp
qed

definition upgrade_response :: "ustring \<Rightarrow> responseHeadersMetadata" where
  "upgrade_response v = \<lparr>rh_statusCode = 101, rh_statusMessage = [], rh_headers = [(units ''x-a'', v)]\<rparr>"

lemma upgrade_response_decodes:
  assumes "no_line_break v" "list_all (\<lambda>u. u < 65536) v"
  shows "\<exists>payload. decodeResponseHeadersMetadata payload = Inr (upgrade_response v)"
proof -
  have "headerNamePattern (units ''x-a'')" by code_simp
  with assms have "parseResponseHeadersMetadata (response_members (upgrade_response v)) = Inr (upgrade_response v)"
    by (simp add: parseResponseHeadersMetadata_def response_members_def upgrade_response_def number_field_def string_field_def
        parseHeaders_def headers_json_def parse_header_def no_line_break_def int_between_def MAX_HTTP_HEADER_PAIRS_def)
  then have "encodeResponseHeadersMetadata (upgrade_response v) = Inr (encodeMetadata (JObject (response_members (upgrade_response v))))"
    by (simp add: encodeResponseHeadersMetadata_def)
  from response_decoded [OF this] assms show ?thesis
    by (auto simp: upgrade_response_def values_16bit_def)
qed

theorem upgrade_head_framing_witness:
  "split_crlf (serializeRawHead (upgrade_response [118])) = [units ''HTTP/1.1 101 '', units ''x-a: v'', [], []]"
proof -
  from upgrade_response_decodes [of "[118]"] obtain payload where "decodeResponseHeadersMetadata payload = Inr (upgrade_response [118])"
    by (auto simp: no_line_break_def)
  moreover have "latin1_only (upgrade_response [118])" by (simp add: latin1_only_def upgrade_response_def)
  moreover have "head_lines (upgrade_response [118]) = [units ''HTTP/1.1 101 '', units ''x-a: v'', [], []]" by code_simp
  ultimately show ?thesis using upgrade_head_framing by metis
qed

section \<open>Outside Latin-1 it does not\<close>

definition smuggled :: ustring where
  "smuggled = [269, 266] @ units ''Set-Cookie: __Host-rt_session=x''"

text \<open>
  C40. The validation of header values looks for CR and LF among the code units, while the head is written with
  the low byte of each. The value below holds neither and is accepted, yet U+010D U+010A are written as CR
  LF: the browser sees a Set-Cookie line for the gateway's own session cookie that the credential
  isolation never saw.
\<close>

theorem upgrade_head_injection:
  "(\<exists>payload. decodeResponseHeadersMetadata payload = Inr (upgrade_response smuggled)) \<and>
   units ''Set-Cookie: __Host-rt_session=x'' \<in> set (split_crlf (serializeRawHead (upgrade_response smuggled)))"
proof
  show "\<exists>payload. decodeResponseHeadersMetadata payload = Inr (upgrade_response smuggled)"
  proof (rule upgrade_response_decodes)
    show "no_line_break smuggled" by code_simp
    show "list_all (\<lambda>u. u < 65536) smuggled" by (simp add: smuggled_def del: units_def)
  qed
  have "units ''Set-Cookie: __Host-rt_session=x'' =
     split_crlf (serializeRawHead (upgrade_response smuggled)) ! 2"
    by (code_simp)
  moreover have "2 < length (split_crlf (serializeRawHead (upgrade_response smuggled)))" by code_simp
  ultimately show "units ''Set-Cookie: __Host-rt_session=x'' \<in> set (split_crlf (serializeRawHead (upgrade_response smuggled)))"
    using nth_mem by fastforce
qed

end
