(* ===== verification/GatewayState.thy ===== *)
theory GatewayState
  imports Admission Carrier GatewayInbound StreamIds RawHead ServiceMonad
begin

text \<open>
  The objects of the gateway, \<^verbatim>\<open>apps/gateway/src/gateway-session.ts\<close> and \<^verbatim>\<open>gateway-session-lifecycle.ts\<close>. Sessions,
  streams, flow windows, carrier sockets and the exchanges with browsers are objects the code compares by
  identity and shares between handlers, so the gateway is an explicit store: one heap per class, with
  references as addresses, next to the map of registered sessions. Handlers run without interruption
  between two awaits; such a run is a function of the store that ends normally or with a throw. What a
  run does to the outside is a log of effects.
\<close>

section \<open>Objects\<close>

record transportEpoch =
  te_socket :: nat
  te_generation :: int
  te_outboundFlow :: nat
  te_inboundFlow :: nat

text \<open>
  A stream of either kind; the fields of the other kind keep their initial values. The session and the
  stream id are the variables the handlers of a stream capture when they open it, and \<open>gs_requestBytes\<close> is
  the counter of the loop that reads the request body. A timer is \<^const>\<open>True\<close> while it is armed.
\<close>

record gatewayStream =
  gs_kind :: openHttpKind
  gs_session :: nat
  gs_streamId :: int
  gs_transport :: transportEpoch
  gs_exchange :: nat
  gs_cancelled :: bool
  gs_downstreamQueuedFrames :: int
  gs_reviewerAccountId :: "string option"
  gs_reviewerAuthVersion :: "int option"
  gs_reviewerAuthorizedAt :: "int option"
  gs_durationTimer :: bool
  gs_requestInactivityTimer :: bool
  gs_requestEnded :: bool
  gs_responseEnded :: bool
  gs_responseFinished :: bool
  gs_responseBytes :: int
  gs_finiteResponse :: bool
  gs_responseBodyAllowed :: bool
  gs_requestBytes :: int
  gs_pendingHead :: "byte list"
  gs_responseStarted :: bool
  gs_upgraded :: bool
  gs_browserEnded :: bool
  gs_localEnded :: bool
  gs_localFinished :: bool

record probe =
  pr_id :: nat
  pr_streamId :: int
  pr_expected :: "byte list"
  pr_received :: "byte list"
  pr_receivedBytes :: int
  pr_clientEnded :: bool

datatype ackStage = AwaitFirst | AwaitSecond

record gatewaySession = sessionView +
  g_sessionId :: ustring
  g_tunnelId :: ustring
  g_shareUrl :: ustring
  g_socket :: nat
  g_streams :: "(int, nat) jsmap"
  g_streamIds :: int
  g_outboundFlow :: nat
  g_inboundFlow :: nat
  g_generation :: int
  g_revision :: int
  g_config :: sessionConfigMetadata
  g_lastPongAt :: int
  g_developerAuthorizedAt :: int
  g_streamRateWindowStartedAt :: int
  g_streamsOpenedInWindow :: int
  g_provisionId :: "ustring option"
  g_resumeSecret :: "ustring option"
  g_configAckTimer :: "(ackStage \<times> transportEpoch) option"
  g_configSendCount :: int
  g_appliedConfig :: "configAppliedMetadata option"
  g_probe :: "probe option"
  g_resumeDigest :: "byte list"
  g_expiryTimer :: bool
  g_ownerAuthVersion :: "int option"

text \<open>
  What the handlers observe of a browser's request and response, or of its socket after an upgrade: Node's
  objects, which the browser may end or destroy at any time.
\<close>

record exchange =
  ex_method :: "ustring option"
  ex_url :: "ustring option"
  ex_rawHeaders :: "string list"
  ex_contentLength :: "ustring option"
  ex_requestDestroyed :: bool
  ex_socketDestroyed :: bool
  ex_headersSent :: bool
  ex_writableEnded :: bool
  ex_destroyed :: bool
  ex_readable :: bool
  ex_paused :: bool

text \<open>
  The variables \<^verbatim>\<open>attachGatewayCarrier\<close> keeps for one carrier socket, with the authorization it was given. The
  lease is the pending connection it holds until its first HELLO or its end.
\<close>

record connection =
  cn_session :: "nat option"
  cn_mode :: "helloMode option"
  cn_resumeAttemptId :: "string option"
  cn_pendingFrames :: int
  cn_pendingBytes :: int
  cn_receiveFailed :: bool
  cn_helloTimer :: bool
  cn_cleanedUp :: bool
  cn_authorization :: "developerAuthorization option"
  cn_lease :: nat

datatype gatewayEffect =
    Emit string "nat option"
  | Metric string
  | FrameSent nat carrierInput
  | SocketClose nat int string
  | GatewayError nat int ustring
  | RawError nat int ustring
  | HeaderSet nat string string
  | HeadWritten nat int ustring "wireHeader list"
  | RawHeadWritten nat "nat list"
  | BodyWritten nat "byte list"
  | ReviewDisposed nat

record gateway =
  gw_sessions :: "(ustring, nat) jsmap"
  gw_object :: "nat \<Rightarrow> gatewaySession"
  gw_stream :: "nat \<Rightarrow> gatewayStream"
  gw_out :: "nat \<Rightarrow> outboundFlow"
  gw_in :: "nat \<Rightarrow> gatewayInbound"
  gw_socket :: "nat \<Rightarrow> carrierSocket"
  gw_exchange :: "nat \<Rightarrow> exchange"
  gw_connection :: "nat \<Rightarrow> connection"
  gw_admission :: admission
  gw_fresh :: nat
  gw_clock :: int
  gw_killSwitch :: bool
  gw_log :: "gatewayEffect list"

datatype gatewayError =
    TransitionFailed sessionError
  | CannotOpenStream
  | OutboundFailed flowWindowError
  | InboundFailed gatewayInboundError
  | IdsExhausted
  | MetadataFailed metadataError
  | FrameFailed string

type_synonym 'a gatewayM = "(gateway, gatewayError, 'a) service"

text \<open>The configuration of the gateway and the code it receives from outside.\<close>

record gatewayParams =
  p_policy :: sessionPolicy
  p_limits :: sessionLimits
  p_admissionLimits :: admissionLimits
  p_requireAuthorization :: bool
  p_activationTimeoutMs :: int
  p_maxPendingCarrierFrames :: int
  p_maxPendingCarrierBytes :: int
  p_authorizationMaxAgeMs :: int
  p_carrierLeaseMs :: int
  p_onDisposed :: bool
  p_URL :: "ustring \<Rightarrow> url option"
  p_sha256 :: "byte list \<Rightarrow> ustring"
  p_hmac :: "ustring \<Rightarrow> byte list"
  p_shareUrl :: "ustring \<Rightarrow> ustring"

section \<open>The store\<close>

definition throw_gateway :: "gatewayError \<Rightarrow> 'a gatewayM" where
  "throw_gateway e g = (Inl e, g)"

definition update_gateway :: "(gateway \<Rightarrow> gateway) \<Rightarrow> unit gatewayM" where
  "update_gateway f g = (Inr (), f g)"

definition read_gateway :: "(gateway \<Rightarrow> 'a) \<Rightarrow> 'a gatewayM" where
  "read_gateway f g = (Inr (f g), g)"

definition lift_gateway :: "('e \<Rightarrow> gatewayError) \<Rightarrow> 'e + 'a \<Rightarrow> 'a gatewayM" where
  "lift_gateway f r g = (map_sum f id r, g)"

fun for_each :: "('b \<Rightarrow> unit gatewayM) \<Rightarrow> 'b list \<Rightarrow> unit gatewayM" where
  "for_each f [] = ret ()"
| "for_each f (x # xs) = bindM (f x) (\<lambda>_. for_each f xs)"

definition on_session :: "nat \<Rightarrow> (gatewaySession \<Rightarrow> gatewaySession) \<Rightarrow> gateway \<Rightarrow> gateway" where
  "on_session r f g = g\<lparr>gw_object := (gw_object g)(r := f (gw_object g r))\<rparr>"

definition on_stream :: "nat \<Rightarrow> (gatewayStream \<Rightarrow> gatewayStream) \<Rightarrow> gateway \<Rightarrow> gateway" where
  "on_stream st f g = g\<lparr>gw_stream := (gw_stream g)(st := f (gw_stream g st))\<rparr>"

definition on_exchange :: "nat \<Rightarrow> (exchange \<Rightarrow> exchange) \<Rightarrow> gateway \<Rightarrow> gateway" where
  "on_exchange x f g = g\<lparr>gw_exchange := (gw_exchange g)(x := f (gw_exchange g x))\<rparr>"

definition on_connection :: "nat \<Rightarrow> (connection \<Rightarrow> connection) \<Rightarrow> gateway \<Rightarrow> gateway" where
  "on_connection k f g = g\<lparr>gw_connection := (gw_connection g)(k := f (gw_connection g k))\<rparr>"

definition set_out :: "nat \<Rightarrow> outboundFlow \<Rightarrow> gateway \<Rightarrow> gateway" where
  "set_out w f g = g\<lparr>gw_out := (gw_out g)(w := f)\<rparr>"

definition set_in :: "nat \<Rightarrow> gatewayInbound \<Rightarrow> gateway \<Rightarrow> gateway" where
  "set_in w f g = g\<lparr>gw_in := (gw_in g)(w := f)\<rparr>"

definition log_effect :: "gatewayEffect \<Rightarrow> gateway \<Rightarrow> gateway" where
  "log_effect e g = g\<lparr>gw_log := gw_log g @ [e]\<rparr>"

abbreviation is_open :: "gateway \<Rightarrow> nat \<Rightarrow> bool" where
  "is_open g k \<equiv> readyState (gw_socket g k) = 1"

text \<open>\<^verbatim>\<open>socket.close\<close>: the socket is closing from then on.\<close>

definition close_socket :: "nat \<Rightarrow> int \<Rightarrow> string \<Rightarrow> gateway \<Rightarrow> gateway" where
  "close_socket k n reason g = log_effect (SocketClose k n reason)
    (g\<lparr>gw_socket := (gw_socket g)(k := (gw_socket g k)\<lparr>readyState := max 2 (readyState (gw_socket g k))\<rparr>)\<rparr>)"

text \<open>
  The part of \<^verbatim>\<open>sendCarrierFrame\<close> before its await: the frame is handed to the socket unless the socket is not
  open, buffers too much or the envelope is out of range; whether the send succeeds is known later.
\<close>

definition start_send :: "nat \<Rightarrow> carrierInput \<Rightarrow> gateway \<Rightarrow> gateway" where
  "start_send k input g =
    (case sendCarrierFrame ((gw_socket g k)\<lparr>sendError := None\<rparr>) input of
       Inl _ \<Rightarrow> g
     | Inr _ \<Rightarrow> log_effect (FrameSent k input) g)"

definition frame :: "frameType \<Rightarrow> int \<Rightarrow> int \<Rightarrow> byte list option \<Rightarrow> carrierInput" where
  "frame t gen streamId payload =
    \<lparr>ci_type = t, ci_flags = None, ci_generation = Integral gen, ci_streamId = Integral streamId, ci_payload = payload\<rparr>"

section \<open>Operations of the flow windows on the store\<close>

definition out_openStream :: "nat \<Rightarrow> int \<Rightarrow> unit gatewayM" where
  "out_openStream w i g =
    (case openStream (gw_out g w) (Integral i) (Integral INITIAL_STREAM_WINDOW_BYTES) of
       (Inl e, f) \<Rightarrow> (Inl (OutboundFailed e), set_out w f g) | (Inr _, f) \<Rightarrow> (Inr (), set_out w f g))"

definition out_closeStream :: "nat \<Rightarrow> int \<Rightarrow> gateway \<Rightarrow> gateway" where
  "out_closeStream w i g = set_out w (snd (closeStream (gw_out g w) i)) g"

definition out_close :: "nat \<Rightarrow> gateway \<Rightarrow> gateway" where
  "out_close w g = set_out w (snd (close_window (gw_out g w))) g"

definition out_update :: "nat \<Rightarrow> int \<Rightarrow> int \<Rightarrow> unit gatewayM" where
  "out_update w i bytes g =
    (case update_credit (gw_out g w) i (Integral bytes) of
       (Inl e, f) \<Rightarrow> (Inl (OutboundFailed e), set_out w f g) | (Inr _, f) \<Rightarrow> (Inr (), set_out w f g))"

definition in_op :: "nat \<Rightarrow> (gatewayInbound \<Rightarrow> inboundResult) \<Rightarrow> unit gatewayM" where
  "in_op w f g = (case f (gw_in g w) of
     (Inl e, v) \<Rightarrow> (Inl (InboundFailed e), set_in w v g) | (Inr _, v) \<Rightarrow> (Inr (), set_in w v g))"

definition in_openStream :: "nat \<Rightarrow> int \<Rightarrow> unit gatewayM" where
  "in_openStream w i = in_op w (\<lambda>v. gateway_openStream v (Integral i) (Integral INITIAL_STREAM_WINDOW_BYTES))"

definition in_closeStream :: "nat \<Rightarrow> int \<Rightarrow> unit gatewayM" where
  "in_closeStream w i = in_op w (\<lambda>v. gateway_closeStream v i)"

definition in_retireStream :: "nat \<Rightarrow> int \<Rightarrow> unit gatewayM" where
  "in_retireStream w i = in_op w (\<lambda>v. gateway_retireStream v i)"

section \<open>Transports and their currency\<close>

definition captureGatewayTransport :: "gatewaySession \<Rightarrow> transportEpoch" where
  "captureGatewayTransport s =
    \<lparr>te_socket = g_socket s, te_generation = g_generation s, te_outboundFlow = g_outboundFlow s, te_inboundFlow = g_inboundFlow s\<rparr>"

definition isCurrentGatewayTransport :: "gatewaySession \<Rightarrow> transportEpoch \<Rightarrow> bool" where
  "isCurrentGatewayTransport s t = (g_socket s = te_socket t \<and> g_generation s = te_generation t \<and>
     g_outboundFlow s = te_outboundFlow t \<and> g_inboundFlow s = te_inboundFlow t)"

definition is_registered :: "gateway \<Rightarrow> nat \<Rightarrow> bool" where
  "is_registered g r = (map_get (gw_sessions g) (g_tunnelId (gw_object g r)) = Some r)"

definition isCurrentGatewaySessionTransport :: "gateway \<Rightarrow> nat \<Rightarrow> transportEpoch \<Rightarrow> bool" where
  "isCurrentGatewaySessionTransport g r t = (is_registered g r \<and> isCurrentGatewayTransport (gw_object g r) t)"

definition isCurrentGatewayStream :: "gateway \<Rightarrow> nat \<Rightarrow> int \<Rightarrow> nat \<Rightarrow> bool" where
  "isCurrentGatewayStream g r i st =
    (isCurrentGatewayTransport (gw_object g r) (gs_transport (gw_stream g st)) \<and> map_get (g_streams (gw_object g r)) i = Some st)"

definition isCurrentGatewaySessionStream :: "gateway \<Rightarrow> nat \<Rightarrow> int \<Rightarrow> nat \<Rightarrow> bool" where
  "isCurrentGatewaySessionStream g r i st = (is_registered g r \<and> isCurrentGatewayStream g r i st)"

section \<open>Answers to the browser\<close>

definition writeGatewayError :: "nat \<Rightarrow> int \<Rightarrow> ustring \<Rightarrow> gateway \<Rightarrow> gateway" where
  "writeGatewayError x status errorCode g =
    (if ex_destroyed (gw_exchange g x) \<or> ex_writableEnded (gw_exchange g x) then g
     else log_effect (GatewayError x status errorCode)
       (on_exchange x (\<lambda>e. e\<lparr>ex_headersSent := True, ex_writableEnded := True\<rparr>) g))"

definition writeRawError :: "nat \<Rightarrow> int \<Rightarrow> ustring \<Rightarrow> gateway \<Rightarrow> gateway" where
  "writeRawError x status errorCode g =
    (if ex_destroyed (gw_exchange g x) then g
     else log_effect (RawError x status errorCode) (on_exchange x (\<lambda>e. e\<lparr>ex_writableEnded := True\<rparr>) g))"

definition destroy_response :: "nat \<Rightarrow> gateway \<Rightarrow> gateway" where
  "destroy_response x = on_exchange x (\<lambda>e. e\<lparr>ex_destroyed := True\<rparr>)"

definition destroy_request :: "nat \<Rightarrow> gateway \<Rightarrow> gateway" where
  "destroy_request x = on_exchange x (\<lambda>e. e\<lparr>ex_requestDestroyed := True\<rparr>)"

section \<open>Clearing timers and disposing of sessions\<close>

definition clearRequestInactivityTimer :: "nat \<Rightarrow> gateway \<Rightarrow> gateway" where
  "clearRequestInactivityTimer st = on_stream st (\<lambda>s. s\<lparr>gs_requestInactivityTimer := False\<rparr>)"

definition clearGatewayStreamTimers :: "nat \<Rightarrow> gateway \<Rightarrow> gateway" where
  "clearGatewayStreamTimers st g =
    (let g = on_stream st (\<lambda>s. s\<lparr>gs_durationTimer := False\<rparr>) g in
     if gs_kind (gw_stream g st) = KindHttp then clearRequestInactivityTimer st g else g)"

definition disposeActivationCandidate :: "nat \<Rightarrow> gateway \<Rightarrow> gateway" where
  "disposeActivationCandidate r g =
    (let g = on_session r (\<lambda>s. s\<lparr>g_configAckTimer := None, g_probe := None, g_configSendCount := 0\<rparr>) g
     in out_close (g_outboundFlow (gw_object g r)) g)"

definition close_exchange :: "ustring \<Rightarrow> gatewayStream \<Rightarrow> gateway \<Rightarrow> gateway" where
  "close_exchange responseCode s g =
    (let x = gs_exchange s in
     if gs_kind s = KindHttp then
       (let g = (if \<not> ex_headersSent (gw_exchange g x) then writeGatewayError x 503 responseCode g else destroy_response x g)
        in destroy_request x g)
     else destroy_response x g)"

definition closeGatewayStream_step :: "ustring \<Rightarrow> int \<times> nat \<Rightarrow> unit gatewayM" where
  "closeGatewayStream_step responseCode entry = (case entry of (i, st) \<Rightarrow>
    bindM (update_gateway (on_stream st (\<lambda>s. s\<lparr>gs_cancelled := True\<rparr>))) (\<lambda>_.
    bindM (read_gateway (\<lambda>g. gw_stream g st)) (\<lambda>s.
    bindM (in_closeStream (te_inboundFlow (gs_transport s)) i) (\<lambda>_.
    update_gateway (\<lambda>g. close_exchange responseCode s
      (clearGatewayStreamTimers st (out_closeStream (te_outboundFlow (gs_transport s)) i g)))))))"

definition closeGatewayStreams :: "nat \<Rightarrow> ustring \<Rightarrow> unit gatewayM" where
  "closeGatewayStreams r responseCode =
    bindM (read_gateway (\<lambda>g. g_streams (gw_object g r))) (\<lambda>entries.
    bindM (for_each (closeGatewayStream_step responseCode) entries) (\<lambda>_.
    update_gateway (on_session r (\<lambda>s. s\<lparr>g_streams := []\<rparr>))))"

definition disposeReviewBinding :: "gatewayParams \<Rightarrow> nat \<Rightarrow> gateway \<Rightarrow> gateway" where
  "disposeReviewBinding p r g = (if p_onDisposed p then log_effect (ReviewDisposed r) g else g)"

definition register_session :: "nat \<Rightarrow> gateway \<Rightarrow> gateway" where
  "register_session r g = g\<lparr>gw_sessions := map_set (gw_sessions g) (g_tunnelId (gw_object g r)) r\<rparr>"

definition delete_session :: "nat \<Rightarrow> gateway \<Rightarrow> gateway" where
  "delete_session r g = g\<lparr>gw_sessions := map_delete (gw_sessions g) (g_tunnelId (gw_object g r))\<rparr>"

definition remove_session :: "nat \<Rightarrow> gateway \<Rightarrow> gateway" where
  "remove_session r g = (if is_registered g r then delete_session r g else g)"

definition disposeGatewaySession :: "gatewayParams \<Rightarrow> nat \<Rightarrow> ustring \<Rightarrow> bool gatewayM" where
  "disposeGatewaySession p r responseCode =
    bindM (read_gateway (\<lambda>g. is_registered g r)) (\<lambda>registered.
    if \<not> registered then ret False
    else
      bindM (update_gateway (\<lambda>g. disposeActivationCandidate r
        (on_session r (\<lambda>s. s\<lparr>terminated := True, g_expiryTimer := False\<rparr>) g))) (\<lambda>_.
      bindM (closeGatewayStreams r responseCode) (\<lambda>_.
      bindM (update_gateway (\<lambda>g. delete_session r
        (disposeReviewBinding p r (out_close (g_outboundFlow (gw_object g r)) g)))) (\<lambda>_.
      ret True))))"

definition expireGatewaySession :: "gatewayParams \<Rightarrow> nat \<Rightarrow> string \<Rightarrow> unit gatewayM" where
  "expireGatewaySession p r reason =
    bindM (disposeGatewaySession p r (units ''TUNNEL_EXPIRED'')) (\<lambda>disposed.
    if \<not> disposed then ret ()
    else update_gateway (\<lambda>g.
      let g = log_effect (Emit ''tunnel.expired'' (Some r)) (log_effect (Metric ''tunnel_expired'') g);
          k = g_socket (gw_object g r)
      in if is_open g k then close_socket k 1008 ''session expired'' g else g))"

definition terminateGatewaySession :: "gatewayParams \<Rightarrow> nat \<Rightarrow> string \<Rightarrow> int \<Rightarrow> unit gatewayM" where
  "terminateGatewaySession p r reason closeCode =
    bindM (disposeGatewaySession p r (units ''TUNNEL_OFFLINE'')) (\<lambda>disposed.
    if \<not> disposed then ret ()
    else update_gateway (\<lambda>g.
      let g = log_effect (Emit ''tunnel.closed'' (Some r)) (log_effect (Metric ''tunnel_closed'') g);
          k = g_socket (gw_object g r)
      in if is_open g k then close_socket k closeCode reason g else g))"

fun reason_text :: "closeReason \<Rightarrow> string" where
  "reason_text USER_REQUEST = ''USER_REQUEST''"
| "reason_text MAX_TTL = ''MAX_TTL''"
| "reason_text IDLE_TIMEOUT = ''IDLE_TIMEOUT''"
| "reason_text RECONNECT_TIMEOUT = ''RECONNECT_TIMEOUT''"

definition applySessionTransition :: "gatewayParams \<Rightarrow> nat \<Rightarrow> sessionState \<Rightarrow> bool gatewayM" where
  "applySessionTransition p r nextLifecycle =
    bindM (update_gateway (on_session r (\<lambda>s. s\<lparr>lifecycle := nextLifecycle\<rparr>))) (\<lambda>_.
    case nextLifecycle of
      EXPIRED reason _ \<Rightarrow> bindM (expireGatewaySession p r (reason_text reason)) (\<lambda>_. ret False)
    | _ \<Rightarrow> ret True)"

section \<open>Opening and removing streams\<close>

datatype retirement = LocalReset | Normal

definition transition :: "gatewayParams \<Rightarrow> nat \<Rightarrow> (int \<Rightarrow> sessionEvent) \<Rightarrow> sessionState gatewayM" where
  "transition p r event g =
    (map_sum TransitionFailed id (transitionSession (lifecycle (gw_object g r)) (event (gw_clock g)) (p_policy p)), g)"

definition removeGatewayStream :: "gatewayParams \<Rightarrow> nat \<Rightarrow> int \<Rightarrow> nat \<Rightarrow> retirement \<Rightarrow> bool gatewayM" where
  "removeGatewayStream p r i st retired =
    bindM (read_gateway (\<lambda>g. isCurrentGatewayStream g r i st)) (\<lambda>current.
    if \<not> current then ret False
    else
      bindM (update_gateway (on_session r (\<lambda>s. s\<lparr>g_streams := map_delete (g_streams s) i\<rparr>))) (\<lambda>_.
      bindM (read_gateway (\<lambda>g. te_inboundFlow (gs_transport (gw_stream g st)))) (\<lambda>w.
      bindM (case retired of LocalReset \<Rightarrow> in_retireStream w i | Normal \<Rightarrow> in_closeStream w i) (\<lambda>_.
      bindM (update_gateway (clearGatewayStreamTimers st)) (\<lambda>_.
      bindM (read_gateway (\<lambda>g. lifecycle (gw_object g r))) (\<lambda>state.
      case state of
        ACTIVE _ \<Rightarrow>
          bindM (transition p r STREAM_CLOSED) (\<lambda>nextLifecycle.
          bindM (update_gateway (on_session r (\<lambda>s. s\<lparr>lifecycle := nextLifecycle\<rparr>))) (\<lambda>_.
          bindM (case nextLifecycle of
              EXPIRED reason _ \<Rightarrow> expireGatewaySession p r (reason_text reason) | _ \<Rightarrow> ret ()) (\<lambda>_.
          ret True)))
      | _ \<Rightarrow> ret True))))))"

definition beginGatewayStream :: "gatewayParams \<Rightarrow> nat \<Rightarrow> bool gatewayM" where
  "beginGatewayStream p r =
    bindM (transition p r STREAM_OPEN) (\<lambda>nextLifecycle.
    bindM (update_gateway (on_session r (\<lambda>s. s\<lparr>lifecycle := nextLifecycle\<rparr>))) (\<lambda>_.
    case nextLifecycle of
      EXPIRED reason _ \<Rightarrow> bindM (expireGatewaySession p r (reason_text reason)) (\<lambda>_. ret False)
    | ACTIVE _ \<Rightarrow> ret True
    | _ \<Rightarrow> throw_gateway CannotOpenStream))"

definition sendReset :: "transportEpoch \<Rightarrow> int \<Rightarrow> ustring \<Rightarrow> gateway \<Rightarrow> gateway" where
  "sendReset t i errorCode g =
    (if \<not> is_open g (te_socket t) then g
     else start_send (te_socket t)
       (frame ResetStream (te_generation t) i (Some (encodeMetadata (JObject [(units ''code'', JString errorCode)])))) g)"

text \<open>When the send of \<^verbatim>\<open>sendReset\<close> fails.\<close>

definition sendReset_failed :: "transportEpoch \<Rightarrow> gateway \<Rightarrow> gateway" where
  "sendReset_failed t = close_socket (te_socket t) 1011 ''stream reset failed''"

end
