(* ===== verification/GatewayStreams.thy ===== *)
theory GatewayStreams
  imports GatewayState
begin

text \<open>
  The streams of the gateway, \<^verbatim>\<open>apps/gateway/src/gateway-streams.ts\<close>: a browser's request or upgrade becomes a
  stream on the carrier, and the client's frames become the response. Every function that awaits is cut at
  its awaits: the part up to the first await is a definition with the function's name, the parts that run
  when an awaited send or drain settles are definitions of their own, and so are the callbacks of timers
  and of the browser's sockets. They name the stream object; the session and the stream id are the ones
  captured when it was opened.
\<close>

section \<open>Header tests\<close>

definition decimal_length :: "ustring \<Rightarrow> bool" where
  "decimal_length s = (s = [48] \<or> (s \<noteq> [] \<and> hd s \<noteq> 48 \<and> list_all digit_code s))"

definition parseContentLength :: "ustring option \<Rightarrow> int option" where
  "parseContentLength v = (case v of
     None \<Rightarrow> None
   | Some s \<Rightarrow> if \<not> decimal_length s then None
       else if int (digits_value s) \<le> MAX_SAFE_INTEGER then Some (int (digits_value s)) else None)"

definition contentLengthFromPairs :: "wireHeader list \<Rightarrow> int option" where
  "contentLengthFromPairs headers =
    (case filter (\<lambda>(name, _). unit_lower name = units ''content-length'') headers of
       [(_, v)] \<Rightarrow> parseContentLength (Some v)
     | _ \<Rightarrow> None)"

definition isFiniteHttpResponse :: "wireHeader list \<Rightarrow> int option \<Rightarrow> bool" where
  "isFiniteHttpResponse headers declaredResponseBytes =
    (case find (\<lambda>(name, _). unit_lower name = units ''content-type'') headers of
       Some (_, v) \<Rightarrow>
         unit_lower (unit_trim (takeWhile (\<lambda>u. u \<noteq> 59) v)) \<noteq> units ''text/event-stream'' \<and> declaredResponseBytes \<noteq> None
     | None \<Rightarrow> declaredResponseBytes \<noteq> None)"

definition responseCanHaveBody :: "ustring option \<Rightarrow> int \<Rightarrow> bool" where
  "responseCanHaveBody method statusCode =
    (method \<noteq> Some (units ''HEAD'') \<and> \<not> (statusCode \<ge> 100 \<and> statusCode < 200) \<and> statusCode \<noteq> 204 \<and> statusCode \<noteq> 304)"

text \<open>
  \<^verbatim>\<open>sanitizeHopByHopHeaders\<close> on code units. Two characters outside ASCII have lower-case forms that start with an
  ASCII letter: the Kelvin sign and the dotted capital I.
\<close>

definition wire_lower :: "ustring \<Rightarrow> ustring" where
  "wire_lower s = concat (map (\<lambda>u. if upper_code u then [u + 32] else if u = 8490 then [107] else if u = 304 then [105, 775] else [u]) s)"

definition wire_connection_tokens :: "wireHeader list \<Rightarrow> ustring list" where
  "wire_connection_tokens headers =
    concat (map (\<lambda>(rawName, v). if unit_lower rawName \<noteq> units ''connection'' then []
      else filter (\<lambda>t. t \<noteq> []) (map (\<lambda>token. wire_lower (unit_trim token)) (unit_split 44 v))) headers)"

definition sanitize_wire :: "wireHeader list \<Rightarrow> wireHeader list" where
  "sanitize_wire headers =
    filter (\<lambda>(rawName, _). unit_lower rawName \<notin> set (map units STANDARD_HOP_BY_HOP_HEADERS) \<and>
      unit_lower rawName \<notin> set (wire_connection_tokens headers)) headers"

text \<open>What Node's \<^verbatim>\<open>writeHead\<close> accepts in a status message or a header value.\<close>

definition header_text :: "ustring \<Rightarrow> bool" where
  "header_text s = list_all (\<lambda>u. u = 9 \<or> (32 \<le> u \<and> u \<le> 126) \<or> (128 \<le> u \<and> u \<le> 255)) s"

section \<open>Guards and cancellation\<close>

definition current_stream_of :: "gateway \<Rightarrow> nat \<Rightarrow> bool" where
  "current_stream_of g st = isCurrentGatewayStream g (gs_session (gw_stream g st)) (gs_streamId (gw_stream g st)) st"

definition current_session_stream_of :: "gateway \<Rightarrow> nat \<Rightarrow> bool" where
  "current_session_stream_of g st =
    isCurrentGatewaySessionStream g (gs_session (gw_stream g st)) (gs_streamId (gw_stream g st)) st"

text \<open>
  The three statements every cancellation starts with: the stream is marked, removed from its session with
  the given retirement, and its send window is closed.
\<close>

definition cancel_stream :: "gatewayParams \<Rightarrow> nat \<Rightarrow> retirement \<Rightarrow> unit gatewayM" where
  "cancel_stream p st retired =
    bindM (update_gateway (on_stream st (\<lambda>s. s\<lparr>gs_cancelled := True\<rparr>))) (\<lambda>_.
    bindM (read_gateway (\<lambda>g. gw_stream g st)) (\<lambda>s.
    bindM (removeGatewayStream p (gs_session s) (gs_streamId s) st retired) (\<lambda>_.
    update_gateway (out_closeStream (te_outboundFlow (gs_transport s)) (gs_streamId s)))))"

definition finish_stream :: "gatewayParams \<Rightarrow> nat \<Rightarrow> unit gatewayM" where
  "finish_stream p st =
    bindM (read_gateway (\<lambda>g. gw_stream g st)) (\<lambda>s.
    bindM (removeGatewayStream p (gs_session s) (gs_streamId s) st Normal) (\<lambda>_.
    update_gateway (out_closeStream (te_outboundFlow (gs_transport s)) (gs_streamId s))))"

definition reset_of :: "nat \<Rightarrow> string \<Rightarrow> gateway \<Rightarrow> gateway" where
  "reset_of st errorCode g = sendReset (gs_transport (gw_stream g st)) (gs_streamId (gw_stream g st)) (units errorCode) g"

definition error_or_destroy :: "nat \<Rightarrow> int \<Rightarrow> ustring \<Rightarrow> gateway \<Rightarrow> gateway" where
  "error_or_destroy x status errorCode g =
    (if \<not> ex_headersSent (gw_exchange g x) then writeGatewayError x status errorCode g else destroy_response x g)"

definition destroy_exchange :: "nat \<Rightarrow> gateway \<Rightarrow> gateway" where
  "destroy_exchange st g =
    (let s = gw_stream g st in
     if gs_kind s = KindHttp then destroy_request (gs_exchange s) (destroy_response (gs_exchange s) g)
     else destroy_response (gs_exchange s) g)"

section \<open>Admission of streams and the open request\<close>

definition config_limit :: "(snapshot \<Rightarrow> json) \<Rightarrow> gatewaySession \<Rightarrow> int" where
  "config_limit f s = json_int (f (sc_snapshot (g_config s)))"

definition admitStream :: "nat \<Rightarrow> bool gatewayM" where
  "admitStream r g =
    (let s = gw_object g r in
     if map_size (g_streams s) \<ge> config_limit sn_maxConcurrentStreams s then (Inr False, log_effect (Metric ''stream_rejected'') g)
     else
       let checkedAt = gw_clock g;
           s = (if checkedAt - g_streamRateWindowStartedAt s \<ge> 60000
             then s\<lparr>g_streamRateWindowStartedAt := checkedAt, g_streamsOpenedInWindow := 0\<rparr> else s)
       in if g_streamsOpenedInWindow s \<ge> config_limit sn_maxNewStreamsPerMinute s
          then (Inr False, log_effect (Metric ''stream_rejected'') (on_session r (\<lambda>_. s) g))
          else (Inr True, on_session r (\<lambda>_. s\<lparr>g_streamsOpenedInWindow := g_streamsOpenedInWindow s + 1\<rparr>) g))"

definition prepareOpenRequest :: "exchange \<Rightarrow> openHttpKind \<Rightarrow> (int \<times> string) + byte list" where
  "prepareOpenRequest e kind =
    (let headers = open_request_headers (ex_rawHeaders e) in
     case encodeOpenHttpMetadata \<lparr>oh_kind = kind,
         oh_method = (case ex_method e of Some m \<Rightarrow> m | None \<Rightarrow> units ''GET''),
         oh_path = (case ex_url e of Some u \<Rightarrow> u | None \<Rightarrow> units ''/''),
         oh_headers = map (\<lambda>(n, v). (units n, units v)) headers,
         oh_requestBodyEnded = (kind = KindWebSocket), oh_initialWindowBytes = INITIAL_STREAM_WINDOW_BYTES\<rparr> of
       Inr payload \<Rightarrow> Inr payload
     | Inl _ \<Rightarrow> Inl (if length headers > MAX_HTTP_HEADER_PAIRS then (431, ''REQUEST_HEADERS_TOO_LARGE'') else (400, ''INVALID_REQUEST_METADATA'')))"

definition issue_stream_id :: "nat \<Rightarrow> int gatewayM" where
  "issue_stream_id r g =
    (case issue (g_streamIds (gw_object g r)) of
       (Inl _, h) \<Rightarrow> (Inl IdsExhausted, on_session r (\<lambda>s. s\<lparr>g_streamIds := h\<rparr>) g)
     | (Inr i, h) \<Rightarrow> (Inr i, on_session r (\<lambda>s. s\<lparr>g_streamIds := h\<rparr>) g))"

definition new_stream :: "openHttpKind \<Rightarrow> nat \<Rightarrow> int \<Rightarrow> transportEpoch \<Rightarrow> nat \<Rightarrow> byte list \<Rightarrow> principal option \<Rightarrow> int \<Rightarrow> gatewayStream" where
  "new_stream kind r i t x head reviewer now =
    \<lparr>gs_kind = kind, gs_session = r, gs_streamId = i, gs_transport = t, gs_exchange = x, gs_cancelled = False,
     gs_downstreamQueuedFrames = 0, gs_reviewerAccountId = map_option prn_accountId reviewer,
     gs_reviewerAuthVersion = map_option prn_authVersion reviewer,
     gs_reviewerAuthorizedAt = map_option (\<lambda>_. now) reviewer, gs_durationTimer = False,
     gs_requestInactivityTimer = False, gs_requestEnded = False, gs_responseEnded = False, gs_responseFinished = False,
     gs_responseBytes = 0, gs_finiteResponse = False, gs_responseBodyAllowed = False, gs_requestBytes = 0,
     gs_pendingHead = head, gs_responseStarted = False, gs_upgraded = False, gs_browserEnded = False,
     gs_localEnded = False, gs_localFinished = False\<rparr>"

definition alloc_stream :: "gatewayStream \<Rightarrow> nat gatewayM" where
  "alloc_stream s g = (Inr (gw_fresh g), g\<lparr>gw_stream := (gw_stream g)(gw_fresh g := s), gw_fresh := gw_fresh g + 1\<rparr>)"

text \<open>
  The common middle of \<^verbatim>\<open>handleReviewerRequest\<close> and \<^verbatim>\<open>handleReviewerUpgrade\<close>: the id is issued, the stream object
  made on the current transport, and then the lifecycle entered, the stream put into the session, its
  timers armed, its windows opened and \<^verbatim>\<open>OPEN_HTTP\<close> sent. Without a result the session expired.
\<close>

definition enter_stream :: "gatewayParams \<Rightarrow> openHttpKind \<Rightarrow> nat \<Rightarrow> int \<Rightarrow> transportEpoch \<Rightarrow> byte list \<Rightarrow> nat \<Rightarrow> nat option gatewayM" where
  "enter_stream p kind r i t payload st =
    bindM (beginGatewayStream p r) (\<lambda>begun.
    if \<not> begun then ret None
    else
      bindM (update_gateway (\<lambda>g. log_effect (Metric ''stream_opened'')
        (on_session r (\<lambda>s. s\<lparr>g_streams := map_set (g_streams s) i st\<rparr>) g))) (\<lambda>_.
      bindM (update_gateway (on_stream st (\<lambda>s. s\<lparr>gs_durationTimer := True, gs_requestInactivityTimer := (kind = KindHttp)\<rparr>))) (\<lambda>_.
      bindM (out_openStream (te_outboundFlow t) i) (\<lambda>_.
      bindM (in_openStream (te_inboundFlow t) i) (\<lambda>_.
      bindM (update_gateway (start_send (te_socket t) (frame OpenHttp (te_generation t) i (Some payload)))) (\<lambda>_.
      ret (Some st)))))))"

definition open_stream :: "gatewayParams \<Rightarrow> openHttpKind \<Rightarrow> nat \<Rightarrow> nat \<Rightarrow> byte list \<Rightarrow> principal option \<Rightarrow> byte list \<Rightarrow> nat option gatewayM" where
  "open_stream p kind r x head reviewer payload =
    bindM (issue_stream_id r) (\<lambda>i.
    bindM (read_gateway (\<lambda>g. captureGatewayTransport (gw_object g r))) (\<lambda>t.
    bindM (read_gateway gw_clock) (\<lambda>now.
    bindM (alloc_stream (new_stream kind r i t x head reviewer now)) (enter_stream p kind r i t payload))))"

section \<open>Requests\<close>

definition session_of :: "gateway \<Rightarrow> ustring option \<Rightarrow> nat option" where
  "session_of g tunnelId = (case tunnelId of None \<Rightarrow> None | Some t \<Rightarrow> map_get (gw_sessions g) t)"

fun is_active :: "sessionState \<Rightarrow> bool" where
  "is_active (ACTIVE _) = True"
| "is_active _ = False"

definition available_session :: "gateway \<Rightarrow> ustring option \<Rightarrow> nat option" where
  "available_session g tunnelId = (case session_of g tunnelId of
     None \<Rightarrow> None
   | Some r \<Rightarrow> if is_active (lifecycle (gw_object g r)) \<and> is_open g (g_socket (gw_object g r)) then Some r else None)"

definition unavailable :: "gateway \<Rightarrow> ustring option \<Rightarrow> principal option \<Rightarrow> int \<times> string" where
  "unavailable g tunnelId reviewer =
    (if reviewer \<noteq> None \<and> session_of g tunnelId = None then (404, ''NOT_FOUND'') else (503, ''TUNNEL_OFFLINE''))"

definition request_gone :: "exchange \<Rightarrow> bool" where
  "request_gone e = (ex_requestDestroyed e \<or> ex_socketDestroyed e \<or> ex_destroyed e \<or> ex_writableEnded e)"

definition answer_request :: "nat \<Rightarrow> int \<times> string \<Rightarrow> 'a option gatewayM" where
  "answer_request x e = bindM (update_gateway (writeGatewayError x (fst e) (units (snd e)))) (\<lambda>_. ret None)"

definition handleReviewerRequest :: "gatewayParams \<Rightarrow> ustring option \<Rightarrow> nat \<Rightarrow> principal option \<Rightarrow> nat option gatewayM" where
  "handleReviewerRequest p tunnelId x reviewer =
    bindM (read_gateway (\<lambda>g. gw_exchange g x)) (\<lambda>e.
    if request_gone e then ret None
    else
      bindM (read_gateway (\<lambda>g. (available_session g tunnelId, unavailable g tunnelId reviewer))) (\<lambda>(found, refusal).
      case found of
        None \<Rightarrow> answer_request x refusal
      | Some r \<Rightarrow>
          bindM (admitStream r) (\<lambda>admitted.
          if \<not> admitted then
            bindM (update_gateway (log_effect (HeaderSet x ''Retry-After'' ''1''))) (\<lambda>_.
            answer_request x (429, ''STREAM_LIMIT_EXCEEDED''))
          else
            bindM (read_gateway (\<lambda>g. config_limit sn_maxRequestBodyBytes (gw_object g r))) (\<lambda>limit.
            if (case parseContentLength (ex_contentLength e) of Some n \<Rightarrow> n > limit | None \<Rightarrow> False)
            then answer_request x (413, ''REQUEST_TOO_LARGE'')
            else case prepareOpenRequest e KindHttp of
              Inl refused \<Rightarrow> answer_request x refused
            | Inr payload \<Rightarrow>
                bindM (open_stream p KindHttp r x [] reviewer payload) (\<lambda>opened.
                case opened of None \<Rightarrow> answer_request x (503, ''TUNNEL_EXPIRED'') | Some st \<Rightarrow> ret (Some st))))))"

text \<open>The callback of the two timers of a request, with the code each passes.\<close>

definition expireStream :: "gatewayParams \<Rightarrow> nat \<Rightarrow> string \<Rightarrow> unit gatewayM" where
  "expireStream p st errorCode =
    bindM (read_gateway (\<lambda>g. gs_cancelled (gw_stream g st) \<or> \<not> current_session_stream_of g st)) (\<lambda>skip.
    if skip then ret ()
    else
      bindM (cancel_stream p st LocalReset) (\<lambda>_.
      update_gateway (\<lambda>g. let x = gs_exchange (gw_stream g st) in
        reset_of st errorCode (destroy_request x (error_or_destroy x 408 (units errorCode) g)))))"

definition response_closed :: "gatewayParams \<Rightarrow> nat \<Rightarrow> unit gatewayM" where
  "response_closed p st =
    bindM (read_gateway (\<lambda>g. gs_responseFinished (gw_stream g st) \<or> gs_cancelled (gw_stream g st) \<or> \<not> current_session_stream_of g st)) (\<lambda>skip.
    if skip then ret ()
    else bindM (cancel_stream p st LocalReset) (\<lambda>_. update_gateway (reset_of st ''DOWNSTREAM_CANCELLED'')))"

definition touchRequestInactivity :: "nat \<Rightarrow> gateway \<Rightarrow> gateway" where
  "touchRequestInactivity st = on_stream st (\<lambda>s. s\<lparr>gs_requestInactivityTimer := True\<rparr>)"

text \<open>
  A chunk of the request body: \<^const>\<open>True\<close> when it goes on to the flow-controlled sender, which takes credit from
  the stream's send window and sends DATA frames in turns.
\<close>

definition request_chunk :: "gatewayParams \<Rightarrow> nat \<Rightarrow> int \<Rightarrow> bool gatewayM" where
  "request_chunk p st byteLength =
    bindM (read_gateway (\<lambda>g. gs_cancelled (gw_stream g st) \<or> \<not> current_session_stream_of g st)) (\<lambda>skip.
    if skip then ret False
    else
      bindM (update_gateway (\<lambda>g. on_stream st (\<lambda>s. s\<lparr>gs_requestBytes := gs_requestBytes s + byteLength\<rparr>) (touchRequestInactivity st g))) (\<lambda>_.
      bindM (read_gateway (\<lambda>g. gs_requestBytes (gw_stream g st) > config_limit sn_maxRequestBodyBytes (gw_object g (gs_session (gw_stream g st))))) (\<lambda>over.
      if over then
        bindM (cancel_stream p st LocalReset) (\<lambda>_.
        bindM (update_gateway (\<lambda>g. reset_of st ''REQUEST_TOO_LARGE''
          (error_or_destroy (gs_exchange (gw_stream g st)) 413 (units ''REQUEST_TOO_LARGE'') g))) (\<lambda>_.
        ret False))
      else ret True)))"

definition sender_take :: "nat \<Rightarrow> int \<Rightarrow> nat \<Rightarrow> gateway \<Rightarrow> gateway" where
  "sender_take st bytes ticket g =
    (let t = gs_transport (gw_stream g st); w = te_outboundFlow t in
     set_out w (snd (take_credit (gw_out g w) (gs_streamId (gw_stream g st)) (Integral bytes) ticket)) g)"

definition sender_send :: "nat \<Rightarrow> byte list \<Rightarrow> gateway \<Rightarrow> gateway" where
  "sender_send st payload g =
    (let t = gs_transport (gw_stream g st) in
     start_send (te_socket t) (data_input (Integral (te_generation t)) (Integral (gs_streamId (gw_stream g st))) payload) g)"

definition request_end :: "nat \<Rightarrow> unit gatewayM" where
  "request_end st =
    bindM (read_gateway (\<lambda>g. gs_cancelled (gw_stream g st) \<or> \<not> current_session_stream_of g st)) (\<lambda>skip.
    if skip then ret ()
    else update_gateway (\<lambda>g.
      let g = on_stream st (\<lambda>s. s\<lparr>gs_requestEnded := True\<rparr>) (clearRequestInactivityTimer st g);
          t = gs_transport (gw_stream g st)
      in start_send (te_socket t) (frame EndStream (te_generation t) (gs_streamId (gw_stream g st)) None) g))"

definition maybeDeleteStream :: "gatewayParams \<Rightarrow> nat \<Rightarrow> unit gatewayM" where
  "maybeDeleteStream p st =
    bindM (read_gateway (\<lambda>g. gw_stream g st)) (\<lambda>s.
    if \<not> gs_requestEnded s \<or> \<not> gs_responseFinished s then ret ()
    else
      bindM (removeGatewayStream p (gs_session s) (gs_streamId s) st Normal) (\<lambda>removed.
      if removed then update_gateway (out_closeStream (te_outboundFlow (gs_transport s)) (gs_streamId s)) else ret ()))"

definition request_end_sent :: "gatewayParams \<Rightarrow> nat \<Rightarrow> unit gatewayM" where
  "request_end_sent p st =
    bindM (read_gateway (\<lambda>g. current_session_stream_of g st)) (\<lambda>current.
    if \<not> current then ret () else maybeDeleteStream p st)"

definition request_failed :: "gatewayParams \<Rightarrow> nat \<Rightarrow> unit gatewayM" where
  "request_failed p st =
    bindM (read_gateway (\<lambda>g. current_session_stream_of g st)) (\<lambda>current.
    if \<not> current then ret ()
    else
      bindM (cancel_stream p st LocalReset) (\<lambda>_.
      update_gateway (\<lambda>g. reset_of st ''RELAY_WRITE_FAILED''
        (error_or_destroy (gs_exchange (gw_stream g st)) 502 (units ''RELAY_WRITE_FAILED'') g))))"

section \<open>Buffered responses\<close>

definition MAX_PENDING_DOWNSTREAM_FRAMES :: int where
  "MAX_PENDING_DOWNSTREAM_FRAMES = 1024"

definition reserveInboundChunk :: "nat \<Rightarrow> byte list \<Rightarrow> unit gatewayM" where
  "reserveInboundChunk st payload =
    bindM (read_gateway (\<lambda>g. (gw_stream g st, current_stream_of g st))) (\<lambda>(s, current).
    if payload = [] then throw_gateway (FrameFailed ''inbound DATA payload must not be empty'')
    else if gs_downstreamQueuedFrames s \<ge> MAX_PENDING_DOWNSTREAM_FRAMES
    then throw_gateway (FrameFailed ''inbound DATA frame queue exceeds configured bound'')
    else if \<not> current then throw_gateway (FrameFailed ''cannot buffer data for a stale Gateway stream'')
    else
      bindM (in_op (te_inboundFlow (gs_transport s)) (\<lambda>w. gateway_consume w (gs_streamId s) (Integral (int (length payload))))) (\<lambda>_.
      update_gateway (on_stream st (\<lambda>s. s\<lparr>gs_downstreamQueuedFrames := gs_downstreamQueuedFrames s + 1\<rparr>))))"

definition failBufferedDownstream :: "gatewayParams \<Rightarrow> nat \<Rightarrow> unit gatewayM" where
  "failBufferedDownstream p st =
    bindM (read_gateway (\<lambda>g. gs_cancelled (gw_stream g st) \<or> \<not> current_stream_of g st)) (\<lambda>skip.
    if skip then ret ()
    else
      bindM (cancel_stream p st LocalReset) (\<lambda>_.
      update_gateway (\<lambda>g. reset_of st ''DOWNSTREAM_WRITE_FAILED'' (destroy_exchange st g))))"

text \<open>
  A queued chunk in three parts: the write, the window update when the write has drained, and the release of
  the credit when the update is sent. Both kinds of stream queue their chunks alike.
\<close>

definition downstream_write :: "nat \<Rightarrow> byte list \<Rightarrow> gateway \<Rightarrow> gateway" where
  "downstream_write st chunk g =
    (if gs_cancelled (gw_stream g st) \<or> \<not> current_stream_of g st then g
     else log_effect (BodyWritten (gs_exchange (gw_stream g st)) chunk) g)"

definition sendWindowUpdate :: "transportEpoch \<Rightarrow> int \<Rightarrow> int \<Rightarrow> gateway \<Rightarrow> gateway" where
  "sendWindowUpdate t i bytes g = (case encodeWindowUpdate (Integral bytes) of
     Inl _ \<Rightarrow> g
   | Inr payload \<Rightarrow> start_send (te_socket t) (frame WindowUpdate (te_generation t) i (Some payload)) g)"

definition downstream_drained :: "nat \<Rightarrow> byte list \<Rightarrow> gateway \<Rightarrow> gateway" where
  "downstream_drained st chunk g =
    (if gs_cancelled (gw_stream g st) \<or> \<not> current_stream_of g st then g
     else sendWindowUpdate (gs_transport (gw_stream g st)) (gs_streamId (gw_stream g st)) (int (length chunk)) g)"

definition downstream_released :: "nat \<Rightarrow> byte list \<Rightarrow> unit gatewayM" where
  "downstream_released st chunk =
    bindM (read_gateway (\<lambda>g. (gw_stream g st, current_stream_of g st))) (\<lambda>(s, current).
    if \<not> current then ret ()
    else
      bindM (in_op (te_inboundFlow (gs_transport s)) (\<lambda>w. gateway_release w (gs_streamId s) (Integral (int (length chunk))))) (\<lambda>_.
      update_gateway (on_stream st (\<lambda>s. s\<lparr>gs_downstreamQueuedFrames := gs_downstreamQueuedFrames s - 1\<rparr>))))"

definition http_response_end :: "gatewayParams \<Rightarrow> nat \<Rightarrow> unit gatewayM" where
  "http_response_end p st =
    bindM (read_gateway (\<lambda>g. gs_cancelled (gw_stream g st) \<or> \<not> current_stream_of g st)) (\<lambda>skip.
    if skip then ret ()
    else
      bindM (update_gateway (\<lambda>g. on_stream st (\<lambda>s. s\<lparr>gs_responseFinished := True\<rparr>)
        (on_exchange (gs_exchange (gw_stream g st)) (\<lambda>e. e\<lparr>ex_writableEnded := True\<rparr>) g))) (\<lambda>_.
      maybeDeleteStream p st))"

definition websocket_response_end :: "gatewayParams \<Rightarrow> nat \<Rightarrow> unit gatewayM" where
  "websocket_response_end p st =
    bindM (read_gateway (\<lambda>g. gs_cancelled (gw_stream g st) \<or> \<not> current_stream_of g st)) (\<lambda>skip.
    if skip then ret ()
    else
      bindM (update_gateway (\<lambda>g. on_stream st (\<lambda>s. s\<lparr>gs_localFinished := True\<rparr>)
        (on_exchange (gs_exchange (gw_stream g st)) (\<lambda>e. e\<lparr>ex_writableEnded := True\<rparr>) g))) (\<lambda>_.
      bindM (read_gateway (\<lambda>g. gw_stream g st)) (\<lambda>s.
      if \<not> gs_upgraded s \<or> gs_browserEnded s then finish_stream p st else ret ())))"

section \<open>Frames from the client\<close>

definition isRetiredGatewayStream :: "gatewaySession \<Rightarrow> int \<Rightarrow> bool" where
  "isRetiredGatewayStream s i =
    (wasIssued (g_streamIds s) (Integral i) \<and> \<not> map_has (g_streams s) i \<and> map_option pr_streamId (g_probe s) \<noteq> Some i)"

definition lift_metadata :: "metadataError + 'a \<Rightarrow> 'a gatewayM" where
  "lift_metadata = lift_gateway MetadataFailed"

definition validateRetiredClientFrame :: "envelope \<Rightarrow> nat \<Rightarrow> unit gatewayM" where
  "validateRetiredClientFrame e w = (case envType e of
     ResponseHeaders \<Rightarrow> bindM (lift_metadata (decodeResponseHeadersMetadata (envPayload e))) (\<lambda>_. ret ())
   | Data \<Rightarrow>
       if envPayload e = [] then throw_gateway (FrameFailed ''inbound DATA payload must not be empty'')
       else in_op w (\<lambda>v. gateway_consumeRetiredData v (to_int (envStreamId e)) (Integral (int (length (envPayload e)))))
   | EndStream \<Rightarrow> ret ()
   | WindowUpdate \<Rightarrow> bindM (lift_metadata (decodeWindowUpdate (envPayload e))) (\<lambda>_. ret ())
   | ResetStream \<Rightarrow> bindM (lift_metadata (decodeResetStreamMetadata (envPayload e))) (\<lambda>_. ret ())
   | _ \<Rightarrow> throw_gateway (FrameFailed ''unexpected retired client frame type''))"

definition http_response_headers :: "gatewayParams \<Rightarrow> nat \<Rightarrow> byte list \<Rightarrow> unit gatewayM" where
  "http_response_headers p st payload =
    bindM (read_gateway (\<lambda>g. (gw_stream g st, gw_exchange g (gs_exchange (gw_stream g st)), gw_object g (gs_session (gw_stream g st))))) (\<lambda>(s, e, sess).
    if ex_headersSent e then throw_gateway (FrameFailed ''duplicate response headers'')
    else
      bindM (lift_metadata (decodeResponseHeadersMetadata payload)) (\<lambda>metadata.
      let declaredResponseBytes = contentLengthFromPairs (rh_headers metadata);
          allowed = responseCanHaveBody (ex_method e) (rh_statusCode metadata);
          finite = (allowed \<and> isFiniteHttpResponse (rh_headers metadata) declaredResponseBytes);
          outgoing = isolate_wire (sanitize_wire (rh_headers metadata)) reserved_units
      in
      bindM (update_gateway (on_stream st (\<lambda>s. s\<lparr>gs_responseBodyAllowed := allowed, gs_finiteResponse := finite\<rparr>))) (\<lambda>_.
      if finite \<and> (case declaredResponseBytes of Some n \<Rightarrow> n > config_limit sn_maxFiniteResponseBytes sess | None \<Rightarrow> False) then
        bindM (cancel_stream p st LocalReset) (\<lambda>_.
        update_gateway (\<lambda>g. reset_of st ''UPSTREAM_RESPONSE_TOO_LARGE'' (destroy_request (gs_exchange s)
          (writeGatewayError (gs_exchange s) 502 (units ''UPSTREAM_RESPONSE_TOO_LARGE'') g))))
      else if \<not> header_text (rh_statusMessage metadata) \<or> \<not> list_all (\<lambda>(_, v). header_text v) outgoing
      then throw_gateway (FrameFailed ''ERR_INVALID_CHAR'')
      else update_gateway (\<lambda>g. log_effect (HeadWritten (gs_exchange s) (rh_statusCode metadata) (rh_statusMessage metadata) outgoing)
        (on_exchange (gs_exchange s) (\<lambda>e. e\<lparr>ex_headersSent := True\<rparr>) g)))))"

definition http_response_data :: "gatewayParams \<Rightarrow> nat \<Rightarrow> byte list \<Rightarrow> unit gatewayM" where
  "http_response_data p st payload =
    bindM (read_gateway (\<lambda>g. (gw_stream g st, gw_exchange g (gs_exchange (gw_stream g st)), gw_object g (gs_session (gw_stream g st))))) (\<lambda>(s, e, sess).
    if \<not> ex_headersSent e then throw_gateway (FrameFailed ''DATA before response headers'')
    else if gs_responseEnded s then throw_gateway (FrameFailed ''DATA after response END'')
    else if \<not> gs_responseBodyAllowed s then throw_gateway (FrameFailed ''DATA is forbidden for this response'')
    else
      bindM (reserveInboundChunk st payload) (\<lambda>_.
      bindM (update_gateway (on_stream st (\<lambda>s. s\<lparr>gs_responseBytes := gs_responseBytes s + int (length payload)\<rparr>))) (\<lambda>_.
      if gs_finiteResponse s \<and> gs_responseBytes s + int (length payload) > config_limit sn_maxFiniteResponseBytes sess then
        bindM (cancel_stream p st LocalReset) (\<lambda>_.
        update_gateway (\<lambda>g. reset_of st ''UPSTREAM_RESPONSE_TOO_LARGE''
          (destroy_request (gs_exchange s) (destroy_response (gs_exchange s) g))))
      else ret ())))"

definition http_response_ended :: "nat \<Rightarrow> unit gatewayM" where
  "http_response_ended st =
    bindM (read_gateway (\<lambda>g. (gw_stream g st, gw_exchange g (gs_exchange (gw_stream g st))))) (\<lambda>(s, e).
    if \<not> ex_headersSent e then throw_gateway (FrameFailed ''END before response headers'')
    else if gs_responseEnded s then throw_gateway (FrameFailed ''duplicate response END'')
    else update_gateway (on_stream st (\<lambda>s. s\<lparr>gs_responseEnded := True\<rparr>)))"

definition http_reset :: "gatewayParams \<Rightarrow> nat \<Rightarrow> byte list \<Rightarrow> unit gatewayM" where
  "http_reset p st payload =
    bindM (lift_metadata (decodeResetStreamMetadata payload)) (\<lambda>resetCode.
    bindM (cancel_stream p st Normal) (\<lambda>_.
    update_gateway (\<lambda>g. let x = gs_exchange (gw_stream g st) in destroy_request x (error_or_destroy x 502 resetCode g))))"

section \<open>Upgrades\<close>

text \<open>The response head of an upgrade; when it is a 101 and the browser sent a head, that is sent first.\<close>

definition attach_browser :: "nat \<Rightarrow> gateway \<Rightarrow> gateway" where
  "attach_browser st g = on_exchange (gs_exchange (gw_stream g st)) (\<lambda>e. e\<lparr>ex_paused := False\<rparr>) g"

definition raw_response :: "nat \<Rightarrow> responseHeadersMetadata \<Rightarrow> gateway \<Rightarrow> gateway" where
  "raw_response st metadata g =
    (let s = gw_stream g st;
         g = log_effect (RawHeadWritten (gs_exchange s) (serializeRawHead metadata))
           (on_stream st (\<lambda>s. s\<lparr>gs_responseStarted := True\<rparr>) g)
     in if rh_statusCode metadata \<noteq> 101 then g
        else
          let g = on_stream st (\<lambda>s. s\<lparr>gs_upgraded := True\<rparr>) g
          in if gs_pendingHead s = [] then attach_browser st g else g)"

definition websocket_response_headers :: "nat \<Rightarrow> byte list \<Rightarrow> unit gatewayM" where
  "websocket_response_headers st payload =
    bindM (read_gateway (\<lambda>g. gw_stream g st)) (\<lambda>s.
    if gs_responseStarted s then throw_gateway (FrameFailed ''duplicate response headers'')
    else bindM (lift_metadata (decodeResponseHeadersMetadata payload)) (\<lambda>metadata. update_gateway (raw_response st metadata)))"

definition pending_head_sent :: "nat \<Rightarrow> gateway \<Rightarrow> gateway" where
  "pending_head_sent st g = (if \<not> current_stream_of g st then g else attach_browser st g)"

definition relay_write_failed :: "gatewayParams \<Rightarrow> nat \<Rightarrow> unit gatewayM" where
  "relay_write_failed p st =
    bindM (cancel_stream p st LocalReset) (\<lambda>_.
    update_gateway (\<lambda>g. reset_of st ''RELAY_WRITE_FAILED'' (destroy_response (gs_exchange (gw_stream g st)) g)))"

definition pending_head_failed :: "gatewayParams \<Rightarrow> nat \<Rightarrow> unit gatewayM" where
  "pending_head_failed p st =
    bindM (read_gateway (\<lambda>g. gs_cancelled (gw_stream g st) \<or> \<not> current_stream_of g st)) (\<lambda>skip.
    if skip then ret () else relay_write_failed p st)"

definition handleWebSocketClientFrame :: "gatewayParams \<Rightarrow> nat \<Rightarrow> envelope \<Rightarrow> unit gatewayM" where
  "handleWebSocketClientFrame p st e =
    bindM (read_gateway (\<lambda>g. gw_stream g st)) (\<lambda>s.
    case envType e of
      ResponseHeaders \<Rightarrow> websocket_response_headers st (envPayload e)
    | Data \<Rightarrow>
        if \<not> gs_responseStarted s then throw_gateway (FrameFailed ''DATA before response headers'')
        else if gs_localEnded s then throw_gateway (FrameFailed ''DATA after WebSocket response END'')
        else reserveInboundChunk st (envPayload e)
    | EndStream \<Rightarrow>
        if \<not> gs_responseStarted s then throw_gateway (FrameFailed ''END before response headers'')
        else if gs_localEnded s then throw_gateway (FrameFailed ''duplicate WebSocket response END'')
        else update_gateway (on_stream st (\<lambda>s. s\<lparr>gs_localEnded := True\<rparr>))
    | ResetStream \<Rightarrow>
        bindM (lift_metadata (decodeResetStreamMetadata (envPayload e))) (\<lambda>resetCode.
        bindM (cancel_stream p st Normal) (\<lambda>_.
        update_gateway (\<lambda>g. let s = gw_stream g st in
          if gs_responseStarted s then destroy_response (gs_exchange s) g else writeRawError (gs_exchange s) 502 resetCode g)))
    | _ \<Rightarrow> throw_gateway (FrameFailed ''unexpected WebSocket client frame type''))"

definition handleClientFrame :: "gatewayParams \<Rightarrow> nat \<Rightarrow> envelope \<Rightarrow> unit gatewayM" where
  "handleClientFrame p r e =
    bindM (read_gateway (\<lambda>g. gw_object g r)) (\<lambda>session.
    let i = to_int (envStreamId e) in
    if isRetiredGatewayStream session i then validateRetiredClientFrame e (g_inboundFlow session)
    else case map_get (g_streams session) i of
      None \<Rightarrow> throw_gateway (FrameFailed ''frame for unknown or retired stream'')
    | Some st \<Rightarrow>
        bindM (read_gateway (\<lambda>g. gw_stream g st)) (\<lambda>s.
        if gs_cancelled s then throw_gateway (FrameFailed ''frame for unknown or retired stream'')
        else if envType e = WindowUpdate then
          bindM (lift_metadata (decodeWindowUpdate (envPayload e))) (\<lambda>bytes.
          out_update (te_outboundFlow (gs_transport s)) i bytes)
        else if gs_kind s = KindWebSocket then handleWebSocketClientFrame p st e
        else case envType e of
          ResponseHeaders \<Rightarrow> http_response_headers p st (envPayload e)
        | Data \<Rightarrow> http_response_data p st (envPayload e)
        | EndStream \<Rightarrow> http_response_ended st
        | ResetStream \<Rightarrow> http_reset p st (envPayload e)
        | _ \<Rightarrow> throw_gateway (FrameFailed ''unexpected client frame type'')))"

definition upgrade_gone :: "exchange \<Rightarrow> bool" where
  "upgrade_gone e = (ex_destroyed e \<or> \<not> ex_readable e \<or> ex_writableEnded e)"

definition answer_upgrade :: "nat \<Rightarrow> int \<times> string \<Rightarrow> 'a option gatewayM" where
  "answer_upgrade x e = bindM (update_gateway (writeRawError x (fst e) (units (snd e)))) (\<lambda>_. ret None)"

definition reserved_path :: "exchange \<Rightarrow> bool" where
  "reserved_path e = (let u = (case ex_url e of Some u \<Rightarrow> u | None \<Rightarrow> units ''/'') in take 16 u = units ''/_review-tunnel/'')"

definition handleReviewerUpgrade ::
    "gatewayParams \<Rightarrow> ustring option \<Rightarrow> nat \<Rightarrow> byte list \<Rightarrow> principal option \<Rightarrow> nat option gatewayM" where
  "handleReviewerUpgrade p tunnelId x head reviewer =
    bindM (read_gateway (\<lambda>g. gw_exchange g x)) (\<lambda>e.
    if upgrade_gone e then ret None
    else
      bindM (read_gateway (\<lambda>g. (available_session g tunnelId, unavailable g tunnelId reviewer))) (\<lambda>(found, refusal).
      case found of
        None \<Rightarrow> answer_upgrade x refusal
      | Some r \<Rightarrow>
          if reserved_path e then answer_upgrade x (404, ''NOT_FOUND'')
          else
            bindM (admitStream r) (\<lambda>admitted.
            if \<not> admitted then answer_upgrade x (429, ''STREAM_LIMIT_EXCEEDED'')
            else if int (length head) > 64 * 1024 then answer_upgrade x (413, ''UPGRADE_HEAD_TOO_LARGE'')
            else case prepareOpenRequest e KindWebSocket of
              Inl refused \<Rightarrow> answer_upgrade x refused
            | Inr payload \<Rightarrow>
                bindM (update_gateway (on_exchange x (\<lambda>e. e\<lparr>ex_paused := True\<rparr>))) (\<lambda>_.
                bindM (open_stream p KindWebSocket r x head reviewer payload) (\<lambda>opened.
                case opened of None \<Rightarrow> answer_upgrade x (503, ''TUNNEL_EXPIRED'') | Some st \<Rightarrow> ret (Some st))))))"

definition upgrade_expired :: "gatewayParams \<Rightarrow> nat \<Rightarrow> unit gatewayM" where
  "upgrade_expired p st =
    bindM (read_gateway (\<lambda>g. gs_cancelled (gw_stream g st) \<or> \<not> current_session_stream_of g st)) (\<lambda>skip.
    if skip then ret ()
    else
      bindM (cancel_stream p st LocalReset) (\<lambda>_.
      update_gateway (\<lambda>g. reset_of st ''LIMIT_EXCEEDED'' (destroy_response (gs_exchange (gw_stream g st)) g))))"

definition upgrade_cancelled :: "gatewayParams \<Rightarrow> nat \<Rightarrow> unit gatewayM" where
  "upgrade_cancelled p st =
    bindM (read_gateway (\<lambda>g. gs_cancelled (gw_stream g st) \<or> \<not> current_session_stream_of g st)) (\<lambda>skip.
    if skip then ret ()
    else bindM (cancel_stream p st LocalReset) (\<lambda>_. update_gateway (reset_of st ''DOWNSTREAM_CANCELLED'')))"

definition upgrade_failed :: "gatewayParams \<Rightarrow> nat \<Rightarrow> unit gatewayM" where
  "upgrade_failed p st =
    bindM (read_gateway (\<lambda>g. current_session_stream_of g st)) (\<lambda>current.
    if \<not> current then ret ()
    else
      bindM (cancel_stream p st LocalReset) (\<lambda>_.
      update_gateway (\<lambda>g. reset_of st ''RELAY_WRITE_FAILED''
        (writeRawError (gs_exchange (gw_stream g st)) 502 (units ''RELAY_WRITE_FAILED'') g))))"

text \<open>Raw data from the browser after a 101: the socket is paused while a chunk is sent.\<close>

definition browser_data :: "nat \<Rightarrow> gateway \<Rightarrow> gateway" where
  "browser_data st g = on_exchange (gs_exchange (gw_stream g st)) (\<lambda>e. e\<lparr>ex_paused := True\<rparr>) g"

definition browser_data_sent :: "nat \<Rightarrow> gateway \<Rightarrow> gateway" where
  "browser_data_sent st g =
    (let s = gw_stream g st in
     if \<not> gs_cancelled s \<and> \<not> gs_browserEnded s \<and> current_stream_of g st
     then on_exchange (gs_exchange s) (\<lambda>e. e\<lparr>ex_paused := False\<rparr>) g else g)"

definition browser_failed :: "gatewayParams \<Rightarrow> nat \<Rightarrow> unit gatewayM" where
  "browser_failed p st =
    bindM (read_gateway (\<lambda>g. current_stream_of g st)) (\<lambda>current.
    if \<not> current then ret () else relay_write_failed p st)"

definition browser_end :: "nat \<Rightarrow> gateway \<Rightarrow> gateway" where
  "browser_end st g =
    (if gs_cancelled (gw_stream g st) \<or> \<not> current_stream_of g st then g
     else
       let g = on_stream st (\<lambda>s. s\<lparr>gs_browserEnded := True\<rparr>) g; t = gs_transport (gw_stream g st)
       in start_send (te_socket t) (frame EndStream (te_generation t) (gs_streamId (gw_stream g st)) None) g)"

definition browser_end_sent :: "gatewayParams \<Rightarrow> nat \<Rightarrow> unit gatewayM" where
  "browser_end_sent p st =
    bindM (read_gateway (\<lambda>g. (current_stream_of g st, gs_localFinished (gw_stream g st)))) (\<lambda>(current, finished).
    if \<not> current then ret () else if finished then finish_stream p st else ret ())"

end
