(* ===== verification/GatewayInv.thy ===== *)
theory GatewayInv
  imports GatewayState
begin

text \<open>
  The invariant of the gateway's store and the rules that carry it through the handlers. Handlers are
  reasoned about by weakest preconditions: \<open>after m Q E\<close> holds in a store when a run of \<open>m\<close> from it ends
  normally in \<open>Q\<close> or with a throw in \<open>E\<close>.
\<close>

section \<open>Weakest preconditions\<close>

definition after :: "'a gatewayM \<Rightarrow> ('a \<Rightarrow> gateway \<Rightarrow> bool) \<Rightarrow> (gateway \<Rightarrow> bool) \<Rightarrow> gateway \<Rightarrow> bool" where
  "after m Q E g = (case m g of (Inr a, g') \<Rightarrow> Q a g' | (Inl _, g') \<Rightarrow> E g')"

named_theorems wp "weakest preconditions of the primitives"

lemma after_bind [wp]: "after (bindM m f) Q E = after m (\<lambda>a. after (f a) Q E) E"
  by (rule ext) (auto simp: after_def bindM_def split: prod.splits sum.splits)

lemma after_prims [wp]:
  "after (ret a) Q E = Q a"
  "after (throw_gateway e) Q E = E"
  "after (update_gateway u) Q' E = (\<lambda>g. Q' () (u g))"
  "after (read_gateway h) Q'' E = (\<lambda>g. Q'' (h g) g)"
  "after (lift_gateway f (Inr a)) Q E = Q a"
  "after (lift_gateway f (Inl b)) Q E = E"
  by (simp_all add: after_def ret_def throw_gateway_def update_gateway_def read_gateway_def lift_gateway_def fun_eq_iff)

lemma after_if [wp]:
  "after (if b then m else n) Q E = (if b then after m Q E else after n Q E)"
  "(if b then P else P') g = (if b then P g else P' g)"
  by simp_all

lemma after_mono:
  "after m Q E g \<Longrightarrow> (\<And>a g'. Q a g' \<Longrightarrow> Q' a g') \<Longrightarrow> (\<And>g'. E g' \<Longrightarrow> E' g') \<Longrightarrow> after m Q' E' g"
  by (auto simp: after_def split: prod.splits sum.splits)

lemma after_for_each:
  assumes "I g" "\<And>x g. x \<in> set xs \<Longrightarrow> I g \<Longrightarrow> after (f x) (\<lambda>_. I) E g"
  shows "after (for_each f xs) (\<lambda>_. I) E g"
  using assms
proof (induction xs arbitrary: g)
  case Nil
  then show ?case by (simp add: wp)
next
  case (Cons x xs)
  then have "after (f x) (\<lambda>_. I) E g" by simp
  then show ?case unfolding for_each.simps after_bind
    by (rule after_mono) (use Cons in auto)
qed

lemma after_result: "after m Q E g \<Longrightarrow> m g = (Inr a, g') \<Longrightarrow> Q a g'"
  by (simp add: after_def)

lemma after_snd: "after m (\<lambda>_. I) I g \<Longrightarrow> I (snd (m g))"
  by (auto simp: after_def split: prod.splits sum.splits)

section \<open>The ids known to the flow windows\<close>

declare map_of_eq_Some_iff [simp del]

abbreviation out_ids :: "outboundFlow \<Rightarrow> int set" where
  "out_ids f \<equiv> dom (map_get (streams f))"

abbreviation in_ids :: "gatewayInbound \<Rightarrow> int set" where
  "in_ids w \<equiv> dom (map_get (inboundStreams w))"

lemma dom_set: "dom (map_get (map_set m k v)) = insert k (dom (map_get m))"
  by (auto simp: jsmap_simps split: if_splits)

lemma dom_delete: "dom (map_get (map_delete m k)) = dom (map_get m) - {k}"
  by (auto simp: jsmap_simps split: if_splits)

lemma dom_set_same: "map_get m k = Some v \<Longrightarrow> dom (map_get (map_set m k v')) = dom (map_get m)"
  by (auto simp: dom_set)

lemma drain_ids: "drain conn ss ws = (conn', ss', kept, out) \<Longrightarrow> dom (map_get ss') = dom (map_get ss)"
proof (induction conn ss ws arbitrary: conn' ss' kept out rule: drain.induct)
  case (2 conn ss w ws)
  show ?case
  proof (cases "map_get ss (w_streamId w)")
    case None
    with "2.prems" "2.IH"(1) [OF None] show ?thesis by (auto split: prod.splits)
  next
    case (Some st)
    with "2.prems" "2.IH"(2,3) [OF Some refl] show ?thesis
      by (auto simp: Let_def dom_set_same split: prod.splits if_splits)
  qed
qed simp

lemma drainWaiters_ids: "out_ids (snd (drainWaiters f)) = out_ids f"
proof -
  obtain conn ss kept out where d: "drain (connectionAvailable f) (streams f) (waiters f) = (conn, ss, kept, out)"
    by (metis prod_cases4)
  then show ?thesis using drain_ids [OF d] by (simp add: drainWaiters_def)
qed

lemma openStream_ids:
  assumes "0 < i" "0 < n" "\<not> closed f" "i \<notin> out_ids f"
  shows "\<exists>out f'. openStream f (Integral i) (Integral n) = (Inr out, f') \<and> out_ids f' = insert i (out_ids f) \<and> \<not> closed f'"
proof -
  have "map_get (streams f) i = None" using assms(4) by blast
  with assms(1-3) show ?thesis
    by (simp add: openStream_def Let_def split_beta drainWaiters_ids drainWaiters_frame dom_set guard_simps)
qed

lemma update_credit_ids: "out_ids (snd (update_credit f i n)) = out_ids f" "closed (snd (update_credit f i n)) = closed f"
  by (simp_all add: update_credit_def Let_def split_beta drainWaiters_ids drainWaiters_frame dom_set_same split: option.split)

lemma take_credit_ids: "out_ids (snd (take_credit f i n k)) = out_ids f" "closed (snd (take_credit f i n k)) = closed f"
  by (simp_all add: take_credit_def Let_def split_beta drainWaiters_ids drainWaiters_frame)

lemma closeStream_ids: "out_ids (snd (closeStream f i)) = out_ids f - {i}" "closed (snd (closeStream f i)) = closed f"
  by (auto simp: closeStream_def Let_def split_beta drainWaiters_ids drainWaiters_frame dom_delete split: option.split)

lemma inbound_open_ids:
  assumes "0 < i" "0 < n" "i \<notin> in_ids w"
  shows "\<exists>w'. gateway_openStream w (Integral i) (Integral n) = (Inr (), w') \<and> in_ids w' = insert i (in_ids w)"
proof -
  have "map_get (inboundStreams w) i = None" using assms(3) by blast
  with assms(1,2) show ?thesis by (simp add: gateway_openStream_def dom_set guard_simps)
qed

lemma inbound_consume_ids: "in_ids (snd (gateway_consume w i n)) = in_ids w"
  by (simp add: gateway_consume_def dom_set_same split: option.split)

lemma inbound_release_ids: "in_ids (snd (gateway_release w i n)) = in_ids w"
  by (simp add: gateway_release_def Let_def dom_set_same split: option.split)

lemma inbound_retired_ids: "in_ids (snd (gateway_consumeRetiredData w i n)) = in_ids w"
  by (simp add: gateway_consumeRetiredData_def split_beta split: sum.splits prod.splits)

lemma inbound_close_ids:
  assumes "gateway_inbound_inv w"
  shows "\<exists>w'. gateway_closeStream w i = (Inr (), w') \<and> in_ids w' = in_ids w - {i}"
  by (auto simp: gateway_closeStream_eq [OF assms] dom_delete split: option.split)

lemma retire_allowed:
  assumes "gateway_inbound_inv w" "inboundInitialBytes w \<le> MAX_SAFE_INTEGER" "positive_safe_int (Integral i)"
    "map_get (inboundStreams w) i = Some c"
  shows "fst (allow (retiredData w) (Integral i) (Integral (min (availableBytes c) (inboundAvailable w)))) = Inr ()"
proof (rule allow_ok [OF assms(3)])
  have "inboundAvailable w \<le> inboundInitialBytes w"
    using outstanding_nonneg [OF assms(1)] assms(1) by (simp add: gateway_inbound_inv_def)
  then show "min (availableBytes c) (inboundAvailable w) \<le> MAX_SAFE_INTEGER" using assms(2) by simp
  show "0 \<le> min (availableBytes c) (inboundAvailable w)"
    using inbound_creditD [OF assms(1,4)] assms(1) by (simp add: gateway_inbound_inv_def)
qed

lemma inbound_retire_ids:
  assumes "gateway_inbound_inv w" "inboundInitialBytes w \<le> MAX_SAFE_INTEGER" "positive_safe_int (Integral i)"
  shows "\<exists>w'. gateway_retireStream w i = (Inr (), w') \<and> in_ids w' = in_ids w - {i}"
proof (cases "map_get (inboundStreams w) i")
  case None
  then show ?thesis by (auto simp: gateway_retireStream_def)
next
  case (Some c)
  obtain b where b: "allow (retiredData w) (Integral i) (Integral (min (availableBytes c) (inboundAvailable w))) = (Inr (), b)"
    using retire_allowed [OF assms Some] by (metis prod.collapse)
  then have "gateway_inbound_inv (w\<lparr>retiredData := b\<rparr>)"
    using assms(1) allow_inv by (metis gateway_inbound_inv_def inbound_inv_budget snd_conv)
  from inbound_close_ids [OF this, of i] Some b show ?thesis by (auto simp: gateway_retireStream_def)
qed

lemma inbound_initial [simp]:
  "inboundInitialBytes (snd (gateway_openStream w j n)) = inboundInitialBytes w"
  "inboundInitialBytes (snd (gateway_consume w i n)) = inboundInitialBytes w"
  "inboundInitialBytes (snd (gateway_release w i n)) = inboundInitialBytes w"
  "inboundInitialBytes (snd (gateway_closeStream w i)) = inboundInitialBytes w"
  "inboundInitialBytes (snd (gateway_retireStream w i)) = inboundInitialBytes w"
  "inboundInitialBytes (snd (gateway_consumeRetiredData w i n)) = inboundInitialBytes w"
proof -
  show close: "inboundInitialBytes (snd (gateway_closeStream w i)) = inboundInitialBytes w" for w
    by (simp add: gateway_closeStream_def Let_def split: option.split)
  show "inboundInitialBytes (snd (gateway_retireStream w i)) = inboundInitialBytes w"
    by (auto simp: gateway_retireStream_def close split: option.splits prod.splits sum.splits)
qed (auto simp: gateway_openStream_def gateway_consume_def gateway_release_def gateway_consumeRetiredData_def Let_def
    split: option.splits prod.splits sum.splits)

section \<open>The invariant\<close>

definition session_ids :: "gatewaySession \<Rightarrow> int set" where
  "session_ids s = dom (map_get (g_streams s)) \<union> (case g_probe s of None \<Rightarrow> {} | Some pr \<Rightarrow> {pr_streamId pr})"

definition ids_ok :: "int \<Rightarrow> bool" where
  "ids_ok h = (h = 0 \<or> (0 < h \<and> h \<le> 4294967295 \<and> h mod 2 = 1))"

definition stream_limit :: "gatewaySession \<Rightarrow> int" where
  "stream_limit s = json_int (sn_maxConcurrentStreams (sc_snapshot (g_config s)))"

text \<open>A stream in the map of a session is that session's, on its current transport, and not cancelled.\<close>

definition stream_ok :: "gateway \<Rightarrow> nat \<Rightarrow> int \<Rightarrow> nat \<Rightarrow> bool" where
  "stream_ok g r i st = (gs_session (gw_stream g st) = r \<and> gs_streamId (gw_stream g st) = i \<and>
     gs_transport (gw_stream g st) = captureGatewayTransport (gw_object g r) \<and> \<not> gs_cancelled (gw_stream g st) \<and>
     st < gw_fresh g)"

definition entries_ok :: "gateway \<Rightarrow> nat \<Rightarrow> bool" where
  "entries_ok g r = (wf_map (g_streams (gw_object g r)) \<and>
     (\<forall>i st. map_get (g_streams (gw_object g r)) i = Some st \<longrightarrow> stream_ok g r i st) \<and>
     ids_ok (g_streamIds (gw_object g r)) \<and>
     (\<forall>i \<in> session_ids (gw_object g r). wasIssued (g_streamIds (gw_object g r)) (Integral i)) \<and>
     map_size (g_streams (gw_object g r)) \<le> max 0 (stream_limit (gw_object g r)))"

text \<open>What the lifecycle of a registered session says about its streams, its probe and its generation.\<close>

fun lifecycle_ok :: "sessionState \<Rightarrow> gatewaySession \<Rightarrow> bool" where
  "lifecycle_ok CREATING s = (g_streams s = [] \<and> g_generation s = 1)"
| "lifecycle_ok (ACTIVE a) s = (activeStreamCount a = map_size (g_streams s) \<and> generation a = g_generation s \<and> g_probe s = None)"
| "lifecycle_ok (RECONNECTING c) s = (g_streams s = [] \<and>
     (case candidateGeneration c of None \<Rightarrow> True | Some n \<Rightarrow> g_generation s = n))"
| "lifecycle_ok (EXPIRED _ _) s = False"
| "lifecycle_ok (CLOSED _ _) s = False"

fun has_carrier :: "sessionState \<Rightarrow> bool" where
  "has_carrier CREATING = True"
| "has_carrier (ACTIVE _) = True"
| "has_carrier (RECONNECTING c) = (candidateGeneration c \<noteq> None)"
| "has_carrier _ = False"

definition flows_ok :: "gateway \<Rightarrow> gatewaySession \<Rightarrow> bool" where
  "flows_ok g s = (\<not> closed (gw_out g (g_outboundFlow s)) \<and> out_ids (gw_out g (g_outboundFlow s)) = session_ids s \<and>
     in_ids (gw_in g (g_inboundFlow s)) = session_ids s)"

text \<open>The connection that carries a session works for it, and for its resume attempt if there is one.\<close>

fun attempt_ok :: "sessionState \<Rightarrow> connection \<Rightarrow> bool" where
  "attempt_ok (RECONNECTING c) cn = (cn_resumeAttemptId cn = candidateAttemptId c)"
| "attempt_ok _ cn = True"

definition carrier_ok :: "gateway \<Rightarrow> nat \<Rightarrow> bool" where
  "carrier_ok g r = (cn_session (gw_connection g (g_socket (gw_object g r))) = Some r \<and>
     attempt_ok (lifecycle (gw_object g r)) (gw_connection g (g_socket (gw_object g r))))"

definition session_ok :: "gateway \<Rightarrow> nat \<Rightarrow> bool" where
  "session_ok g r = (\<not> terminated (gw_object g r) \<and> session_inv (lifecycle (gw_object g r)) \<and>
     lifecycle_ok (lifecycle (gw_object g r)) (gw_object g r) \<and>
     (has_carrier (lifecycle (gw_object g r)) \<longrightarrow> flows_ok g (gw_object g r) \<and> carrier_ok g r) \<and>
     (gw_killSwitch g \<longrightarrow> is_creating (lifecycle (gw_object g r))))"

definition in_ok :: "gatewayInbound \<Rightarrow> bool" where
  "in_ok w = (gateway_inbound_inv w \<and> inboundInitialBytes w \<le> MAX_SAFE_INTEGER)"

text \<open>
  The part of the invariant that also holds in the middle of a handler: the map of sessions is keyed by
  their ids, sessions do not share flow windows, and a session that is not registered has no streams.
\<close>

definition base_ok :: "gateway \<Rightarrow> bool" where
  "base_ok g = (wf_map (gw_sessions g) \<and>
     (\<forall>t r. map_get (gw_sessions g) t = Some r \<longrightarrow> g_tunnelId (gw_object g r) = t \<and> r < gw_fresh g \<and>
        g_outboundFlow (gw_object g r) < gw_fresh g \<and> g_inboundFlow (gw_object g r) < gw_fresh g \<and>
        g_socket (gw_object g r) < gw_fresh g) \<and>
     (\<forall>r r'. is_registered g r \<longrightarrow> is_registered g r' \<longrightarrow> r \<noteq> r' \<longrightarrow>
        g_outboundFlow (gw_object g r) \<noteq> g_outboundFlow (gw_object g r') \<and>
        g_inboundFlow (gw_object g r) \<noteq> g_inboundFlow (gw_object g r')) \<and>
     (\<forall>r. \<not> is_registered g r \<longrightarrow> g_streams (gw_object g r) = []) \<and>
     (\<forall>r. is_registered g r \<longrightarrow> entries_ok g r) \<and>
     (\<forall>w. flow_inv (gw_out g w)) \<and> (\<forall>w. in_ok (gw_in g w)))"

definition others_ok :: "nat \<Rightarrow> gateway \<Rightarrow> bool" where
  "others_ok r g = (\<forall>r'. r' \<noteq> r \<longrightarrow> is_registered g r' \<longrightarrow> session_ok g r')"

definition gateway_inv :: "gateway \<Rightarrow> bool" where
  "gateway_inv g = (base_ok g \<and> (\<forall>r. is_registered g r \<longrightarrow> session_ok g r))"

lemma gateway_inv_others: "gateway_inv g \<Longrightarrow> base_ok g \<and> others_ok r g"
  by (simp add: gateway_inv_def others_ok_def)

lemma others_gateway_inv: "base_ok g \<Longrightarrow> others_ok r g \<Longrightarrow> (is_registered g r \<Longrightarrow> session_ok g r) \<Longrightarrow> gateway_inv g"
  unfolding gateway_inv_def others_ok_def by metis

section \<open>Changes that do not concern the invariant\<close>

definition same_session :: "gatewaySession \<Rightarrow> gatewaySession \<Rightarrow> bool" where
  "same_session s s' = (terminated s' = terminated s \<and> lifecycle s' = lifecycle s \<and> g_tunnelId s' = g_tunnelId s \<and>
     g_socket s' = g_socket s \<and> g_streams s' = g_streams s \<and> g_streamIds s' = g_streamIds s \<and>
     g_outboundFlow s' = g_outboundFlow s \<and> g_inboundFlow s' = g_inboundFlow s \<and> g_generation s' = g_generation s \<and>
     map_option pr_streamId (g_probe s') = map_option pr_streamId (g_probe s) \<and> g_config s' = g_config s)"

definition same_stream :: "gatewayStream \<Rightarrow> gatewayStream \<Rightarrow> bool" where
  "same_stream s s' = (gs_session s' = gs_session s \<and> gs_streamId s' = gs_streamId s \<and>
     gs_transport s' = gs_transport s \<and> gs_cancelled s' = gs_cancelled s)"

definition same_out :: "outboundFlow \<Rightarrow> outboundFlow \<Rightarrow> bool" where
  "same_out f f' = (out_ids f' = out_ids f \<and> closed f' = closed f \<and> (flow_inv f \<longrightarrow> flow_inv f'))"

definition same_in :: "gatewayInbound \<Rightarrow> gatewayInbound \<Rightarrow> bool" where
  "same_in w w' = (in_ids w' = in_ids w \<and> (in_ok w \<longrightarrow> in_ok w'))"

definition same_connection :: "connection \<Rightarrow> connection \<Rightarrow> bool" where
  "same_connection cn cn' = (cn_session cn' = cn_session cn \<and> cn_resumeAttemptId cn' = cn_resumeAttemptId cn)"

definition same_gateway :: "gateway \<Rightarrow> gateway \<Rightarrow> bool" where
  "same_gateway g g' = (gw_sessions g' = gw_sessions g \<and> gw_fresh g' = gw_fresh g \<and> gw_killSwitch g' = gw_killSwitch g \<and>
     (\<forall>r. same_session (gw_object g r) (gw_object g' r)) \<and> (\<forall>st. same_stream (gw_stream g st) (gw_stream g' st)) \<and>
     (\<forall>w. same_out (gw_out g w) (gw_out g' w)) \<and> (\<forall>w. same_in (gw_in g w) (gw_in g' w)) \<and>
     (\<forall>k. same_connection (gw_connection g k) (gw_connection g' k)))"

named_theorems same "changes that keep the invariant"

lemma same_refl [simp]:
  "same_session s s" "same_stream u u" "same_out f f" "same_in w w" "same_connection cn cn" "same_gateway g g"
  by (simp_all add: same_connection_def same_session_def same_stream_def same_out_def same_in_def same_gateway_def)

lemma same_trans: "same_gateway g g' \<Longrightarrow> same_gateway g' g'' \<Longrightarrow> same_gateway g g''"
  unfolding same_gateway_def same_session_def same_stream_def same_out_def same_in_def same_connection_def by simp

lemma same_attempt: "same_connection cn cn' \<Longrightarrow> attempt_ok l cn' = attempt_ok l cn"
  by (cases l) (simp_all add: same_connection_def)

lemma same_carrier:
  assumes "same_session (gw_object g r) (gw_object g' r)" "\<And>k. same_connection (gw_connection g k) (gw_connection g' k)"
  shows "carrier_ok g' r = carrier_ok g r"
  using assms(1) assms(2) [of "g_socket (gw_object g r)"]
  by (simp add: carrier_ok_def same_session_def same_attempt) (simp add: same_connection_def)

lemma same_session_ids: "same_session s s' \<Longrightarrow> session_ids s' = session_ids s"
  by (auto simp: same_session_def session_ids_def split: option.splits)

lemma same_lifecycle: "same_session s s' \<Longrightarrow> lifecycle_ok l s' = lifecycle_ok l s"
  by (cases l) (auto simp: same_session_def split: option.splits)

lemma same_registered: "same_gateway g g' \<Longrightarrow> is_registered g' r = is_registered g r"
  by (simp add: same_gateway_def same_session_def is_registered_def)

lemma same_entries: "same_gateway g g' \<Longrightarrow> entries_ok g r \<Longrightarrow> entries_ok g' r"
  using same_session_ids [of "gw_object g r" "gw_object g' r"]
  by (simp add: same_gateway_def entries_ok_def stream_ok_def same_session_def same_stream_def captureGatewayTransport_def stream_limit_def)

lemma same_session_ok: "same_gateway g g' \<Longrightarrow> session_ok g r \<Longrightarrow> session_ok g' r"
proof -
  assume s: "same_gateway g g'" "session_ok g r"
  then have ss: "same_session (gw_object g r) (gw_object g' r)" by (simp add: same_gateway_def)
  then have e: "lifecycle (gw_object g' r) = lifecycle (gw_object g r)" "terminated (gw_object g' r) = terminated (gw_object g r)"
    "g_outboundFlow (gw_object g' r) = g_outboundFlow (gw_object g r)" "g_inboundFlow (gw_object g' r) = g_inboundFlow (gw_object g r)"
    by (simp_all add: same_session_def)
  from s(1) have "same_out (gw_out g w) (gw_out g' w)" "same_in (gw_in g w) (gw_in g' w)" for w by (simp_all add: same_gateway_def)
  then have "flows_ok g' (gw_object g' r) = flows_ok g (gw_object g r)"
    by (simp add: flows_ok_def same_out_def same_in_def e same_session_ids [OF ss])
  moreover have "carrier_ok g' r = carrier_ok g r" using s(1) by (intro same_carrier [OF ss]) (simp add: same_gateway_def)
  moreover have "gw_killSwitch g' = gw_killSwitch g" using s(1) by (simp add: same_gateway_def)
  ultimately show ?thesis using s(2) by (simp add: session_ok_def e same_lifecycle [OF ss])
qed

lemma same_base: "same_gateway g g' \<Longrightarrow> base_ok g \<Longrightarrow> base_ok g'"
  using same_entries [of g g'] same_registered [of g g']
  by (auto simp: base_ok_def same_gateway_def same_session_def same_out_def same_in_def)

lemma same_others: "same_gateway g g' \<Longrightarrow> others_ok r g \<Longrightarrow> others_ok r g'"
  by (simp add: others_ok_def same_registered same_session_ok)

lemma same_inv: "same_gateway g g' \<Longrightarrow> gateway_inv g \<Longrightarrow> gateway_inv g'"
  using same_base same_session_ok same_registered by (auto simp: gateway_inv_def)

lemma same_current: "same_gateway g g' \<Longrightarrow> isCurrentGatewayStream g' r i st = isCurrentGatewayStream g r i st"
  by (simp add: isCurrentGatewayStream_def same_gateway_def same_session_def same_stream_def isCurrentGatewayTransport_def)

lemma same_plain:
  "gw_sessions g' = gw_sessions g \<Longrightarrow> gw_fresh g' = gw_fresh g \<Longrightarrow> gw_object g' = gw_object g \<Longrightarrow> gw_stream g' = gw_stream g \<Longrightarrow>
   gw_out g' = gw_out g \<Longrightarrow> gw_in g' = gw_in g \<Longrightarrow> gw_connection g' = gw_connection g \<Longrightarrow> gw_killSwitch g' = gw_killSwitch g \<Longrightarrow>
   same_gateway g g'"
  by (simp add: same_gateway_def)

lemma same_effects [same]:
  "same_gateway g g' \<Longrightarrow> same_gateway g (log_effect e g')"
  "same_gateway g g' \<Longrightarrow> same_gateway g (close_socket k n reason g')"
  "same_gateway g g' \<Longrightarrow> same_gateway g (start_send k input g')"
  "same_gateway g g' \<Longrightarrow> same_gateway g (on_exchange x h g')"
proof -
  have log: "same_gateway h (log_effect e h)" for e h by (rule same_plain) (simp_all add: log_effect_def)
  show "same_gateway g g' \<Longrightarrow> same_gateway g (log_effect e g')" using log same_trans by blast
  show "same_gateway g g' \<Longrightarrow> same_gateway g (close_socket k n reason g')"
    by (erule same_trans, rule same_plain) (simp_all add: close_socket_def log_effect_def)
  show "same_gateway g g' \<Longrightarrow> same_gateway g (start_send k input g')"
    using log same_trans by (fastforce simp: start_send_def split: sum.split)
  show "same_gateway g g' \<Longrightarrow> same_gateway g (on_exchange x h g')"
    by (erule same_trans, rule same_plain) (simp_all add: on_exchange_def)
qed

lemma same_answers [same]:
  "same_gateway g g' \<Longrightarrow> same_gateway g (writeGatewayError x n c g')"
  "same_gateway g g' \<Longrightarrow> same_gateway g (writeRawError x n c g')"
  "same_gateway g g' \<Longrightarrow> same_gateway g (destroy_response x g')"
  "same_gateway g g' \<Longrightarrow> same_gateway g (destroy_request x g')"
  "same_gateway g g' \<Longrightarrow> same_gateway g (disposeReviewBinding p r g')"
  "same_gateway g g' \<Longrightarrow> same_gateway g (sendReset t i c g')"
  "same_gateway g g' \<Longrightarrow> same_gateway g (sendReset_failed t g')"
  by (simp_all add: writeGatewayError_def writeRawError_def destroy_response_def destroy_request_def disposeReviewBinding_def
      sendReset_def sendReset_failed_def same_effects)

lemma same_on_session [same]:
  "same_gateway g g' \<Longrightarrow> (\<And>s. same_session s (h s)) \<Longrightarrow> same_gateway g (on_session r h g')"
  by (erule same_trans) (simp add: same_gateway_def on_session_def)

lemma same_on_stream [same]:
  "same_gateway g g' \<Longrightarrow> (\<And>s. same_stream s (h s)) \<Longrightarrow> same_gateway g (on_stream st h g')"
  by (erule same_trans) (simp add: same_gateway_def on_stream_def)

lemma same_on_connection [same]:
  "same_gateway g g' \<Longrightarrow> (\<And>cn. same_connection cn (h cn)) \<Longrightarrow> same_gateway g (on_connection k h g')"
  by (erule same_trans) (simp add: same_gateway_def on_connection_def)

lemma same_set_out: "same_out (gw_out g w) f \<Longrightarrow> same_gateway g (set_out w f g)"
  by (simp add: same_gateway_def set_out_def)

lemma same_set_in: "same_in (gw_in g w) f \<Longrightarrow> same_gateway g (set_in w f g)"
  by (simp add: same_gateway_def set_in_def)

lemma same_timers [same]:
  "same_gateway g g' \<Longrightarrow> same_gateway g (clearRequestInactivityTimer st g')"
  "same_gateway g g' \<Longrightarrow> same_gateway g (clearGatewayStreamTimers st g')"
  by (simp_all add: clearRequestInactivityTimer_def clearGatewayStreamTimers_def Let_def same_on_stream same_stream_def)

text \<open>Credit operations keep the ids.\<close>

lemma same_out_ops: "same_out f (snd (update_credit f i n))" "same_out f (snd (take_credit f i n k))"
  by (simp_all add: same_out_def update_credit_ids take_credit_ids update_inv take_inv)

lemma same_in_ops:
  "same_in w (snd (gateway_consume w i n))" "same_in w (snd (gateway_release w i n))" "same_in w (snd (gateway_consumeRetiredData w i n))"
  by (simp_all add: same_in_def in_ok_def inbound_consume_ids inbound_release_ids inbound_retired_ids gateway_consume_inv
      gateway_release_inv gateway_consumeRetiredData_inv)

lemma after_out_update:
  assumes "\<And>g'. same_gateway g g' \<Longrightarrow> Q () g' \<and> E g'"
  shows "after (out_update w i n) Q E g"
  using assms [OF same_set_out [OF same_out_ops(1) [of "gw_out g w" i "Integral n"]]]
  by (auto simp: after_def out_update_def split: prod.splits sum.splits)

lemma after_in_op:
  assumes "same_in (gw_in g w) (snd (h (gw_in g w)))" "\<And>g'. same_gateway g g' \<Longrightarrow> Q () g' \<and> E g'"
  shows "after (in_op w h) Q E g"
  using assms(2) [OF same_set_in [OF assms(1)]] by (auto simp: after_def in_op_def split: prod.splits sum.splits)

end
