(* ===== verification/GatewayDispose.thy ===== *)
theory GatewayDispose
  imports GatewayInv
begin

text \<open>
  Disposing of sessions and removing streams, \<^verbatim>\<open>gateway-session-lifecycle.ts\<close> and \<^verbatim>\<open>removeGatewayStream\<close>: in a
  store that satisfies the invariant they never throw, keep the invariant, and touch nothing but the
  session they are called for.
\<close>

section \<open>Changes confined to one session\<close>

definition confined :: "nat \<Rightarrow> gateway \<Rightarrow> gateway \<Rightarrow> bool" where
  "confined r g g' = (gw_fresh g' = gw_fresh g \<and> gw_killSwitch g' = gw_killSwitch g \<and>
     (\<forall>r'. r' \<noteq> r \<longrightarrow> same_session (gw_object g r') (gw_object g' r')) \<and>
     g_tunnelId (gw_object g' r) = g_tunnelId (gw_object g r) \<and>
     captureGatewayTransport (gw_object g' r) = captureGatewayTransport (gw_object g r) \<and>
     (\<forall>st. gs_session (gw_stream g' st) = gs_session (gw_stream g st) \<and> gs_streamId (gw_stream g' st) = gs_streamId (gw_stream g st) \<and>
        gs_transport (gw_stream g' st) = gs_transport (gw_stream g st)) \<and>
     (\<forall>st. gs_session (gw_stream g st) \<noteq> r \<longrightarrow> gs_cancelled (gw_stream g' st) = gs_cancelled (gw_stream g st)) \<and>
     (\<forall>w. w \<noteq> g_outboundFlow (gw_object g r) \<longrightarrow> same_out (gw_out g w) (gw_out g' w)) \<and>
     (\<forall>w. w \<noteq> g_inboundFlow (gw_object g r) \<longrightarrow> same_in (gw_in g w) (gw_in g' w)) \<and>
     (\<forall>w. flow_inv (gw_out g w) \<longrightarrow> flow_inv (gw_out g' w)) \<and> (\<forall>w. in_ok (gw_in g w) \<longrightarrow> in_ok (gw_in g' w)) \<and>
     (\<forall>k. same_connection (gw_connection g k) (gw_connection g' k)))"

lemma capture_eq:
  "captureGatewayTransport s' = captureGatewayTransport s \<longleftrightarrow>
   g_socket s' = g_socket s \<and> g_generation s' = g_generation s \<and> g_outboundFlow s' = g_outboundFlow s \<and> g_inboundFlow s' = g_inboundFlow s"
  by (simp add: captureGatewayTransport_def)

lemma confined_same: "same_gateway g g' \<Longrightarrow> confined r g g'"
  by (auto simp: confined_def same_gateway_def same_session_def same_stream_def same_out_def same_in_def capture_eq)

lemma same_session_trans: "same_session s s' \<Longrightarrow> same_session s' s'' \<Longrightarrow> same_session s s''"
  by (simp add: same_session_def)

lemma same_flow_trans: "same_out f f' \<Longrightarrow> same_out f' f'' \<Longrightarrow> same_out f f''" "same_in w w' \<Longrightarrow> same_in w' w'' \<Longrightarrow> same_in w w''"
  by (simp_all add: same_out_def same_in_def)

lemma same_connection_trans: "same_connection cn cn' \<Longrightarrow> same_connection cn' cn'' \<Longrightarrow> same_connection cn cn''"
  by (simp add: same_connection_def)

lemma confined_trans: "confined r g g' \<Longrightarrow> confined r g' g'' \<Longrightarrow> confined r g g''"
  unfolding confined_def capture_eq by (auto intro: same_session_trans same_flow_trans same_connection_trans)

lemma confined_refl [simp]: "confined r g g"
  by (simp add: confined_same)

lemma confined_sameI: "confined r g g' \<Longrightarrow> same_gateway g' g'' \<Longrightarrow> confined r g g''"
  using confined_trans confined_same by blast

lemma confined_session_ok:
  assumes "base_ok g" "is_registered g r" "is_registered g r'" "r' \<noteq> r" "confined r g g'" "session_ok g r'"
  shows "session_ok g' r'"
proof -
  have ss: "same_session (gw_object g r') (gw_object g' r')" using assms(4,5) by (simp add: confined_def)
  then have e: "lifecycle (gw_object g' r') = lifecycle (gw_object g r')" "terminated (gw_object g' r') = terminated (gw_object g r')"
    "g_outboundFlow (gw_object g' r') = g_outboundFlow (gw_object g r')" "g_inboundFlow (gw_object g' r') = g_inboundFlow (gw_object g r')"
    by (simp_all add: same_session_def)
  have "g_outboundFlow (gw_object g r') \<noteq> g_outboundFlow (gw_object g r)" "g_inboundFlow (gw_object g r') \<noteq> g_inboundFlow (gw_object g r)"
    using assms(1-4) by (auto simp: base_ok_def)
  then have "same_out (gw_out g (g_outboundFlow (gw_object g r'))) (gw_out g' (g_outboundFlow (gw_object g r')))"
    "same_in (gw_in g (g_inboundFlow (gw_object g r'))) (gw_in g' (g_inboundFlow (gw_object g r')))"
    using assms(5) by (auto simp: confined_def)
  then have "flows_ok g' (gw_object g' r') = flows_ok g (gw_object g r')"
    by (simp add: flows_ok_def same_out_def same_in_def e same_session_ids [OF ss])
  moreover have "carrier_ok g' r' = carrier_ok g r'" using assms(5) by (intro same_carrier [OF ss]) (simp add: confined_def)
  moreover have "gw_killSwitch g' = gw_killSwitch g" using assms(5) by (simp add: confined_def)
  ultimately show ?thesis using assms(6) by (simp add: session_ok_def e same_lifecycle [OF ss])
qed

lemma confined_entries:
  assumes "r' \<noteq> r" "confined r g g'" "entries_ok g r'"
  shows "entries_ok g' r'"
proof -
  have ss: "same_session (gw_object g r') (gw_object g' r')" using assms(1,2) by (simp add: confined_def)
  have streams: "g_streams (gw_object g' r') = g_streams (gw_object g r')" "g_streamIds (gw_object g' r') = g_streamIds (gw_object g r')"
    "stream_limit (gw_object g' r') = stream_limit (gw_object g r')"
    "captureGatewayTransport (gw_object g' r') = captureGatewayTransport (gw_object g r')"
    using ss by (simp_all add: same_session_def stream_limit_def captureGatewayTransport_def)
  have "stream_ok g' r' i st" if "stream_ok g r' i st" for i st
    using that assms(1,2) streams(4) by (simp add: stream_ok_def confined_def)
  with assms(3) show ?thesis by (simp add: entries_ok_def streams same_session_ids [OF ss])
qed

lemma confined_registered:
  assumes "confined r g g'" "gw_sessions g' = gw_sessions g"
  shows "is_registered g' r' = is_registered g r'"
  using assms by (cases "r' = r") (auto simp: confined_def is_registered_def same_session_def)

lemma confined_flows:
  assumes "confined r g g'"
  shows "g_outboundFlow (gw_object g' r') = g_outboundFlow (gw_object g r')" "g_inboundFlow (gw_object g' r') = g_inboundFlow (gw_object g r')"
    "g_tunnelId (gw_object g' r') = g_tunnelId (gw_object g r')" "r' \<noteq> r \<Longrightarrow> g_streams (gw_object g' r') = g_streams (gw_object g r')"
    "g_socket (gw_object g' r') = g_socket (gw_object g r')"
  using assms by (cases "r' = r"; simp add: confined_def capture_eq same_session_def)+

lemma confined_kept:
  assumes "base_ok g" "others_ok r g" "is_registered g r" "confined r g g'" "gw_sessions g' = gw_sessions g"
    "entries_ok g' r"
  shows "base_ok g'" "others_ok r g'"
proof -
  note reg = confined_registered [OF assms(4,5)]
  show "others_ok r g'"
    using assms(2) confined_session_ok [OF assms(1,3) _ _ assms(4)] by (auto simp: others_ok_def reg)
  have "entries_ok g' r'" if "is_registered g r'" for r'
    using that assms(1,6) confined_entries [OF _ assms(4)] by (cases "r' = r") (auto simp: base_ok_def)
  moreover have "g_streams (gw_object g' r') = []" if "\<not> is_registered g r'" for r'
    using that assms(1,3) confined_flows(4) [OF assms(4), of r'] by (cases "r' = r") (auto simp: base_ok_def)
  moreover have "gw_fresh g' = gw_fresh g" "\<forall>w. flow_inv (gw_out g' w)" "\<forall>w. in_ok (gw_in g' w)"
    using assms(1,4) by (auto simp: base_ok_def confined_def)
  ultimately show "base_ok g'"
    using assms(1) by (simp add: base_ok_def reg assms(5) confined_flows(1-3,5) [OF assms(4)])
qed

lemma confined_removed:
  assumes "base_ok g" "others_ok r g" "is_registered g r" "confined r g g'"
    "gw_sessions g' = map_delete (gw_sessions g) (g_tunnelId (gw_object g r))" "g_streams (gw_object g' r) = []"
  shows "gateway_inv g'" "is_registered g' r' \<longleftrightarrow> r' \<noteq> r \<and> is_registered g r'"
proof -
  have key: "g_tunnelId (gw_object g r') \<noteq> g_tunnelId (gw_object g r)" if "is_registered g r'" "r' \<noteq> r" for r'
    using that assms(3) by (auto simp: is_registered_def)
  have reg: "is_registered g' r' \<longleftrightarrow> r' \<noteq> r \<and> is_registered g r'" for r'
    using key [of r'] by (auto simp: is_registered_def assms(5) jsmap_simps confined_flows(3) [OF assms(4)] split: if_splits)
  then show "is_registered g' r' \<longleftrightarrow> r' \<noteq> r \<and> is_registered g r'" .
  have "session_ok g' r'" if "is_registered g' r'" for r'
    using that assms(2) confined_session_ok [OF assms(1,3) _ _ assms(4)] by (auto simp: others_ok_def reg)
  moreover have "entries_ok g' r'" if "is_registered g' r'" for r'
    using that assms(1) confined_entries [OF _ assms(4)] by (auto simp: reg base_ok_def)
  moreover have "g_streams (gw_object g' r') = []" if "\<not> is_registered g' r'" for r'
    using that assms(1,6) confined_flows(4) [OF assms(4), of r'] by (cases "r' = r") (auto simp: reg base_ok_def)
  moreover have "gw_fresh g' = gw_fresh g" "\<forall>w. flow_inv (gw_out g' w)" "\<forall>w. in_ok (gw_in g' w)"
    using assms(1,4) by (auto simp: base_ok_def confined_def)
  ultimately show "gateway_inv g'"
    using assms(1) unfolding gateway_inv_def
    by (simp add: base_ok_def reg) (auto simp: assms(5) jsmap_simps confined_flows(1-3,5) [OF assms(4)] split: if_splits)
qed

lemma confined_on_session:
  "confined r g g' \<Longrightarrow> (\<And>s. g_tunnelId (h s) = g_tunnelId s \<and> captureGatewayTransport (h s) = captureGatewayTransport s) \<Longrightarrow>
   confined r g (on_session r h g')"
  by (erule confined_trans) (simp add: confined_def on_session_def)

lemma confined_cancel:
  assumes "confined r g g'" "gs_session (gw_stream g st) = r"
  shows "confined r g (on_stream st (\<lambda>s. s\<lparr>gs_cancelled := True\<rparr>) g')"
proof (rule confined_trans [OF assms(1)])
  have "gs_session (gw_stream g' st) = r" using assms by (simp add: confined_def)
  then show "confined r g' (on_stream st (\<lambda>s. s\<lparr>gs_cancelled := True\<rparr>) g')" by (auto simp: confined_def on_stream_def)
qed

lemma confined_set_out:
  assumes "confined r g g'" "w = g_outboundFlow (gw_object g r)" "flow_inv (gw_out g' w) \<longrightarrow> flow_inv f"
  shows "confined r g (set_out w f g')"
proof (rule confined_trans [OF assms(1)])
  have "g_outboundFlow (gw_object g' r) = w" using confined_flows(1) [OF assms(1)] assms(2) by simp
  then show "confined r g' (set_out w f g')" using assms(3) by (simp add: confined_def set_out_def)
qed

lemma confined_set_in:
  assumes "confined r g g'" "w = g_inboundFlow (gw_object g r)" "in_ok (gw_in g' w) \<longrightarrow> in_ok f"
  shows "confined r g (set_in w f g')"
proof (rule confined_trans [OF assms(1)])
  have "g_inboundFlow (gw_object g' r) = w" using confined_flows(2) [OF assms(1)] assms(2) by simp
  then show "confined r g' (set_in w f g')" using assms(3) by (simp add: confined_def set_in_def)
qed

lemma confined_out_ops:
  assumes "confined r g g'" "w = g_outboundFlow (gw_object g r)"
  shows "confined r g (out_close w g')" "confined r g (out_closeStream w i g')"
  unfolding out_close_def out_closeStream_def
  by (rule confined_set_out [OF assms], simp add: close_window_inv closeStream_inv)+

text \<open>The store outside the heap an operation works on.\<close>

lemma store_simps [simp]:
  "gw_object (on_stream st h g) = gw_object g" "gw_sessions (on_stream st h g) = gw_sessions g"
  "gw_out (on_stream st h g) = gw_out g" "gw_in (on_stream st h g) = gw_in g"
  "gw_sessions (on_session r k g) = gw_sessions g" "gw_stream (on_session r k g) = gw_stream g"
  "gw_out (on_session r k g) = gw_out g" "gw_in (on_session r k g) = gw_in g"
  "gw_object (on_session r k g) r' = (if r' = r then k (gw_object g r) else gw_object g r')"
  "gw_stream (on_stream st h g) st' = (if st' = st then h (gw_stream g st) else gw_stream g st')"
  "gw_object (set_out w f g) = gw_object g" "gw_sessions (set_out w f g) = gw_sessions g" "gw_stream (set_out w f g) = gw_stream g"
  "gw_in (set_out w f g) = gw_in g" "gw_out (set_out w f g) w' = (if w' = w then f else gw_out g w')"
  "gw_object (set_in w v g) = gw_object g" "gw_sessions (set_in w v g) = gw_sessions g" "gw_stream (set_in w v g) = gw_stream g"
  "gw_out (set_in w v g) = gw_out g" "gw_in (set_in w v g) w' = (if w' = w then v else gw_in g w')"
  "gw_connection (on_stream st h g) = gw_connection g" "gw_connection (on_session r k g) = gw_connection g"
  "gw_connection (set_out w f g) = gw_connection g" "gw_connection (set_in w v g) = gw_connection g"
  "gw_killSwitch (on_stream st h g) = gw_killSwitch g" "gw_killSwitch (on_session r k g) = gw_killSwitch g"
  "gw_killSwitch (set_out w f g) = gw_killSwitch g" "gw_killSwitch (set_in w v g) = gw_killSwitch g"
  "gw_fresh (on_stream st h g) = gw_fresh g" "gw_fresh (on_session r k g) = gw_fresh g"
  "gw_fresh (set_out w f g) = gw_fresh g" "gw_fresh (set_in w v g) = gw_fresh g"
  by (simp_all add: on_stream_def on_session_def set_out_def set_in_def)

lemma carrier_confined:
  assumes "confined r g g'" "carrier_ok g r" "\<And>cn. attempt_ok (lifecycle (gw_object g' r)) cn"
  shows "carrier_ok g' r"
proof -
  have "g_socket (gw_object g' r) = g_socket (gw_object g r)" using assms(1) by (simp add: confined_def capture_eq)
  moreover have "same_connection (gw_connection g k) (gw_connection g' k)" for k using assms(1) by (simp add: confined_def)
  ultimately show ?thesis using assms(2,3) by (simp add: carrier_ok_def same_connection_def)
qed

lemma effect_simps [simp]:
  "gw_object (log_effect e g) = gw_object g" "gw_sessions (log_effect e g) = gw_sessions g" "gw_stream (log_effect e g) = gw_stream g"
  "gw_object (close_socket k n m g) = gw_object g" "gw_sessions (close_socket k n m g) = gw_sessions g" "gw_stream (close_socket k n m g) = gw_stream g"
  "gw_object (on_exchange x h g) = gw_object g" "gw_sessions (on_exchange x h g) = gw_sessions g" "gw_stream (on_exchange x h g) = gw_stream g"
  "gw_object (start_send k input g) = gw_object g" "gw_sessions (start_send k input g) = gw_sessions g"
  "gw_stream (start_send k input g) = gw_stream g"
  by (simp_all add: log_effect_def close_socket_def on_exchange_def start_send_def split: sum.split)

lemma answer_simps [simp]:
  "gw_object (writeGatewayError x n c g) = gw_object g" "gw_stream (writeGatewayError x n c g) = gw_stream g"
  "gw_object (destroy_response x g) = gw_object g" "gw_stream (destroy_response x g) = gw_stream g"
  "gw_object (destroy_request x g) = gw_object g" "gw_stream (destroy_request x g) = gw_stream g"
  "gw_object (writeRawError x n c g) = gw_object g" "gw_stream (writeRawError x n c g) = gw_stream g"
  "gw_object (disposeReviewBinding p r g) = gw_object g" "gw_stream (disposeReviewBinding p r g) = gw_stream g"
  "gw_object (sendReset t i c g) = gw_object g" "gw_stream (sendReset t i c g) = gw_stream g"
  "gw_sessions (disposeReviewBinding p r g) = gw_sessions g" "gw_sessions (sendReset t i c g) = gw_sessions g"
  "gw_object (clearGatewayStreamTimers st g) = gw_object g" "gw_sessions (clearGatewayStreamTimers st g) = gw_sessions g"
  "gw_in (clearGatewayStreamTimers st g) = gw_in g" "gw_out (clearGatewayStreamTimers st g) = gw_out g"
  by (simp_all add: writeGatewayError_def destroy_response_def destroy_request_def writeRawError_def disposeReviewBinding_def
      sendReset_def clearGatewayStreamTimers_def clearRequestInactivityTimer_def Let_def)

lemma after_in_close:
  assumes "in_ok (gw_in g w)"
    "\<And>v. in_ok v \<Longrightarrow> in_ids v = in_ids (gw_in g w) - {i} \<Longrightarrow> Q () (set_in w v g)"
  shows "after (in_closeStream w i) Q E g"
proof -
  from inbound_close_ids [of "gw_in g w" i] assms(1) obtain v where
    v: "gateway_closeStream (gw_in g w) i = (Inr (), v)" "in_ids v = in_ids (gw_in g w) - {i}" by (auto simp: in_ok_def)
  then have "in_ok v"
    using assms(1) gateway_closeStream_inv [of "gw_in g w" i] inbound_initial(4) [of "gw_in g w" i] by (simp add: in_ok_def)
  with v assms(2) show ?thesis by (simp add: after_def in_closeStream_def in_op_def)
qed

lemma after_in_retire:
  assumes "in_ok (gw_in g w)" "positive_safe_int (Integral i)"
    "\<And>v. in_ok v \<Longrightarrow> in_ids v = in_ids (gw_in g w) - {i} \<Longrightarrow> Q () (set_in w v g)"
  shows "after (in_retireStream w i) Q E g"
proof -
  from inbound_retire_ids [of "gw_in g w" i] assms(1,2) obtain v where
    v: "gateway_retireStream (gw_in g w) i = (Inr (), v)" "in_ids v = in_ids (gw_in g w) - {i}" by (auto simp: in_ok_def)
  then have "in_ok v"
    using assms(1) gateway_retireStream_inv [of "gw_in g w" i] inbound_initial(5) [of "gw_in g w" i] by (simp add: in_ok_def)
  with v assms(3) show ?thesis by (simp add: after_def in_retireStream_def in_op_def)
qed

lemma close_exchange_simps [simp]:
  "gw_object (close_exchange c s g) = gw_object g" "gw_stream (close_exchange c s g) = gw_stream g"
  "gw_sessions (close_exchange c s g) = gw_sessions g" "gw_in (close_exchange c s g) = gw_in g" "gw_out (close_exchange c s g) = gw_out g"
  by (simp_all add: close_exchange_def Let_def writeGatewayError_def destroy_response_def destroy_request_def on_exchange_def log_effect_def)

lemma same_close_exchange [same]: "same_gateway g g' \<Longrightarrow> same_gateway g (close_exchange c s g')"
  by (simp add: close_exchange_def Let_def same)

section \<open>Disposing of a session\<close>

lemma closing_step:
  assumes g: "confined r g0 g" "gw_sessions g = gw_sessions g0" "gw_object g = gw_object g0" "\<forall>w. in_ok (gw_in g w)"
    and st: "gs_session (gw_stream g0 st) = r" "gs_transport (gw_stream g0 st) = captureGatewayTransport (gw_object g0 r)"
  shows "after (closeGatewayStream_step c (i, st))
    (\<lambda>_ g'. confined r g0 g' \<and> gw_sessions g' = gw_sessions g0 \<and> gw_object g' = gw_object g0 \<and> (\<forall>w. in_ok (gw_in g' w))) (\<lambda>_. False) g"
proof -
  let ?g = "on_stream st (\<lambda>s. s\<lparr>gs_cancelled := True\<rparr>) g"
  have tr: "gs_transport (gw_stream g st) = captureGatewayTransport (gw_object g0 r)" using g(1) st(2) by (simp add: confined_def)
  have c1: "confined r g0 ?g" by (rule confined_cancel [OF g(1) st(1)])
  show ?thesis
    unfolding closeGatewayStream_step_def prod.case
  proof (simp only: wp, rule after_in_close, goal_cases)
    case 1
    then show ?case using g(4) by simp
  next
    case (2 v)
    let ?h = "set_in (g_inboundFlow (gw_object g0 r)) v ?g"
    let ?h' = "out_closeStream (g_outboundFlow (gw_object g0 r)) i ?h"
    have "confined r g0 ?h" by (rule confined_set_in [OF c1 refl]) (simp add: 2(1))
    from confined_out_ops(2) [OF this refl] have c2: "confined r g0 ?h'" .
    have "same_gateway ?h' (close_exchange c s (clearGatewayStreamTimers st ?h'))" for s by (simp add: same)
    from confined_sameI [OF c2 this] show ?case using g 2(1)
      by (simp add: tr captureGatewayTransport_def out_closeStream_def)
  qed
qed

lemma closing_streams:
  assumes "base_ok g"
  shows "after (closeGatewayStreams r c)
    (\<lambda>_ g'. confined r g g' \<and> gw_sessions g' = gw_sessions g \<and> gw_object g' = (gw_object g)(r := (gw_object g r)\<lparr>g_streams := []\<rparr>))
    (\<lambda>_. False) g"
proof -
  let ?I = "\<lambda>g'. confined r g g' \<and> gw_sessions g' = gw_sessions g \<and> gw_object g' = gw_object g \<and> (\<forall>w. in_ok (gw_in g' w))"
  have ok: "stream_ok g r i st" if "(i, st) \<in> set (g_streams (gw_object g r))" for i st
  proof -
    from that assms have "is_registered g r" by (auto simp: base_ok_def)
    with assms have "entries_ok g r" by (simp add: base_ok_def)
    with that show ?thesis by (simp add: entries_ok_def map_of_eq_Some_iff)
  qed
  have "?I g" using assms by (simp add: base_ok_def)
  moreover have "after (closeGatewayStream_step c x) (\<lambda>_. ?I) (\<lambda>_. False) h" if "x \<in> set (g_streams (gw_object g r))" "?I h" for x h
    using closing_step [of r g h] that ok by (cases x) (auto simp: stream_ok_def)
  ultimately have "after (for_each (closeGatewayStream_step c) (g_streams (gw_object g r))) (\<lambda>_. ?I) (\<lambda>_. False) g"
    by (rule after_for_each)
  then show ?thesis
    unfolding closeGatewayStreams_def wp
    by (rule after_mono) (auto simp: capture_eq fun_eq_iff intro!: confined_on_session)
qed

text \<open>What disposing leaves: the session is terminal and gone from the map, everything else as it was.\<close>

definition disposed :: "nat \<Rightarrow> gateway \<Rightarrow> gateway \<Rightarrow> bool" where
  "disposed r g g' = (gateway_inv g' \<and> confined r g g' \<and> (\<forall>r'. is_registered g' r' \<longleftrightarrow> r' \<noteq> r \<and> is_registered g r') \<and>
     (is_registered g r \<longrightarrow> terminated (gw_object g' r)))"

lemma entries_okD: "base_ok g \<Longrightarrow> is_registered g r \<Longrightarrow> entries_ok g r"
  by (simp add: base_ok_def)

lemma entries_subset:
  assumes "entries_ok g r" "confined r g g'" "g_streams (gw_object g' r) = g_streams (gw_object g r)"
    "g_streamIds (gw_object g' r) = g_streamIds (gw_object g r)" "g_config (gw_object g' r) = g_config (gw_object g r)"
    "session_ids (gw_object g' r) \<subseteq> session_ids (gw_object g r)" "\<And>st. gs_cancelled (gw_stream g' st) = gs_cancelled (gw_stream g st)"
  shows "entries_ok g' r"
  using assms by (auto simp: entries_ok_def stream_ok_def confined_def stream_limit_def)

lemma candidate_disposed:
  assumes "base_ok g" "others_ok r g" "is_registered g r"
    "\<And>s. same_session (s\<lparr>terminated := terminated (h s)\<rparr>) (h s)"
  shows "base_ok (disposeActivationCandidate r (on_session r h g))" "others_ok r (disposeActivationCandidate r (on_session r h g))"
    "confined r g (disposeActivationCandidate r (on_session r h g))"
proof -
  let ?g = "disposeActivationCandidate r (on_session r h g)"
  have h: "g_tunnelId (h s) = g_tunnelId s" "captureGatewayTransport (h s) = captureGatewayTransport s" "g_streams (h s) = g_streams s"
    "g_streamIds (h s) = g_streamIds s" "g_config (h s) = g_config s" "g_outboundFlow (h s) = g_outboundFlow s" for s
    using assms(4) [of s] by (simp_all add: same_session_def capture_eq)
  show c: "confined r g ?g"
    unfolding disposeActivationCandidate_def Let_def
    by (rule confined_out_ops(1)) (auto simp: h capture_eq intro!: confined_on_session)
  have "entries_ok ?g r"
    by (rule entries_subset [OF entries_okD [OF assms(1,3)] c])
      (auto simp: disposeActivationCandidate_def out_close_def session_ids_def h)
  from confined_kept [OF assms(1-3) c _ this] show "base_ok ?g" "others_ok r ?g"
    by (simp_all add: disposeActivationCandidate_def out_close_def)
qed

lemma disposing:
  assumes "base_ok g" "others_ok r g"
  shows "after (disposeGatewaySession p r c) (\<lambda>b g'. b = is_registered g r \<and> disposed r g g') (\<lambda>_. False) g"
proof (cases "is_registered g r")
  case False
  then have "gateway_inv g" using assms by (rule_tac others_gateway_inv) auto
  with False show ?thesis by (auto simp: disposeGatewaySession_def wp disposed_def)
next
  case True
  let ?h = "\<lambda>s. s\<lparr>terminated := True, g_expiryTimer := False\<rparr>"
  let ?g = "disposeActivationCandidate r (on_session r ?h g)"
  have c: "base_ok ?g" "others_ok r ?g" "confined r g ?g"
    by (rule candidate_disposed [OF assms True], simp add: same_session_def)+
  have finished: "disposed r g (delete_session r (disposeReviewBinding p r (out_close (g_outboundFlow (gw_object g' r)) g')))"
    if "confined r ?g g'" "gw_sessions g' = gw_sessions ?g" "gw_object g' = (gw_object ?g)(r := (gw_object ?g r)\<lparr>g_streams := []\<rparr>)" for g'
  proof -
    let ?g'' = "disposeReviewBinding p r (out_close (g_outboundFlow (gw_object g' r)) g')"
    have c1: "confined r g g'" using c(3) that(1) confined_trans by blast
    then have w: "g_outboundFlow (gw_object g' r) = g_outboundFlow (gw_object g r)" "g_tunnelId (gw_object g' r) = g_tunnelId (gw_object g r)"
      by (simp_all add: confined_flows)
    have "same_gateway (out_close (g_outboundFlow (gw_object g' r)) g') ?g''" by (simp add: same)
    with confined_out_ops(1) [OF c1 w(1)] have c2: "confined r g ?g''" using confined_sameI by blast
    then have c3: "confined r g (delete_session r ?g'')" by (simp add: confined_def delete_session_def)
    have gone: "terminated (gw_object (delete_session r ?g'') r)" "g_streams (gw_object (delete_session r ?g'') r) = []"
      by (simp_all add: delete_session_def that(3) out_close_def disposeActivationCandidate_def)
    have "gw_sessions (delete_session r ?g'') = map_delete (gw_sessions g) (g_tunnelId (gw_object g r))"
      using w(2) by (simp add: delete_session_def that(2) out_close_def disposeActivationCandidate_def)
    from confined_removed [OF assms True c3 this gone(2)] c3 gone(1) show ?thesis by (simp add: disposed_def)
  qed
  have "after (closeGatewayStreams r c)
      (\<lambda>_ g'. disposed r g (delete_session r (disposeReviewBinding p r (out_close (g_outboundFlow (gw_object g' r)) g')))) (\<lambda>_. False) ?g"
    by (rule after_mono [OF closing_streams [OF c(1)]]) (use finished in auto)
  with True show ?thesis by (simp add: disposeGatewaySession_def wp)
qed

lemma disposed_same: "disposed r g g' \<Longrightarrow> same_gateway g' g'' \<Longrightarrow> disposed r g g''"
proof -
  assume d: "disposed r g g'" and s: "same_gateway g' g''"
  have "terminated (gw_object g'' r) = terminated (gw_object g' r)" using s by (simp add: same_gateway_def same_session_def)
  with d same_inv [OF s] confined_sameI [OF _ s] same_registered [OF s] show ?thesis by (simp add: disposed_def)
qed

lemma expiring:
  "base_ok g \<Longrightarrow> others_ok r g \<Longrightarrow> after (expireGatewaySession p r reason) (\<lambda>_. disposed r g) (\<lambda>_. False) g"
  unfolding expireGatewaySession_def wp
  by (erule after_mono [OF disposing]) (auto simp: Let_def wp intro!: same elim!: disposed_same)

lemma terminating:
  "base_ok g \<Longrightarrow> others_ok r g \<Longrightarrow> after (terminateGatewaySession p r reason n) (\<lambda>_. disposed r g) (\<lambda>_. False) g"
  unfolding terminateGatewaySession_def wp
  by (erule after_mono [OF disposing]) (auto simp: Let_def wp intro!: same elim!: disposed_same)

section \<open>Removing a stream\<close>

lemma stream_closed_transition:
  assumes "0 < activeStreamCount a"
  obtains (expired) reason t where "transitionSession (ACTIVE a) (STREAM_CLOSED now) policy = Inr (EXPIRED reason t)"
  | (active) n where "transitionSession (ACTIVE a) (STREAM_CLOSED now) policy =
      Inr (ACTIVE (a\<lparr>activeStreamCount := activeStreamCount a - 1, lastStreamClosedAt := n\<rparr>))"
proof (cases "activatedAt a + maxTtlMs policy \<le> now")
  case True
  with assms show thesis using expired [of MAX_TTL now] by (simp add: transitionSession_def expireActiveIfNeeded_eq)
next
  case False
  with assms show thesis using active by (simp add: transitionSession_def expireActiveIfNeeded_eq)
qed

lemma current_stream:
  assumes "gateway_inv g" "isCurrentGatewayStream g r i st"
  obtains a where "is_registered g r" "entries_ok g r" "session_ok g r" "stream_ok g r i st" "lifecycle (gw_object g r) = ACTIVE a"
    "map_get (g_streams (gw_object g r)) i = Some st"
proof -
  from assms(2) have m: "map_get (g_streams (gw_object g r)) i = Some st" by (simp add: isCurrentGatewayStream_def)
  then have ne: "g_streams (gw_object g r) \<noteq> []" by auto
  with assms(1) have reg: "is_registered g r" by (auto simp: gateway_inv_def base_ok_def)
  with assms(1) have ok: "entries_ok g r" "session_ok g r" by (auto simp: gateway_inv_def base_ok_def)
  with m have "stream_ok g r i st" by (simp add: entries_ok_def)
  moreover obtain a where "lifecycle (gw_object g r) = ACTIVE a"
    using ok(2) ne by (cases "lifecycle (gw_object g r)") (auto simp: session_ok_def)
  ultimately show thesis using that reg ok m by blast
qed

lemma flow_unowned:
  assumes "gateway_inv g" "\<And>r. is_registered g r \<Longrightarrow> g_outboundFlow (gw_object g r) \<noteq> w" "flow_inv f"
  shows "gateway_inv (set_out w f g)"
proof -
  have reg: "is_registered (set_out w f g) r = is_registered g r" for r by (simp add: is_registered_def)
  have "entries_ok (set_out w f g) r = entries_ok g r" for r
    by (simp add: entries_ok_def stream_ok_def set_out_def)
  moreover have "session_ok (set_out w f g) r = session_ok g r" if "is_registered g r" for r
    using assms(2) [OF that] by (simp add: session_ok_def flows_ok_def carrier_ok_def)
  moreover have "gw_fresh (set_out w f g) = gw_fresh g" by (simp add: set_out_def)
  ultimately show ?thesis using assms(1,3) by (simp add: gateway_inv_def base_ok_def reg)
qed

lemma disposed_unowned:
  assumes "base_ok g" "is_registered g r" "disposed r g g'"
  shows "gateway_inv (out_closeStream (g_outboundFlow (gw_object g r)) i g')"
  unfolding out_closeStream_def
proof (rule flow_unowned)
  show "gateway_inv g'" using assms(3) by (simp add: disposed_def)
  then show "flow_inv (snd (closeStream (gw_out g' (g_outboundFlow (gw_object g r))) i))"
    by (simp add: gateway_inv_def base_ok_def closeStream_inv)
  show "g_outboundFlow (gw_object g' r') \<noteq> g_outboundFlow (gw_object g r)" if "is_registered g' r'" for r'
    using assms that confined_flows(1) [of r g g' r'] by (auto simp: disposed_def base_ok_def)
qed

definition marked :: "nat \<Rightarrow> gateway \<Rightarrow> gateway \<Rightarrow> bool" where
  "marked st g g' = (g' = g \<or> g' = on_stream st (\<lambda>s. s\<lparr>gs_cancelled := True\<rparr>) g)"

text \<open>The store after the first half of \<^verbatim>\<open>removeGatewayStream\<close>: everything but the lifecycle.\<close>

lemma removing_entries:
  assumes inv: "gateway_inv g0" and cur: "isCurrentGatewayStream g0 r i st"
    and g: "confined r g0 g" "gw_object g r = (gw_object g0 r)\<lparr>g_streams := map_delete (g_streams (gw_object g0 r)) i, lifecycle := l\<rparr>"
    and others: "\<And>st'. st' \<noteq> st \<Longrightarrow> gs_cancelled (gw_stream g st') = gs_cancelled (gw_stream g0 st')"
  shows "entries_ok g r"
proof -
  obtain a where f: "entries_ok g0 r" "stream_ok g0 r i st" using current_stream [OF inv cur] by metis
  have "stream_ok g r j st'" if "map_get (map_delete (g_streams (gw_object g0 r)) i) j = Some st'" for j st'
  proof -
    from that have j: "j \<noteq> i" "map_get (g_streams (gw_object g0 r)) j = Some st'" by (auto simp: jsmap_simps split: if_splits)
    then have ok: "stream_ok g0 r j st'" using f(1) by (simp add: entries_ok_def)
    with f(2) j(1) have "st' \<noteq> st" by (auto simp: stream_ok_def)
    with ok g(1) others show ?thesis by (simp add: stream_ok_def confined_def)
  qed
  moreover have "map_size (map_delete (g_streams (gw_object g0 r)) i) \<le> map_size (g_streams (gw_object g0 r))"
    by (simp add: length_map_delete_le)
  ultimately show ?thesis
    using f(1) by (auto simp: entries_ok_def g(2) session_ids_def stream_limit_def jsmap_simps split: if_splits)
qed

lemma issued_safe: "ids_ok h \<Longrightarrow> wasIssued h (Integral i) \<Longrightarrow> positive_safe_int (Integral i)"
  by (auto simp: ids_ok_def wasIssued_def MAX_SAFE_INTEGER_def guard_simps)

lemma after_transition [wp]:
  "after (transition p r ev) Q E =
    (\<lambda>g. case transitionSession (lifecycle (gw_object g r)) (ev (gw_clock g)) (p_policy p) of Inl _ \<Rightarrow> E g | Inr l \<Rightarrow> Q l g)"
  by (simp add: after_def transition_def fun_eq_iff split: sum.split)

lemma after_retirement:
  assumes "in_ok (gw_in g w)" "positive_safe_int (Integral i)"
    "\<And>v. in_ok v \<Longrightarrow> in_ids v = in_ids (gw_in g w) - {i} \<Longrightarrow> Q () (set_in w v g)"
  shows "after (case retired of LocalReset \<Rightarrow> in_retireStream w i | Normal \<Rightarrow> in_closeStream w i) Q E g"
  using assms by (cases retired) (auto intro: after_in_retire after_in_close)

lemma map_size_delete: "wf_map m \<Longrightarrow> map_get m k = Some v \<Longrightarrow> map_size (map_delete m k) = map_size m - 1"
proof (induction m)
  case (Cons x m)
  then show ?case by (cases "fst x = k") (auto simp: delete_id map_of_eq_Some_iff split: if_splits)
qed simp

lemma removing:
  assumes inv: "gateway_inv g0" and cur: "isCurrentGatewayStream g0 r i st" and m: "marked st g0 g"
  shows "after (removeGatewayStream p r i st retired)
    (\<lambda>b g'. b \<and> gateway_inv (out_closeStream (g_outboundFlow (gw_object g0 r)) i g')) (\<lambda>_. False) g"
proof -
  obtain a where f: "is_registered g0 r" "entries_ok g0 r" "session_ok g0 r" "stream_ok g0 r i st" "lifecycle (gw_object g0 r) = ACTIVE a"
    "map_get (g_streams (gw_object g0 r)) i = Some st" by (rule current_stream [OF inv cur])
  note base = gateway_inv_others [OF inv, THEN conjunct1] gateway_inv_others [OF inv, THEN conjunct2, of r]
  let ?s = "gw_object g0 r"
  have count: "activeStreamCount a = map_size (g_streams ?s)" using f(3,5) by (simp add: session_ok_def)
  have pos: "0 < activeStreamCount a" using f(6) count by (cases "g_streams ?s") auto
  have idsafe: "positive_safe_int (Integral i)"
    using f(2,6) by (intro issued_safe [of "g_streamIds ?s"]) (auto simp: entries_ok_def session_ids_def)
  let ?w = "g_inboundFlow ?s" and ?o = "g_outboundFlow ?s"
  have cg: "confined r g0 g" "gw_object g = gw_object g0" "gw_sessions g = gw_sessions g0" "gw_in g = gw_in g0" "gw_out g = gw_out g0"
    and others: "\<And>st'. st' \<noteq> st \<Longrightarrow> gs_cancelled (gw_stream g st') = gs_cancelled (gw_stream g0 st')"
    using m f(4) by (auto simp: marked_def stream_ok_def intro: confined_cancel)
  have tr: "gs_transport (gw_stream g st) = captureGatewayTransport ?s" using cg(1) f(4) by (simp add: confined_def stream_ok_def)
  have cur': "isCurrentGatewayStream g r i st" using f(6) by (simp add: isCurrentGatewayStream_def cg(2) tr captureGatewayTransport_def isCurrentGatewayTransport_def)
  let ?g1 = "on_session r (\<lambda>s. s\<lparr>g_streams := map_delete (g_streams s) i\<rparr>) g"
  let ?g2 = "\<lambda>v. clearGatewayStreamTimers st (set_in ?w v ?g1)"
  let ?g3 = "\<lambda>v l. on_session r (\<lambda>s. s\<lparr>lifecycle := l\<rparr>) (?g2 v)"
  have half: "confined r g0 (?g3 v l)" "base_ok (?g3 v l)" "others_ok r (?g3 v l)" "entries_ok (?g3 v l) r"
    if "in_ok v" for v l
  proof -
    have "confined r g0 ?g1" by (rule confined_on_session [OF cg(1)]) (simp add: capture_eq)
    then have "confined r g0 (set_in ?w v ?g1)" by (rule confined_set_in) (simp_all add: that)
    from confined_sameI [OF this, of "?g2 v"] have "confined r g0 (?g2 v)" by (simp add: same)
    then show c: "confined r g0 (?g3 v l)" by (rule confined_on_session) (simp add: capture_eq)
    show e: "entries_ok (?g3 v l) r"
      by (rule removing_entries [OF inv cur c])
        (simp_all add: cg others clearGatewayStreamTimers_def clearRequestInactivityTimer_def Let_def)
    show "base_ok (?g3 v l)" "others_ok r (?g3 v l)"
      by (rule confined_kept [OF base f(1) c _ e], simp add: cg)+
  qed
  have finish: "after (removeGatewayStream p r i st retired)
      (\<lambda>b g'. b \<and> gateway_inv (out_closeStream ?o i g')) (\<lambda>_. False) g"
    if step: "\<And>v. in_ok v \<Longrightarrow> in_ids v = in_ids (gw_in g0 ?w) - {i} \<Longrightarrow>
      case transitionSession (ACTIVE a) (STREAM_CLOSED (gw_clock g)) (p_policy p) of Inl _ \<Rightarrow> False
      | Inr l \<Rightarrow> after (case l of EXPIRED reason _ \<Rightarrow> expireGatewaySession p r (reason_text reason) | _ \<Rightarrow> ret ())
          (\<lambda>_ g'. gateway_inv (out_closeStream ?o i g')) (\<lambda>_. False) (?g3 v l)"
  proof -
    have clock: "gw_clock (?g2 v) = gw_clock g" for v
      by (simp add: clearGatewayStreamTimers_def clearRequestInactivityTimer_def Let_def on_stream_def set_in_def on_session_def)
    show ?thesis
      unfolding removeGatewayStream_def
      apply (simp only: wp)
      using cur' apply (simp only: not_True_eq_False if_False wp tr captureGatewayTransport_def transportEpoch.simps store_simps)
      apply (rule after_retirement)
        apply (use base(1) in \<open>simp add: base_ok_def cg\<close>)
       apply (rule idsafe)
      subgoal for v
        using step [of v] by (simp add: cg f(5) clock wp split: sum.splits)
      done
  qed
  show ?thesis
  proof (rule finish)
    fix v
    assume v: "in_ok v" "in_ids v = in_ids (gw_in g0 ?w) - {i}"
    show "case transitionSession (ACTIVE a) (STREAM_CLOSED (gw_clock g)) (p_policy p) of Inl _ \<Rightarrow> False
      | Inr l \<Rightarrow> after (case l of EXPIRED reason _ \<Rightarrow> expireGatewaySession p r (reason_text reason) | _ \<Rightarrow> ret ())
          (\<lambda>_ g'. gateway_inv (out_closeStream ?o i g')) (\<lambda>_. False) (?g3 v l)"
    proof (cases rule: stream_closed_transition [OF pos, of "gw_clock g" "p_policy p"])
      case (1 reason t)
      have reg: "is_registered (?g3 v (EXPIRED reason t)) r"
        using f(1) confined_registered [OF half(1) [OF v(1)], of "EXPIRED reason t" r] by (simp add: cg)
      have "gateway_inv (out_closeStream ?o i g')" if "disposed r (?g3 v (EXPIRED reason t)) g'" for g'
        using disposed_unowned [OF half(2) [OF v(1)] reg that, of i] by (simp add: cg)
      then show ?thesis using 1 after_mono [OF expiring [OF half(2,3) [OF v(1)]]] by simp
    next
      case (2 n)
      let ?l = "ACTIVE (a\<lparr>activeStreamCount := activeStreamCount a - 1, lastStreamClosedAt := n\<rparr>)"
      let ?G = "out_closeStream ?o i (?g3 v ?l)"
      have c: "confined r g0 ?G" by (rule confined_out_ops(2) [OF half(1) [OF v(1)] refl])
      have e: "entries_ok ?G r"
        using half(4) [OF v(1), of ?l] by (simp add: entries_ok_def stream_ok_def out_closeStream_def set_out_def)
      note kept = confined_kept [OF base f(1) c _ e]
      have size: "map_size (map_delete (g_streams ?s) i) = map_size (g_streams ?s) - 1"
        using f(2,6) by (simp add: entries_ok_def map_size_delete)
      have "flows_ok g0 ?s" "carrier_ok ?G r"
        using f(3,5) carrier_confined [OF c] by (simp_all add: session_ok_def out_closeStream_def cg)
      moreover have "\<not> gw_killSwitch ?G" using c f(3,5) unfolding confined_def by (simp add: session_ok_def)
      moreover have "g_probe ?s = None" using f(3,5) by (simp add: session_ok_def)
      ultimately have "session_ok ?G r"
        using f(3,5) count size v pos unfolding session_ok_def
        by (auto simp: flows_ok_def cg out_closeStream_def closeStream_ids session_ids_def dom_delete)
      with kept have "gateway_inv ?G" by (auto intro: others_gateway_inv simp: out_closeStream_def cg)
      then show ?thesis using 2 by (simp add: wp)
    qed
  qed
qed

end
