(* ===== verification/GatewayStreamProps.thy ===== *)
theory GatewayStreamProps
  imports GatewayStreams GatewayDispose
begin

text \<open>
  The handlers of streams keep the invariant of the gateway's store, whatever the browser and the client do
  and in whatever order the awaited sends and drains settle. Cancelling and finishing a current stream
  never throws.
\<close>

section \<open>Cancelling a stream\<close>

lemma inv_sameI: "gateway_inv g \<Longrightarrow> same_gateway g g' \<Longrightarrow> gateway_inv g'"
  by (rule same_inv)

lemma current_flow:
  assumes "gateway_inv g" "current_stream_of g st"
  shows "te_outboundFlow (gs_transport (gw_stream g st)) = g_outboundFlow (gw_object g (gs_session (gw_stream g st)))"
  using assms(2) by (simp add: current_stream_of_def isCurrentGatewayStream_def isCurrentGatewayTransport_def)

lemma cancelling:
  assumes "gateway_inv g" "current_stream_of g st"
  shows "after (cancel_stream p st retired) (\<lambda>_. gateway_inv) (\<lambda>_. False) g"
proof -
  let ?g = "on_stream st (\<lambda>s. s\<lparr>gs_cancelled := True\<rparr>) g"
  let ?s = "gw_stream g st"
  have "marked st g ?g" by (simp add: marked_def)
  from removing [OF assms(1) assms(2) [unfolded current_stream_of_def] this, of p retired]
  show ?thesis
    by (simp add: cancel_stream_def wp current_flow [OF assms]) (erule after_mono, simp_all)
qed

lemma finishing:
  assumes "gateway_inv g" "current_stream_of g st"
  shows "after (finish_stream p st) (\<lambda>_. gateway_inv) (\<lambda>_. False) g"
proof -
  have "marked st g g" by (simp add: marked_def)
  from removing [OF assms(1) assms(2) [unfolded current_stream_of_def] this, of p Normal]
  show ?thesis
    by (simp add: finish_stream_def wp current_flow [OF assms]) (erule after_mono, simp_all)
qed

lemma removed_not_current:
  "\<not> isCurrentGatewayStream g r i st \<Longrightarrow> after (removeGatewayStream p r i st retired) Q E g = Q False g"
  by (simp add: removeGatewayStream_def wp)

lemma maybe_deleting:
  assumes "gateway_inv g"
  shows "after (maybeDeleteStream p st) (\<lambda>_. gateway_inv) (\<lambda>_. False) g"
proof (cases "current_stream_of g st")
  case True
  have "marked st g g" by (simp add: marked_def)
  from removing [OF assms True [unfolded current_stream_of_def] this, of p Normal] assms show ?thesis
    by (auto simp: maybeDeleteStream_def wp current_flow [OF assms True] elim!: after_mono)
next
  case False
  then show ?thesis using assms by (simp add: maybeDeleteStream_def wp removed_not_current current_stream_of_def)
qed

lemma current_session: "current_session_stream_of g st \<Longrightarrow> current_stream_of g st"
  by (simp add: current_session_stream_of_def current_stream_of_def isCurrentGatewaySessionStream_def)

lemma same_current_of: "same_gateway g g' \<Longrightarrow> current_stream_of g' st = current_stream_of g st"
  using same_current [of g g'] by (simp add: current_stream_of_def same_gateway_def same_stream_def)

lemma same_stream_answers [same]:
  "same_gateway g g' \<Longrightarrow> same_gateway g (reset_of st c g')"
  "same_gateway g g' \<Longrightarrow> same_gateway g (error_or_destroy x n u g')"
  "same_gateway g g' \<Longrightarrow> same_gateway g (destroy_exchange st g')"
  "same_gateway g g' \<Longrightarrow> same_gateway g (touchRequestInactivity st g')"
  "same_gateway g g' \<Longrightarrow> same_gateway g (attach_browser st g')"
  "same_gateway g g' \<Longrightarrow> same_gateway g (sendWindowUpdate t i n g')"
  by (simp_all add: reset_of_def error_or_destroy_def destroy_exchange_def Let_def touchRequestInactivity_def attach_browser_def
      sendWindowUpdate_def same same_stream_def split: sum.split)

text \<open>A cancellation followed by answers that do not concern the invariant.\<close>

lemma cancelling_then:
  assumes "gateway_inv g" "current_stream_of g st" "\<And>g'. same_gateway g' (h g')"
  shows "after (cancel_stream p st retired) (\<lambda>_ g'. gateway_inv (h g')) E g"
  using cancelling [OF assms(1,2)] by (rule after_mono) (auto intro: same_inv [OF assms(3)])

section \<open>Requests\<close>

abbreviation keeps :: "'a gatewayM \<Rightarrow> bool" where
  "keeps m \<equiv> \<forall>g. gateway_inv g \<longrightarrow> after m (\<lambda>_. gateway_inv) gateway_inv g"

abbreviation never_throws :: "'a gatewayM \<Rightarrow> bool" where
  "never_throws m \<equiv> \<forall>g. gateway_inv g \<longrightarrow> after m (\<lambda>_. gateway_inv) (\<lambda>_. False) g"

lemma never_throws_keeps: "never_throws m \<Longrightarrow> keeps m"
  using after_mono by (metis (no_types, lifting))

named_theorems kept "handlers that keep the invariant"

lemma expireStream_kept [kept]: "never_throws (expireStream p st c)"
  by (auto simp: expireStream_def wp Let_def current_session same intro!: cancelling_then)

lemma response_closed_kept [kept]: "never_throws (response_closed p st)"
  by (auto simp: response_closed_def wp current_session same intro!: cancelling_then)

lemma request_failed_kept [kept]: "never_throws (request_failed p st)"
  by (auto simp: request_failed_def wp current_session same intro!: cancelling_then)

lemma upgrade_kept [kept]:
  "never_throws (upgrade_expired p st)" "never_throws (upgrade_cancelled p st)" "never_throws (upgrade_failed p st)"
  by (auto simp: upgrade_expired_def upgrade_cancelled_def upgrade_failed_def wp current_session same intro!: cancelling_then)

lemma relay_write_failed_kept:
  "gateway_inv g \<Longrightarrow> current_stream_of g st \<Longrightarrow> after (relay_write_failed p st) (\<lambda>_. gateway_inv) (\<lambda>_. False) g"
  by (simp add: relay_write_failed_def wp cancelling_then same)

lemma relay_kept [kept]:
  "never_throws (pending_head_failed p st)" "never_throws (browser_failed p st)" "never_throws (failBufferedDownstream p st)"
  by (auto simp: pending_head_failed_def browser_failed_def failBufferedDownstream_def wp same intro!: relay_write_failed_kept cancelling_then)

lemma request_chunk_kept [kept]: "never_throws (request_chunk p st n)"
proof (intro allI impI)
  fix g
  assume inv: "gateway_inv g"
  let ?g = "on_stream st (\<lambda>s. s\<lparr>gs_requestBytes := gs_requestBytes s + n\<rparr>) (touchRequestInactivity st g)"
  have s: "same_gateway g ?g" by (simp add: same same_stream_def)
  show "after (request_chunk p st n) (\<lambda>_. gateway_inv) (\<lambda>_. False) g"
    using same_inv [OF s inv] same_current_of [OF s, of st] inv current_session [of g st]
    by (auto simp: request_chunk_def wp same intro!: cancelling_then)
qed

lemma request_end_kept [kept]: "never_throws (request_end st)" "never_throws (request_end_sent p st)"
proof -
  have "same_gateway g (start_send k input (on_stream st (\<lambda>s. s\<lparr>gs_requestEnded := True\<rparr>) (clearRequestInactivityTimer st g)))"
    for g k input by (simp add: same same_stream_def)
  from same_inv [OF this] show "never_throws (request_end st)" by (simp add: request_end_def wp Let_def)
  show "never_throws (request_end_sent p st)" using maybe_deleting by (simp add: request_end_sent_def wp)
qed

lemma downstream_kept [kept]:
  "keeps (reserveInboundChunk st chunk)" "keeps (downstream_released st chunk)"
proof -
  have step: "after (in_op w h) (\<lambda>_ g'. gateway_inv (on_stream st k g')) gateway_inv g"
    if "gateway_inv g" "\<And>v. same_in v (snd (h v))" "\<And>s. same_stream s (k s)" for g w h k
    by (rule after_in_op) (use that same_inv same_on_stream in blast)+
  show "keeps (reserveInboundChunk st chunk)" "keeps (downstream_released st chunk)"
    by (auto simp: reserveInboundChunk_def downstream_released_def wp split_beta same_in_ops same_stream_def intro!: step)
qed

lemma sender_kept [kept]:
  "gateway_inv g \<Longrightarrow> gateway_inv (sender_take st n k g)" "gateway_inv g \<Longrightarrow> gateway_inv (sender_send st chunk g)"
  "gateway_inv g \<Longrightarrow> gateway_inv (downstream_write st chunk g)" "gateway_inv g \<Longrightarrow> gateway_inv (downstream_drained st chunk g)"
  "gateway_inv g \<Longrightarrow> gateway_inv (pending_head_sent st g)" "gateway_inv g \<Longrightarrow> gateway_inv (browser_data st g)"
  "gateway_inv g \<Longrightarrow> gateway_inv (browser_data_sent st g)" "gateway_inv g \<Longrightarrow> gateway_inv (browser_end st g)"
  by (auto simp: sender_take_def sender_send_def downstream_write_def downstream_drained_def pending_head_sent_def browser_data_def
      browser_data_sent_def browser_end_def Let_def same same_stream_def same_out_ops intro!: same_set_out elim!: same_inv [rotated])

lemma response_end_kept [kept]: "never_throws (http_response_end p st)" "never_throws (websocket_response_end p st)"
  and browser_end_sent_kept [kept]: "never_throws (browser_end_sent p st)"
proof -
  have s: "same_gateway g (on_stream st h (on_exchange x h' g))" if "\<And>s. same_stream s (h s)" for g h h' x
    using that by (simp add: same)
  show "never_throws (http_response_end p st)"
    by (auto simp: http_response_end_def wp same_stream_def intro!: maybe_deleting same_inv [OF s])
  show "never_throws (websocket_response_end p st)"
    by (auto simp: websocket_response_end_def wp same_stream_def same_current_of [OF s] intro!: finishing same_inv [OF s])
  show "never_throws (browser_end_sent p st)"
    by (auto simp: browser_end_sent_def wp finishing)
qed

section \<open>Opening a stream\<close>

lemma issue_next:
  assumes "ids_ok h" "issue h = (Inr i, h')"
  shows "h' = i" "ids_ok i" "h < i" "0 < i" "wasIssued i (Integral i)"
    "wasIssued h (Integral j) \<Longrightarrow> wasIssued i (Integral j) \<and> j \<noteq> i"
  using assms by (auto simp: issue_def ids_ok_def wasIssued_def Let_def split: if_splits)

lemma issue_failed: "issue h = (Inl e, h') \<Longrightarrow> h' = h"
  by (auto simp: issue_def Let_def split: if_splits)

text \<open>A larger id counter and a new stream object nobody refers to yet.\<close>

definition with_new_stream :: "nat \<Rightarrow> int \<Rightarrow> gatewayStream \<Rightarrow> gateway \<Rightarrow> gateway" where
  "with_new_stream r i s g = (on_session r (\<lambda>s. s\<lparr>g_streamIds := i\<rparr>) g)
     \<lparr>gw_stream := (gw_stream g)(gw_fresh g := s), gw_fresh := gw_fresh g + 1\<rparr>"

lemma with_new_stream_simps [simp]:
  "gw_sessions (with_new_stream r i s g) = gw_sessions g" "gw_out (with_new_stream r i s g) = gw_out g"
  "gw_in (with_new_stream r i s g) = gw_in g" "gw_fresh (with_new_stream r i s g) = gw_fresh g + 1"
  "gw_object (with_new_stream r i s g) r' = (if r' = r then (gw_object g r)\<lparr>g_streamIds := i\<rparr> else gw_object g r')"
  "gw_connection (with_new_stream r i s g) = gw_connection g" "gw_killSwitch (with_new_stream r i s g) = gw_killSwitch g"
  "gw_stream (with_new_stream r i s g) st = (if st = gw_fresh g then s else gw_stream g st)"
  by (simp_all add: with_new_stream_def on_session_def)

lemma with_new_stream_registered [simp]: "is_registered (with_new_stream r i s g) r' = is_registered g r'"
  by (simp add: is_registered_def)

lemma session_ids_counter [simp]: "session_ids (s\<lparr>g_streamIds := i\<rparr>) = session_ids s"
  by (simp add: session_ids_def)

lemma new_stream_inv:
  assumes "gateway_inv g" "is_registered g r" "issue (g_streamIds (gw_object g r)) = (Inr i, h)"
  shows "gateway_inv (with_new_stream r i s g)"
proof -
  let ?g = "with_new_stream r i s g"
  have ids: "ids_ok (g_streamIds (gw_object g r))" using assms(1,2) by (simp add: gateway_inv_def base_ok_def entries_ok_def)
  note following = issue_next [OF this assms(3)]
  have cap: "captureGatewayTransport (gw_object ?g r') = captureGatewayTransport (gw_object g r')" for r'
    by (simp add: captureGatewayTransport_def)
  have sids: "session_ids (gw_object ?g r') = session_ids (gw_object g r')" for r' by simp
  have st: "stream_ok ?g r' j st" if "stream_ok g r' j st" for r' j st
    using that by (simp add: stream_ok_def captureGatewayTransport_def)
  have "entries_ok ?g r'" if "entries_ok g r'" for r'
    using that st following(2,6) by (auto simp: entries_ok_def sids stream_limit_def)
  moreover have "lifecycle_ok l (gw_object ?g r') = lifecycle_ok l (gw_object g r')" for l r'
    by (cases l) (auto split: option.splits)
  then have "session_ok ?g r'" if "session_ok g r'" for r'
    using that by (auto simp: session_ok_def flows_ok_def carrier_ok_def sids)
  ultimately show ?thesis using assms(1) by (auto simp: gateway_inv_def base_ok_def less_Suc_eq)
qed

lemma stream_open_transition:
  assumes "0 \<le> activeStreamCount a"
  obtains (expired) reason t where "transitionSession (ACTIVE a) (STREAM_OPEN now) policy = Inr (EXPIRED reason t)"
  | (active) "transitionSession (ACTIVE a) (STREAM_OPEN now) policy = Inr (ACTIVE (a\<lparr>activeStreamCount := activeStreamCount a + 1\<rparr>))"
proof (cases "activatedAt a + maxTtlMs policy \<le> now \<or> (activeStreamCount a = 0 \<and> lastStreamClosedAt a + idleTimeoutMs policy \<le> now)")
  case True
  then have "\<exists>reason. transitionSession (ACTIVE a) (STREAM_OPEN now) policy = Inr (EXPIRED reason now)"
    using assms by (auto simp: transitionSession_def expireActiveIfNeeded_eq)
  then show thesis using that(1) by blast
next
  case False
  then show thesis using assms that(2) by (auto simp: transitionSession_def expireActiveIfNeeded_eq)
qed

lemma after_issue [wp]:
  "after (issue_stream_id r) Q E = (\<lambda>g. case issue (g_streamIds (gw_object g r)) of
     (Inl _, h) \<Rightarrow> E (on_session r (\<lambda>s. s\<lparr>g_streamIds := h\<rparr>) g) | (Inr i, h) \<Rightarrow> Q i (on_session r (\<lambda>s. s\<lparr>g_streamIds := h\<rparr>) g))"
  by (auto simp: after_def issue_stream_id_def fun_eq_iff split: prod.splits sum.splits)

lemma after_alloc [wp]:
  "after (alloc_stream s) Q E = (\<lambda>g. Q (gw_fresh g) (g\<lparr>gw_stream := (gw_stream g)(gw_fresh g := s), gw_fresh := gw_fresh g + 1\<rparr>))"
  by (simp add: after_def alloc_stream_def fun_eq_iff)

lemma after_out_open:
  assumes "0 < i" "\<not> closed (gw_out g w)" "i \<notin> out_ids (gw_out g w)" "flow_inv (gw_out g w)"
    "\<And>f. flow_inv f \<Longrightarrow> \<not> closed f \<Longrightarrow> out_ids f = insert i (out_ids (gw_out g w)) \<Longrightarrow> Q () (set_out w f g)"
  shows "after (out_openStream w i) Q E g"
proof -
  have "0 < INITIAL_STREAM_WINDOW_BYTES" by (simp add: INITIAL_STREAM_WINDOW_BYTES_def)
  from openStream_ids [OF assms(1) this assms(2,3)] obtain out f where
    f: "openStream (gw_out g w) (Integral i) (Integral INITIAL_STREAM_WINDOW_BYTES) = (Inr out, f)"
      "out_ids f = insert i (out_ids (gw_out g w))" "\<not> closed f" by blast
  with openStream_inv [OF assms(4)] have "flow_inv f" by (metis snd_conv)
  with f assms(5) show ?thesis by (simp add: after_def out_openStream_def)
qed

lemma after_in_open:
  assumes "0 < i" "i \<notin> in_ids (gw_in g w)" "in_ok (gw_in g w)"
    "\<And>v. in_ok v \<Longrightarrow> in_ids v = insert i (in_ids (gw_in g w)) \<Longrightarrow> Q () (set_in w v g)"
  shows "after (in_openStream w i) Q E g"
proof -
  have "0 < INITIAL_STREAM_WINDOW_BYTES" by (simp add: INITIAL_STREAM_WINDOW_BYTES_def)
  from inbound_open_ids [OF assms(1) this assms(2)] obtain v where
    v: "gateway_openStream (gw_in g w) (Integral i) (Integral INITIAL_STREAM_WINDOW_BYTES) = (Inr (), v)"
      "in_ids v = insert i (in_ids (gw_in g w))" by blast
  with assms(3) gateway_openStream_inv [of "gw_in g w"] inbound_initial(1) [of "gw_in g w"] have "in_ok v"
    by (metis in_ok_def snd_conv)
  with v assms(4) show ?thesis by (simp add: after_def in_openStream_def in_op_def)
qed

text \<open>The store of a session that has just got a stream.\<close>

definition entered :: "nat \<Rightarrow> int \<Rightarrow> nat \<Rightarrow> activeState \<Rightarrow> gateway \<Rightarrow> gateway" where
  "entered r i st a g = on_session r (\<lambda>s. s\<lparr>lifecycle := ACTIVE (a\<lparr>activeStreamCount := activeStreamCount a + 1\<rparr>),
     g_streams := map_set (g_streams s) i st\<rparr>) g"

lemma map_size_fresh: "map_get m k = None \<Longrightarrow> map_size (map_set m k v) = map_size m + 1"
  by (induction m) (auto split: if_splits)

lemma entered_inv:
  assumes inv: "gateway_inv g" and reg: "is_registered g r" and act: "lifecycle (gw_object g r) = ACTIVE a"
    and st: "gw_stream g st = s" "gs_session s = r" "gs_streamId s = i"
      "gs_transport s = captureGatewayTransport (gw_object g r)" "\<not> gs_cancelled s" "st < gw_fresh g"
    and i: "i \<notin> session_ids (gw_object g r)" "wasIssued (g_streamIds (gw_object g r)) (Integral i)"
    and limit: "map_size (g_streams (gw_object g r)) < stream_limit (gw_object g r)"
    and f: "flow_inv f" "\<not> closed f" "out_ids f = insert i (session_ids (gw_object g r))"
    and v: "in_ok v" "in_ids v = insert i (session_ids (gw_object g r))"
    and g': "g' = set_in (g_inboundFlow (gw_object g r)) v (set_out (g_outboundFlow (gw_object g r)) f (entered r i st a g))"
  shows "gateway_inv g' \<and> is_registered g' r \<and> isCurrentGatewayStream g' r i st"
proof -
  let ?s = "gw_object g r"
  have ok: "entries_ok g r" "session_ok g r" using inv reg by (simp_all add: gateway_inv_def base_ok_def)
  have new: "map_get (g_streams ?s) i = None" using i(1) by (auto simp: session_ids_def)
  have "confined r g (entered r i st a g)"
    unfolding entered_def by (rule confined_on_session) (simp_all add: capture_eq)
  then have "confined r g (set_out (g_outboundFlow ?s) f (entered r i st a g))" by (rule confined_set_out) (simp_all add: f)
  then have c: "confined r g g'" unfolding g' by (rule confined_set_in) (simp_all add: v)
  have obj: "gw_object g' r = ?s\<lparr>lifecycle := ACTIVE (a\<lparr>activeStreamCount := activeStreamCount a + 1\<rparr>), g_streams := map_set (g_streams ?s) i st\<rparr>"
    and sess: "gw_sessions g' = gw_sessions g" and str: "gw_stream g' = gw_stream g" "gw_fresh g' = gw_fresh g"
    by (simp_all add: g' entered_def set_in_def set_out_def on_session_def)
  have "stream_ok g' r j st'" if "map_get (map_set (g_streams ?s) i st) j = Some st'" for j st'
    using that ok(1) st by (auto simp: stream_ok_def entries_ok_def jsmap_simps str obj capture_eq captureGatewayTransport_def split: if_splits)
  then have e: "entries_ok g' r"
    using ok(1) i limit new
    by (auto simp: entries_ok_def obj stream_limit_def session_ids_def map_size_fresh dom_set)
  note kept = confined_kept [OF gateway_inv_others [OF inv, THEN conjunct1] gateway_inv_others [OF inv, THEN conjunct2] reg c sess e]
  have ids: "session_ids (gw_object g' r) = insert i (session_ids ?s)" by (simp add: obj session_ids_def dom_set)
  have "flows_ok g' (gw_object g' r)" unfolding flows_ok_def ids using f v by (simp add: obj) (simp add: g')
  moreover have "carrier_ok g' r" using carrier_confined [OF c] ok(2) act by (simp add: session_ok_def obj)
  moreover have "gw_killSwitch g' = gw_killSwitch g" using c by (simp add: confined_def)
  ultimately have "session_ok g' r"
    using ok(2) act new by (simp add: session_ok_def obj map_size_fresh)
  then have "gateway_inv g'" using kept others_gateway_inv by blast
  moreover have "is_registered g' r" using reg confined_registered [OF c sess] by simp
  moreover have "isCurrentGatewayStream g' r i st"
    using st by (simp add: isCurrentGatewayStream_def isCurrentGatewayTransport_def obj str jsmap_simps captureGatewayTransport_def)
  ultimately show ?thesis by simp
qed

text \<open>
  Opening a stream on a session that accepts one ends with the stream in place, or with the session expired
  and gone; it throws only when the ids are used up.
\<close>

definition opened :: "nat \<Rightarrow> nat option \<Rightarrow> gateway \<Rightarrow> bool" where
  "opened r result g = (gateway_inv g \<and>
     (case result of None \<Rightarrow> \<not> is_registered g r | Some st \<Rightarrow> gs_session (gw_stream g st) = r \<and> current_session_stream_of g st))"

lemma opened_same: "same_gateway g g' \<Longrightarrow> opened r result g \<Longrightarrow> opened r result g'"
  using same_inv [of g g'] same_registered [of g g'] same_current [of g g']
  by (auto simp: opened_def current_session_stream_of_def isCurrentGatewaySessionStream_def same_gateway_def same_stream_def split: option.splits)

lemma after_begin:
  assumes "gateway_inv g" "is_registered g r" "lifecycle (gw_object g r) = ACTIVE a" "0 \<le> activeStreamCount a"
    "\<And>g'. gateway_inv g' \<Longrightarrow> \<not> is_registered g' r \<Longrightarrow> Q False g'"
    "Q True (on_session r (\<lambda>s. s\<lparr>lifecycle := ACTIVE (a\<lparr>activeStreamCount := activeStreamCount a + 1\<rparr>)\<rparr>) g)"
  shows "after (beginGatewayStream p r) Q E g"
proof (cases rule: stream_open_transition [OF assms(4), of "gw_clock g" "p_policy p"])
  case (1 reason t)
  let ?g = "on_session r (\<lambda>s. s\<lparr>lifecycle := EXPIRED reason t\<rparr>) g"
  have c: "confined r g ?g" by (rule confined_on_session) (simp_all add: capture_eq)
  have e: "entries_ok ?g r"
    by (rule entries_subset [OF _ c]) (use assms(1,2) in \<open>simp_all add: gateway_inv_def base_ok_def session_ids_def\<close>)
  note kept = confined_kept [OF gateway_inv_others [OF assms(1), THEN conjunct1] gateway_inv_others [OF assms(1), THEN conjunct2] assms(2) c _ e]
  have "after (expireGatewaySession p r (reason_text reason)) (\<lambda>_. Q False) E ?g"
    by (rule after_mono [OF expiring]) (use kept assms(5) in \<open>auto simp: disposed_def\<close>)
  then show ?thesis using 1 assms(3) by (simp add: beginGatewayStream_def wp)
next
  case 2
  then show ?thesis using assms(3,6) by (simp add: beginGatewayStream_def wp)
qed

lemma entering:
  assumes inv: "gateway_inv g" and reg: "is_registered g r" and act: "lifecycle (gw_object g r) = ACTIVE a"
    and t: "t = captureGatewayTransport (gw_object g r)"
    and st: "gw_stream g st = new_stream kind r i t x head reviewer now" "st < gw_fresh g"
    and i: "0 < i" "i \<notin> session_ids (gw_object g r)" "wasIssued (g_streamIds (gw_object g r)) (Integral i)"
    and limit: "map_size (g_streams (gw_object g r)) < stream_limit (gw_object g r)"
  shows "after (enter_stream p kind r i t payload st) (opened r) (\<lambda>_. False) g"
proof -
  let ?s = "gw_object g r"
  have ok: "session_ok g r" using inv reg by (simp add: gateway_inv_def)
  then have count: "0 \<le> activeStreamCount a" and flows: "flows_ok g ?s" using act by (simp_all add: session_ok_def)
  let ?h = "\<lambda>s. s\<lparr>gs_durationTimer := True, gs_requestInactivityTimer := (kind = KindHttp)\<rparr>"
  let ?g = "on_stream st ?h (log_effect (Metric ''stream_opened'') g)"
  have sg: "same_gateway g ?g" by (simp add: same same_stream_def)
  have g1: "gateway_inv ?g" "is_registered ?g r" using same_inv [OF sg inv] same_registered [OF sg] reg by simp_all
  have finished: "opened r (Some st) (start_send k input (set_in (g_inboundFlow ?s) v (set_out (g_outboundFlow ?s) f (entered r i st a ?g))))"
    if "flow_inv f" "\<not> closed f" "out_ids f = insert i (session_ids ?s)" "in_ok v" "in_ids v = insert i (session_ids ?s)" for f v k input
  proof (rule opened_same)
    let ?G = "set_in (g_inboundFlow ?s) v (set_out (g_outboundFlow ?s) f (entered r i st a ?g))"
    show "same_gateway ?G (start_send k input ?G)" by (simp add: same)
    have "gw_stream ?g st = ?h (new_stream kind r i t x head reviewer now)" "st < gw_fresh ?g" "gw_object ?g = gw_object g"
      using st by (simp_all add: on_stream_def log_effect_def)
    then have "gateway_inv ?G \<and> is_registered ?G r \<and> isCurrentGatewayStream ?G r i st"
      using entered_inv [OF g1, of a st "?h (new_stream kind r i t x head reviewer now)" i f v ?G] act t i limit that
      by (simp add: new_stream_def)
    moreover have "gs_session (gw_stream ?G st) = r" "gs_streamId (gw_stream ?G st) = i"
      by (simp_all add: entered_def st new_stream_def)
    ultimately show "opened r (Some st) ?G"
      by (simp add: opened_def current_session_stream_of_def isCurrentGatewaySessionStream_def)
  qed
  show ?thesis
    unfolding enter_stream_def after_bind
  proof (rule after_begin [OF inv reg act count], goal_cases)
    case (1 g')
    then show ?case by (simp add: wp opened_def)
  next
    case 2
    let ?l = "ACTIVE (a\<lparr>activeStreamCount := activeStreamCount a + 1\<rparr>)"
    have eq: "on_stream st ?h (log_effect (Metric ''stream_opened'') (on_session r (\<lambda>s. s\<lparr>g_streams := map_set (g_streams s) i st\<rparr>)
        (on_session r (\<lambda>s. s\<lparr>lifecycle := ?l\<rparr>) g))) = entered r i st a ?g"
      by (simp add: entered_def on_session_def on_stream_def log_effect_def)
    let ?e = "entered r i st a ?g"
    have flow: "gw_out ?e = gw_out g" "gw_in ?e = gw_in g" by (simp_all add: entered_def log_effect_def)
    have tr: "te_outboundFlow t = g_outboundFlow ?s" "te_inboundFlow t = g_inboundFlow ?s" by (simp_all add: t captureGatewayTransport_def)
    have fi: "flow_inv (gw_out g w)" "in_ok (gw_in g w)" for w using inv by (simp_all add: gateway_inv_def base_ok_def)
    have "after (out_openStream (te_outboundFlow t) i) (\<lambda>_. after (in_openStream (te_inboundFlow t) i)
        (\<lambda>_ g'. opened r (Some st) (start_send k input g')) (\<lambda>_. False)) (\<lambda>_. False) ?e" for k input
      by (rule after_out_open, use i flows in \<open>simp_all add: flow tr flows_ok_def fi\<close>)
        (rule after_in_open, use i flows finished in \<open>simp_all add: flow tr flows_ok_def fi\<close>)
    then show ?case by (simp add: wp eq)
  qed
qed

lemma opening_stream:
  assumes inv: "gateway_inv g" and reg: "is_registered g r" and act: "is_active (lifecycle (gw_object g r))"
    and limit: "map_size (g_streams (gw_object g r)) < stream_limit (gw_object g r)"
  shows "after (open_stream p kind r x head reviewer payload) (opened r) gateway_inv g"
proof -
  let ?s = "gw_object g r"
  obtain a where a: "lifecycle ?s = ACTIVE a" using act by (cases "lifecycle ?s") auto
  have ok: "entries_ok g r" using inv reg by (simp add: gateway_inv_def base_ok_def)
  obtain res h where iss: "issue (g_streamIds ?s) = (res, h)" by (metis prod.exhaust)
  show ?thesis
  proof (cases res)
    case (Inl e)
    with iss have "h = g_streamIds ?s" using issue_failed by blast
    then have "on_session r (\<lambda>s. s\<lparr>g_streamIds := h\<rparr>) g = g" by (simp add: on_session_def)
    with Inl iss inv show ?thesis by (simp add: open_stream_def wp)
  next
    case (Inr i)
    with iss have iss': "issue (g_streamIds ?s) = (Inr i, h)" by simp
    from ok have "ids_ok (g_streamIds ?s)" by (simp add: entries_ok_def)
    note fresh = issue_next [OF this iss']
    let ?t = "captureGatewayTransport ?s"
    let ?new = "new_stream kind r i ?t x head reviewer (gw_clock g)"
    let ?g = "with_new_stream r i ?new g"
    have "i \<notin> session_ids ?s" using ok fresh(6) by (auto simp: entries_ok_def)
    then have "after (enter_stream p kind r i ?t payload (gw_fresh g)) (opened r) (\<lambda>_. False) ?g"
      using a limit fresh(4,5)
      by (intro entering [where a = a]) (simp_all add: new_stream_inv [OF inv reg iss'] reg captureGatewayTransport_def stream_limit_def)
    then have "after (enter_stream p kind r i ?t payload (gw_fresh g)) (opened r) gateway_inv ?g"
      by (rule after_mono) simp_all
    then show ?thesis
      by (simp add: open_stream_def wp iss' fresh(1) with_new_stream_def on_session_def captureGatewayTransport_def)
  qed
qed

section \<open>Requests and upgrades\<close>

lemma admitting:
  "after (admitStream r) (\<lambda>admitted g'. same_gateway g g' \<and>
     (admitted \<longrightarrow> map_size (g_streams (gw_object g r)) < stream_limit (gw_object g r))) E g"
proof -
  have s: "same_gateway g (on_session r (\<lambda>_. s) g)" if "same_session (gw_object g r) s" for s
    using that by (simp add: same_gateway_def on_session_def)
  show ?thesis
    by (auto simp: after_def admitStream_def Let_def config_limit_def stream_limit_def same_session_def intro!: same_effects(1) s)
qed

lemma available: "gateway_inv g \<Longrightarrow> available_session g tunnelId = Some r \<Longrightarrow> is_registered g r \<and> is_active (lifecycle (gw_object g r))"
  by (auto simp: available_session_def session_of_def gateway_inv_def base_ok_def is_registered_def split: option.splits if_splits)

definition accepted :: "nat option \<Rightarrow> gateway \<Rightarrow> bool" where
  "accepted result g = (gateway_inv g \<and> (case result of None \<Rightarrow> True | Some st \<Rightarrow> current_session_stream_of g st))"

lemma accepted_none: "gateway_inv g \<Longrightarrow> same_gateway g g' \<Longrightarrow> accepted None g'"
  using same_inv by (simp add: accepted_def)

text \<open>The streams a request opens; a refusal is an answer that does not concern the invariant.\<close>

lemma opening_answered:
  assumes "gateway_inv g" "is_registered g r" "is_active (lifecycle (gw_object g r))"
    "map_size (g_streams (gw_object g r)) < stream_limit (gw_object g r)"
    "\<And>g'. gateway_inv g' \<Longrightarrow> after refuse accepted gateway_inv g'"
  shows "after (open_stream p kind r x head reviewer payload)
    (\<lambda>result. after (case result of None \<Rightarrow> refuse | Some st \<Rightarrow> ret (Some st)) accepted gateway_inv) gateway_inv g"
  by (rule after_mono [OF opening_stream [OF assms(1-4)]])
    (auto simp: opened_def wp accepted_def intro!: assms(5) split: option.splits)

lemma answering:
  "gateway_inv g \<Longrightarrow> after (answer_request x e) accepted E g" "gateway_inv g \<Longrightarrow> after (answer_upgrade x e) accepted E g"
  by (simp_all add: answer_request_def answer_upgrade_def wp accepted_none same)

lemma same_active:
  "same_gateway g g' \<Longrightarrow> is_active (lifecycle (gw_object g' r)) = is_active (lifecycle (gw_object g r)) \<and>
   g_streams (gw_object g' r) = g_streams (gw_object g r) \<and> stream_limit (gw_object g' r) = stream_limit (gw_object g r)"
  by (simp add: same_gateway_def same_session_def stream_limit_def)

lemma accepting:
  assumes inv: "gateway_inv g" and av: "available_session g tunnelId = Some r"
    and refused: "\<And>g'. gateway_inv g' \<Longrightarrow> after refused accepted gateway_inv g'"
    and go: "\<And>g'. gateway_inv g' \<Longrightarrow> is_registered g' r \<Longrightarrow> is_active (lifecycle (gw_object g' r)) \<Longrightarrow>
      map_size (g_streams (gw_object g' r)) < stream_limit (gw_object g' r) \<Longrightarrow> after go accepted gateway_inv g'"
  shows "after (admitStream r) (\<lambda>admitted. after (if \<not> admitted then refused else go) accepted gateway_inv) gateway_inv g"
proof (rule after_mono [OF admitting [where E = gateway_inv]])
  fix admitted g'
  assume a: "same_gateway g g' \<and> (admitted \<longrightarrow> map_size (g_streams (gw_object g r)) < stream_limit (gw_object g r))"
  then have "gateway_inv g'" "is_registered g' r" "is_active (lifecycle (gw_object g' r))"
    using available [OF inv av] same_inv [of g g'] same_registered [of g g'] same_active [of g g' r] inv by auto
  with a same_active [of g g' r] refused go
  show "after (if \<not> admitted then refused else go) accepted gateway_inv g'" by auto
qed simp

lemma handleReviewerRequest_kept:
  assumes "gateway_inv g"
  shows "after (handleReviewerRequest p tunnelId x reviewer) accepted gateway_inv g"
proof -
  have same_log: "same_gateway h (log_effect e h)" for h e by (simp add: same)
  have "after (admitStream r) (\<lambda>admitted. after (
          if \<not> admitted then
            bindM (update_gateway (log_effect (HeaderSet x ''Retry-After'' ''1''))) (\<lambda>_.
            answer_request x (429, ''STREAM_LIMIT_EXCEEDED''))
          else
            bindM (read_gateway (\<lambda>g. config_limit sn_maxRequestBodyBytes (gw_object g r))) (\<lambda>limit.
            if (case parseContentLength (ex_contentLength e) of Some n \<Rightarrow> n > limit | None \<Rightarrow> False)
            then answer_request x (413, ''REQUEST_TOO_LARGE'')
            else case prepareOpenRequest e KindHttp of
              Inl refused \<Rightarrow> answer_request x refused
            | Inr payload \<Rightarrow>
                bindM (open_stream p KindHttp r x [] reviewer payload) (\<lambda>opened.
                case opened of None \<Rightarrow> answer_request x (503, ''TUNNEL_EXPIRED'') | Some st \<Rightarrow> ret (Some st)))) accepted gateway_inv) gateway_inv g"
    if "available_session g tunnelId = Some r" for r e
    by (rule accepting [OF assms that])
      (auto simp: wp intro!: answering same_inv [OF same_log] opening_answered split: sum.split)
  then show ?thesis
    using assms by (auto simp: handleReviewerRequest_def wp accepted_none intro!: answering split: option.split)
qed

lemma handleReviewerUpgrade_kept:
  assumes "gateway_inv g"
  shows "after (handleReviewerUpgrade p tunnelId x head reviewer) accepted gateway_inv g"
proof -
  have pausing: "after (bindM (update_gateway (on_exchange x k)) (\<lambda>_. bindM (open_stream p KindWebSocket r x head reviewer payload)
      (\<lambda>opened. case opened of None \<Rightarrow> answer_upgrade x c | Some st \<Rightarrow> ret (Some st)))) accepted gateway_inv h"
    if "gateway_inv h" "is_registered h r" "is_active (lifecycle (gw_object h r))"
      "map_size (g_streams (gw_object h r)) < stream_limit (gw_object h r)" for h r k c payload
  proof -
    have "same_gateway h (on_exchange x k h)" by (simp add: same)
    from same_inv [OF this that(1)] same_registered [OF this] same_active [OF this] that
    show ?thesis by (auto simp: wp intro!: opening_answered answering)
  qed
  have "after (admitStream r) (\<lambda>admitted. after (
            if \<not> admitted then answer_upgrade x (429, ''STREAM_LIMIT_EXCEEDED'')
            else if int (length head) > 64 * 1024 then answer_upgrade x (413, ''UPGRADE_HEAD_TOO_LARGE'')
            else case prepareOpenRequest e KindWebSocket of
              Inl refused \<Rightarrow> answer_upgrade x refused
            | Inr payload \<Rightarrow>
                bindM (update_gateway (on_exchange x (\<lambda>e. e\<lparr>ex_paused := True\<rparr>))) (\<lambda>_.
                bindM (open_stream p KindWebSocket r x head reviewer payload) (\<lambda>opened.
                case opened of None \<Rightarrow> answer_upgrade x (503, ''TUNNEL_EXPIRED'') | Some st \<Rightarrow> ret (Some st)))) accepted gateway_inv) gateway_inv g"
    if "available_session g tunnelId = Some r" for r e
    by (rule accepting [OF assms that]) (auto intro!: answering pausing split: sum.split)
  then show ?thesis
    using assms by (auto simp: handleReviewerUpgrade_def wp accepted_none intro!: answering split: option.split)
qed

section \<open>Frames from the client\<close>

lemma after_metadata [wp]:
  "after (lift_metadata m) Q E = (\<lambda>g. case m of Inl _ \<Rightarrow> E g | Inr a \<Rightarrow> Q a g)"
  by (simp add: lift_metadata_def after_def lift_gateway_def fun_eq_iff split: sum.split)

lemma client_stream:
  assumes "gateway_inv g" "map_get (g_streams (gw_object g r)) i = Some st"
  shows "current_stream_of g st"
proof -
  have "is_registered g r" using assms by (auto simp: gateway_inv_def base_ok_def)
  with assms have "stream_ok g r i st" by (simp add: gateway_inv_def base_ok_def entries_ok_def)
  with assms(2) show ?thesis
    by (simp add: current_stream_of_def isCurrentGatewayStream_def stream_ok_def isCurrentGatewayTransport_def captureGatewayTransport_def)
qed

lemma retired_frame_kept [kept]: "keeps (validateRetiredClientFrame e w)"
  by (auto simp: validateRetiredClientFrame_def wp same_in_ops intro!: after_in_op elim: same_inv split: frameType.split sum.split)

lemma reserving:
  assumes "gateway_inv g" "current_stream_of g st"
  shows "after (reserveInboundChunk st chunk) (\<lambda>_ g'. gateway_inv g' \<and> current_stream_of g' st) gateway_inv g"
proof -
  have step: "after (in_op w h) (\<lambda>_ g'. gateway_inv (on_stream st k g') \<and> current_stream_of (on_stream st k g') st) gateway_inv g"
    if "\<And>v. same_in v (snd (h v))" "\<And>s. same_stream s (k s)" for w h k
  proof (rule after_in_op)
    fix g' assume s: "same_gateway g g'"
    with that(2) have "same_gateway g (on_stream st k g')" by (simp add: same)
    with s assms same_inv same_current_of
    show "(gateway_inv (on_stream st k g') \<and> current_stream_of (on_stream st k g') st) \<and> gateway_inv g'" by metis
  qed (rule that(1))
  show ?thesis
    using assms by (auto simp: reserveInboundChunk_def wp same_in_ops same_stream_def intro!: step)
qed

lemma cancelling_keeps:
  assumes "gateway_inv g" "current_stream_of g st" "\<And>g'. same_gateway g' (h g')"
  shows "after (cancel_stream p st retired) (\<lambda>_ g'. gateway_inv (h g')) gateway_inv g"
  by (rule cancelling_then [OF assms])

lemma http_frames_kept:
  assumes "gateway_inv g" "current_stream_of g st"
  shows "after (http_response_headers p st payload) (\<lambda>_. gateway_inv) gateway_inv g"
    "after (http_response_data p st payload) (\<lambda>_. gateway_inv) gateway_inv g"
    "after (http_response_ended st) (\<lambda>_. gateway_inv) gateway_inv g"
    "after (http_reset p st payload) (\<lambda>_. gateway_inv) gateway_inv g"
proof -
  have s: "same_gateway h (on_stream st k h)" if "\<And>s. same_stream s (k s)" for h k using that by (simp add: same)
  have head: "same_gateway h (log_effect e (on_exchange x k h))" for h e x k by (simp add: same)
  note moved = same_inv [OF s] same_current_of [OF s]
  show "after (http_response_headers p st payload) (\<lambda>_. gateway_inv) gateway_inv g"
    using assms by (auto simp: http_response_headers_def wp Let_def moved same same_stream_def
        intro!: cancelling_then same_inv [OF head] split: sum.split)
  have counted: "gateway_inv h \<Longrightarrow> gateway_inv (on_stream st (\<lambda>s. s\<lparr>gs_responseBytes := gs_responseBytes s + n\<rparr>) h)"
    "current_stream_of (on_stream st (\<lambda>s. s\<lparr>gs_responseBytes := gs_responseBytes s + n\<rparr>) h) st = current_stream_of h st" for h n
    by (simp_all add: moved same_stream_def)
  show "after (http_response_data p st payload) (\<lambda>_. gateway_inv) gateway_inv g"
    using assms unfolding http_response_data_def wp split_beta Let_def
    by (auto simp: wp counted same intro!: after_mono [OF reserving [OF assms]] cancelling_then)
  show "after (http_response_ended st) (\<lambda>_. gateway_inv) gateway_inv g"
    using assms by (auto simp: http_response_ended_def wp moved same_stream_def)
  show "after (http_reset p st payload) (\<lambda>_. gateway_inv) gateway_inv g"
    using assms by (auto simp: http_reset_def wp Let_def same intro!: cancelling_then split: sum.split)
qed

lemma websocket_frames_kept:
  assumes "gateway_inv g" "current_stream_of g st"
  shows "after (handleWebSocketClientFrame p st e) (\<lambda>_. gateway_inv) gateway_inv g"
proof -
  have s: "same_gateway h (on_stream st k h)" if "\<And>s. same_stream s (k s)" for h k using that by (simp add: same)
  have started: "same_gateway h (raw_response st m h)" for h m
    by (simp add: raw_response_def Let_def same same_stream_def)
  have head: "after (websocket_response_headers st payload) (\<lambda>_. gateway_inv) gateway_inv g" for payload
    using assms(1) same_inv [OF started] by (auto simp: websocket_response_headers_def wp split: sum.split)
  have chunk: "after (reserveInboundChunk st c) (\<lambda>_. gateway_inv) gateway_inv g" for c
    by (rule after_mono [OF reserving [OF assms]]) simp_all
  have ended: "gateway_inv (on_stream st (\<lambda>s. s\<lparr>gs_localEnded := True\<rparr>) g)"
    using assms(1) by (rule same_inv [OF s, rotated]) (simp add: same_stream_def)
  show ?thesis
  proof (cases "envType e")
    case ResetStream
    have "after (cancel_stream p st Normal) (\<lambda>_ g'. gateway_inv (let s = gw_stream g' st in
        if gs_responseStarted s then destroy_response (gs_exchange s) g' else writeRawError (gs_exchange s) 502 u g')) gateway_inv g" for u
      by (rule after_mono [OF cancelling [OF assms]]) (auto simp: Let_def same elim!: same_inv [rotated])
    with ResetStream assms show ?thesis by (simp add: handleWebSocketClientFrame_def wp split: sum.split)
  qed (use head chunk ended assms in \<open>auto simp: handleWebSocketClientFrame_def wp\<close>)
qed

lemma handleClientFrame_kept: "keeps (handleClientFrame p r e)"
proof (intro allI impI)
  fix g
  assume inv: "gateway_inv g"
  show "after (handleClientFrame p r e) (\<lambda>_. gateway_inv) gateway_inv g"
  proof (cases "map_get (g_streams (gw_object g r)) (to_int (envStreamId e))")
    case None
    then show ?thesis using retired_frame_kept inv by (auto simp: handleClientFrame_def wp Let_def)
  next
    case (Some st)
    note current = client_stream [OF inv Some]
    have "after (out_update w i n) (\<lambda>_. gateway_inv) gateway_inv g" for w i n
      by (rule after_out_update) (use inv same_inv in blast)
    with Some retired_frame_kept inv http_frames_kept [OF inv current] websocket_frames_kept [OF inv current] show ?thesis
      by (auto simp: handleClientFrame_def wp Let_def split: frameType.split sum.split)
  qed
qed

end
