(* ===== verification/GatewayCarrier.thy ===== *)
theory GatewayCarrier
  imports GatewayStreams SessionConfig
begin

text \<open>
  The carrier of a session, \<^verbatim>\<open>apps/gateway/src/gateway-carrier.ts\<close> with \<^verbatim>\<open>resume-authorization.ts\<close>: from the
  first HELLO of a socket over the configuration, the probe and the activation to the frames of streams,
  and the cleanup when the socket ends. A message is handled up to its first await; what follows an await
  is a definition of its own that checks, as the code does, whether its session is still on the same
  transport. Random values are arguments; the keyed hash, the URL parser and the share URL are parameters.
\<close>

section \<open>Helpers\<close>

definition resumeOwnerAuthorizationMatches :: "(string \<times> int) option \<Rightarrow> (string \<times> int) option \<Rightarrow> bool" where
  "resumeOwnerAuthorizationMatches existing candidate =
    (map_option fst existing = map_option fst candidate \<and> map_option snd existing = map_option snd candidate)"

definition resumeSecretMatches :: "gatewayParams \<Rightarrow> ustring \<Rightarrow> byte list \<Rightarrow> bool" where
  "resumeSecretMatches p secret expectedDigest =
    (let actualDigest = p_hmac p secret in length actualDigest = length expectedDigest \<and> actualDigest = expectedDigest)"

definition sameConfigApplied :: "configAppliedMetadata \<Rightarrow> configAppliedMetadata \<Rightarrow> bool" where
  "sameConfigApplied l r = (ca_revision l = ca_revision r \<and> ca_digest l = ca_digest r \<and> ca_result l = ca_result r \<and>
     ca_localOriginReady l = ca_localOriginReady r \<and> ca_provisionReceipt l = ca_provisionReceipt r)"

text \<open>\<^verbatim>\<open>rejectCarrier\<close> before and after its await.\<close>

definition rejectCarrier :: "nat \<Rightarrow> int \<Rightarrow> string \<Rightarrow> int option \<Rightarrow> gateway \<Rightarrow> gateway" where
  "rejectCarrier k gen errorCode retryAfterMs g =
    (if \<not> is_open g k then close_socket k 1008 errorCode g
     else start_send k (frame ConnectionError gen 0 (Some (encodeMetadata (JObject ((units ''code'', JString (units errorCode)) #
       (case retryAfterMs of None \<Rightarrow> [] | Some n \<Rightarrow> [(units ''retryAfterMs'', JNumber (Integral n))])))))) g)"

definition reject_sent :: "nat \<Rightarrow> string \<Rightarrow> gateway \<Rightarrow> gateway" where
  "reject_sent k errorCode = close_socket k 1008 errorCode"

definition sendSessionConfig :: "nat \<Rightarrow> transportEpoch \<Rightarrow> gateway \<Rightarrow> gateway" where
  "sendSessionConfig r t g =
    (let s = gw_object g r in
     if \<not> isCurrentGatewayTransport s t then g
     else start_send (te_socket t) (frame SessionConfig (te_generation t) 0 (Some (encodeMetadata (JObject (config_members (g_config s))))))
       (on_session r (\<lambda>s. s\<lparr>g_configSendCount := g_configSendCount s + 1\<rparr>) g))"

definition armActivationTimeout :: "gatewayParams \<Rightarrow> nat \<Rightarrow> transportEpoch \<Rightarrow> unit gatewayM" where
  "armActivationTimeout p r t =
    (if p_activationTimeoutMs p < 200 then throw_gateway (FrameFailed ''activationTimeoutMs must be an integer of at least 200ms'')
     else update_gateway (on_session r (\<lambda>s. s\<lparr>g_configAckTimer := Some (AwaitFirst, t)\<rparr>)))"

text \<open>The two halves of the activation timeout, when their timer is still armed.\<close>

definition activation_over :: "gateway \<Rightarrow> nat \<Rightarrow> transportEpoch \<Rightarrow> bool" where
  "activation_over g r t = (is_active (lifecycle (gw_object g r)) \<or> \<not> isCurrentGatewayTransport (gw_object g r) t \<or> \<not> is_open g (te_socket t))"

definition config_ack_first :: "nat \<Rightarrow> transportEpoch \<Rightarrow> gateway \<Rightarrow> gateway" where
  "config_ack_first r t g =
    (if g_configAckTimer (gw_object g r) \<noteq> Some (AwaitFirst, t) then g
     else if activation_over g r t then on_session r (\<lambda>s. s\<lparr>g_configAckTimer := None\<rparr>) g
     else
       let s = gw_object g r;
           g = (if g_probe s = None \<and> g_configSendCount s = 1 then sendSessionConfig r t g else g)
       in on_session r (\<lambda>s. s\<lparr>g_configAckTimer := Some (AwaitSecond, t)\<rparr>) g)"

definition config_ack_second :: "nat \<Rightarrow> transportEpoch \<Rightarrow> gateway \<Rightarrow> gateway" where
  "config_ack_second r t g =
    (if g_configAckTimer (gw_object g r) \<noteq> Some (AwaitSecond, t) then g
     else
       let over = activation_over g r t; g = on_session r (\<lambda>s. s\<lparr>g_configAckTimer := None\<rparr>) g
       in if over then g
          else rejectCarrier (te_socket t) (te_generation t)
            (if g_probe (gw_object g r) = None then ''CONFIG_ACK_TIMEOUT'' else ''ACTIVATION_TIMEOUT'') None g)"

definition config_resend_failed :: "transportEpoch \<Rightarrow> gateway \<Rightarrow> gateway" where
  "config_resend_failed t = close_socket (te_socket t) 1011 ''config resend failed''"

section \<open>Connections\<close>

definition attachGatewayCarrier :: "developerAuthorization option \<Rightarrow> nat \<Rightarrow> gateway \<Rightarrow> gateway" where
  "attachGatewayCarrier authorization lease g =
    (let k = gw_fresh g in
     g\<lparr>gw_socket := (gw_socket g)(k := \<lparr>readyState = 1, bufferedAmount = 0, sendError = None\<rparr>),
       gw_connection := (gw_connection g)(k := \<lparr>cn_session = None, cn_mode = None, cn_resumeAttemptId = None,
         cn_pendingFrames = 0, cn_pendingBytes = 0, cn_receiveFailed = False, cn_helloTimer = True, cn_cleanedUp = False,
         cn_authorization = authorization, cn_lease = lease\<rparr>),
       gw_fresh := k + 1\<rparr>)"

definition rejectWebSocketControlFrame :: "nat \<Rightarrow> gateway \<Rightarrow> gateway" where
  "rejectWebSocketControlFrame k g =
    (if cn_receiveFailed (gw_connection g k) then g
     else close_socket k 1002 ''WebSocket control frames unsupported''
       (log_effect (Emit ''carrier.protocol_error'' (cn_session (gw_connection g k)))
         (on_connection k (\<lambda>cn. cn\<lparr>cn_receiveFailed := True\<rparr>) g)))"

definition hello_timeout :: "nat \<Rightarrow> gateway \<Rightarrow> gateway" where
  "hello_timeout k g =
    (if cn_helloTimer (gw_connection g k) \<and> cn_session (gw_connection g k) = None then close_socket k 1008 ''HELLO timeout'' g else g)"

text \<open>A message joins the receive queue unless it overflows it; its handler leaves the queue when it has settled.\<close>

definition carrier_message :: "gatewayParams \<Rightarrow> nat \<Rightarrow> int \<Rightarrow> gateway \<Rightarrow> gateway" where
  "carrier_message p k messageBytes g =
    (let cn = gw_connection g k in
     if cn_receiveFailed cn then g
     else if cn_pendingFrames cn \<ge> p_maxPendingCarrierFrames p \<or> cn_pendingBytes cn + messageBytes > p_maxPendingCarrierBytes p
     then close_socket k 1009 ''Carrier receive queue exceeded''
       (log_effect (Emit ''carrier.protocol_error'' (cn_session cn)) (on_connection k (\<lambda>cn. cn\<lparr>cn_receiveFailed := True\<rparr>) g))
     else on_connection k (\<lambda>cn. cn\<lparr>cn_pendingFrames := cn_pendingFrames cn + 1, cn_pendingBytes := cn_pendingBytes cn + messageBytes\<rparr>) g)"

definition carrier_settled :: "nat \<Rightarrow> int \<Rightarrow> gateway \<Rightarrow> gateway" where
  "carrier_settled k messageBytes =
    on_connection k (\<lambda>cn. cn\<lparr>cn_pendingFrames := cn_pendingFrames cn - 1, cn_pendingBytes := cn_pendingBytes cn - messageBytes\<rparr>)"

definition carrier_failed :: "nat \<Rightarrow> gateway \<Rightarrow> gateway" where
  "carrier_failed k g = close_socket k 1002 ''protocol error''
    (log_effect (Emit ''carrier.protocol_error'' (cn_session (gw_connection g k)))
      (on_connection k (\<lambda>cn. cn\<lparr>cn_receiveFailed := True\<rparr>) g))"

definition releasePendingCarrier :: "nat \<Rightarrow> gateway \<Rightarrow> gateway" where
  "releasePendingCarrier k g = g\<lparr>gw_admission := releasePendingCarrierConnection (cn_lease (gw_connection g k)) (gw_admission g)\<rparr>"

section \<open>HELLO\<close>

record carrierRandom =
  rnd_sessionId :: ustring
  rnd_provisionId :: ustring
  rnd_resumeSecret :: ustring
  rnd_attemptId :: string
  rnd_nonce :: "byte list"

definition registered_views :: "gateway \<Rightarrow> (nat \<times> gatewaySession) list" where
  "registered_views g = map (\<lambda>(_, r). (r, gw_object g r)) (gw_sessions g)"

definition admit_tunnel :: "gatewayParams \<Rightarrow> developerAuthorization option \<Rightarrow> bool gatewayM" where
  "admit_tunnel p authorization g =
    (let (ok, a) = canAdmitNewTunnel (p_admissionLimits p) (registered_views g) (gw_clock g) (map_option dev_accountId authorization) (gw_admission g)
     in (Inr ok, g\<lparr>gw_admission := a\<rparr>))"

definition session_snapshot :: "gatewayParams \<Rightarrow> int \<Rightarrow> helloMetadata \<Rightarrow> ustring \<Rightarrow> gatewayError + snapshot" where
  "session_snapshot p gen hello shareUrl = (case p_URL p shareUrl of
     None \<Rightarrow> Inl (FrameFailed ''Invalid URL'')
   | Some u \<Rightarrow> map_sum MetadataFailed id (createSessionConfigSnapshot (p_URL p) (Integral gen) (hm_localOriginFingerprint hello)
       (hm_originProjection hello) (units (u_origin u)) (Integral INITIAL_CONNECTION_WINDOW_BYTES) (Integral INITIAL_STREAM_WINDOW_BYTES)
       (Some (p_policy p)) (Some (p_limits p))))"

definition session_config :: "gatewayParams \<Rightarrow> int \<Rightarrow> snapshot \<Rightarrow> gatewayError + sessionConfigMetadata" where
  "session_config p revision s = map_sum MetadataFailed (\<lambda>d.
     \<lparr>sc_revision = JNumber (Integral revision), sc_digest = JString d, sc_snapshot = s\<rparr>) (digestSessionConfig (p_sha256 p) (p_URL p) s)"

definition alloc_out :: "outboundFlow \<Rightarrow> nat gatewayM" where
  "alloc_out f g = (Inr (gw_fresh g), (set_out (gw_fresh g) f g)\<lparr>gw_fresh := gw_fresh g + 1\<rparr>)"

definition alloc_in :: "gatewayInbound \<Rightarrow> nat gatewayM" where
  "alloc_in v g = (Inr (gw_fresh g), (set_in (gw_fresh g) v g)\<lparr>gw_fresh := gw_fresh g + 1\<rparr>)"

definition new_outbound :: "nat gatewayM" where
  "new_outbound = bindM (lift_gateway OutboundFailed (new_outboundFlow (Integral INITIAL_CONNECTION_WINDOW_BYTES))) alloc_out"

definition new_inbound :: "gatewayParams \<Rightarrow> nat gatewayM" where
  "new_inbound p = bindM (lift_gateway InboundFailed
    (new_gatewayInbound (Integral INITIAL_CONNECTION_WINDOW_BYTES) (Integral (p_maxPendingCarrierFrames p)))) alloc_in"

definition alloc_session :: "gatewaySession \<Rightarrow> nat gatewayM" where
  "alloc_session s g = (Inr (gw_fresh g), g\<lparr>gw_object := (gw_object g)(gw_fresh g := s), gw_fresh := gw_fresh g + 1\<rparr>)"

definition new_session :: "gatewayParams \<Rightarrow> carrierRandom \<Rightarrow> nat \<Rightarrow> helloMetadata \<Rightarrow> developerAuthorization option \<Rightarrow> nat \<Rightarrow> nat \<Rightarrow>
    sessionConfigMetadata \<Rightarrow> int \<Rightarrow> gatewaySession" where
  "new_session p rnd k hello authorization w v config now =
    \<lparr>terminated = False, lifecycle = INITIAL_SESSION_STATE, ownerAccountId = map_option dev_accountId authorization,
     g_sessionId = rnd_sessionId rnd, g_tunnelId = hm_tunnelId hello, g_shareUrl = p_shareUrl p (hm_tunnelId hello), g_socket = k,
     g_streams = [], g_streamIds = 0, g_outboundFlow = w, g_inboundFlow = v, g_generation = 1, g_revision = 1, g_config = config,
     g_lastPongAt = now, g_developerAuthorizedAt = now, g_streamRateWindowStartedAt = now, g_streamsOpenedInWindow = 0,
     g_provisionId = Some (rnd_provisionId rnd), g_resumeSecret = Some (rnd_resumeSecret rnd), g_configAckTimer = None,
     g_configSendCount = 0, g_appliedConfig = None, g_probe = None, g_resumeDigest = p_hmac p (rnd_resumeSecret rnd),
     g_expiryTimer = False, g_ownerAuthVersion = map_option dev_accountAuthVersion authorization\<rparr>"

definition provisioned_members :: "gatewaySession \<Rightarrow> (ustring, json) jsmap" where
  "provisioned_members s = [(units ''sessionId'', JString (g_sessionId s))] @
    (case g_provisionId s of None \<Rightarrow> [] | Some i \<Rightarrow> [(units ''provisionId'', JString i)]) @
    [(units ''tunnelId'', JString (g_tunnelId s)), (units ''shareUrl'', JString (g_shareUrl s))] @
    (case g_resumeSecret s of None \<Rightarrow> [] | Some i \<Rightarrow> [(units ''resumeSecret'', JString i)])"

text \<open>The new session is registered and its identity and secret are sent.\<close>

definition provision :: "nat \<Rightarrow> nat \<Rightarrow> gateway \<Rightarrow> gateway" where
  "provision k r g =
    (let g = log_effect (Emit ''tunnel.provisioned'' (Some r)) (log_effect (Metric ''tunnel_provisioned'')
           (register_session r (on_connection k (\<lambda>cn. cn\<lparr>cn_session := Some r\<rparr>) g)))
     in start_send k (frame SessionProvisioned 1 0 (Some (encodeMetadata (JObject (provisioned_members (gw_object g r))))))
       (on_connection k (\<lambda>cn. cn\<lparr>cn_mode := Some ModeCreate\<rparr>) g))"

definition create_session :: "gatewayParams \<Rightarrow> carrierRandom \<Rightarrow> nat \<Rightarrow> helloMetadata \<Rightarrow> developerAuthorization option \<Rightarrow> unit gatewayM" where
  "create_session p rnd k hello authorization =
    bindM (lift_gateway id (session_snapshot p 1 hello (p_shareUrl p (hm_tunnelId hello)))) (\<lambda>snapshot.
    bindM new_outbound (\<lambda>w.
    bindM (new_inbound p) (\<lambda>v.
    bindM (lift_gateway id (session_config p 1 snapshot)) (\<lambda>config.
    bindM (read_gateway gw_clock) (\<lambda>now.
    bindM (alloc_session (new_session p rnd k hello authorization w v config now)) (\<lambda>r.
    update_gateway (provision k r)))))))"

definition hello_create :: "gatewayParams \<Rightarrow> carrierRandom \<Rightarrow> nat \<Rightarrow> helloMetadata \<Rightarrow> developerAuthorization option \<Rightarrow> unit gatewayM" where
  "hello_create p rnd k hello authorization =
    bindM (read_gateway (\<lambda>g. map_has (gw_sessions g) (hm_tunnelId hello))) (\<lambda>exists.
    if exists then update_gateway (rejectCarrier k 0 ''PROTOCOL_ERROR'' None)
    else
      bindM (admit_tunnel p authorization) (\<lambda>admitted.
      if \<not> admitted then update_gateway (rejectCarrier k 0 ''RELAY_NOT_READY'' None)
      else create_session p rnd k hello authorization))"

fun resume_open :: "gatewayParams \<Rightarrow> sessionState \<Rightarrow> int \<Rightarrow> bool" where
  "resume_open p (RECONNECTING c) now = isResumeAllowed now (disconnectedAt c) (p_policy p)"
| "resume_open p _ now = False"

definition resume_refused :: "gatewayParams \<Rightarrow> helloMetadata \<Rightarrow> gatewaySession \<Rightarrow> int \<Rightarrow> bool" where
  "resume_refused p hello s now = (terminated s \<or> \<not> resume_open p (lifecycle s) now \<or>
     (case hm_resumeSecret hello of None \<Rightarrow> True | Some secret \<Rightarrow> \<not> resumeSecretMatches p secret (g_resumeDigest s)))"

definition session_owner :: "gatewaySession \<Rightarrow> (string \<times> int) option" where
  "session_owner s = (case (ownerAccountId s, g_ownerAuthVersion s) of (Some a, Some v) \<Rightarrow> Some (a, v) | _ \<Rightarrow> None)"

definition authorization_owner :: "developerAuthorization option \<Rightarrow> (string \<times> int) option" where
  "authorization_owner authorization = map_option (\<lambda>d. (dev_accountId d, dev_accountAuthVersion d)) authorization"

definition config_differs :: "helloMetadata \<Rightarrow> gatewaySession \<Rightarrow> bool" where
  "config_differs hello s = (let snap = sc_snapshot (g_config s) in
     sn_localOriginFingerprint snap \<noteq> JString (hm_localOriginFingerprint hello) \<or>
     sn_originProjection snap \<noteq> JString (units (projection_text (hm_originProjection hello))))"

fun candidate_generation :: "sessionState \<Rightarrow> int option" where
  "candidate_generation (RECONNECTING c) = candidateGeneration c"
| "candidate_generation _ = None"

text \<open>The session moves to the new socket: a new generation with new flow windows, ids and configuration.\<close>

definition resume_session :: "gatewayParams \<Rightarrow> nat \<Rightarrow> helloMetadata \<Rightarrow> string \<Rightarrow> nat \<Rightarrow> unit gatewayM" where
  "resume_session p k hello attemptId r =
    bindM (update_gateway (\<lambda>g. on_session r (\<lambda>s. s\<lparr>g_socket := k\<rparr>) (disposeActivationCandidate r
      (on_connection k (\<lambda>cn. cn\<lparr>cn_session := Some r, cn_resumeAttemptId := Some attemptId\<rparr>) g)))) (\<lambda>_.
    bindM new_outbound (\<lambda>w.
    bindM (update_gateway (on_session r (\<lambda>s. s\<lparr>g_outboundFlow := w\<rparr>))) (\<lambda>_.
    bindM (new_inbound p) (\<lambda>v.
    bindM (update_gateway (on_session r (\<lambda>s. s\<lparr>g_inboundFlow := v, g_streamIds := reset_ids (g_streamIds s)\<rparr>))) (\<lambda>_.
    bindM (read_gateway (\<lambda>g. candidate_generation (lifecycle (gw_object g r)))) (\<lambda>candidate.
    case candidate of
      None \<Rightarrow> throw_gateway (FrameFailed ''resume candidate has no generation'')
    | Some n \<Rightarrow>
        bindM (update_gateway (on_session r (\<lambda>s. s\<lparr>g_generation := n, g_revision := g_revision s + 1\<rparr>))) (\<lambda>_.
        bindM (read_gateway (\<lambda>g. gw_object g r)) (\<lambda>s.
        bindM (lift_gateway id (session_snapshot p n hello (g_shareUrl s))) (\<lambda>snapshot.
        bindM (lift_gateway id (session_config p (g_revision s) snapshot)) (\<lambda>config.
        update_gateway (\<lambda>g. on_connection k (\<lambda>cn. cn\<lparr>cn_mode := Some ModeResume\<rparr>) (on_session r (\<lambda>s. s\<lparr>g_config := config,
          g_lastPongAt := gw_clock g, g_developerAuthorizedAt := gw_clock g, g_configSendCount := 0, g_appliedConfig := None\<rparr>) g))))))))))))"

definition start_resume :: "gatewayParams \<Rightarrow> carrierRandom \<Rightarrow> nat \<Rightarrow> helloMetadata \<Rightarrow> nat \<Rightarrow> unit gatewayM" where
  "start_resume p rnd k hello r =
    bindM (read_gateway (\<lambda>g. transitionSession (lifecycle (gw_object g r)) (START_RESUME (gw_clock g) (rnd_attemptId rnd)) (p_policy p))) (\<lambda>result.
    case result of
      Inl e \<Rightarrow>
        if e = SessionTransitionError RESUME_IN_PROGRESS then update_gateway (rejectCarrier k 0 ''RESUME_IN_PROGRESS'' (Some 500))
        else throw_gateway (TransitionFailed e)
    | Inr nextLifecycle \<Rightarrow>
        bindM (applySessionTransition p r nextLifecycle) (\<lambda>applied.
        if \<not> applied then update_gateway (rejectCarrier k 0 ''RESUME_REJECTED'' None)
        else case nextLifecycle of
          RECONNECTING _ \<Rightarrow>
            bindM (resume_session p k hello (rnd_attemptId rnd) r) (\<lambda>_.
            update_gateway (\<lambda>g. sendSessionConfig r (captureGatewayTransport (gw_object g r)) g))
        | _ \<Rightarrow> throw_gateway (FrameFailed ''resume start did not remain RECONNECTING'')))"

definition hello_resume :: "gatewayParams \<Rightarrow> carrierRandom \<Rightarrow> nat \<Rightarrow> helloMetadata \<Rightarrow> developerAuthorization option \<Rightarrow> unit gatewayM" where
  "hello_resume p rnd k hello authorization =
    bindM (read_gateway (\<lambda>g. (session_of g (Some (hm_tunnelId hello)), gw_object g, gw_clock g))) (\<lambda>(existing, object, now).
    case existing of
      None \<Rightarrow> update_gateway (rejectCarrier k 0 ''RESUME_REJECTED'' None)
    | Some r \<Rightarrow>
        if resume_refused p hello (object r) now then update_gateway (rejectCarrier k 0 ''RESUME_REJECTED'' None)
        else if \<not> resumeOwnerAuthorizationMatches (session_owner (object r)) (authorization_owner authorization)
        then update_gateway (rejectCarrier k 0 ''AUTH_FAILED'' None)
        else if config_differs hello (object r) then update_gateway (rejectCarrier k 0 ''CONFIG_APPLY_FAILED'' None)
        else start_resume p rnd k hello r)"

fun purpose_matches :: "carrierPurpose \<Rightarrow> helloMode \<Rightarrow> bool" where
  "purpose_matches CarrierCreate ModeCreate = True"
| "purpose_matches CarrierResume ModeResume = True"
| "purpose_matches _ _ = False"

definition authorization_mismatch :: "gatewayParams \<Rightarrow> developerAuthorization option \<Rightarrow> helloMetadata \<Rightarrow> bool" where
  "authorization_mismatch p authorization hello = (p_requireAuthorization p \<and>
     (case authorization of None \<Rightarrow> True
      | Some d \<Rightarrow> \<not> purpose_matches (dev_purpose d) (hm_mode hello) \<or> units (dev_tunnelId d) \<noteq> hm_tunnelId hello))"

definition carrier_hello :: "gatewayParams \<Rightarrow> carrierRandom \<Rightarrow> nat \<Rightarrow> envelope \<Rightarrow> unit gatewayM" where
  "carrier_hello p rnd k e =
    (if envType e \<noteq> Hello \<or> envGeneration e \<noteq> Integral 0 then throw_gateway (FrameFailed ''HELLO must be the first Carrier frame'')
     else
       bindM (lift_metadata (decodeHelloMetadata (envPayload e))) (\<lambda>hello.
       bindM (read_gateway (\<lambda>g. cn_authorization (gw_connection g k))) (\<lambda>authorization.
       if authorization_mismatch p authorization hello then update_gateway (close_socket k 1008 ''carrier authorization mismatch'')
       else
         bindM (update_gateway (releasePendingCarrier k)) (\<lambda>_.
         case hm_mode hello of
           ModeCreate \<Rightarrow> hello_create p rnd k hello authorization
         | ModeResume \<Rightarrow> hello_resume p rnd k hello authorization))))"

text \<open>When the sends of \<^verbatim>\<open>SESSION_PROVISIONED\<close> and \<^verbatim>\<open>SESSION_CONFIG\<close> have settled.\<close>

definition provisioned_sent :: "nat \<Rightarrow> nat \<Rightarrow> gateway \<Rightarrow> gateway" where
  "provisioned_sent k r g =
    (if \<not> is_registered g r \<or> g_socket (gw_object g r) \<noteq> k then g
     else sendSessionConfig r (captureGatewayTransport (gw_object g r)) g)"

definition config_sent :: "gatewayParams \<Rightarrow> nat \<Rightarrow> nat \<Rightarrow> transportEpoch \<Rightarrow> unit gatewayM" where
  "config_sent p k r t =
    bindM (read_gateway (\<lambda>g. isCurrentGatewaySessionTransport g r t)) (\<lambda>current.
    if \<not> current then ret ()
    else
      bindM (armActivationTimeout p r t) (\<lambda>_.
      update_gateway (on_connection k (\<lambda>cn. cn\<lparr>cn_helloTimer := False\<rparr>))))"

section \<open>Configuration, probe and activation\<close>

definition rejecting :: "nat \<Rightarrow> nat \<Rightarrow> string \<Rightarrow> unit gatewayM" where
  "rejecting k r errorCode = update_gateway (\<lambda>g. rejectCarrier k (g_generation (gw_object g r)) errorCode None g)"

definition open_probe :: "carrierRandom \<Rightarrow> nat \<Rightarrow> unit gatewayM" where
  "open_probe rnd r =
    bindM (update_gateway (\<lambda>g. log_effect (Emit ''tunnel.config_applied'' (Some r)) (log_effect (Metric ''config_applied'') g))) (\<lambda>_.
    bindM (issue_stream_id r) (\<lambda>i.
    bindM (read_gateway (\<lambda>g. (captureGatewayTransport (gw_object g r), gw_fresh g))) (\<lambda>(t, identity).
    bindM (update_gateway (\<lambda>g. (on_session r (\<lambda>s. s\<lparr>g_probe := Some \<lparr>pr_id = identity, pr_streamId = i, pr_expected = rnd_nonce rnd,
      pr_received = [], pr_receivedBytes = 0, pr_clientEnded = False\<rparr>\<rparr>) g)\<lparr>gw_fresh := gw_fresh g + 1\<rparr>)) (\<lambda>_.
    bindM (out_openStream (te_outboundFlow t) i) (\<lambda>_.
    bindM (in_openStream (te_inboundFlow t) i) (\<lambda>_.
    update_gateway (start_send (te_socket t) (frame OpenProbe (te_generation t) i
      (Some (encodeMetadata (JObject [(units ''initialWindowBytes'', JNumber (Integral INITIAL_STREAM_WINDOW_BYTES))])))))))))))"

definition config_applied :: "carrierRandom \<Rightarrow> nat \<Rightarrow> nat \<Rightarrow> byte list \<Rightarrow> unit gatewayM" where
  "config_applied rnd k r payload =
    bindM (lift_metadata (decodeConfigAppliedMetadata payload)) (\<lambda>applied.
    bindM (read_gateway (\<lambda>g. (gw_object g r, gw_connection g k))) (\<lambda>(s, cn).
    case g_appliedConfig s of
      Some previous \<Rightarrow> if sameConfigApplied previous applied then ret () else rejecting k r ''CONFIG_APPLY_FAILED''
    | None \<Rightarrow>
        if JNumber (Integral (ca_revision applied)) \<noteq> sc_revision (g_config s) \<or> JString (ca_digest applied) \<noteq> sc_digest (g_config s)
        then rejecting k r ''CONFIG_APPLY_FAILED''
        else if cn_mode cn = Some ModeCreate \<and> ca_provisionReceipt applied \<noteq> g_provisionId s then rejecting k r ''PROVISION_RECEIPT_FAILED''
        else if \<not> ca_localOriginReady applied then rejecting k r ''LOCAL_ORIGIN_UNAVAILABLE''
        else if ca_result applied \<noteq> Applied then rejecting k r ''CONFIG_APPLY_FAILED''
        else
          bindM (update_gateway (on_session r (\<lambda>s. s\<lparr>g_appliedConfig := Some applied, g_provisionId := None, g_resumeSecret := None\<rparr>))) (\<lambda>_.
          if g_probe s = None then open_probe rnd r else ret ())))"

definition current_probe :: "gateway \<Rightarrow> nat \<Rightarrow> transportEpoch \<Rightarrow> nat \<Rightarrow> bool" where
  "current_probe g r t identity = (isCurrentGatewaySessionTransport g r t \<and> map_option pr_id (g_probe (gw_object g r)) = Some identity)"

text \<open>
  The probe's nonce goes out through the flow-controlled sender, in steps of credit and frames, between the
  two checks for the current probe, and END follows.
\<close>

definition probe_take :: "nat \<Rightarrow> transportEpoch \<Rightarrow> nat \<Rightarrow> int \<Rightarrow> int \<Rightarrow> nat \<Rightarrow> gateway \<Rightarrow> gateway" where
  "probe_take r t identity i bytes ticket g =
    (let w = te_outboundFlow t in set_out w (snd (take_credit (gw_out g w) i (Integral bytes) ticket)) g)"

definition probe_send :: "transportEpoch \<Rightarrow> int \<Rightarrow> byte list \<Rightarrow> gateway \<Rightarrow> gateway" where
  "probe_send t i payload g = start_send (te_socket t) (data_input (Integral (te_generation t)) (Integral i) payload) g"

definition probe_sent :: "nat \<Rightarrow> transportEpoch \<Rightarrow> nat \<Rightarrow> int \<Rightarrow> gateway \<Rightarrow> gateway" where
  "probe_sent r t identity i g =
    (if \<not> current_probe g r t identity then g else start_send (te_socket t) (frame EndStream (te_generation t) i None) g)"

definition probe_data :: "nat \<Rightarrow> probe \<Rightarrow> byte list \<Rightarrow> unit gatewayM" where
  "probe_data r pr payload =
    bindM (read_gateway (\<lambda>g. captureGatewayTransport (gw_object g r))) (\<lambda>t.
    bindM (in_op (te_inboundFlow t) (\<lambda>w. gateway_consume w (pr_streamId pr) (Integral (int (length payload))))) (\<lambda>_.
    let received = pr_receivedBytes pr + int (length payload) in
    bindM (update_gateway (on_session r (\<lambda>s. s\<lparr>g_probe := Some (pr\<lparr>pr_receivedBytes := received\<rparr>)\<rparr>))) (\<lambda>_.
    if received > int (length (pr_expected pr)) then throw_gateway (FrameFailed ''Relay probe payload is too large'')
    else update_gateway (\<lambda>g. sendWindowUpdate t (pr_streamId pr) (int (length payload)) (on_session r (\<lambda>s. s\<lparr>g_probe :=
      Some (pr\<lparr>pr_receivedBytes := received, pr_received := pr_received pr @ payload\<rparr>)\<rparr>) g)))))"

definition probe_window_sent :: "nat \<Rightarrow> transportEpoch \<Rightarrow> nat \<Rightarrow> int \<Rightarrow> int \<Rightarrow> unit gatewayM" where
  "probe_window_sent r t identity i bytes =
    bindM (read_gateway (\<lambda>g. current_probe g r t identity)) (\<lambda>current.
    if \<not> current then ret () else in_op (te_inboundFlow t) (\<lambda>w. gateway_release w i (Integral bytes)))"

fun is_reconnecting :: "sessionState \<Rightarrow> bool" where
  "is_reconnecting (RECONNECTING _) = True"
| "is_reconnecting _ = False"

fun active_generation :: "sessionState \<Rightarrow> int option" where
  "active_generation (ACTIVE a) = Some (generation a)"
| "active_generation _ = None"

definition session_active_members :: "gatewaySession \<Rightarrow> (ustring, json) jsmap" where
  "session_active_members s =
    [(units ''generation'', JNumber (Integral (g_generation s))), (units ''tunnelId'', JString (g_tunnelId s)),
     (units ''shareUrl'', JString (g_shareUrl s)), (units ''readiness'', JObject (map (\<lambda>n. (units n, JBool True)) READINESS))]"

text \<open>The lifecycle's part of the activation: \<^const>\<open>False\<close> when the session expired instead.\<close>

definition commit_activation :: "gatewayParams \<Rightarrow> nat \<Rightarrow> nat \<Rightarrow> bool gatewayM" where
  "commit_activation p k r =
    bindM (read_gateway (\<lambda>g. (lifecycle (gw_object g r), cn_resumeAttemptId (gw_connection g k)))) (\<lambda>(state, attempt).
    if is_creating state then
      bindM (transition p r ACTIVATE) (\<lambda>nextLifecycle.
      bindM (update_gateway (on_session r (\<lambda>s. s\<lparr>lifecycle := nextLifecycle\<rparr>))) (\<lambda>_. ret True))
    else case attempt of
      None \<Rightarrow> throw_gateway (FrameFailed ''resume candidate has no attempt ID'')
    | Some a \<Rightarrow> bindM (transition p r (\<lambda>now. RESUME_COMMITTED now a)) (applySessionTransition p r))"

definition activate_session :: "gatewayParams \<Rightarrow> nat \<Rightarrow> nat \<Rightarrow> probe \<Rightarrow> unit gatewayM" where
  "activate_session p k r pr =
    bindM (update_gateway (\<lambda>g. out_closeStream (g_outboundFlow (gw_object g r)) (pr_streamId pr) g)) (\<lambda>_.
    bindM (read_gateway (\<lambda>g. g_inboundFlow (gw_object g r))) (\<lambda>w.
    bindM (in_closeStream w (pr_streamId pr)) (\<lambda>_.
    bindM (update_gateway (on_session r (\<lambda>s. s\<lparr>g_probe := None\<rparr>))) (\<lambda>_.
    bindM (commit_activation p k r) (\<lambda>committed.
    if \<not> committed then ret ()
    else
      bindM (read_gateway (\<lambda>g. gw_object g r)) (\<lambda>s.
      if active_generation (lifecycle s) \<noteq> Some (g_generation s) then throw_gateway (FrameFailed ''activation commit generation mismatch'')
      else update_gateway (start_send (g_socket s) (frame SessionActive (g_generation s) 0
        (Some (encodeMetadata (JObject (session_active_members s))))))))))))"

definition activation_sent :: "nat \<Rightarrow> transportEpoch \<Rightarrow> bool \<Rightarrow> gateway \<Rightarrow> gateway" where
  "activation_sent r t resumed g =
    (if \<not> isCurrentGatewaySessionTransport g r t \<or> active_generation (lifecycle (gw_object g r)) \<noteq> Some (te_generation t) then g
     else log_effect (Emit (if resumed then ''tunnel.resumed'' else ''tunnel.active'') (Some r))
       (log_effect (Metric (if resumed then ''tunnel_resumed'' else ''tunnel_active''))
         (on_session r (\<lambda>s. s\<lparr>g_configAckTimer := None, g_expiryTimer := False\<rparr>) g)))"

definition probe_end :: "gatewayParams \<Rightarrow> bool \<Rightarrow> nat \<Rightarrow> nat \<Rightarrow> probe \<Rightarrow> unit gatewayM" where
  "probe_end p admissionReady k r pr =
    (if pr_clientEnded pr then throw_gateway (FrameFailed ''duplicate Relay probe END'')
     else
       bindM (update_gateway (on_session r (\<lambda>s. s\<lparr>g_probe := Some (pr\<lparr>pr_clientEnded := True\<rparr>)\<rparr>))) (\<lambda>_.
       if length (pr_received pr) \<noteq> length (pr_expected pr) \<or> pr_received pr \<noteq> pr_expected pr then rejecting k r ''RELAY_NOT_READY''
       else
         bindM (read_gateway (\<lambda>g. (gw_killSwitch g, canActivateTunnel (p_admissionLimits p) (registered_views g) (r, gw_object g r)))) (\<lambda>(killed, capacity).
         if killed \<or> \<not> admissionReady then rejecting k r ''RELAY_NOT_READY''
         else if \<not> capacity then rejecting k r ''RELAY_NOT_READY''
         else activate_session p k r pr)))"

definition activation_frame :: "gatewayParams \<Rightarrow> bool \<Rightarrow> nat \<Rightarrow> nat \<Rightarrow> envelope \<Rightarrow> unit gatewayM" where
  "activation_frame p admissionReady k r e =
    bindM (read_gateway (\<lambda>g. gw_object g r)) (\<lambda>s.
    case g_probe s of
      None \<Rightarrow> throw_gateway (FrameFailed ''application frame before SESSION_ACTIVE'')
    | Some pr \<Rightarrow>
        if to_int (envStreamId e) \<noteq> pr_streamId pr then throw_gateway (FrameFailed ''application frame before SESSION_ACTIVE'')
        else case envType e of
          WindowUpdate \<Rightarrow> bindM (lift_metadata (decodeWindowUpdate (envPayload e))) (\<lambda>bytes. out_update (g_outboundFlow s) (pr_streamId pr) bytes)
        | Data \<Rightarrow> probe_data r pr (envPayload e)
        | EndStream \<Rightarrow> probe_end p admissionReady k r pr
        | _ \<Rightarrow> throw_gateway (FrameFailed ''unexpected activation frame''))"

section \<open>Frames\<close>

definition applied_again :: "nat \<Rightarrow> nat \<Rightarrow> byte list \<Rightarrow> unit gatewayM" where
  "applied_again k r payload =
    bindM (lift_metadata (decodeConfigAppliedMetadata payload)) (\<lambda>applied.
    bindM (read_gateway (\<lambda>g. g_appliedConfig (gw_object g r))) (\<lambda>previous.
    if (case previous of None \<Rightarrow> False | Some c \<Rightarrow> sameConfigApplied c applied) then ret () else rejecting k r ''CONFIG_APPLY_FAILED''))"

definition session_frame :: "gatewayParams \<Rightarrow> bool \<Rightarrow> carrierRandom \<Rightarrow> nat \<Rightarrow> nat \<Rightarrow> envelope \<Rightarrow> unit gatewayM" where
  "session_frame p admissionReady rnd k r e =
    bindM (read_gateway (\<lambda>g. (gw_object g r, is_registered g r))) (\<lambda>(s, registered).
    if envGeneration e \<noteq> Integral (g_generation s) then throw_gateway (FrameFailed ''stale Carrier generation'')
    else if terminated s \<or> \<not> registered then ret ()
    else if envType e = Pong \<and> envStreamId e = Integral 0 then
      if envPayload e \<noteq> [] then throw_gateway (FrameFailed ''PONG payload must be empty'')
      else update_gateway (\<lambda>g. on_session r (\<lambda>s. s\<lparr>g_lastPongAt := gw_clock g\<rparr>) g)
    else if envType e = Ping \<and> envStreamId e = Integral 0 then
      if envPayload e \<noteq> [] then throw_gateway (FrameFailed ''PING payload must be empty'')
      else update_gateway (start_send k (frame Pong (g_generation s) 0 None))
    else if \<not> is_active (lifecycle s) then
      if envType e = ConfigApplied then config_applied rnd k r (envPayload e) else activation_frame p admissionReady k r e
    else if envType e = CloseSession \<and> envStreamId e = Integral 0 then
      bindM (update_gateway (on_connection k (\<lambda>cn. cn\<lparr>cn_receiveFailed := True\<rparr>))) (\<lambda>_.
      terminateGatewaySession p r ''session closed'' 1000)
    else if envType e = ConfigApplied \<and> envStreamId e = Integral 0 then applied_again k r (envPayload e)
    else handleClientFrame p r e)"

definition carrier_frame :: "gatewayParams \<Rightarrow> bool \<Rightarrow> carrierRandom \<Rightarrow> nat \<Rightarrow> bool \<Rightarrow> byte list \<Rightarrow> unit gatewayM" where
  "carrier_frame p admissionReady rnd k isBinary bytes =
    (if \<not> isBinary then throw_gateway (FrameFailed ''Carrier accepts binary frames only'')
     else case decodeEnvelope bytes of
       Inl _ \<Rightarrow> throw_gateway (FrameFailed ''invalid envelope'')
     | Inr e \<Rightarrow>
         bindM (read_gateway (\<lambda>g. cn_session (gw_connection g k))) (\<lambda>session.
         case session of None \<Rightarrow> carrier_hello p rnd k e | Some r \<Rightarrow> session_frame p admissionReady rnd k r e))"

text \<open>A step of a connection: a throw ends its reception and closes the socket.\<close>

definition caught :: "nat \<Rightarrow> unit gatewayM \<Rightarrow> gateway \<Rightarrow> gateway" where
  "caught k m g = (case m g of (Inr _, g') \<Rightarrow> g' | (Inl _, g') \<Rightarrow> carrier_failed k g')"

definition carrier_receive :: "gatewayParams \<Rightarrow> bool \<Rightarrow> carrierRandom \<Rightarrow> nat \<Rightarrow> bool \<Rightarrow> byte list \<Rightarrow> gateway \<Rightarrow> gateway" where
  "carrier_receive p admissionReady rnd k isBinary bytes g =
    (if cn_receiveFailed (gw_connection g k) then g else caught k (carrier_frame p admissionReady rnd k isBinary bytes) g)"

section \<open>The end of a carrier\<close>

definition await_reconnect :: "nat \<Rightarrow> gateway \<Rightarrow> gateway" where
  "await_reconnect r g = on_session r (\<lambda>s. s\<lparr>g_expiryTimer := is_reconnecting (lifecycle s)\<rparr>) g"

definition carrier_lost :: "gatewayParams \<Rightarrow> nat \<Rightarrow> unit gatewayM" where
  "carrier_lost p r =
    bindM (transition p r CARRIER_LOST) (\<lambda>nextLifecycle.
    bindM (applySessionTransition p r nextLifecycle) (\<lambda>applied.
    if \<not> applied then ret ()
    else update_gateway (\<lambda>g. await_reconnect r
      (log_effect (Emit ''tunnel.reconnecting'' (Some r)) (log_effect (Metric ''tunnel_reconnecting'') g)))))"

definition activation_failed :: "nat \<Rightarrow> gateway \<Rightarrow> gateway" where
  "activation_failed r g = log_effect (Emit ''tunnel.activation_failed'' (Some r)) (log_effect (Metric ''activation_failed'') g)"

definition resume_lost :: "gatewayParams \<Rightarrow> nat \<Rightarrow> nat \<Rightarrow> unit gatewayM" where
  "resume_lost p k r =
    bindM (read_gateway (\<lambda>g. (lifecycle (gw_object g r), cn_resumeAttemptId (gw_connection g k)))) (\<lambda>(state, attempt).
    bindM (case (state, attempt) of
        (RECONNECTING c, Some a) \<Rightarrow>
          if candidateAttemptId c = Some a then bindM (transition p r (\<lambda>now. RESUME_FAILED now a)) (applySessionTransition p r) else ret True
      | _ \<Rightarrow> ret True) (\<lambda>applied.
    if \<not> applied then ret () else update_gateway (\<lambda>g. await_reconnect r (activation_failed r g))))"

definition cleanup_session :: "gatewayParams \<Rightarrow> nat \<Rightarrow> nat \<Rightarrow> unit gatewayM" where
  "cleanup_session p k r =
    bindM (read_gateway (\<lambda>g. lifecycle (gw_object g r))) (\<lambda>before.
    bindM (update_gateway (disposeActivationCandidate r)) (\<lambda>_.
    bindM (closeGatewayStreams r (units ''TUNNEL_OFFLINE'')) (\<lambda>_.
    bindM (read_gateway (\<lambda>g. gw_object g r)) (\<lambda>s.
    if terminated s then
      update_gateway (\<lambda>g. remove_session r (disposeReviewBinding p r
        (log_effect (Emit ''tunnel.closed'' (Some r)) (log_effect (Metric ''tunnel_closed'') g))))
    else if is_creating (lifecycle s) then update_gateway (\<lambda>g. remove_session r (activation_failed r g))
    else if is_active before then carrier_lost p r
    else if is_reconnecting (lifecycle s) then resume_lost p k r
    else ret ()))))"

definition carrier_cleanup :: "gatewayParams \<Rightarrow> nat \<Rightarrow> unit gatewayM" where
  "carrier_cleanup p k =
    bindM (read_gateway (\<lambda>g. gw_connection g k)) (\<lambda>cn.
    if cn_cleanedUp cn then ret ()
    else
      bindM (update_gateway (on_connection k (\<lambda>cn. cn\<lparr>cn_cleanedUp := True, cn_helloTimer := False\<rparr>))) (\<lambda>_.
      case cn_session cn of
        None \<Rightarrow> ret ()
      | Some r \<Rightarrow>
          bindM (read_gateway (\<lambda>g. is_registered g r \<and> g_socket (gw_object g r) = k)) (\<lambda>current.
          if \<not> current then ret () else cleanup_session p k r)))"

definition carrier_ended :: "gatewayParams \<Rightarrow> nat \<Rightarrow> unit gatewayM" where
  "carrier_ended p k =
    bindM (update_gateway (\<lambda>g. g\<lparr>gw_socket := (gw_socket g)(k := (gw_socket g k)\<lparr>readyState := 3\<rparr>)\<rparr>)) (\<lambda>_.
    bindM (carrier_cleanup p k) (\<lambda>_.
    update_gateway (releasePendingCarrier k)))"

text \<open>The timer \<^verbatim>\<open>cleanup\<close> arms for a session that waits for its client, when it is still armed.\<close>

definition reconnect_timeout :: "gatewayParams \<Rightarrow> nat \<Rightarrow> unit gatewayM" where
  "reconnect_timeout p r =
    bindM (read_gateway (\<lambda>g. g_expiryTimer (gw_object g r) \<and> is_registered g r \<and> is_reconnecting (lifecycle (gw_object g r)))) (\<lambda>fires.
    bindM (update_gateway (on_session r (\<lambda>s. s\<lparr>g_expiryTimer := False\<rparr>))) (\<lambda>_.
    if \<not> fires then ret ()
    else
      bindM (transition p r TICK) (\<lambda>nextLifecycle.
      bindM (update_gateway (on_session r (\<lambda>s. s\<lparr>lifecycle := nextLifecycle\<rparr>))) (\<lambda>_.
      case nextLifecycle of EXPIRED reason _ \<Rightarrow> expireGatewaySession p r (reason_text reason) | _ \<Rightarrow> ret ()))))"

end
