(* ===== verification/GatewayOperations.thy ===== *)
theory GatewayOperations
  imports GatewayCarrier
begin

text \<open>
  The timers and switches of the gateway, \<^verbatim>\<open>apps/gateway/src/gateway-operations.ts\<close>, and the revalidation of
  authorizations, \<^verbatim>\<open>authorization-revalidation.ts\<close>. The answers of the authentication service are
  arguments; \<^verbatim>\<open>AuthService\<close> models the service itself.
\<close>

text \<open>
  A loop over \<^verbatim>\<open>sessions.values()\<close> whose body may remove sessions: the iterator of a map visits only entries that are
  still there.
\<close>

definition each_session :: "(nat \<Rightarrow> unit gatewayM) \<Rightarrow> unit gatewayM" where
  "each_session f = bindM (read_gateway (\<lambda>g. map_values (gw_sessions g))) (for_each (\<lambda>r.
     bindM (read_gateway (\<lambda>g. is_registered g r)) (\<lambda>present. if present then f r else ret ())))"

section \<open>Heartbeat\<close>

definition heartbeat_session :: "gatewayParams \<Rightarrow> nat \<Rightarrow> gateway \<Rightarrow> gateway" where
  "heartbeat_session p r g =
    (let s = gw_object g r; t = captureGatewayTransport s in
     if \<not> is_open g (te_socket t) then g
     else if gw_clock g - g_lastPongAt s \<ge> p_carrierLeaseMs p then close_socket (te_socket t) 1001 ''carrier lease expired'' g
     else start_send (te_socket t) (frame Ping (te_generation t) 0 None) g)"

definition heartbeat :: "gatewayParams \<Rightarrow> gateway \<Rightarrow> gateway" where
  "heartbeat p g = fold (heartbeat_session p) (map_values (gw_sessions g)) g"

definition heartbeat_failed :: "nat \<Rightarrow> transportEpoch \<Rightarrow> gateway \<Rightarrow> gateway" where
  "heartbeat_failed r t g =
    (if isCurrentGatewaySessionTransport g r t then close_socket (te_socket t) 1011 ''heartbeat failed'' g else g)"

section \<open>The session tick\<close>

text \<open>A stream whose reviewer may no longer use it.\<close>

definition revoke_stream :: "gatewayParams \<Rightarrow> nat \<Rightarrow> int \<Rightarrow> nat \<Rightarrow> string \<Rightarrow> unit gatewayM" where
  "revoke_stream p r i st errorCode =
    bindM (update_gateway (on_stream st (\<lambda>s. s\<lparr>gs_cancelled := True\<rparr>))) (\<lambda>_.
    bindM (read_gateway (\<lambda>g. gs_transport (gw_stream g st))) (\<lambda>t.
    bindM (removeGatewayStream p r i st LocalReset) (\<lambda>_.
    update_gateway (\<lambda>g. sendReset t i (units errorCode) (destroy_exchange st (out_closeStream (te_outboundFlow t) i g))))))"

text \<open>The loop over the streams of a session visits only entries that are still in the map.\<close>

definition tick_stream :: "gatewayParams \<Rightarrow> nat \<Rightarrow> int \<Rightarrow> int \<times> nat \<Rightarrow> unit gatewayM" where
  "tick_stream p r checkedAt entry = (case entry of (i, st) \<Rightarrow>
    bindM (read_gateway (\<lambda>g. (map_get (g_streams (gw_object g r)) i = Some st, gs_reviewerAuthorizedAt (gw_stream g st)))) (\<lambda>(present, authorizedAt).
    if \<not> present \<or> (case authorizedAt of None \<Rightarrow> True | Some at \<Rightarrow> checkedAt < at + p_authorizationMaxAgeMs p) then ret ()
    else revoke_stream p r i st ''AUTHORIZATION_EXPIRED''))"

fun expiry_reason :: "sessionState \<Rightarrow> string" where
  "expiry_reason (EXPIRED reason _) = reason_text reason"
| "expiry_reason _ = ''UNKNOWN''"

fun is_expired :: "sessionState \<Rightarrow> bool" where
  "is_expired (EXPIRED _ _) = True"
| "is_expired _ = False"

definition tick_session :: "gatewayParams \<Rightarrow> nat \<Rightarrow> unit gatewayM" where
  "tick_session p r =
    bindM (read_gateway (\<lambda>g. (gw_object g r, gw_clock g))) (\<lambda>(s, checkedAt).
    if \<not> is_live (lifecycle s) then ret ()
    else
      bindM (transition p r TICK) (\<lambda>nextLifecycle.
      let developerAuthorizationExpired = (checkedAt \<ge> g_developerAuthorizedAt s + p_authorizationMaxAgeMs p) in
      if is_expired nextLifecycle \<or> developerAuthorizationExpired then
        bindM (update_gateway (on_session r (\<lambda>s. s\<lparr>lifecycle := nextLifecycle\<rparr>))) (\<lambda>_.
        expireGatewaySession p r (if developerAuthorizationExpired then ''AUTHORIZATION_EXPIRED'' else expiry_reason nextLifecycle))
      else if is_reconnecting (lifecycle s) then ret ()
      else for_each (tick_stream p r checkedAt) (g_streams s)))"

definition session_tick :: "gatewayParams \<Rightarrow> unit gatewayM" where
  "session_tick p = each_session (tick_session p)"

section \<open>The kill switch\<close>

definition updateKillSwitch :: "gatewayParams \<Rightarrow> bool \<Rightarrow> unit gatewayM" where
  "updateKillSwitch p enabled =
    bindM (read_gateway gw_killSwitch) (\<lambda>killSwitchEnabled.
    if killSwitchEnabled = enabled then ret ()
    else
      bindM (update_gateway (\<lambda>g. log_effect (Emit (if enabled then ''kill_switch.enabled'' else ''kill_switch.disabled'') None)
        (log_effect (Metric ''kill_switch_changed'') (g\<lparr>gw_killSwitch := enabled\<rparr>)))) (\<lambda>_.
      if \<not> enabled then ret ()
      else each_session (\<lambda>r. terminateGatewaySession p r ''operational kill switch'' 1008)))"

record gatewayMetrics =
  activeTunnels :: int
  reconnectingTunnels :: int
  activeStreams_metric :: int
  killSwitch_metric :: bool
  admissionReady_metric :: bool

definition metricSnapshot :: "bool \<Rightarrow> gateway \<Rightarrow> gatewayMetrics" where
  "metricSnapshot gatewayAdmissionReady g =
    (let ss = map (gw_object g) (map_values (gw_sessions g)) in
     \<lparr>activeTunnels = count_if (\<lambda>s. is_active (lifecycle s)) ss,
      reconnectingTunnels = count_if (\<lambda>s. is_reconnecting (lifecycle s)) ss,
      activeStreams_metric = sum_list (map (\<lambda>s. map_size (g_streams s)) ss),
      killSwitch_metric = gw_killSwitch g,
      admissionReady_metric = (\<not> gw_killSwitch g \<and> gatewayAdmissionReady)\<rparr>)"

section \<open>Revalidation of authorizations\<close>

definition AUTHORIZATION_REVALIDATION_CONCURRENCY :: int where
  "AUTHORIZATION_REVALIDATION_CONCURRENCY = 4"

datatype checkResult = Fulfilled bool | Rejected

datatype batchOutcome = BatchResults "bool list" | BatchTimedOut | BatchFailed

text \<open>
  \<^verbatim>\<open>checkAuthorizations\<close>: the batch query, and for every failure but a timeout the single queries, whose outcomes
  are given by index.
\<close>

definition checkAuthorizations :: "'c list \<Rightarrow> batchOutcome \<Rightarrow> (nat \<Rightarrow> checkResult) \<Rightarrow> checkResult list" where
  "checkAuthorizations checks batch single =
    (if checks = [] then []
     else case batch of
       BatchTimedOut \<Rightarrow> map (\<lambda>_. Rejected) checks
     | BatchFailed \<Rightarrow> map single [0..<length checks]
     | BatchResults results \<Rightarrow>
         if length results \<noteq> length checks then map single [0..<length checks] else map Fulfilled results)"

record developerSnapshot =
  ds_session :: nat
  ds_transport :: transportEpoch
  ds_accountId :: string
  ds_accountAuthVersion :: int

definition pending_sessions :: "gateway \<Rightarrow> nat list" where
  "pending_sessions g = filter (\<lambda>r. \<not> terminated (gw_object g r)) (map_values (gw_sessions g))"

definition developer_snapshots :: "gateway \<Rightarrow> nat list \<Rightarrow> developerSnapshot list" where
  "developer_snapshots g pendingSessions = concat (map (\<lambda>r.
     case (ownerAccountId (gw_object g r), g_ownerAuthVersion (gw_object g r)) of
       (Some accountId, Some version) \<Rightarrow> [\<lparr>ds_session = r, ds_transport = captureGatewayTransport (gw_object g r),
         ds_accountId = accountId, ds_accountAuthVersion = version\<rparr>]
     | _ \<Rightarrow> []) pendingSessions)"

definition developer_result :: "gatewayParams \<Rightarrow> developerSnapshot \<times> checkResult \<Rightarrow> unit gatewayM" where
  "developer_result p entry = (case entry of (snapshot, result) \<Rightarrow>
    bindM (read_gateway (\<lambda>g. isCurrentGatewaySessionTransport g (ds_session snapshot) (ds_transport snapshot))) (\<lambda>current.
    if \<not> current then ret ()
    else case result of
      Rejected \<Rightarrow>
        bindM (update_gateway (log_effect (Emit ''authorization.revalidation_failed'' (Some (ds_session snapshot))))) (\<lambda>_.
        terminateGatewaySession p (ds_session snapshot) ''authorization revalidation unavailable'' 1011)
    | Fulfilled True \<Rightarrow> ret ()
    | Fulfilled False \<Rightarrow> terminateGatewaySession p (ds_session snapshot) ''developer authorization revoked'' 1008))"

definition developer_results :: "gatewayParams \<Rightarrow> developerSnapshot list \<Rightarrow> checkResult list \<Rightarrow> unit gatewayM" where
  "developer_results p snapshots results = for_each (developer_result p) (zip snapshots results)"

record reviewerSnapshot =
  rs_session :: nat
  rs_streamId :: int
  rs_stream :: nat
  rs_accountId :: string
  rs_accountAuthVersion :: int

definition reviewer_snapshots :: "gateway \<Rightarrow> nat list \<Rightarrow> reviewerSnapshot list" where
  "reviewer_snapshots g pendingSessions = concat (map (\<lambda>r.
     if \<not> isCurrentGatewaySessionTransport g r (captureGatewayTransport (gw_object g r)) then []
     else concat (map (\<lambda>(i, st).
       case (gs_reviewerAccountId (gw_stream g st), gs_reviewerAuthVersion (gw_stream g st)) of
         (Some accountId, Some version) \<Rightarrow> [\<lparr>rs_session = r, rs_streamId = i, rs_stream = st, rs_accountId = accountId,
           rs_accountAuthVersion = version\<rparr>]
       | _ \<Rightarrow> []) (g_streams (gw_object g r)))) pendingSessions)"

definition reviewer_result :: "gatewayParams \<Rightarrow> reviewerSnapshot \<times> checkResult \<Rightarrow> unit gatewayM" where
  "reviewer_result p entry = (case entry of (snapshot, result) \<Rightarrow>
    bindM (read_gateway (\<lambda>g. isCurrentGatewaySessionStream g (rs_session snapshot) (rs_streamId snapshot) (rs_stream snapshot))) (\<lambda>current.
    if \<not> current \<or> result = Fulfilled True then ret ()
    else
      bindM (update_gateway (\<lambda>g. if result = Rejected
        then log_effect (Emit ''authorization.revalidation_failed'' (Some (rs_session snapshot))) g else g)) (\<lambda>_.
      revoke_stream p (rs_session snapshot) (rs_streamId snapshot) (rs_stream snapshot)
        (if result = Rejected then ''AUTHORIZATION_UNAVAILABLE'' else ''AUTHORIZATION_REVOKED''))))"

definition reviewer_results :: "gatewayParams \<Rightarrow> reviewerSnapshot list \<Rightarrow> checkResult list \<Rightarrow> unit gatewayM" where
  "reviewer_results p snapshots results = for_each (reviewer_result p) (zip snapshots results)"

definition revalidation_loop_failed :: "gatewayParams \<Rightarrow> unit gatewayM" where
  "revalidation_loop_failed p = each_session (\<lambda>r.
    bindM (update_gateway (log_effect (Emit ''authorization.revalidation_failed'' (Some r)))) (\<lambda>_.
    terminateGatewaySession p r ''authorization revalidation unavailable'' 1011))"

end
