(* ===== verification/GatewayCarrierProps.thy ===== *)
theory GatewayCarrierProps
  imports GatewayStreamProps GatewayOperations
begin

text \<open>
  The handlers of carriers, the timers, the kill switch and the revalidation keep the invariant of the
  gateway's store.
\<close>

section \<open>Steps that do not concern the invariant\<close>

lemma same_admission [same]: "same_gateway g g' \<Longrightarrow> same_gateway g (g'\<lparr>gw_admission := a\<rparr>)"
  by (erule same_trans, rule same_plain) simp_all

lemma same_socket [same]: "same_gateway g g' \<Longrightarrow> same_gateway g (g'\<lparr>gw_socket := k\<rparr>)"
  by (erule same_trans, rule same_plain) simp_all

lemma same_carrier_steps [same]:
  "same_gateway g g' \<Longrightarrow> same_gateway g (rejectCarrier k n c a g')"
  "same_gateway g g' \<Longrightarrow> same_gateway g (sendSessionConfig r t g')"
  "same_gateway g g' \<Longrightarrow> same_gateway g (carrier_failed k g')"
  "same_gateway g g' \<Longrightarrow> same_gateway g (releasePendingCarrier k g')"
  "same_gateway g g' \<Longrightarrow> same_gateway g (await_reconnect r g')"
  "same_gateway g g' \<Longrightarrow> same_gateway g (activation_failed r g')"
  by (simp_all add: rejectCarrier_def sendSessionConfig_def Let_def carrier_failed_def releasePendingCarrier_def await_reconnect_def
      activation_failed_def same same_session_def same_connection_def)

lemma same_timers_carrier:
  "same_gateway g (config_ack_first r t g)" "same_gateway g (config_ack_second r t g)" "same_gateway g (config_resend_failed t g)"
  "same_gateway g (reject_sent k c g)"
  by (simp_all add: config_ack_first_def config_ack_second_def config_resend_failed_def reject_sent_def Let_def same same_session_def)

lemma same_connections:
  "same_gateway g (rejectWebSocketControlFrame k g)" "same_gateway g (hello_timeout k g)" "same_gateway g (carrier_message p k n g)"
  "same_gateway g (carrier_settled k n g)" "same_gateway g (provisioned_sent k r g)" "same_gateway g (probe_send t i c g)"
  "same_gateway g (probe_sent r t j i g)" "same_gateway g (activation_sent r t b g)" "same_gateway g (heartbeat_failed r t g)"
  by (simp_all add: rejectWebSocketControlFrame_def hello_timeout_def carrier_message_def carrier_settled_def provisioned_sent_def
      probe_send_def probe_sent_def activation_sent_def heartbeat_failed_def Let_def same same_session_def same_connection_def)

lemma same_probe_take: "same_gateway g (probe_take r t j i n k g)"
  by (simp add: probe_take_def Let_def same_set_out same_out_ops)

lemma same_heartbeat: "same_gateway g (heartbeat p g)"
proof -
  have "same_gateway h (heartbeat_session p r h)" for h r by (simp add: heartbeat_session_def Let_def same)
  then have "same_gateway h (fold (heartbeat_session p) rs h)" for rs h
    by (induction rs arbitrary: h) (auto intro: same_trans)
  then show ?thesis by (simp add: heartbeat_def)
qed

lemmas same_steps = same_timers_carrier same_connections same_probe_take same_heartbeat

lemma config_sent_kept: "keeps (config_sent p k r t)"
proof -
  have "same_gateway g (on_connection k (\<lambda>cn. cn\<lparr>cn_helloTimer := False\<rparr>) (on_session r (\<lambda>s. s\<lparr>g_configAckTimer := Some (AwaitFirst, t)\<rparr>) g))" for g
    by (simp add: same same_session_def same_connection_def)
  from same_inv [OF this] show ?thesis by (auto simp: config_sent_def armActivationTimeout_def wp)
qed

lemma probe_window_sent_kept: "keeps (probe_window_sent r t j i n)"
proof -
  have "after (in_op w (\<lambda>v. gateway_release v i (Integral n))) (\<lambda>_. gateway_inv) gateway_inv g" if "gateway_inv g" for g w
    by (rule after_in_op) (use that same_inv same_in_ops in auto)
  then show ?thesis by (simp add: probe_window_sent_def wp)
qed

section \<open>The end of a carrier\<close>

lemma confined_inv:
  assumes "base_ok g" "others_ok r g" "is_registered g r" "confined r g g'" "gw_sessions g' = gw_sessions g" "entries_ok g' r" "session_ok g' r"
  shows "gateway_inv g'"
  using confined_kept [OF assms(1-6)] assms(7) others_gateway_inv by blast

lemma confined_idle:
  assumes "base_ok g" "others_ok r g" "is_registered g r" "confined r g g'" "gw_sessions g' = gw_sessions g"
    "g_streams (gw_object g' r) = []" "g_probe (gw_object g' r) = None" "g_streamIds (gw_object g' r) = g_streamIds (gw_object g r)"
  shows "base_ok g'" "others_ok r g'" "entries_ok g' r"
proof -
  have "entries_ok g r" using assms(1,3) by (simp add: base_ok_def)
  then show e: "entries_ok g' r" using assms(6-8) by (simp add: entries_ok_def session_ids_def)
  show "base_ok g'" "others_ok r g'" by (rule confined_kept [OF assms(1-5) e])+
qed

text \<open>A transition to a state without a carrier, or to an expired one.\<close>

definition idle :: "nat \<Rightarrow> gateway \<Rightarrow> bool" where
  "idle r g = (base_ok g \<and> others_ok r g \<and> is_registered g r \<and> g_streams (gw_object g r) = [] \<and> g_probe (gw_object g r) = None \<and>
     \<not> terminated (gw_object g r) \<and> \<not> gw_killSwitch g)"

lemma idle_lifecycle: "idle r g \<Longrightarrow> idle r (on_session r (\<lambda>s. s\<lparr>lifecycle := l\<rparr>) g)"
  unfolding idle_def
proof (elim conjE, intro conjI)
  assume a: "base_ok g" "others_ok r g" "is_registered g r" "g_streams (gw_object g r) = []" "g_probe (gw_object g r) = None"
  let ?g = "on_session r (\<lambda>s. s\<lparr>lifecycle := l\<rparr>) g"
  have c: "confined r g ?g" by (rule confined_on_session) (simp_all add: capture_eq)
  show "base_ok ?g" "others_ok r ?g" by (rule confined_idle [OF a(1-3) c]; simp add: a)+
  show "is_registered ?g r" using a(3) by (simp add: is_registered_def)
qed simp_all

lemma idle_inv:
  assumes "idle r g" "lifecycle (gw_object g r) = RECONNECTING c" "session_inv (RECONNECTING c)" "candidateGeneration c = None"
  shows "gateway_inv g"
proof (rule others_gateway_inv)
  show "session_ok g r" using assms by (simp add: session_ok_def idle_def)
qed (use assms(1) in \<open>simp_all add: idle_def\<close>)

lemma applying:
  assumes "idle r g" "session_inv l"
    "(\<exists>reason t. l = EXPIRED reason t) \<or> (\<exists>c. l = RECONNECTING c \<and> candidateGeneration c = None)"
    "\<And>g'. gateway_inv g' \<Longrightarrow> Q False g'" "\<And>g'. gateway_inv g' \<Longrightarrow> Q True g'"
  shows "after (applySessionTransition p r l) Q E g"
proof -
  let ?g = "on_session r (\<lambda>s. s\<lparr>lifecycle := l\<rparr>) g"
  note i = idle_lifecycle [OF assms(1), of l]
  from assms(3) show ?thesis
  proof (elim disjE exE conjE)
    fix reason t
    assume l: "l = EXPIRED reason t"
    have "after (expireGatewaySession p r (reason_text reason)) (\<lambda>_. Q False) E ?g"
      by (rule after_mono [OF expiring]) (use i assms(4) in \<open>auto simp: idle_def disposed_def\<close>)
    with l show ?thesis by (simp add: applySessionTransition_def wp)
  next
    fix c
    assume l: "l = RECONNECTING c" "candidateGeneration c = None"
    then have "gateway_inv ?g" using idle_inv [OF i] assms(2) by simp
    with l assms(5) show ?thesis by (simp add: applySessionTransition_def wp)
  qed
qed

lemma lost_transition:
  assumes "session_inv (ACTIVE a)"
  obtains l where "transitionSession (ACTIVE a) (CARRIER_LOST now) policy = Inr l" "session_inv l"
    "(\<exists>reason t. l = EXPIRED reason t) \<or> (\<exists>c. l = RECONNECTING c \<and> candidateGeneration c = None)"
  using transitionSession_cases [OF assms, of "CARRIER_LOST now" policy] transitionSession_inv [OF assms, of "CARRIER_LOST now" policy] by auto

lemma failed_transition:
  assumes "session_inv (RECONNECTING c)" "candidateAttemptId c = Some a"
  obtains l where "transitionSession (RECONNECTING c) (RESUME_FAILED now a) policy = Inr l" "session_inv l"
    "(\<exists>reason t. l = EXPIRED reason t) \<or> (\<exists>c. l = RECONNECTING c \<and> candidateGeneration c = None)"
  using transitionSession_cases [OF assms(1), of "RESUME_FAILED now a" policy] assms
    transitionSession_inv [OF assms(1), of "RESUME_FAILED now a" policy] by (auto simp: withoutCandidate_def)

lemma carrier_lost_kept:
  assumes "idle r g" "lifecycle (gw_object g r) = ACTIVE a" "session_inv (ACTIVE a)"
  shows "after (carrier_lost p r) (\<lambda>_. gateway_inv) (\<lambda>_. False) g"
proof -
  obtain l where l: "transitionSession (ACTIVE a) (CARRIER_LOST (gw_clock g)) (p_policy p) = Inr l" "session_inv l"
    "(\<exists>reason t. l = EXPIRED reason t) \<or> (\<exists>c. l = RECONNECTING c \<and> candidateGeneration c = None)"
    by (rule lost_transition [OF assms(3)])
  have "same_gateway h (await_reconnect r (log_effect e (log_effect e' h)))" for h e e' by (simp add: same)
  from applying [OF assms(1) l(2,3)] same_inv [OF this] show ?thesis
    by (simp add: carrier_lost_def wp assms(2) l(1))
qed

lemma resume_lost_kept:
  assumes "idle r g" "lifecycle (gw_object g r) = RECONNECTING c" "session_inv (RECONNECTING c)"
    "candidateGeneration c \<noteq> None \<longrightarrow> cn_resumeAttemptId (gw_connection g k) = candidateAttemptId c"
  shows "after (resume_lost p k r) (\<lambda>_. gateway_inv) (\<lambda>_. False) g"
proof -
  have s: "same_gateway h (await_reconnect r (activation_failed r h))" for h by (simp add: same)
  show ?thesis
  proof (cases "candidateAttemptId c")
    case None
    then have "gateway_inv g" using idle_inv [OF assms(1,2)] assms(3) by simp
    with None same_inv [OF s] show ?thesis by (simp add: resume_lost_def wp assms(2) split: option.split)
  next
    case (Some a)
    with assms(3,4) have a: "cn_resumeAttemptId (gw_connection g k) = Some a" by auto
    obtain l where l: "transitionSession (RECONNECTING c) (RESUME_FAILED (gw_clock g) a) (p_policy p) = Inr l" "session_inv l"
      "(\<exists>reason t. l = EXPIRED reason t) \<or> (\<exists>c. l = RECONNECTING c \<and> candidateGeneration c = None)"
      by (rule failed_transition [OF assms(3) Some])
    from applying [OF assms(1) l(2,3)] same_inv [OF s] show ?thesis
      by (simp add: resume_lost_def wp assms(2) a Some l(1))
  qed
qed

text \<open>The store after the candidate is disposed of and the streams are closed.\<close>

lemma closing_all:
  assumes inv: "gateway_inv g" and reg: "is_registered g r"
    and Q: "\<And>g'. base_ok g' \<Longrightarrow> others_ok r g' \<Longrightarrow> confined r g g' \<Longrightarrow> gw_sessions g' = gw_sessions g \<Longrightarrow>
      g_streams (gw_object g' r) = [] \<Longrightarrow> g_probe (gw_object g' r) = None \<Longrightarrow>
      g_streamIds (gw_object g' r) = g_streamIds (gw_object g r) \<Longrightarrow> lifecycle (gw_object g' r) = lifecycle (gw_object g r) \<Longrightarrow>
      terminated (gw_object g' r) = terminated (gw_object g r) \<Longrightarrow> Q () g'"
  shows "after (closeGatewayStreams r c) Q E (disposeActivationCandidate r g)"
proof -
  note b = gateway_inv_others [OF inv, THEN conjunct1] gateway_inv_others [OF inv, THEN conjunct2, of r]
  have id: "on_session r (\<lambda>s. s) g = g" by (simp add: on_session_def)
  note d = candidate_disposed [OF b reg, of "\<lambda>s. s", unfolded id]
  let ?g = "disposeActivationCandidate r g"
  have obj: "gw_object ?g r = (gw_object g r)\<lparr>g_configAckTimer := None, g_probe := None, g_configSendCount := 0\<rparr>"
    "gw_sessions ?g = gw_sessions g"
    by (simp_all add: disposeActivationCandidate_def out_close_def)
  show ?thesis
  proof (rule after_mono [OF closing_streams [OF d(1)]])
    fix u :: unit and g'
    assume g': "confined r ?g g' \<and> gw_sessions g' = gw_sessions ?g \<and> gw_object g' = (gw_object ?g)(r := (gw_object ?g r)\<lparr>g_streams := []\<rparr>)"
    have c: "confined r g g'" using d(3) g' confined_trans by (simp add: same_session_def)
    have e: "entries_ok g r" using b(1) reg by (simp add: base_ok_def)
    note i = confined_idle [OF b reg c]
    show "Q u g'" using g' obj c by (simp add: Q i)
  qed simp_all
qed

lemma removing_idle:
  assumes "base_ok g" "others_ok r g" "is_registered g r" "g_streams (gw_object g r) = []"
  shows "gateway_inv (remove_session r g)"
proof -
  have "confined r g (delete_session r g)" by (simp add: confined_def delete_session_def)
  from confined_removed(1) [OF assms(1-3) this] assms(3,4) show ?thesis by (simp add: remove_session_def delete_session_def)
qed

lemma cleanup_session_kept:
  assumes inv: "gateway_inv g" and reg: "is_registered g r" and k: "g_socket (gw_object g r) = k"
  shows "after (cleanup_session p k r) (\<lambda>_. gateway_inv) (\<lambda>_. False) g"
proof -
  have ok: "session_ok g r" using inv reg by (simp add: gateway_inv_def)
  let ?l = "lifecycle (gw_object g r)"
  show ?thesis
    unfolding cleanup_session_def wp
  proof (rule closing_all [OF inv reg], goal_cases)
    case (1 g')
    note g' = 1
    have reg': "is_registered g' r" using reg confined_registered [OF g'(3,4)] by simp
    have ks: "gw_killSwitch g' = gw_killSwitch g" and cn: "same_connection (gw_connection g k) (gw_connection g' k)"
      using g'(3) by (simp_all add: confined_def)
    have sr: "same_gateway g' (activation_failed r g')" by (simp add: same)
    have created: "gateway_inv (remove_session r (activation_failed r g'))"
      using removing_idle [OF same_base [OF sr g'(1)] same_others [OF sr g'(2)]] reg' g'(5) same_registered [OF sr] sr
      by (simp add: same_gateway_def same_session_def)
    have idle: "idle r g'" if "\<not> is_creating ?l"
      using that g' reg' ok ks by (simp add: idle_def session_ok_def)
    show ?case
    proof (cases ?l)
      case CREATING
      then show ?thesis using g' ok created by (simp add: wp session_ok_def)
    next
      case (ACTIVE a)
      then show ?thesis using g' ok carrier_lost_kept [OF idle, of a p] by (simp add: wp session_ok_def)
    next
      case (RECONNECTING c)
      have "candidateGeneration c \<noteq> None \<longrightarrow> cn_resumeAttemptId (gw_connection g' k) = candidateAttemptId c"
        using ok cn k RECONNECTING by (simp add: session_ok_def carrier_ok_def same_connection_def)
      then show ?thesis using RECONNECTING g' ok resume_lost_kept [OF idle, of c k p] by (simp add: wp session_ok_def)
    qed (use ok in \<open>simp_all add: session_ok_def\<close>)
  qed
qed

lemma carrier_cleanup_kept: "never_throws (carrier_cleanup p k)"
proof -
  have s: "same_gateway g (on_connection k (\<lambda>cn. cn\<lparr>cn_cleanedUp := True, cn_helloTimer := False\<rparr>) g)" for g
    by (simp add: same same_connection_def)
  show ?thesis
    using same_inv [OF s] same_registered [OF s] cleanup_session_kept
    by (auto simp: carrier_cleanup_def wp split: option.split)
qed

lemma carrier_ended_kept: "never_throws (carrier_ended p k)"
proof (intro allI impI)
  fix g
  assume inv: "gateway_inv g"
  have s: "same_gateway g (g\<lparr>gw_socket := h\<rparr>)" "same_gateway g' (releasePendingCarrier k g')" for g' h by (simp_all add: same)
  show "after (carrier_ended p k) (\<lambda>_. gateway_inv) (\<lambda>_. False) g"
    unfolding carrier_ended_def wp
    by (rule after_mono [OF carrier_cleanup_kept [rule_format, OF same_inv [OF s(1) inv]]]) (auto intro: same_inv [OF s(2)])
qed

lemma tick_transition:
  assumes "session_inv l" "is_live l"
  obtains (expired) reason t where "transitionSession l (TICK now) policy = Inr (EXPIRED reason t)"
  | (kept) "transitionSession l (TICK now) policy = Inr l"
  using assms that transitionSession_cases [OF assms(1), of "TICK now" policy] by (cases l) auto

lemma lifecycle_middle:
  assumes "gateway_inv g" "is_registered g r"
  shows "base_ok (on_session r (\<lambda>s. s\<lparr>lifecycle := l\<rparr>) g)" "others_ok r (on_session r (\<lambda>s. s\<lparr>lifecycle := l\<rparr>) g)"
    "is_registered (on_session r (\<lambda>s. s\<lparr>lifecycle := l\<rparr>) g) r"
proof -
  let ?g = "on_session r (\<lambda>s. s\<lparr>lifecycle := l\<rparr>) g"
  have c: "confined r g ?g" by (rule confined_on_session) (simp_all add: capture_eq)
  have e: "entries_ok ?g r"
    by (rule entries_subset [OF _ c]) (use assms in \<open>simp_all add: gateway_inv_def base_ok_def session_ids_def\<close>)
  note b = gateway_inv_others [OF assms(1), THEN conjunct1] gateway_inv_others [OF assms(1), THEN conjunct2, of r]
  show "base_ok ?g" "others_ok r ?g" by (rule confined_kept [OF b assms(2) c _ e], simp)+
  show "is_registered ?g r" using assms(2) by (simp add: is_registered_def)
qed

lemma expiring_after:
  assumes "gateway_inv g" "is_registered g r"
  shows "after (expireGatewaySession p r reason) (\<lambda>_. gateway_inv) E (on_session r (\<lambda>s. s\<lparr>lifecycle := l\<rparr>) g)"
  by (rule after_mono [OF expiring [OF lifecycle_middle(1,2) [OF assms]]]) (auto simp: disposed_def)

lemma reconnect_timeout_kept: "never_throws (reconnect_timeout p r)"
proof (intro allI impI)
  fix g
  assume inv: "gateway_inv g"
  let ?g = "on_session r (\<lambda>s. s\<lparr>g_expiryTimer := False\<rparr>) g"
  have s: "same_gateway g ?g" by (simp add: same same_session_def)
  note inv' = same_inv [OF s inv]
  show "after (reconnect_timeout p r) (\<lambda>_. gateway_inv) (\<lambda>_. False) g"
  proof (cases "is_registered g r \<and> is_reconnecting (lifecycle (gw_object g r))")
    case True
    then have reg: "is_registered ?g r" using same_registered [OF s] by simp
    have li: "session_inv (lifecycle (gw_object g r))" "is_live (lifecycle (gw_object g r))"
      using True inv by (auto simp: gateway_inv_def session_ok_def elim: is_reconnecting.elims)
    have clock: "gw_clock ?g = gw_clock g" by (simp add: on_session_def)
    have noop: "on_session r (\<lambda>s. s\<lparr>lifecycle := lifecycle (gw_object g r)\<rparr>) ?g = ?g" by (simp add: on_session_def)
    show ?thesis
    proof (cases rule: tick_transition [OF li, of "gw_clock g" "p_policy p"])
      case (1 reason t)
      with expiring_after [OF inv' reg] inv' show ?thesis by (simp add: reconnect_timeout_def wp clock)
    next
      case 2
      with True inv' noop show ?thesis
        by (cases "lifecycle (gw_object g r)") (simp_all add: reconnect_timeout_def wp clock)
    qed
  next
    case False
    then show ?thesis using inv' by (auto simp: reconnect_timeout_def wp)
  qed
qed

section \<open>The probe\<close>

lemma fresh_inv: "gateway_inv g \<Longrightarrow> gw_fresh g \<le> n \<Longrightarrow> gateway_inv (g\<lparr>gw_fresh := n\<rparr>)"
proof -
  assume inv: "gateway_inv g" and n: "gw_fresh g \<le> n"
  let ?g = "g\<lparr>gw_fresh := n\<rparr>"
  have reg: "is_registered ?g r = is_registered g r" for r by (simp add: is_registered_def)
  have "stream_ok g r i st \<Longrightarrow> stream_ok ?g r i st" for r i st using n by (simp add: stream_ok_def)
  then have "entries_ok g r \<Longrightarrow> entries_ok ?g r" for r by (simp add: entries_ok_def)
  moreover have "session_ok ?g r = session_ok g r" for r by (simp add: session_ok_def flows_ok_def carrier_ok_def)
  ultimately show ?thesis using inv n by (fastforce simp: gateway_inv_def base_ok_def reg)
qed

lemma after_out_any:
  assumes "flow_inv (gw_out g w)" "\<And>f. flow_inv f \<Longrightarrow> Q () (set_out w f g) \<and> E (set_out w f g)"
  shows "after (out_openStream w i) Q E g"
proof -
  have "flow_inv (snd (openStream (gw_out g w) (Integral i) (Integral INITIAL_STREAM_WINDOW_BYTES)))" by (rule openStream_inv [OF assms(1)])
  from assms(2) [OF this] show ?thesis by (auto simp: after_def out_openStream_def split: prod.splits sum.splits)
qed

lemma after_in_any:
  assumes "in_ok (gw_in g w)" "\<And>v. in_ok v \<Longrightarrow> Q () (set_in w v g) \<and> E (set_in w v g)"
  shows "after (in_openStream w i) Q E g"
proof -
  have "in_ok (snd (gateway_openStream (gw_in g w) (Integral i) (Integral INITIAL_STREAM_WINDOW_BYTES)))"
    using assms(1) by (simp add: in_ok_def gateway_openStream_inv)
  from assms(2) [OF this] show ?thesis by (auto simp: after_def in_openStream_def in_op_def split: prod.splits sum.splits)
qed

text \<open>A session that is not active and has a new probe; with a carrier, its windows know the probe's stream.\<close>

definition with_probe :: "nat \<Rightarrow> int \<Rightarrow> probe \<Rightarrow> gateway \<Rightarrow> gateway" where
  "with_probe r i pr g = on_session r (\<lambda>s. s\<lparr>g_streamIds := i, g_probe := Some pr\<rparr>) (g\<lparr>gw_fresh := gw_fresh g + 1\<rparr>)"

lemma with_probe_simps [simp]:
  "gw_object (with_probe r i pr g) r' = (if r' = r then (gw_object g r)\<lparr>g_streamIds := i, g_probe := Some pr\<rparr> else gw_object g r')"
  "gw_out (with_probe r i pr g) = gw_out g" "gw_in (with_probe r i pr g) = gw_in g"
  by (simp_all add: with_probe_def on_session_def)

lemma lifecycle_probe: "\<not> is_active l \<Longrightarrow> lifecycle_ok l (s\<lparr>g_streamIds := i, g_probe := pr\<rparr>) = lifecycle_ok l s"
  by (cases l) (auto split: option.splits)

lemma lifecycle_probe_only: "\<not> is_active l \<Longrightarrow> lifecycle_ok l (s\<lparr>g_probe := pr\<rparr>) = lifecycle_ok l s"
  by (cases l) (auto split: option.splits)

lemma probe_inv:
  assumes inv: "gateway_inv g" and reg: "is_registered g r" and act: "\<not> is_active (lifecycle (gw_object g r))"
    and none: "g_probe (gw_object g r) = None" and iss: "issue (g_streamIds (gw_object g r)) = (Inr i, h)" and pr: "pr_streamId pr = i"
    and f: "flow_inv f" and v: "in_ok v"
    and flows: "has_carrier (lifecycle (gw_object g r)) \<longrightarrow> \<not> closed f \<and> out_ids f = insert i (session_ids (gw_object g r)) \<and>
      in_ids v = insert i (session_ids (gw_object g r))"
    and g': "g' = set_in (g_inboundFlow (gw_object g r)) v (set_out (g_outboundFlow (gw_object g r)) f (with_probe r i pr g))"
  shows "gateway_inv g'"
proof -
  let ?s = "gw_object g r" and ?g = "g\<lparr>gw_fresh := gw_fresh g + 1\<rparr>"
  have ok: "entries_ok g r" "session_ok g r" using inv reg by (simp_all add: gateway_inv_def base_ok_def)
  have inv1: "gateway_inv ?g" by (rule fresh_inv [OF inv]) simp
  have reg1: "is_registered ?g r" using reg by (simp add: is_registered_def)
  have ok1: "entries_ok ?g r" "session_ok ?g r" using inv1 reg1 by (simp_all add: gateway_inv_def base_ok_def)
  note issued = issue_next [OF _ iss]
  have ids: "ids_ok (g_streamIds ?s)" using ok(1) by (simp add: entries_ok_def)
  have "confined r ?g (with_probe r i pr g)" unfolding with_probe_def by (rule confined_on_session) (simp_all add: capture_eq)
  then have "confined r ?g (set_out (g_outboundFlow ?s) f (with_probe r i pr g))" by (rule confined_set_out) (simp_all add: f)
  then have c: "confined r ?g g'" unfolding g' by (rule confined_set_in) (simp_all add: v)
  have obj: "gw_object g' r = ?s\<lparr>g_streamIds := i, g_probe := Some pr\<rparr>" "gw_sessions g' = gw_sessions ?g"
    by (simp_all add: g' with_probe_def)
  have sids: "session_ids (gw_object g' r) = insert i (session_ids ?s)" using none pr by (simp add: obj session_ids_def)
  have "stream_ok g' r j st" if "stream_ok ?g r j st" for j st
    using that by (simp add: stream_ok_def obj capture_eq g' with_probe_def captureGatewayTransport_def)
  then have e: "entries_ok g' r"
    using ok1(1) issued [OF ids] sids by (auto simp: entries_ok_def obj stream_limit_def)
  have "carrier_ok g' r = carrier_ok ?g r"
    by (simp add: carrier_ok_def obj g' with_probe_def)
  moreover have "gw_killSwitch g' = gw_killSwitch g" by (simp add: g' with_probe_def)
  moreover have "has_carrier (lifecycle ?s) \<longrightarrow> flows_ok g' (gw_object g' r)"
    unfolding flows_ok_def sids using flows by (simp add: obj) (simp add: g')
  ultimately have "session_ok g' r"
    using ok1(2) act by (simp add: session_ok_def obj lifecycle_probe)
  with confined_inv [OF gateway_inv_others [OF inv1, THEN conjunct1] gateway_inv_others [OF inv1, THEN conjunct2] reg1 c obj(2) e]
  show ?thesis by simp
qed

lemma probe_set_same:
  "g_probe (gw_object g r) = Some pr \<Longrightarrow> pr_streamId pr' = pr_streamId pr \<Longrightarrow> same_gateway g (on_session r (\<lambda>s. s\<lparr>g_probe := Some pr'\<rparr>) g)"
  by (simp add: same_gateway_def on_session_def same_session_def)

lemma open_probe_kept:
  assumes inv0: "gateway_inv g0" and reg0: "is_registered g0 r" and act0: "\<not> is_active (lifecycle (gw_object g0 r))"
    and none0: "g_probe (gw_object g0 r) = None"
  shows "after (open_probe rnd r) (\<lambda>_. gateway_inv) gateway_inv g0"
proof -
  let ?g = "log_effect (Emit ''tunnel.config_applied'' (Some r)) (log_effect (Metric ''config_applied'') g0)"
  let ?s = "gw_object ?g r"
  have sg: "same_gateway g0 ?g" by (simp add: same)
  have inv: "gateway_inv ?g" and reg: "is_registered ?g r" and act: "\<not> is_active (lifecycle ?s)" and none: "g_probe ?s = None"
    using same_inv [OF sg inv0] same_registered [OF sg] reg0 act0 none0 by simp_all
  have ok: "entries_ok ?g r" "session_ok ?g r" using inv reg by (simp_all add: gateway_inv_def base_ok_def)
  have fi: "flow_inv (gw_out ?g w)" "in_ok (gw_in ?g w)" for w using inv by (simp_all add: gateway_inv_def base_ok_def)
  obtain res h where iss: "issue (g_streamIds ?s) = (res, h)" by (metis prod.exhaust)
  show ?thesis
  proof (cases res)
    case (Inl e)
    with iss have "on_session r (\<lambda>s. s\<lparr>g_streamIds := h\<rparr>) ?g = ?g" using issue_failed [of "g_streamIds ?s"] by (simp add: on_session_def)
    with Inl iss inv show ?thesis by (simp add: open_probe_def wp)
  next
    case (Inr i)
    with iss have iss': "issue (g_streamIds ?s) = (Inr i, h)" by simp
    have "ids_ok (g_streamIds ?s)" using ok(1) by (simp add: entries_ok_def)
    note fresh = issue_next [OF this iss']
    have new: "i \<notin> session_ids ?s" using ok(1) fresh(6) by (auto simp: entries_ok_def)
    let ?pr = "\<lparr>pr_id = gw_fresh ?g, pr_streamId = i, pr_expected = rnd_nonce rnd, pr_received = [], pr_receivedBytes = 0, pr_clientEnded = False\<rparr>"
    let ?p = "with_probe r i ?pr ?g"
    have eq: "(on_session r (\<lambda>s. s\<lparr>g_probe := Some ?pr\<rparr>) (on_session r (\<lambda>s. s\<lparr>g_streamIds := i\<rparr>) ?g))\<lparr>gw_fresh := Suc (gw_fresh ?g)\<rparr> = ?p"
      by (simp add: with_probe_def on_session_def)
    note kept = probe_inv [OF inv reg act none iss' _ _ _ _ refl, of ?pr]
    have pinv: "gateway_inv (start_send k input (set_in (g_inboundFlow ?s) v (set_out (g_outboundFlow ?s) f ?p)))"
      "gateway_inv (set_in (g_inboundFlow ?s) v (set_out (g_outboundFlow ?s) f ?p))"
      if "flow_inv f" "in_ok v" "has_carrier (lifecycle ?s) \<longrightarrow> \<not> closed f \<and> out_ids f = insert i (session_ids ?s) \<and> in_ids v = insert i (session_ids ?s)"
      for f v k input
    proof -
      show g: "gateway_inv (set_in (g_inboundFlow ?s) v (set_out (g_outboundFlow ?s) f ?p))" using that by (intro kept) auto
      have "same_gateway h (start_send k input h)" for h by (simp add: same)
      from same_inv [OF this g] show "gateway_inv (start_send k input (set_in (g_inboundFlow ?s) v (set_out (g_outboundFlow ?s) f ?p)))" .
    qed
    have fl: "gw_out ?p = gw_out ?g" "gw_in ?p = gw_in ?g" by simp_all
    have go: "after (out_openStream (g_outboundFlow ?s) i) (\<lambda>_. after (in_openStream (g_inboundFlow ?s) i)
        (\<lambda>_ g'. gateway_inv (start_send k input g')) gateway_inv) gateway_inv ?p" for k input
    proof (cases "has_carrier (lifecycle ?s)")
      case True
      then have f: "flows_ok ?g ?s" using ok(2) by (simp add: session_ok_def)
      show ?thesis
        by (rule after_out_open, use fresh(4) new f in \<open>simp_all add: fl flows_ok_def fi\<close>)
          (rule after_in_open, use fresh(4) new f pinv True in \<open>simp_all add: fl flows_ok_def fi\<close>)
    next
      case False
      have id: "set_in (g_inboundFlow ?s) (gw_in ?g (g_inboundFlow ?s)) (set_out (g_outboundFlow ?s) f ?p) = set_out (g_outboundFlow ?s) f ?p" for f
        by (simp add: set_in_def set_out_def with_probe_def on_session_def)
      have E: "gateway_inv (set_out (g_outboundFlow ?s) f ?p)" if "flow_inv f" for f
        using pinv(2) [OF that fi(2) [of "g_inboundFlow ?s"]] False unfolding id by simp
      have I: "after (in_openStream (g_inboundFlow ?s) i) (\<lambda>_ g'. gateway_inv (start_send k input g')) gateway_inv (set_out (g_outboundFlow ?s) f ?p)"
        if "flow_inv f" for f
        by (rule after_in_any) (use that pinv False in \<open>simp_all add: fl fi\<close>)
      show ?thesis by (rule after_out_any) (use E I in \<open>simp_all add: fl fi\<close>)
    qed
    have iss0: "issue (g_streamIds (gw_object g0 r)) = (Inr i, i)" using iss' fresh(1) by simp
    show ?thesis
      using go eq by (simp add: open_probe_def wp iss0 captureGatewayTransport_def)
  qed
qed

lemma rejecting_kept: "never_throws (rejecting k r c)"
proof -
  have "same_gateway g (rejectCarrier k n c None g)" for g n by (simp add: same)
  from same_inv [OF this] show ?thesis by (simp add: rejecting_def wp)
qed

lemma rejecting_after: "gateway_inv g \<Longrightarrow> after (rejecting k r c) (\<lambda>_. gateway_inv) gateway_inv g"
  using never_throws_keeps [OF rejecting_kept] by blast

lemma config_applied_kept:
  assumes "gateway_inv g" "is_registered g r" "\<not> is_active (lifecycle (gw_object g r))"
  shows "after (config_applied rnd k r payload) (\<lambda>_. gateway_inv) gateway_inv g"
proof -
  let ?g = "\<lambda>a. on_session r (\<lambda>s. s\<lparr>g_appliedConfig := Some a, g_provisionId := None, g_resumeSecret := None\<rparr>) g"
  have sg: "same_gateway g (?g a)" for a by (simp add: same same_session_def)
  have "after (open_probe rnd r) (\<lambda>_. gateway_inv) gateway_inv (?g a)" if "g_probe (gw_object g r) = None" for a
    by (rule open_probe_kept) (use same_inv [OF sg assms(1)] same_registered [OF sg] assms that in simp_all)
  with assms same_inv [OF sg assms(1)] show ?thesis
    by (auto simp: config_applied_def wp rejecting_after split: sum.split option.split)
qed

lemma probe_data_kept:
  assumes "gateway_inv g" "g_probe (gw_object g r) = Some pr"
  shows "after (probe_data r pr payload) (\<lambda>_. gateway_inv) gateway_inv g"
proof -
  have set: "gateway_inv (on_session r (\<lambda>s. s\<lparr>g_probe := Some pr'\<rparr>) h) \<and>
      gateway_inv (sendWindowUpdate t i n (on_session r (\<lambda>s. s\<lparr>g_probe := Some pr''\<rparr>) (on_session r (\<lambda>s. s\<lparr>g_probe := Some pr'\<rparr>) h)))"
    if "same_gateway g h" "pr_streamId pr' = pr_streamId pr" "pr_streamId pr'' = pr_streamId pr" for h pr' pr'' t i n
  proof -
    from that(1) have "map_option pr_streamId (g_probe (gw_object h r)) = Some (pr_streamId pr)"
      using assms(2) by (simp add: same_gateway_def same_session_def)
    then obtain pr0 where p0: "g_probe (gw_object h r) = Some pr0" "pr_streamId pr0 = pr_streamId pr" by auto
    have s1: "same_gateway h (on_session r (\<lambda>s. s\<lparr>g_probe := Some pr'\<rparr>) h)" using probe_set_same p0 that(2) by simp
    have s2: "same_gateway (on_session r (\<lambda>s. s\<lparr>g_probe := Some pr'\<rparr>) h) (on_session r (\<lambda>s. s\<lparr>g_probe := Some pr''\<rparr>) (on_session r (\<lambda>s. s\<lparr>g_probe := Some pr'\<rparr>) h))"
      by (rule probe_set_same [of _ _ pr']) (use that in simp_all)
    have s3: "same_gateway h' (sendWindowUpdate t i n h')" for h' by (simp add: same)
    show ?thesis using same_inv [OF that(1) assms(1)] same_inv [OF s1] same_inv [OF s2] same_inv [OF s3] by blast
  qed
  show ?thesis
    unfolding probe_data_def wp Let_def
    by (rule after_in_op) (use set same_inv assms(1) in \<open>auto simp: same_in_ops wp\<close>)
qed

section \<open>Activation\<close>

text \<open>The store between the end of the probe and the transition: the windows have forgotten the probe's stream.\<close>

lemma probe_closed:
  assumes inv: "gateway_inv g" and reg: "is_registered g r" and act: "\<not> is_active (lifecycle (gw_object g r))"
    and pr: "g_probe (gw_object g r) = Some pr" and v: "in_ok v" "in_ids v = in_ids (gw_in g (g_inboundFlow (gw_object g r))) - {pr_streamId pr}"
    and g': "g' = on_session r (\<lambda>s. s\<lparr>g_probe := None\<rparr>) (set_in (g_inboundFlow (gw_object g r)) v
      (out_closeStream (g_outboundFlow (gw_object g r)) (pr_streamId pr) g))"
  shows "gateway_inv g'" "is_registered g' r" "confined r g g'" "g_streams (gw_object g' r) = []"
proof -
  let ?s = "gw_object g r"
  have ok: "entries_ok g r" "session_ok g r" using inv reg by (simp_all add: gateway_inv_def base_ok_def)
  have empty: "g_streams ?s = []" using ok(2) act by (cases "lifecycle ?s") (auto simp: session_ok_def)
  have "confined r g (out_closeStream (g_outboundFlow ?s) (pr_streamId pr) g)" by (rule confined_out_ops) simp_all
  then have "confined r g (set_in (g_inboundFlow ?s) v (out_closeStream (g_outboundFlow ?s) (pr_streamId pr) g))"
    by (rule confined_set_in) (simp_all add: v)
  then show c: "confined r g g'" unfolding g' by (rule confined_on_session) (simp add: capture_eq)
  have obj: "gw_object g' r = ?s\<lparr>g_probe := None\<rparr>" "gw_sessions g' = gw_sessions g" "gw_killSwitch g' = gw_killSwitch g" "gw_connection g' = gw_connection g"
    by (simp_all add: g' out_closeStream_def)
  show "g_streams (gw_object g' r) = []" by (simp add: obj empty)
  note b = gateway_inv_others [OF inv, THEN conjunct1] gateway_inv_others [OF inv, THEN conjunct2, of r]
  have sids: "session_ids (gw_object g' r) = {}" "session_ids ?s = {pr_streamId pr}" by (simp_all add: obj session_ids_def empty pr)
  have e: "entries_ok g' r" by (rule confined_idle [OF b reg c]) (simp_all add: obj empty)
  have "has_carrier (lifecycle ?s) \<longrightarrow> flows_ok g' (gw_object g' r)"
    unfolding flows_ok_def sids using ok(2) v(2)
    by (simp add: obj session_ok_def flows_ok_def sids del: dom_eq_empty_conv) (simp add: g' out_closeStream_def closeStream_ids del: dom_eq_empty_conv)
  moreover have "carrier_ok g' r = carrier_ok g r" by (simp add: carrier_ok_def obj)
  ultimately have "session_ok g' r" using ok(2) act by (simp add: session_ok_def obj lifecycle_probe_only)
  with confined_inv [OF b reg c obj(2) e] show "gateway_inv g'" by simp
  show "is_registered g' r" using reg confined_registered [OF c obj(2)] by simp
qed

lemma committed_transition:
  assumes "session_inv (RECONNECTING c)"
  shows "(\<exists>e. transitionSession (RECONNECTING c) (RESUME_COMMITTED now a) policy = Inl e) \<or>
    (\<exists>reason t. transitionSession (RECONNECTING c) (RESUME_COMMITTED now a) policy = Inr (EXPIRED reason t)) \<or>
    (\<exists>s. transitionSession (RECONNECTING c) (RESUME_COMMITTED now a) policy = Inr (ACTIVE s) \<and> activeStreamCount s = 0 \<and>
      candidateAttemptId c = Some a \<and> candidateGeneration c = Some (generation s))"
  using transitionSession_cases [OF assms, of "RESUME_COMMITTED now a" policy] assms by (auto split: if_splits)

lemma activated_inv:
  assumes inv: "gateway_inv g" and reg: "is_registered g r" and s: "g_streams (gw_object g r) = []" "g_probe (gw_object g r) = None"
    and a: "activeStreamCount a = 0" "generation a = g_generation (gw_object g r)" "1 \<le> generation a"
    and carrier: "has_carrier (lifecycle (gw_object g r))" and ks: "\<not> gw_killSwitch g"
  shows "gateway_inv (on_session r (\<lambda>s. s\<lparr>lifecycle := ACTIVE a\<rparr>) g)"
proof -
  let ?g = "on_session r (\<lambda>s. s\<lparr>lifecycle := ACTIVE a\<rparr>) g"
  have ok: "session_ok g r" using inv reg by (simp add: gateway_inv_def)
  have "session_ids (gw_object ?g r) = session_ids (gw_object g r)" by (simp add: session_ids_def)
  then have "session_ok ?g r"
    using ok s a carrier ks by (simp add: session_ok_def flows_ok_def carrier_ok_def)
  then show ?thesis using lifecycle_middle [OF inv reg] others_gateway_inv by blast
qed

lemma committing:
  assumes inv: "gateway_inv g" and reg: "is_registered g r" and act: "\<not> is_active (lifecycle (gw_object g r))"
    and s: "g_streams (gw_object g r) = []" "g_probe (gw_object g r) = None" and ks: "\<not> gw_killSwitch g"
  shows "after (commit_activation p k r) (\<lambda>committed g'. gateway_inv g' \<and>
    (committed \<longrightarrow> active_generation (lifecycle (gw_object g' r)) = Some (g_generation (gw_object g' r)))) gateway_inv g"
proof -
  let ?s = "gw_object g r"
  have ok: "session_ok g r" using inv reg by (simp add: gateway_inv_def)
  show ?thesis
  proof (cases "lifecycle ?s")
    case CREATING
    let ?a = "\<lparr>activatedAt = gw_clock g, generation = 1, activeStreamCount = 0, lastStreamClosedAt = gw_clock g\<rparr>"
    have gen: "g_generation ?s = 1" using ok CREATING by (simp add: session_ok_def)
    have "gateway_inv (on_session r (\<lambda>s. s\<lparr>lifecycle := ACTIVE ?a\<rparr>) g)"
      by (rule activated_inv [OF inv reg s]) (use CREATING gen ks in simp_all)
    then show ?thesis using CREATING gen by (simp add: commit_activation_def wp transitionSession_def)
  next
    case (RECONNECTING c)
    then have c: "session_inv (RECONNECTING c)" using ok by (simp add: session_ok_def)
    show ?thesis
    proof (cases "cn_resumeAttemptId (gw_connection g k)")
      case None
      then show ?thesis using RECONNECTING inv by (simp add: commit_activation_def wp)
    next
      case (Some a)
      have step: "after (commit_activation p k r) Q gateway_inv g =
        (case transitionSession (RECONNECTING c) (RESUME_COMMITTED (gw_clock g) a) (p_policy p) of
           Inl _ \<Rightarrow> gateway_inv g | Inr l \<Rightarrow> after (applySessionTransition p r l) Q gateway_inv g)" for Q
        using RECONNECTING Some by (simp add: commit_activation_def wp)
      have active: "gateway_inv (on_session r (\<lambda>s. s\<lparr>lifecycle := ACTIVE st\<rparr>) g)" "generation st = g_generation ?s"
        if "activeStreamCount st = 0" "candidateGeneration c = Some (generation st)" for st
      proof -
        show gen: "generation st = g_generation ?s" using that ok RECONNECTING by (simp add: session_ok_def)
        have "1 \<le> generation st" using c that by (auto split: option.splits)
        then show "gateway_inv (on_session r (\<lambda>s. s\<lparr>lifecycle := ACTIVE st\<rparr>) g)"
          by (intro activated_inv [OF inv reg s]) (use that gen ks RECONNECTING in simp_all)
      qed
      from committed_transition [OF c, of "gw_clock g" a "p_policy p"] show ?thesis
      proof (elim disjE exE conjE)
        fix e
        assume "transitionSession (RECONNECTING c) (RESUME_COMMITTED (gw_clock g) a) (p_policy p) = Inl e"
        then show ?thesis by (simp add: step inv)
      next
        fix reason t
        assume "transitionSession (RECONNECTING c) (RESUME_COMMITTED (gw_clock g) a) (p_policy p) = Inr (EXPIRED reason t)"
        then show ?thesis using expiring_after [OF inv reg] by (simp add: step applySessionTransition_def wp)
      next
        fix st
        assume st: "transitionSession (RECONNECTING c) (RESUME_COMMITTED (gw_clock g) a) (p_policy p) = Inr (ACTIVE st)"
          "activeStreamCount st = 0" "candidateGeneration c = Some (generation st)"
        from st(1) active [OF st(2,3)] show ?thesis by (simp add: step applySessionTransition_def wp)
      qed
    qed
  qed (use act ok in \<open>simp_all add: session_ok_def\<close>)
qed

lemma activate_session_kept:
  assumes inv: "gateway_inv g" and reg: "is_registered g r" and act: "\<not> is_active (lifecycle (gw_object g r))"
    and pr: "g_probe (gw_object g r) = Some pr0" "pr_streamId pr = pr_streamId pr0" and ks: "\<not> gw_killSwitch g"
  shows "after (activate_session p k r pr) (\<lambda>_. gateway_inv) gateway_inv g"
proof -
  let ?s = "gw_object g r"
  let ?c = "out_closeStream (g_outboundFlow ?s) (pr_streamId pr) g"
  have flow: "gw_in ?c = gw_in g" "gw_object ?c = gw_object g" by (simp_all add: out_closeStream_def)
  have ok: "in_ok (gw_in g w)" for w using inv by (simp add: gateway_inv_def base_ok_def)
  have "after (commit_activation p k r) (\<lambda>committed. after (if \<not> committed then ret ()
      else bindM (read_gateway (\<lambda>g. gw_object g r)) (\<lambda>s.
        if active_generation (lifecycle s) \<noteq> Some (g_generation s) then throw_gateway (FrameFailed ''activation commit generation mismatch'')
        else update_gateway (start_send (g_socket s) (frame SessionActive (g_generation s) 0
          (Some (encodeMetadata (JObject (session_active_members s)))))))) (\<lambda>_. gateway_inv) gateway_inv) gateway_inv
      (on_session r (\<lambda>s. s\<lparr>g_probe := None\<rparr>) (set_in (g_inboundFlow ?s) v ?c))"
    if "in_ok v" "in_ids v = in_ids (gw_in g (g_inboundFlow ?s)) - {pr_streamId pr}" for v
  proof -
    let ?g = "on_session r (\<lambda>s. s\<lparr>g_probe := None\<rparr>) (set_in (g_inboundFlow ?s) v ?c)"
    note pc = probe_closed [OF inv reg act pr(1), of v ?g, OF that(1)]
    have g: "gateway_inv ?g" "is_registered ?g r" "confined r g ?g" "g_streams (gw_object ?g r) = []"
      using pc that(2) pr(2) by simp_all
    have ks': "\<not> gw_killSwitch ?g" using g(3) ks by (simp add: confined_def)
    have sends: "same_gateway h (start_send j input h)" for h j input by (simp add: same)
    show ?thesis
      by (rule after_mono [OF committing [OF g(1,2) _ g(4) _ ks']])
        (use act same_inv [OF sends] in \<open>auto simp: wp flow\<close>)
  qed
  then show ?thesis
    unfolding activate_session_def wp flow
    by (intro after_in_close) (simp_all add: flow ok)
qed

lemma probe_end_kept:
  assumes inv: "gateway_inv g" and reg: "is_registered g r" and act: "\<not> is_active (lifecycle (gw_object g r))"
    and pr: "g_probe (gw_object g r) = Some pr"
  shows "after (probe_end p ready k r pr) (\<lambda>_. gateway_inv) gateway_inv g"
proof -
  let ?g = "on_session r (\<lambda>s. s\<lparr>g_probe := Some (pr\<lparr>pr_clientEnded := True\<rparr>)\<rparr>) g"
  have sg: "same_gateway g ?g" by (rule probe_set_same [OF pr]) simp
  note inv' = same_inv [OF sg inv]
  have "after (activate_session p k r pr) (\<lambda>_. gateway_inv) gateway_inv ?g" if "\<not> gw_killSwitch g"
    by (rule activate_session_kept [OF inv', of r "pr\<lparr>pr_clientEnded := True\<rparr>"])
      (use same_registered [OF sg] reg act that in simp_all)
  with inv inv' show ?thesis by (auto simp: probe_end_def wp intro: rejecting_after)
qed

lemma activation_frame_kept:
  assumes "gateway_inv g" "is_registered g r" "\<not> is_active (lifecycle (gw_object g r))"
  shows "after (activation_frame p ready k r e) (\<lambda>_. gateway_inv) gateway_inv g"
proof (cases "g_probe (gw_object g r)")
  case None
  then show ?thesis using assms(1) by (simp add: activation_frame_def wp)
next
  case (Some pr)
  have upd: "after (out_update w i n) (\<lambda>_. gateway_inv) gateway_inv g" for w i n
    by (rule after_out_update) (use assms(1) same_inv in blast)
  show ?thesis
    using assms Some upd probe_data_kept [OF assms(1) Some] probe_end_kept [OF assms Some]
    by (cases "envType e") (auto simp: activation_frame_def wp split: sum.split)
qed

lemma applied_again_kept: "gateway_inv g \<Longrightarrow> after (applied_again k r payload) (\<lambda>_. gateway_inv) gateway_inv g"
  by (auto simp: applied_again_def wp intro: rejecting_after split: sum.split)

lemma terminating_after: "gateway_inv g \<Longrightarrow> after (terminateGatewaySession p r reason n) (\<lambda>_. gateway_inv) E g"
  by (rule after_mono [OF terminating]) (auto simp: gateway_inv_others disposed_def)

lemma session_frame_kept:
  assumes "gateway_inv g"
  shows "after (session_frame p ready rnd k r e) (\<lambda>_. gateway_inv) gateway_inv g"
proof -
  have s: "same_gateway g (on_connection k (\<lambda>cn. cn\<lparr>cn_receiveFailed := True\<rparr>) g)"
    "same_gateway g (on_session r (\<lambda>s. s\<lparr>g_lastPongAt := gw_clock g\<rparr>) g)" "same_gateway g (start_send k input g)" for input
    by (simp_all add: same same_connection_def same_session_def)
  note kept = s [THEN same_inv, OF assms]
  have frame: "after (handleClientFrame p r e) (\<lambda>_. gateway_inv) gateway_inv g" using handleClientFrame_kept assms by blast
  show ?thesis
    unfolding session_frame_def wp prod.case
    by (auto simp: wp assms kept frame intro!: config_applied_kept activation_frame_kept applied_again_kept terminating_after)
qed

end
