(* ===== verification/GatewayHelloProps.thy ===== *)
theory GatewayHelloProps
  imports GatewayCarrierProps
begin

text \<open>HELLO, the receive loop, the timers, the kill switch and the revalidation keep the invariant.\<close>

declare map_of_eq_Some_iff [simp del]

section \<open>New objects\<close>

text \<open>A store with new objects above the old bound, and nothing else changed below it.\<close>

definition grown :: "gateway \<Rightarrow> gateway \<Rightarrow> bool" where
  "grown g g' = (gw_sessions g' = gw_sessions g \<and> gw_fresh g \<le> gw_fresh g' \<and> gw_killSwitch g' = gw_killSwitch g \<and>
     (\<forall>r < gw_fresh g. gw_object g' r = gw_object g r) \<and> (\<forall>r. gw_fresh g \<le> r \<longrightarrow> g_streams (gw_object g' r) = []) \<and>
     gw_stream g' = gw_stream g \<and> (\<forall>w < gw_fresh g. gw_out g' w = gw_out g w \<and> gw_in g' w = gw_in g w) \<and>
     (\<forall>w. flow_inv (gw_out g' w)) \<and> (\<forall>w. in_ok (gw_in g' w)) \<and>
     (\<forall>k < gw_fresh g. gw_connection g' k = gw_connection g k))"

lemma base_below:
  assumes "base_ok g" "is_registered g r"
  shows "r < gw_fresh g" "g_outboundFlow (gw_object g r) < gw_fresh g" "g_inboundFlow (gw_object g r) < gw_fresh g"
    "g_socket (gw_object g r) < gw_fresh g"
  using assms by (auto simp: base_ok_def is_registered_def)

lemma grown_registered:
  assumes "base_ok g" "grown g g'"
  shows "is_registered g' r = is_registered g r"
proof (cases "r < gw_fresh g")
  case True
  then show ?thesis using assms(2) by (simp add: grown_def is_registered_def)
next
  case False
  have "map_get (gw_sessions g) t \<noteq> Some r" for t using assms(1) False by (auto simp: base_ok_def)
  then show ?thesis using assms(2) by (simp add: grown_def is_registered_def)
qed

lemma grown_inv:
  assumes inv: "gateway_inv g" and g': "grown g g'"
  shows "gateway_inv g'"
proof -
  have base: "base_ok g" using inv by (simp add: gateway_inv_def)
  note reg = grown_registered [OF base g']
  have same: "gw_object g' r = gw_object g r" if "is_registered g r" for r using base_below [OF base that] g' by (simp add: grown_def)
  have "entries_ok g' r" if "is_registered g r" for r
  proof -
    have "entries_ok g r" using base that by (simp add: base_ok_def)
    moreover have "stream_ok g' r i st" if "stream_ok g r i st" for i st
      using that g' same [OF \<open>is_registered g r\<close>] by (simp add: stream_ok_def grown_def)
    ultimately show ?thesis by (simp add: entries_ok_def same [OF that])
  qed
  moreover have "session_ok g' r" if "is_registered g r" for r
  proof -
    have "session_ok g r" using inv that by (simp add: gateway_inv_def)
    then show ?thesis using base_below [OF base that] g'
      by (simp add: session_ok_def flows_ok_def carrier_ok_def same [OF that] grown_def)
  qed
  moreover have "g_streams (gw_object g' r) = []" if "\<not> is_registered g r" for r
    using base g' that by (cases "r < gw_fresh g") (auto simp: base_ok_def grown_def)
  moreover have "g_tunnelId (gw_object g' r) = t \<and> r < gw_fresh g' \<and> g_outboundFlow (gw_object g' r) < gw_fresh g' \<and>
      g_inboundFlow (gw_object g' r) < gw_fresh g' \<and> g_socket (gw_object g' r) < gw_fresh g'"
    if "map_get (gw_sessions g) t = Some r" for t r
  proof -
    have t: "g_tunnelId (gw_object g r) = t" using base that by (simp add: base_ok_def)
    with that have reg: "is_registered g r" by (simp add: is_registered_def)
    have "gw_fresh g \<le> gw_fresh g'" using g' by (simp add: grown_def)
    with base_below [OF base reg] t show ?thesis by (simp add: same [OF reg])
  qed
  ultimately show ?thesis
    using base g' unfolding gateway_inv_def base_ok_def reg by (simp add: grown_def same)
qed

lemma unallocated: "base_ok g \<Longrightarrow> gw_fresh g \<le> r \<Longrightarrow> \<not> is_registered g r \<and> g_streams (gw_object g r) = []"
  using base_below(1) [of g r] by (simp add: base_ok_def) (metis linorder_not_less)

lemma attaching: "gateway_inv g \<Longrightarrow> gateway_inv (attachGatewayCarrier a l g)"
proof -
  assume inv: "gateway_inv g"
  have "grown g (attachGatewayCarrier a l g)"
    using inv unallocated [of g] by (simp add: grown_def attachGatewayCarrier_def Let_def gateway_inv_def) (simp add: base_ok_def)
  then show ?thesis by (rule grown_inv [OF inv])
qed

section \<open>Creating a session\<close>

lemma registering:
  assumes inv: "gateway_inv g" and new: "map_get (gw_sessions g) (g_tunnelId (gw_object g r)) = None"
    and s: "lifecycle (gw_object g r) = CREATING" "\<not> terminated (gw_object g r)" "g_streams (gw_object g r) = []" "g_streamIds (gw_object g r) = 0"
      "g_probe (gw_object g r) = None" "g_generation (gw_object g r) = 1" "g_socket (gw_object g r) = k"
    and flows: "\<not> closed (gw_out g (g_outboundFlow (gw_object g r)))" "out_ids (gw_out g (g_outboundFlow (gw_object g r))) = {}"
      "in_ids (gw_in g (g_inboundFlow (gw_object g r))) = {}"
    and below: "r < gw_fresh g" "k < gw_fresh g" "g_outboundFlow (gw_object g r) < gw_fresh g" "g_inboundFlow (gw_object g r) < gw_fresh g"
    and own: "\<And>r'. is_registered g r' \<Longrightarrow> g_outboundFlow (gw_object g r') \<noteq> g_outboundFlow (gw_object g r) \<and>
      g_inboundFlow (gw_object g r') \<noteq> g_inboundFlow (gw_object g r)"
    and k: "cn_session (gw_connection g k) = None"
    and g': "g' = register_session r (on_connection k (\<lambda>cn. cn\<lparr>cn_session := Some r\<rparr>) g)"
  shows "gateway_inv g' \<and> is_registered g' r"
proof -
  have base: "base_ok g" using inv by (simp add: gateway_inv_def)
  have obj: "gw_object g' = gw_object g" "gw_stream g' = gw_stream g" "gw_out g' = gw_out g" "gw_in g' = gw_in g" "gw_fresh g' = gw_fresh g"
    "gw_killSwitch g' = gw_killSwitch g" "gw_sessions g' = map_set (gw_sessions g) (g_tunnelId (gw_object g r)) r"
    "gw_connection g' = (gw_connection g)(k := (gw_connection g k)\<lparr>cn_session := Some r\<rparr>)"
    by (simp_all add: g' register_session_def on_connection_def)
  have nreg: "\<not> is_registered g r" using new by (simp add: is_registered_def)
  have reg: "is_registered g' r' \<longleftrightarrow> r' = r \<or> is_registered g r'" for r'
    using new by (auto simp: is_registered_def obj jsmap_simps split: if_splits)
  have sids: "session_ids (gw_object g r) = {}" using s by (simp add: session_ids_def)
  have "entries_ok g' r'" if "is_registered g' r'" for r'
    using that base s by (auto simp: reg base_ok_def entries_ok_def stream_ok_def obj sids ids_ok_def)
  moreover have "session_ok g' r'" if "is_registered g r'" for r'
  proof -
    have ok: "session_ok g r'" using inv that by (simp add: gateway_inv_def)
    have "g_socket (gw_object g r') \<noteq> k" if "carrier_ok g r'" using that k by (auto simp: carrier_ok_def)
    with ok show ?thesis by (auto simp: session_ok_def flows_ok_def carrier_ok_def obj)
  qed
  moreover have "session_ok g' r"
    using s flows by (simp add: session_ok_def flows_ok_def carrier_ok_def obj sids)
  moreover have "g_tunnelId (gw_object g r') = t \<and> r' < gw_fresh g \<and> g_outboundFlow (gw_object g r') < gw_fresh g \<and>
      g_inboundFlow (gw_object g r') < gw_fresh g \<and> g_socket (gw_object g r') < gw_fresh g"
    if "map_get (gw_sessions g') t = Some r'" for t r'
    using that base below s(7) by (auto simp: obj jsmap_simps base_ok_def split: if_splits)
  moreover have "wf_map (gw_sessions g')" using base by (simp add: obj base_ok_def)
  moreover have "\<forall>r1 r2. is_registered g' r1 \<longrightarrow> is_registered g' r2 \<longrightarrow> r1 \<noteq> r2 \<longrightarrow>
      g_outboundFlow (gw_object g r1) \<noteq> g_outboundFlow (gw_object g r2) \<and> g_inboundFlow (gw_object g r1) \<noteq> g_inboundFlow (gw_object g r2)"
    using base own unfolding reg base_ok_def by metis
  moreover have "\<forall>r'. \<not> is_registered g' r' \<longrightarrow> g_streams (gw_object g r') = []" "\<forall>w. flow_inv (gw_out g w)" "\<forall>w. in_ok (gw_in g w)"
    using base by (auto simp: reg base_ok_def)
  ultimately show ?thesis unfolding gateway_inv_def base_ok_def by (simp add: obj(1,3,4,5) reg)
qed

definition params_ok :: "gatewayParams \<Rightarrow> bool" where
  "params_ok p = (0 < p_maxPendingCarrierFrames p \<and> p_maxPendingCarrierFrames p \<le> MAX_SAFE_INTEGER)"

lemma after_lift: "after (lift_gateway f m) Q E = (\<lambda>g. case m of Inl _ \<Rightarrow> E g | Inr a \<Rightarrow> Q a g)"
  by (simp add: after_def lift_gateway_def fun_eq_iff split: sum.split)

lemma after_alloc_session:
  "after (alloc_session s) Q E g = Q (gw_fresh g) (g\<lparr>gw_object := (gw_object g)(gw_fresh g := s), gw_fresh := Suc (gw_fresh g)\<rparr>)"
  by (simp add: after_def alloc_session_def)

lemma after_new_outbound:
  assumes "\<And>f. flow_inv f \<Longrightarrow> \<not> closed f \<Longrightarrow> out_ids f = {} \<Longrightarrow> Q (gw_fresh g) ((set_out (gw_fresh g) f g)\<lparr>gw_fresh := Suc (gw_fresh g)\<rparr>)"
  shows "after new_outbound Q E g"
proof -
  obtain f where f: "new_outboundFlow (Integral INITIAL_CONNECTION_WINDOW_BYTES) = Inr f" "\<not> closed f" "out_ids f = {}"
    by (simp add: new_outboundFlow_def INITIAL_CONNECTION_WINDOW_BYTES_def guard_simps)
  with assms new_outboundFlow_inv [OF f(1)] show ?thesis
    by (simp add: new_outbound_def wp after_lift) (simp add: after_def alloc_out_def)
qed

lemma after_new_inbound:
  assumes "params_ok p"
    "\<And>v. in_ok v \<Longrightarrow> in_ids v = {} \<Longrightarrow> Q (gw_fresh g) ((set_in (gw_fresh g) v g)\<lparr>gw_fresh := Suc (gw_fresh g)\<rparr>)"
  shows "after (new_inbound p) Q E g"
proof -
  obtain v where v: "new_gatewayInbound (Integral INITIAL_CONNECTION_WINDOW_BYTES) (Integral (p_maxPendingCarrierFrames p)) = Inr v"
      "in_ids v = {}" "inboundInitialBytes v \<le> MAX_SAFE_INTEGER"
    using assms(1) by (auto simp: params_ok_def new_gatewayInbound_def new_retiredBudget_def INITIAL_CONNECTION_WINDOW_BYTES_def
        MAX_SAFE_INTEGER_def guard_simps)
  with assms(2) new_gatewayInbound_inv [OF v(1)] show ?thesis
    by (simp add: new_inbound_def wp after_lift in_ok_def) (simp add: after_def alloc_in_def)
qed

lemma create_session_kept:
  assumes p: "params_ok p" and inv: "gateway_inv g" and k: "k < gw_fresh g" "cn_session (gw_connection g k) = None"
    and new: "map_get (gw_sessions g) (hm_tunnelId hello) = None"
  shows "after (create_session p rnd k hello authorization) (\<lambda>_. gateway_inv) gateway_inv g"
proof -
  let ?n = "gw_fresh g"
  have base: "base_ok g" using inv by (simp add: gateway_inv_def)
  have ok: "\<forall>w. flow_inv (gw_out g w)" "\<forall>w. in_ok (gw_in g w)" using base by (simp_all add: base_ok_def)
  let ?g1 = "\<lambda>f v. (set_in (Suc ?n) v ((set_out ?n f g)\<lparr>gw_fresh := Suc ?n\<rparr>))\<lparr>gw_fresh := Suc (Suc ?n)\<rparr>"
  let ?s = "\<lambda>config. new_session p rnd k hello authorization ?n (Suc ?n) config (gw_clock g)"
  let ?r = "Suc (Suc ?n)"
  let ?g2 = "\<lambda>f v config. (?g1 f v)\<lparr>gw_object := (gw_object g)(?r := ?s config), gw_fresh := Suc ?r\<rparr>"
  have g1: "gateway_inv (?g1 f v)" "gateway_inv (?g2 f v config)" "grown g (?g2 f v config)"
    if "flow_inv f" "in_ok v" for f v config
  proof -
    have "grown g (?g1 f v)" using ok that unallocated [OF base] by (auto simp: grown_def set_out_def set_in_def)
    then show "gateway_inv (?g1 f v)" by (rule grown_inv [OF inv])
    show "grown g (?g2 f v config)" using ok that unallocated [OF base] by (auto simp: grown_def set_out_def set_in_def new_session_def)
    then show "gateway_inv (?g2 f v config)" by (rule grown_inv [OF inv])
  qed
  have registered: "gateway_inv (register_session ?r (on_connection k (\<lambda>cn. cn\<lparr>cn_session := Some ?r\<rparr>) (?g2 f v config)))"
    if f: "flow_inv f" "\<not> closed f" "out_ids f = {}" and v: "in_ok v" "in_ids v = {}" for f v config
  proof (rule registering [OF g1(2) [OF f(1) v(1)] _ _ _ _ _ _ _ _ _ _ _ _ _ _ _ _ _ refl, THEN conjunct1])
    fix r' assume r': "is_registered (?g2 f v config) r'"
    then have "is_registered g r'" using grown_registered [OF base g1(3) [OF f(1) v(1)]] by simp
    from base_below [OF base this] show "g_outboundFlow (gw_object (?g2 f v config) r') \<noteq> g_outboundFlow (gw_object (?g2 f v config) ?r) \<and>
        g_inboundFlow (gw_object (?g2 f v config) r') \<noteq> g_inboundFlow (gw_object (?g2 f v config) ?r)"
      by (simp add: new_session_def)
  qed (use f v k new in \<open>simp_all add: new_session_def INITIAL_SESSION_STATE_def set_in_def set_out_def\<close>)
  have sent: "same_gateway h (start_send k input (on_connection k (\<lambda>cn. cn\<lparr>cn_mode := m\<rparr>) (log_effect e (log_effect e' h))))" for h input m e e'
    by (simp add: same same_connection_def)
  show ?thesis
    unfolding create_session_def wp after_lift
  proof (cases "session_snapshot p 1 hello (p_shareUrl p (hm_tunnelId hello))", goal_cases)
    case (1 e)
    then show ?case using inv by (simp add: after_lift)
  next
    case (2 snapshot)
    have "after new_outbound (\<lambda>w. after (new_inbound p) (\<lambda>v g. case session_config p 1 snapshot of Inl _ \<Rightarrow> gateway_inv g
        | Inr config \<Rightarrow> after (alloc_session (new_session p rnd k hello authorization w v config (gw_clock g)))
            (\<lambda>r g. gateway_inv (provision k r g)) gateway_inv g) gateway_inv) gateway_inv g"
    proof (rule after_new_outbound, rule after_new_inbound [OF p], goal_cases)
      case (1 f v)
      have "gw_clock (?g1 f v) = gw_clock g" by (simp add: set_in_def set_out_def)
      moreover have "(?g1 f v)\<lparr>gw_object := (gw_object (?g1 f v))(gw_fresh (?g1 f v) := ?s config), gw_fresh := gw_fresh (?g1 f v) + 1\<rparr> = ?g2 f v config" for config
        by simp
      ultimately show ?case
        using g1(1) [OF 1(1) 1(4)] same_inv [OF sent registered [OF 1(1-3) 1(4,5)]]
        by (simp add: after_alloc_session provision_def Let_def split: sum.split)
    qed
    then show ?case using 2 by (simp add: after_lift wp)
  qed
qed

section \<open>Resuming a session\<close>

text \<open>A session that has moved to a new socket with new windows.\<close>

lemma replaced:
  assumes base: "base_ok g" and others: "others_ok r g" and reg: "is_registered g r"
    and k: "k < gw_fresh g" "cn_session (gw_connection g k) = None"
    and G: "gw_sessions G = gw_sessions g" "gw_killSwitch G = gw_killSwitch g" "gw_stream G = gw_stream g" "gw_fresh G = Suc (Suc (gw_fresh g))"
      "\<And>r'. r' \<noteq> r \<Longrightarrow> gw_object G r' = gw_object g r'"
      "\<And>w. w < gw_fresh g \<Longrightarrow> w \<noteq> g_outboundFlow (gw_object g r) \<Longrightarrow> gw_out G w = gw_out g w"
      "\<And>w. w < gw_fresh g \<Longrightarrow> gw_in G w = gw_in g w" "\<And>w. flow_inv (gw_out G w)" "\<And>w. in_ok (gw_in G w)"
      "\<And>j. j \<noteq> k \<Longrightarrow> gw_connection G j = gw_connection g j"
    and s: "g_tunnelId (gw_object G r) = g_tunnelId (gw_object g r)" "g_socket (gw_object G r) = k"
      "g_outboundFlow (gw_object G r) = gw_fresh g" "g_inboundFlow (gw_object G r) = Suc (gw_fresh g)"
      "entries_ok G r" "session_ok G r"
  shows "gateway_inv G"
proof -
  have regs: "is_registered G r' = is_registered g r'" for r'
    using G(1,5) s(1) by (cases "r' = r") (auto simp: is_registered_def)
  have "entries_ok G r'" if "is_registered g r'" "r' \<noteq> r" for r'
  proof -
    have "entries_ok g r'" using base that by (simp add: base_ok_def)
    then show ?thesis using that(2) by (simp add: entries_ok_def stream_ok_def G(3,4,5) less_Suc_eq)
  qed
  then have entries: "entries_ok G r'" if "is_registered g r'" for r' using that s(5) by (cases "r' = r") auto
  have "session_ok G r'" if "is_registered g r'" "r' \<noteq> r" for r'
  proof -
    have ok: "session_ok g r'" using others that by (simp add: others_ok_def)
    have "g_outboundFlow (gw_object g r') \<noteq> g_outboundFlow (gw_object g r)" using base reg that by (auto simp: base_ok_def)
    moreover have "g_socket (gw_object g r') \<noteq> k" if "carrier_ok g r'" using that k(2) by (auto simp: carrier_ok_def)
    ultimately show ?thesis
      using ok base_below [OF base that(1)] that(2) by (auto simp: session_ok_def flows_ok_def carrier_ok_def G)
  qed
  then have sessions: "session_ok G r'" if "is_registered g r'" for r' using that s(6) by (cases "r' = r") auto
  have below: "g_tunnelId (gw_object G r') = t \<and> r' < gw_fresh G \<and> g_outboundFlow (gw_object G r') < gw_fresh G \<and>
      g_inboundFlow (gw_object G r') < gw_fresh G \<and> g_socket (gw_object G r') < gw_fresh G"
    if "map_get (gw_sessions g) t = Some r'" for t r'
  proof -
    have t: "g_tunnelId (gw_object g r') = t" using base that by (simp add: base_ok_def)
    with that have "is_registered g r'" by (simp add: is_registered_def)
    from base_below [OF base this] t show ?thesis using s k(1) G(4,5) by (cases "r' = r") (simp_all add: less_Suc_eq)
  qed
  have flows: "g_outboundFlow (gw_object G r1) \<noteq> g_outboundFlow (gw_object G r2) \<and> g_inboundFlow (gw_object G r1) \<noteq> g_inboundFlow (gw_object G r2)"
    if "is_registered g r1" "is_registered g r2" "r1 \<noteq> r2" for r1 r2
  proof -
    have "g_outboundFlow (gw_object g r1) \<noteq> g_outboundFlow (gw_object g r2) \<and> g_inboundFlow (gw_object g r1) \<noteq> g_inboundFlow (gw_object g r2)"
      using base that unfolding base_ok_def by blast
    with base_below [OF base that(1)] base_below [OF base that(2)] that(3) G(5) [of r1] G(5) [of r2] s(3,4)
    show ?thesis by (cases "r1 = r"; cases "r2 = r") simp_all
  qed
  have none: "g_streams (gw_object G r') = []" if "\<not> is_registered g r'" for r'
    using base that reg G(5) by (cases "r' = r") (auto simp: base_ok_def)
  have wf: "wf_map (gw_sessions g)" using base by (simp add: base_ok_def)
  have fs: "\<forall>r r'. is_registered g r \<longrightarrow> is_registered g r' \<longrightarrow> r \<noteq> r' \<longrightarrow>
      g_outboundFlow (gw_object G r) \<noteq> g_outboundFlow (gw_object G r') \<and> g_inboundFlow (gw_object G r) \<noteq> g_inboundFlow (gw_object G r')"
    by (intro allI impI) (rule flows)
  have bs: "\<forall>t r. map_get (gw_sessions g) t = Some r \<longrightarrow> g_tunnelId (gw_object G r) = t \<and> r < gw_fresh G \<and>
      g_outboundFlow (gw_object G r) < gw_fresh G \<and> g_inboundFlow (gw_object G r) < gw_fresh G \<and> g_socket (gw_object G r) < gw_fresh G"
    by (intro allI impI) (rule below)
  have rest: "\<forall>r. \<not> is_registered g r \<longrightarrow> g_streams (gw_object G r) = []" "\<forall>r. is_registered g r \<longrightarrow> entries_ok G r"
    "\<forall>w. flow_inv (gw_out G w)" "\<forall>w. in_ok (gw_in G w)" "\<forall>r. is_registered g r \<longrightarrow> session_ok G r"
    by (intro allI impI, rule none entries G(8,9) sessions, assumption?)+
  show ?thesis
    unfolding gateway_inv_def base_ok_def regs G(1) by (intro conjI wf fs bs rest)
qed

lemma resumed_transition:
  assumes "session_inv (RECONNECTING c)"
  shows "(\<exists>e. transitionSession (RECONNECTING c) (START_RESUME now a) policy = Inl e) \<or>
    (\<exists>reason t. transitionSession (RECONNECTING c) (START_RESUME now a) policy = Inr (EXPIRED reason t)) \<or>
    (\<exists>c'. transitionSession (RECONNECTING c) (START_RESUME now a) policy = Inr (RECONNECTING c') \<and> session_inv (RECONNECTING c') \<and>
      candidateAttemptId c' = Some a \<and> candidateGeneration c' = Some (nextCandidateGeneration c))"
  using transitionSession_cases [OF assms, of "START_RESUME now a" policy] transitionSession_inv [OF assms, of "START_RESUME now a" policy]
  by (auto split: if_splits)

lemma connection_simps [simp]:
  "gw_object (on_connection k h g) = gw_object g" "gw_sessions (on_connection k h g) = gw_sessions g" "gw_stream (on_connection k h g) = gw_stream g"
  "gw_out (on_connection k h g) = gw_out g" "gw_in (on_connection k h g) = gw_in g" "gw_fresh (on_connection k h g) = gw_fresh g"
  "gw_killSwitch (on_connection k h g) = gw_killSwitch g" "gw_clock (on_connection k h g) = gw_clock g"
  "gw_connection (on_connection k h g) j = (if j = k then h (gw_connection g k) else gw_connection g j)"
  by (simp_all add: on_connection_def)

lemma clock_simps [simp]:
  "gw_clock (on_session r h g) = gw_clock g" "gw_clock (set_out w f g) = gw_clock g" "gw_clock (set_in w v g) = gw_clock g"
  by (simp_all add: on_session_def set_out_def set_in_def)

lemma candidate_simps [simp]:
  "gw_sessions (disposeActivationCandidate r g) = gw_sessions g" "gw_stream (disposeActivationCandidate r g) = gw_stream g"
  "gw_in (disposeActivationCandidate r g) = gw_in g" "gw_fresh (disposeActivationCandidate r g) = gw_fresh g"
  "gw_killSwitch (disposeActivationCandidate r g) = gw_killSwitch g" "gw_connection (disposeActivationCandidate r g) = gw_connection g"
  "gw_object (disposeActivationCandidate r g) r' =
    (if r' = r then (gw_object g r)\<lparr>g_configAckTimer := None, g_probe := None, g_configSendCount := 0\<rparr> else gw_object g r')"
  "gw_out (disposeActivationCandidate r g) w =
    (if w = g_outboundFlow (gw_object g r) then snd (close_window (gw_out g w)) else gw_out g w)"
  by (simp_all add: disposeActivationCandidate_def out_close_def)

text \<open>The store of \<^verbatim>\<open>resume_session\<close> before its last step, with the new windows.\<close>

definition moved :: "nat \<Rightarrow> nat \<Rightarrow> string \<Rightarrow> outboundFlow \<Rightarrow> gatewayInbound \<Rightarrow> gateway \<Rightarrow> gateway" where
  "moved r k a f v g =
    (let n = gw_fresh g;
         g = on_session r (\<lambda>s. s\<lparr>g_socket := k\<rparr>) (disposeActivationCandidate r
           (on_connection k (\<lambda>cn. cn\<lparr>cn_session := Some r, cn_resumeAttemptId := Some a\<rparr>) g));
         g = on_session r (\<lambda>s. s\<lparr>g_outboundFlow := n\<rparr>) ((set_out n f g)\<lparr>gw_fresh := Suc n\<rparr>)
     in on_session r (\<lambda>s. s\<lparr>g_inboundFlow := Suc n, g_streamIds := 0\<rparr>) ((set_in (Suc n) v g)\<lparr>gw_fresh := Suc (Suc n)\<rparr>))"

lemma moved_inv:
  assumes base: "base_ok g" and others: "others_ok r g" and reg: "is_registered g r"
    and k: "k < gw_fresh g" "cn_session (gw_connection g k) = None"
    and s: "g_streams (gw_object g r) = []" "\<not> terminated (gw_object g r)" "\<not> gw_killSwitch g" "lifecycle (gw_object g r) = RECONNECTING c"
      "session_inv (RECONNECTING c)" "candidateAttemptId c = Some a" "candidateGeneration c = Some n"
    and f: "flow_inv f" "\<not> closed f" "out_ids f = {}" and v: "in_ok v" "in_ids v = {}"
    and h: "\<And>s. terminated (h s) = terminated s \<and> lifecycle (h s) = lifecycle s \<and> g_tunnelId (h s) = g_tunnelId s \<and> g_socket (h s) = g_socket s \<and>
      g_streams (h s) = g_streams s \<and> g_streamIds (h s) = g_streamIds s \<and> g_outboundFlow (h s) = g_outboundFlow s \<and>
      g_inboundFlow (h s) = g_inboundFlow s \<and> g_probe (h s) = g_probe s \<and> g_generation (h s) = n"
    and H: "\<And>cn. same_connection cn (H cn)"
  shows "gateway_inv (on_connection k H (on_session r h (moved r k a f v g)))"
proof (rule replaced [OF base others reg k])
  let ?G = "on_connection k H (on_session r h (moved r k a f v g))"
  have fi: "flow_inv (gw_out g w)" "in_ok (gw_in g w)" for w using base by (simp_all add: base_ok_def)
  have old: "g_outboundFlow (gw_object g r) \<noteq> gw_fresh g" using base_below [OF base reg] by simp
  show "flow_inv (gw_out ?G w)" "in_ok (gw_in ?G w)" for w
    using fi f(1) v(1) by (simp_all add: moved_def Let_def close_window_inv)
  have obj: "gw_object ?G r = h (gw_object (moved r k a f v g) r)" by simp
  have m: "lifecycle (gw_object (moved r k a f v g) r) = RECONNECTING c" "g_streams (gw_object (moved r k a f v g) r) = []"
    "g_streamIds (gw_object (moved r k a f v g) r) = 0" "g_probe (gw_object (moved r k a f v g) r) = None"
    "g_socket (gw_object (moved r k a f v g) r) = k" "terminated (gw_object (moved r k a f v g) r) = terminated (gw_object g r)"
    "g_outboundFlow (gw_object (moved r k a f v g) r) = gw_fresh g" "g_inboundFlow (gw_object (moved r k a f v g) r) = Suc (gw_fresh g)"
    "g_tunnelId (gw_object (moved r k a f v g) r) = g_tunnelId (gw_object g r)"
    by (simp_all add: moved_def Let_def s)
  have sids: "session_ids (gw_object ?G r) = {}" by (simp add: session_ids_def h m)
  show "entries_ok ?G r" unfolding entries_ok_def sids by (simp add: h m ids_ok_def)
  have "gw_out ?G (gw_fresh g) = f" "gw_in ?G (Suc (gw_fresh g)) = v" by (simp_all add: moved_def Let_def)
  then have "flows_ok ?G (gw_object ?G r)" unfolding flows_ok_def sids by (simp add: h m f v del: dom_eq_empty_conv)
  moreover have "carrier_ok ?G r"
    using H [of "gw_connection (moved r k a f v g) k"] by (simp add: carrier_ok_def h m same_connection_def) (simp add: moved_def Let_def s)
  moreover have "gw_killSwitch ?G = gw_killSwitch g" by (simp add: moved_def Let_def)
  moreover have "lastIssuedGeneration c = Some n" using s(5,7) by simp
  ultimately show "session_ok ?G r" using s by (simp add: session_ok_def h m)
  show "g_tunnelId (gw_object ?G r) = g_tunnelId (gw_object g r)" "g_socket (gw_object ?G r) = k"
    "g_outboundFlow (gw_object ?G r) = gw_fresh g" "g_inboundFlow (gw_object ?G r) = Suc (gw_fresh g)"
    by (simp_all add: h m)
qed (simp_all add: moved_def Let_def)

lemma resume_session_kept:
  assumes p: "params_ok p" and base: "base_ok g" and others: "others_ok r g" and reg: "is_registered g r"
    and k: "k < gw_fresh g" "cn_session (gw_connection g k) = None"
    and s: "g_streams (gw_object g r) = []" "\<not> terminated (gw_object g r)" "\<not> gw_killSwitch g" "lifecycle (gw_object g r) = RECONNECTING c"
      "session_inv (RECONNECTING c)" "candidateAttemptId c = Some a" "candidateGeneration c = Some n"
  shows "after (resume_session p k hello a r) (\<lambda>_. gateway_inv) gateway_inv g"
proof -
  note kept = moved_inv [OF base others reg k s]
  let ?h = "\<lambda>s. s\<lparr>g_generation := n, g_revision := g_revision s + 1\<rparr>"
  have thrown: "gateway_inv (on_session r ?h (moved r k a f v g))"
    if "flow_inv f" "\<not> closed f" "out_ids f = {}" "in_ok v" "in_ids v = {}" for f v
  proof -
    have "on_connection k (\<lambda>cn. cn) G = G" for G by (simp add: on_connection_def)
    with kept [OF that, of ?h "\<lambda>cn. cn"] show ?thesis by simp
  qed
  have finished: "gateway_inv (on_connection k (\<lambda>cn. cn\<lparr>cn_mode := Some ModeResume\<rparr>) (on_session r (\<lambda>s. s\<lparr>g_config := config,
      g_lastPongAt := t, g_developerAuthorizedAt := t, g_configSendCount := 0, g_appliedConfig := None\<rparr>) (on_session r ?h (moved r k a f v g))))"
    if "flow_inv f" "\<not> closed f" "out_ids f = {}" "in_ok v" "in_ids v = {}" for f v config t
  proof -
    let ?h' = "\<lambda>s. (?h s)\<lparr>g_config := config, g_lastPongAt := t, g_developerAuthorizedAt := t, g_configSendCount := 0, g_appliedConfig := None\<rparr>"
    have "on_session r (\<lambda>s. s\<lparr>g_config := config, g_lastPongAt := t, g_developerAuthorizedAt := t, g_configSendCount := 0, g_appliedConfig := None\<rparr>)
      (on_session r ?h G) = on_session r ?h' G" for G by (simp add: on_session_def)
    with kept [OF that, of ?h' "\<lambda>cn. cn\<lparr>cn_mode := Some ModeResume\<rparr>"] show ?thesis by (simp add: same_connection_def)
  qed
  show ?thesis
    unfolding resume_session_def wp reset_ids_def
  proof (rule after_new_outbound, rule after_new_inbound [OF p], goal_cases)
    case (1 f v)
    have cand: "candidate_generation (lifecycle (gw_object (moved r k a f v g) r)) = Some n" by (simp add: moved_def Let_def s)
    have fr: "gw_fresh (on_session r (\<lambda>s. s\<lparr>g_socket := k\<rparr>) (disposeActivationCandidate r
        (on_connection k (\<lambda>cn. cn\<lparr>cn_session := Some r, cn_resumeAttemptId := Some a\<rparr>) g))) = gw_fresh g" by simp
    show ?case
      using thrown [OF 1(1-3) 1(4,5)] finished [OF 1(1-3) 1(4,5)] cand
      by (simp add: fr flip: moved_def) (simp add: moved_def Let_def after_lift wp split: sum.split)
  qed
qed

lemma rejected_kept: "gateway_inv g \<Longrightarrow> gateway_inv (rejectCarrier k n c a g)"
  by (erule same_inv [rotated]) (simp add: same)

lemma start_resume_kept:
  assumes p: "params_ok p" and inv: "gateway_inv g" and reg: "is_registered g r"
    and k: "k < gw_fresh g" "cn_session (gw_connection g k) = None" and lc: "lifecycle (gw_object g r) = RECONNECTING c"
  shows "after (start_resume p rnd k hello r) (\<lambda>_. gateway_inv) gateway_inv g"
proof -
  have ok: "session_ok g r" using inv reg by (simp add: gateway_inv_def)
  then have c: "session_inv (RECONNECTING c)" and s: "g_streams (gw_object g r) = []" "\<not> terminated (gw_object g r)" "\<not> gw_killSwitch g"
    using lc by (simp_all add: session_ok_def)
  note rejected = rejected_kept
  let ?t = "transitionSession (RECONNECTING c) (START_RESUME (gw_clock g) (rnd_attemptId rnd)) (p_policy p)"
  from resumed_transition [OF c, of "gw_clock g" "rnd_attemptId rnd" "p_policy p"] show ?thesis
  proof (elim disjE exE conjE)
    fix e
    assume "?t = Inl e"
    then show ?thesis using inv rejected by (auto simp: start_resume_def wp lc)
  next
    fix reason t
    assume t: "?t = Inr (EXPIRED reason t)"
    have "after (expireGatewaySession p r (reason_text reason)) (\<lambda>_ g'. gateway_inv (rejectCarrier k 0 ''RESUME_REJECTED'' None g')) gateway_inv
        (on_session r (\<lambda>s. s\<lparr>lifecycle := EXPIRED reason t\<rparr>) g)"
      by (rule after_mono [OF expiring_after [OF inv reg]]) (auto intro: rejected)
    with t show ?thesis by (simp add: start_resume_def wp lc applySessionTransition_def)
  next
    fix c'
    assume c': "?t = Inr (RECONNECTING c')" "session_inv (RECONNECTING c')" "candidateAttemptId c' = Some (rnd_attemptId rnd)"
      "candidateGeneration c' = Some (nextCandidateGeneration c)"
    let ?g = "on_session r (\<lambda>s. s\<lparr>lifecycle := RECONNECTING c'\<rparr>) g"
    have sent: "same_gateway h (sendSessionConfig r t h)" for h t by (simp add: same)
    have "after (resume_session p k hello (rnd_attemptId rnd) r) (\<lambda>_. gateway_inv) gateway_inv ?g"
      by (rule resume_session_kept [OF p lifecycle_middle [OF inv reg] _ _ _ _ _ _ c'(2-4)]) (use k s in simp_all)
    then have "after (resume_session p k hello (rnd_attemptId rnd) r)
        (\<lambda>_ g'. gateway_inv (sendSessionConfig r (captureGatewayTransport (gw_object g' r)) g')) gateway_inv ?g"
      by (rule after_mono) (auto intro: same_inv [OF sent])
    with c' show ?thesis by (simp add: start_resume_def wp lc applySessionTransition_def)
  qed
qed

lemma resume_open_reconnecting: "\<not> resume_refused p hello s now \<Longrightarrow> \<exists>c. lifecycle s = RECONNECTING c"
  by (cases "lifecycle s") (auto simp: resume_refused_def)

lemma hello_resume_kept:
  assumes "params_ok p" "gateway_inv g" "k < gw_fresh g" "cn_session (gw_connection g k) = None"
  shows "after (hello_resume p rnd k hello authorization) (\<lambda>_. gateway_inv) gateway_inv g"
proof (cases "session_of g (Some (hm_tunnelId hello))")
  case None
  then show ?thesis using assms(2) by (simp add: hello_resume_def wp rejected_kept)
next
  case (Some r)
  then have reg: "is_registered g r" using assms(2) by (auto simp: session_of_def gateway_inv_def base_ok_def is_registered_def)
  show ?thesis
  proof (cases "resume_refused p hello (gw_object g r) (gw_clock g)")
    case True
    then show ?thesis using Some assms(2) by (simp add: hello_resume_def wp rejected_kept)
  next
    case False
    then obtain c where "lifecycle (gw_object g r) = RECONNECTING c" using resume_open_reconnecting by blast
    from start_resume_kept [OF assms(1,2) reg assms(3,4) this] show ?thesis
      using Some assms(2) by (simp add: hello_resume_def wp rejected_kept)
  qed
qed

lemma after_admit_tunnel: "(\<And>b a. Q b (g\<lparr>gw_admission := a\<rparr>)) \<Longrightarrow> after (admit_tunnel p authorization) Q E g"
  by (simp add: after_def admit_tunnel_def split_beta Let_def)

lemma hello_create_kept:
  assumes "params_ok p" "gateway_inv g" "k < gw_fresh g" "cn_session (gw_connection g k) = None"
  shows "after (hello_create p rnd k hello authorization) (\<lambda>_. gateway_inv) gateway_inv g"
proof -
  have s: "same_gateway g (g\<lparr>gw_admission := a\<rparr>)" for a by (simp add: same)
  have "after (admit_tunnel p authorization) (\<lambda>admitted. after (if \<not> admitted then update_gateway (rejectCarrier k 0 ''RELAY_NOT_READY'' None)
      else create_session p rnd k hello authorization) (\<lambda>_. gateway_inv) gateway_inv) gateway_inv g"
    if "map_get (gw_sessions g) (hm_tunnelId hello) = None"
    using that assms same_inv [OF s assms(2)]
    by (intro after_admit_tunnel) (auto simp: wp rejected_kept intro!: create_session_kept)
  then show ?thesis using assms(2) by (auto simp: hello_create_def wp rejected_kept)
qed

lemma carrier_hello_kept:
  assumes "params_ok p" "gateway_inv g" "k < gw_fresh g" "cn_session (gw_connection g k) = None"
  shows "after (carrier_hello p rnd k e) (\<lambda>_. gateway_inv) gateway_inv g"
proof -
  have s: "same_gateway g (releasePendingCarrier k g)" "same_gateway g (close_socket k n m g)" for n m by (simp_all add: same)
  have f: "gw_fresh (releasePendingCarrier k g) = gw_fresh g" "gw_connection (releasePendingCarrier k g) = gw_connection g"
    by (simp_all add: releasePendingCarrier_def)
  note i = same_inv [OF s(1) assms(2)] same_inv [OF s(2) assms(2)]
  show ?thesis
    using assms i hello_create_kept [OF assms(1) i(1)] hello_resume_kept [OF assms(1) i(1)]
    by (auto simp: carrier_hello_def wp f split: sum.split helloMode.split)
qed

lemma carrier_frame_kept:
  assumes "params_ok p" "gateway_inv g" "k < gw_fresh g"
  shows "after (carrier_frame p ready rnd k isBinary bytes) (\<lambda>_. gateway_inv) gateway_inv g"
  using assms by (auto simp: carrier_frame_def wp intro!: carrier_hello_kept session_frame_kept split: sum.split option.split)

lemma caught_kept: "after m (\<lambda>_. gateway_inv) gateway_inv g \<Longrightarrow> gateway_inv (caught k m g)"
proof -
  have "same_gateway h (carrier_failed k h)" for h by (simp add: same)
  from same_inv [OF this] show "after m (\<lambda>_. gateway_inv) gateway_inv g \<Longrightarrow> gateway_inv (caught k m g)"
    by (auto simp: after_def caught_def split: prod.splits sum.splits)
qed

lemma carrier_receive_kept:
  "params_ok p \<Longrightarrow> gateway_inv g \<Longrightarrow> k < gw_fresh g \<Longrightarrow> gateway_inv (carrier_receive p ready rnd k isBinary bytes g)"
  by (simp add: carrier_receive_def caught_kept carrier_frame_kept)

section \<open>Timers, the kill switch and revalidation\<close>

lemma revoking:
  assumes inv: "gateway_inv g" and cur: "isCurrentGatewayStream g r i st"
  shows "after (revoke_stream p r i st c) (\<lambda>_. gateway_inv) (\<lambda>_. False) g"
proof -
  let ?g = "on_stream st (\<lambda>s. s\<lparr>gs_cancelled := True\<rparr>) g"
  have t: "gs_transport (gw_stream g st) = captureGatewayTransport (gw_object g r)"
    using current_stream [OF inv cur] by (metis stream_ok_def)
  have sent: "same_gateway h (sendReset tr i u (destroy_exchange st h))" for h tr u by (simp add: same)
  have "marked st g ?g" by (simp add: marked_def)
  note kept = removing [OF inv cur this]
  show ?thesis
    unfolding revoke_stream_def wp
    by (rule after_mono [OF kept]) (auto simp: t captureGatewayTransport_def intro: same_inv [OF sent])
qed

lemma tick_stream_kept: "never_throws (tick_stream p r t entry)"
proof -
  have "after (revoke_stream p r i st c) (\<lambda>_. gateway_inv) (\<lambda>_. False) g"
    if inv: "gateway_inv g" and m: "map_get (g_streams (gw_object g r)) i = Some st" for g i st c
  proof (rule revoking [OF inv])
    have "is_registered g r" using inv m by (auto simp: gateway_inv_def base_ok_def)
    with inv m have "stream_ok g r i st" by (simp add: gateway_inv_def base_ok_def entries_ok_def)
    with m show "isCurrentGatewayStream g r i st"
      by (simp add: isCurrentGatewayStream_def stream_ok_def isCurrentGatewayTransport_def captureGatewayTransport_def)
  qed
  then show ?thesis by (auto simp: tick_stream_def wp split: prod.splits)
qed

lemma for_each_kept: "(\<And>x. x \<in> set xs \<Longrightarrow> never_throws (f x)) \<Longrightarrow> never_throws (for_each f xs)"
  by (auto intro: after_for_each)

lemma never_throwsD: "never_throws m \<Longrightarrow> gateway_inv g \<Longrightarrow> after m (\<lambda>_. gateway_inv) (\<lambda>_. False) g"
  by blast

lemma live_registered:
  assumes "gateway_inv g" "is_registered g r" "is_live (lifecycle (gw_object g r))"
  shows "session_inv (lifecycle (gw_object g r))"
  using assms by (simp add: gateway_inv_def session_ok_def)

lemma after_unregistered_expire: "\<not> is_registered g r \<Longrightarrow> after (expireGatewaySession p r reason) Q E g = Q () g"
  by (simp add: expireGatewaySession_def disposeGatewaySession_def wp)

lemma tick_session_kept:
  assumes inv: "gateway_inv g" and reg: "is_registered g r"
  shows "after (tick_session p r) (\<lambda>_. gateway_inv) (\<lambda>_. False) g"
proof (cases "is_live (lifecycle (gw_object g r))")
  case False
  then show ?thesis using inv by (simp add: tick_session_def wp)
next
  case True
  have streams: "after (for_each (tick_stream p r (gw_clock g)) xs) (\<lambda>_. gateway_inv) (\<lambda>_. False) g" for xs
    by (rule never_throwsD [OF for_each_kept inv]) (rule tick_stream_kept)
  show ?thesis
  proof (cases rule: tick_transition [OF live_registered [OF inv reg True] True, of "gw_clock g" "p_policy p"])
    case (1 reason t)
    then show ?thesis using True expiring_after [OF inv reg] by (simp add: tick_session_def wp Let_def)
  next
    case 2
    have "\<not> is_expired (lifecycle (gw_object g r))" using True by (cases "lifecycle (gw_object g r)") simp_all
    with 2 show ?thesis using True inv streams expiring_after [OF inv reg] by (simp add: tick_session_def wp Let_def)
  qed
qed

lemma each_session_kept:
  assumes "\<And>r g. gateway_inv g \<Longrightarrow> is_registered g r \<Longrightarrow> after (f r) (\<lambda>_. gateway_inv) (\<lambda>_. False) g"
  shows "never_throws (each_session f)"
proof -
  have "never_throws (for_each (\<lambda>r. bindM (read_gateway (\<lambda>g. is_registered g r)) (\<lambda>present. if present then f r else ret ())) rs)" for rs
    by (rule for_each_kept) (use assms in \<open>simp add: wp\<close>)
  then show ?thesis by (simp add: each_session_def wp)
qed

lemma session_tick_kept: "never_throws (session_tick p)"
  unfolding session_tick_def by (rule each_session_kept) (rule tick_session_kept)

text \<open>A loop that terminates every session leaves none.\<close>

definition below_sessions :: "nat list \<Rightarrow> gateway \<Rightarrow> bool" where
  "below_sessions rs g = (gateway_inv g \<and> (\<forall>r. is_registered g r \<longrightarrow> r \<in> set rs))"

lemma terminated_one:
  assumes "below_sessions (r # rs) g"
  shows "after (terminateGatewaySession p r reason n) (\<lambda>_. below_sessions rs) (\<lambda>_. False) g"
  using assms by (intro after_mono [OF terminating]) (auto simp: below_sessions_def gateway_inv_others disposed_def)

lemma terminating_loop:
  assumes "\<And>r g. same_gateway g (h r g)"
  shows "below_sessions rs g \<Longrightarrow> after (for_each (\<lambda>r. bindM (read_gateway (\<lambda>g. is_registered g r)) (\<lambda>present. if present
    then bindM (update_gateway (h r)) (\<lambda>_. terminateGatewaySession p r reason n) else ret ())) rs) (\<lambda>_. below_sessions []) (\<lambda>_. False) g"
proof (induction rs arbitrary: g)
  case Nil
  then show ?case by (simp add: wp)
next
  case (Cons r rs)
  show ?case
  proof (cases "is_registered g r")
    case True
    have "below_sessions (r # rs) (h r g)"
      using Cons.prems same_inv [OF assms] same_registered [OF assms] by (simp add: below_sessions_def)
    from after_mono [OF terminated_one [OF this]] Cons.IH True show ?thesis by (simp add: wp)
  next
    case False
    then have "below_sessions rs g" using Cons.prems by (auto simp: below_sessions_def)
    with Cons.IH False show ?thesis by (simp add: wp)
  qed
qed

lemma all_sessions: "gateway_inv g \<Longrightarrow> below_sessions (map_values (gw_sessions g)) g"
  by (force simp: below_sessions_def is_registered_def dest: map_of_SomeD)

lemma terminating_all:
  assumes "gateway_inv g" "\<And>r g. same_gateway g (h r g)"
  shows "after (each_session (\<lambda>r. bindM (update_gateway (h r)) (\<lambda>_. terminateGatewaySession p r reason n)))
    (\<lambda>_ g'. gateway_inv g' \<and> (\<forall>r. \<not> is_registered g' r)) (\<lambda>_. False) g"
  unfolding each_session_def after_bind after_prims
  by (rule after_mono [OF terminating_loop [OF assms(2) all_sessions [OF assms(1)]]]) (auto simp: below_sessions_def)

end
