(* ===== verification/GatewayOperationProps.thy ===== *)
theory GatewayOperationProps
  imports GatewayHelloProps
begin

text \<open>
  The kill switch, the heartbeat and the revalidation of authorizations keep the invariant. While
  \<^verbatim>\<open>updateKillSwitch\<close> terminates the sessions the switch is already on, so the invariant is carried through the
  loop for the store with the switch read as off: disposing of a session does not look at the switch.
\<close>

section \<open>Operations that do not look at the kill switch\<close>

abbreviation switched :: "bool \<Rightarrow> gateway \<Rightarrow> gateway" where
  "switched b \<equiv> gw_killSwitch_update (\<lambda>_. b)"

definition blind :: "'a gatewayM \<Rightarrow> bool" where
  "blind m = (\<forall>b g. m (switched b g) = apsnd (switched b) (m g))"

named_theorems blinds "operations that do not look at the kill switch"

lemma blind_bind [blinds]: "blind m \<Longrightarrow> (\<And>a. blind (f a)) \<Longrightarrow> blind (bindM m f)"
  by (auto simp: blind_def bindM_def split: prod.splits sum.splits)

lemma blind_prims [blinds]:
  "blind (ret a)"
  "(\<And>b g. h (switched b g) = h g) \<Longrightarrow> blind (read_gateway h)"
  "(\<And>b g. u (switched b g) = switched b (u g)) \<Longrightarrow> blind (update_gateway u)"
  "blind m \<Longrightarrow> blind n \<Longrightarrow> blind (if c then m else n)"
  by (simp_all add: blind_def ret_def read_gateway_def update_gateway_def)

lemma blind_for_each [blinds]: "(\<And>x. blind (f x)) \<Longrightarrow> blind (for_each f xs)"
  by (induction xs) (simp_all add: blinds)

lemma switched_steps [simp]:
  "on_stream st h (switched b g) = switched b (on_stream st h g)"
  "on_session r k (switched b g) = switched b (on_session r k g)"
  "on_exchange x e (switched b g) = switched b (on_exchange x e g)"
  "set_out w f (switched b g) = switched b (set_out w f g)"
  "set_in w v (switched b g) = switched b (set_in w v g)"
  "log_effect ef (switched b g) = switched b (log_effect ef g)"
  "close_socket i n m (switched b g) = switched b (close_socket i n m g)"
  "is_registered (switched b g) r = is_registered g r"
  "is_open (switched b g) i = is_open g i"
  by (simp_all add: on_stream_def on_session_def on_exchange_def set_out_def set_in_def log_effect_def close_socket_def
      is_registered_def)

lemma switched_answers [simp]:
  "out_closeStream w i (switched b g) = switched b (out_closeStream w i g)"
  "out_close w (switched b g) = switched b (out_close w g)"
  "clearGatewayStreamTimers st (switched b g) = switched b (clearGatewayStreamTimers st g)"
  "disposeActivationCandidate r (switched b g) = switched b (disposeActivationCandidate r g)"
  "disposeReviewBinding p r (switched b g) = switched b (disposeReviewBinding p r g)"
  "delete_session r (switched b g) = switched b (delete_session r g)"
  "close_exchange c s (switched b g) = switched b (close_exchange c s g)"
  by (simp_all add: out_closeStream_def out_close_def clearGatewayStreamTimers_def clearRequestInactivityTimer_def
      disposeActivationCandidate_def disposeReviewBinding_def delete_session_def close_exchange_def writeGatewayError_def
      destroy_response_def destroy_request_def Let_def)

lemma blind_close: "blind (in_closeStream w i)"
  by (simp add: blind_def in_closeStream_def in_op_def split: prod.splits sum.splits)

lemma blind_terminate: "blind (terminateGatewaySession p r reason n)"
  unfolding terminateGatewaySession_def disposeGatewaySession_def closeGatewayStreams_def closeGatewayStream_step_def
  by (intro blinds blind_close) (simp_all add: Let_def split_beta blinds blind_close)

lemma blind_after: "blind m \<Longrightarrow> after m (\<lambda>a g. Q a (switched b g)) (\<lambda>g. E (switched b g)) g = after m Q E (switched b g)"
  by (auto simp: blind_def after_def split: prod.splits sum.splits)

lemma blind_each_session:
  assumes "\<And>r. blind (f r)"
  shows "blind (each_session f)"
  unfolding each_session_def by (intro blinds assms) simp_all

section \<open>The kill switch\<close>

lemma empty_switched: "gateway_inv (switched False g) \<Longrightarrow> (\<And>r. \<not> is_registered g r) \<Longrightarrow> gateway_inv g"
  unfolding gateway_inv_def base_ok_def by simp

lemma switched_off: "gateway_inv g \<Longrightarrow> gateway_inv (switched False g)"
  by (simp add: gateway_inv_def base_ok_def session_ok_def entries_ok_def flows_ok_def carrier_ok_def stream_ok_def)

lemma killed:
  assumes inv: "gateway_inv (switched False g)" and on: "gw_killSwitch g"
  shows "after (each_session (\<lambda>r. terminateGatewaySession p r reason n)) (\<lambda>_ g'. gateway_inv g' \<and> (\<forall>r. \<not> is_registered g' r)) (\<lambda>_. False) g"
proof -
  let ?m = "each_session (\<lambda>r. terminateGatewaySession p r reason n)"
  have "bindM (update_gateway (\<lambda>g. g)) (\<lambda>_. m) = m" for m :: "unit gatewayM" by (rule ext) (simp add: bindM_def update_gateway_def)
  with terminating_all [OF inv, of "\<lambda>_ g. g" p reason n]
  have "after ?m (\<lambda>_ g'. gateway_inv g' \<and> (\<forall>r. \<not> is_registered g' r)) (\<lambda>_. False) (switched False g)" by simp
  then have "after ?m (\<lambda>_ g'. gateway_inv (switched False g') \<and> (\<forall>r. \<not> is_registered g' r)) (\<lambda>_. False) g"
    unfolding blind_after [OF blind_each_session [OF blind_terminate], symmetric] by simp
  then show ?thesis by (rule after_mono) (auto intro: empty_switched)
qed

lemma switching:
  assumes inv: "gateway_inv g" and change: "gw_killSwitch g \<noteq> enabled"
  shows "after (updateKillSwitch p enabled) (\<lambda>_ g'. gateway_inv g' \<and> (enabled \<longrightarrow> (\<forall>r. \<not> is_registered g' r))) (\<lambda>_. False) g"
proof -
  let ?g = "log_effect (Emit (if enabled then ''kill_switch.enabled'' else ''kill_switch.disabled'') None)
    (log_effect (Metric ''kill_switch_changed'') (switched enabled g))"
  have off: "gateway_inv (switched False ?g)"
    using same_inv [OF same_effects(1) [OF same_effects(1) [OF same_refl(6)]] switched_off [OF inv]] by simp
  have on: "enabled \<Longrightarrow> gw_killSwitch ?g" by (simp add: log_effect_def)
  show ?thesis
  proof (cases enabled)
    case True
    from killed [OF off on [OF True], of p "''operational kill switch''" 1008] change True show ?thesis
      by (simp add: updateKillSwitch_def wp)
  next
    case False
    with off change show ?thesis by (simp add: updateKillSwitch_def wp)
  qed
qed

lemma updateKillSwitch_kept: "never_throws (updateKillSwitch p enabled)"
proof -
  have "after (updateKillSwitch p enabled) (\<lambda>_. gateway_inv) (\<lambda>_. False) g" if "gateway_inv g" for g
  proof (cases "gw_killSwitch g = enabled")
    case True
    with that show ?thesis by (simp add: updateKillSwitch_def wp)
  next
    case False
    from switching [OF that this, of p] show ?thesis by (rule after_mono) simp_all
  qed
  then show ?thesis by blast
qed

section \<open>Heartbeat and revalidation\<close>

lemma developer_result_kept: "never_throws (developer_result p entry)"
proof -
  have log: "gateway_inv g \<Longrightarrow> gateway_inv (log_effect e g)" for g e by (rule same_inv [OF same_effects(1) [OF same_refl(6)]])
  then show ?thesis
    using terminating_after by (cases entry) (auto simp: developer_result_def wp split: checkResult.split bool.split)
qed

lemma reviewer_result_kept: "never_throws (reviewer_result p entry)"
proof -
  have log: "gateway_inv g \<Longrightarrow> gateway_inv (log_effect e g)" for g e by (rule same_inv [OF same_effects(1) [OF same_refl(6)]])
  have cur: "isCurrentGatewayStream (log_effect e g) r i st = isCurrentGatewayStream g r i st" for e g r i st
    by (rule same_current [OF same_effects(1) [OF same_refl(6)]])
  show ?thesis
    by (cases entry) (auto simp: reviewer_result_def wp isCurrentGatewaySessionStream_def cur intro!: revoking log)
qed

lemma results_kept: "never_throws (developer_results p ds rs)" "never_throws (reviewer_results p vs rs)"
  unfolding developer_results_def reviewer_results_def
  by (rule for_each_kept, rule developer_result_kept, rule for_each_kept, rule reviewer_result_kept)

lemma loop_failed_after:
  "gateway_inv g \<Longrightarrow> after (revalidation_loop_failed p) (\<lambda>_ g'. gateway_inv g' \<and> (\<forall>r. \<not> is_registered g' r)) (\<lambda>_. False) g"
  unfolding revalidation_loop_failed_def
  by (rule terminating_all [where h = "\<lambda>r. log_effect (Emit ''authorization.revalidation_failed'' (Some r))"])
    (simp_all add: same)

end
