(* ===== verification/GatewayMachine.thy ===== *)
theory GatewayMachine
  imports GatewayOperationProps
begin

text \<open>
  The gateway as a machine: a new gateway and one event per handler, timer and continuation of the code, in
  any order and with any arguments. Whatever the sockets, the browsers, the developers and the clock do is
  a list of such events, so what holds after every list holds of every interleaving of the handlers.
\<close>

section \<open>A new gateway\<close>

text \<open>What the heaps hold at addresses that no object has yet.\<close>

definition no_config :: sessionConfigMetadata where
  "no_config = \<lparr>sc_revision = JNull, sc_digest = JNull, sc_snapshot =
     \<lparr>sn_profile = JNull, sn_generation = JNull, sn_localOriginFingerprint = JNull, sn_originProjection = JNull, sn_publicOrigin = JNull,
      sn_initialConnectionWindowBytes = JNull, sn_initialStreamWindowBytes = JNull, sn_maxTtlMs = JNull, sn_idleTimeoutMs = JNull,
      sn_reconnectGraceMs = JNull, sn_maxRequestBodyBytes = JNull, sn_maxFiniteResponseBytes = JNull, sn_maxConcurrentStreams = JNull,
      sn_maxNewStreamsPerMinute = JNull, sn_responseHeaderTimeoutMs = JNull, sn_streamInactivityTimeoutMs = JNull,
      sn_maxStreamDurationMs = JNull\<rparr>\<rparr>"

definition no_session :: gatewaySession where
  "no_session =
    \<lparr>terminated = True, lifecycle = CREATING, ownerAccountId = None, g_sessionId = [], g_tunnelId = [], g_shareUrl = [], g_socket = 0,
     g_streams = [], g_streamIds = 0, g_outboundFlow = 0, g_inboundFlow = 0, g_generation = 0, g_revision = 0, g_config = no_config,
     g_lastPongAt = 0, g_developerAuthorizedAt = 0, g_streamRateWindowStartedAt = 0, g_streamsOpenedInWindow = 0,
     g_provisionId = None, g_resumeSecret = None, g_configAckTimer = None, g_configSendCount = 0, g_appliedConfig = None,
     g_probe = None, g_resumeDigest = [], g_expiryTimer = False, g_ownerAuthVersion = None\<rparr>"

definition no_stream :: gatewayStream where
  "no_stream = new_stream KindHttp 0 0 (captureGatewayTransport no_session) 0 [] None 0"

definition no_outbound :: outboundFlow where
  "no_outbound = \<lparr>initialConnectionBytes = 1, connectionAvailable = 1, streams = [], waiters = [], closed = True\<rparr>"

definition no_inbound :: gatewayInbound where
  "no_inbound = (case new_gatewayInbound (Integral 1) (Integral 1) of Inr w \<Rightarrow> w)"

definition no_socket :: carrierSocket where
  "no_socket = \<lparr>readyState = 3, bufferedAmount = 0, sendError = None\<rparr>"

definition no_exchange :: exchange where
  "no_exchange = \<lparr>ex_method = None, ex_url = None, ex_rawHeaders = [], ex_contentLength = None, ex_requestDestroyed = True,
     ex_socketDestroyed = True, ex_headersSent = False, ex_writableEnded = True, ex_destroyed = True, ex_readable = False, ex_paused = False\<rparr>"

definition no_connection :: connection where
  "no_connection = \<lparr>cn_session = None, cn_mode = None, cn_resumeAttemptId = None, cn_pendingFrames = 0, cn_pendingBytes = 0,
     cn_receiveFailed = True, cn_helloTimer = False, cn_cleanedUp = True, cn_authorization = None, cn_lease = 0\<rparr>"

definition new_gateway :: "int \<Rightarrow> bool \<Rightarrow> gateway" where
  "new_gateway now initialKillSwitch =
    \<lparr>gw_sessions = [], gw_object = (\<lambda>_. no_session), gw_stream = (\<lambda>_. no_stream), gw_out = (\<lambda>_. no_outbound), gw_in = (\<lambda>_. no_inbound),
     gw_socket = (\<lambda>_. no_socket), gw_exchange = (\<lambda>_. no_exchange), gw_connection = (\<lambda>_. no_connection),
     gw_admission = createGatewayAdmission now, gw_fresh = 0, gw_clock = now, gw_killSwitch = initialKillSwitch, gw_log = []\<rparr>"

section \<open>Events\<close>

text \<open>
  The environment first: time passes, a socket reports a new state, a browser's request arrives or changes.
  Then the reviewers' requests and upgrades with the timers and continuations of their streams, the carriers
  with theirs, and the timers, the switch and the answers of the revalidation.
\<close>

datatype gatewayEvent =
    ClockSet int | SocketSet nat carrierSocket | ExchangeSet nat exchange | AdmissionSet admission
  | ReviewerRequest "ustring option" nat "principal option" | ReviewerUpgrade "ustring option" nat "byte list" "principal option"
  | StreamTimer nat string | ResponseClosed nat | RequestChunk nat int | SenderTake nat int nat | SenderSend nat "byte list"
  | RequestEnd nat | RequestEndSent nat | RequestFailed nat
  | DownstreamWrite nat "byte list" | DownstreamDrained nat "byte list" | DownstreamReleased nat "byte list" | DownstreamFailed nat
  | HttpResponseEnd nat | WebSocketResponseEnd nat | PendingHeadSent nat | PendingHeadFailed nat
  | UpgradeExpired nat | UpgradeCancelled nat | UpgradeFailed nat
  | BrowserData nat | BrowserDataSent nat | BrowserFailed nat | BrowserEnd nat | BrowserEndSent nat | ResetFailed transportEpoch
  | CarrierAttached "developerAuthorization option" nat | CarrierMessage nat int | CarrierSettled nat int
  | CarrierReceive bool carrierRandom nat bool "byte list" | CarrierSendFailed nat | ControlFrame nat | HelloTimeout nat
  | RejectSent nat string | ProvisionedSent nat nat | ConfigSent nat nat transportEpoch
  | ConfigAckFirst nat transportEpoch | ConfigAckSecond nat transportEpoch | ConfigResendFailed transportEpoch
  | ProbeTake nat transportEpoch nat int int nat | ProbeSend transportEpoch int "byte list" | ProbeSent nat transportEpoch nat int
  | ProbeWindowSent nat nat transportEpoch nat int int | ActivationSent nat transportEpoch bool
  | CarrierEnded nat | ReconnectTimeout nat
  | Heartbeat | HeartbeatFailed nat transportEpoch | SessionTick | KillSwitch bool
  | DeveloperResults "developerSnapshot list" "checkResult list" | ReviewerResults "reviewerSnapshot list" "checkResult list"
  | RevalidationFailed

definition finally_store :: "'a gatewayM \<Rightarrow> gateway \<Rightarrow> gateway" where
  "finally_store m g = snd (m g)"

fun stream_event :: "gatewayParams \<Rightarrow> gateway \<Rightarrow> gatewayEvent \<Rightarrow> gateway" where
  "stream_event p g (ReviewerRequest tunnelId x reviewer) = finally_store (handleReviewerRequest p tunnelId x reviewer) g"
| "stream_event p g (ReviewerUpgrade tunnelId x head reviewer) = finally_store (handleReviewerUpgrade p tunnelId x head reviewer) g"
| "stream_event p g (StreamTimer st errorCode) = finally_store (expireStream p st errorCode) g"
| "stream_event p g (ResponseClosed st) = finally_store (response_closed p st) g"
| "stream_event p g (RequestChunk st n) = finally_store (request_chunk p st n) g"
| "stream_event p g (SenderTake st n ticket) = sender_take st n ticket g"
| "stream_event p g (SenderSend st payload) = sender_send st payload g"
| "stream_event p g (RequestEnd st) = finally_store (request_end st) g"
| "stream_event p g (RequestEndSent st) = finally_store (request_end_sent p st) g"
| "stream_event p g (RequestFailed st) = finally_store (request_failed p st) g"
| "stream_event p g (DownstreamWrite st chunk) = downstream_write st chunk g"
| "stream_event p g (DownstreamDrained st chunk) = downstream_drained st chunk g"
| "stream_event p g (DownstreamReleased st chunk) = finally_store (downstream_released st chunk) g"
| "stream_event p g (DownstreamFailed st) = finally_store (failBufferedDownstream p st) g"
| "stream_event p g (HttpResponseEnd st) = finally_store (http_response_end p st) g"
| "stream_event p g (WebSocketResponseEnd st) = finally_store (websocket_response_end p st) g"
| "stream_event p g (PendingHeadSent st) = pending_head_sent st g"
| "stream_event p g (PendingHeadFailed st) = finally_store (pending_head_failed p st) g"
| "stream_event p g (UpgradeExpired st) = finally_store (upgrade_expired p st) g"
| "stream_event p g (UpgradeCancelled st) = finally_store (upgrade_cancelled p st) g"
| "stream_event p g (UpgradeFailed st) = finally_store (upgrade_failed p st) g"
| "stream_event p g (BrowserData st) = browser_data st g"
| "stream_event p g (BrowserDataSent st) = browser_data_sent st g"
| "stream_event p g (BrowserFailed st) = finally_store (browser_failed p st) g"
| "stream_event p g (BrowserEnd st) = browser_end st g"
| "stream_event p g (BrowserEndSent st) = finally_store (browser_end_sent p st) g"
| "stream_event p g (ResetFailed t) = sendReset_failed t g"
| "stream_event p g _ = g"

text \<open>A frame can only arrive on a socket that has been attached.\<close>

fun carrier_event :: "gatewayParams \<Rightarrow> gateway \<Rightarrow> gatewayEvent \<Rightarrow> gateway" where
  "carrier_event p g (CarrierAttached authorization lease) = attachGatewayCarrier authorization lease g"
| "carrier_event p g (CarrierMessage k n) = carrier_message p k n g"
| "carrier_event p g (CarrierSettled k n) = carrier_settled k n g"
| "carrier_event p g (CarrierReceive ready rnd k isBinary bytes) =
    (if k < gw_fresh g then carrier_receive p ready rnd k isBinary bytes g else g)"
| "carrier_event p g (CarrierSendFailed k) = carrier_failed k g"
| "carrier_event p g (ControlFrame k) = rejectWebSocketControlFrame k g"
| "carrier_event p g (HelloTimeout k) = hello_timeout k g"
| "carrier_event p g (RejectSent k errorCode) = reject_sent k errorCode g"
| "carrier_event p g (ProvisionedSent k r) = provisioned_sent k r g"
| "carrier_event p g (ConfigSent k r t) = caught k (config_sent p k r t) g"
| "carrier_event p g (ConfigAckFirst r t) = config_ack_first r t g"
| "carrier_event p g (ConfigAckSecond r t) = config_ack_second r t g"
| "carrier_event p g (ConfigResendFailed t) = config_resend_failed t g"
| "carrier_event p g (ProbeTake r t identity i n ticket) = probe_take r t identity i n ticket g"
| "carrier_event p g (ProbeSend t i payload) = probe_send t i payload g"
| "carrier_event p g (ProbeSent r t identity i) = probe_sent r t identity i g"
| "carrier_event p g (ProbeWindowSent k r t identity i n) = caught k (probe_window_sent r t identity i n) g"
| "carrier_event p g (ActivationSent r t resumed) = activation_sent r t resumed g"
| "carrier_event p g (CarrierEnded k) = finally_store (carrier_ended p k) g"
| "carrier_event p g (ReconnectTimeout r) = finally_store (reconnect_timeout p r) g"
| "carrier_event p g _ = g"

fun operation_event :: "gatewayParams \<Rightarrow> gateway \<Rightarrow> gatewayEvent \<Rightarrow> gateway" where
  "operation_event p g (ClockSet t) = g\<lparr>gw_clock := t\<rparr>"
| "operation_event p g (SocketSet k s) = g\<lparr>gw_socket := (gw_socket g)(k := s)\<rparr>"
| "operation_event p g (ExchangeSet x e) = on_exchange x (\<lambda>_. e) g"
| "operation_event p g (AdmissionSet a) = g\<lparr>gw_admission := a\<rparr>"
| "operation_event p g Heartbeat = heartbeat p g"
| "operation_event p g (HeartbeatFailed r t) = heartbeat_failed r t g"
| "operation_event p g SessionTick = finally_store (session_tick p) g"
| "operation_event p g (KillSwitch enabled) = finally_store (updateKillSwitch p enabled) g"
| "operation_event p g (DeveloperResults snapshots results) = finally_store (developer_results p snapshots results) g"
| "operation_event p g (ReviewerResults snapshots results) = finally_store (reviewer_results p snapshots results) g"
| "operation_event p g RevalidationFailed = finally_store (revalidation_loop_failed p) g"
| "operation_event p g _ = g"

text \<open>Each event belongs to one of the three groups; the other two leave the store as it is.\<close>

definition gateway_step :: "gatewayParams \<Rightarrow> gateway \<Rightarrow> gatewayEvent \<Rightarrow> gateway" where
  "gateway_step p g e = operation_event p (carrier_event p (stream_event p g e) e) e"

abbreviation gateway_after :: "gatewayParams \<Rightarrow> int \<Rightarrow> bool \<Rightarrow> gatewayEvent list \<Rightarrow> gateway" where
  "gateway_after p now initialKillSwitch \<equiv> run_machine (gateway_step p) (new_gateway now initialKillSwitch)"

section \<open>Every event keeps the invariant\<close>

lemma new_gateway_inv: "gateway_inv (new_gateway now b)"
proof -
  have "flow_inv no_outbound" by (simp add: no_outbound_def flow_inv_def credits_ok_def)
  moreover obtain w where w: "new_gatewayInbound (Integral 1) (Integral 1) = Inr w" "inboundInitialBytes w \<le> MAX_SAFE_INTEGER"
    by (auto simp: new_gatewayInbound_def new_retiredBudget_def MAX_SAFE_INTEGER_def guard_simps)
  moreover from w new_gatewayInbound_inv [OF w(1)] have "in_ok no_inbound" by (simp add: no_inbound_def in_ok_def)
  ultimately show ?thesis
    by (simp add: gateway_inv_def base_ok_def new_gateway_def is_registered_def no_session_def)
qed

lemma finally_kept: "after m (\<lambda>_. gateway_inv) gateway_inv g \<Longrightarrow> gateway_inv (finally_store m g)"
  unfolding finally_store_def by (rule after_snd)

lemma finally_keeps: "keeps m \<Longrightarrow> gateway_inv g \<Longrightarrow> gateway_inv (finally_store m g)"
  by (blast intro: finally_kept)

lemma accepted_kept: "after m accepted gateway_inv g \<Longrightarrow> gateway_inv (finally_store m g)"
  by (rule finally_kept) (auto elim!: after_mono simp: accepted_def)

lemma finally_never: "never_throws m \<Longrightarrow> gateway_inv g \<Longrightarrow> gateway_inv (finally_store m g)"
  by (rule finally_keeps [OF never_throws_keeps])

lemma caught_keeps: "keeps m \<Longrightarrow> gateway_inv g \<Longrightarrow> gateway_inv (caught k m g)"
  by (rule caught_kept) blast

lemma stream_event_inv: "gateway_inv g \<Longrightarrow> gateway_inv (stream_event p g e)"
  by (cases e) (simp_all add: accepted_kept handleReviewerRequest_kept handleReviewerUpgrade_kept finally_never
      expireStream_kept response_closed_kept request_failed_kept upgrade_kept relay_kept request_chunk_kept request_end_kept
      finally_keeps [OF downstream_kept(2)] sender_kept response_end_kept browser_end_sent_kept same_inv [OF same_answers(7) [OF same_refl(6)]])

lemma carrier_event_inv: "params_ok p \<Longrightarrow> gateway_inv g \<Longrightarrow> gateway_inv (carrier_event p g e)"
  by (cases e) (simp_all add: attaching carrier_receive_kept same_steps [THEN same_inv] same_carrier_steps(3) [OF same_refl(6), THEN same_inv]
      caught_keeps config_sent_kept probe_window_sent_kept finally_never carrier_ended_kept reconnect_timeout_kept)

lemma operation_event_inv: "gateway_inv g \<Longrightarrow> gateway_inv (operation_event p g e)"
proof -
  have t: "same_gateway g (g\<lparr>gw_clock := t\<rparr>)" for t by (rule same_plain) simp_all
  have s: "same_gateway g (g\<lparr>gw_socket := h\<rparr>)" "same_gateway g (g\<lparr>gw_admission := a\<rparr>)" "same_gateway g (on_exchange x f g)" for h a x f
    by (simp_all add: same)
  have l: "never_throws (revalidation_loop_failed p)" by (intro allI impI, rule after_mono [OF loop_failed_after]) simp_all
  assume "gateway_inv g"
  then show ?thesis
    by (cases e) (simp_all add: t [THEN same_inv] s [THEN same_inv] l same_steps [THEN same_inv] finally_never session_tick_kept
        updateKillSwitch_kept results_kept)
qed

lemma gateway_step_inv: "params_ok p \<Longrightarrow> gateway_inv g \<Longrightarrow> gateway_inv (gateway_step p g e)"
  by (simp add: gateway_step_def stream_event_inv carrier_event_inv operation_event_inv)

text \<open>The machine's state is the configuration it was started with and the store.\<close>

definition server_step :: "gatewayParams \<times> gateway \<Rightarrow> gatewayEvent \<Rightarrow> gatewayParams \<times> gateway" where
  "server_step s e = (fst s, gateway_step (fst s) (snd s) e)"

interpretation server: invariant_machine
  "\<lambda>s. params_ok (fst s) \<and> (\<exists>now b. snd s = new_gateway now b)" server_step "\<lambda>s. params_ok (fst s) \<and> gateway_inv (snd s)"
  by unfold_locales (auto simp: server_step_def new_gateway_inv gateway_step_inv)

lemma server_run: "run_machine server_step (p, g) es = (p, run_machine (gateway_step p) g es)"
  by (induction es arbitrary: g) (simp_all add: server_step_def)

lemma gateway_after_inv: "params_ok p \<Longrightarrow> gateway_inv (gateway_after p now b es)"
  using server.run_inv [of "(p, new_gateway now b)" es] by (auto simp: server_run)

end
