(* ===== verification/GatewayProps.thy ===== *)
theory GatewayProps
  imports GatewayMachine
begin

text \<open>
  What handlers leave alone. A \<open>store_relation\<close> is a reflexive and transitive relation between the store before a
  handler and after it; a handler made of steps that respect it respects it too. The relations are: cancelled
  streams stay cancelled, a session keeps its lifecycle, and a session is untouched by a handler that
  works for another one. The revocation of streams and the tick follow from them.
\<close>

section \<open>Relations between the stores before and after a handler\<close>

definition moves :: "(gateway \<Rightarrow> gateway \<Rightarrow> bool) \<Rightarrow> 'a gatewayM \<Rightarrow> bool" where
  "moves R m = (\<forall>g. R g (snd (m g)))"

locale store_relation =
  fixes R :: "gateway \<Rightarrow> gateway \<Rightarrow> bool"
  assumes refl: "R g g"
    and trans: "R g h \<Longrightarrow> R h j \<Longrightarrow> R g j"
begin

lemma moves_bind: "moves R m \<Longrightarrow> (\<And>a. moves R (f a)) \<Longrightarrow> moves R (bindM m f)"
proof -
  assume m: "moves R m" and f: "\<And>a. moves R (f a)"
  have "R g (snd (f a h))" if "m g = (Inr a, h)" for g a h
  proof (rule trans)
    show "R g h" using m that unfolding moves_def by (metis snd_conv)
    show "R h (snd (f a h))" using f unfolding moves_def by blast
  qed
  moreover have "R g h" if "m g = (Inl e, h)" for g e h using m that unfolding moves_def by (metis snd_conv)
  ultimately show ?thesis by (auto simp: moves_def bindM_def split: prod.split sum.split)
qed

lemma moves_prims:
  "moves R (ret a)" "moves R (throw_gateway e)" "moves R (read_gateway h)" "moves R (lift_gateway k x)"
  "(\<And>g. R g (u g)) \<Longrightarrow> moves R (update_gateway u)" "moves R m \<Longrightarrow> moves R n \<Longrightarrow> moves R (if c then m else n)"
  by (simp_all add: moves_def refl ret_def throw_gateway_def read_gateway_def lift_gateway_def update_gateway_def)

lemma moves_cases:
  "moves R m \<Longrightarrow> (\<And>x. moves R (f x)) \<Longrightarrow> moves R (case r of None \<Rightarrow> m | Some x \<Rightarrow> f x)"
  "moves R m' \<Longrightarrow> moves R n' \<Longrightarrow> moves R (case b of LocalReset \<Rightarrow> m' | Normal \<Rightarrow> n')"
  by (auto split: option.split retirement.split)

lemma moves_for_each: "(\<And>x. moves R (f x)) \<Longrightarrow> moves R (for_each f xs)"
  by (induction xs) (simp_all add: moves_prims moves_bind)

lemma moves_in_op: "(\<And>g v. R g (set_in w v g)) \<Longrightarrow> moves R (in_op w h)"
  by (auto simp: moves_def in_op_def split: prod.splits sum.splits)

lemma moves_out_op: "(\<And>g f. R g (set_out w f g)) \<Longrightarrow> moves R (out_openStream w i) \<and> moves R (out_update w i n)"
  by (auto simp: moves_def out_openStream_def out_update_def split: prod.splits sum.splits)

lemmas moves_rules = moves_bind moves_prims moves_cases moves_for_each moves_in_op

end

text \<open>A cancelled stream stays cancelled; the lifecycle of a session stays what it is.\<close>

definition still_cancelled :: "gateway \<Rightarrow> gateway \<Rightarrow> bool" where
  "still_cancelled g g' = (\<forall>st. gs_cancelled (gw_stream g st) \<longrightarrow> gs_cancelled (gw_stream g' st))"

definition same_state :: "nat \<Rightarrow> gateway \<Rightarrow> gateway \<Rightarrow> bool" where
  "same_state r g g' = (lifecycle (gw_object g' r) = lifecycle (gw_object g r))"

interpretation cancelling: store_relation still_cancelled
  by unfold_locales (auto simp: still_cancelled_def)

interpretation state: store_relation "same_state r" for r
  by unfold_locales (auto simp: same_state_def)

lemma same_still_cancelled: "same_gateway g g' \<Longrightarrow> still_cancelled g g'"
  by (auto simp: same_gateway_def same_stream_def still_cancelled_def)

lemma same_same_state: "same_gateway g g' \<Longrightarrow> same_state r g g'"
  by (simp add: same_gateway_def same_session_def same_state_def)

lemma still_cancelled_steps:
  "still_cancelled g (on_session r h g)" "still_cancelled g (set_in w v g)" "still_cancelled g (set_out w f g)"
  "still_cancelled g (delete_session r g)" "(\<And>s. gs_cancelled s \<Longrightarrow> gs_cancelled (k s)) \<Longrightarrow> still_cancelled g (on_stream st k g)"
  "still_cancelled g (out_closeStream w i g)" "still_cancelled g (out_close w g)" "still_cancelled g (disposeActivationCandidate r g)"
  by (simp_all add: still_cancelled_def on_session_def set_in_def set_out_def delete_session_def on_stream_def out_closeStream_def
      out_close_def disposeActivationCandidate_def Let_def)

lemma still_cancelled_then: "still_cancelled g g' \<Longrightarrow> same_gateway g' g'' \<Longrightarrow> still_cancelled g g''"
  using cancelling.trans same_still_cancelled by blast

section \<open>Removing a stream leaves it cancelled\<close>

lemma dispose_cancelled: "moves still_cancelled (disposeGatewaySession p r c)"
proof -
  have close: "same_gateway h (close_exchange c s (clearGatewayStreamTimers st h))" for s st h
    by (simp add: close_exchange_def Let_def same)
  have review: "still_cancelled h (delete_session r (disposeReviewBinding p r (out_close w h)))" for w h
    by (rule cancelling.trans [OF still_cancelled_then [OF still_cancelled_steps(7) [of h w]] still_cancelled_steps(4)]) (simp add: same)
  show ?thesis
    unfolding disposeGatewaySession_def closeGatewayStreams_def closeGatewayStream_step_def in_closeStream_def split_beta
    by (intro cancelling.moves_rules review still_cancelled_steps still_cancelled_then [OF still_cancelled_steps(6) close]
        cancelling.trans [OF still_cancelled_steps(1) still_cancelled_steps(8)]) simp_all
qed

lemma expire_cancelled: "moves still_cancelled (expireGatewaySession p r reason)"
  unfolding expireGatewaySession_def Let_def
  by (intro cancelling.moves_rules dispose_cancelled same_still_cancelled) (simp add: same)

lemma remove_cancelled: "moves still_cancelled (removeGatewayStream p r i st retired)"
proof -
  have e: "moves still_cancelled (case l of EXPIRED reason _ \<Rightarrow> expireGatewaySession p r (reason_text reason) | _ \<Rightarrow> ret ())" for l
    by (cases l) (simp_all add: cancelling.moves_prims expire_cancelled)
  have t: "moves still_cancelled (transition p r STREAM_CLOSED)" by (simp add: moves_def transition_def still_cancelled_def)
  have l: "moves still_cancelled (case l of ACTIVE a \<Rightarrow> m | _ \<Rightarrow> ret True)" if "moves still_cancelled m" for l m
    using that by (cases l) (simp_all add: cancelling.moves_prims)
  show ?thesis
    unfolding removeGatewayStream_def in_closeStream_def in_retireStream_def
    by (intro cancelling.moves_rules l e t still_cancelled_steps same_still_cancelled) (simp_all add: same)
qed

text \<open>In a store that satisfies the invariant a cancelled stream is in no session.\<close>

lemma cancelled_gone:
  assumes "gateway_inv g" "gs_cancelled (gw_stream g st)"
  shows "map_get (g_streams (gw_object g r)) i \<noteq> Some st"
proof
  assume m: "map_get (g_streams (gw_object g r)) i = Some st"
  then have "is_registered g r" using assms(1) by (auto simp: gateway_inv_def base_ok_def)
  with assms m show False by (auto simp: gateway_inv_def base_ok_def entries_ok_def stream_ok_def)
qed

lemma after_moves: "after m Q E g \<Longrightarrow> moves R m \<Longrightarrow> after m (\<lambda>a g'. Q a g' \<and> R g g') (\<lambda>g'. E g' \<and> R g g') g"
  by (auto simp: after_def moves_def split: prod.splits sum.splits) (metis snd_conv)+

lemma revoked:
  assumes inv: "gateway_inv g" and cur: "isCurrentGatewayStream g r i st"
  shows "after (revoke_stream p r i st c) (\<lambda>_ g'. gateway_inv g' \<and> gs_cancelled (gw_stream g' st)) (\<lambda>_. False) g"
proof -
  let ?m = "bindM (read_gateway (\<lambda>g. gs_transport (gw_stream g st))) (\<lambda>t. bindM (removeGatewayStream p r i st LocalReset) (\<lambda>_.
    update_gateway (\<lambda>g. sendReset t i (units c) (destroy_exchange st (out_closeStream (te_outboundFlow t) i g)))))"
  have closed: "still_cancelled h (sendReset t i u (destroy_exchange st (out_closeStream w i h)))" for h t u w
    by (rule still_cancelled_then [OF still_cancelled_steps(6) [of h w i]]) (simp add: same)
  have "moves still_cancelled ?m" by (intro cancelling.moves_rules remove_cancelled closed)
  moreover have "revoke_stream p r i st c h = ?m (on_stream st (\<lambda>s. s\<lparr>gs_cancelled := True\<rparr>) h)" for h
    by (simp add: revoke_stream_def bindM_def [of "update_gateway k" f for k f] update_gateway_def)
  ultimately have "moves (\<lambda>_ g'. gs_cancelled (gw_stream g' st)) (revoke_stream p r i st c)"
    by (simp add: moves_def still_cancelled_def on_stream_def)
  from after_moves [OF revoking [OF inv cur] this] show ?thesis by (rule after_mono) simp_all
qed

section \<open>A tick leaves the other sessions alone\<close>

text \<open>A handler that works for another session: this one stays as it is, and does not come back once it is gone.\<close>

definition closing :: "nat \<Rightarrow> gateway \<Rightarrow> gateway \<Rightarrow> bool" where
  "closing r g g' = (gw_object g' r = gw_object g r \<and> gw_clock g' = gw_clock g \<and>
     (\<forall>t. map_get (gw_sessions g') t = Some r \<longrightarrow> map_get (gw_sessions g) t = Some r))"

interpretation other: store_relation "closing r" for r
  by unfold_locales (auto simp: closing_def)

lemma closing_on_session: "r' \<noteq> r \<Longrightarrow> closing r g (on_session r' h g)"
  by (simp add: closing_def on_session_def)

lemma closing_deleted: "r' \<noteq> r \<Longrightarrow> closing r g (delete_session r' g)"
  by (auto simp: closing_def delete_session_def jsmap_simps split: if_splits)

lemma closing_prims:
  "closing r g g' \<Longrightarrow> closing r g (on_stream st h g')" "closing r g g' \<Longrightarrow> closing r g (set_in w v g')"
  "closing r g g' \<Longrightarrow> closing r g (set_out w f g')" "closing r g g' \<Longrightarrow> closing r g (on_exchange x e g')"
  "closing r g g' \<Longrightarrow> closing r g (log_effect ef g')" "closing r g g' \<Longrightarrow> closing r g (close_socket k n m g')"
  by (simp_all add: closing_def on_stream_def set_in_def set_out_def on_exchange_def log_effect_def close_socket_def)

lemma closing_send: "closing r g g' \<Longrightarrow> closing r g (start_send k input g')"
  by (simp add: start_send_def closing_prims split: sum.split)

lemma closing_steps:
  "closing r g g' \<Longrightarrow> closing r g (out_closeStream w i g')" "closing r g g' \<Longrightarrow> closing r g (out_close w g')"
  "closing r g g' \<Longrightarrow> closing r g (clearGatewayStreamTimers st g')" "closing r g g' \<Longrightarrow> closing r g (disposeReviewBinding p r' g')"
  "closing r g g' \<Longrightarrow> closing r g (close_exchange c s g')" "closing r g g' \<Longrightarrow> closing r g (sendReset t i c g')"
  "closing r g g' \<Longrightarrow> closing r g (destroy_exchange st g')"
  by (simp_all add: out_closeStream_def out_close_def clearGatewayStreamTimers_def clearRequestInactivityTimer_def disposeReviewBinding_def
      close_exchange_def writeGatewayError_def destroy_response_def destroy_request_def sendReset_def destroy_exchange_def Let_def
      closing_prims closing_send)

lemma closing_candidate: "r' \<noteq> r \<Longrightarrow> closing r g (disposeActivationCandidate r' (on_session r' h g))"
  by (simp add: disposeActivationCandidate_def Let_def closing_steps other.trans [OF closing_on_session closing_on_session])

lemma closing_delete: "r' \<noteq> r \<Longrightarrow> closing r g g' \<Longrightarrow> closing r g (delete_session r' g')"
  using closing_deleted other.trans by blast

lemma dispose_closing:
  assumes "r' \<noteq> r"
  shows "moves (closing r) (disposeGatewaySession p r' c)"
  unfolding disposeGatewaySession_def closeGatewayStreams_def closeGatewayStream_step_def in_closeStream_def split_beta
  by (intro other.moves_rules closing_delete closing_candidate closing_steps closing_prims closing_on_session other.refl assms)

lemma expire_closing: "r' \<noteq> r \<Longrightarrow> moves (closing r) (expireGatewaySession p r' reason)"
  unfolding expireGatewaySession_def Let_def
  by (intro other.moves_rules dispose_closing) (simp_all add: closing_prims other.refl)

lemma remove_closing:
  assumes "r' \<noteq> r"
  shows "moves (closing r) (removeGatewayStream p r' i st retired)"
proof -
  have e: "moves (closing r) (case l of EXPIRED reason _ \<Rightarrow> expireGatewaySession p r' (reason_text reason) | _ \<Rightarrow> ret ())" for l
    using assms by (cases l) (simp_all add: other.moves_prims expire_closing)
  have t: "moves (closing r) (transition p r' STREAM_CLOSED)" by (simp add: moves_def transition_def other.refl)
  have l: "moves (closing r) (case l of ACTIVE a \<Rightarrow> m | _ \<Rightarrow> ret True)" if "moves (closing r) m" for l m
    using that by (cases l) (simp_all add: other.moves_prims)
  show ?thesis
    unfolding removeGatewayStream_def in_closeStream_def in_retireStream_def
    by (intro other.moves_rules l e t closing_steps closing_prims closing_on_session other.refl assms)
qed

lemma tick_closing:
  assumes "r' \<noteq> r"
  shows "moves (closing r) (tick_session p r')"
proof -
  have t: "moves (closing r) (transition p r' TICK)" by (simp add: moves_def transition_def other.refl)
  have s: "moves (closing r) (tick_stream p r' checked entry)" for checked entry
    unfolding tick_stream_def revoke_stream_def split_beta
    by (intro other.moves_rules remove_closing closing_steps closing_prims other.refl assms)
  show ?thesis
    unfolding tick_session_def split_beta Let_def
    by (intro other.moves_rules t s expire_closing closing_on_session assms)
qed

end
