(* ===== verification/GatewaySafety.thy ===== *)
theory GatewaySafety
  imports GatewayProps
begin

text \<open>
  The properties of the gateway over every run of its handlers: the store stays well formed and its streams
  are accounted for; the kill switch, the tick and the revalidation end what they have to end; a session
  resumes, becomes active and takes requests only as the code allows; and a frame of a stale generation
  does nothing. A sample gateway with one session shows each hypothesis at a concrete store.
\<close>

section \<open>Ticks\<close>

definition overdue :: "gatewayParams \<Rightarrow> nat \<Rightarrow> gateway \<Rightarrow> bool" where
  "overdue p r g = (is_live (lifecycle (gw_object g r)) \<and> gw_clock g \<ge> g_developerAuthorizedAt (gw_object g r) + p_authorizationMaxAgeMs p)"

lemma overdue_expires:
  assumes inv: "gateway_inv g" and reg: "is_registered g r" and over: "overdue p r g"
  shows "after (tick_session p r) (\<lambda>_ g'. gateway_inv g' \<and> \<not> is_registered g' r) (\<lambda>_. False) g"
proof -
  have live: "is_live (lifecycle (gw_object g r))" using over by (simp add: overdue_def)
  obtain l where l: "transitionSession (lifecycle (gw_object g r)) (TICK (gw_clock g)) (p_policy p) = Inr l"
    using tick_transition [OF live_registered [OF inv reg live] live] by metis
  have "after (expireGatewaySession p r c) (\<lambda>_ g'. gateway_inv g' \<and> \<not> is_registered g' r) (\<lambda>_. False)
      (on_session r (\<lambda>s. s\<lparr>lifecycle := l\<rparr>) g)" for c
    by (rule after_mono [OF expiring [OF lifecycle_middle(1,2) [OF inv reg]]]) (auto simp: disposed_def)
  with l live over show ?thesis by (simp add: tick_session_def wp Let_def overdue_def)
qed

definition guarded_tick :: "gatewayParams \<Rightarrow> nat \<Rightarrow> unit gatewayM" where
  "guarded_tick p r = bindM (read_gateway (\<lambda>g. is_registered g r)) (\<lambda>present. if present then tick_session p r else ret ())"

lemma guarded_other:
  assumes "gateway_inv g" "r' \<noteq> r"
  shows "after (guarded_tick p r') (\<lambda>_ g'. gateway_inv g' \<and> closing r g g') (\<lambda>_. False) g"
proof (cases "is_registered g r'")
  case True
  from after_moves [OF tick_session_kept [OF assms(1) True] tick_closing [OF assms(2)], of p] have
    "after (tick_session p r') (\<lambda>_ g'. gateway_inv g' \<and> closing r g g') (\<lambda>_. False) g" by (rule after_mono) simp_all
  with True show ?thesis by (simp add: guarded_tick_def wp)
next
  case False
  with assms show ?thesis by (simp add: guarded_tick_def wp other.refl)
qed

lemma closing_overdue:
  assumes "closing r g g'" "is_registered g r \<longrightarrow> overdue p r g"
  shows "is_registered g' r \<longrightarrow> overdue p r g'"
  using assms by (auto simp: closing_def overdue_def is_registered_def)

lemma ticked_once:
  assumes "gateway_inv g" "is_registered g r \<longrightarrow> overdue p r g"
  shows "after (guarded_tick p r) (\<lambda>_ g'. gateway_inv g' \<and> \<not> is_registered g' r) (\<lambda>_. False) g"
  using assms overdue_expires [OF assms(1)] by (cases "is_registered g r") (simp_all add: guarded_tick_def wp)

lemma stays_away:
  assumes "gateway_inv g" "\<not> is_registered g r"
  shows "after (for_each (guarded_tick p) rs) (\<lambda>_ g'. gateway_inv g' \<and> \<not> is_registered g' r) (\<lambda>_. False) g"
proof (rule after_for_each)
  fix r' h
  assume h: "gateway_inv h \<and> \<not> is_registered h r"
  show "after (guarded_tick p r') (\<lambda>_ g'. gateway_inv g' \<and> \<not> is_registered g' r) (\<lambda>_. False) h"
  proof (cases "r' = r")
    case True
    with h ticked_once [of h r p] show ?thesis by simp
  next
    case False
    with h show ?thesis by (intro after_mono [OF guarded_other]) (auto simp: closing_def is_registered_def)
  qed
qed (use assms in simp)

lemma ticked_away:
  "gateway_inv g \<Longrightarrow> r \<in> set rs \<Longrightarrow> (is_registered g r \<longrightarrow> overdue p r g) \<Longrightarrow>
   after (for_each (guarded_tick p) rs) (\<lambda>_ g'. gateway_inv g' \<and> \<not> is_registered g' r) (\<lambda>_. False) g"
proof (induction rs arbitrary: g)
  case (Cons r' rs)
  show ?case
  proof (cases "r' = r")
    case True
    from ticked_once [OF Cons.prems(1,3)] show ?thesis
      unfolding for_each.simps after_bind True by (rule after_mono) (auto intro: stays_away)
  next
    case False
    from guarded_other [OF Cons.prems(1) False] show ?thesis
      unfolding for_each.simps after_bind
      by (rule after_mono) (use False Cons.prems in \<open>auto intro!: Cons.IH dest: closing_overdue\<close>)
  qed
qed simp

lemma session_tick_away:
  assumes "gateway_inv g" "is_registered g r" "overdue p r g"
  shows "after (session_tick p) (\<lambda>_ g'. gateway_inv g' \<and> \<not> is_registered g' r) (\<lambda>_. False) g"
proof -
  have "r \<in> set (map_values (gw_sessions g))" using assms(2) by (force simp: is_registered_def dest: map_of_SomeD)
  from ticked_away [OF assms(1) this] assms(3) show ?thesis
    by (simp add: session_tick_def each_session_def after_bind after_prims guarded_tick_def [abs_def])
qed

section \<open>The kill switch\<close>

lemma no_sessions:
  assumes "base_ok g" "\<And>r. \<not> is_registered g r"
  shows "gw_sessions g = []"
proof (rule ccontr)
  assume "gw_sessions g \<noteq> []"
  then obtain t r m where m: "gw_sessions g = (t, r) # m" by (cases "gw_sessions g") auto
  then have "map_get (gw_sessions g) t = Some r" by simp
  moreover from this have "g_tunnelId (gw_object g r) = t" using assms(1) by (simp add: base_ok_def)
  ultimately show False using assms(2) [of r] by (simp add: is_registered_def)
qed

lemma blind_switch:
  assumes "blind m"
  shows "gw_killSwitch (snd (m g)) = gw_killSwitch g"
proof -
  have "m g = apsnd (switched (gw_killSwitch g)) (m g)"
    using assms unfolding blind_def by (metis gateway.surjective gateway.update_convs(12))
  then have "snd (m g) = switched (gw_killSwitch g) (snd (m g))" by (metis snd_apsnd)
  then show ?thesis by (metis gateway.select_convs(12) gateway.surjective gateway.update_convs(12))
qed

lemma switch_enabled: "gw_killSwitch (snd (updateKillSwitch p enabled g)) = enabled"
proof -
  have "gw_killSwitch (snd (each_session (\<lambda>r. terminateGatewaySession p r c n) h)) = gw_killSwitch h" for c n h
    by (rule blind_switch [OF blind_each_session [OF blind_terminate]])
  then show ?thesis
    by (simp add: updateKillSwitch_def bindM_def read_gateway_def update_gateway_def ret_def log_effect_def)
qed

section \<open>Requests\<close>

lemma request_opened:
  assumes inv: "gateway_inv g" and run: "handleReviewerRequest p tunnelId x reviewer g = (Inr (Some st), g')"
  shows "\<exists>r. available_session g tunnelId = Some r \<and> map_size (g_streams (gw_object g r)) < stream_limit (gw_object g r) \<and>
    opened r (Some st) g'"
proof -
  have live: "\<not> request_gone (gw_exchange g x)"
    using run by (auto simp: handleReviewerRequest_def bindM_def read_gateway_def ret_def)
  obtain r where r: "available_session g tunnelId = Some r"
    using run live by (cases "available_session g tunnelId")
      (auto simp: handleReviewerRequest_def bindM_def read_gateway_def answer_request_def update_gateway_def ret_def)
  obtain admitted g1 where g1: "admitStream r g = (Inr admitted, g1)"
    by (cases "admitStream r g") (auto simp: admitStream_def Let_def split: if_splits)
  have a: "same_gateway g g1" "admitted \<longrightarrow> map_size (g_streams (gw_object g r)) < stream_limit (gw_object g r)"
    using admitting [of r g "\<lambda>_. False"] g1 by (simp_all add: after_def)
  have adm: admitted
    using run live r g1 by (cases admitted)
      (auto simp: handleReviewerRequest_def bindM_def read_gateway_def answer_request_def update_gateway_def ret_def)
  obtain payload where op: "open_stream p KindHttp r x [] reviewer payload g1 = (Inr (Some st), g')"
    using run live r g1 adm
    by (auto simp: handleReviewerRequest_def bindM_def read_gateway_def answer_request_def update_gateway_def ret_def
        split: if_splits sum.splits prod.splits option.splits)
  have "gateway_inv g1" "is_registered g1 r" "is_active (lifecycle (gw_object g1 r))"
    "map_size (g_streams (gw_object g1 r)) < stream_limit (gw_object g1 r)"
    using same_inv [OF a(1) inv] available [OF inv r] same_registered [OF a(1)] same_active [OF a(1), of r] a(2) adm by simp_all
  from opening_stream [OF this, of p KindHttp x "[]" reviewer payload] op have "opened r (Some st) g'" by (simp add: after_def)
  with r a(2) adm show ?thesis by blast
qed

section \<open>Resuming\<close>

text \<open>Where a resume ends, also when the new configuration cannot be made: on the new socket, with the new generation.\<close>

lemma resume_placed:
  assumes "params_ok p" "candidate_generation (lifecycle (gw_object g r)) = Some n"
  shows "after (resume_session p k hello a r) (\<lambda>_ g'. g_socket (gw_object g' r) = k \<and> g_generation (gw_object g' r) = n)
    (\<lambda>g'. g_socket (gw_object g' r) = k \<and> g_generation (gw_object g' r) = n) g"
  unfolding resume_session_def wp
  by (rule after_new_outbound, rule after_new_inbound [OF assms(1)])
    (simp add: assms(2) after_lift wp split: sum.split)

lemma resume_started:
  assumes p: "params_ok p" and inv: "gateway_inv g" and reg: "is_registered g r" and lc: "lifecycle (gw_object g r) = RECONNECTING c"
    and moved: "g_socket (gw_object (snd (start_resume p rnd k hello r g)) r) \<noteq> g_socket (gw_object g r)"
  shows "candidateGeneration c = None \<and> g_socket (gw_object (snd (start_resume p rnd k hello r g)) r) = k \<and>
    g_generation (gw_object (snd (start_resume p rnd k hello r g)) r) = nextCandidateGeneration c \<and> r_generation c < nextCandidateGeneration c"
proof -
  let ?t = "transitionSession (RECONNECTING c) (START_RESUME (gw_clock g) (rnd_attemptId rnd)) (p_policy p)"
  let ?Q = "\<lambda>g'. g_socket (gw_object g' r) = g_socket (gw_object g r) \<or> candidateGeneration c = None \<and>
    g_socket (gw_object g' r) = k \<and> g_generation (gw_object g' r) = nextCandidateGeneration c \<and> r_generation c < nextCandidateGeneration c"
  have c: "session_inv (RECONNECTING c)" using inv reg lc by (auto simp: gateway_inv_def session_ok_def)
  have rejected: "?Q (rejectCarrier k n e m h)" if "?Q h" for n e m h
  proof -
    have "same_gateway h (rejectCarrier k n e m h)" by (simp add: same)
    then show ?thesis using that by (simp add: same_gateway_def same_session_def)
  qed
  have "after (start_resume p rnd k hello r) (\<lambda>_. ?Q) ?Q g"
    using resumed_transition [OF c, of "gw_clock g" "rnd_attemptId rnd" "p_policy p"]
  proof (elim disjE exE conjE)
    fix e assume "?t = Inl e"
    then show ?thesis using rejected by (simp add: start_resume_def wp lc)
  next
    fix reason t assume t: "?t = Inr (EXPIRED reason t)"
    have "after (expireGatewaySession p r (reason_text reason)) (\<lambda>_ g'. ?Q (rejectCarrier k 0 ''RESUME_REJECTED'' None g')) ?Q
        (on_session r (\<lambda>s. s\<lparr>lifecycle := EXPIRED reason t\<rparr>) g)"
    proof (rule after_mono [OF expiring [OF lifecycle_middle(1,2) [OF inv reg]]])
      fix g' assume "disposed r (on_session r (\<lambda>s. s\<lparr>lifecycle := EXPIRED reason t\<rparr>) g) g'"
      then have "g_socket (gw_object g' r) = g_socket (gw_object g r)" by (simp add: disposed_def confined_def capture_eq on_session_def)
      then show "?Q (rejectCarrier k 0 ''RESUME_REJECTED'' None g')" by (intro rejected) simp
    qed simp
    with t show ?thesis by (simp add: start_resume_def wp lc applySessionTransition_def)
  next
    fix c'
    assume c': "?t = Inr (RECONNECTING c')" "session_inv (RECONNECTING c')" "candidateAttemptId c' = Some (rnd_attemptId rnd)"
      "candidateGeneration c' = Some (nextCandidateGeneration c)"
    have free: "candidateGeneration c = None" "r_generation c < nextCandidateGeneration c"
      using c c'(1) transitionSession_cases [OF c, of "START_RESUME (gw_clock g) (rnd_attemptId rnd)" "p_policy p"]
      by (auto simp: nextCandidateGeneration_def split: if_splits option.splits)
    have sent: "same_gateway h (sendSessionConfig r t h)" for h t by (simp add: same)
    have keep: "?Q (sendSessionConfig r t h)" if "g_socket (gw_object h r) = k \<and> g_generation (gw_object h r) = nextCandidateGeneration c" for t h
      using sent [of h t] that free by (simp add: same_gateway_def same_session_def)
    have "after (resume_session p k hello (rnd_attemptId rnd) r) (\<lambda>_ g'. ?Q (sendSessionConfig r (captureGatewayTransport (gw_object g' r)) g')) ?Q
        (on_session r (\<lambda>s. s\<lparr>lifecycle := RECONNECTING c'\<rparr>) g)"
      by (rule after_mono [OF resume_placed [OF p]]) (use c'(4) free keep in \<open>auto simp: on_session_def\<close>)
    with c' show ?thesis by (simp add: start_resume_def wp lc applySessionTransition_def)
  qed
  from after_snd [OF this] moved show ?thesis by blast
qed

lemma owners_equal: "resumeOwnerAuthorizationMatches a b \<longleftrightarrow> a = b"
  by (cases a; cases b) (auto simp: resumeOwnerAuthorizationMatches_def prod_eq_iff)

section \<open>Activating\<close>

lemma state_steps:
  "(\<And>s. lifecycle (h s) = lifecycle s) \<Longrightarrow> same_state r g (on_session r' h g)" "same_state r g (set_in w v g)" "same_state r g (set_out w f g)"
  by (simp_all add: same_state_def on_session_def set_in_def set_out_def)

lemma issue_state: "moves (same_state r) (issue_stream_id r')"
  by (auto simp: moves_def issue_stream_id_def intro!: state_steps split: prod.split sum.split)

lemma probe_state: "moves (same_state r) (open_probe rnd r')"
proof -
  have opened: "moves (same_state r) (out_openStream w i)" for w i using state.moves_out_op state_steps(3) by blast
  have made: "same_state r g ((on_session r' (\<lambda>s. s\<lparr>g_probe := q\<rparr>) g)\<lparr>gw_fresh := n\<rparr>)" for g q n
    by (simp add: same_state_def on_session_def)
  show ?thesis
    unfolding open_probe_def in_openStream_def split_beta
    by (intro state.moves_rules issue_state opened made state_steps same_same_state) (simp_all add: same)
qed

lemma config_state: "moves (same_state r) (config_applied rnd k r' payload)"
  unfolding config_applied_def rejecting_def lift_metadata_def split_beta
  by (intro state.moves_rules probe_state state_steps same_same_state) (simp_all add: same)

lemma probe_data_state: "moves (same_state r) (probe_data r' pr payload)"
proof -
  have w: "same_state r g (sendWindowUpdate t i n (on_session r' (\<lambda>s. s\<lparr>g_probe := q\<rparr>) g))" for g t i n q
    by (rule state.trans [OF state_steps(1) [of "\<lambda>s. s\<lparr>g_probe := q\<rparr>" r g r']])
      (simp_all add: sendWindowUpdate_def same_same_state same split: sum.split)
  show ?thesis
    unfolding probe_data_def Let_def by (intro state.moves_rules w state_steps) simp_all
qed

definition probe_complete :: "gatewayParams \<Rightarrow> bool \<Rightarrow> nat \<Rightarrow> envelope \<Rightarrow> gateway \<Rightarrow> bool" where
  "probe_complete p admissionReady r e g = (case g_probe (gw_object g r) of
     None \<Rightarrow> False
   | Some pr \<Rightarrow> envType e = EndStream \<and> to_int (envStreamId e) = pr_streamId pr \<and> \<not> pr_clientEnded pr \<and> pr_received pr = pr_expected pr \<and>
       \<not> gw_killSwitch g \<and> admissionReady \<and>
       canActivateTunnel (p_admissionLimits p)
         (registered_views (on_session r (\<lambda>s. s\<lparr>g_probe := Some (pr\<lparr>pr_clientEnded := True\<rparr>)\<rparr>) g))
         (r, (gw_object g r)\<lparr>g_probe := Some (pr\<lparr>pr_clientEnded := True\<rparr>)\<rparr>))"

lemma probe_end_state:
  assumes "g_probe (gw_object g r) = Some pr" "\<not> probe_complete p ready r e g" "envType e = EndStream" "to_int (envStreamId e) = pr_streamId pr"
  shows "same_state r g (snd (probe_end p ready k r pr g))"
proof -
  let ?g = "on_session r (\<lambda>s. s\<lparr>g_probe := Some (pr\<lparr>pr_clientEnded := True\<rparr>)\<rparr>) g"
  have s: "same_state r g ?g" by (rule state_steps) simp
  have "same_state r ?g (rejectCarrier k n c None ?g)" for n c by (rule same_same_state) (simp add: same)
  from state.trans [OF s this] s state.refl assms show ?thesis
    by (auto simp: probe_end_def bindM_def read_gateway_def update_gateway_def throw_gateway_def rejecting_def probe_complete_def
        on_session_def)
qed

lemma activation_state:
  assumes "\<not> probe_complete p ready r e g"
  shows "same_state r g (snd (activation_frame p ready k r e g))"
proof (cases "g_probe (gw_object g r)")
  case None
  then show ?thesis by (simp add: activation_frame_def bindM_def read_gateway_def throw_gateway_def state.refl)
next
  case (Some pr)
  have u: "moves (same_state r) (out_update w i n)" for w i n using state.moves_out_op state_steps(3) by blast
  have m: "moves (same_state r) (bindM (lift_metadata x) (\<lambda>n. out_update w i n))" for x w i
    unfolding lift_metadata_def by (intro state.moves_rules u)
  show ?thesis
    using Some m [unfolded moves_def, rule_format] probe_data_state [unfolded moves_def, rule_format] probe_end_state [OF Some assms] state.refl
    by (auto simp: activation_frame_def bindM_def [of "read_gateway h" for h] read_gateway_def throw_gateway_def split: frameType.split)
qed

lemma frame_state:
  assumes "\<not> is_active (lifecycle (gw_object g r))"
    and no: "\<not> (envGeneration e = Integral (g_generation (gw_object g r)) \<and> is_registered g r \<and> probe_complete p ready r e g)"
  shows "same_state r g (snd (session_frame p ready rnd k r e g))"
proof -
  have pong: "same_state r g (on_session r (\<lambda>s. s\<lparr>g_lastPongAt := t\<rparr>) g)" for t by (rule state_steps) simp
  have ping: "same_state r g (start_send k input g)" for input by (rule same_same_state) (simp add: same)
  show ?thesis
    using assms activation_state [of p ready r e g k] config_state [unfolded moves_def, rule_format] pong ping state.refl
    by (auto simp: session_frame_def bindM_def [of "read_gateway h" for h] read_gateway_def throw_gateway_def update_gateway_def ret_def)
qed

section \<open>A gateway with one session\<close>

text \<open>An instance for the properties below: one active session without streams, and a browser that asks for its root.\<close>

definition sample_params :: gatewayParams where
  "sample_params = \<lparr>p_policy = DEFAULT_SESSION_POLICY, p_limits = DEFAULT_SESSION_LIMITS, p_admissionLimits = sample_limits,
     p_requireAuthorization = False, p_activationTimeoutMs = 1000, p_maxPendingCarrierFrames = 64, p_maxPendingCarrierBytes = 1048576,
     p_authorizationMaxAgeMs = 30000, p_carrierLeaseMs = 60000, p_onDisposed = True, p_URL = (\<lambda>_. None), p_sha256 = (\<lambda>_. []),
     p_hmac = (\<lambda>s. map word_of_nat s), p_shareUrl = id\<rparr>"

definition sample_origin_projection :: originProjection where
  "sample_origin_projection = LocalView"

definition sample_tunnel :: "sessionState \<Rightarrow> probe option \<Rightarrow> gatewaySession" where
  "sample_tunnel l q = no_session\<lparr>terminated := False, lifecycle := l, ownerAccountId := Some ''ada'', g_ownerAuthVersion := Some 1,
     g_tunnelId := units ''t1'', g_socket := 3, g_outboundFlow := 1, g_inboundFlow := 2, g_generation := 1, g_streamIds := (if q = None then 0 else 1),
     g_config := no_config\<lparr>sc_snapshot := (sc_snapshot no_config)\<lparr>sn_maxConcurrentStreams := JNumber (Integral 2),
       sn_maxNewStreamsPerMinute := JNumber (Integral 60), sn_maxRequestBodyBytes := JNumber (Integral 1000),
       sn_localOriginFingerprint := JString [], sn_originProjection := JString (units (projection_text sample_origin_projection))\<rparr>\<rparr>,
     g_resumeDigest := map word_of_nat (units ''s3cret''), g_probe := q\<rparr>"

definition sample_active :: sessionState where
  "sample_active = ACTIVE \<lparr>activatedAt = 0, generation = 1, activeStreamCount = 0, lastStreamClosedAt = 0\<rparr>"

definition sample_gateway :: "sessionState \<Rightarrow> probe option \<Rightarrow> gateway" where
  "sample_gateway l q = (new_gateway 0 False)\<lparr>
     gw_sessions := [(units ''t1'', 0)], gw_object := (\<lambda>_. no_session)(0 := sample_tunnel l q),
     gw_out := (\<lambda>_. no_outbound)(1 := \<lparr>initialConnectionBytes = 1, connectionAvailable = 1, streams = [], waiters = [], closed = False\<rparr>),
     gw_socket := (\<lambda>_. no_socket)(3 := \<lparr>readyState = 1, bufferedAmount = 0, sendError = None\<rparr>, 4 := \<lparr>readyState = 1, bufferedAmount = 0, sendError = None\<rparr>),
     gw_exchange := (\<lambda>_. no_exchange)(0 := no_exchange\<lparr>ex_requestDestroyed := False, ex_socketDestroyed := False, ex_destroyed := False,
       ex_writableEnded := False\<rparr>),
     gw_connection := (\<lambda>_. no_connection)(3 := no_connection\<lparr>cn_session := Some 0, cn_receiveFailed := False, cn_cleanedUp := False\<rparr>,
       4 := no_connection\<lparr>cn_receiveFailed := False, cn_cleanedUp := False\<rparr>),
     gw_fresh := 5, gw_clock := 10\<rparr>"

lemma sample_registered: "is_registered (sample_gateway l q) r \<longleftrightarrow> r = 0"
  by (simp add: is_registered_def sample_gateway_def sample_tunnel_def no_session_def)

lemma sample_base: "base_ok (sample_gateway l None)"
proof -
  have empty: "gateway_inv (new_gateway 0 False)" by (rule new_gateway_inv)
  then have "\<And>w. flow_inv (gw_out (new_gateway 0 False) w)" "\<And>w. in_ok (gw_in (new_gateway 0 False) w)"
    by (simp_all add: gateway_inv_def base_ok_def)
  then have "flow_inv no_outbound" "in_ok no_inbound" by (simp_all add: new_gateway_def)
  moreover have "flow_inv \<lparr>initialConnectionBytes = 1, connectionAvailable = 1, streams = [], waiters = [], closed = False\<rparr>"
    by (simp add: flow_inv_def credits_ok_def)
  ultimately show ?thesis
    unfolding base_ok_def sample_registered
    by (simp add: entries_ok_def session_ids_def ids_ok_def)
      (simp add: sample_gateway_def sample_tunnel_def no_session_def new_gateway_def)
qed

lemma sample_inv: "gateway_inv (sample_gateway sample_active None)"
proof -
  have "session_ok (sample_gateway sample_active None) 0"
    by (simp add: session_ok_def flows_ok_def carrier_ok_def session_ids_def sample_active_def)
      (simp add: sample_gateway_def sample_tunnel_def no_session_def new_gateway_def no_inbound_def
        new_gatewayInbound_def new_retiredBudget_def MAX_SAFE_INTEGER_def guard_simps)
  with sample_base show ?thesis by (simp add: gateway_inv_def sample_registered)
qed

definition sample_lost :: sessionState where
  "sample_lost = RECONNECTING \<lparr>r_activatedAt = 0, r_generation = 1, disconnectedAt = 5, r_lastStreamClosedAt = 0, candidateAttemptId = None,
     candidateGeneration = None, lastIssuedGeneration = None\<rparr>"

lemma sample_lost_inv: "gateway_inv (sample_gateway sample_lost None)"
proof -
  have "session_ok (sample_gateway sample_lost None) 0"
    by (simp add: session_ok_def sample_lost_def) (simp add: sample_gateway_def sample_tunnel_def no_session_def new_gateway_def)
  with sample_base show ?thesis by (simp add: gateway_inv_def sample_registered)
qed

lemma sample_params_ok: "params_ok sample_params"
  by (simp add: params_ok_def sample_params_def MAX_SAFE_INTEGER_def)

lemma after_total: "after m Q (\<lambda>_. False) g \<Longrightarrow> \<exists>a g'. m g = (Inr a, g') \<and> Q a g'"
  by (cases "m g"; cases "fst (m g)") (auto simp: after_def)

definition sample_hello :: helloMetadata where
  "sample_hello = \<lparr>hm_mode = ModeResume, hm_tunnelId = units ''t1'', hm_resumeSecret = Some (units ''s3cret''),
     hm_localOriginFingerprint = [], hm_originProjection = sample_origin_projection\<rparr>"

definition sample_random :: carrierRandom where
  "sample_random = \<lparr>rnd_sessionId = [], rnd_provisionId = [], rnd_resumeSecret = [], rnd_attemptId = ''a1'', rnd_nonce = []\<rparr>"

definition sample_developer :: developerAuthorization where
  "sample_developer = \<lparr>dev_accountId = ''ada'', dev_accountAuthVersion = 1, dev_username = ''ada'', dev_purpose = CarrierResume, dev_tunnelId = ''t1''\<rparr>"

lemmas run_simps = bindM_def read_gateway_def update_gateway_def ret_def throw_gateway_def lift_gateway_def

lemma sample_prepared: "\<exists>payload. prepareOpenRequest (gw_exchange (sample_gateway l q) 0) KindHttp = Inr payload"
proof -
  have "is_ok (parseOpenHttpMetadata (openHttp_members \<lparr>oh_kind = KindHttp, oh_method = units ''GET'', oh_path = units ''/'', oh_headers = [],
    oh_requestBodyEnded = False, oh_initialWindowBytes = INITIAL_STREAM_WINDOW_BYTES\<rparr>))"
    by code_simp
  then obtain m where "parseOpenHttpMetadata (openHttp_members \<lparr>oh_kind = KindHttp, oh_method = units ''GET'', oh_path = units ''/'', oh_headers = [],
    oh_requestBodyEnded = False, oh_initialWindowBytes = INITIAL_STREAM_WINDOW_BYTES\<rparr>) = Inr m"
    by (cases "parseOpenHttpMetadata (openHttp_members \<lparr>oh_kind = KindHttp, oh_method = units ''GET'', oh_path = units ''/'', oh_headers = [],
    oh_requestBodyEnded = False, oh_initialWindowBytes = INITIAL_STREAM_WINDOW_BYTES\<rparr>)") simp_all
  moreover have "open_request_headers [] = []" by code_simp
  ultimately show ?thesis
    by (simp add: prepareOpenRequest_def encodeOpenHttpMetadata_def sample_gateway_def no_exchange_def)
qed

lemma sent_object: "gw_object (start_send k input g) = gw_object g"
  by (simp add: start_send_def log_effect_def split: sum.split)

lemma sample_admitted:
  "admitStream 0 (sample_gateway sample_active None) =
    (Inr True, on_session 0 (\<lambda>s. s\<lparr>g_streamsOpenedInWindow := 1\<rparr>) (sample_gateway sample_active None))"
  by (simp add: admitStream_def config_limit_def on_session_def)
    (simp add: sample_gateway_def sample_tunnel_def no_session_def new_gateway_def json_int_def config_limit_def Let_def on_session_def)

lemma sample_opened:
  "\<exists>g'. open_stream sample_params KindHttp 0 0 [] None payload (on_session 0 (\<lambda>s. s\<lparr>g_streamsOpenedInWindow := 1\<rparr>) (sample_gateway sample_active None)) =
      (Inr (Some 5), g') \<and>
    lifecycle (gw_object g' 0) = ACTIVE \<lparr>activatedAt = 0, generation = 1, activeStreamCount = 1, lastStreamClosedAt = 0\<rparr> \<and>
    map_get (g_streams (gw_object g' 0)) 1 = Some 5"
  apply (simp add: sample_gateway_def sample_tunnel_def no_session_def new_gateway_def sample_active_def on_session_def)
  apply (simp add: open_stream_def run_simps issue_stream_id_def alloc_stream_def on_session_def captureGatewayTransport_def enter_stream_def
       beginGatewayStream_def transition_def transitionSession_def issue_def expireActiveIfNeeded_eq sample_params_def DEFAULT_SESSION_POLICY_def)
  apply (simp add: run_simps out_openStream_def openStream_def in_openStream_def in_op_def gateway_openStream_def 
   guard_simps INITIAL_STREAM_WINDOW_BYTES_def no_inbound_def new_gatewayInbound_def new_retiredBudget_def MAX_SAFE_INTEGER_def
   drainWaiters_def set_out_def set_in_def on_stream_def log_effect_def sent_object on_session_def)
 done

lemma sample_answered:
  "\<exists>g'. handleReviewerRequest sample_params (Some (units ''t1'')) 0 None (sample_gateway sample_active None) = (Inr (Some 5), g') \<and>
    lifecycle (gw_object g' 0) = ACTIVE \<lparr>activatedAt = 0, generation = 1, activeStreamCount = 1, lastStreamClosedAt = 0\<rparr> \<and>
    map_get (g_streams (gw_object g' 0)) 1 = Some 5"
proof -
  let ?g = "sample_gateway sample_active None"
  obtain payload where p: "prepareOpenRequest (gw_exchange ?g 0) KindHttp = Inr payload" using sample_prepared by blast
  have "\<not> request_gone (gw_exchange ?g 0)" "ex_contentLength (gw_exchange ?g 0) = None" 
    by (simp_all add: sample_gateway_def no_exchange_def request_gone_def)
  moreover have "available_session ?g (Some (units ''t1'')) = Some 0"
    by (simp add: sample_gateway_def available_session_def session_of_def sample_tunnel_def sample_active_def)
  ultimately show ?thesis using sample_opened [of payload]
    by (auto simp: handleReviewerRequest_def run_simps p sample_admitted parseContentLength_def)
qed

lemma sample_resumed:
  "g_socket (gw_object (snd (hello_resume sample_params sample_random 4 sample_hello (Some sample_developer) (sample_gateway sample_lost None))) 0) = 4"
proof -
  let ?g = "sample_gateway sample_lost None" and ?Q = "\<lambda>g. g_socket (gw_object g 0) = 4"
  let ?c = "\<lparr>r_activatedAt = 0, r_generation = 1, disconnectedAt = 5, r_lastStreamClosedAt = 0, candidateAttemptId = Some ''a1'',
     candidateGeneration = Some 2, lastIssuedGeneration = Some 2\<rparr>"
  have o: "gw_object ?g 0 = sample_tunnel sample_lost None" "gw_clock ?g = 10" "session_of ?g (Some (hm_tunnelId sample_hello)) = Some 0"
    by (simp_all add: sample_gateway_def sample_hello_def session_of_def)
  have t: "transitionSession sample_lost (START_RESUME 10 (rnd_attemptId sample_random)) (p_policy sample_params) = Inr (RECONNECTING ?c)"
    by (simp add: sample_lost_def sample_random_def sample_params_def transitionSession_def expireReconnectIfNeeded_def isResumeAllowed_def
        DEFAULT_SESSION_POLICY_def nextCandidateGeneration_def)
  have go: "\<not> resume_refused sample_params sample_hello (sample_tunnel sample_lost None) 10"
    "session_owner (sample_tunnel sample_lost None) = authorization_owner (Some sample_developer)"
    "\<not> config_differs sample_hello (sample_tunnel sample_lost None)" "lifecycle (sample_tunnel sample_lost None) = sample_lost"
    by (simp_all add: resume_refused_def resumeSecretMatches_def sample_hello_def sample_tunnel_def sample_lost_def sample_params_def
        isResumeAllowed_def DEFAULT_SESSION_POLICY_def session_owner_def authorization_owner_def sample_developer_def config_differs_def)
  have sent: "?Q (sendSessionConfig 0 t h) = ?Q h" for t h
  proof -
    have "same_gateway h (sendSessionConfig 0 t h)" by (simp add: same)
    then show ?thesis by (simp add: same_gateway_def same_session_def)
  qed
  have "after (resume_session sample_params 4 sample_hello (rnd_attemptId sample_random) 0)
      (\<lambda>_ g'. ?Q (sendSessionConfig 0 (captureGatewayTransport (gw_object g' 0)) g')) ?Q (on_session 0 (\<lambda>s. s\<lparr>lifecycle := RECONNECTING ?c\<rparr>) ?g)"
    by (rule after_mono [OF resume_placed [OF sample_params_ok, where n = 2]]) (simp_all add: sent on_session_def)
  then have "after (start_resume sample_params sample_random 4 sample_hello 0) (\<lambda>_. ?Q) ?Q ?g"
    using t by (simp add: start_resume_def wp o go applySessionTransition_def)
  then have "after (hello_resume sample_params sample_random 4 sample_hello (Some sample_developer)) (\<lambda>_. ?Q) ?Q ?g"
    by (simp add: hello_resume_def wp o go owners_equal)
  from after_snd [OF this] show ?thesis .
qed
definition sample_serving :: gateway where
  "sample_serving = finally_store (handleReviewerRequest sample_params (Some (units ''t1'')) 0 None) (sample_gateway sample_active None)"

lemma sample_serving_inv: "gateway_inv sample_serving"
  unfolding sample_serving_def by (rule accepted_kept [OF handleReviewerRequest_kept [OF sample_inv]])

lemma sample_serving_current: "isCurrentGatewaySessionStream sample_serving 0 1 5"
proof -
  have m: "map_get (g_streams (gw_object sample_serving 0)) 1 = Some 5" using sample_answered by (auto simp: sample_serving_def finally_store_def)
  then have "is_registered sample_serving 0" using sample_serving_inv by (auto simp: gateway_inv_def base_ok_def)
  moreover from this m sample_serving_inv have "stream_ok sample_serving 0 1 5" by (simp add: gateway_inv_def base_ok_def entries_ok_def)
  ultimately show ?thesis using m by (simp add: isCurrentGatewaySessionStream_def isCurrentGatewayStream_def stream_ok_def
      isCurrentGatewayTransport_def captureGatewayTransport_def)
qed

lemma sample_serving:
  "lifecycle (gw_object sample_serving 0) = ACTIVE \<lparr>activatedAt = 0, generation = 1, activeStreamCount = 1, lastStreamClosedAt = 0\<rparr>"
  "is_registered sample_serving 0" "map_get (g_streams (gw_object sample_serving 0)) 1 = Some 5"
proof -
  show l: "lifecycle (gw_object sample_serving 0) = ACTIVE \<lparr>activatedAt = 0, generation = 1, activeStreamCount = 1, lastStreamClosedAt = 0\<rparr>"
    "map_get (g_streams (gw_object sample_serving 0)) 1 = Some 5"
    using sample_answered by (auto simp: sample_serving_def finally_store_def)
  then show "is_registered sample_serving 0" using sample_serving_inv by (auto simp: gateway_inv_def base_ok_def)
qed

section \<open>The books of an active session\<close>

lemma active_books:
  assumes "gateway_inv g" "is_registered g r" "lifecycle (gw_object g r) = ACTIVE a"
  shows "activeStreamCount a = map_size (g_streams (gw_object g r)) \<and> activeStreamCount a \<le> max 0 (stream_limit (gw_object g r)) \<and>
    (\<forall>i st. map_get (g_streams (gw_object g r)) i = Some st \<longrightarrow>
      isCurrentGatewaySessionStream g r i st \<and> \<not> gs_cancelled (gw_stream g st) \<and> wasIssued (g_streamIds (gw_object g r)) (Integral i) \<and>
      i \<in> out_ids (gw_out g (g_outboundFlow (gw_object g r))) \<and> i \<in> in_ids (gw_in g (g_inboundFlow (gw_object g r))))"
proof -
  have ok: "entries_ok g r" "session_ok g r" using assms by (auto simp: gateway_inv_def base_ok_def)
  have ids: "out_ids (gw_out g (g_outboundFlow (gw_object g r))) = session_ids (gw_object g r)"
    "in_ids (gw_in g (g_inboundFlow (gw_object g r))) = session_ids (gw_object g r)"
    using ok(2) assms(3) by (simp_all add: session_ok_def flows_ok_def)
  have count: "activeStreamCount a = map_size (g_streams (gw_object g r))" using ok(2) assms(3) by (simp add: session_ok_def)
  have "isCurrentGatewaySessionStream g r i st \<and> \<not> gs_cancelled (gw_stream g st)" if "map_get (g_streams (gw_object g r)) i = Some st" for i st
    using ok(1) assms(2) that by (simp add: entries_ok_def stream_ok_def isCurrentGatewaySessionStream_def isCurrentGatewayStream_def
        isCurrentGatewayTransport_def captureGatewayTransport_def)
  moreover have "i \<in> session_ids (gw_object g r)" if "map_get (g_streams (gw_object g r)) i = Some st" for i st
    using that by (auto simp: session_ids_def)
  ultimately show ?thesis using ok(1) count unfolding entries_ok_def ids by auto
qed

section \<open>Properties\<close>

text \<open>
  C1. Every store the gateway can reach is well formed: whatever requests, frames, timers, socket failures, switch changes
  and revalidation answers arrive, in whatever order, with every handler split at its awaits, the registered
  sessions are keyed by their ids, share no flow window and no carrier, their lifecycle, streams, probe and
  windows agree, and no session outlives its disposal.
\<close>

theorem gateway_wellformed:
  assumes "params_ok p"
  shows "gateway_inv (gateway_after p now initialKillSwitch events)"
  by (rule gateway_after_inv [OF assms])

theorem gateway_wellformed_witness:
  "gateway_inv (gateway_after sample_params 0 False [CarrierAttached None 0, CarrierMessage 0 40, CarrierReceive True
     \<lparr>rnd_sessionId = [], rnd_provisionId = [], rnd_resumeSecret = [], rnd_attemptId = [], rnd_nonce = []\<rparr> 0 False [], CarrierEnded 0, KillSwitch True])"
  by (rule gateway_wellformed [OF sample_params_ok])

text \<open>
  C20. The books of active sessions balance after every run of handlers: start in any well-formed store and let any requests,
  frames, timers, continuations, socket failures, switch changes and revalidation answers arrive in any order. Then the
  lifecycle of each session that is active counts exactly the streams of its map, they are within the negotiated
  limit, and each of them is on the session's current transport, not cancelled, with an id that was issued
  and that both flow windows know. So every way to open a stream counts it and every way to remove one gives it back.
\<close>

theorem streams_accounted:
  assumes "params_ok p" "gateway_inv g" and g': "g' = run_machine (gateway_step p) g events"
    and "is_registered g' r" "lifecycle (gw_object g' r) = ACTIVE a"
  shows "activeStreamCount a = map_size (g_streams (gw_object g' r)) \<and> activeStreamCount a \<le> max 0 (stream_limit (gw_object g' r)) \<and>
    (\<forall>i st. map_get (g_streams (gw_object g' r)) i = Some st \<longrightarrow>
      isCurrentGatewaySessionStream g' r i st \<and> \<not> gs_cancelled (gw_stream g' st) \<and> wasIssued (g_streamIds (gw_object g' r)) (Integral i) \<and>
      i \<in> out_ids (gw_out g' (g_outboundFlow (gw_object g' r))) \<and> i \<in> in_ids (gw_in g' (g_inboundFlow (gw_object g' r))))"
proof -
  have "gateway_inv g'" using server.run_keeps_inv [of "(p, g)" events] assms(1,2) by (simp add: g' server_run)
  then show ?thesis using assms(4,5) by (rule active_books)
qed

lemma sample_request_step:
  "run_machine (gateway_step sample_params) (sample_gateway sample_active None) [ReviewerRequest (Some (units ''t1'')) 0 None] = sample_serving"
  by (simp add: gateway_step_def sample_serving_def)

theorem streams_accounted_witness:
  "lifecycle (gw_object sample_serving 0) = ACTIVE \<lparr>activatedAt = 0, generation = 1, activeStreamCount = 1, lastStreamClosedAt = 0\<rparr> \<and>
   1 = map_size (g_streams (gw_object sample_serving 0)) \<and> isCurrentGatewaySessionStream sample_serving 0 1 5"
  using streams_accounted [OF sample_params_ok sample_inv sample_request_step [symmetric] sample_serving(2,1)] sample_serving by simp

text \<open>
  C3. While the kill switch is on, no session is available to reviewers: a request or an upgrade is refused for every
  tunnel, in every store the gateway can reach.
\<close>

theorem killed_unavailable:
  assumes "params_ok p" "gw_killSwitch (gateway_after p now initialKillSwitch events)"
  shows "available_session (gateway_after p now initialKillSwitch events) tunnelId = None"
proof (rule ccontr)
  let ?g = "gateway_after p now initialKillSwitch events"
  assume "available_session ?g tunnelId \<noteq> None"
  then obtain r where r: "available_session ?g tunnelId = Some r" by auto
  note inv = gateway_after_inv [OF assms(1), of now initialKillSwitch events]
  from available [OF inv r] inv assms(2) show False by (cases "lifecycle (gw_object ?g r)") (auto simp: gateway_inv_def session_ok_def)
qed

theorem killed_unavailable_witness:
  "gw_killSwitch (gateway_after sample_params 0 False [KillSwitch True]) \<and>
   available_session (gateway_after sample_params 0 False [KillSwitch True]) (Some (units ''t1'')) = None"
proof -
  have "gw_killSwitch (gateway_after sample_params 0 False [KillSwitch True])"
    by (simp add: gateway_step_def finally_store_def switch_enabled)
  with killed_unavailable [OF sample_params_ok this] show ?thesis by simp
qed

text \<open>
  C21. Turning the kill switch on ends without a throw, with the switch on and no session left.
\<close>

theorem kill_switch_terminates:
  assumes "gateway_inv g" "\<not> gw_killSwitch g"
  shows "\<exists>g'. updateKillSwitch p True g = (Inr (), g') \<and> gw_killSwitch g' \<and> gw_sessions g' = [] \<and> gateway_inv g'"
proof -
  from after_total [OF switching [OF assms(1), of True p]] assms(2) obtain a g' where
    g': "updateKillSwitch p True g = (Inr a, g')" "gateway_inv g'" "\<forall>r. \<not> is_registered g' r" by auto
  with switch_enabled [of p True g] no_sessions [of g'] show ?thesis by (simp add: gateway_inv_def)
qed

theorem kill_switch_terminates_witness:
  "gw_sessions (sample_gateway sample_active None) = [(units ''t1'', 0)] \<and>
   gw_sessions (snd (updateKillSwitch sample_params True (sample_gateway sample_active None))) = []"
  using kill_switch_terminates [OF sample_inv, of sample_params] by (auto simp: sample_gateway_def new_gateway_def)

text \<open>
  C2. A session that waits for its client moves to a new carrier only for a HELLO within the grace period that proves the
  session's secret, comes from the same account and authorization version, and names the same local origin
  and projection; no other attempt may be under way, and the session gets a generation above every one it had.
\<close>

theorem resume_authorized:
  assumes "params_ok p" "gateway_inv g" "session_of g (Some (hm_tunnelId hello)) = Some r"
    and "g_socket (gw_object (snd (hello_resume p rnd k hello authorization g)) r) \<noteq> g_socket (gw_object g r)"
  shows "\<exists>c secret. lifecycle (gw_object g r) = RECONNECTING c \<and> isResumeAllowed (gw_clock g) (disconnectedAt c) (p_policy p) \<and>
    hm_resumeSecret hello = Some secret \<and> p_hmac p secret = g_resumeDigest (gw_object g r) \<and>
    session_owner (gw_object g r) = authorization_owner authorization \<and> \<not> config_differs hello (gw_object g r) \<and>
    candidateGeneration c = None \<and> g_socket (gw_object (snd (hello_resume p rnd k hello authorization g)) r) = k \<and>
    g_generation (gw_object (snd (hello_resume p rnd k hello authorization g)) r) = nextCandidateGeneration c \<and>
    r_generation c < nextCandidateGeneration c"
proof -
  have reg: "is_registered g r" using assms(2,3) by (auto simp: session_of_def gateway_inv_def base_ok_def is_registered_def)
  have rejected: "g_socket (gw_object (rejectCarrier k n c m g) r) = g_socket (gw_object g r)" for n c m
  proof -
    have "same_gateway g (rejectCarrier k n c m g)" by (simp add: same)
    then show ?thesis by (simp add: same_gateway_def same_session_def)
  qed
  let ?s = "gw_object g r"
  have guards: "\<not> resume_refused p hello ?s (gw_clock g)" "session_owner ?s = authorization_owner authorization" "\<not> config_differs hello ?s"
    and start: "snd (hello_resume p rnd k hello authorization g) = snd (start_resume p rnd k hello r g)"
    using assms(3,4) rejected
    by (auto simp: hello_resume_def bindM_def read_gateway_def update_gateway_def owners_equal split: if_splits)
  from resume_open_reconnecting [OF guards(1)] obtain c where c: "lifecycle ?s = RECONNECTING c" by blast
  from resume_started [OF assms(1,2) reg c] assms(4) guards c show ?thesis
    unfolding start by (auto simp: resume_refused_def resumeSecretMatches_def Let_def split: option.splits)
qed

theorem resume_authorized_witness:
  "g_socket (gw_object (sample_gateway sample_lost None) 0) = 3 \<and>
   g_socket (gw_object (snd (hello_resume sample_params sample_random 4 sample_hello (Some sample_developer) (sample_gateway sample_lost None))) 0) = 4 \<and>
   p_hmac sample_params (units ''s3cret'') = g_resumeDigest (gw_object (sample_gateway sample_lost None) 0)"
proof -
  have s: "session_of (sample_gateway sample_lost None) (Some (hm_tunnelId sample_hello)) = Some 0"
    and a: "g_socket (gw_object (sample_gateway sample_lost None) 0) = 3"
    by (simp_all add: sample_gateway_def sample_hello_def session_of_def sample_tunnel_def)
  from a sample_resumed have "g_socket (gw_object (snd (hello_resume sample_params sample_random 4 sample_hello (Some sample_developer)
    (sample_gateway sample_lost None))) 0) \<noteq> g_socket (gw_object (sample_gateway sample_lost None) 0)" by simp
  from resume_authorized [OF sample_params_ok sample_lost_inv s this] a sample_resumed show ?thesis by (auto simp: sample_hello_def)
qed

text \<open>
  C22. A frame of another generation than the session's ends its connection: the handler throws, the socket is closed and
  receives no more, and no session, stream or flow window changes.
\<close>

theorem stale_generation_rejected:
  assumes "\<not> cn_receiveFailed (gw_connection g k)" "cn_session (gw_connection g k) = Some r" "decodeEnvelope bytes = Inr e"
    "envGeneration e \<noteq> Integral (g_generation (gw_object g r))"
  shows "fst (carrier_frame p ready rnd k True bytes g) = Inl (FrameFailed ''stale Carrier generation'') \<and>
    gw_sessions (carrier_receive p ready rnd k True bytes g) = gw_sessions g \<and>
    gw_object (carrier_receive p ready rnd k True bytes g) = gw_object g \<and>
    gw_stream (carrier_receive p ready rnd k True bytes g) = gw_stream g \<and>
    gw_out (carrier_receive p ready rnd k True bytes g) = gw_out g \<and> gw_in (carrier_receive p ready rnd k True bytes g) = gw_in g \<and>
    cn_receiveFailed (gw_connection (carrier_receive p ready rnd k True bytes g) k) \<and>
    \<not> is_open (carrier_receive p ready rnd k True bytes g) k"
proof -
  have "carrier_frame p ready rnd k True bytes g = (Inl (FrameFailed ''stale Carrier generation''), g)"
    using assms by (simp add: carrier_frame_def session_frame_def run_simps)
  with assms(1) show ?thesis
    by (simp add: carrier_receive_def caught_def carrier_failed_def close_socket_def log_effect_def on_connection_def)
qed

theorem stale_generation_rejected_witness:
  "\<not> is_open (carrier_receive sample_params True sample_random 3 True [0x52, 0x54, 1, 1, 0, 0, 0, 0, 1, 2, 0, 0, 0, 0, 0, 0]
     (sample_gateway sample_active None)) 3"
proof -
  have "decodeEnvelope [0x52, 0x54, 1, 1, 0, 0, 0, 0, 1, 2, 0, 0, 0, 0, 0, 0]
      = Inr \<lparr>envType = Ping, envFlags = Integral 0, envGeneration = Integral 258, envStreamId = Integral 0, envPayload = [], envVersion = 1\<rparr>"
    by (simp add: decodeEnvelope_Inr getUint8_def getUint16_def getUint32_def shift_in_def CONTROL_FRAME_TYPES_def EMPTY_PAYLOAD_FRAME_TYPES_def)
  from stale_generation_rejected [OF _ _ this, of "sample_gateway sample_active None" 3 0 sample_params True sample_random] show ?thesis
    by (simp add: sample_gateway_def sample_tunnel_def)
qed

text \<open>
  C23. Authorization ends on time: the periodic tick ends without a throw and leaves no registered session whose developer
  was last authorized longer ago than allowed.
\<close>

theorem overdue_session_expired:
  assumes "gateway_inv g" "is_registered g r" "is_live (lifecycle (gw_object g r))"
    "g_developerAuthorizedAt (gw_object g r) + p_authorizationMaxAgeMs p \<le> gw_clock g"
  shows "\<exists>g'. session_tick p g = (Inr (), g') \<and> \<not> is_registered g' r \<and> gateway_inv g'"
proof -
  have "overdue p r g" using assms(3,4) by (simp add: overdue_def)
  from after_total [OF session_tick_away [OF assms(1,2) this]] show ?thesis by auto
qed

theorem overdue_session_expired_witness:
  "\<not> is_registered (snd (session_tick (sample_params\<lparr>p_authorizationMaxAgeMs := 10\<rparr>) (sample_gateway sample_active None))) 0"
proof -
  have "is_live (lifecycle (gw_object (sample_gateway sample_active None) 0))"
    "g_developerAuthorizedAt (gw_object (sample_gateway sample_active None) 0) + p_authorizationMaxAgeMs (sample_params\<lparr>p_authorizationMaxAgeMs := 10\<rparr>) \<le>
      gw_clock (sample_gateway sample_active None)"
    by (simp_all add: sample_gateway_def sample_tunnel_def sample_active_def no_session_def)
  from overdue_session_expired [OF sample_inv _ this] show ?thesis by (auto simp: sample_registered)
qed

text \<open>
  C24. Revalidation of developers fails closed: when the check of the developer behind the current carrier is refused or
  cannot be made, the session is gone afterwards.
\<close>

theorem developer_revoked:
  assumes "gateway_inv g" "isCurrentGatewaySessionTransport g (ds_session snapshot) (ds_transport snapshot)" "result \<noteq> Fulfilled True"
  shows "\<exists>g'. developer_result p (snapshot, result) g = (Inr (), g') \<and> \<not> is_registered g' (ds_session snapshot) \<and> gateway_inv g'"
proof -
  have gone: "after (terminateGatewaySession p (ds_session snapshot) c n) (\<lambda>_ g'. \<not> is_registered g' (ds_session snapshot) \<and> gateway_inv g') (\<lambda>_. False) h"
    if "gateway_inv h" for c n h
    by (rule after_mono [OF terminating]) (use that in \<open>auto simp: gateway_inv_others disposed_def\<close>)
  have "gateway_inv (log_effect e g)" for e by (rule same_inv [OF same_effects(1) [OF same_refl(6)] assms(1)])
  with gone assms have "after (developer_result p (snapshot, result)) (\<lambda>_ g'. \<not> is_registered g' (ds_session snapshot) \<and> gateway_inv g') (\<lambda>_. False) g"
    by (auto simp: developer_result_def wp split: checkResult.split bool.split)
  from after_total [OF this] show ?thesis by auto
qed

theorem developer_revoked_witness:
  "\<not> is_registered (snd (developer_result sample_params (\<lparr>ds_session = 0, ds_transport = captureGatewayTransport (gw_object sample_serving 0),
     ds_accountId = ''ada'', ds_accountAuthVersion = 1\<rparr>, Rejected) sample_serving)) 0"
proof -
  have "isCurrentGatewaySessionTransport sample_serving 0 (captureGatewayTransport (gw_object sample_serving 0))"
    using sample_serving(2) by (simp add: isCurrentGatewaySessionTransport_def isCurrentGatewayTransport_def captureGatewayTransport_def)
  with developer_revoked [OF sample_serving_inv, of "\<lparr>ds_session = 0, ds_transport = captureGatewayTransport (gw_object sample_serving 0),
     ds_accountId = ''ada'', ds_accountAuthVersion = 1\<rparr>" Rejected sample_params] show ?thesis by auto
qed

text \<open>
  C10. Revalidation of reviewers fails closed: when the check of the reviewer behind a current stream is refused or cannot
  be made, the stream is cancelled and in no session afterwards.
\<close>

theorem reviewer_revoked:
  assumes "gateway_inv g" "isCurrentGatewaySessionStream g (rs_session snapshot) (rs_streamId snapshot) (rs_stream snapshot)"
    "result \<noteq> Fulfilled True"
  shows "\<exists>g'. reviewer_result p (snapshot, result) g = (Inr (), g') \<and> gs_cancelled (gw_stream g' (rs_stream snapshot)) \<and>
    (\<forall>r i. map_get (g_streams (gw_object g' r)) i \<noteq> Some (rs_stream snapshot)) \<and> gateway_inv g'"
proof -
  let ?g = "if result = Rejected then log_effect (Emit ''authorization.revalidation_failed'' (Some (rs_session snapshot))) g else g"
  have s: "same_gateway g ?g" by (simp add: same)
  have "isCurrentGatewayStream ?g (rs_session snapshot) (rs_streamId snapshot) (rs_stream snapshot)"
    using assms(2) same_current [OF s] by (simp add: isCurrentGatewaySessionStream_def)
  from revoked [OF same_inv [OF s assms(1)] this] have
    "after (reviewer_result p (snapshot, result)) (\<lambda>_ g'. gateway_inv g' \<and> gs_cancelled (gw_stream g' (rs_stream snapshot))) (\<lambda>_. False) g"
    using assms(2,3) by (simp add: reviewer_result_def wp)
  from after_total [OF this] obtain g' where g': "reviewer_result p (snapshot, result) g = (Inr (), g')" "gateway_inv g'"
    "gs_cancelled (gw_stream g' (rs_stream snapshot))" by auto
  from cancelled_gone [OF g'(2,3)] g' show ?thesis by blast
qed

theorem reviewer_revoked_witness:
  "map_get (g_streams (gw_object (snd (reviewer_result sample_params (\<lparr>rs_session = 0, rs_streamId = 1, rs_stream = 5,
     rs_accountId = ''bob'', rs_accountAuthVersion = 1\<rparr>, Fulfilled False) sample_serving)) 0)) 1 \<noteq> Some 5"
proof -
  have "isCurrentGatewaySessionStream sample_serving 0 1 5" using sample_serving_current .
  with reviewer_revoked [OF sample_serving_inv, of "\<lparr>rs_session = 0, rs_streamId = 1, rs_stream = 5, rs_accountId = ''bob'',
     rs_accountAuthVersion = 1\<rparr>" "Fulfilled False" sample_params] show ?thesis by auto
qed

text \<open>
  C12. A request is forwarded only to an active session with an open carrier and room for one more stream, with the kill
  switch off; the stream it gets is then a current stream of that session.
\<close>

theorem request_accepted:
  assumes "gateway_inv g" "handleReviewerRequest p tunnelId x reviewer g = (Inr (Some st), g')"
  shows "\<exists>r. session_of g tunnelId = Some r \<and> is_active (lifecycle (gw_object g r)) \<and> is_open g (g_socket (gw_object g r)) \<and>
    \<not> gw_killSwitch g \<and> map_size (g_streams (gw_object g r)) < stream_limit (gw_object g r) \<and>
    gs_session (gw_stream g' st) = r \<and> current_session_stream_of g' st \<and> gateway_inv g'"
proof -
  from request_opened [OF assms] obtain r where r: "available_session g tunnelId = Some r"
    "map_size (g_streams (gw_object g r)) < stream_limit (gw_object g r)" "opened r (Some st) g'" by blast
  from r(1) have av: "session_of g tunnelId = Some r" "is_active (lifecycle (gw_object g r))" "is_open g (g_socket (gw_object g r))"
    by (auto simp: available_session_def split: option.splits if_splits)
  have "\<not> gw_killSwitch g"
    using available [OF assms(1) r(1)] assms(1) by (cases "lifecycle (gw_object g r)") (auto simp: gateway_inv_def session_ok_def)
  with av r show ?thesis by (auto simp: opened_def)
qed

theorem request_accepted_witness:
  "fst (handleReviewerRequest sample_params (Some (units ''t1'')) 0 None (sample_gateway sample_active None)) = Inr (Some 5) \<and>
   current_session_stream_of (snd (handleReviewerRequest sample_params (Some (units ''t1'')) 0 None (sample_gateway sample_active None))) 5"
proof -
  obtain g' where g': "handleReviewerRequest sample_params (Some (units ''t1'')) 0 None (sample_gateway sample_active None) = (Inr (Some 5), g')"
    using sample_answered by blast
  with request_accepted [OF sample_inv g'] show ?thesis by auto
qed

text \<open>
  C11. A session becomes active only when its client has echoed the whole probe: by an END frame of the session's
  generation on the probe's stream, while the session is registered, the kill switch is off, the gateway admits
  tunnels and the limits of active tunnels leave room for it.
\<close>

theorem activation_needs_probe:
  assumes "\<not> is_active (lifecycle (gw_object g r))" "is_active (lifecycle (gw_object (snd (session_frame p ready rnd k r e g)) r))"
  shows "\<exists>pr. g_probe (gw_object g r) = Some pr \<and> envType e = EndStream \<and> to_int (envStreamId e) = pr_streamId pr \<and>
    pr_received pr = pr_expected pr \<and> \<not> pr_clientEnded pr \<and> envGeneration e = Integral (g_generation (gw_object g r)) \<and>
    is_registered g r \<and> \<not> gw_killSwitch g \<and> ready \<and>
    canActivateTunnel (p_admissionLimits p) (registered_views (on_session r (\<lambda>s. s\<lparr>g_probe := Some (pr\<lparr>pr_clientEnded := True\<rparr>)\<rparr>) g))
      (r, (gw_object g r)\<lparr>g_probe := Some (pr\<lparr>pr_clientEnded := True\<rparr>)\<rparr>)"
proof -
  have "envGeneration e = Integral (g_generation (gw_object g r)) \<and> is_registered g r \<and> probe_complete p ready r e g"
  proof (rule ccontr)
    assume "\<not> ?thesis"
    from frame_state [OF assms(1) this, of rnd k] assms show False by (simp add: same_state_def)
  qed
  then show ?thesis by (auto simp: probe_complete_def split: option.splits)
qed

definition sample_probe :: probe where
  "sample_probe = \<lparr>pr_id = 0, pr_streamId = 1, pr_expected = [7], pr_received = [7], pr_receivedBytes = 1, pr_clientEnded = False\<rparr>"

definition sample_end :: envelope where
  "sample_end = \<lparr>envType = EndStream, envFlags = Integral 0, envGeneration = Integral 1, envStreamId = Integral 1, envPayload = [], envVersion = 1\<rparr>"

lemma sample_activated:
  "is_active (lifecycle (gw_object (snd (session_frame sample_params True sample_random 3 0 sample_end (sample_gateway CREATING (Some sample_probe)))) 0))"
proof -
  let ?g = "sample_gateway CREATING (Some sample_probe)"
  have o: "gw_object ?g 0 = sample_tunnel CREATING (Some sample_probe)" "\<not> gw_killSwitch ?g" by (simp_all add: sample_gateway_def new_gateway_def)
  have s: "g_generation (sample_tunnel l (Some sample_probe)) = 1" "\<not> terminated (sample_tunnel l (Some sample_probe))"
    "g_probe (sample_tunnel l (Some sample_probe)) = Some sample_probe" "lifecycle (sample_tunnel l q) = l" for l q
    by (simp_all add: sample_tunnel_def)
  have "snd (session_frame sample_params True sample_random 3 0 sample_end ?g) = snd (probe_end sample_params True 3 0 sample_probe ?g)"
    by (simp add: session_frame_def run_simps sample_registered o s activation_frame_def) (simp add: sample_end_def sample_probe_def)
  moreover have "is_active (lifecycle (gw_object (snd (probe_end sample_params True 3 0 sample_probe ?g)) 0))"
  proof -
    have c: "canActivateTunnel (p_admissionLimits sample_params) (registered_views (on_session 0 h ?g)) (0, q)" for h and q :: gatewaySession
      by (simp add: canActivateTunnel_def registered_views_def sample_gateway_def sample_params_def sample_limits_def admission_limits_def
          count_if_def)
    have empty: "inboundStreams no_inbound = []"
      by (simp add: no_inbound_def new_gatewayInbound_def new_retiredBudget_def MAX_SAFE_INTEGER_def guard_simps)
    have pr: "\<not> pr_clientEnded sample_probe" "pr_received sample_probe = pr_expected sample_probe" by (simp_all add: sample_probe_def)
    show ?thesis
      by (simp add: probe_end_def run_simps o s pr c)
        (simp add: activate_session_def run_simps commit_activation_def in_closeStream_def in_op_def gateway_closeStream_def empty
          out_closeStream_def transition_def transitionSession_def sent_object sample_gateway_def sample_tunnel_def new_gateway_def)
  qed
  ultimately show ?thesis by simp
qed

theorem activation_needs_probe_witness:
  "is_active (lifecycle (gw_object (snd (session_frame sample_params True sample_random 3 0 sample_end (sample_gateway CREATING (Some sample_probe)))) 0)) \<and>
   g_probe (gw_object (sample_gateway CREATING (Some sample_probe)) 0) = Some sample_probe \<and> pr_received sample_probe = pr_expected sample_probe"
proof -
  have "\<not> is_active (lifecycle (gw_object (sample_gateway CREATING (Some sample_probe)) 0))" by (simp add: sample_gateway_def sample_tunnel_def)
  from activation_needs_probe [OF this sample_activated] sample_activated show ?thesis by (auto simp: sample_gateway_def sample_tunnel_def)
qed

end
