(* ===== verification/Spec2Isabelle.thy ===== *)
theory Spec2Isabelle
  imports SessionState Carrier FlowLink StreamIds AuthServiceProps ReviewServiceProps HeaderPipeline Admission
    OperationalState RawHead GatewaySafety
begin

text \<open>
  A verification library for Review Tunnel, which lets reviewers open a developer's local web server through
  a public gateway and comment on what they see.

  \<^bold>\<open>The program.\<close> A developer's client keeps one carrier, a WebSocket, to the gateway. On it the two exchange binary
  frames (\<^verbatim>\<open>packages/protocol\<close>): a HELLO with a credential, the configuration of the session, a probe that the
  client echoes, and then one stream per request of a reviewer, with credit-based flow control
  (\<^verbatim>\<open>packages/relay\<close>). The gateway (\<^verbatim>\<open>apps/gateway\<close>) admits carriers and requests, rewrites headers together with
  the client (\<^verbatim>\<open>packages/proxy\<close>), ends sessions whose carrier, authorization or lifetime has run out, and obeys an
  operator's kill switch (\<^verbatim>\<open>packages/operations\<close>). Accounts, logins, one-time codes and carrier credentials belong to
  the authentication service (\<^verbatim>\<open>packages/auth\<close>); projects, comments, mentions and notifications to the review
  service (\<^verbatim>\<open>packages/review\<close>). Each service works over a repository.

  \<^bold>\<open>The theories.\<close> Paths are below \<^verbatim>\<open>src/\<close>.

  \<^item> Foundations. \<open>Prelude\<close>: JavaScript numbers, maps and sets, and the locale \<open>invariant_machine\<close>, an invariant kept by every
    sequence of calls. \<open>JsString\<close>, \<open>Unicode\<close>, \<open>Bytes\<close>: string operations, UTF-16 and UTF-8, byte arrays.
    \<open>ServiceMonad\<close>: asynchronous methods as functions of a world that end with a result or an error, and the
    locale \<open>service_refinement\<close>.
  \<^item> Protocol. \<open>Envelope\<close> (\<^verbatim>\<open>packages/protocol/src/envelope.ts\<close>): the frame codec. \<open>SessionState\<close> (\<^verbatim>\<open>session-policy.ts\<close>,
    \<^verbatim>\<open>session-state.ts\<close>): the lifecycle of a session. \<open>Json\<close>, \<open>JsonRoundtrip\<close>: the platform's JSON. \<open>Metadata\<close>, \<open>SessionConfig\<close>,
    \<open>MetadataProps\<close> (\<^verbatim>\<open>http-metadata.ts\<close>, \<^verbatim>\<open>session-config.ts\<close>): the payloads of the control frames. \<open>RawHead\<close>: the raw head of an
    upgrade response, \<^verbatim>\<open>serializeRawHeaders\<close> of \<^verbatim>\<open>apps/gateway/src/gateway-streams.ts\<close>.
  \<^item> Flow control. \<open>FlowWindow\<close> (\<^verbatim>\<open>packages/relay/src/flow-window.ts\<close>), \<open>RetiredData\<close> (\<^verbatim>\<open>retired-data-budget.ts\<close>),
    \<open>Carrier\<close> (\<^verbatim>\<open>carrier.ts\<close>); the receive windows \<open>GatewayInbound\<close> and \<open>ClientInbound\<close> (\<^verbatim>\<open>inbound-flow.ts\<close> of either app), which
    interpret the locale of \<open>ReceiveWindow\<close>; \<open>FlowLink\<close>: the client's sending window, the gateway's receive window and the
    frames in flight between them as one machine; \<open>StreamIds\<close> (\<^verbatim>\<open>gateway-stream-ids.ts\<close>, \<^verbatim>\<open>remote-stream-lifecycle.ts\<close>).
  \<^item> Headers. \<open>HeaderPolicy\<close>, \<open>ProjectionPolicy\<close> (\<^verbatim>\<open>packages/proxy/src\<close>) and \<open>HeaderPipeline\<close>, their composition as gateway
    and client call them.
  \<^item> Authentication (\<^verbatim>\<open>packages/auth/src\<close>). \<open>AuthModel\<close>: data and policies; \<open>AuthRepository\<close>: the in-memory repository;
    \<open>AuthInvariants\<close>, \<open>AuthProperties\<close>: what it keeps; \<open>AuthService\<close>, \<open>AuthServiceProps\<close>: the service over it.
  \<^item> Review (\<^verbatim>\<open>packages/review/src\<close>). \<open>ReviewModel\<close>, \<open>ReviewRepository\<close>, \<open>ReviewInvariants\<close>, \<open>ReviewProps\<close>, \<open>ReviewService\<close>,
    \<open>ReviewServiceProps\<close>, in the same order.
  \<^item> Admission and operations. \<open>Lease\<close>: counters whose slots are returned by closures, with the locale \<open>lease_gate\<close>
    (\<^verbatim>\<open>keyed-concurrent-admission.ts\<close>, \<^verbatim>\<open>application-operation-budget.ts\<close>); \<open>Admission\<close> (\<^verbatim>\<open>gateway-admission.ts\<close>);
    \<open>OperationalState\<close> (\<^verbatim>\<open>packages/operations/src/operational-state.ts\<close>).
  \<^item> Gateway (\<^verbatim>\<open>apps/gateway/src\<close>). \<open>GatewayState\<close> (\<^verbatim>\<open>gateway-session.ts\<close>, \<^verbatim>\<open>gateway-session-lifecycle.ts\<close>, \<^verbatim>\<open>gateway-responses.ts\<close>):
    the store and the disposal of sessions; \<open>GatewayStreams\<close> (\<^verbatim>\<open>gateway-streams.ts\<close>): requests, upgrades and the frames of
    their streams; \<open>GatewayCarrier\<close> (\<^verbatim>\<open>gateway-carrier.ts\<close>, \<^verbatim>\<open>resume-authorization.ts\<close>): a carrier from its first frame to its
    end; \<open>GatewayOperations\<close> (\<^verbatim>\<open>gateway-operations.ts\<close>, \<^verbatim>\<open>authorization-revalidation.ts\<close>): timers, kill switch, revalidation.
    \<open>GatewayInv\<close> has the invariant and the weakest preconditions, \<open>GatewayDispose\<close>, \<open>GatewayStreamProps\<close>, \<open>GatewayCarrierProps\<close>,
    \<open>GatewayHelloProps\<close> and \<open>GatewayOperationProps\<close> show that each handler keeps it, \<open>GatewayMachine\<close> makes the handlers the
    events of one machine, \<open>GatewayProps\<close> has what handlers leave alone (locale \<open>store_relation\<close>), and \<open>GatewaySafety\<close> the properties.

  \<^bold>\<open>State and effects.\<close> The repositories, windows, limiters and caches are records, and their methods functions that
  return the result or the error with the new record. The gateway's handlers share objects that they compare
  by identity, so the gateway is a store with one heap per class and references as addresses; what a
  handler does to sockets, browsers, audit log and metrics is a log of effects. A handler is cut where the
  code awaits: each piece is a definition of its own, tests again what the code tests again after the await, and
  is an event of the machine. Events come in any order, which covers every schedule of the event loop and more:
  the order that the receive queue of a connection imposes is not used. Time stands still during an event.

  \<^bold>\<open>What is shown.\<close>
  \<^item> Codecs and headers: both round trips of frames, and of request metadata through validation, JSON and UTF-8; the
    canonical configuration determines the configuration; what the local origin sees of a request and the browser
    of an answer is specified for each header name, and no credential of the gateway passes. For a raw upgrade head this needs the head to be Latin-1: the second theorem about
    it is the case where the framing fails.
  \<^item> Lifecycle: the machine refines a phase diagram and its carrier generations are consecutive.
  \<^item> Flow control: credit is conserved, no waiter that could go on is left, and a chunk is sent whole, after at
    most one round per byte. Across the link, in any interleaving, the client refuses no frame of the gateway, and the gateway
    no DATA while the two windows agree on what is outstanding; they disagree when the client ends a response that
    the browser has not read yet, and a theorem gives the run in which the gateway then refuses DATA.
  \<^item> Repositories: their invariants over all sequences of calls (hence over all interleavings of requests, since a method
    has no await), and that each service changes its repository only by its calls, so that it keeps them; logins, administration, capabilities,
    one-time codes, lost updates, complete polling.
  \<^item> Admission: leases and reservations within their limits, the rate limiter over any interval, readiness that
    fails closed.
  \<^item> Gateway: one invariant over every sequence of events, and no handler that the invariant covers throws where the
    code does not mean to; the kill switch, a refused or impossible revalidation and an overdue authorization end what
    they must; a session is resumed, activated and used only under the conditions of the code; a frame of another
    generation changes nothing.

  \<^bold>\<open>Bounds and fuel.\<close> All definitions are total. The JSON lexer and parser consume a code unit or a token in each step. The
  sender's loop recurses over the outcomes of its awaits; a run whose outcomes end early is still waiting, and the
  termination theorem bounds the number of rounds by the number of bytes. No other definition has a bound of its own.

  \<^bold>\<open>Parameters.\<close> The clock, random values and ids, the password hasher, HMAC and SHA-256, the platform's URL parser,
  \<^verbatim>\<open>localeCompare\<close>, the share URL, the answers of the authentication service to a revalidation, and what a socket reports of
  a send.

  \<^bold>\<open>Not modelled.\<close> The client's connection and stream handlers (\<^verbatim>\<open>apps/client/src/client.ts\<close>), apart from its receive window,
  stream ids, sender, budget and headers. The HTTP server, its pages and cookies (\<^verbatim>\<open>server.ts\<close>, \<^verbatim>\<open>web-auth.ts\<close>, \<^verbatim>\<open>review-http.ts\<close>) and
  the parsing of proxy addresses and public origins, over Node's own parsers. Configuration and command lines. The
  PostgreSQL repositories, which are SQL text; the in-memory ones with the same ports are modelled. The browser code of the
  review interface. Metrics, diagnostics and the build plug-ins. In the gateway, the clean-up timer of the authentication
  service and the counter that bounds concurrent revalidations. In the review package, the encoding of page cursors
  and the floating-point normaliser of region anchors.
\<close>

end
